(* ===== verification/Prelude.thy ===== *)
theory Prelude
  imports Main "HOL-Library.Word" "HOL-Library.Char_ord" "HOL-Library.List_Lexorder"
begin

text \<open>
  Shared vocabulary of the development: the operations of \<open>std::string\<close> that the
  library uses (\<open>find\<close>, \<open>rfind\<close>, \<open>substr\<close>, \<open>compare\<close>, the decimal output of an
  integer), the locale of a three-way comparison that both \<open>QName\<close> and \<open>Jid\<close>
  provide, and generic facts on lists. A C++ string is a \<^typ>\<open>string\<close>; every element
  is one byte, \<open>of_char c\<close> is its unsigned value.
\<close>

named_theorems qname_consts \<comment> \<open>definitions of the qualified-name constants\<close>
named_theorems wf_intros \<comment> \<open>preservation of the component invariants\<close>

subsection \<open>Bytes of a string\<close>

abbreviation byte_of :: "char \<Rightarrow> nat" where
  "byte_of c \<equiv> of_char c"

abbreviation NUL :: char where
  "NUL \<equiv> CHR 0x00"

text \<open>A byte as a machine word, and back.\<close>

type_synonym byte = "8 word"

definition char_byte :: "char \<Rightarrow> byte" where
  "char_byte c = of_nat (byte_of c)"

definition byte_char :: "byte \<Rightarrow> char" where
  "byte_char b = char_of (unat b)"

lemma byte_of_less [simp]: "byte_of c < 256"
  using of_char_of [of "byte_of c"] by (metis char_of_char mod_less_divisor of_char_of zero_less_numeral)

lemma byte_of_inject [simp]: "byte_of c = byte_of d \<longleftrightarrow> c = d"
  by (rule of_char_eq_iff)

lemma byte_char_byte [simp]: "byte_char (char_byte c) = c"
  by (simp add: byte_char_def char_byte_def unat_of_nat)

subsection \<open>The string operations of the standard library\<close>

text \<open>\<open>isspace\<close> in the C locale.\<close>

definition is_space :: "char \<Rightarrow> bool" where
  "is_space ch \<longleftrightarrow> ch = CHR '' '' \<or> 9 \<le> byte_of ch \<and> byte_of ch \<le> 13"

text \<open>\<open>s.find(c)\<close>: index of the first occurrence, \<open>npos\<close> is \<^const>\<open>None\<close>.\<close>

definition find_char :: "char \<Rightarrow> string \<Rightarrow> nat option" where
  "find_char c s = (if c \<in> set s then Some (length (takeWhile (\<lambda>x. x \<noteq> c) s)) else None)"

text \<open>\<open>s.rfind(c)\<close> and \<open>s.find_last_of(c)\<close>: index of the last occurrence.\<close>

definition find_last_char :: "char \<Rightarrow> string \<Rightarrow> nat option" where
  "find_last_char c s =
     (if c \<in> set s then Some (length s - 1 - length (takeWhile (\<lambda>x. x \<noteq> c) (rev s))) else None)"

text \<open>\<open>s.substr(pos, n)\<close> for \<open>pos\<close> within the string.\<close>

definition substr :: "nat \<Rightarrow> nat \<Rightarrow> string \<Rightarrow> string" where
  "substr pos n s = take n (drop pos s)"

text \<open>\<open>a.compare(b)\<close>: byte-wise; only the sign of the C++ result is specified.\<close>

fun str_compare :: "string \<Rightarrow> string \<Rightarrow> int" where
  "str_compare [] [] = 0"
| "str_compare [] (b # bs) = -1"
| "str_compare (a # as) [] = 1"
| "str_compare (a # as) (b # bs) =
     (if byte_of a < byte_of b then -1 else if byte_of b < byte_of a then 1
      else str_compare as bs)"

text \<open>Decimal output of a non-negative integer on a \<open>std::ostream\<close>.\<close>

fun nat_to_dec :: "nat \<Rightarrow> string" where
  "nat_to_dec n =
     (if n < 10 then [char_of (48 + n)]
      else nat_to_dec (n div 10) @ [char_of (48 + n mod 10)])"

declare nat_to_dec.simps [simp del]

lemma takeWhile_neq: "c \<notin> set xs \<Longrightarrow> takeWhile (\<lambda>x. x \<noteq> c) (xs @ c # ys) = xs"
  by (induction xs) auto

lemma find_char_None_iff [simp]: "find_char c s = None \<longleftrightarrow> c \<notin> set s"
  by (simp add: find_char_def)

lemma find_char_append:
  "c \<notin> set xs \<Longrightarrow> find_char c (xs @ c # ys) = Some (length xs)"
  by (simp add: find_char_def takeWhile_neq)

lemma find_char_SomeD:
  assumes "find_char c s = Some i"
  shows "\<exists>ys. s = take i s @ c # ys \<and> c \<notin> set (take i s) \<and> i < length s"
proof -
  from assms have c: "c \<in> set s" and i: "i = length (takeWhile (\<lambda>x. x \<noteq> c) s)"
    by (auto simp: find_char_def split: if_splits)
  then obtain xs ys where s: "s = xs @ c # ys" and xs: "c \<notin> set xs"
    by (meson split_list_first)
  then have "i = length xs"
    using i by (simp add: takeWhile_neq)
  with s xs show ?thesis by auto
qed

lemma find_last_char_append:
  "c \<notin> set ys \<Longrightarrow> find_last_char c (xs @ c # ys) = Some (length xs)"
  using takeWhile_neq [of c "rev ys" "rev xs"] by (simp add: find_last_char_def)

lemma find_last_char_None_iff [simp]: "find_last_char c s = None \<longleftrightarrow> c \<notin> set s"
  by (simp add: find_last_char_def)

lemma find_char_absent [simp]: "c \<notin> set s \<Longrightarrow> find_char c s = None"
  by simp

lemma find_last_char_absent [simp]: "c \<notin> set s \<Longrightarrow> find_last_char c s = None"
  by simp

lemma find_last_char_SomeD:
  assumes "find_last_char c s = Some i"
  shows "\<exists>xs ys. s = xs @ c # ys \<and> c \<notin> set ys \<and> i = length xs"
proof -
  from assms have c: "c \<in> set s"
    by (auto simp: find_last_char_def split: if_splits)
  then obtain xs ys where s: "s = xs @ c # ys" and ys: "c \<notin> set ys"
    by (meson split_list_last)
  from ys have "find_last_char c s = Some (length xs)"
    unfolding s by (rule find_last_char_append)
  with assms s ys show ?thesis by auto
qed

lemma concat_map_singleton: "(\<And>x. x \<in> set xs \<Longrightarrow> f x = [x]) \<Longrightarrow> concat (map f xs) = xs"
  by (induction xs) auto

subsection \<open>Three-way comparison\<close>

text \<open>
  The contract of a \<open>Compare\<close> member function: the sign of its result is a strict
  linear order whose equality is equality of the values. \<open>operator<\<close> and the uses
  as a key of \<open>std::set\<close> and \<open>std::map\<close> rely on it.
\<close>

locale three_way =
  fixes cmp :: "'a \<Rightarrow> 'a \<Rightarrow> int"
  assumes cmp_eq: "cmp a b = 0 \<longleftrightarrow> a = b"
    and cmp_anti: "cmp b a = - cmp a b"
    and cmp_trans: "cmp a b < 0 \<Longrightarrow> cmp b c < 0 \<Longrightarrow> cmp a c < 0"
begin

lemma cmp_refl: "cmp a a = 0"
  by (simp add: cmp_eq)

lemma less_irrefl: "\<not> cmp a a < 0"
  by (simp add: cmp_refl)

lemma less_asym: "cmp a b < 0 \<Longrightarrow> \<not> cmp b a < 0"
  using cmp_anti [of a b] by simp

lemma less_total: "cmp a b < 0 \<or> a = b \<or> cmp b a < 0"
  using cmp_anti [of a b] cmp_eq [of a b] by linarith

lemma le_iff: "cmp a b \<le> 0 \<longleftrightarrow> cmp a b < 0 \<or> a = b"
  using cmp_eq [of a b] by linarith

lemma le_trans: "cmp a b \<le> 0 \<Longrightarrow> cmp b c \<le> 0 \<Longrightarrow> cmp a c \<le> 0"
  unfolding le_iff by (metis cmp_trans)

lemma le_antisym: "cmp a b \<le> 0 \<Longrightarrow> cmp b a \<le> 0 \<Longrightarrow> a = b"
  unfolding le_iff by (metis less_asym)

lemma less_le_not_le: "cmp a b < 0 \<longleftrightarrow> cmp a b \<le> 0 \<and> \<not> cmp b a \<le> 0"
  using cmp_anti [of a b] by linarith

end

text \<open>
  Comparing field by field, the first difference deciding, is again such a
  comparison. \<open>QName::Compare\<close> is one use, \<open>Jid::Compare\<close> two.
\<close>

definition lex_compare ::
  "('a \<Rightarrow> 'a \<Rightarrow> int) \<Rightarrow> ('b \<Rightarrow> 'b \<Rightarrow> int) \<Rightarrow> 'a \<times> 'b \<Rightarrow> 'a \<times> 'b \<Rightarrow> int" where
  "lex_compare c1 c2 x y =
     (if c1 (fst x) (fst y) \<noteq> 0 then c1 (fst x) (fst y) else c2 (snd x) (snd y))"

locale three_way_pair = fst: three_way cmp1 + snd: three_way cmp2
  for cmp1 :: "'a \<Rightarrow> 'a \<Rightarrow> int" and cmp2 :: "'b \<Rightarrow> 'b \<Rightarrow> int"
begin

lemma lex_eq: "lex_compare cmp1 cmp2 x y = 0 \<longleftrightarrow> x = y"
  by (auto simp: lex_compare_def fst.cmp_eq snd.cmp_eq prod_eq_iff)

lemma lex_anti: "lex_compare cmp1 cmp2 y x = - lex_compare cmp1 cmp2 x y"
  using fst.cmp_anti [of "fst x" "fst y"] snd.cmp_anti [of "snd x" "snd y"]
  by (simp add: lex_compare_def)

lemma lex_trans:
  assumes "lex_compare cmp1 cmp2 x y < 0" "lex_compare cmp1 cmp2 y z < 0"
  shows "lex_compare cmp1 cmp2 x z < 0"
proof (cases "fst x = fst y \<or> fst y = fst z")
  case True
  with assms show ?thesis
    by (auto simp: lex_compare_def fst.cmp_eq fst.cmp_refl split: if_splits intro: snd.cmp_trans)
next
  case False
  with assms have "cmp1 (fst x) (fst y) < 0" "cmp1 (fst y) (fst z) < 0"
    by (auto simp: lex_compare_def fst.cmp_eq split: if_splits)
  then have "cmp1 (fst x) (fst z) < 0" by (rule fst.cmp_trans)
  then show ?thesis by (simp add: lex_compare_def)
qed

end

sublocale three_way_pair \<subseteq> lex: three_way "lex_compare cmp1 cmp2"
  by unfold_locales (rule lex_eq lex_anti lex_trans; assumption?)+

lemma str_compare_eq: "str_compare a b = 0 \<longleftrightarrow> a = b"
  by (induction a b rule: str_compare.induct) (auto simp: not_less_iff_gr_or_eq)

lemma str_compare_anti: "str_compare b a = - str_compare a b"
  by (induction a b rule: str_compare.induct) simp_all


lemma str_compare_trans: "str_compare a b < 0 \<Longrightarrow> str_compare b c < 0 \<Longrightarrow> str_compare a c < 0"
proof (induction a b arbitrary: c rule: str_compare.induct)
  case (4 a as b bs)
  show ?case
  proof (cases c)
    case Nil
    with 4 show ?thesis by simp
  next
    case (Cons d ds)
    consider "byte_of a < byte_of b" | "a = b" | "byte_of b < byte_of a" by (metis linorder_neqE_nat byte_of_inject)
    then show ?thesis
    proof cases
      case 2
      with 4 Cons show ?thesis by (auto split: if_splits)
    next
      case 1
      then have "\<not> byte_of b < byte_of a" by simp
      with 1 4(3) Cons show ?thesis by (auto split: if_splits)
    next
      case 3
      with 4 show ?thesis by simp
    qed
  qed
next
  case (2 b bs)
  then show ?case by (cases c) simp_all
next
  case 1
  then show ?case by simp
next
  case 3
  then show ?case by simp
qed

interpretation str: three_way str_compare
  by unfold_locales (rule str_compare_eq str_compare_anti str_compare_trans; assumption?)+

subsection \<open>Decimal output is injective\<close>

fun dec_to_nat :: "string \<Rightarrow> nat \<Rightarrow> nat" where
  "dec_to_nat [] acc = acc"
| "dec_to_nat (c # cs) acc = dec_to_nat cs (10 * acc + (byte_of c - 48))"

lemma dec_to_nat_append: "dec_to_nat (xs @ ys) acc = dec_to_nat ys (dec_to_nat xs acc)"
  by (induction xs arbitrary: acc) auto

lemma byte_of_digit: "n < 10 \<Longrightarrow> byte_of (char_of (48 + n)) = 48 + n"
  by simp

lemma dec_to_nat_of_dec: "dec_to_nat (nat_to_dec n) 0 = n"
proof (induction n rule: nat_to_dec.induct)
  case (1 n)
  then show ?case
    by (subst nat_to_dec.simps) (auto simp: dec_to_nat_append)
qed

lemma nat_to_dec_inject [simp]: "nat_to_dec m = nat_to_dec n \<longleftrightarrow> m = n"
  by (metis dec_to_nat_of_dec)

lemma nat_to_dec_digits: "c \<in> set (nat_to_dec n) \<Longrightarrow> 48 \<le> byte_of c \<and> byte_of c \<le> 57"
proof (induction n rule: nat_to_dec.induct)
  case (1 n)
  show ?case
  proof (cases "n < 10")
    case True
    with 1 show ?thesis by (auto simp: nat_to_dec.simps [of n])
  next
    case False
    moreover have "n mod 10 < 10" by simp
    ultimately show ?thesis
      using 1 by (auto simp: nat_to_dec.simps [of n])
  qed
qed

lemma nat_to_dec_nonempty [simp]: "nat_to_dec n \<noteq> []"
  by (subst nat_to_dec.simps) simp

end
