(* ===== verification/QNames.thy ===== *)
theory QNames
  imports Prelude
begin

text \<open>
  Qualified names (\<open>talk/xmllite/qname.cc\<close>, \<open>qname.h\<close>) and the constants of
  \<open>talk/xmllite/xmlconstants.cc\<close>. A \<open>QName\<close> is a pair of a namespace and a local
  part; \<open>StaticQName\<close> is the same pair as a compile-time constant and converts to it
  field by field, so both are the type \<open>qname\<close> here.
\<close>

datatype qname = QName (Namespace: string) (LocalPart: string)

text \<open>The default constructor \<open>QName()\<close>.\<close>

definition QName_empty :: qname where
  "QName_empty = QName [] []"

text \<open>The constructor from a merged name: everything before the last colon is the namespace.\<close>

definition QName_of_merged :: "string \<Rightarrow> qname" where
  "QName_of_merged merged_or_local =
     (case find_last_char CHR '':'' merged_or_local of
        None \<Rightarrow> QName [] merged_or_local
      | Some i \<Rightarrow> QName (take i merged_or_local) (drop (i + 1) merged_or_local))"

text \<open>
  \<open>Merged\<close> tests \<open>namespace_[0] == 0\<close>: true for the empty namespace (the string is
  NUL terminated) and for one that begins with a NUL byte.
\<close>

definition Merged :: "qname \<Rightarrow> string" where
  "Merged q =
     (if Namespace q = [] \<or> hd (Namespace q) = NUL then LocalPart q
      else Namespace q @ CHR '':'' # LocalPart q)"

definition QName_IsEmpty :: "qname \<Rightarrow> bool" where
  "QName_IsEmpty q \<longleftrightarrow> Namespace q = [] \<and> LocalPart q = []"

definition QName_Compare :: "qname \<Rightarrow> qname \<Rightarrow> int" where
  "QName_Compare q other =
     (let result = str_compare (LocalPart q) (LocalPart other) in
      if result \<noteq> 0 then result else str_compare (Namespace q) (Namespace other))"

subsection \<open>Constants of the XML layer\<close>

definition NS_XML :: string where
  "NS_XML = ''http://www.w3.org/XML/1998/namespace''"

definition NS_XMLNS :: string where
  "NS_XMLNS = ''http://www.w3.org/2000/xmlns/''"

definition QN_XMLNS :: qname where
  [qname_consts]: "QN_XMLNS = QName [] ''xmlns''"

lemma NS_XML_neq_XMLNS [simp]: "NS_XML \<noteq> NS_XMLNS" "NS_XMLNS \<noteq> NS_XML"
  by (simp_all add: NS_XML_def NS_XMLNS_def)

lemma NS_nonempty [simp]: "NS_XML \<noteq> []" "NS_XMLNS \<noteq> []" "[] \<noteq> NS_XML" "[] \<noteq> NS_XMLNS"
  by (simp_all add: NS_XML_def NS_XMLNS_def)

lemma QName_IsEmpty_iff: "QName_IsEmpty q \<longleftrightarrow> q = QName_empty"
  by (cases q) (simp add: QName_IsEmpty_def QName_empty_def)

subsection \<open>Comparison is a linear order\<close>

text \<open>\<open>Compare\<close> is the lexicographic comparison of the pair (local part, namespace).\<close>

lemma QName_Compare_lex:
  "QName_Compare q r =
     lex_compare str_compare str_compare (LocalPart q, Namespace q) (LocalPart r, Namespace r)"
  by (simp add: QName_Compare_def lex_compare_def Let_def)

interpretation qname_fields: three_way_pair str_compare str_compare ..

interpretation qn: three_way QName_Compare
proof unfold_locales
  fix a b c :: qname
  show "QName_Compare a b = 0 \<longleftrightarrow> a = b"
    unfolding QName_Compare_lex qname_fields.lex_eq by (cases a; cases b) auto
  show "QName_Compare b a = - QName_Compare a b"
    unfolding QName_Compare_lex by (rule qname_fields.lex_anti)
  show "QName_Compare a b < 0 \<Longrightarrow> QName_Compare b c < 0 \<Longrightarrow> QName_Compare a c < 0"
    unfolding QName_Compare_lex by (rule qname_fields.lex_trans)
qed

text \<open>\<open>operator<\<close> makes \<open>QName\<close> a key of \<open>std::set\<close>: an instance of \<open>linorder\<close>.\<close>

instantiation qname :: linorder
begin

definition less_eq_qname :: "qname \<Rightarrow> qname \<Rightarrow> bool" where
  "less_eq_qname a b \<longleftrightarrow> QName_Compare a b \<le> 0"

definition less_qname :: "qname \<Rightarrow> qname \<Rightarrow> bool" where
  "less_qname a b \<longleftrightarrow> QName_Compare a b < 0"

instance
proof
  fix x y z :: qname
  show "x < y \<longleftrightarrow> x \<le> y \<and> \<not> y \<le> x"
    unfolding less_eq_qname_def less_qname_def by (rule qn.less_le_not_le)
  show "x \<le> x"
    by (simp add: less_eq_qname_def qn.cmp_refl)
  show "x \<le> y \<Longrightarrow> y \<le> z \<Longrightarrow> x \<le> z"
    unfolding less_eq_qname_def by (rule qn.le_trans)
  show "x \<le> y \<Longrightarrow> y \<le> x \<Longrightarrow> x = y"
    unfolding less_eq_qname_def by (rule qn.le_antisym)
  show "x \<le> y \<or> y \<le> x"
    unfolding less_eq_qname_def qn.le_iff using qn.less_total by blast
qed

end

subsection \<open>Merged names\<close>

lemma QName_of_merged_Merged:
  assumes "CHR '':'' \<notin> set (LocalPart q)" and "Namespace q = [] \<or> hd (Namespace q) \<noteq> NUL"
  shows "QName_of_merged (Merged q) = q"
proof (cases "Namespace q = []")
  case True
  with assms show ?thesis
    by (cases q) (simp add: Merged_def QName_of_merged_def)
next
  case False
  with assms show ?thesis
    by (cases q) (simp add: Merged_def QName_of_merged_def find_last_char_append)
qed

subsection \<open>Properties\<close>

text \<open>A qualified name survives being written in its merged form \<open>ns:local\<close> and read
  by the one-string constructor, when the local part has no colon and the namespace
  does not start with the zero byte.\<close>

theorem merged_name_roundtrip:
  assumes "CHR '':'' \<notin> set (LocalPart q)" and "Namespace q = [] \<or> hd (Namespace q) \<noteq> NUL"
  shows "QName_of_merged (Merged q) = q"
  using assms by (rule QName_of_merged_Merged)

theorem merged_name_roundtrip_witness:
  "QName_of_merged (Merged (QName ''jabber:client'' ''iq'')) = QName ''jabber:client'' ''iq''"
  by (rule merged_name_roundtrip) simp_all

end
