(* ===== verification/XmlElements.thy ===== *)
theory XmlElements
  imports QNames
begin

text \<open>
  The element tree of \<open>talk/xmllite/xmlelement.cc\<close>. An \<open>XmlElement\<close> has a name, an
  ordered list of attributes, an ordered list of children (text or element) and the
  CDATA flag. The intrusive lists (\<open>first_attr_\<close>, \<open>next_attr_\<close>, \<open>first_child_\<close>,
  \<open>next_child_\<close>) are HOL lists here; the pointer level of the child list is the theory
  \<open>XmlChain\<close>. Mutators return the updated element, a null dereference is
  \<^const>\<open>None\<close>.
\<close>

datatype xml_child =
    XmlText string
  | XmlElem xml_element
and xml_element =
    XmlElement (elt_name: qname) (elt_attrs: "(qname \<times> string) list")
      (elt_children: "xml_child list") (elt_cdata: bool)

fun IsText :: "xml_child \<Rightarrow> bool" where
  "IsText (XmlText t) = True"
| "IsText (XmlElem e) = False"

fun AsElement :: "xml_child \<Rightarrow> xml_element option" where
  "AsElement (XmlText t) = None"
| "AsElement (XmlElem e) = Some e"

fun AsText :: "xml_child \<Rightarrow> string option" where
  "AsText (XmlText t) = Some t"
| "AsText (XmlElem e) = None"

subsection \<open>Constructors\<close>

definition new_element :: "qname \<Rightarrow> xml_element" where
  "new_element name = XmlElement name [] [] False"

definition new_element_ns :: "qname \<Rightarrow> bool \<Rightarrow> xml_element" where
  "new_element_ns name useDefaultNs =
     XmlElement name (if useDefaultNs then [(QN_XMLNS, Namespace name)] else []) [] False"

text \<open>The copy constructor: attributes in order, children in order and recursively.\<close>

fun copy_element :: "xml_element \<Rightarrow> xml_element"
  and copy_child :: "xml_child \<Rightarrow> xml_child" where
  "copy_element (XmlElement n as cs cd) =
     XmlElement n (map (\<lambda>a. (fst a, snd a)) as) (map copy_child cs) cd"
| "copy_child (XmlText t) = XmlText t"
| "copy_child (XmlElem e) = XmlElem (copy_element e)"

subsection \<open>Attributes\<close>

fun find_attr :: "qname \<Rightarrow> (qname \<times> string) list \<Rightarrow> string option" where
  "find_attr name [] = None"
| "find_attr name ((n, v) # as) = (if n = name then Some v else find_attr name as)"

definition Attr :: "xml_element \<Rightarrow> qname \<Rightarrow> string" where
  "Attr e name = (case find_attr name (elt_attrs e) of None \<Rightarrow> [] | Some v \<Rightarrow> v)"

definition HasAttr :: "xml_element \<Rightarrow> qname \<Rightarrow> bool" where
  "HasAttr e name = (find_attr name (elt_attrs e) \<noteq> None)"

fun set_attr_list :: "qname \<Rightarrow> string \<Rightarrow> (qname \<times> string) list \<Rightarrow> (qname \<times> string) list" where
  "set_attr_list name value [] = [(name, value)]"
| "set_attr_list name value ((n, v) # as) =
     (if n = name then (n, value) # as else (n, v) # set_attr_list name value as)"

fun clear_attr_list :: "qname \<Rightarrow> (qname \<times> string) list \<Rightarrow> (qname \<times> string) list" where
  "clear_attr_list name [] = []"
| "clear_attr_list name ((n, v) # as) =
     (if n = name then as else (n, v) # clear_attr_list name as)"

definition with_attrs :: "xml_element \<Rightarrow> (qname \<times> string) list \<Rightarrow> xml_element" where
  "with_attrs e as = XmlElement (elt_name e) as (elt_children e) (elt_cdata e)"

definition with_children :: "xml_element \<Rightarrow> xml_child list \<Rightarrow> xml_element" where
  "with_children e cs = XmlElement (elt_name e) (elt_attrs e) cs (elt_cdata e)"

definition SetAttr :: "xml_element \<Rightarrow> qname \<Rightarrow> string \<Rightarrow> xml_element" where
  "SetAttr e name value = with_attrs e (set_attr_list name value (elt_attrs e))"

definition ClearAttr :: "xml_element \<Rightarrow> qname \<Rightarrow> xml_element" where
  "ClearAttr e name = with_attrs e (clear_attr_list name (elt_attrs e))"

text \<open>\<open>AddAttr\<close> appends; that the name is new is only asserted in debug builds.\<close>

definition AddAttr :: "xml_element \<Rightarrow> qname \<Rightarrow> string \<Rightarrow> xml_element" where
  "AddAttr e name value = with_attrs e (elt_attrs e @ [(name, value)])"

definition ClearAttributes :: "xml_element \<Rightarrow> xml_element" where
  "ClearAttributes e = with_attrs e []"

subsection \<open>Children\<close>

definition ClearChildren :: "xml_element \<Rightarrow> xml_element" where
  "ClearChildren e = with_children e []"

text \<open>
  Appending text extends a trailing text node, and ignores the empty string. \<open>AddText\<close>
  and \<open>AddParsedText\<close> (which takes a pointer and a length) do the same.
\<close>

definition append_text :: "string \<Rightarrow> xml_child list \<Rightarrow> xml_child list" where
  "append_text text cs =
     (if text = [] then cs
      else if cs \<noteq> [] \<and> IsText (last cs)
      then butlast cs @ [XmlText (the (AsText (last cs)) @ text)]
      else cs @ [XmlText text])"

definition AddText :: "xml_element \<Rightarrow> string \<Rightarrow> xml_element" where
  "AddText e text = with_children e (append_text text (elt_children e))"

definition AddParsedText :: "xml_element \<Rightarrow> string \<Rightarrow> xml_element" where
  "AddParsedText e text = with_children e (append_text text (elt_children e))"

definition AddCDATAText :: "xml_element \<Rightarrow> string \<Rightarrow> xml_element" where
  "AddCDATAText e buf =
     AddParsedText (XmlElement (elt_name e) (elt_attrs e) (elt_children e) True) buf"

text \<open>\<open>AddElement\<close>: a null child is ignored.\<close>

definition AddElement :: "xml_element \<Rightarrow> xml_element option \<Rightarrow> xml_element" where
  "AddElement e child =
     (case child of None \<Rightarrow> e | Some c \<Rightarrow> with_children e (elt_children e @ [XmlElem c]))"

text \<open>
  The variants with a depth follow \<open>last_child_->AsElement()\<close> that many times; a
  missing or a text last child there is a null pointer.
\<close>

fun at_depth :: "nat \<Rightarrow> (xml_element \<Rightarrow> xml_element) \<Rightarrow> xml_element \<Rightarrow> xml_element option" where
  "at_depth 0 f e = Some (f e)"
| "at_depth (Suc d) f e =
     (if elt_children e = [] then None
      else case AsElement (last (elt_children e)) of
          None \<Rightarrow> None
        | Some c \<Rightarrow>
            map_option (\<lambda>c'. with_children e (butlast (elt_children e) @ [XmlElem c']))
              (at_depth d f c))"

definition AddAttr_depth :: "xml_element \<Rightarrow> qname \<Rightarrow> string \<Rightarrow> nat \<Rightarrow> xml_element option" where
  "AddAttr_depth e name value depth = at_depth depth (\<lambda>x. AddAttr x name value) e"

definition AddText_depth :: "xml_element \<Rightarrow> string \<Rightarrow> nat \<Rightarrow> xml_element option" where
  "AddText_depth e text depth = at_depth depth (\<lambda>x. AddText x text) e"

definition AddElement_depth ::
  "xml_element \<Rightarrow> xml_element option \<Rightarrow> nat \<Rightarrow> xml_element option" where
  "AddElement_depth e child depth = at_depth depth (\<lambda>x. AddElement x child) e"

definition BodyText :: "xml_element \<Rightarrow> string" where
  "BodyText e = (case elt_children e of [XmlText t] \<Rightarrow> t | _ \<Rightarrow> [])"

definition SetBodyText :: "xml_element \<Rightarrow> string \<Rightarrow> xml_element" where
  "SetBodyText e text =
     (if text = [] then ClearChildren e
      else case elt_children e of
          [] \<Rightarrow> AddText e text
        | [XmlText t] \<Rightarrow> with_children e [XmlText text]
        | _ \<Rightarrow> AddText (ClearChildren e) text)"

text \<open>
  The searches walk a chain of siblings and stop at the first element that satisfies a
  test. \<open>First...\<close> starts at the first child, \<open>Next...\<close> at the siblings after an
  element; the result keeps the remaining chain, so that a \<open>for\<close> loop over
  \<open>FirstNamed\<close>, \<open>NextNamed\<close> can be written as in the code.
\<close>

fun next_where :: "(xml_element \<Rightarrow> bool) \<Rightarrow> xml_child list \<Rightarrow> (xml_element \<times> xml_child list) option" where
  "next_where P [] = None"
| "next_where P (XmlText t # cs) = next_where P cs"
| "next_where P (XmlElem e # cs) = (if P e then Some (e, cs) else next_where P cs)"

definition NextElement :: "xml_child list \<Rightarrow> (xml_element \<times> xml_child list) option" where
  "NextElement chain = next_where (\<lambda>_. True) chain"

definition NextWithNamespace :: "string \<Rightarrow> xml_child list \<Rightarrow> (xml_element \<times> xml_child list) option" where
  "NextWithNamespace ns chain = next_where (\<lambda>e. Namespace (elt_name e) = ns) chain"

definition NextNamed :: "qname \<Rightarrow> xml_child list \<Rightarrow> (xml_element \<times> xml_child list) option" where
  "NextNamed name chain = next_where (\<lambda>e. elt_name e = name) chain"

definition FirstElement :: "xml_element \<Rightarrow> xml_element option" where
  "FirstElement e = map_option fst (NextElement (elt_children e))"

definition FirstWithNamespace :: "xml_element \<Rightarrow> string \<Rightarrow> xml_element option" where
  "FirstWithNamespace e ns = map_option fst (NextWithNamespace ns (elt_children e))"

definition FirstNamed :: "xml_element \<Rightarrow> qname \<Rightarrow> xml_element option" where
  "FirstNamed e name = map_option fst (NextNamed name (elt_children e))"

definition FirstElementName :: "xml_element \<Rightarrow> qname" where
  "FirstElementName e = (case FirstElement e of None \<Rightarrow> QName_empty | Some c \<Rightarrow> elt_name c)"

definition TextNamed :: "xml_element \<Rightarrow> qname \<Rightarrow> string" where
  "TextNamed e name = (case FirstNamed e name of None \<Rightarrow> [] | Some c \<Rightarrow> BodyText c)"

text \<open>\<open>FindOrAddNamedChild\<close>: the updated element and the child found or added.\<close>

definition FindOrAddNamedChild :: "xml_element \<Rightarrow> qname \<Rightarrow> xml_element \<times> xml_element" where
  "FindOrAddNamedChild e name =
     (case FirstNamed e name of
        Some c \<Rightarrow> (e, c)
      | None \<Rightarrow> (AddElement e (Some (new_element name)), new_element name))"

fun is_named :: "qname \<Rightarrow> xml_child \<Rightarrow> bool" where
  "is_named name (XmlText t) = False"
| "is_named name (XmlElem e) = (elt_name e = name)"

text \<open>
  The loop of \<open>ClearNamedChildren\<close>: \<open>kept\<close> are the children up to and including
  \<open>prev_child\<close>, the argument list those from \<open>child\<close> on.
\<close>

fun clear_named_loop :: "qname \<Rightarrow> xml_child list \<Rightarrow> xml_child list \<Rightarrow> xml_child list" where
  "clear_named_loop name kept [] = kept"
| "clear_named_loop name kept (c # next) =
     (if \<not> IsText c \<and> is_named name c then clear_named_loop name kept next
      else clear_named_loop name (kept @ [c]) next)"

definition ClearNamedChildren :: "xml_element \<Rightarrow> qname \<Rightarrow> xml_element" where
  "ClearNamedChildren e name = with_children e (clear_named_loop name [] (elt_children e))"

text \<open>\<open>RemoveChildAfter\<close> at the position of the predecessor; no such child is a null pointer.\<close>

definition RemoveChildAfter :: "xml_element \<Rightarrow> nat option \<Rightarrow> xml_element option" where
  "RemoveChildAfter e predecessor =
     (let i = (case predecessor of None \<Rightarrow> 0 | Some p \<Rightarrow> Suc p) in
      if i < length (elt_children e)
      then Some (with_children e (take i (elt_children e) @ drop (Suc i) (elt_children e)))
      else None)"

subsection \<open>Selectors of updated elements\<close>

lemma with_attrs_sel [simp]:
  "elt_name (with_attrs e as) = elt_name e" "elt_attrs (with_attrs e as) = as"
  "elt_children (with_attrs e as) = elt_children e" "elt_cdata (with_attrs e as) = elt_cdata e"
  by (simp_all add: with_attrs_def)

lemma with_children_sel [simp]:
  "elt_name (with_children e cs) = elt_name e" "elt_attrs (with_children e cs) = elt_attrs e"
  "elt_children (with_children e cs) = cs" "elt_cdata (with_children e cs) = elt_cdata e"
  by (simp_all add: with_children_def)

lemma new_element_sel [simp]:
  "elt_name (new_element n) = n" "elt_attrs (new_element n) = []"
  "elt_children (new_element n) = []" "elt_cdata (new_element n) = False"
  "elt_name (new_element_ns n b) = n" "elt_children (new_element_ns n b) = []"
  "elt_cdata (new_element_ns n b) = False"
  by (simp_all add: new_element_def new_element_ns_def)

lemmas element_ops = SetAttr_def ClearAttr_def AddAttr_def ClearAttributes_def
  ClearChildren_def AddText_def AddParsedText_def AddElement_def

lemma element_ops_name [simp]:
  "elt_name (SetAttr e n v) = elt_name e" "elt_name (AddAttr e n v) = elt_name e"
  "elt_name (ClearAttr e n) = elt_name e" "elt_name (AddText e t) = elt_name e"
  "elt_name (AddParsedText e t) = elt_name e" "elt_name (AddElement e c) = elt_name e"
  by (simp_all add: element_ops split: option.split)

lemma element_ops_attrs [simp]:
  "elt_attrs (AddText e t) = elt_attrs e" "elt_attrs (AddParsedText e t) = elt_attrs e"
  "elt_attrs (AddElement e c) = elt_attrs e" "elt_attrs (AddAttr e n v) = elt_attrs e @ [(n, v)]"
  by (simp_all add: element_ops split: option.split)

lemma element_ops_children [simp]:
  "elt_children (SetAttr e n v) = elt_children e" "elt_children (AddAttr e n v) = elt_children e"
  "elt_children (ClearAttr e n) = elt_children e"
  "elt_children (AddElement e (Some c)) = elt_children e @ [XmlElem c]"
  "elt_children (AddText e t) = append_text t (elt_children e)"
  "elt_children (AddParsedText e t) = append_text t (elt_children e)"
  by (simp_all add: element_ops)

lemma element_ops_cdata [simp]:
  "elt_cdata (AddText e t) = elt_cdata e" "elt_cdata (AddParsedText e t) = elt_cdata e"
  "elt_cdata (AddElement e c) = elt_cdata e" "elt_cdata (AddAttr e n v) = elt_cdata e"
  by (simp_all add: element_ops split: option.split)

subsection \<open>Copies\<close>

lemma copy_element_id: "copy_element e = e"
  and copy_child_id: "copy_child c = c"
proof (induction e and c)
  case (XmlElement n as cs cd)
  then have "map copy_child cs = cs" by (intro map_idI) auto
  then show ?case by simp
qed simp_all

subsection \<open>The attribute list as a store\<close>

text \<open>
  What the users of the attributes rely on: reading after a write, a clear that removes
  the name, and an invariant (no name twice) that both keep.
\<close>

locale attr_store =
  fixes get :: "'k \<Rightarrow> 's \<Rightarrow> 'v option"
    and set :: "'k \<Rightarrow> 'v \<Rightarrow> 's \<Rightarrow> 's"
    and clear :: "'k \<Rightarrow> 's \<Rightarrow> 's"
    and ok :: "'s \<Rightarrow> bool"
  assumes get_set: "get m (set n v s) = (if n = m then Some v else get m s)"
    and get_clear: "ok s \<Longrightarrow> get m (clear n s) = (if n = m then None else get m s)"
    and ok_set: "ok s \<Longrightarrow> ok (set n v s)"
    and ok_clear: "ok s \<Longrightarrow> ok (clear n s)"
begin

lemma last_write_wins: "get m (set n v (set n w s)) = get m (set n v s)"
  by (simp add: get_set)

lemma writes_commute: "n \<noteq> k \<Longrightarrow> get m (set n v (set k w s)) = get m (set k w (set n v s))"
  by (auto simp: get_set)

lemma clear_undoes_set:
  "ok s \<Longrightarrow> get n s = None \<Longrightarrow> get m (clear n (set n v s)) = get m s"
  by (auto simp: get_set get_clear ok_set)

lemma clear_absent: "ok s \<Longrightarrow> get n (clear n s) = None"
  by (simp add: get_clear)

end

lemma find_attr_None_iff: "find_attr n as = None \<longleftrightarrow> n \<notin> fst ` set as"
  by (induction n as rule: find_attr.induct) auto

lemma find_attr_append:
  "find_attr n (as @ bs) = (case find_attr n as of None \<Rightarrow> find_attr n bs | Some v \<Rightarrow> Some v)"
  by (induction n as rule: find_attr.induct) auto

lemma find_attr_set: "find_attr m (set_attr_list n v as) = (if n = m then Some v else find_attr m as)"
  by (induction n v as rule: set_attr_list.induct) auto

lemma set_attr_list_names:
  "fst ` set (set_attr_list n v as) = insert n (fst ` set as)"
  by (induction n v as rule: set_attr_list.induct) auto

lemma set_attr_list_distinct [wf_intros]:
  "distinct (map fst as) \<Longrightarrow> distinct (map fst (set_attr_list n v as))"
proof (induction n v as rule: set_attr_list.induct)
  case (2 name w n v as)
  then show ?case using set_attr_list_names [of name w as] by auto
qed simp

lemma clear_attr_list_subset: "set (clear_attr_list n as) \<subseteq> set as"
  by (induction n as rule: clear_attr_list.induct) auto

lemma clear_attr_list_distinct [wf_intros]:
  "distinct (map fst as) \<Longrightarrow> distinct (map fst (clear_attr_list n as))"
proof (induction n as rule: clear_attr_list.induct)
  case (2 name n v as)
  then show ?case using clear_attr_list_subset [of name as] by auto
qed simp

lemma find_attr_clear_other: "n \<noteq> m \<Longrightarrow> find_attr m (clear_attr_list n as) = find_attr m as"
  by (induction n as rule: clear_attr_list.induct) auto

lemma find_attr_clear_same: "distinct (map fst as) \<Longrightarrow> find_attr n (clear_attr_list n as) = None"
  by (induction n as rule: clear_attr_list.induct) (auto simp: find_attr_None_iff)

lemma find_attr_clear:
  "distinct (map fst as) \<Longrightarrow>
   find_attr m (clear_attr_list n as) = (if n = m then None else find_attr m as)"
  by (simp add: find_attr_clear_other find_attr_clear_same)

interpretation attrs: attr_store find_attr set_attr_list clear_attr_list "\<lambda>as. distinct (map fst as)"
  by unfold_locales (simp_all add: find_attr_set find_attr_clear wf_intros)

lemma Attr_find: "find_attr n (elt_attrs e) = Some v \<Longrightarrow> Attr e n = v"
  by (simp add: Attr_def)

lemma Attr_SetAttr: "Attr (SetAttr e n v) m = (if n = m then v else Attr e m)"
  by (simp add: Attr_def SetAttr_def attrs.get_set)

lemma HasAttr_SetAttr: "HasAttr (SetAttr e n v) m \<longleftrightarrow> n = m \<or> HasAttr e m"
  by (simp add: HasAttr_def SetAttr_def attrs.get_set)

lemma HasAttr_AddAttr [simp]: "HasAttr (AddAttr e n v) m \<longleftrightarrow> HasAttr e m \<or> n = m"
  by (simp add: HasAttr_def find_attr_append split: option.split)

lemma Attr_AddAttr [simp]:
  "Attr (AddAttr e n v) m = (if HasAttr e m then Attr e m else if n = m then v else [])"
  by (simp add: HasAttr_def Attr_def find_attr_append split: option.split)

lemma HasAttr_new_element [simp]: "\<not> HasAttr (new_element q) n"
  by (simp add: HasAttr_def)

lemma HasAttr_AddElement [simp]: "HasAttr (AddElement e c) n = HasAttr e n"
  by (simp add: HasAttr_def)

lemma Attr_AddElement [simp]: "Attr (AddElement e c) n = Attr e n"
  by (simp add: Attr_def)

lemma Attr_absent: "\<not> HasAttr e n \<Longrightarrow> Attr e n = []"
  by (simp add: HasAttr_def Attr_def)

subsection \<open>Searching the children\<close>

lemma next_where_shorter: "next_where P chain = Some (e, rest) \<Longrightarrow> length rest < length chain"
  by (induction P chain rule: next_where.induct) (auto split: if_splits)

text \<open>
  The elements that a \<open>for (x = FirstNamed(n); x; x = x->NextNamed(n))\<close> loop visits.
\<close>

function named_elements :: "qname \<Rightarrow> xml_child list \<Rightarrow> xml_element list" where
  "named_elements name chain =
     (case NextNamed name chain of
        None \<Rightarrow> []
      | Some (e, rest) \<Rightarrow> e # named_elements name rest)"
  by pat_completeness auto
termination
  by (relation "measure (\<lambda>(n, chain). length chain)")
     (auto simp: NextNamed_def dest: next_where_shorter)

declare named_elements.simps [simp del]

fun elements_of :: "xml_child list \<Rightarrow> xml_element list" where
  "elements_of [] = []"
| "elements_of (XmlText t # cs) = elements_of cs"
| "elements_of (XmlElem e # cs) = e # elements_of cs"

lemma elements_of_append [simp]: "elements_of (xs @ ys) = elements_of xs @ elements_of ys"
  by (induction xs rule: elements_of.induct) auto

lemma next_where_elements:
  "next_where P chain =
     (case next_where P chain of None \<Rightarrow> None | Some (e, r) \<Rightarrow> Some (e, r)) \<and>
   (case next_where P chain of
      None \<Rightarrow> filter P (elements_of chain) = []
    | Some (e, r) \<Rightarrow> filter P (elements_of chain) = e # filter P (elements_of r))"
  by (induction P chain rule: next_where.induct) (auto split: option.splits)

lemma named_elements_filter:
  "named_elements name chain = filter (\<lambda>e. elt_name e = name) (elements_of chain)"
proof (induction name chain rule: named_elements.induct)
  case (1 name chain)
  show ?case
    using 1 next_where_elements [of "\<lambda>e. elt_name e = name" chain]
    by (subst named_elements.simps) (auto simp: NextNamed_def split: option.splits prod.splits)
qed

lemma FirstNamed_filter:
  "FirstNamed e name =
     (case filter (\<lambda>c. elt_name c = name) (elements_of (elt_children e)) of
        [] \<Rightarrow> None | c # _ \<Rightarrow> Some c)"
  using next_where_elements [of "\<lambda>c. elt_name c = name" "elt_children e"]
  by (auto simp: FirstNamed_def NextNamed_def split: option.splits prod.splits list.splits)

lemma FirstElement_elements:
  "FirstElement e = (case elements_of (elt_children e) of [] \<Rightarrow> None | c # _ \<Rightarrow> Some c)"
  using next_where_elements [of "\<lambda>c. True" "elt_children e"]
  by (auto simp: FirstElement_def NextElement_def split: option.splits prod.splits list.splits)

lemma clear_named_loop_filter:
  "clear_named_loop name kept cs = kept @ filter (\<lambda>c. \<not> is_named name c) cs"
proof (induction name kept cs rule: clear_named_loop.induct)
  case (2 name kept c "next")
  then show ?case by (cases c) auto
qed simp

lemma FirstNamed_ClearNamedChildren:
  "FirstNamed (ClearNamedChildren e name) m = (if m = name then None else FirstNamed e m)"
proof -
  have *: "filter (\<lambda>c. elt_name c = m) (elements_of (filter (\<lambda>c. \<not> is_named name c) cs)) =
     (if m = name then [] else filter (\<lambda>c. elt_name c = m) (elements_of cs))" for cs
    by (induction cs rule: elements_of.induct) auto
  show ?thesis
    by (simp add: FirstNamed_filter ClearNamedChildren_def clear_named_loop_filter *)
qed

lemma FindOrAddNamedChild_found:
  "FirstNamed (fst (FindOrAddNamedChild e name)) name = Some (snd (FindOrAddNamedChild e name))"
  by (auto simp: FindOrAddNamedChild_def FirstNamed_filter split: option.split list.splits)

subsection \<open>Text nodes stay merged\<close>

text \<open>
  No text node is empty and no two text nodes are adjacent: what a parser reports and
  what \<open>AddText\<close> and \<open>AddElement\<close> maintain.
\<close>

fun text_merged :: "xml_child list \<Rightarrow> bool" where
  "text_merged [] = True"
| "text_merged (XmlText t # cs) =
     (t \<noteq> [] \<and> (case cs of XmlText u # _ \<Rightarrow> False | _ \<Rightarrow> True) \<and> text_merged cs)"
| "text_merged (XmlElem e # cs) = text_merged cs"

lemma text_merged_append_elem [simp]: "text_merged (cs @ [XmlElem e]) \<longleftrightarrow> text_merged cs"
  by (induction cs rule: text_merged.induct) (auto split: list.splits xml_child.splits simp: append_eq_Cons_conv)

lemma text_merged_append_text:
  "text_merged cs \<Longrightarrow> cs = [] \<or> \<not> IsText (last cs) \<Longrightarrow> t \<noteq> [] \<Longrightarrow> text_merged (cs @ [XmlText t])"
proof (induction cs rule: text_merged.induct)
  case (2 u cs)
  then show ?case by (cases cs) (auto split: xml_child.splits)
next
  case (3 e cs)
  then show ?case by (cases "cs = []") auto
qed auto

lemma text_merged_replace_last:
  "text_merged (cs @ [XmlText t]) \<Longrightarrow> u \<noteq> [] \<Longrightarrow> text_merged (cs @ [XmlText u])"
proof (induction cs rule: text_merged.induct)
  case (2 v cs)
  then show ?case by (cases cs) (auto split: xml_child.splits)
qed auto

lemma append_text_merged [wf_intros]:
  assumes "text_merged cs"
  shows "text_merged (append_text t cs)"
proof (cases "t = [] \<or> cs = [] \<or> \<not> IsText (last cs)")
  case True
  with assms show ?thesis
    by (auto simp: append_text_def intro: text_merged_append_text)
next
  case False
  then obtain ds u where cs: "cs = ds @ [XmlText u]" and t: "t \<noteq> []"
    by (cases cs rule: rev_cases) (auto elim: IsText.elims)
  with assms have "text_merged (ds @ [XmlText (u @ t)])"
    by (auto intro: text_merged_replace_last)
  with cs t show ?thesis by (simp add: append_text_def)
qed

lemma append_text_append:
  "append_text b (append_text a cs) = append_text (a @ b) cs"
  by (auto simp: append_text_def)

lemma SetBodyText_merged: "text_merged (elt_children (SetBodyText e t))"
  and BodyText_SetBodyText: "BodyText (SetBodyText e t) = t"
  by (auto simp: SetBodyText_def BodyText_def AddText_def append_text_def ClearChildren_def
      split: list.split xml_child.split)

lemma elements_of_not_named:
  "filter (\<lambda>e. elt_name e = n) (elements_of (filter (\<lambda>c. \<not> is_named n c) cs)) = []"
proof (induction cs)
  case (Cons c cs)
  then show ?case by (cases c) auto
qed simp

lemma set_attr_list_distinct_iff:
  "distinct (map fst (set_attr_list n v as)) = distinct (map fst as)"
proof (induction n v as rule: set_attr_list.induct)
  case (2 nm w k u bs)
  then show ?case using set_attr_list_names [of nm w bs] by auto
qed simp

subsection \<open>Properties\<close>

text \<open>The attribute list is a map: after \<open>SetAttr\<close> a name reads the value written
  and every other name reads what it read before, and the attribute names stay distinct.\<close>

theorem SetAttr_updates_map:
  "Attr (SetAttr e n v) m = (if m = n then v else Attr e m) \<and>
   HasAttr (SetAttr e n v) m = (m = n \<or> HasAttr e m) \<and>
   distinct (map fst (elt_attrs (SetAttr e n v))) = distinct (map fst (elt_attrs e))"
  using set_attr_list_distinct_iff [of n v "elt_attrs e"]
  by (auto simp: Attr_SetAttr HasAttr_SetAttr) (auto simp: SetAttr_def)

text \<open>The loop \<open>for (e = FirstNamed(n); e; e = e->NextNamed(n))\<close> visits the child
  elements named n, each once and in document order; \<open>ClearNamedChildren\<close> removes exactly
  them and leaves the other children as they were.\<close>

theorem named_children_loop:
  "named_elements n (elt_children e) = filter (\<lambda>c. elt_name c = n) (elements_of (elt_children e)) \<and>
   elt_children (ClearNamedChildren e n) = filter (\<lambda>c. \<not> is_named n c) (elt_children e) \<and>
   named_elements n (elt_children (ClearNamedChildren e n)) = []"
  by (simp add: named_elements_filter ClearNamedChildren_def clear_named_loop_filter elements_of_not_named)

text \<open>The children never hold an empty text nor two texts side by side: the operations
  that add a child keep this shape, and the body text written is the one read back.\<close>

theorem children_stay_merged:
  assumes "text_merged (elt_children e)"
  shows "text_merged (elt_children (AddText e t)) \<and> text_merged (elt_children (AddParsedText e t)) \<and>
    text_merged (elt_children (AddElement e c)) \<and> text_merged (elt_children (SetBodyText e t)) \<and>
    BodyText (SetBodyText e t) = t"
  using assms append_text_merged [OF assms, of t] by (cases c) (simp_all add: AddElement_def SetBodyText_merged BodyText_SetBodyText)

theorem children_stay_merged_witness:
  "text_merged (elt_children (AddText (AddText (new_element (QName ''a'' ''b'')) ''x'') ''y''))"
  using children_stay_merged [of "AddText (new_element (QName ''a'' ''b'')) ''x''" "''y''" None]
  by (simp add: append_text_def)

end
