(* ===== verification/XmlNs.thy ===== *)
theory XmlNs
  imports XmlElements
begin

text \<open>
  The namespace stack of \<open>talk/xmllite/xmlnsstack.cc\<close>, shared by the parser and the
  printer. \<open>pxmlnsStack_\<close> is a flat vector \<open>prefix, ns, prefix, ns, ...\<close>; here it is
  the list of those pairs in push order, and the sizes in \<open>pxmlnsDepthStack_\<close> count
  pairs.
\<close>

record xmlns_stack =
  ns_pairs :: "(string \<times> string) list"
  ns_depth :: "nat list"

definition xmlns_empty :: xmlns_stack where
  "xmlns_empty = \<lparr>ns_pairs = [], ns_depth = []\<rparr>"

definition PushFrame :: "xmlns_stack \<Rightarrow> xmlns_stack" where
  "PushFrame st = st\<lparr>ns_depth := ns_depth st @ [length (ns_pairs st)]\<rparr>"

text \<open>\<open>back()\<close> of an empty vector is undefined: \<^const>\<open>None\<close>.\<close>

definition PopFrame :: "xmlns_stack \<Rightarrow> xmlns_stack option" where
  "PopFrame st =
     (if ns_depth st = [] then None
      else let prev_size = last (ns_depth st) in
        Some (st\<lparr>ns_depth := butlast (ns_depth st),
                 ns_pairs := (if prev_size < length (ns_pairs st)
                              then take prev_size (ns_pairs st) else ns_pairs st)\<rparr>))"

definition xml_reserved :: "string \<Rightarrow> bool" where
  "xml_reserved prefix \<longleftrightarrow>
     length prefix \<ge> 3 \<and> (prefix ! 0 = CHR ''x'' \<or> prefix ! 0 = CHR ''X'') \<and>
     (prefix ! 1 = CHR ''m'' \<or> prefix ! 1 = CHR ''M'') \<and>
     (prefix ! 2 = CHR ''l'' \<or> prefix ! 2 = CHR ''L'')"

definition NsForPrefix :: "xmlns_stack \<Rightarrow> string \<Rightarrow> string \<times> bool" where
  "NsForPrefix st prefix =
     (if xml_reserved prefix then
        (if prefix = ''xml'' then (NS_XML, True)
         else if prefix = ''xmlns'' then (NS_XMLNS, True)
         else ([], False))
      else case List.find (\<lambda>p. fst p = prefix) (rev (ns_pairs st)) of
          Some p \<Rightarrow> (snd p, True)
        | None \<Rightarrow> if prefix = [] then ([], True) else ([], False))"

definition PrefixMatchesNs :: "xmlns_stack \<Rightarrow> string \<Rightarrow> string \<Rightarrow> bool" where
  "PrefixMatchesNs st prefix ns \<longleftrightarrow>
     snd (NsForPrefix st prefix) \<and> fst (NsForPrefix st prefix) = ns"

definition PrefixForNs :: "xmlns_stack \<Rightarrow> string \<Rightarrow> bool \<Rightarrow> string \<times> bool" where
  "PrefixForNs st ns isattr =
     (if ns = NS_XML then (''xml'', True)
      else if ns = NS_XMLNS then (''xmlns'', True)
      else if (if isattr then ns = [] else PrefixMatchesNs st [] ns) then ([], True)
      else case List.find (\<lambda>p. snd p = ns \<and> (\<not> isattr \<or> fst p \<noteq> []) \<and> PrefixMatchesNs st (fst p) ns)
                  (rev (ns_pairs st)) of
          Some p \<Rightarrow> (fst p, True)
        | None \<Rightarrow> ([], False))"

definition FormatQName :: "xmlns_stack \<Rightarrow> qname \<Rightarrow> bool \<Rightarrow> string" where
  "FormatQName st name isAttr =
     (let prefix = fst (PrefixForNs st (Namespace name) isAttr) in
      if prefix = [] then LocalPart name else prefix @ CHR '':'' # LocalPart name)"

definition AddXmlns :: "string \<Rightarrow> string \<Rightarrow> xmlns_stack \<Rightarrow> xmlns_stack" where
  "AddXmlns prefix ns st = st\<lparr>ns_pairs := ns_pairs st @ [(prefix, ns)]\<rparr>"

definition RemoveXmlns :: "xmlns_stack \<Rightarrow> xmlns_stack option" where
  "RemoveXmlns st =
     (if ns_pairs st = [] then None else Some (st\<lparr>ns_pairs := butlast (ns_pairs st)\<rparr>))"

definition xmlns_Reset :: "xmlns_stack \<Rightarrow> xmlns_stack" where
  "xmlns_Reset st = st\<lparr>ns_pairs := [], ns_depth := []\<rparr>"

subsection \<open>Choosing a new prefix\<close>

definition IsAsciiLetter :: "char \<Rightarrow> bool" where
  "IsAsciiLetter ch \<longleftrightarrow>
     (CHR ''a'' \<le> ch \<and> ch \<le> CHR ''z'') \<or> (CHR ''A'' \<le> ch \<and> ch \<le> CHR ''Z'')"

definition lower_char :: "char \<Rightarrow> char" where
  "lower_char c = (if CHR ''A'' \<le> c \<and> c \<le> CHR ''Z'' then char_of (byte_of c + 32) else c)"

definition AsciiLower :: "string \<Rightarrow> string" where
  "AsciiLower s = map lower_char s"

text \<open>
  The two index loops of \<open>SuggestPrefix\<close> find, from the end, the last maximal run of
  ASCII letters of the (chopped) namespace. More than four letters are cut to three.
\<close>

definition SuggestPrefix :: "string \<Rightarrow> string" where
  "SuggestPrefix ns =
     (let len = (case find_last_char CHR ''.'' ns of
                   Some i \<Rightarrow> if length ns - i \<le> 4 + 1 then i else length ns
                 | None \<Rightarrow> length ns);
          r = dropWhile (\<lambda>c. \<not> IsAsciiLetter c) (rev (take len ns)) in
      if r = [] then ''ns''
      else let word = rev (takeWhile IsAsciiLetter r);
               candidate = AsciiLower (if length word > 4 then take 3 word else word) in
        if take 3 candidate \<noteq> ''xml'' then candidate else ''ns'')"

lemma NsForPrefix_True_cases:
  "snd (NsForPrefix st p) \<Longrightarrow> p = ''xml'' \<or> p = ''xmlns'' \<or> p = [] \<or> p \<in> fst ` set (ns_pairs st)"
  by (auto simp: NsForPrefix_def find_Some_iff split: if_splits option.splits)
     (metis image_eqI length_rev nth_mem rev_rev_ident set_rev)

lemma append_dec_not_reserved:
  "base @ nat_to_dec i \<noteq> ''xml''" "base @ nat_to_dec i \<noteq> ''xmlns''" "base @ nat_to_dec i \<noteq> []"
proof -
  have "last (base @ nat_to_dec i) \<in> set (nat_to_dec i)"
    by simp
  then have d: "byte_of (last (base @ nat_to_dec i)) \<le> 57"
    using nat_to_dec_digits by blast
  show "base @ nat_to_dec i \<noteq> ''xml''"
  proof
    assume "base @ nat_to_dec i = ''xml''"
    with d show False by simp
  qed
  show "base @ nat_to_dec i \<noteq> ''xmlns''"
  proof
    assume "base @ nat_to_dec i = ''xmlns''"
    with d show False by simp
  qed
  show "base @ nat_to_dec i \<noteq> []"
    by simp
qed

text \<open>
  The \<open>while\<close> loop of \<open>AddNewPrefix\<close> after its first test: \<open>base2\<close>, \<open>base3\<close>, ...
  until one is not in use. It ends because a used candidate is on the stack, and the
  candidates differ.
\<close>

function new_prefix_from :: "xmlns_stack \<Rightarrow> string \<Rightarrow> nat \<Rightarrow> string" where
  "new_prefix_from st base i =
     (let result = base @ nat_to_dec i in
      if snd (NsForPrefix st result) then new_prefix_from st base (Suc i) else result)"
  by pat_completeness auto
termination
proof (relation "measure (\<lambda>(st, base, i).
    card {k. i \<le> k \<and> base @ nat_to_dec k \<in> fst ` set (ns_pairs st)})")
  fix st :: xmlns_stack and base result :: string and i :: nat
  let ?used = "\<lambda>i. {k. i \<le> k \<and> base @ nat_to_dec k \<in> fst ` set (ns_pairs st)}"
  assume r: "result = base @ nat_to_dec i" and "snd (NsForPrefix st result)"
  then have "i \<in> ?used i"
    using NsForPrefix_True_cases append_dec_not_reserved by blast
  moreover have "?used (Suc i) \<subseteq> ?used i - {i}"
    by auto
  moreover have "finite (?used i)"
  proof (rule finite_subset)
    show "?used i \<subseteq> (\<lambda>k. base @ nat_to_dec k) -` (fst ` set (ns_pairs st))"
      by auto
    show "finite ((\<lambda>k. base @ nat_to_dec k) -` (fst ` set (ns_pairs st)))"
      by (intro finite_vimageI) (auto intro: injI)
  qed
  ultimately have "card (?used (Suc i)) < card (?used i)"
    by (meson Diff_iff card_mono card_Diff1_less finite_Diff order.strict_trans1)
  then show "((st, base, Suc i), st, base, i) \<in> measure (\<lambda>(st, base, i).
      card {k. i \<le> k \<and> base @ nat_to_dec k \<in> fst ` set (ns_pairs st)})"
    by simp
qed simp

declare new_prefix_from.simps [simp del]

definition AddNewPrefix :: "xmlns_stack \<Rightarrow> string \<Rightarrow> bool \<Rightarrow> (string \<times> bool) \<times> xmlns_stack" where
  "AddNewPrefix st ns isAttr =
     (if snd (PrefixForNs st ns isAttr) then (([], False), st)
      else let base = SuggestPrefix ns;
               result = (if snd (NsForPrefix st base) then new_prefix_from st base 2 else base)
           in ((result, True), AddXmlns result ns st))"

subsection \<open>Frames nest\<close>

text \<open>
  What the parser and the printer expect of the stack: declarations made after a push
  are undone by the matching pop.
\<close>

locale framed_scope =
  fixes push :: "'s \<Rightarrow> 's" and pop :: "'s \<Rightarrow> 's option" and bind :: "'d \<Rightarrow> 's \<Rightarrow> 's"
  assumes pop_push: "pop (fold bind ds (push s)) = Some s"
begin

lemma pop_push_empty: "pop (push s) = Some s"
  using pop_push [of "[]"] by simp

lemma nested_frames:
  "pop (fold bind ds (push (fold bind es (push s)))) = Some (fold bind es (push s))"
  by (rule pop_push)

lemma pop_two:
  "Option.bind (pop (fold bind ds (push (fold bind es (push s))))) pop = Some s"
  by (simp add: pop_push)

end

lemma fold_AddXmlns:
  "fold (\<lambda>d. AddXmlns (fst d) (snd d)) ds st = st\<lparr>ns_pairs := ns_pairs st @ ds\<rparr>"
  by (induction ds arbitrary: st) (simp_all add: AddXmlns_def)

interpretation xmlns: framed_scope PushFrame PopFrame "\<lambda>d. AddXmlns (fst d) (snd d)"
  by unfold_locales (simp add: fold_AddXmlns PopFrame_def PushFrame_def Let_def)

subsection \<open>Lookup\<close>

lemma find_rev_snoc: "List.find P (rev (xs @ [x])) = (if P x then Some x else List.find P (rev xs))"
  by simp

lemma find_SomeD: "List.find P xs = Some x \<Longrightarrow> P x \<and> x \<in> set xs"
  by (auto simp: find_Some_iff)

lemma NsForPrefix_AddXmlns:
  "NsForPrefix (AddXmlns p ns st) q =
     (if \<not> xml_reserved q \<and> q = p then (ns, True) else NsForPrefix st q)"
  by (auto simp: NsForPrefix_def AddXmlns_def)

lemma NsForPrefix_reserved [simp]:
  "NsForPrefix st ''xml'' = (NS_XML, True)" "NsForPrefix st ''xmlns'' = (NS_XMLNS, True)"
  by (simp_all add: NsForPrefix_def xml_reserved_def)

text \<open>
  A prefix that \<open>PrefixForNs\<close> returns denotes the namespace: it resolves to it, or it is
  the empty prefix of an attribute in no namespace.
\<close>

lemma PrefixForNs_sound:
  assumes "PrefixForNs st ns isattr = (p, True)"
  shows "(isattr \<and> p = [] \<and> ns = []) \<or> (PrefixMatchesNs st p ns \<and> (isattr \<longrightarrow> p \<noteq> []))"
  using assms
  by (auto simp: PrefixForNs_def PrefixMatchesNs_def split: if_splits option.splits dest!: find_SomeD)

lemma PrefixForNs_prefix:
  "PrefixForNs st ns isattr = (p, True) \<Longrightarrow>
   p \<in> {''xml'', ''xmlns'', []} \<union> fst ` set (ns_pairs st)"
  by (auto simp: PrefixForNs_def split: if_splits option.splits dest!: find_SomeD)

lemma PrefixForNs_complete:
  assumes "(p, ns) \<in> set (ns_pairs st)" "PrefixMatchesNs st p ns" "isattr \<longrightarrow> p \<noteq> []"
  shows "snd (PrefixForNs st ns isattr)"
proof -
  let ?P = "\<lambda>x. snd x = ns \<and> (isattr \<longrightarrow> fst x \<noteq> []) \<and> PrefixMatchesNs st (fst x) ns"
  from assms have "List.find ?P (rev (ns_pairs st)) \<noteq> None"
    by (auto simp: find_None_iff)
  then show ?thesis by (auto simp: PrefixForNs_def split: option.splits)
qed

lemma PrefixForNs_mono:
  assumes keep: "\<And>q m. NsForPrefix st q = (m, True) \<Longrightarrow> NsForPrefix st' q = (m, True)"
    and sub: "set (ns_pairs st) \<subseteq> set (ns_pairs st')"
    and found: "snd (PrefixForNs st ns isattr)"
  shows "snd (PrefixForNs st' ns isattr)"
proof -
  have m: "PrefixMatchesNs st q n \<Longrightarrow> PrefixMatchesNs st' q n" for q n
    using keep [of q n] by (cases "NsForPrefix st q") (auto simp: PrefixMatchesNs_def)
  show ?thesis
  proof (cases "ns = NS_XML \<or> ns = NS_XMLNS \<or>
      (if isattr then ns = [] else PrefixMatchesNs st [] ns)")
    case True
    then show ?thesis using m by (auto simp: PrefixForNs_def split: if_splits)
  next
    case False
    with found obtain p where "(p, ns) \<in> set (ns_pairs st)" "PrefixMatchesNs st p ns" "isattr \<longrightarrow> p \<noteq> []"
      by (auto simp: PrefixForNs_def split: option.splits if_splits dest!: find_SomeD)
    with m sub show ?thesis by (intro PrefixForNs_complete [of p]) auto
  qed
qed

subsection \<open>The chosen prefix is fresh\<close>

lemma SuggestPrefix_nonempty: "SuggestPrefix ns \<noteq> []"
  and SuggestPrefix_xml: "take 3 (SuggestPrefix ns) \<noteq> ''xml''"
proof -
  have r: "takeWhile IsAsciiLetter (dropWhile (\<lambda>c. \<not> IsAsciiLetter c) r) \<noteq> []"
    if "dropWhile (\<lambda>c. \<not> IsAsciiLetter c) r \<noteq> []" for r
    using hd_dropWhile [OF that] that by (cases "dropWhile (\<lambda>c. \<not> IsAsciiLetter c) r") auto
  show "SuggestPrefix ns \<noteq> []" "take 3 (SuggestPrefix ns) \<noteq> ''xml''"
    using r by (auto simp: SuggestPrefix_def AsciiLower_def Let_def split: option.splits)
qed

lemma lower_char_letter:
  assumes "IsAsciiLetter c"
  shows "CHR ''a'' \<le> lower_char c \<and> lower_char c \<le> CHR ''z''"
proof (cases "CHR ''A'' \<le> c \<and> c \<le> CHR ''Z''")
  case True
  then have "65 \<le> byte_of c" "byte_of c \<le> 90"
    by (auto simp: less_eq_char_def)
  with True show ?thesis
    by (simp add: lower_char_def less_eq_char_def)
next
  case False
  with assms show ?thesis by (auto simp: lower_char_def IsAsciiLetter_def)
qed

lemma SuggestPrefix_lower:
  assumes "c \<in> set (SuggestPrefix ns)"
  shows "97 \<le> byte_of c \<and> byte_of c \<le> 122"
proof -
  let ?cut = "\<lambda>w :: string. if length w > 4 then take 3 w else w"
  have letters: "IsAsciiLetter x" if "x \<in> set (?cut (rev (takeWhile IsAsciiLetter r)))" for x r
    using that by (auto split: if_splits dest!: in_set_takeD set_takeWhileD)
  have "c \<in> set ''ns'' \<or> (\<exists>r. \<exists>x \<in> set (?cut (rev (takeWhile IsAsciiLetter r))). c = lower_char x)"
    using assms by (simp add: SuggestPrefix_def Let_def AsciiLower_def split: if_splits) blast+
  with letters lower_char_letter show ?thesis
    by (auto simp: less_eq_char_def)
qed

text \<open>Base and decimal suffix: no reserved prefix, no colon.\<close>

lemma candidate_ok:
  assumes "r = SuggestPrefix ns \<or> (\<exists>i. r = SuggestPrefix ns @ nat_to_dec i)"
  shows "\<not> xml_reserved r" and "CHR '':'' \<notin> set r" and "r \<noteq> []"
proof -
  obtain d where r: "r = SuggestPrefix ns @ d" and d: "\<And>c. c \<in> set d \<Longrightarrow> byte_of c \<le> 57 \<and> 48 \<le> byte_of c"
    using assms nat_to_dec_digits by (metis append_Nil2 empty_iff list.set(1))
  show "r \<noteq> []" by (simp add: r SuggestPrefix_nonempty)
  show "CHR '':'' \<notin> set r"
    using d SuggestPrefix_lower [of _ ns] by (force simp: r)
  show "\<not> xml_reserved r"
  proof
    assume res: "xml_reserved r"
    show False
    proof (cases "length (SuggestPrefix ns) \<ge> 3")
      case True
      then obtain a b c t where s: "SuggestPrefix ns = a # b # c # t"
        by (auto simp: numeral_3_eq_3 Suc_le_length_iff)
      have "97 \<le> byte_of a" "97 \<le> byte_of b" "97 \<le> byte_of c"
        using SuggestPrefix_lower [of _ ns] s by auto
      then have "a \<noteq> CHR ''X''" "b \<noteq> CHR ''M''" "c \<noteq> CHR ''L''" by auto
      with res s r SuggestPrefix_xml [of ns] show False
        by (auto simp: xml_reserved_def eval_nat_numeral)
    next
      case False
      from res have "length r \<ge> 3" by (simp add: xml_reserved_def)
      with False r have "r ! 2 = d ! (2 - length (SuggestPrefix ns))"
        and "2 - length (SuggestPrefix ns) < length d"
        by (auto simp: nth_append)
      then have "r ! 2 \<in> set d" by simp
      with d have "byte_of (r ! 2) \<le> 57" by blast
      moreover from res have "r ! 2 = CHR ''l'' \<or> r ! 2 = CHR ''L''"
        by (simp add: xml_reserved_def)
      ultimately show False by auto
    qed
  qed
qed

lemma new_prefix_from_fresh: "\<not> snd (NsForPrefix st (new_prefix_from st base i))"
  by (induction st base i rule: new_prefix_from.induct) (subst new_prefix_from.simps, auto simp: Let_def)

lemma new_prefix_from_form: "\<exists>k. new_prefix_from st base i = base @ nat_to_dec k"
  by (induction st base i rule: new_prefix_from.induct) (subst new_prefix_from.simps, auto simp: Let_def)

text \<open>
  \<open>AddNewPrefix\<close> either finds a prefix in scope and changes nothing, or declares one
  that was not in use, is not reserved, is not empty and has no colon.
\<close>

lemma AddNewPrefix_cases:
  obtains (old) "snd (PrefixForNs st ns isAttr)" "AddNewPrefix st ns isAttr = (([], False), st)"
  | (new) r where "\<not> snd (PrefixForNs st ns isAttr)"
      "AddNewPrefix st ns isAttr = ((r, True), AddXmlns r ns st)"
      "\<not> snd (NsForPrefix st r)" "\<not> xml_reserved r" "CHR '':'' \<notin> set r" "r \<noteq> []"
proof (cases "snd (PrefixForNs st ns isAttr)")
  case True
  then show ?thesis by (intro old) (simp_all add: AddNewPrefix_def)
next
  case False
  let ?b = "SuggestPrefix ns"
  let ?r = "if snd (NsForPrefix st ?b) then new_prefix_from st ?b 2 else ?b"
  have "?r = ?b \<or> (\<exists>i. ?r = ?b @ nat_to_dec i)"
    using new_prefix_from_form by auto
  note ok = candidate_ok [OF this]
  show ?thesis
    by (rule new [of ?r]) (use False ok new_prefix_from_fresh in \<open>auto simp: AddNewPrefix_def Let_def\<close>)
qed

lemma AddNewPrefix_keeps:
  assumes "AddNewPrefix st ns isAttr = (r, st')" "NsForPrefix st q = (m, True)"
  shows "NsForPrefix st' q = (m, True)"
proof (cases rule: AddNewPrefix_cases [of st ns isAttr])
  case old
  with assms show ?thesis by simp
next
  case (new r')
  with assms have "q \<noteq> r'" by auto
  with new assms show ?thesis by (auto simp: NsForPrefix_AddXmlns)
qed

lemma AddNewPrefix_pairs:
  "AddNewPrefix st ns isAttr = (r, st') \<Longrightarrow>
   ns_pairs st' = ns_pairs st @ (if snd r then [(fst r, ns)] else []) \<and> ns_depth st' = ns_depth st"
  by (cases rule: AddNewPrefix_cases [of st ns isAttr]) (auto simp: AddXmlns_def)

lemma AddNewPrefix_found:
  assumes "AddNewPrefix st ns isAttr = (r, st')"
  shows "snd (PrefixForNs st' ns isAttr)"
proof (cases rule: AddNewPrefix_cases [of st ns isAttr])
  case old
  with assms show ?thesis by simp
next
  case (new r')
  with assms have st': "st' = AddXmlns r' ns st" by simp
  with new have "PrefixMatchesNs st' r' ns"
    by (simp add: PrefixMatchesNs_def NsForPrefix_AddXmlns)
  moreover from st' have "(r', ns) \<in> set (ns_pairs st')"
    by (simp add: AddXmlns_def)
  ultimately show ?thesis using new by (intro PrefixForNs_complete) auto
qed

lemma AddNewPrefix_found_mono:
  assumes "AddNewPrefix st ns isAttr = (r, st')" "snd (PrefixForNs st n b)"
  shows "snd (PrefixForNs st' n b)"
  using assms(2)
  by (rule PrefixForNs_mono [rotated 2])
     (use AddNewPrefix_keeps [OF assms(1)] AddNewPrefix_pairs [OF assms(1)] in auto)

subsection \<open>Properties\<close>

text \<open>A prefix invented by \<open>AddNewPrefix\<close> was unbound before, is not one of the
  reserved prefixes, leaves every existing binding as it was, and afterwards the namespace
  has a prefix; when the namespace had one already nothing changes.\<close>

theorem AddNewPrefix_binds_fresh:
  assumes "AddNewPrefix st ns isAttr = ((r, added), st')"
  shows "snd (PrefixForNs st' ns isAttr) \<and>
    (added \<longrightarrow> \<not> snd (NsForPrefix st r) \<and> \<not> xml_reserved r \<and> NsForPrefix st' r = (ns, True)) \<and>
    (\<not> added \<longrightarrow> st' = st) \<and>
    (\<forall>q m. NsForPrefix st q = (m, True) \<longrightarrow> NsForPrefix st' q = (m, True))"
proof -
  have "snd (PrefixForNs st' ns isAttr)"
    using AddNewPrefix_found [OF assms] .
  moreover have "\<forall>q m. NsForPrefix st q = (m, True) \<longrightarrow> NsForPrefix st' q = (m, True)"
    using AddNewPrefix_keeps [OF assms] by blast
  moreover have "(added \<longrightarrow> \<not> snd (NsForPrefix st r) \<and> \<not> xml_reserved r \<and> NsForPrefix st' r = (ns, True)) \<and>
    (\<not> added \<longrightarrow> st' = st)"
    by (cases rule: AddNewPrefix_cases [of st ns isAttr]) (use assms in \<open>auto simp: NsForPrefix_AddXmlns\<close>)
  ultimately show ?thesis by blast
qed

theorem AddNewPrefix_binds_fresh_witness:
  "\<exists>r st'. AddNewPrefix xmlns_empty ''jabber:client'' False = ((r, True), st') \<and>
    NsForPrefix st' r = (''jabber:client'', True)"
proof -
  have n: "\<not> snd (PrefixForNs xmlns_empty ''jabber:client'' False)"
    by (simp add: PrefixForNs_def xmlns_empty_def NS_XML_def NS_XMLNS_def NsForPrefix_def PrefixMatchesNs_def xml_reserved_def)
  obtain r b st' where a: "AddNewPrefix xmlns_empty ''jabber:client'' False = ((r, b), st')"
    by (metis surj_pair)
  moreover from a n have "b"
    by (cases rule: AddNewPrefix_cases [of xmlns_empty "''jabber:client''" False]) auto
  ultimately show ?thesis using AddNewPrefix_binds_fresh [OF a] by auto
qed

end
