(* ===== verification/XmlPrint.thy ===== *)
theory XmlPrint
  imports XmlNs
begin

text \<open>
  The serialiser of \<open>talk/xmllite/xmlprinter.cc\<close>. The output stream is the string
  produced so far, the namespace stack is threaded through the recursion, and popping an
  empty stack is \<^const>\<open>None\<close>.
\<close>

definition quoted_escape :: "char \<Rightarrow> string" where
  "quoted_escape c =
     (if c = CHR ''<'' then ''&lt;'' else if c = CHR ''>'' then ''&gt;''
      else if c = CHR ''&'' then ''&amp;'' else if c = CHR 0x22 then ''&quot;'' else [])"

definition body_escape :: "char \<Rightarrow> string" where
  "body_escape c =
     (if c = CHR ''<'' then ''&lt;'' else if c = CHR ''>'' then ''&gt;''
      else if c = CHR ''&'' then ''&amp;'' else [])"

definition quoted_unsafe :: string where
  "quoted_unsafe = [CHR ''<'', CHR ''>'', CHR ''&'', CHR 0x22]"

definition body_unsafe :: string where
  "body_unsafe = [CHR ''<'', CHR ''>'', CHR ''&'']"

text \<open>
  The loop of \<open>PrintQuotedValue\<close> and \<open>PrintBodyText\<close> on the text from \<open>safe\<close> on:
  copy up to the next unsafe character, write its escape, go on behind it.
\<close>

function print_escaped :: "string \<Rightarrow> (char \<Rightarrow> string) \<Rightarrow> string \<Rightarrow> string" where
  "print_escaped unsafe esc str =
     (let run = takeWhile (\<lambda>c. c \<notin> set unsafe) str in
      case dropWhile (\<lambda>c. c \<notin> set unsafe) str of
        [] \<Rightarrow> run
      | c # rest \<Rightarrow> run @ esc c @ (if rest = [] then [] else print_escaped unsafe esc rest))"
  by pat_completeness auto
termination
proof (relation "measure (\<lambda>(u, e, t). length t)")
  fix unsafe str rest :: string and esc :: "char \<Rightarrow> string" and c
  assume "dropWhile (\<lambda>c. c \<notin> set unsafe) str = c # rest"
  then have "Suc (length rest) \<le> length str"
    by (metis length_Cons length_dropWhile_le)
  then show "((unsafe, esc, rest), unsafe, esc, str) \<in> measure (\<lambda>(u, e, t). length t)"
    by simp
qed simp

declare print_escaped.simps [simp del]

definition PrintQuotedValue :: "string \<Rightarrow> string" where
  "PrintQuotedValue str = print_escaped quoted_unsafe quoted_escape str"

definition PrintBodyText :: "string \<Rightarrow> string" where
  "PrintBodyText str = print_escaped body_unsafe body_escape str"

definition PrintCDATAText :: "string \<Rightarrow> string" where
  "PrintCDATAText str = ''<![CDATA['' @ str @ '']]>''"

subsection \<open>The namespace declarations of one element\<close>

text \<open>First loop over the attributes: declarations the element carries itself.\<close>

fun declare_explicit :: "(qname \<times> string) list \<Rightarrow> xmlns_stack \<Rightarrow> xmlns_stack" where
  "declare_explicit [] st = st"
| "declare_explicit ((name, v) # as) st =
     declare_explicit as
       (if name = QN_XMLNS then AddXmlns [] v st
        else if Namespace name = NS_XMLNS then AddXmlns (LocalPart name) v st
        else st)"

text \<open>Second loop: a new prefix for every name whose namespace has none in scope.\<close>

fun declare_new :: "(string \<times> bool) list \<Rightarrow> xmlns_stack \<Rightarrow> (string \<times> string) list \<times> xmlns_stack" where
  "declare_new [] st = ([], st)"
| "declare_new ((ns, isAttr) # rest) st =
     (let (prefix, st1) = AddNewPrefix st ns isAttr;
          (new_ns, st2) = declare_new rest st1
      in (if snd prefix then (fst prefix, ns) # new_ns else new_ns, st2))"

definition open_scope ::
  "qname \<Rightarrow> (qname \<times> string) list \<Rightarrow> xmlns_stack \<Rightarrow> (string \<times> string) list \<times> xmlns_stack" where
  "open_scope name as st =
     declare_new ((Namespace name, False) # map (\<lambda>a. (Namespace (fst a), True)) as)
       (declare_explicit as st)"

definition print_attr :: "xmlns_stack \<Rightarrow> qname \<times> string \<Rightarrow> string" where
  "print_attr st a =
     '' '' @ FormatQName st (fst a) True @ [CHR ''='', CHR 0x22] @ PrintQuotedValue (snd a) @ [CHR 0x22]"

definition print_decl :: "string \<times> string \<Rightarrow> string" where
  "print_decl d =
     (if fst d = [] then '' xmlns='' @ [CHR 0x22] @ snd d @ [CHR 0x22]
      else '' xmlns:'' @ fst d @ [CHR ''='', CHR 0x22] @ snd d @ [CHR 0x22])"

definition print_open :: "xmlns_stack \<Rightarrow> qname \<Rightarrow> (qname \<times> string) list \<Rightarrow> (string \<times> string) list \<Rightarrow> string" where
  "print_open st name as new_ns =
     ''<'' @ FormatQName st name False @ concat (map (print_attr st) as) @ concat (map print_decl new_ns)"

subsection \<open>Elements\<close>

fun PrintElement :: "xmlns_stack \<Rightarrow> xml_element \<Rightarrow> (string \<times> xmlns_stack) option"
  and print_children :: "xmlns_stack \<Rightarrow> bool \<Rightarrow> xml_child list \<Rightarrow> (string \<times> xmlns_stack) option" where
  "PrintElement st (XmlElement name as cs cdata) =
     (let (new_ns, st1) = open_scope name as (PushFrame st);
          head = print_open st1 name as new_ns
      in if cs = [] then map_option (\<lambda>st2. (head @ ''/>'', st2)) (PopFrame st1)
         else case print_children st1 cdata cs of
             None \<Rightarrow> None
           | Some (body, st2) \<Rightarrow>
               map_option (\<lambda>st3. (head @ ''>'' @ body @ ''</'' @ FormatQName st2 name False @ ''>'', st3))
                 (PopFrame st2))"
| "print_children st cdata [] = Some ([], st)"
| "print_children st cdata (XmlText t # cs) =
     map_option (\<lambda>(rest, st'). ((if cdata then PrintCDATAText t else PrintBodyText t) @ rest, st'))
       (print_children st cdata cs)"
| "print_children st cdata (XmlElem e # cs) =
     (case PrintElement st e of
        None \<Rightarrow> None
      | Some (s, st1) \<Rightarrow>
          map_option (\<lambda>(rest, st'). (s @ rest, st')) (print_children st1 cdata cs))"

definition PrintXml :: "xml_element \<Rightarrow> xmlns_stack \<Rightarrow> (string \<times> xmlns_stack) option" where
  "PrintXml e ns_stack = PrintElement ns_stack e"

text \<open>\<open>XmlElement::Str\<close>: print with a stack of its own.\<close>

definition Str :: "xml_element \<Rightarrow> string option" where
  "Str e = map_option fst (PrintXml e xmlns_empty)"

subsection \<open>Escaping\<close>

text \<open>The run-wise loops are the character-wise substitution.\<close>

lemma print_escaped_concat:
  "print_escaped unsafe esc str =
    concat (map (\<lambda>c. if c \<in> set unsafe then esc c else [c]) str)"
proof (induction unsafe esc str rule: print_escaped.induct)
  case (1 unsafe esc str)
  let ?f = "\<lambda>c. if c \<in> set unsafe then esc c else [c]"
  let ?run = "takeWhile (\<lambda>c. c \<notin> set unsafe) str"
  have run: "concat (map ?f ?run) = ?run"
    by (rule concat_map_singleton) (auto dest: set_takeWhileD)
  have split: "concat (map ?f str) =
      concat (map ?f ?run) @ concat (map ?f (dropWhile (\<lambda>c. c \<notin> set unsafe) str))"
    by (metis concat_append map_append takeWhile_dropWhile_id)
  show ?case
  proof (cases "dropWhile (\<lambda>c. c \<notin> set unsafe) str")
    case Nil
    with split run show ?thesis
      by (subst print_escaped.simps) (simp add: Let_def del: dropWhile_eq_Nil_conv)
  next
    case (Cons c rest)
    then have "c \<in> set unsafe"
      by (metis hd_dropWhile list.distinct(1) list.sel(1))
    with Cons split run 1 [OF refl Cons] show ?thesis
      by (subst print_escaped.simps) (auto simp: Let_def)
  qed
qed

lemma PrintQuotedValue_concat:
  "PrintQuotedValue str =
     concat (map (\<lambda>c. if c \<in> set quoted_unsafe then quoted_escape c else [c]) str)"
  unfolding PrintQuotedValue_def by (rule print_escaped_concat)

lemma PrintBodyText_concat:
  "PrintBodyText str =
     concat (map (\<lambda>c. if c \<in> set body_unsafe then body_escape c else [c]) str)"
  unfolding PrintBodyText_def by (rule print_escaped_concat)

subsection \<open>Printing restores the namespace stack\<close>

lemma declare_explicit_fold:
  "\<exists>ds. declare_explicit as st = st\<lparr>ns_pairs := ns_pairs st @ ds\<rparr>"
proof (induction as st rule: declare_explicit.induct)
  case (1 st)
  show ?case by (rule exI [of _ "[]"]) simp
next
  case (2 name v as st)
  then show ?case by (auto simp: AddXmlns_def)
qed

lemma AddNewPrefix_state:
  "AddNewPrefix st ns isAttr = (r, st') \<Longrightarrow>
   st' = st\<lparr>ns_pairs := ns_pairs st @ (if snd r then [(fst r, ns)] else [])\<rparr>"
  by (cases rule: AddNewPrefix_cases [of st ns isAttr]) (auto simp: AddXmlns_def)

lemma declare_new_state:
  "declare_new qs st = (new_ns, st') \<Longrightarrow> st' = st\<lparr>ns_pairs := ns_pairs st @ new_ns\<rparr>"
proof (induction qs st arbitrary: new_ns st' rule: declare_new.induct)
  case (2 ns isAttr rest st)
  obtain r st1 where a: "AddNewPrefix st ns isAttr = (r, st1)" by fastforce
  obtain ns2 st2 where d: "declare_new rest st1 = (ns2, st2)" by fastforce
  have "st2 = st1\<lparr>ns_pairs := ns_pairs st1 @ ns2\<rparr>"
    using 2(1) [OF a [symmetric]] d by (cases r) auto
  with 2(2) AddNewPrefix_state [OF a] a d show ?case by (auto split: if_splits)
qed simp

lemma open_scope_state:
  assumes "open_scope name as st = (new_ns, st')"
  shows "\<exists>ds. st' = fold (\<lambda>d. AddXmlns (fst d) (snd d)) ds st"
proof -
  obtain ds where "declare_explicit as st = st\<lparr>ns_pairs := ns_pairs st @ ds\<rparr>"
    using declare_explicit_fold by blast
  moreover from assms have "st' = (declare_explicit as st)\<lparr>ns_pairs := ns_pairs (declare_explicit as st) @ new_ns\<rparr>"
    unfolding open_scope_def by (rule declare_new_state)
  ultimately have "st' = st\<lparr>ns_pairs := ns_pairs st @ (ds @ new_ns)\<rparr>"
    by simp
  then show ?thesis unfolding fold_AddXmlns by blast
qed

lemma open_scope_PopFrame:
  "open_scope name as (PushFrame st) = (new_ns, st') \<Longrightarrow> PopFrame st' = Some st"
  using open_scope_state xmlns.pop_push by metis

lemma PrintElement_restores: "\<exists>s. PrintElement st e = Some (s, st)"
  and print_children_restores: "\<exists>s. print_children st cd cs = Some (s, st)"
proof (induction st e and st cd cs rule: PrintElement_print_children.induct)
  case (1 st name as cs cdata)
  obtain new_ns st1 where o: "open_scope name as (PushFrame st) = (new_ns, st1)"
    by fastforce
  note pop = open_scope_PopFrame [OF this]
  show ?case
  proof (cases "cs = []")
    case True
    with o pop show ?thesis by simp
  next
    case False
    with 1 o obtain b where "print_children st1 cdata cs = Some (b, st1)"
      by fastforce
    with o pop False show ?thesis by simp
  qed
next
  case (4 st cdata e cs)
  then obtain s where s: "PrintElement st e = Some (s, st)" by blast
  with 4(2) [OF this refl] show ?case by force
qed force+

subsection \<open>Properties\<close>

text \<open>Printing an element always ends, and leaves the namespace stack exactly as it
  found it: every frame pushed for a start tag is popped.\<close>

theorem PrintElement_balanced:
  "\<exists>s. PrintElement st e = Some (s, st) \<and> PrintXml e st = Some (s, st)"
  using PrintElement_restores [of st e] by (simp add: PrintXml_def)

text \<open>The scanning loops of \<open>PrintQuotedValue\<close> and \<open>PrintBodyText\<close> replace the
  unsafe characters one by one and keep the others: they equal the substitution character by
  character.\<close>

theorem print_text_substitutes:
  "PrintQuotedValue s = concat (map (\<lambda>c. if c = CHR ''<'' then ''&lt;'' else if c = CHR ''>'' then ''&gt;''
      else if c = CHR ''&'' then ''&amp;'' else if c = CHR 0x22 then ''&quot;'' else [c]) s) \<and>
   PrintBodyText s = concat (map (\<lambda>c. if c = CHR ''<'' then ''&lt;'' else if c = CHR ''>'' then ''&gt;''
      else if c = CHR ''&'' then ''&amp;'' else [c]) s)"
  unfolding PrintQuotedValue_concat PrintBodyText_concat
  by (intro conjI arg_cong [where f = concat] map_cong)
     (auto simp: quoted_unsafe_def body_unsafe_def quoted_escape_def body_escape_def)

end
