(* ===== verification/XmlParse.thy ===== *)
theory XmlParse
  imports XmlNs
begin

text \<open>
  The SAX layer of \<open>talk/xmllite/xmlparser.cc\<close> and the tree builder of
  \<open>talk/xmllite/xmlbuilder.cc\<close>. The tokenizer (expat, third party) is a parameter:
  for its state, a chunk and the final flag it gives the new state, the callbacks it
  makes with the position it reports at each, and the status of \<open>XML_Parse\<close>.
  The handler behind \<open>pxph_\<close> is a record of operations on its own state, so that the
  parser runs with the builder and with the stanza parser alike.
\<close>

type_synonym xml_error = nat \<comment> \<open>the numbers of \<open>enum XML_Error\<close> of \<open>expat.h\<close>\<close>

definition XML_ERROR_NONE :: xml_error where "XML_ERROR_NONE = 0"
definition XML_ERROR_SYNTAX :: xml_error where "XML_ERROR_SYNTAX = 2"
definition XML_ERROR_INCORRECT_ENCODING :: xml_error where "XML_ERROR_INCORRECT_ENCODING = 19"

lemmas xml_errors = XML_ERROR_NONE_def XML_ERROR_SYNTAX_def XML_ERROR_INCORRECT_ENCODING_def

type_synonym position = "nat \<times> nat \<times> int" \<comment> \<open>line, column, byte index\<close>

datatype sax_event =
    SaxStart string "(string \<times> string) list"
  | SaxEnd string
  | SaxText string
  | SaxDecl "string option" "string option" int

subsection \<open>The parse context\<close>

record parse_context =
  pc_xmlns :: xmlns_stack
  pc_raised :: xml_error
  pc_position :: position

definition context_init :: parse_context where
  "context_init = \<lparr>pc_xmlns = xmlns_empty, pc_raised = XML_ERROR_NONE, pc_position = (0, 0, 0)\<rparr>"

definition RaiseError :: "xml_error \<Rightarrow> parse_context \<Rightarrow> parse_context" where
  "RaiseError err ctx = (if pc_raised ctx = XML_ERROR_NONE then ctx\<lparr>pc_raised := err\<rparr> else ctx)"

definition StartNamespace :: "string \<Rightarrow> string \<Rightarrow> parse_context \<Rightarrow> parse_context" where
  "StartNamespace prefix ns ctx = ctx\<lparr>pc_xmlns := AddXmlns prefix ns (pc_xmlns ctx)\<rparr>"

definition context_StartElement :: "parse_context \<Rightarrow> parse_context" where
  "context_StartElement ctx = ctx\<lparr>pc_xmlns := PushFrame (pc_xmlns ctx)\<rparr>"

definition context_EndElement :: "parse_context \<Rightarrow> parse_context option" where
  "context_EndElement ctx = map_option (\<lambda>st. ctx\<lparr>pc_xmlns := st\<rparr>) (PopFrame (pc_xmlns ctx))"

definition ResolveQName :: "parse_context \<Rightarrow> string \<Rightarrow> bool \<Rightarrow> qname" where
  "ResolveQName ctx qname isAttr =
     (case find_char CHR '':'' qname of
        Some i \<Rightarrow>
          (let result = NsForPrefix (pc_xmlns ctx) (take i qname) in
           if \<not> snd result then QName_empty else QName (fst result) (drop (i + 1) qname))
      | None \<Rightarrow>
          if isAttr then QName [] qname
          else let result = NsForPrefix (pc_xmlns ctx) [] in
            if \<not> snd result then QName_empty else QName (fst result) qname)"

definition context_Reset :: "parse_context \<Rightarrow> parse_context" where
  "context_Reset ctx = ctx\<lparr>pc_xmlns := xmlns_Reset (pc_xmlns ctx), pc_raised := XML_ERROR_NONE\<rparr>"

definition SetPosition :: "position \<Rightarrow> parse_context \<Rightarrow> parse_context" where
  "SetPosition pos ctx = ctx\<lparr>pc_position := pos\<rparr>"

subsection \<open>The callbacks\<close>

record 'h parse_handler =
  ph_StartElement :: "string \<Rightarrow> (string \<times> string) list \<Rightarrow> 'h \<times> parse_context \<Rightarrow> ('h \<times> parse_context) option"
  ph_EndElement :: "string \<Rightarrow> 'h \<times> parse_context \<Rightarrow> ('h \<times> parse_context) option"
  ph_CharacterData :: "string \<Rightarrow> 'h \<times> parse_context \<Rightarrow> ('h \<times> parse_context) option"
  ph_Error :: "xml_error \<Rightarrow> 'h \<times> parse_context \<Rightarrow> ('h \<times> parse_context) option"

definition StartsWithXmlns :: "string \<Rightarrow> bool" where
  "StartsWithXmlns name \<longleftrightarrow> take 5 name = ''xmlns''"

text \<open>
  The attribute loop of \<open>ExpatStartElement\<close>; \<^const>\<open>False\<close> is the early return after
  a prefix bound to the empty namespace.
\<close>

fun start_namespaces :: "(string \<times> string) list \<Rightarrow> parse_context \<Rightarrow> parse_context \<times> bool" where
  "start_namespaces [] ctx = (ctx, True)"
| "start_namespaces ((n, v) # atts) ctx =
     (if StartsWithXmlns n then
        (if length n = 5 then start_namespaces atts (StartNamespace [] v ctx)
         else if n ! 5 = CHR '':'' then
           (if v = [] then (RaiseError XML_ERROR_SYNTAX ctx, False)
            else start_namespaces atts (StartNamespace (drop 6 n) v ctx))
         else start_namespaces atts ctx)
      else start_namespaces atts ctx)"

definition ExpatStartElement ::
  "'h parse_handler \<Rightarrow> position \<Rightarrow> string \<Rightarrow> (string \<times> string) list \<Rightarrow>
   'h \<times> parse_context \<Rightarrow> ('h \<times> parse_context) option" where
  "ExpatStartElement H pos name atts s =
     (let (h, ctx) = s in
      if pc_raised ctx \<noteq> XML_ERROR_NONE then Some s
      else let (ctx1, go) = start_namespaces atts (context_StartElement ctx) in
        if \<not> go then Some (h, ctx1)
        else ph_StartElement H name atts (h, SetPosition pos ctx1))"

definition ExpatEndElement ::
  "'h parse_handler \<Rightarrow> position \<Rightarrow> string \<Rightarrow> 'h \<times> parse_context \<Rightarrow> ('h \<times> parse_context) option" where
  "ExpatEndElement H pos name s =
     (let (h, ctx) = s in
      if pc_raised ctx \<noteq> XML_ERROR_NONE then Some s
      else case context_EndElement ctx of
          None \<Rightarrow> None
        | Some ctx1 \<Rightarrow> ph_EndElement H name (h, SetPosition pos ctx1))"

definition ExpatCharacterData ::
  "'h parse_handler \<Rightarrow> position \<Rightarrow> string \<Rightarrow> 'h \<times> parse_context \<Rightarrow> ('h \<times> parse_context) option" where
  "ExpatCharacterData H pos txt s =
     (let (h, ctx) = s in
      if pc_raised ctx \<noteq> XML_ERROR_NONE then Some s
      else ph_CharacterData H txt (h, SetPosition pos ctx))"

text \<open>Reads past the end of the encoding name meet the terminating NUL.\<close>

definition c_at :: "string \<Rightarrow> nat \<Rightarrow> char" where
  "c_at s i = (if i < length s then s ! i else NUL)"

definition is_utf8_name :: "string \<Rightarrow> bool" where
  "is_utf8_name enc \<longleftrightarrow>
     (c_at enc 0 = CHR ''U'' \<or> c_at enc 0 = CHR ''u'') \<and>
     (c_at enc 1 = CHR ''T'' \<or> c_at enc 1 = CHR ''t'') \<and>
     (c_at enc 2 = CHR ''F'' \<or> c_at enc 2 = CHR ''f'') \<and>
     c_at enc 3 = CHR ''-'' \<and> c_at enc 4 = CHR ''8''"

definition ExpatXmlDecl ::
  "string option \<Rightarrow> string option \<Rightarrow> int \<Rightarrow> 'h \<times> parse_context \<Rightarrow> ('h \<times> parse_context) option" where
  "ExpatXmlDecl ver enc standalone s =
     (let (h, ctx) = s in
      if pc_raised ctx \<noteq> XML_ERROR_NONE then Some s
      else if ver \<noteq> None \<and> ver \<noteq> Some ''1.0'' then Some (h, RaiseError XML_ERROR_SYNTAX ctx)
      else if standalone = 0 then Some (h, RaiseError XML_ERROR_SYNTAX ctx)
      else if enc \<noteq> None \<and> \<not> is_utf8_name (the enc)
        then Some (h, RaiseError XML_ERROR_INCORRECT_ENCODING ctx)
      else Some s)"

fun sax_step ::
  "'h parse_handler \<Rightarrow> position \<Rightarrow> sax_event \<Rightarrow> 'h \<times> parse_context \<Rightarrow> ('h \<times> parse_context) option" where
  "sax_step H pos (SaxStart name atts) s = ExpatStartElement H pos name atts s"
| "sax_step H pos (SaxEnd name) s = ExpatEndElement H pos name s"
| "sax_step H pos (SaxText t) s = ExpatCharacterData H pos t s"
| "sax_step H pos (SaxDecl ver enc st) s = ExpatXmlDecl ver enc st s"

fun sax_run ::
  "'h parse_handler \<Rightarrow> (position \<times> sax_event) list \<Rightarrow> 'h \<times> parse_context \<Rightarrow> ('h \<times> parse_context) option" where
  "sax_run H [] s = Some s"
| "sax_run H ((pos, ev) # evs) s =
     (case sax_step H pos ev s of None \<Rightarrow> None | Some s' \<Rightarrow> sax_run H evs s')"

subsection \<open>The parser object\<close>

record ('x, 'h) xml_parser =
  xp_context :: parse_context
  xp_expat :: 'x
  xp_handler :: 'h
  xp_sentError :: bool

text \<open>Expat: \<open>feed x data isFinal\<close> is (new state, callbacks, status, position at the status).\<close>

type_synonym 'x expat_feed =
  "'x \<Rightarrow> string \<Rightarrow> bool \<Rightarrow> 'x \<times> (position \<times> sax_event) list \<times> xml_error \<times> position"

definition Parse ::
  "'x expat_feed \<Rightarrow> 'h parse_handler \<Rightarrow> string \<Rightarrow> bool \<Rightarrow> ('x, 'h) xml_parser \<Rightarrow>
   (('x, 'h) xml_parser \<times> bool) option" where
  "Parse feed H data isFinal p =
     (if xp_sentError p then Some (p, False)
      else let (x, evs, status, pos) = feed (xp_expat p) data isFinal in
        case sax_run H evs (xp_handler p, xp_context p) of
          None \<Rightarrow> None
        | Some (h, ctx) \<Rightarrow>
            (let ctx1 = (if status \<noteq> XML_ERROR_NONE then RaiseError status (SetPosition pos ctx) else ctx);
                 p1 = p\<lparr>xp_expat := x, xp_context := ctx1, xp_handler := h\<rparr> in
             if pc_raised ctx1 \<noteq> XML_ERROR_NONE then
               (case ph_Error H (pc_raised ctx1) (h, ctx1) of
                  None \<Rightarrow> None
                | Some (h2, ctx2) \<Rightarrow>
                    Some (p1\<lparr>xp_sentError := True, xp_handler := h2, xp_context := ctx2\<rparr>, False))
             else Some (p1, True)))"

text \<open>\<open>XmlParser::Reset\<close>: \<open>x0\<close> is the state of a fresh or reset expat parser.\<close>

definition parser_Reset :: "'x \<Rightarrow> ('x, 'h) xml_parser \<Rightarrow> ('x, 'h) xml_parser" where
  "parser_Reset x0 p =
     p\<lparr>xp_expat := x0, xp_context := context_Reset (xp_context p), xp_sentError := False\<rparr>"

definition parser_init :: "'x \<Rightarrow> 'h \<Rightarrow> ('x, 'h) xml_parser" where
  "parser_init x0 h =
     \<lparr>xp_context = context_init, xp_expat = x0, xp_handler = h, xp_sentError = False\<rparr>"

definition ParseXml ::
  "'x expat_feed \<Rightarrow> 'x \<Rightarrow> 'h parse_handler \<Rightarrow> 'h \<Rightarrow> string \<Rightarrow> 'h option" where
  "ParseXml feed x0 H h txt = map_option (\<lambda>r. xp_handler (fst r)) (Parse feed H txt True (parser_init x0 h))"

end
