(* ===== verification/XmlBuild.thy ===== *)
theory XmlBuild
  imports XmlParse
begin

text \<open>
  The tree builder of \<open>talk/xmllite/xmlbuilder.cc\<close>. \<open>pelCurrent_\<close> and the entries of
  \<open>pvParents_\<close> point into the tree owned by \<open>pelRoot_\<close>; a child is linked into its
  parent when it starts, as the last child, so such a pointer is the number of
  \<open>last_child_\<close> steps from the root, and \<open>NULL\<close> is \<^const>\<open>None\<close>. Using a pointer
  into a tree that is gone, and \<open>back()\<close> of the empty vector, are \<^const>\<open>None\<close>.
\<close>

record xml_builder =
  bld_current :: "nat option"
  bld_root :: "xml_element option"
  bld_parents :: "nat option list"

definition builder_init :: xml_builder where
  "builder_init = \<lparr>bld_current = None, bld_root = None, bld_parents = []\<rparr>"

definition builder_Reset :: "xml_builder \<Rightarrow> xml_builder" where
  "builder_Reset b = b\<lparr>bld_root := None, bld_current := None, bld_parents := []\<rparr>"

text \<open>The attribute loop of \<open>BuildElement\<close>; namespaced names may not repeat.\<close>

fun build_attrs ::
  "parse_context \<Rightarrow> (string \<times> string) list \<Rightarrow> qname set \<Rightarrow> xml_element \<Rightarrow> xml_element option" where
  "build_attrs ctx [] seen pelNew = Some pelNew"
| "build_attrs ctx ((n, v) # atts) seen pelNew =
     (let attName = ResolveQName ctx n True in
      if QName_IsEmpty attName then None
      else if Namespace attName \<noteq> [] then
        (if attName \<in> seen then None
         else build_attrs ctx atts (insert attName seen) (AddAttr pelNew attName v))
      else build_attrs ctx atts seen (AddAttr pelNew attName v))"

definition BuildElement ::
  "parse_context \<Rightarrow> string \<Rightarrow> (string \<times> string) list \<Rightarrow> xml_element option" where
  "BuildElement ctx name atts =
     (let tagName = ResolveQName ctx name False in
      if QName_IsEmpty tagName then None
      else build_attrs ctx atts {} (new_element tagName))"

definition builder_StartElement ::
  "string \<Rightarrow> (string \<times> string) list \<Rightarrow> xml_builder \<times> parse_context \<Rightarrow>
   (xml_builder \<times> parse_context) option" where
  "builder_StartElement name atts s =
     (let (b, ctx) = s in
      case BuildElement ctx name atts of
        None \<Rightarrow> Some (b, RaiseError XML_ERROR_SYNTAX ctx)
      | Some pelNew \<Rightarrow>
          (case bld_current b of
             None \<Rightarrow>
               Some (b\<lparr>bld_current := Some 0, bld_root := Some pelNew,
                       bld_parents := bld_parents b @ [None]\<rparr>, ctx)
           | Some d \<Rightarrow>
               (case Option.bind (bld_root b) (at_depth d (\<lambda>e. AddElement e (Some pelNew))) of
                  None \<Rightarrow> None
                | Some root \<Rightarrow>
                    Some (b\<lparr>bld_root := Some root, bld_parents := bld_parents b @ [Some d],
                            bld_current := Some (Suc d)\<rparr>, ctx))))"

definition builder_EndElement ::
  "string \<Rightarrow> xml_builder \<times> parse_context \<Rightarrow> (xml_builder \<times> parse_context) option" where
  "builder_EndElement name s =
     (let (b, ctx) = s in
      if bld_parents b = [] then None
      else Some (b\<lparr>bld_current := last (bld_parents b),
                   bld_parents := butlast (bld_parents b)\<rparr>, ctx))"

definition builder_CharacterData ::
  "string \<Rightarrow> xml_builder \<times> parse_context \<Rightarrow> (xml_builder \<times> parse_context) option" where
  "builder_CharacterData txt s =
     (let (b, ctx) = s in
      case bld_current b of
        None \<Rightarrow> Some s
      | Some d \<Rightarrow>
          map_option (\<lambda>root. (b\<lparr>bld_root := Some root\<rparr>, ctx))
            (Option.bind (bld_root b) (at_depth d (\<lambda>e. AddParsedText e txt))))"

definition builder_Error ::
  "xml_error \<Rightarrow> xml_builder \<times> parse_context \<Rightarrow> (xml_builder \<times> parse_context) option" where
  "builder_Error err s =
     (let (b, ctx) = s in
      Some (b\<lparr>bld_root := None, bld_current := None, bld_parents := []\<rparr>, ctx))"

definition CreateElement :: "xml_builder \<Rightarrow> xml_element option \<times> xml_builder" where
  "CreateElement b = (bld_root b, b\<lparr>bld_root := None\<rparr>)"

definition BuiltElement :: "xml_builder \<Rightarrow> xml_element option" where
  "BuiltElement b = bld_root b"

definition builder_handler :: "xml_builder parse_handler" where
  "builder_handler =
     \<lparr>ph_StartElement = builder_StartElement, ph_EndElement = builder_EndElement,
      ph_CharacterData = builder_CharacterData, ph_Error = builder_Error\<rparr>"

text \<open>\<open>XmlElement::ForStr\<close>.\<close>

definition ForStr :: "'x expat_feed \<Rightarrow> 'x \<Rightarrow> string \<Rightarrow> xml_element option" where
  "ForStr feed x0 str =
     Option.bind (ParseXml feed x0 builder_handler builder_init str) (\<lambda>b. fst (CreateElement b))"

lemma builder_handler_sel [simp]:
  "ph_StartElement builder_handler = builder_StartElement"
  "ph_EndElement builder_handler = builder_EndElement"
  "ph_CharacterData builder_handler = builder_CharacterData"
  "ph_Error builder_handler = builder_Error"
  by (simp_all add: builder_handler_def)

subsection \<open>Pointers along the last children\<close>

text \<open>
  \<open>plug e ps\<close> is the tree in which \<open>e\<close> is the last child of the first element of \<open>ps\<close>,
  that one the last child of the next, and so on: the tree under construction with \<open>e\<close>
  the current element.
\<close>

fun plug :: "xml_element \<Rightarrow> xml_element list \<Rightarrow> xml_element" where
  "plug e [] = e"
| "plug e (p # ps) = plug (AddElement p (Some e)) ps"

lemma at_depth_plug_gen:
  "at_depth (length ps + m) f (plug e ps) = map_option (\<lambda>e'. plug e' ps) (at_depth m f e)"
proof (induction ps arbitrary: e m)
  case Nil
  then show ?case by (simp add: option.map_ident)
next
  case (Cons p ps)
  have "at_depth (length (p # ps) + m) f (plug e (p # ps)) =
      at_depth (length ps + Suc m) f (plug (AddElement p (Some e)) ps)"
    by simp
  also have "\<dots> = map_option (\<lambda>e'. plug e' ps) (at_depth (Suc m) f (AddElement p (Some e)))"
    by (rule Cons.IH)
  also have "\<dots> = map_option (\<lambda>e'. plug e' (p # ps)) (at_depth m f e)"
    by (cases "at_depth m f e") (simp_all add: AddElement_def with_children_def)
  finally show ?case .
qed

lemma at_depth_plug: "at_depth (length ps) f (plug e ps) = Some (plug (f e) ps)"
  using at_depth_plug_gen [of ps 0 f e] by simp

text \<open>The builder state that stands for the element \<open>e\<close> open inside \<open>ps\<close>.\<close>

definition building :: "xml_element \<Rightarrow> xml_element list \<Rightarrow> xml_builder" where
  "building e ps =
     \<lparr>bld_current = Some (length ps), bld_root = Some (plug e ps),
      bld_parents = None # map Some [0..<length ps]\<rparr>"

lemma building_start:
  "BuildElement ctx name atts = Some new \<Longrightarrow>
   builder_StartElement name atts (building e ps, ctx) = Some (building new (e # ps), ctx)"
  by (simp add: builder_StartElement_def building_def at_depth_plug)

lemma building_start_root:
  "BuildElement ctx name atts = Some new \<Longrightarrow> bld_current b = None \<Longrightarrow> bld_parents b = [] \<Longrightarrow>
   builder_StartElement name atts (b, ctx) = Some (building new [], ctx)"
  by (simp add: builder_StartElement_def building_def)

lemma building_text:
  "builder_CharacterData t (building e ps, ctx) = Some (building (AddParsedText e t) ps, ctx)"
  by (simp add: builder_CharacterData_def building_def at_depth_plug)

lemma building_end:
  "builder_EndElement name (building e (p # ps), ctx) =
     Some (building (AddElement p (Some e)) ps, ctx)"
  by (simp add: builder_EndElement_def building_def butlast_append)

lemma building_end_root:
  "builder_EndElement name (building e [], ctx) =
     Some (\<lparr>bld_current = None, bld_root = Some e, bld_parents = []\<rparr>, ctx)"
  by (simp add: builder_EndElement_def building_def)

text \<open>A failed \<open>BuildElement\<close> raises the syntax error and leaves the builder alone.\<close>

lemma builder_start_fails:
  "BuildElement ctx name atts = None \<Longrightarrow>
   builder_StartElement name atts (b, ctx) = Some (b, RaiseError XML_ERROR_SYNTAX ctx)"
  by (simp add: builder_StartElement_def)

subsection \<open>After an error\<close>

text \<open>
  What the parser expects of a handler: it changes the context only by raising errors,
  and an error that was raised stays. Then, once an error is raised, later callbacks do
  nothing.
\<close>

locale sax_client =
  fixes H :: "'h parse_handler" and ok :: "'h \<Rightarrow> bool"
  assumes start_ctx: "ph_StartElement H n as (h, c) = Some (h', c') \<Longrightarrow>
      pc_xmlns c' = pc_xmlns c \<and> (pc_raised c \<noteq> XML_ERROR_NONE \<longrightarrow> pc_raised c' = pc_raised c)"
    and end_ctx: "ph_EndElement H n (h, c) = Some (h', c') \<Longrightarrow>
      pc_xmlns c' = pc_xmlns c \<and> (pc_raised c \<noteq> XML_ERROR_NONE \<longrightarrow> pc_raised c' = pc_raised c)"
    and text_ctx: "ph_CharacterData H t (h, c) = Some (h', c') \<Longrightarrow>
      pc_xmlns c' = pc_xmlns c \<and> (pc_raised c \<noteq> XML_ERROR_NONE \<longrightarrow> pc_raised c' = pc_raised c)"
    and error_ok: "\<exists>h' c'. ph_Error H err (h, c) = Some (h', c') \<and> ok h' \<and> pc_raised c' = pc_raised c"
begin

lemma raised_absorbs_step:
  "pc_raised c \<noteq> XML_ERROR_NONE \<Longrightarrow> sax_step H pos ev (h, c) = Some (h, c)"
  by (cases ev) (simp_all add: ExpatStartElement_def ExpatEndElement_def
      ExpatCharacterData_def ExpatXmlDecl_def)

lemma raised_absorbs_run:
  "pc_raised c \<noteq> XML_ERROR_NONE \<Longrightarrow> sax_run H evs (h, c) = Some (h, c)"
  by (induction evs) (auto simp: raised_absorbs_step)

text \<open>A parse that reports failure has told the handler, and every later one fails.\<close>

lemma parse_failure_sticks:
  assumes "Parse feed H data fin p = Some (p', False)"
  shows "xp_sentError p'" and "Parse feed H data' fin' p' = Some (p', False)"
proof -
  from assms show "xp_sentError p'"
    by (auto simp: Parse_def Let_def split: if_splits prod.splits option.splits)
  then show "Parse feed H data' fin' p' = Some (p', False)"
    by (simp add: Parse_def)
qed

lemma parse_failure_resets_handler:
  assumes "Parse feed H data fin p = Some (p', False)" "\<not> xp_sentError p"
  shows "ok (xp_handler p') \<and> pc_raised (xp_context p') \<noteq> XML_ERROR_NONE"
proof -
  obtain x evs status pos where f: "feed (xp_expat p) data fin = (x, evs, status, pos)"
    by (metis prod_cases4)
  from assms f obtain h ctx where r: "sax_run H evs (xp_handler p, xp_context p) = Some (h, ctx)"
    by (auto simp: Parse_def Let_def split: if_splits prod.splits option.splits)
  let ?c = "if status \<noteq> XML_ERROR_NONE then RaiseError status (SetPosition pos ctx) else ctx"
  from assms f r have n: "pc_raised ?c \<noteq> XML_ERROR_NONE"
    by (auto simp: Parse_def Let_def split: if_splits prod.splits option.splits)
  obtain h' c' where "ph_Error H (pc_raised ?c) (h, ?c) = Some (h', c')" "ok h'" "pc_raised c' = pc_raised ?c"
    using error_ok by blast
  with assms f r n show ?thesis
    by (auto simp: Parse_def Let_def)
qed

end

lemma RaiseError_sel [simp]:
  "pc_xmlns (RaiseError e c) = pc_xmlns c"
  "pc_raised (RaiseError e c) = (if pc_raised c = XML_ERROR_NONE then e else pc_raised c)"
  by (simp_all add: RaiseError_def)

lemma SetPosition_sel [simp]:
  "pc_xmlns (SetPosition pos c) = pc_xmlns c" "pc_raised (SetPosition pos c) = pc_raised c"
  by (simp_all add: SetPosition_def)

interpretation builder: sax_client builder_handler "\<lambda>b. b = builder_init"
  by unfold_locales
     (auto simp: builder_StartElement_def builder_EndElement_def builder_CharacterData_def
        builder_Error_def builder_init_def split: option.splits if_splits)

subsection \<open>Properties\<close>

text \<open>A document that has failed stays failed: once \<open>Parse\<close> has reported an error to the
  builder, the builder is empty, and every later call of \<open>Parse\<close> returns false and changes
  nothing, whatever data it is given.\<close>

theorem builder_failure_is_final:
  assumes "Parse feed builder_handler data fin p = Some (p', False)" and "\<not> xp_sentError p"
  shows "xp_handler p' = builder_init \<and> xp_sentError p' \<and>
    Parse feed builder_handler data' fin' p' = Some (p', False)"
  using builder.parse_failure_resets_handler [OF assms] builder.parse_failure_sticks [OF assms(1)]
  by blast

theorem builder_failure_is_final_witness:
  "\<exists>p'. Parse (\<lambda>x s f. (x, [], XML_ERROR_SYNTAX, (1, 0, 0))) builder_handler ''<'' True
      (parser_init () builder_init) = Some (p', False) \<and> xp_handler p' = builder_init"
proof -
  let ?p = "parser_init () builder_init"
  let ?f = "\<lambda>(x::unit) (s::string) (f::bool). (x, []::(position \<times> sax_event) list, XML_ERROR_SYNTAX, (1, 0, 0)::position)"
  obtain p' where "Parse ?f builder_handler ''<'' True ?p = Some (p', False)"
    by (simp add: Parse_def parser_init_def XML_ERROR_SYNTAX_def XML_ERROR_NONE_def
        SetPosition_def RaiseError_def context_init_def builder_Error_def)
  then show ?thesis
    using builder_failure_is_final [of ?f "''<''" True ?p p' "''x''" True] by (auto simp: parser_init_def)
qed

end
