(* ===== verification/XmlRound.thy ===== *)
theory XmlRound
  imports XmlPrint XmlBuild
begin

text \<open>
  Printing and parsing back. The printer's output is the rendering of a sequence of
  tags and texts (the printer's own tokens); a tokenizer that reports exactly those
  makes the parser rebuild the element, with the namespace declarations that the printer
  had to invent as additional attributes.
\<close>

subsection \<open>The tokens of a printed element\<close>

definition decl_att :: "string \<times> string \<Rightarrow> string \<times> string" where
  "decl_att d = (''xmlns:'' @ fst d, snd d)"

definition open_atts ::
  "xmlns_stack \<Rightarrow> (qname \<times> string) list \<Rightarrow> (string \<times> string) list \<Rightarrow> (string \<times> string) list" where
  "open_atts st as new_ns =
     map (\<lambda>a. (FormatQName st (fst a) True, snd a)) as @ map decl_att new_ns"

fun tokens :: "xmlns_stack \<Rightarrow> xml_element \<Rightarrow> sax_event list"
  and tokens_children :: "xmlns_stack \<Rightarrow> xml_child list \<Rightarrow> sax_event list" where
  "tokens st (XmlElement name as cs cdata) =
     (let (new_ns, st1) = open_scope name as (PushFrame st) in
      SaxStart (FormatQName st1 name False) (open_atts st1 as new_ns)
        # tokens_children st1 cs @ [SaxEnd (FormatQName st1 name False)])"
| "tokens_children st [] = []"
| "tokens_children st (XmlText t # cs) = SaxText t # tokens_children st cs"
| "tokens_children st (XmlElem e # cs) = tokens st e @ tokens_children st cs"

text \<open>The text of a token sequence: a start tag directly before an end tag is \<open>/>\<close>.\<close>

definition render_att :: "string \<times> string \<Rightarrow> string" where
  "render_att a = '' '' @ fst a @ [CHR ''='', CHR 0x22] @ PrintQuotedValue (snd a) @ [CHR 0x22]"

fun render :: "sax_event list \<Rightarrow> string" where
  "render [] = []"
| "render (SaxStart n atts # SaxEnd m # evs) =
     ''<'' @ n @ concat (map render_att atts) @ ''/>'' @ render evs"
| "render (SaxStart n atts # evs) = ''<'' @ n @ concat (map render_att atts) @ ''>'' @ render evs"
| "render (SaxEnd n # evs) = ''</'' @ n @ ''>'' @ render evs"
| "render (SaxText t # evs) = PrintBodyText t @ render evs"
| "render (SaxDecl ver enc sa # evs) = render evs"

text \<open>
  What is asked of the tokenizer for one document: it reports the tokens of a rendered
  token sequence, at any positions, without an error.
\<close>

definition reads_back :: "'x expat_feed \<Rightarrow> 'x \<Rightarrow> sax_event list \<Rightarrow> bool" where
  "reads_back feed x0 evs \<longleftrightarrow>
     (\<exists>x' pevs pos. feed x0 (render evs) True = (x', pevs, XML_ERROR_NONE, pos) \<and> map snd pevs = evs)"

subsection \<open>What can be printed and read back\<close>

text \<open>
  The names have a local part without colon and are not empty; attribute names are
  distinct; a namespace declaration the element carries is not empty; text nodes are
  merged; no CDATA flag. The last condition is about the declarations the printer
  invents: it must not have to bind a prefix to the empty namespace, which XML forbids,
  and the namespace names have no character that needs escaping, since the printer
  writes them as they are.
\<close>

definition plain_ns :: "string \<Rightarrow> bool" where
  "plain_ns ns \<longleftrightarrow> ns \<noteq> [] \<and> list_all (\<lambda>c. c \<notin> set quoted_unsafe) ns"

definition good_name :: "qname \<Rightarrow> bool" where
  "good_name q \<longleftrightarrow> \<not> QName_IsEmpty q \<and> CHR '':'' \<notin> set (LocalPart q)"

definition good_attrs :: "(qname \<times> string) list \<Rightarrow> bool" where
  "good_attrs as \<longleftrightarrow>
     distinct (map fst as) \<and>
     list_all (\<lambda>a. good_name (fst a) \<and> (Namespace (fst a) = NS_XMLNS \<longrightarrow> snd a \<noteq> [])) as"

fun printable :: "xmlns_stack \<Rightarrow> xml_element \<Rightarrow> bool"
  and printable_children :: "xmlns_stack \<Rightarrow> xml_child list \<Rightarrow> bool" where
  "printable st (XmlElement name as cs cdata) =
     (let (new_ns, st1) = open_scope name as (PushFrame st) in
      good_name name \<and> good_attrs as \<and> list_all (\<lambda>d. plain_ns (snd d)) new_ns \<and>
      \<not> cdata \<and> text_merged cs \<and> printable_children st1 cs)"
| "printable_children st [] = True"
| "printable_children st (XmlText t # cs) = printable_children st cs"
| "printable_children st (XmlElem e # cs) = (printable st e \<and> printable_children st cs)"

text \<open>The element as it comes back: the invented declarations are attributes now.\<close>

fun declared :: "xmlns_stack \<Rightarrow> xml_element \<Rightarrow> xml_element"
  and declared_children :: "xmlns_stack \<Rightarrow> xml_child list \<Rightarrow> xml_child list" where
  "declared st (XmlElement name as cs cdata) =
     (let (new_ns, st1) = open_scope name as (PushFrame st) in
      XmlElement name (as @ map (\<lambda>d. (QName NS_XMLNS (fst d), snd d)) new_ns)
        (declared_children st1 cs) cdata)"
| "declared_children st [] = []"
| "declared_children st (XmlText t # cs) = XmlText t # declared_children st cs"
| "declared_children st (XmlElem e # cs) = XmlElem (declared st e) # declared_children st cs"

subsection \<open>Names resolve to themselves\<close>

definition prefixes_ok :: "xmlns_stack \<Rightarrow> bool" where
  "prefixes_ok st \<longleftrightarrow> (\<forall>p \<in> fst ` set (ns_pairs st). CHR '':'' \<notin> set p)"

lemma ResolveQName_prefixed:
  "CHR '':'' \<notin> set p \<Longrightarrow> NsForPrefix (pc_xmlns ctx) p = (ns, True) \<Longrightarrow>
   ResolveQName ctx (p @ CHR '':'' # l) b = QName ns l"
  by (simp add: ResolveQName_def find_char_append)

lemma Format_Resolve:
  assumes ok: "prefixes_ok (pc_xmlns ctx)" and found: "snd (PrefixForNs (pc_xmlns ctx) (Namespace q) b)"
    and local: "CHR '':'' \<notin> set (LocalPart q)"
  shows "ResolveQName ctx (FormatQName (pc_xmlns ctx) q b) b = q"
proof -
  let ?st = "pc_xmlns ctx"
  obtain p where p: "PrefixForNs ?st (Namespace q) b = (p, True)"
    using found by (cases "PrefixForNs ?st (Namespace q) b") auto
  note sound = PrefixForNs_sound [OF p]
  show ?thesis
  proof (cases "p = []")
    case True
    with p sound local show ?thesis
      by (cases q; cases "NsForPrefix ?st []")
         (auto simp: FormatQName_def ResolveQName_def PrefixMatchesNs_def)
  next
    case False
    have "CHR '':'' \<notin> set p"
      using PrefixForNs_prefix [OF p] ok by (auto simp: prefixes_ok_def)
    moreover have "NsForPrefix ?st p = (Namespace q, True)"
      using sound False by (cases "NsForPrefix ?st p") (auto simp: PrefixMatchesNs_def)
    ultimately show ?thesis
      using p False by (cases q) (simp add: FormatQName_def ResolveQName_prefixed)
  qed
qed

lemma Resolve_decl_att:
  "CHR '':'' \<notin> set p \<Longrightarrow> ResolveQName ctx (''xmlns:'' @ p) True = QName NS_XMLNS p"
  using ResolveQName_prefixed [of "''xmlns''" ctx NS_XMLNS p True] by simp

subsection \<open>The scope of an element\<close>

lemma prefixes_ok_AddXmlns [simp]:
  "prefixes_ok (AddXmlns p n st) \<longleftrightarrow> CHR '':'' \<notin> set p \<and> prefixes_ok st"
  by (auto simp: prefixes_ok_def AddXmlns_def)

lemma prefixes_ok_PushFrame [simp]: "prefixes_ok (PushFrame st) = prefixes_ok st"
  by (simp add: prefixes_ok_def PushFrame_def)

lemma good_attrs_Cons:
  "good_attrs (a # as) \<longleftrightarrow>
     fst a \<notin> fst ` set as \<and> good_name (fst a) \<and> (Namespace (fst a) = NS_XMLNS \<longrightarrow> snd a \<noteq> []) \<and> good_attrs as"
  by (auto simp: good_attrs_def)

lemma declare_explicit_ok:
  "prefixes_ok st \<Longrightarrow> good_attrs as \<Longrightarrow> prefixes_ok (declare_explicit as st)"
proof (induction as st rule: declare_explicit.induct)
  case (2 name v as st)
  then have "CHR '':'' \<notin> set (LocalPart name)"
    by (simp add: good_attrs_Cons good_name_def)
  with 2 show ?case by (simp add: good_attrs_Cons)
qed simp

lemma declare_explicit_keeps:
  "snd (NsForPrefix st p) \<Longrightarrow> snd (NsForPrefix (declare_explicit as st) p)"
  by (induction as st rule: declare_explicit.induct) (auto simp: NsForPrefix_AddXmlns)

lemma declare_explicit_binds:
  "(QName NS_XMLNS p, v) \<in> set as \<Longrightarrow> \<not> xml_reserved p \<Longrightarrow>
   snd (NsForPrefix (declare_explicit as st) p)"
proof (induction as st rule: declare_explicit.induct)
  case (2 name w as st)
  show ?case
  proof (cases "(QName NS_XMLNS p, v) \<in> set as")
    case True
    with 2 show ?thesis by simp
  next
    case False
    with 2(2) have "name = QName NS_XMLNS p" by auto
    with 2(3) show ?thesis
      by (simp add: QN_XMLNS_def NsForPrefix_AddXmlns declare_explicit_keeps)
  qed
qed simp

lemma declare_new_keeps:
  "declare_new qs st = (new_ns, st') \<Longrightarrow> NsForPrefix st q = (m, True) \<Longrightarrow> NsForPrefix st' q = (m, True)"
proof (induction qs st arbitrary: new_ns st' rule: declare_new.induct)
  case (2 ns isAttr rest st)
  obtain r st1 where a: "AddNewPrefix st ns isAttr = (r, st1)" by fastforce
  obtain ns2 st2 where d: "declare_new rest st1 = (ns2, st2)" by fastforce
  from 2(1) [OF a [symmetric]] d AddNewPrefix_keeps [OF a 2(3)] 2(2) a
  show ?case by (auto split: if_splits)
qed simp

lemma declare_new_found_mono:
  "declare_new qs st = (new_ns, st') \<Longrightarrow> snd (PrefixForNs st n b) \<Longrightarrow> snd (PrefixForNs st' n b)"
  by (rule PrefixForNs_mono [of st]) (auto intro: declare_new_keeps dest: declare_new_state)

lemma declare_new_found:
  "declare_new qs st = (new_ns, st') \<Longrightarrow> (n, b) \<in> set qs \<Longrightarrow> snd (PrefixForNs st' n b)"
proof (induction qs st arbitrary: new_ns st' rule: declare_new.induct)
  case (2 ns isAttr rest st)
  obtain r st1 where a: "AddNewPrefix st ns isAttr = (r, st1)" by fastforce
  obtain ns2 st2 where d: "declare_new rest st1 = (ns2, st2)" by fastforce
  with 2(2) a have st': "st' = st2" by (auto split: if_splits)
  show ?case
  proof (cases "(n, b) = (ns, isAttr)")
    case True
    with AddNewPrefix_found [OF a] declare_new_found_mono [OF d] st' show ?thesis by simp
  next
    case False
    with 2(1) [OF a [symmetric]] 2(3) d st' show ?thesis by (cases r) auto
  qed
qed simp

text \<open>The invented prefixes: fresh, distinct, not reserved, not empty, without colon.\<close>

lemma declare_new_fresh:
  "declare_new qs st = (new_ns, st') \<Longrightarrow>
   distinct (map fst new_ns) \<and>
   (\<forall>d \<in> set new_ns. \<not> snd (NsForPrefix st (fst d)) \<and> \<not> xml_reserved (fst d) \<and>
      CHR '':'' \<notin> set (fst d) \<and> fst d \<noteq> [])"
proof (induction qs st arbitrary: new_ns st' rule: declare_new.induct)
  case (2 ns isAttr rest st)
  obtain r st1 where a: "AddNewPrefix st ns isAttr = (r, st1)" by fastforce
  obtain ns2 st2 where d: "declare_new rest st1 = (ns2, st2)" by fastforce
  have IH: "distinct (map fst ns2) \<and>
    (\<forall>d \<in> set ns2. \<not> snd (NsForPrefix st1 (fst d)) \<and> \<not> xml_reserved (fst d) \<and>
       CHR '':'' \<notin> set (fst d) \<and> fst d \<noteq> [])"
    using 2(1) [OF a [symmetric]] d by simp
  have keep: "snd (NsForPrefix st q) \<Longrightarrow> snd (NsForPrefix st1 q)" for q
    using AddNewPrefix_keeps [OF a, of q] by (cases "NsForPrefix st q") auto
  have fresh: "\<forall>d \<in> set ns2. \<not> snd (NsForPrefix st (fst d))"
    using IH keep by blast
  show ?case
  proof (cases rule: AddNewPrefix_cases [of st ns isAttr])
    case old
    with 2(2) a d IH show ?thesis by auto
  next
    case (new r')
    with a have st1: "st1 = AddXmlns r' ns st" by simp
    then have "snd (NsForPrefix st1 r')"
      using new by (simp add: NsForPrefix_AddXmlns)
    with IH have "r' \<notin> fst ` set ns2" by auto
    moreover from 2(2) a d new have "new_ns = (r', ns) # ns2" by auto
    ultimately show ?thesis using IH fresh new by simp
  qed
qed simp


text \<open>
  The scope of an element's start tag: \<open>st1\<close> is the stack the printer uses for its
  names, \<open>new_ns\<close> the declarations it had to invent.
\<close>

definition scope_ok ::
  "qname \<Rightarrow> (qname \<times> string) list \<Rightarrow> xmlns_stack \<Rightarrow> (string \<times> string) list \<Rightarrow> xmlns_stack \<Rightarrow> bool" where
  "scope_ok name as st new_ns st1 \<longleftrightarrow>
     open_scope name as (PushFrame st) = (new_ns, st1) \<and> prefixes_ok st \<and> good_name name \<and>
     good_attrs as \<and> list_all (\<lambda>d. plain_ns (snd d)) new_ns"

lemma scope_open: "scope_ok name as st new_ns st1 \<Longrightarrow> open_scope name as (PushFrame st) = (new_ns, st1)"
  by (simp add: scope_ok_def)

lemma scope_fresh:
  assumes "scope_ok name as st new_ns st1"
  shows "distinct (map fst new_ns)"
    and "d \<in> set new_ns \<Longrightarrow> \<not> snd (NsForPrefix (declare_explicit as (PushFrame st)) (fst d)) \<and>
      \<not> xml_reserved (fst d) \<and> CHR '':'' \<notin> set (fst d) \<and> fst d \<noteq> [] \<and> snd d \<noteq> [] \<and> plain_ns (snd d)"
  using declare_new_fresh [OF scope_open [OF assms, unfolded open_scope_def]] assms
  by (auto simp: scope_ok_def list_all_iff plain_ns_def)

lemma scope_stack:
  "scope_ok name as st new_ns st1 \<Longrightarrow>
   st1 = fold (\<lambda>d. AddXmlns (fst d) (snd d)) new_ns (declare_explicit as (PushFrame st))"
  unfolding fold_AddXmlns scope_ok_def open_scope_def by (blast intro: declare_new_state)

lemma scope_stack_ok: "scope_ok name as st new_ns st1 \<Longrightarrow> prefixes_ok st1"
proof -
  assume sc: "scope_ok name as st new_ns st1"
  then have "prefixes_ok (declare_explicit as (PushFrame st))"
    by (simp add: declare_explicit_ok scope_ok_def)
  then show ?thesis
    using scope_fresh(2) [OF sc] by (auto simp: scope_stack [OF sc] fold_AddXmlns prefixes_ok_def)
qed

lemma scope_PopFrame: "scope_ok name as st new_ns st1 \<Longrightarrow> PopFrame st1 = Some st"
  by (rule open_scope_PopFrame [OF scope_open])

lemma scope_attr_good:
  "scope_ok name as st new_ns st1 \<Longrightarrow> a \<in> set as \<Longrightarrow>
   good_name (fst a) \<and> (Namespace (fst a) = NS_XMLNS \<longrightarrow> snd a \<noteq> [])"
  by (auto simp: scope_ok_def good_attrs_def list_all_iff)

lemma scope_found_attr:
  "scope_ok name as st new_ns st1 \<Longrightarrow> a \<in> set as \<Longrightarrow> snd (PrefixForNs st1 (Namespace (fst a)) True)"
  by (rule declare_new_found [OF scope_open [unfolded open_scope_def]]) auto

lemma scope_resolve_name:
  assumes "scope_ok name as st new_ns st1" "pc_xmlns ctx = st1"
  shows "ResolveQName ctx (FormatQName st1 name False) False = name"
proof -
  have "snd (PrefixForNs st1 (Namespace name) False)"
    by (rule declare_new_found [OF scope_open [OF assms(1), unfolded open_scope_def]]) simp
  with assms show ?thesis
    using Format_Resolve [of ctx name False] scope_stack_ok
    by (auto simp: scope_ok_def good_name_def)
qed

lemma scope_resolve_attr:
  assumes "scope_ok name as st new_ns st1" "pc_xmlns ctx = st1" "a \<in> set as"
  shows "ResolveQName ctx (FormatQName st1 (fst a) True) True = fst a"
  using assms Format_Resolve [of ctx "fst a" True] scope_stack_ok scope_found_attr scope_attr_good
  by (auto simp: good_name_def)

subsection \<open>The parser finds the same declarations\<close>

lemma take_append_neq: "length p < n \<Longrightarrow> c \<notin> set w \<Longrightarrow> take n (p @ c # l) \<noteq> w"
proof
  assume len: "length p < n" and cw: "c \<notin> set w" and eq: "take n (p @ c # l) = w"
  from len have "c \<in> set (take n (p @ c # l))"
    by (simp add: take_Cons')
  with cw eq show False by simp
qed

lemma xmlns_prefix_reserved:
  assumes "take 5 p = ''xmlns''" "snd (NsForPrefix st p)"
  shows "p = ''xmlns''"
proof -
  obtain t where "p = ''xmlns'' @ t"
    using assms(1) by (metis append_take_drop_id)
  then have "xml_reserved p"
    by (simp add: xml_reserved_def eval_nat_numeral)
  with assms show ?thesis by (auto simp: NsForPrefix_def split: if_splits)
qed

text \<open>How the raw name of a printed attribute looks to \<open>ExpatStartElement\<close>.\<close>

lemma raw_attr_xmlns:
  assumes "scope_ok name as st new_ns st1" "a \<in> set as"
  shows "fst a = QN_XMLNS \<Longrightarrow> FormatQName st1 (fst a) True = ''xmlns''"
    and "Namespace (fst a) = NS_XMLNS \<Longrightarrow> FormatQName st1 (fst a) True = ''xmlns:'' @ LocalPart (fst a)"
  by (auto simp: FormatQName_def PrefixForNs_def QN_XMLNS_def)

lemma raw_attr_other:
  assumes sc: "scope_ok name as st new_ns st1" and a: "a \<in> set as"
    and other: "fst a \<noteq> QN_XMLNS" "Namespace (fst a) \<noteq> NS_XMLNS"
    and n: "n = FormatQName st1 (fst a) True"
    and starts: "StartsWithXmlns n"
  shows "length n \<noteq> 5 \<and> n ! 5 \<noteq> CHR '':''"
proof -
  obtain p where p: "PrefixForNs st1 (Namespace (fst a)) True = (p, True)"
    using scope_found_attr [OF sc a] by (cases "PrefixForNs st1 (Namespace (fst a)) True") auto
  have local: "CHR '':'' \<notin> set (LocalPart (fst a))"
    using scope_attr_good [OF sc a] by (simp add: good_name_def)
  note sound = PrefixForNs_sound [OF p]
  show ?thesis
  proof (cases "p = []")
    case True
    with p n have l: "n = LocalPart (fst a)" by (simp add: FormatQName_def)
    from True sound have "Namespace (fst a) = []" by auto
    with other l have "n \<noteq> ''xmlns''" by (cases "fst a") (auto simp: QN_XMLNS_def)
    with starts have "5 < length n"
      by (cases "5 < length n") (simp_all add: StartsWithXmlns_def)
    moreover from this have "n ! 5 \<in> set n" by (rule nth_mem)
    ultimately show ?thesis using l local by (metis less_irrefl)
  next
    case False
    with p n have n': "n = p @ CHR '':'' # LocalPart (fst a)" by (simp add: FormatQName_def)
    from False sound have res: "NsForPrefix st1 p = (Namespace (fst a), True)"
      by (cases "NsForPrefix st1 p") (auto simp: PrefixMatchesNs_def)
    show ?thesis
    proof (cases "length p < 5")
      case True
      then have "take 5 n \<noteq> ''xmlns''"
        unfolding n' by (rule take_append_neq) simp
      with starts show ?thesis by (simp add: StartsWithXmlns_def)
    next
      case False
      with starts n' have "take 5 p = ''xmlns''" by (simp add: StartsWithXmlns_def)
      with res have "p = ''xmlns''" using xmlns_prefix_reserved [of p st1] by simp
      with res have "Namespace (fst a) = NS_XMLNS" by simp
      with other show ?thesis by simp
    qed
  qed
qed

lemma start_namespaces_attrs:
  assumes "scope_ok name as st new_ns st1" "set bs \<subseteq> set as"
  shows "start_namespaces (map (\<lambda>a. (FormatQName st1 (fst a) True, snd a)) bs @ rest) ctx =
    start_namespaces rest (ctx\<lparr>pc_xmlns := declare_explicit bs (pc_xmlns ctx)\<rparr>)"
  using assms(2)
proof (induction bs arbitrary: ctx)
  case (Cons a bs)
  obtain q v where a: "a = (q, v)" by fastforce
  have as: "a \<in> set as" "set bs \<subseteq> set as" using Cons.prems by auto
  note raw = raw_attr_xmlns [OF assms(1) as(1), unfolded a fst_conv]
  note good = scope_attr_good [OF assms(1) as(1), unfolded a fst_conv snd_conv]
  consider "q = QN_XMLNS" | "q \<noteq> QN_XMLNS" "Namespace q = NS_XMLNS"
    | "q \<noteq> QN_XMLNS" "Namespace q \<noteq> NS_XMLNS" by blast
  then show ?case
  proof cases
    case 1
    with raw Cons.IH as show ?thesis
      by (simp add: a StartsWithXmlns_def StartNamespace_def)
  next
    case 2
    with raw good Cons.IH as show ?thesis
      by (simp add: a StartsWithXmlns_def StartNamespace_def)
  next
    case 3
    then have "StartsWithXmlns (FormatQName st1 q True) \<Longrightarrow>
        length (FormatQName st1 q True) \<noteq> 5 \<and> FormatQName st1 q True ! 5 \<noteq> CHR '':''"
      using raw_attr_other [OF assms(1) as(1)] a by simp
    with 3 Cons.IH as show ?thesis by (simp add: a)
  qed
qed simp

lemma start_namespaces_decls:
  "\<forall>d \<in> set ds. snd d \<noteq> [] \<Longrightarrow>
   start_namespaces (map decl_att ds) ctx =
     (ctx\<lparr>pc_xmlns := fold (\<lambda>d. AddXmlns (fst d) (snd d)) ds (pc_xmlns ctx)\<rparr>, True)"
  by (induction ds arbitrary: ctx) (auto simp: decl_att_def StartsWithXmlns_def StartNamespace_def)

lemma start_namespaces_scope:
  assumes "scope_ok name as st new_ns st1" "pc_xmlns ctx = st"
  shows "start_namespaces (open_atts st1 as new_ns) (context_StartElement ctx) =
    (ctx\<lparr>pc_xmlns := st1\<rparr>, True)"
proof -
  have "start_namespaces (open_atts st1 as new_ns) (context_StartElement ctx) =
      start_namespaces (map decl_att new_ns) (ctx\<lparr>pc_xmlns := declare_explicit as (PushFrame st)\<rparr>)"
    using assms(2)
    by (simp add: open_atts_def start_namespaces_attrs [OF assms(1) subset_refl] context_StartElement_def)
  also have "\<dots> = (ctx\<lparr>pc_xmlns := fold (\<lambda>d. AddXmlns (fst d) (snd d)) new_ns
      (declare_explicit as (PushFrame st))\<rparr>, True)"
    using scope_fresh(2) [OF assms(1)] by (simp add: start_namespaces_decls)
  finally show ?thesis by (simp only: scope_stack [OF assms(1), symmetric])
qed

subsection \<open>The builder rebuilds the start tag\<close>

lemma build_attrs_resolved:
  assumes "distinct (map (\<lambda>a. ResolveQName ctx (fst a) True) atts)"
    and "\<forall>a \<in> set atts. \<not> QName_IsEmpty (ResolveQName ctx (fst a) True) \<and>
      ResolveQName ctx (fst a) True \<notin> seen"
  shows "build_attrs ctx atts seen e =
    Some (with_attrs e (elt_attrs e @ map (\<lambda>a. (ResolveQName ctx (fst a) True, snd a)) atts))"
  using assms
proof (induction atts arbitrary: seen e)
  case Nil
  then show ?case by (simp add: with_attrs_def)
next
  case (Cons a atts)
  obtain n v where a: "a = (n, v)" by fastforce
  have neq: "\<forall>b \<in> set atts. ResolveQName ctx (fst b) True \<noteq> ResolveQName ctx n True"
    using Cons.prems(1) by (force simp: a)
  have "build_attrs ctx atts s (AddAttr e (ResolveQName ctx n True) v) =
      Some (with_attrs e (elt_attrs e @ map (\<lambda>a. (ResolveQName ctx (fst a) True, snd a)) (a # atts)))"
    if "s = seen \<or> s = insert (ResolveQName ctx n True) seen" for s
    using Cons.IH [of s "AddAttr e (ResolveQName ctx n True) v"] Cons.prems that neq
    by (auto simp: a AddAttr_def with_attrs_def)
  then show ?case using Cons.prems by (simp add: a Let_def)
qed

lemma BuildElement_scope:
  assumes sc: "scope_ok name as st new_ns st1" and ctx: "pc_xmlns ctx = st1"
  shows "BuildElement ctx (FormatQName st1 name False) (open_atts st1 as new_ns) =
    Some (XmlElement name (as @ map (\<lambda>d. (QName NS_XMLNS (fst d), snd d)) new_ns) [] False)"
proof -
  let ?new = "map (\<lambda>d. (QName NS_XMLNS (fst d), snd d)) new_ns"
  have res: "map (\<lambda>a. (ResolveQName ctx (fst a) True, snd a)) (open_atts st1 as new_ns) = as @ ?new"
  proof -
    have "map (\<lambda>a. (ResolveQName ctx (FormatQName st1 (fst a) True) True, snd a)) as = as"
      by (rule map_idI) (simp add: scope_resolve_attr [OF sc ctx])
    moreover have "map (\<lambda>d. (ResolveQName ctx (fst (decl_att d)) True, snd (decl_att d))) new_ns = ?new"
      using scope_fresh(2) [OF sc] by (auto simp: decl_att_def intro: Resolve_decl_att [simplified])
    ultimately show ?thesis by (simp add: open_atts_def comp_def)
  qed
  have names: "map (\<lambda>a. ResolveQName ctx (fst a) True) (open_atts st1 as new_ns) =
      map fst as @ map fst ?new"
    using arg_cong [OF res, of "map fst"] by (simp add: comp_def)
  have "QName NS_XMLNS (fst d) \<notin> fst ` set as" if "d \<in> set new_ns" for d
    using scope_fresh(2) [OF sc that] declare_explicit_binds by fastforce
  then have "\<forall>q \<in> set (map fst ?new). q \<notin> set (map fst as)"
    by simp
  then have "set (map fst as) \<inter> set (map fst ?new) = {}"
    by blast
  moreover have "map fst ?new = map (QName NS_XMLNS) (map fst new_ns)"
    by simp
  moreover have "distinct (map (QName NS_XMLNS) (map fst new_ns))"
    using scope_fresh(1) [OF sc] by (subst distinct_map) (simp add: inj_on_def)
  moreover have "distinct (map fst as)"
    using sc by (simp add: scope_ok_def good_attrs_def)
  ultimately have dist: "distinct (map fst as @ map fst ?new)"
    by (simp only: distinct_append)
  have "\<forall>q \<in> set (map fst as @ map fst ?new). \<not> QName_IsEmpty q"
    using scope_attr_good [OF sc] by (auto simp: good_name_def QName_IsEmpty_def)
  then have "\<forall>a \<in> set (open_atts st1 as new_ns). \<not> QName_IsEmpty (ResolveQName ctx (fst a) True)"
    unfolding names [symmetric] by simp
  then have "build_attrs ctx (open_atts st1 as new_ns) {} (new_element name) =
      Some (with_attrs (new_element name) (as @ ?new))"
    using build_attrs_resolved [of ctx "open_atts st1 as new_ns" "{}" "new_element name"] dist
    by (simp add: names res)
  moreover have "\<not> QName_IsEmpty name" using sc by (simp add: scope_ok_def good_name_def)
  ultimately show ?thesis
    by (simp add: BuildElement_def scope_resolve_name [OF sc ctx] with_attrs_def)
qed

subsection \<open>Running the parser over the tokens\<close>

lemma sax_run_append:
  "sax_run H (xs @ ys) s = (case sax_run H xs s of None \<Rightarrow> None | Some s' \<Rightarrow> sax_run H ys s')"
  by (induction xs arbitrary: s) (auto split: option.splits)

definition calm :: "parse_context \<Rightarrow> xmlns_stack \<Rightarrow> bool" where
  "calm ctx st \<longleftrightarrow> pc_xmlns ctx = st \<and> pc_raised ctx = XML_ERROR_NONE"

lemma calm_SetPosition [simp]: "calm (SetPosition pos ctx) st = calm ctx st"
  by (simp add: calm_def)

text \<open>One start tag: the context enters the scope, the handler gets the original tag.\<close>

lemma ExpatStartElement_scope:
  assumes "scope_ok name as st new_ns st1" "calm ctx st"
  shows "\<exists>ctx'. calm ctx' st1 \<and>
    ExpatStartElement H pos n (open_atts st1 as new_ns) (h, ctx) =
      ph_StartElement H n (open_atts st1 as new_ns) (h, ctx')"
proof -
  from assms have "start_namespaces (open_atts st1 as new_ns) (context_StartElement ctx) =
      (ctx\<lparr>pc_xmlns := st1\<rparr>, True)"
    by (intro start_namespaces_scope) (auto simp: calm_def)
  with assms show ?thesis
    by (intro exI [of _ "SetPosition pos (ctx\<lparr>pc_xmlns := st1\<rparr>)"])
       (simp add: ExpatStartElement_def calm_def)
qed

lemma ExpatEndElement_scope:
  assumes "scope_ok name as st new_ns st1" "calm ctx st1"
  shows "\<exists>ctx'. calm ctx' st \<and>
    ExpatEndElement H pos n (h, ctx) = ph_EndElement H n (h, ctx')"
  using assms scope_PopFrame [OF assms(1)]
  by (intro exI [of _ "SetPosition pos (ctx\<lparr>pc_xmlns := st\<rparr>)"])
     (simp add: ExpatEndElement_def calm_def context_EndElement_def)

lemma ExpatCharacterData_calm:
  "calm ctx st \<Longrightarrow> \<exists>ctx'. calm ctx' st \<and>
    ExpatCharacterData H pos t (h, ctx) = ph_CharacterData H t (h, ctx')"
  by (intro exI [of _ "SetPosition pos ctx"]) (simp add: ExpatCharacterData_def calm_def)

lemma printable_scope:
  assumes "printable st (XmlElement name as cs cdata)" "prefixes_ok st"
  obtains new_ns st1 where "open_scope name as (PushFrame st) = (new_ns, st1)"
    "scope_ok name as st new_ns st1" "\<not> cdata" "text_merged cs" "printable_children st1 cs"
  using assms by (cases "open_scope name as (PushFrame st)") (auto simp: scope_ok_def)

definition texts_apart :: "xml_element \<Rightarrow> xml_child list \<Rightarrow> bool" where
  "texts_apart p cs \<longleftrightarrow>
     text_merged cs \<and>
     (elt_children p = [] \<or> \<not> IsText (last (elt_children p)) \<or> cs = [] \<or> \<not> IsText (hd cs))"

lemma run_tokens_element:
  "printable st e \<Longrightarrow> prefixes_ok st \<Longrightarrow> calm ctx st \<Longrightarrow> map snd evs = tokens st e \<Longrightarrow>
   \<exists>ctx'. calm ctx' st \<and>
     sax_run builder_handler evs (building p ps, ctx) =
       Some (building (AddElement p (Some (declared st e))) ps, ctx')"
  and run_tokens_children:
  "printable_children st cs \<Longrightarrow> prefixes_ok st \<Longrightarrow> calm ctx st \<Longrightarrow> texts_apart p cs \<Longrightarrow>
   map snd evs = tokens_children st cs \<Longrightarrow>
   \<exists>ctx'. calm ctx' st \<and>
     sax_run builder_handler evs (building p ps, ctx) =
       Some (building (with_children p (elt_children p @ declared_children st cs)) ps, ctx')"
proof (induction st e and st cs arbitrary: ctx p ps evs and ctx p ps evs
    rule: tokens_tokens_children.induct)
  case (1 st name as cs cdata)
  obtain new_ns st1 where o: "open_scope name as (PushFrame st) = (new_ns, st1)"
    and sc: "scope_ok name as st new_ns st1" and cs: "\<not> cdata" "text_merged cs" "printable_children st1 cs"
    using printable_scope [OF 1(2,3)] by blast
  let ?n = "FormatQName st1 name False"
  let ?new = "XmlElement name (as @ map (\<lambda>d. (QName NS_XMLNS (fst d), snd d)) new_ns) [] False"
  obtain pos1 mid pos2 where evs:
    "evs = (pos1, SaxStart ?n (open_atts st1 as new_ns)) # mid @ [(pos2, SaxEnd ?n)]"
    and mid: "map snd mid = tokens_children st1 cs"
    using 1(5) o by (auto simp: map_eq_Cons_conv map_eq_append_conv)
  obtain c1 where c1: "calm c1 st1"
    and start: "sax_step builder_handler pos1 (SaxStart ?n (open_atts st1 as new_ns)) (building p ps, ctx) =
      Some (building ?new (p # ps), c1)"
    using ExpatStartElement_scope [OF sc 1(4), of builder_handler pos1 ?n "building p ps"]
      BuildElement_scope [OF sc] building_start by (auto simp: calm_def)
  have "texts_apart ?new cs" using cs by (simp add: texts_apart_def)
  from 1(1) [OF o [symmetric] refl cs(3) scope_stack_ok [OF sc] c1 this mid]
  obtain c2 where c2: "calm c2 st1"
    and body: "sax_run builder_handler mid (building ?new (p # ps), c1) =
      Some (building (with_children ?new (declared_children st1 cs)) (p # ps), c2)"
    by auto
  obtain c3 where c3: "calm c3 st"
    and fin: "sax_step builder_handler pos2 (SaxEnd ?n)
        (building (with_children ?new (declared_children st1 cs)) (p # ps), c2) =
      Some (building (AddElement p (Some (with_children ?new (declared_children st1 cs)))) ps, c3)"
    using ExpatEndElement_scope [OF sc c2, of builder_handler pos2 ?n
        "building (with_children ?new (declared_children st1 cs)) (p # ps)"]
    by (auto simp: building_end)
  have "with_children ?new (declared_children st1 cs) = declared st (XmlElement name as cs cdata)"
    using o cs by (simp add: with_children_def)
  with start body fin c3 show ?case
    by (auto simp: evs sax_run_append)
next
  case (2 st)
  then show ?case by (auto simp: with_children_def)
next
  case (3 st t cs)
  obtain pos rest where evs: "evs = (pos, SaxText t) # rest" "map snd rest = tokens_children st cs"
    using 3(6) by auto
  obtain c1 where c1: "calm c1 st"
    and step: "sax_step builder_handler pos (SaxText t) (building p ps, ctx) =
      Some (building (AddParsedText p t) ps, c1)"
    using ExpatCharacterData_calm [OF 3(4), of builder_handler pos t "building p ps"]
    by (auto simp: building_text)
  from 3(5) have app: "AddParsedText p t = with_children p (elt_children p @ [XmlText t])"
    by (auto simp: AddParsedText_def append_text_def texts_apart_def)
  have "texts_apart (AddParsedText p t) cs"
    using 3(5) by (cases cs) (auto simp: app texts_apart_def split: xml_child.splits)
  with 3(1) [OF _ 3(3) c1 this evs(2)] 3(2)
  obtain c2 where "calm c2 st" "sax_run builder_handler rest (building (AddParsedText p t) ps, c1) =
      Some (building (with_children (AddParsedText p t)
        (elt_children (AddParsedText p t) @ declared_children st cs)) ps, c2)"
    by auto
  with step show ?case by (auto simp: evs app with_children_def)
next
  case (4 st e cs)
  obtain evs1 evs2 where evs: "evs = evs1 @ evs2" "map snd evs1 = tokens st e"
      "map snd evs2 = tokens_children st cs"
    using 4(7) by (auto simp: map_eq_append_conv)
  obtain c1 where c1: "calm c1 st"
    and run1: "sax_run builder_handler evs1 (building p ps, ctx) =
      Some (building (AddElement p (Some (declared st e))) ps, c1)"
    using 4(1) [OF _ 4(4,5) evs(2)] 4(3) by auto
  have "texts_apart (AddElement p (Some (declared st e))) cs"
    using 4(6) by (simp add: texts_apart_def)
  with 4(2) [OF _ 4(4) c1 this evs(3)] 4(3) run1 show ?case
    by (auto simp: evs sax_run_append AddElement_def with_children_def)
qed

subsection \<open>The printed text is the rendering of the tokens\<close>

lemma PrintQuotedValue_plain: "plain_ns ns \<Longrightarrow> PrintQuotedValue ns = ns"
  unfolding PrintQuotedValue_concat
  by (rule concat_map_singleton) (simp add: plain_ns_def list_all_iff)

lemma print_decl_render:
  "scope_ok name as st new_ns st1 \<Longrightarrow> d \<in> set new_ns \<Longrightarrow> print_decl d = render_att (decl_att d)"
  using scope_fresh(2) [of name as st new_ns st1 d] PrintQuotedValue_plain [of "snd d"]
  by (simp add: print_decl_def render_att_def decl_att_def)

lemma print_open_render:
  assumes "scope_ok name as st new_ns st1"
  shows "print_open st1 name as new_ns =
    ''<'' @ FormatQName st1 name False @ concat (map render_att (open_atts st1 as new_ns))"
proof -
  have "concat (map (print_attr st1) as) = concat (map (\<lambda>a. render_att (FormatQName st1 (fst a) True, snd a)) as)"
    by (intro arg_cong [where f = concat] map_cong)
      (auto simp: print_attr_def render_att_def split: prod.splits)
  moreover have "concat (map print_decl new_ns) = concat (map (\<lambda>d. render_att (decl_att d)) new_ns)"
    using print_decl_render [OF assms] by (intro arg_cong [where f = concat] map_cong) auto
  ultimately show ?thesis
    by (simp only: print_open_def open_atts_def map_append map_map comp_def concat_append append_assoc)
qed

lemma render_start:
  "evs = [] \<or> (\<forall>m. hd evs \<noteq> SaxEnd m) \<Longrightarrow>
   render (SaxStart n atts # evs) = ''<'' @ n @ concat (map render_att atts) @ ''>'' @ render evs"
  by (cases evs; cases "hd evs") auto

lemma tokens_children_hd:
  "cs \<noteq> [] \<Longrightarrow> tokens_children st cs \<noteq> [] \<and> (\<forall>m. hd (tokens_children st cs) \<noteq> SaxEnd m)"
proof (cases cs)
  case (Cons c ds)
  then show ?thesis
    by (cases c; cases "AsElement c"; cases "the (AsElement c)") (auto split: prod.split)
qed simp

lemma PrintElement_render:
  "printable st e \<Longrightarrow> prefixes_ok st \<Longrightarrow> PrintElement st e = Some (s, st) \<Longrightarrow>
   render (tokens st e @ rest) = s @ render rest"
  and print_children_render:
  "printable_children st cs \<Longrightarrow> prefixes_ok st \<Longrightarrow> print_children st False cs = Some (s, st) \<Longrightarrow>
   render (tokens_children st cs @ rest) = s @ render rest"
proof (induction st e and st cs arbitrary: s rest and s rest rule: tokens_tokens_children.induct)
  case (1 st name as cs cdata)
  obtain new_ns st1 where o: "open_scope name as (PushFrame st) = (new_ns, st1)"
    and sc: "scope_ok name as st new_ns st1" and cs: "\<not> cdata" "text_merged cs" "printable_children st1 cs"
    using printable_scope [OF 1(2,3)] by blast
  note head = print_open_render [OF sc] scope_PopFrame [OF sc]
  show ?case
  proof (cases "cs = []")
    case True
    with 1(4) o head show ?thesis by auto
  next
    case False
    obtain b where b: "print_children st1 False cs = Some (b, st1)"
      using print_children_restores by blast
    with 1(4) o head False cs have s: "s = ''<'' @ FormatQName st1 name False @
        concat (map render_att (open_atts st1 as new_ns)) @ ''>'' @ b @ ''</'' @ FormatQName st1 name False @ ''>''"
      by auto
    have "hd (tokens_children st1 cs @ xs) = hd (tokens_children st1 cs)" for xs
      using tokens_children_hd [OF False] by simp
    with tokens_children_hd [OF False] show ?thesis
      using 1(1) [OF o [symmetric] refl cs(3) scope_stack_ok [OF sc] b] o
      by (simp add: s render_start)
  qed
next
  case (3 st t cs)
  obtain b where "print_children st False cs = Some (b, st)"
    using print_children_restores by blast
  with 3 show ?case by auto
next
  case (4 st e cs)
  obtain a b where "PrintElement st e = Some (a, st)" "print_children st False cs = Some (b, st)"
    using PrintElement_restores print_children_restores by blast
  with 4 show ?case by auto
qed auto

text \<open>
  The whole document: the element printed by \<open>Str\<close>, read by \<open>ForStr\<close>.
\<close>

lemma building_root_done:
  "fst (CreateElement \<lparr>bld_current = None, bld_root = Some e, bld_parents = []\<rparr>) = Some e"
  by (simp add: CreateElement_def)

lemma run_tokens_root:
  assumes pr: "printable st e" and ok: "prefixes_ok st" "calm ctx st" and evs: "map snd evs = tokens st e"
  shows "\<exists>ctx'. calm ctx' st \<and>
    sax_run builder_handler evs (builder_init, ctx) =
      Some (\<lparr>bld_current = None, bld_root = Some (declared st e), bld_parents = []\<rparr>, ctx')"
proof (cases e)
  case (XmlElement name as cs cdata)
  let ?st = st
  obtain new_ns st1 where o: "open_scope name as (PushFrame ?st) = (new_ns, st1)"
    and sc: "scope_ok name as ?st new_ns st1" and cs: "\<not> cdata" "text_merged cs" "printable_children st1 cs"
    using printable_scope pr ok unfolding XmlElement by blast
  let ?n = "FormatQName st1 name False"
  let ?new = "XmlElement name (as @ map (\<lambda>d. (QName NS_XMLNS (fst d), snd d)) new_ns) [] False"
  let ?fin = "with_children ?new (declared_children st1 cs)"
  obtain pos1 mid pos2 where split:
    "evs = (pos1, SaxStart ?n (open_atts st1 as new_ns)) # mid @ [(pos2, SaxEnd ?n)]"
    and mid: "map snd mid = tokens_children st1 cs"
    using evs o by (auto simp: XmlElement map_eq_Cons_conv map_eq_append_conv)
  obtain c1 where c1: "calm c1 st1"
    and start: "sax_step builder_handler pos1 (SaxStart ?n (open_atts st1 as new_ns))
        (builder_init, ctx) = Some (building ?new [], c1)"
    using ExpatStartElement_scope [OF sc ok(2), of builder_handler pos1 ?n builder_init]
      BuildElement_scope [OF sc] building_start_root [of _ _ _ _ builder_init]
    by (auto simp: calm_def builder_init_def)
  have "texts_apart ?new cs" using cs by (simp add: texts_apart_def)
  from run_tokens_children [OF cs(3) scope_stack_ok [OF sc] c1 this mid]
  obtain c2 where c2: "calm c2 st1"
    and body: "sax_run builder_handler mid (building ?new [], c1) = Some (building ?fin [], c2)"
    by auto
  obtain c3 where "calm c3 ?st"
    and "sax_step builder_handler pos2 (SaxEnd ?n) (building ?fin [], c2) =
      Some (\<lparr>bld_current = None, bld_root = Some ?fin, bld_parents = []\<rparr>, c3)"
    using ExpatEndElement_scope [OF sc c2, of builder_handler pos2 ?n "building ?fin []"]
    by (auto simp: building_end_root)
  moreover have "?fin = declared ?st e"
    using o cs by (simp add: XmlElement with_children_def)
  ultimately show ?thesis
    using start body by (auto simp: split sax_run_append)
qed

lemma Str_ForStr:
  assumes "printable xmlns_empty e" and "reads_back feed x0 (tokens xmlns_empty e)"
  shows "\<exists>s. Str e = Some s \<and> ForStr feed x0 s = Some (declared xmlns_empty e)"
proof -
  have ok: "prefixes_ok xmlns_empty" by (simp add: prefixes_ok_def xmlns_empty_def)
  obtain s where s: "PrintElement xmlns_empty e = Some (s, xmlns_empty)"
    using PrintElement_restores by blast
  then have r: "s = render (tokens xmlns_empty e)"
    using PrintElement_render [OF assms(1) ok s, of "[]"] by simp
  obtain x' pevs pos where f: "feed x0 (render (tokens xmlns_empty e)) True = (x', pevs, XML_ERROR_NONE, pos)"
    and evs: "map snd pevs = tokens xmlns_empty e"
    using assms(2) by (auto simp: reads_back_def)
  obtain ctx' where "calm ctx' xmlns_empty" and
    "sax_run builder_handler pevs (builder_init, context_init) =
      Some (\<lparr>bld_current = None, bld_root = Some (declared xmlns_empty e), bld_parents = []\<rparr>, ctx')"
    using run_tokens_root [OF assms(1) ok _ evs, of context_init] by (auto simp: calm_def context_init_def xmlns_empty_def)
  with f have "ForStr feed x0 s = Some (declared xmlns_empty e)"
    by (simp add: r ForStr_def ParseXml_def Parse_def parser_init_def calm_def CreateElement_def)
  with s show ?thesis by (simp add: Str_def PrintXml_def)
qed

lemma reads_back_constant:
  "reads_back (\<lambda>x t f. (x, map (Pair p) evs, XML_ERROR_NONE, q)) x0 evs"
  by (cases q) (simp add: reads_back_def comp_def)

subsection \<open>Properties\<close>



text \<open>A name that \<open>FormatQName\<close> writes with a prefix in scope is resolved to itself by
  \<open>ResolveQName\<close> under the same bindings.\<close>

theorem format_resolve_roundtrip:
  assumes "prefixes_ok (pc_xmlns ctx)" and "snd (PrefixForNs (pc_xmlns ctx) (Namespace q) b)"
    and "CHR '':'' \<notin> set (LocalPart q)"
  shows "ResolveQName ctx (FormatQName (pc_xmlns ctx) q b) b = q"
  using assms by (rule Format_Resolve)

theorem format_resolve_roundtrip_witness:
  "ResolveQName (context_init\<lparr>pc_xmlns := AddXmlns ''p'' ''urn:x'' xmlns_empty\<rparr>)
     (FormatQName (AddXmlns ''p'' ''urn:x'' xmlns_empty) (QName ''urn:x'' ''y'') True) True
   = QName ''urn:x'' ''y''"
proof -
  have "prefixes_ok (AddXmlns ''p'' ''urn:x'' xmlns_empty)"
    by (simp add: prefixes_ok_def xmlns_empty_def AddXmlns_def)
  moreover have "snd (PrefixForNs (AddXmlns ''p'' ''urn:x'' xmlns_empty) ''urn:x'' True)" by code_simp
  ultimately show ?thesis
    using format_resolve_roundtrip [of "context_init\<lparr>pc_xmlns := AddXmlns ''p'' ''urn:x'' xmlns_empty\<rparr>"
        "QName ''urn:x'' ''y''" True] by simp
qed

end
