(* ===== verification/Stanzas.thy ===== *)
theory Stanzas
  imports XmlRound
begin

text \<open>
  The stanza parser, \<open>talk/xmpp/xmppstanzaparser.cc\<close>: a parse handler that counts the depth,
  reports the stream header and the end of the stream, and builds every element at depth one
  with an \<open>XmlBuilder\<close> and hands it over as a stanza. The object it reports to (an
  \<open>XmppStanzaParseHandler\<close>) is a state \<open>'e\<close> with the four callbacks as functions; \<^const>\<open>None\<close>
  is a callback that does not return. The stanza passed to \<open>Stanza\<close> is the possibly null
  result of \<open>CreateElement\<close>.
\<close>

record 'e stanza_client =
  sc_StartStream :: "xml_element \<Rightarrow> 'e \<Rightarrow> 'e option"
  sc_Stanza :: "xml_element option \<Rightarrow> 'e \<Rightarrow> 'e option"
  sc_EndStream :: "'e \<Rightarrow> 'e option"
  sc_XmlError :: "'e \<Rightarrow> 'e option"

record 'e stanza_parser =
  sp_depth :: int
  sp_builder :: xml_builder
  sp_client :: 'e

definition stanza_parser_init :: "'e \<Rightarrow> 'e stanza_parser" where
  "stanza_parser_init e = \<lparr>sp_depth = 0, sp_builder = builder_init, sp_client = e\<rparr>"

text \<open>\<open>XmppStanzaParser::Reset\<close>: the XML parser, the depth and the builder.\<close>

definition stanza_parser_Reset ::
  "'x \<Rightarrow> ('x, 'e stanza_parser) xml_parser \<Rightarrow> ('x, 'e stanza_parser) xml_parser" where
  "stanza_parser_Reset x0 p =
     (let p1 = parser_Reset x0 p; s = xp_handler p1 in
      p1\<lparr>xp_handler := s\<lparr>sp_depth := 0, sp_builder := builder_Reset (sp_builder s)\<rparr>\<rparr>)"

definition IncomingStartElement ::
  "'e stanza_client \<Rightarrow> string \<Rightarrow> (string \<times> string) list \<Rightarrow> 'e stanza_parser \<times> parse_context \<Rightarrow>
   ('e stanza_parser \<times> parse_context) option" where
  "IncomingStartElement C name atts sc =
     (let (s, ctx) = sc; s1 = s\<lparr>sp_depth := sp_depth s + 1\<rparr> in
      if sp_depth s = 0 then
        (case BuildElement ctx name atts of
           None \<Rightarrow> Some (s1, RaiseError XML_ERROR_SYNTAX ctx)
         | Some pelStream \<Rightarrow> map_option (\<lambda>e. (s1\<lparr>sp_client := e\<rparr>, ctx)) (sc_StartStream C pelStream (sp_client s1)))
      else map_option (\<lambda>(b, ctx1). (s1\<lparr>sp_builder := b\<rparr>, ctx1)) (builder_StartElement name atts (sp_builder s1, ctx)))"

definition IncomingCharacterData ::
  "string \<Rightarrow> 'e stanza_parser \<times> parse_context \<Rightarrow> ('e stanza_parser \<times> parse_context) option" where
  "IncomingCharacterData txt sc =
     (let (s, ctx) = sc in
      if sp_depth s > 1 then
        map_option (\<lambda>(b, ctx1). (s\<lparr>sp_builder := b\<rparr>, ctx1)) (builder_CharacterData txt (sp_builder s, ctx))
      else Some sc)"

definition IncomingEndElement ::
  "'e stanza_client \<Rightarrow> string \<Rightarrow> 'e stanza_parser \<times> parse_context \<Rightarrow>
   ('e stanza_parser \<times> parse_context) option" where
  "IncomingEndElement C name sc =
     (let (s, ctx) = sc; s1 = s\<lparr>sp_depth := sp_depth s - 1\<rparr> in
      if sp_depth s1 = 0 then map_option (\<lambda>e. (s1\<lparr>sp_client := e\<rparr>, ctx)) (sc_EndStream C (sp_client s1))
      else case builder_EndElement name (sp_builder s1, ctx) of
          None \<Rightarrow> None
        | Some (b, ctx1) \<Rightarrow>
            (if sp_depth s1 = 1 then
               (let (element, b1) = CreateElement b in
                map_option (\<lambda>e. (s1\<lparr>sp_builder := b1, sp_client := e\<rparr>, ctx1)) (sc_Stanza C element (sp_client s1)))
             else Some (s1\<lparr>sp_builder := b\<rparr>, ctx1)))"

definition IncomingError ::
  "'e stanza_client \<Rightarrow> xml_error \<Rightarrow> 'e stanza_parser \<times> parse_context \<Rightarrow>
   ('e stanza_parser \<times> parse_context) option" where
  "IncomingError C err sc =
     (let (s, ctx) = sc in map_option (\<lambda>e. (s\<lparr>sp_client := e\<rparr>, ctx)) (sc_XmlError C (sp_client s)))"

definition stanza_handler :: "'e stanza_client \<Rightarrow> 'e stanza_parser parse_handler" where
  "stanza_handler C =
     \<lparr>ph_StartElement = IncomingStartElement C, ph_EndElement = IncomingEndElement C,
      ph_CharacterData = IncomingCharacterData, ph_Error = IncomingError C\<rparr>"

lemma stanza_handler_sel [simp]:
  "ph_StartElement (stanza_handler C) = IncomingStartElement C"
  "ph_EndElement (stanza_handler C) = IncomingEndElement C"
  "ph_CharacterData (stanza_handler C) = IncomingCharacterData"
  "ph_Error (stanza_handler C) = IncomingError C"
  by (simp_all add: stanza_handler_def)

subsection \<open>Inside a stanza the parser is the builder\<close>

text \<open>
  \<open>stays d evs\<close> is the depth after the events, if it stays at least two after every one of
  them: then no stanza and no end of stream is reported.
\<close>

fun stays :: "int \<Rightarrow> sax_event list \<Rightarrow> int option" where
  "stays d [] = Some d"
| "stays d (SaxStart n atts # evs) = (if 1 \<le> d then stays (d + 1) evs else None)"
| "stays d (SaxEnd n # evs) = (if 3 \<le> d then stays (d - 1) evs else None)"
| "stays d (SaxText t # evs) = (if 2 \<le> d then stays d evs else None)"
| "stays d (SaxDecl v e s # evs) = stays d evs"

lemma stays_append:
  "stays d (xs @ ys) = (case stays d xs of None \<Rightarrow> None | Some d' \<Rightarrow> stays d' ys)"
  by (induction d xs rule: stays.induct) auto

lemma stays_tokens: "2 \<le> d \<Longrightarrow> stays d (tokens st e) = Some d"
  and stays_tokens_children: "2 \<le> d \<Longrightarrow> stays d (tokens_children st cs) = Some d"
  by (induction st e and st cs arbitrary: d and d rule: tokens_tokens_children.induct)
     (auto simp: stays_append split: prod.splits)

lemma builder_step_ctx:
  assumes "sax_step builder_handler pos ev (b, c) = Some (b', c')" "pc_raised c \<noteq> XML_ERROR_NONE"
  shows "pc_raised c' \<noteq> XML_ERROR_NONE"
  using assms builder.raised_absorbs_step [of c pos ev b] by simp

lemma builder_run_calm_back:
  assumes "sax_run builder_handler evs (b, c) = Some (b', c')" "pc_raised c' = XML_ERROR_NONE"
  shows "pc_raised c = XML_ERROR_NONE"
  using assms builder.raised_absorbs_run [of c evs b] by (cases "pc_raised c = XML_ERROR_NONE") auto

lemma start_namespaces_stop:
  "start_namespaces atts c = (c', False) \<Longrightarrow> pc_raised c' \<noteq> XML_ERROR_NONE"
  by (induction atts c rule: start_namespaces.induct) (auto simp: xml_errors split: if_splits)

lemma stanza_step_builder:
  assumes b: "sax_step builder_handler pos ev (sp_builder s, c) = Some (b', c')"
    and calm: "pc_raised c' = XML_ERROR_NONE"
    and d: "stays (sp_depth s) [ev] = Some d'"
  shows "sax_step (stanza_handler C) pos ev (s, c) = Some (s\<lparr>sp_depth := d', sp_builder := b'\<rparr>, c')"
proof -
  have "pc_raised c = XML_ERROR_NONE"
    using builder_step_ctx [OF b] calm by blast
  with b calm d start_namespaces_stop show ?thesis
    by (cases ev)
       (auto simp: ExpatStartElement_def ExpatEndElement_def ExpatCharacterData_def ExpatXmlDecl_def Let_def
          IncomingStartElement_def IncomingEndElement_def IncomingCharacterData_def
          split: if_splits option.splits prod.splits)
qed

lemma stanza_run_builder:
  "sax_run builder_handler evs (sp_builder s, c) = Some (b', c') \<Longrightarrow> pc_raised c' = XML_ERROR_NONE \<Longrightarrow>
   stays (sp_depth s) (map snd evs) = Some d' \<Longrightarrow>
   sax_run (stanza_handler C) evs (s, c) = Some (s\<lparr>sp_depth := d', sp_builder := b'\<rparr>, c')"
proof (induction evs arbitrary: s c)
  case (Cons pe evs)
  obtain pos ev where pe: "pe = (pos, ev)" by fastforce
  obtain b1 c1 where step: "sax_step builder_handler pos ev (sp_builder s, c) = Some (b1, c1)"
    and run: "sax_run builder_handler evs (b1, c1) = Some (b', c')"
    using Cons.prems(1) pe by (auto split: option.splits)
  obtain d1 where d1: "stays (sp_depth s) [ev] = Some d1" and d2: "stays d1 (map snd evs) = Some d'"
    using Cons.prems(3) pe stays_append [of "sp_depth s" "[ev]" "map snd evs"] by (auto split: option.splits)
  have "sax_step (stanza_handler C) pos ev (s, c) = Some (s\<lparr>sp_depth := d1, sp_builder := b1\<rparr>, c1)"
    using builder_run_calm_back [OF run Cons.prems(2)] by (rule stanza_step_builder [OF step _ d1])
  with Cons.IH [of "s\<lparr>sp_depth := d1, sp_builder := b1\<rparr>" c1] run Cons.prems(2) d2 pe
  show ?case by simp
qed simp

subsection \<open>One stanza, and the stream\<close>

lemma CreateElement_root:
  "CreateElement \<lparr>bld_current = None, bld_root = Some e, bld_parents = []\<rparr> = (Some e, builder_init)"
  by (simp add: CreateElement_def builder_init_def)

lemma tokens_shape:
  obtains n atts cs st1 where "tokens st e = SaxStart n atts # tokens_children st1 cs @ [SaxEnd n]"
proof (cases e)
  case (XmlElement name as cs cdata)
  obtain new_ns st1 where "open_scope name as (PushFrame st) = (new_ns, st1)" by fastforce
  with XmlElement that show ?thesis by simp
qed

lemma stanza_run_element:
  assumes pr: "printable st e" "prefixes_ok st" "calm ctx st" "map snd evs = tokens st e"
    and s: "sp_depth s = 1" "sp_builder s = builder_init"
  shows "\<exists>ctx'. calm ctx' st \<and> sax_run (stanza_handler C) evs (s, ctx) =
    map_option (\<lambda>cl. (s\<lparr>sp_client := cl\<rparr>, ctx')) (sc_Stanza C (Some (declared st e)) (sp_client s))"
proof -
  let ?fin = "\<lparr>bld_current = None, bld_root = Some (declared st e), bld_parents = []\<rparr>"
  obtain ctx' where calm: "calm ctx' st"
    and run: "sax_run builder_handler evs (sp_builder s, ctx) = Some (?fin, ctx')"
    using run_tokens_root [OF pr(1-3) pr(4)] s by auto
  obtain n atts cs st1 where tok: "tokens st e = SaxStart n atts # tokens_children st1 cs @ [SaxEnd n]"
    by (rule tokens_shape)
  obtain ini pos where evs: "evs = ini @ [(pos, SaxEnd n)]"
    and ini: "map snd ini = SaxStart n atts # tokens_children st1 cs"
    using pr(4) tok by (auto simp: map_eq_Cons_conv map_eq_append_conv)
  obtain b1 c1 where run1: "sax_run builder_handler ini (sp_builder s, ctx) = Some (b1, c1)"
    and last: "sax_step builder_handler pos (SaxEnd n) (b1, c1) = Some (?fin, ctx')"
    using run evs by (auto simp: sax_run_append split: option.splits)
  have raised: "pc_raised c1 = XML_ERROR_NONE"
    using builder_step_ctx [OF last] calm by (auto simp: calm_def)
  have "stays (sp_depth s) (map snd ini) = Some 2"
    using s ini stays_tokens_children [of 2 st1 cs] by simp
  from stanza_run_builder [OF run1 raised this]
  have run2: "sax_run (stanza_handler C) ini (s, ctx) = Some (s\<lparr>sp_depth := 2, sp_builder := b1\<rparr>, c1)" .
  have "sax_step (stanza_handler C) pos (SaxEnd n) (s\<lparr>sp_depth := 2, sp_builder := b1\<rparr>, c1) =
      map_option (\<lambda>cl. (s\<lparr>sp_client := cl\<rparr>, ctx')) (sc_Stanza C (Some (declared st e)) (sp_client s))"
    using last raised s
    by (auto simp: ExpatEndElement_def IncomingEndElement_def Let_def CreateElement_root
        split: option.splits intro!: option.map_cong)
  with run2 calm show ?thesis
    by (auto simp: evs sax_run_append split: option.split)
qed

fun report_stanzas :: "'e stanza_client \<Rightarrow> xml_element list \<Rightarrow> 'e \<Rightarrow> 'e option" where
  "report_stanzas C [] cl = Some cl"
| "report_stanzas C (e # es) cl = Option.bind (sc_Stanza C (Some e) cl) (report_stanzas C es)"

lemma stanza_run_elements:
  "list_all (printable st) es \<Longrightarrow> prefixes_ok st \<Longrightarrow> calm ctx st \<Longrightarrow>
   map snd evs = concat (map (tokens st) es) \<Longrightarrow> sp_depth s = 1 \<Longrightarrow> sp_builder s = builder_init \<Longrightarrow>
   \<exists>ctx'. calm ctx' st \<and> sax_run (stanza_handler C) evs (s, ctx) =
     map_option (\<lambda>cl. (s\<lparr>sp_client := cl\<rparr>, ctx')) (report_stanzas C (map (declared st) es) (sp_client s))"
proof (induction es arbitrary: evs s ctx)
  case Nil
  then show ?case by auto
next
  case (Cons e es)
  obtain evs1 evs2 where evs: "evs = evs1 @ evs2" "map snd evs1 = tokens st e"
      "map snd evs2 = concat (map (tokens st) es)"
    using Cons.prems(4) by (auto simp: map_eq_append_conv)
  obtain c1 where c1: "calm c1 st"
    and run1: "sax_run (stanza_handler C) evs1 (s, ctx) =
      map_option (\<lambda>cl. (s\<lparr>sp_client := cl\<rparr>, c1)) (sc_Stanza C (Some (declared st e)) (sp_client s))"
    using stanza_run_element [OF _ Cons.prems(2,3) evs(2) Cons.prems(5,6)] Cons.prems(1) by auto
  show ?case
  proof (cases "sc_Stanza C (Some (declared st e)) (sp_client s)")
    case None
    with run1 c1 show ?thesis by (auto simp: evs sax_run_append)
  next
    case (Some cl)
    have "\<exists>ctx'. calm ctx' st \<and> sax_run (stanza_handler C) evs2 (s\<lparr>sp_client := cl\<rparr>, c1) =
        map_option (\<lambda>cl'. (s\<lparr>sp_client := cl\<rparr>\<lparr>sp_client := cl'\<rparr>, ctx'))
          (report_stanzas C (map (declared st) es) (sp_client (s\<lparr>sp_client := cl\<rparr>)))"
      using Cons.prems evs(3) c1 by (intro Cons.IH) auto
    with run1 Some show ?thesis by (auto simp: evs sax_run_append)
  qed
qed

lemma start_namespaces_go:
  "start_namespaces atts c = (c', True) \<Longrightarrow> pc_raised c' = pc_raised c"
  by (induction atts c rule: start_namespaces.induct) (auto simp: StartNamespace_def split: if_splits)

lemma BuildElement_cong: "pc_xmlns c = pc_xmlns c' \<Longrightarrow> BuildElement c n atts = BuildElement c' n atts"
proof -
  assume c: "pc_xmlns c = pc_xmlns c'"
  then have r: "ResolveQName c = ResolveQName c'"
    by (intro ext) (simp only: ResolveQName_def c)
  have "build_attrs c atts seen e = build_attrs c' atts seen e" for seen e
  proof (induction atts arbitrary: seen e)
    case (Cons a atts)
    then show ?case by (cases a) (simp add: r Let_def)
  qed simp
  with r show ?thesis by (simp add: BuildElement_def Let_def)
qed

lemma stanza_stream:
  assumes ns: "start_namespaces atts (context_StartElement context_init) = (c1, True)"
    and h: "BuildElement c1 n atts = Some h" and ok: "prefixes_ok (pc_xmlns c1)"
    and es: "list_all (printable (pc_xmlns c1)) es"
    and evs: "map snd evs = concat (map (tokens (pc_xmlns c1)) es)"
  shows "\<exists>ctx'. calm ctx' (pc_xmlns c1) \<and>
    sax_run (stanza_handler C) ((p0, SaxStart n atts) # evs) (stanza_parser_init cl, context_init) =
      map_option (\<lambda>cl'. (\<lparr>sp_depth = 1, sp_builder = builder_init, sp_client = cl'\<rparr>, ctx'))
        (Option.bind (sc_StartStream C h cl) (report_stanzas C (map (declared (pc_xmlns c1)) es)))"
proof -
  let ?st = "pc_xmlns c1"
  have c1: "calm (SetPosition p0 c1) ?st"
    using start_namespaces_go [OF ns] by (simp add: calm_def context_StartElement_def context_init_def)
  have hdr: "BuildElement (SetPosition p0 c1) n atts = Some h"
    using h BuildElement_cong [of "SetPosition p0 c1" c1] by simp
  have step: "sax_step (stanza_handler C) p0 (SaxStart n atts) (stanza_parser_init cl, context_init) =
      map_option (\<lambda>cl'. (\<lparr>sp_depth = 1, sp_builder = builder_init, sp_client = cl'\<rparr>, SetPosition p0 c1)) (sc_StartStream C h cl)"
    using ns hdr by (simp add: ExpatStartElement_def IncomingStartElement_def stanza_parser_init_def context_init_def)
  show ?thesis
  proof (cases "sc_StartStream C h cl")
    case None
    with step c1 show ?thesis by auto
  next
    case (Some cl1)
    have "\<exists>ctx'. calm ctx' ?st \<and> sax_run (stanza_handler C) evs
        (\<lparr>sp_depth = 1, sp_builder = builder_init, sp_client = cl1\<rparr>, SetPosition p0 c1) =
        map_option (\<lambda>cl'. (\<lparr>sp_depth = 1, sp_builder = builder_init, sp_client = cl1\<rparr>\<lparr>sp_client := cl'\<rparr>, ctx'))
          (report_stanzas C (map (declared ?st) es) (sp_client \<lparr>sp_depth = 1, sp_builder = builder_init, sp_client = cl1\<rparr>))"
      by (rule stanza_run_elements [OF es ok c1 evs]) simp_all
    with step Some show ?thesis by auto
  qed
qed

subsection \<open>What every callback of the client preserves, parsing preserves\<close>

locale client_relation =
  fixes C :: "'e stanza_client" and R :: "'e \<Rightarrow> 'e \<Rightarrow> bool"
  assumes refl_rel: "R e e"
    and trans_rel: "R a b \<Longrightarrow> R b c \<Longrightarrow> R a c"
    and start_rel: "sc_StartStream C el e = Some e' \<Longrightarrow> R e e'"
    and stanza_rel: "sc_Stanza C st e = Some e' \<Longrightarrow> R e e'"
    and end_rel: "sc_EndStream C e = Some e' \<Longrightarrow> R e e'"
    and error_rel: "sc_XmlError C e = Some e' \<Longrightarrow> R e e'"
begin

lemma start_element: "IncomingStartElement C n atts (s, ctx) = Some (s', ctx') \<Longrightarrow> R (sp_client s) (sp_client s')"
  by (auto simp: IncomingStartElement_def Let_def refl_rel split: if_splits option.splits prod.splits dest: start_rel)

lemma end_element: "IncomingEndElement C n (s, ctx) = Some (s', ctx') \<Longrightarrow> R (sp_client s) (sp_client s')"
  by (auto simp: IncomingEndElement_def Let_def refl_rel split: if_splits option.splits prod.splits
      dest: stanza_rel end_rel)

lemma character_data: "IncomingCharacterData t (s, ctx) = Some (s', ctx') \<Longrightarrow> R (sp_client s) (sp_client s')"
  by (auto simp: IncomingCharacterData_def Let_def refl_rel split: if_splits option.splits prod.splits)

lemma sax_step_rel:
  "sax_step (stanza_handler C) pos ev (s, ctx) = Some (s', ctx') \<Longrightarrow> R (sp_client s) (sp_client s')"
  by (cases ev)
     (auto simp: ExpatStartElement_def ExpatEndElement_def ExpatCharacterData_def ExpatXmlDecl_def Let_def refl_rel
        split: if_splits option.splits prod.splits dest: start_element end_element character_data)

lemma sax_run_rel:
  "sax_run (stanza_handler C) evs (s, ctx) = Some (s', ctx') \<Longrightarrow> R (sp_client s) (sp_client s')"
proof (induction evs arbitrary: s ctx)
  case Nil
  then show ?case by (simp add: refl_rel)
next
  case (Cons a evs)
  obtain pos ev where a: "a = (pos, ev)" by (cases a)
  with Cons.prems obtain s1 ctx1 where step: "sax_step (stanza_handler C) pos ev (s, ctx) = Some (s1, ctx1)"
    and run: "sax_run (stanza_handler C) evs (s1, ctx1) = Some (s', ctx')"
    by (auto split: option.splits)
  from trans_rel [OF sax_step_rel [OF step] Cons.IH [OF run]] show ?case .
qed

lemma Parse_rel:
  assumes "Parse feed (stanza_handler C) data isFinal p = Some (p', ok)"
  shows "R (sp_client (xp_handler p)) (sp_client (xp_handler p'))"
proof (cases "xp_sentError p")
  case True
  with assms show ?thesis by (simp add: Parse_def refl_rel)
next
  case False
  obtain x evs status pos where f: "feed (xp_expat p) data isFinal = (x, evs, status, pos)" by (metis prod_cases4)
  with False assms obtain h ctx where run: "sax_run (stanza_handler C) evs (xp_handler p, xp_context p) = Some (h, ctx)"
    by (auto simp: Parse_def split: option.splits)
  have "R (sp_client h) (sp_client (xp_handler p'))"
    using assms False f run
    by (auto simp: Parse_def Let_def IncomingError_def refl_rel split: if_splits option.splits prod.splits dest: error_rel)
  with sax_run_rel [OF run] show ?thesis by (rule trans_rel)
qed

end

subsection \<open>Properties\<close>

text \<open>C9: the stanza parser delivers a stream stanza by stanza: after the header, which is reported
  once, every element at depth one is reported exactly once, in order, as the element that was
  sent (with the invented namespace declarations), and the parser is back at depth one with an
  empty builder; the client's callbacks are the only effect.\<close>

theorem stream_is_framed:
  assumes "start_namespaces atts (context_StartElement context_init) = (c1, True)"
    and "BuildElement c1 n atts = Some h" and "prefixes_ok (pc_xmlns c1)"
    and "list_all (printable (pc_xmlns c1)) es"
    and "map snd evs = concat (map (tokens (pc_xmlns c1)) es)"
  shows "\<exists>ctx'. pc_raised ctx' = XML_ERROR_NONE \<and>
    sax_run (stanza_handler C) ((p0, SaxStart n atts) # evs) (stanza_parser_init cl, context_init) =
      map_option (\<lambda>cl'. (\<lparr>sp_depth = 1, sp_builder = builder_init, sp_client = cl'\<rparr>, ctx'))
        (Option.bind (sc_StartStream C h cl) (report_stanzas C (map (declared (pc_xmlns c1)) es)))"
  using stanza_stream [OF assms, of C p0 cl] unfolding calm_def by blast

theorem stream_is_framed_witness:
  "\<exists>ctx'. sax_run (stanza_handler \<lparr>sc_StartStream = \<lambda>h l. Some (l @ [h]), sc_Stanza = \<lambda>e l. Some (l @ [the e]),
        sc_EndStream = Some, sc_XmlError = Some\<rparr>)
      [((1, 0, 0), SaxStart ''s'' []), ((1, 3, 3), SaxStart ''a'' []), ((1, 6, 6), SaxText ''hi''),
       ((1, 8, 8), SaxEnd ''a''), ((1, 12, 12), SaxStart ''b'' []), ((1, 16, 16), SaxEnd ''b'')]
      (stanza_parser_init [], context_init) =
    Some (\<lparr>sp_depth = 1, sp_builder = builder_init,
      sp_client = [new_element (QName [] ''s''), XmlElement (QName [] ''a'') [] [XmlText ''hi''] False, new_element (QName [] ''b'')]\<rparr>, ctx')"
proof -
  let ?c = "context_StartElement context_init"
  let ?es = "[XmlElement (QName [] ''a'') [] [XmlText ''hi''] False, new_element (QName [] ''b'')]"
  have ns: "start_namespaces [] ?c = (?c, True)" by simp
  have h: "BuildElement ?c ''s'' [] = Some (new_element (QName [] ''s''))" by code_simp
  have ok: "prefixes_ok (pc_xmlns ?c)"
    by (simp add: prefixes_ok_def context_StartElement_def context_init_def PushFrame_def xmlns_empty_def)
  have pr: "list_all (printable (pc_xmlns ?c)) ?es" by code_simp
  have tok: "concat (map (tokens (pc_xmlns ?c)) ?es) =
      [SaxStart ''a'' [], SaxText ''hi'', SaxEnd ''a'', SaxStart ''b'' [], SaxEnd ''b'']" by code_simp
  have dec: "map (declared (pc_xmlns ?c)) ?es = ?es" by code_simp
  show ?thesis
    using stream_is_framed [OF ns h ok pr, of "[((1, 3, 3), SaxStart ''a'' []), ((1, 6, 6), SaxText ''hi''),
       ((1, 8, 8), SaxEnd ''a''), ((1, 12, 12), SaxStart ''b'' []), ((1, 16, 16), SaxEnd ''b'')]"
       "\<lparr>sc_StartStream = \<lambda>h l. Some (l @ [h]), sc_Stanza = \<lambda>e l. Some (l @ [the e]), sc_EndStream = Some, sc_XmlError = Some\<rparr>"
       "(1, 0, 0)" "[]", unfolded tok dec]
    by auto
qed

end
