(* ===== verification/XmppConstants.thy ===== *)
theory XmppConstants
  imports QNames
begin

text \<open>
  The namespaces and names of \<open>talk/xmpp/constants.cc\<close> that the modelled code uses, by the
  names they have there. The string constants (\<open>STR_...\<close>) are written out where they are used.
  All definitions are collected in \<open>qname_consts\<close>: the equality of two names is decided by
  \<open>simp add: qname_consts\<close>.
\<close>

definition NS_CLIENT :: string where
  [qname_consts]: "NS_CLIENT = ''jabber:client''"

definition NS_STREAM :: string where
  [qname_consts]: "NS_STREAM = ''http://etherx.jabber.org/streams''"

definition NS_TLS :: string where
  [qname_consts]: "NS_TLS = ''urn:ietf:params:xml:ns:xmpp-tls''"

definition NS_SASL :: string where
  [qname_consts]: "NS_SASL = ''urn:ietf:params:xml:ns:xmpp-sasl''"

definition NS_BIND :: string where
  [qname_consts]: "NS_BIND = ''urn:ietf:params:xml:ns:xmpp-bind''"

definition NS_SESSION :: string where
  [qname_consts]: "NS_SESSION = ''urn:ietf:params:xml:ns:xmpp-session''"

definition NS_STANZA :: string where
  [qname_consts]: "NS_STANZA = ''urn:ietf:params:xml:ns:xmpp-stanzas''"

definition NS_PING :: string where
  [qname_consts]: "NS_PING = ''urn:xmpp:ping''"

definition NS_GOOGLE_AUTH_PROTOCOL :: string where
  [qname_consts]: "NS_GOOGLE_AUTH_PROTOCOL = ''http://www.google.com/talk/protocol/auth''"

definition NS_ROSTER :: string where
  [qname_consts]: "NS_ROSTER = ''jabber:iq:roster''"

definition QN_PING :: qname where
  [qname_consts]: "QN_PING = QName NS_PING ''ping''"

definition QN_STREAM_STREAM :: qname where
  [qname_consts]: "QN_STREAM_STREAM = QName NS_STREAM ''stream''"

definition QN_STREAM_FEATURES :: qname where
  [qname_consts]: "QN_STREAM_FEATURES = QName NS_STREAM ''features''"

definition QN_STREAM_ERROR :: qname where
  [qname_consts]: "QN_STREAM_ERROR = QName NS_STREAM ''error''"

definition QN_TLS_STARTTLS :: qname where
  [qname_consts]: "QN_TLS_STARTTLS = QName NS_TLS ''starttls''"

definition QN_TLS_PROCEED :: qname where
  [qname_consts]: "QN_TLS_PROCEED = QName NS_TLS ''proceed''"

definition QN_SASL_MECHANISMS :: qname where
  [qname_consts]: "QN_SASL_MECHANISMS = QName NS_SASL ''mechanisms''"

definition QN_SASL_MECHANISM :: qname where
  [qname_consts]: "QN_SASL_MECHANISM = QName NS_SASL ''mechanism''"

definition QN_SASL_AUTH :: qname where
  [qname_consts]: "QN_SASL_AUTH = QName NS_SASL ''auth''"

definition QN_SASL_CHALLENGE :: qname where
  [qname_consts]: "QN_SASL_CHALLENGE = QName NS_SASL ''challenge''"

definition QN_SASL_ABORT :: qname where
  [qname_consts]: "QN_SASL_ABORT = QName NS_SASL ''abort''"

definition QN_SASL_SUCCESS :: qname where
  [qname_consts]: "QN_SASL_SUCCESS = QName NS_SASL ''success''"

definition QN_GOOGLE_AUTH_CLIENT_USES_FULL_BIND_RESULT :: qname where
  [qname_consts]: "QN_GOOGLE_AUTH_CLIENT_USES_FULL_BIND_RESULT = QName NS_GOOGLE_AUTH_PROTOCOL ''client-uses-full-bind-result''"

definition QN_GOOGLE_ALLOW_NON_GOOGLE_ID_XMPP_LOGIN :: qname where
  [qname_consts]: "QN_GOOGLE_ALLOW_NON_GOOGLE_ID_XMPP_LOGIN = QName NS_GOOGLE_AUTH_PROTOCOL ''allow-non-google-login''"

definition QN_GOOGLE_AUTH_SERVICE :: qname where
  [qname_consts]: "QN_GOOGLE_AUTH_SERVICE = QName NS_GOOGLE_AUTH_PROTOCOL ''service''"

definition QN_STANZA_BAD_REQUEST :: qname where
  [qname_consts]: "QN_STANZA_BAD_REQUEST = QName NS_STANZA ''bad-request''"

definition QN_STANZA_CONFLICT :: qname where
  [qname_consts]: "QN_STANZA_CONFLICT = QName NS_STANZA ''conflict''"

definition QN_STANZA_FEATURE_NOT_IMPLEMENTED :: qname where
  [qname_consts]: "QN_STANZA_FEATURE_NOT_IMPLEMENTED = QName NS_STANZA ''feature-not-implemented''"

definition QN_STANZA_FORBIDDEN :: qname where
  [qname_consts]: "QN_STANZA_FORBIDDEN = QName NS_STANZA ''forbidden''"

definition QN_STANZA_GONE :: qname where
  [qname_consts]: "QN_STANZA_GONE = QName NS_STANZA ''gone''"

definition QN_STANZA_INTERNAL_SERVER_ERROR :: qname where
  [qname_consts]: "QN_STANZA_INTERNAL_SERVER_ERROR = QName NS_STANZA ''internal-server-error''"

definition QN_STANZA_ITEM_NOT_FOUND :: qname where
  [qname_consts]: "QN_STANZA_ITEM_NOT_FOUND = QName NS_STANZA ''item-not-found''"

definition QN_STANZA_JID_MALFORMED :: qname where
  [qname_consts]: "QN_STANZA_JID_MALFORMED = QName NS_STANZA ''jid-malformed''"

definition QN_STANZA_NOT_ACCEPTABLE :: qname where
  [qname_consts]: "QN_STANZA_NOT_ACCEPTABLE = QName NS_STANZA ''not-acceptable''"

definition QN_STANZA_NOT_ALLOWED :: qname where
  [qname_consts]: "QN_STANZA_NOT_ALLOWED = QName NS_STANZA ''not-allowed''"

definition QN_STANZA_PAYMENT_REQUIRED :: qname where
  [qname_consts]: "QN_STANZA_PAYMENT_REQUIRED = QName NS_STANZA ''payment-required''"

definition QN_STANZA_RECIPIENT_UNAVAILABLE :: qname where
  [qname_consts]: "QN_STANZA_RECIPIENT_UNAVAILABLE = QName NS_STANZA ''recipient-unavailable''"

definition QN_STANZA_REDIRECT :: qname where
  [qname_consts]: "QN_STANZA_REDIRECT = QName NS_STANZA ''redirect''"

definition QN_STANZA_REGISTRATION_REQUIRED :: qname where
  [qname_consts]: "QN_STANZA_REGISTRATION_REQUIRED = QName NS_STANZA ''registration-required''"

definition QN_STANZA_REMOTE_SERVER_NOT_FOUND :: qname where
  [qname_consts]: "QN_STANZA_REMOTE_SERVER_NOT_FOUND = QName NS_STANZA ''remote-server-not-found''"

definition QN_STANZA_REMOTE_SERVER_TIMEOUT :: qname where
  [qname_consts]: "QN_STANZA_REMOTE_SERVER_TIMEOUT = QName NS_STANZA ''remote-server-timeout''"

definition QN_STANZA_RESOURCE_CONSTRAINT :: qname where
  [qname_consts]: "QN_STANZA_RESOURCE_CONSTRAINT = QName NS_STANZA ''resource-constraint''"

definition QN_STANZA_SERVICE_UNAVAILABLE :: qname where
  [qname_consts]: "QN_STANZA_SERVICE_UNAVAILABLE = QName NS_STANZA ''service-unavailable''"

definition QN_STANZA_SUBSCRIPTION_REQUIRED :: qname where
  [qname_consts]: "QN_STANZA_SUBSCRIPTION_REQUIRED = QName NS_STANZA ''subscription-required''"

definition QN_STANZA_UNDEFINED_CONDITION :: qname where
  [qname_consts]: "QN_STANZA_UNDEFINED_CONDITION = QName NS_STANZA ''undefined-condition''"

definition QN_STANZA_UNEXPECTED_REQUEST :: qname where
  [qname_consts]: "QN_STANZA_UNEXPECTED_REQUEST = QName NS_STANZA ''unexpected-request''"

definition QN_STANZA_TEXT :: qname where
  [qname_consts]: "QN_STANZA_TEXT = QName NS_STANZA ''text''"

definition QN_BIND_BIND :: qname where
  [qname_consts]: "QN_BIND_BIND = QName NS_BIND ''bind''"

definition QN_BIND_RESOURCE :: qname where
  [qname_consts]: "QN_BIND_RESOURCE = QName NS_BIND ''resource''"

definition QN_BIND_JID :: qname where
  [qname_consts]: "QN_BIND_JID = QName NS_BIND ''jid''"

definition QN_MESSAGE :: qname where
  [qname_consts]: "QN_MESSAGE = QName NS_CLIENT ''message''"

definition QN_PRESENCE :: qname where
  [qname_consts]: "QN_PRESENCE = QName NS_CLIENT ''presence''"

definition QN_IQ :: qname where
  [qname_consts]: "QN_IQ = QName NS_CLIENT ''iq''"

definition QN_ERROR :: qname where
  [qname_consts]: "QN_ERROR = QName NS_CLIENT ''error''"

definition QN_SESSION_SESSION :: qname where
  [qname_consts]: "QN_SESSION_SESSION = QName NS_SESSION ''session''"

definition QN_ROSTER_QUERY :: qname where
  [qname_consts]: "QN_ROSTER_QUERY = QName NS_ROSTER ''query''"

definition QN_ROSTER_ITEM :: qname where
  [qname_consts]: "QN_ROSTER_ITEM = QName NS_ROSTER ''item''"

definition QN_ROSTER_GROUP :: qname where
  [qname_consts]: "QN_ROSTER_GROUP = QName NS_ROSTER ''group''"

definition QN_VERSION :: qname where
  [qname_consts]: "QN_VERSION = QName [] ''version''"

definition QN_TO :: qname where
  [qname_consts]: "QN_TO = QName [] ''to''"

definition QN_FROM :: qname where
  [qname_consts]: "QN_FROM = QName [] ''from''"

definition QN_TYPE :: qname where
  [qname_consts]: "QN_TYPE = QName [] ''type''"

definition QN_ID :: qname where
  [qname_consts]: "QN_ID = QName [] ''id''"

definition QN_CODE :: qname where
  [qname_consts]: "QN_CODE = QName [] ''code''"

definition QN_MECHANISM :: qname where
  [qname_consts]: "QN_MECHANISM = QName [] ''mechanism''"

definition QN_NAME :: qname where
  [qname_consts]: "QN_NAME = QName [] ''name''"

definition QN_JID :: qname where
  [qname_consts]: "QN_JID = QName [] ''jid''"

definition QN_SUBSCRIPTION :: qname where
  [qname_consts]: "QN_SUBSCRIPTION = QName [] ''subscription''"

definition QN_ASK :: qname where
  [qname_consts]: "QN_ASK = QName [] ''ask''"

text \<open>The comparisons the login and the engine make.\<close>

lemma attr_names_distinct [simp]:
  "QN_TYPE \<noteq> QN_ID" "QN_ID \<noteq> QN_TYPE" "QN_TO \<noteq> QN_FROM" "QN_FROM \<noteq> QN_TO" "QN_TO \<noteq> QN_TYPE"
  "QN_TYPE \<noteq> QN_TO" "QN_FROM \<noteq> QN_TYPE" "QN_TYPE \<noteq> QN_FROM" "QN_ID \<noteq> QN_TO" "QN_TO \<noteq> QN_ID"
  "QN_ID \<noteq> QN_FROM" "QN_FROM \<noteq> QN_ID" "QN_CODE \<noteq> QN_TYPE" "QN_TYPE \<noteq> QN_CODE"
  by (simp_all add: qname_consts)

lemma sasl_names_distinct [simp]:
  "QN_SASL_CHALLENGE \<noteq> QN_SASL_SUCCESS" "QN_SASL_SUCCESS \<noteq> QN_SASL_CHALLENGE"
  "QN_SASL_AUTH \<noteq> QN_SASL_CHALLENGE" "QN_BIND_BIND \<noteq> QN_SESSION_SESSION"
  by (simp_all add: qname_consts)

end
