(* ===== verification/Jids.thy ===== *)
theory Jids
  imports QNames
begin

text \<open>
  JIDs, \<open>talk/xmpp/jid.cc\<close>: the parsing of \<open>node@domain/resource\<close>, the preparation of the
  three parts (\<open>PrepNode\<close>, \<open>PrepDomain\<close>, \<open>PrepResource\<close>), printing, bare JIDs and the order.
  A \<open>Jid\<close> is the record of its three strings. The out-parameter \<open>valid\<close> of the preparation
  functions is the second component of their result. \<open>tolower\<close> is the function of the C
  locale, which leaves the bytes from 0x80 as they are.
\<close>

datatype jid = Jid (node_name: string) (domain_name: string) (resource_name: string)

definition Jid_empty :: jid where
  "Jid_empty = Jid [] [] []"

subsection \<open>Preparation of the parts\<close>

definition is_upper :: "char \<Rightarrow> bool" where
  "is_upper ch \<longleftrightarrow> CHR ''A'' \<le> ch \<and> ch \<le> CHR ''Z''"

definition to_lower :: "char \<Rightarrow> char" where
  "to_lower ch = char_of (byte_of ch + 32)"

definition PrepNodeAscii :: "char \<Rightarrow> char \<times> bool" where
  "PrepNodeAscii ch =
     (if is_upper ch then (to_lower ch, True)
      else if byte_of ch \<le> 0x17 \<or>
        byte_of ch \<in> {0x20, 0x26, 0x2F, 0x3A, 0x3C, 0x3E, 0x40, 0x22, 0x27, 0x7F}  \<comment> \<open>space & / : < > @ and the quotes\<close>
      then (NUL, False)
      else (ch, True))"

fun PrepNode_loop :: "string \<Rightarrow> string \<Rightarrow> string option" where
  "PrepNode_loop [] result = Some result"
| "PrepNode_loop (ch # rest) result =
     (if byte_of ch \<le> 0x7F then
        (case PrepNodeAscii ch of
           (c, True) \<Rightarrow> PrepNode_loop rest (result @ [c])
         | (c, False) \<Rightarrow> None)
      else PrepNode_loop rest (result @ [ch]))"

definition PrepNode :: "string \<Rightarrow> string \<times> bool" where
  "PrepNode node =
     (case PrepNode_loop node [] of
        None \<Rightarrow> ([], False)
      | Some result \<Rightarrow> if length result > 1023 then ([], False) else (result, True))"

definition PrepResourceAscii :: "char \<Rightarrow> char \<times> bool" where
  "PrepResourceAscii ch =
     (if byte_of ch \<le> 0x17 \<or> byte_of ch = 0x7F then (NUL, False) else (ch, True))"

text \<open>The loop of \<open>PrepResource\<close> does not look at \<open>char_valid\<close>.\<close>

definition PrepResource_char :: "char \<Rightarrow> char" where
  "PrepResource_char ch = (if byte_of ch \<le> 0x7F then fst (PrepResourceAscii ch) else ch)"

definition PrepResource :: "string \<Rightarrow> string \<times> bool" where
  "PrepResource resource =
     (let result = map PrepResource_char resource in
      if length result > 1023 then ([], False) else (result, True))"

definition PrepDomainLabelAscii :: "char \<Rightarrow> char \<times> bool" where
  "PrepDomainLabelAscii ch =
     (if is_upper ch then (to_lower ch, True)
      else if byte_of ch \<le> 0x2C \<or> byte_of ch \<in> {0x2E, 0x2F} \<or> (0x3A \<le> byte_of ch \<and> byte_of ch \<le> 0x40)
        \<or> (0x5B \<le> byte_of ch \<and> byte_of ch \<le> 0x60) \<or> (0x7B \<le> byte_of ch \<and> byte_of ch \<le> 0x7F)
      then (NUL, False)
      else (ch, True))"

text \<open>The loop over a label appends to \<open>buf\<close> and stops at the first invalid character.\<close>

fun label_loop :: "string \<Rightarrow> string \<Rightarrow> string \<times> bool" where
  "label_loop [] buf = (buf, True)"
| "label_loop (ch # rest) buf =
     (if byte_of ch \<le> 0x7F then
        (case PrepDomainLabelAscii ch of
           (c, True) \<Rightarrow> label_loop rest (buf @ [c])
         | (c, False) \<Rightarrow> (buf @ [c], False))
      else label_loop rest (buf @ [ch]))"

definition PrepDomainLabel :: "string \<Rightarrow> string \<Rightarrow> string \<times> bool" where
  "PrepDomainLabel label buf =
     (let start_len = length buf in
      case label_loop label buf of
        (buf1, False) \<Rightarrow> (buf1, False)
      | (buf1, True) \<Rightarrow>
          (let count = length buf1 - start_len in
           (buf1, \<not> (count = 0 \<or> count > 63 \<or> buf1 ! start_len = CHR ''-'' \<or> last buf1 = CHR ''-''))))"

text \<open>The outer loop: \<open>label\<close> is the text between \<open>last\<close> and \<open>i\<close>.\<close>

fun PrepDomain_loop :: "string \<Rightarrow> string \<Rightarrow> string \<Rightarrow> string \<times> bool" where
  "PrepDomain_loop [] label buf = PrepDomainLabel label buf"
| "PrepDomain_loop (ch # rest) label buf =
     (if ch = CHR ''.'' then
        (let (buf1, label_valid) = PrepDomainLabel label buf; buf2 = buf1 @ ''.'' in
         if label_valid then PrepDomain_loop rest [] buf2 else (buf2, False))
      else PrepDomain_loop rest (label @ [ch]) buf)"

text \<open>When the prepared domain is too long, the code returns the empty string, but \<open>valid\<close> has
  already been set by the inner function and stays true.\<close>

definition PrepDomain :: "string \<Rightarrow> string \<times> bool" where
  "PrepDomain domain =
     (let (result, valid) = PrepDomain_loop domain [] [] in
      if \<not> valid then ([], False)
      else if length result > 1023 then ([], True)
      else (result, True))"

subsection \<open>Construction, printing, comparison\<close>

definition ValidateOrReset :: "jid \<Rightarrow> jid" where
  "ValidateOrReset j =
     (let (node, valid_node) = PrepNode (node_name j);
          (domain, valid_domain) = PrepDomain (domain_name j);
          (resource, valid_resource) = PrepResource (resource_name j) in
      if \<not> valid_node \<or> \<not> valid_domain \<or> \<not> valid_resource then Jid_empty
      else Jid node domain resource)"

definition Jid_of_parts :: "string \<Rightarrow> string \<Rightarrow> string \<Rightarrow> jid" where
  "Jid_of_parts node domain resource = ValidateOrReset (Jid node domain resource)"

definition Jid_of_string :: "string \<Rightarrow> jid" where
  "Jid_of_string s =
     (if s = [] then Jid_empty
      else let slash = find_char CHR ''/'' s;
               resource = (case slash of None \<Rightarrow> [] | Some i \<Rightarrow> drop (i + 1) s);
               at = find_char CHR ''@'' s;
               (node, domain_begin) =
                 (case at of
                    Some a \<Rightarrow> (if (case slash of None \<Rightarrow> True | Some i \<Rightarrow> a < i) then (take a s, a + 1) else ([], 0))
                  | None \<Rightarrow> ([], 0));
               domain_length = (case slash of None \<Rightarrow> length s - domain_begin | Some i \<Rightarrow> i - domain_begin) in
           ValidateOrReset (Jid node (substr domain_begin domain_length s) resource))"

definition Jid_IsEmpty :: "jid \<Rightarrow> bool" where
  "Jid_IsEmpty j \<longleftrightarrow> node_name j = [] \<and> domain_name j = [] \<and> resource_name j = []"

definition Jid_IsValid :: "jid \<Rightarrow> bool" where
  "Jid_IsValid j \<longleftrightarrow> domain_name j \<noteq> []"

definition Jid_IsBare :: "jid \<Rightarrow> bool" where
  "Jid_IsBare j \<longleftrightarrow> (if Jid_IsEmpty j then True else Jid_IsValid j \<and> resource_name j = [])"

definition Jid_IsFull :: "jid \<Rightarrow> bool" where
  "Jid_IsFull j \<longleftrightarrow> Jid_IsValid j \<and> resource_name j \<noteq> []"

definition Jid_Str :: "jid \<Rightarrow> string" where
  "Jid_Str j =
     (if \<not> Jid_IsValid j then []
      else (if node_name j \<noteq> [] then node_name j @ ''@'' else []) @ domain_name j @
           (if resource_name j \<noteq> [] then ''/'' @ resource_name j else []))"

definition BareJid :: "jid \<Rightarrow> jid" where
  "BareJid j =
     (if \<not> Jid_IsValid j then Jid_empty else if \<not> Jid_IsFull j then j
      else Jid_of_parts (node_name j) (domain_name j) [])"

definition BareEquals :: "jid \<Rightarrow> jid \<Rightarrow> bool" where
  "BareEquals j other \<longleftrightarrow> node_name other = node_name j \<and> domain_name other = domain_name j"

definition Jid_Compare :: "jid \<Rightarrow> jid \<Rightarrow> int" where
  "Jid_Compare j other =
     (let r = str_compare (node_name j) (node_name other) in
      if r \<noteq> 0 then r
      else let r = str_compare (domain_name j) (domain_name other) in
        if r \<noteq> 0 then r else str_compare (resource_name j) (resource_name other))"

subsection \<open>The order\<close>

interpretation jid_tail: three_way_pair str_compare str_compare ..

interpretation jid_fields: three_way_pair str_compare "lex_compare str_compare str_compare" ..

lemma Jid_Compare_lex:
  "Jid_Compare j k = lex_compare str_compare (lex_compare str_compare str_compare)
     (node_name j, domain_name j, resource_name j) (node_name k, domain_name k, resource_name k)"
  by (simp add: Jid_Compare_def lex_compare_def Let_def)

interpretation jidcmp: three_way Jid_Compare
proof unfold_locales
  fix a b c :: jid
  show "Jid_Compare a b = 0 \<longleftrightarrow> a = b"
    unfolding Jid_Compare_lex jid_fields.lex_eq by (cases a; cases b) auto
  show "Jid_Compare b a = - Jid_Compare a b"
    unfolding Jid_Compare_lex by (rule jid_fields.lex_anti)
  show "Jid_Compare a b < 0 \<Longrightarrow> Jid_Compare b c < 0 \<Longrightarrow> Jid_Compare a c < 0"
    unfolding Jid_Compare_lex by (rule jid_fields.lex_trans)
qed

instantiation jid :: linorder
begin

definition less_eq_jid :: "jid \<Rightarrow> jid \<Rightarrow> bool" where
  "less_eq_jid a b \<longleftrightarrow> Jid_Compare a b \<le> 0"

definition less_jid :: "jid \<Rightarrow> jid \<Rightarrow> bool" where
  "less_jid a b \<longleftrightarrow> Jid_Compare a b < 0"

instance
proof
  fix x y z :: jid
  show "x < y \<longleftrightarrow> x \<le> y \<and> \<not> y \<le> x"
    unfolding less_eq_jid_def less_jid_def by (rule jidcmp.less_le_not_le)
  show "x \<le> x"
    by (simp add: less_eq_jid_def jidcmp.cmp_refl)
  show "x \<le> y \<Longrightarrow> y \<le> z \<Longrightarrow> x \<le> z"
    unfolding less_eq_jid_def by (rule jidcmp.le_trans)
  show "x \<le> y \<Longrightarrow> y \<le> x \<Longrightarrow> x = y"
    unfolding less_eq_jid_def by (rule jidcmp.le_antisym)
  show "x \<le> y \<or> y \<le> x"
    unfolding less_eq_jid_def jidcmp.le_iff using jidcmp.less_total by blast
qed

end

subsection \<open>Prepared strings\<close>

text \<open>What a preparation returns is left alone by a second one.\<close>

definition node_char :: "char \<Rightarrow> bool" where
  "node_char c \<longleftrightarrow> byte_of c > 0x7F \<or> PrepNodeAscii c = (c, True)"

definition label_char :: "char \<Rightarrow> bool" where
  "label_char c \<longleftrightarrow> byte_of c > 0x7F \<or> PrepDomainLabelAscii c = (c, True)"

lemma byte_of_to_lower: "is_upper c \<Longrightarrow> byte_of (to_lower c) = byte_of c + 32"
  and is_upper_range: "is_upper c \<longleftrightarrow> 65 \<le> byte_of c \<and> byte_of c \<le> 90"
proof -
  show u: "is_upper c \<longleftrightarrow> 65 \<le> byte_of c \<and> byte_of c \<le> 90" for c
    by (auto simp: is_upper_def less_eq_char_def)
  show "is_upper c \<Longrightarrow> byte_of (to_lower c) = byte_of c + 32"
    using u [of c] by (simp add: to_lower_def)
qed

lemma PrepNodeAscii_result:
  assumes "PrepNodeAscii c = (d, True)"
  shows "node_char d"
proof (cases "is_upper c")
  case True
  then have "byte_of d = byte_of c + 32" "65 \<le> byte_of c" "byte_of c \<le> 90"
    using assms byte_of_to_lower by (auto simp: PrepNodeAscii_def is_upper_range)
  then show ?thesis by (simp add: node_char_def PrepNodeAscii_def is_upper_range)
next
  case False
  with assms have "d = c" by (auto simp: PrepNodeAscii_def split: if_splits)
  with assms show ?thesis by (simp add: node_char_def)
qed

lemma PrepDomainLabelAscii_result:
  assumes "PrepDomainLabelAscii c = (d, True)"
  shows "label_char d"
proof (cases "is_upper c")
  case True
  then have "byte_of d = byte_of c + 32" "65 \<le> byte_of c" "byte_of c \<le> 90"
    using assms byte_of_to_lower by (auto simp: PrepDomainLabelAscii_def is_upper_range)
  then show ?thesis by (simp add: label_char_def PrepDomainLabelAscii_def is_upper_range)
next
  case False
  with assms have "d = c" by (auto simp: PrepDomainLabelAscii_def split: if_splits)
  with assms show ?thesis by (simp add: label_char_def)
qed

lemma node_char_no_separator: "node_char c \<Longrightarrow> c \<noteq> CHR ''/'' \<and> c \<noteq> CHR ''@''"
  by (auto simp: node_char_def PrepNodeAscii_def is_upper_range)

lemma label_char_no_separator: "label_char c \<Longrightarrow> c \<noteq> CHR ''/'' \<and> c \<noteq> CHR ''@'' \<and> c \<noteq> CHR ''.''"
  by (auto simp: label_char_def PrepDomainLabelAscii_def is_upper_range)

lemma PrepNode_loop_result:
  "PrepNode_loop s acc = Some r \<Longrightarrow>
   \<exists>t. r = acc @ t \<and> list_all node_char t \<and> length t = length s"
proof (induction s acc rule: PrepNode_loop.induct)
  case (2 ch rest result)
  show ?case
  proof (cases "byte_of ch \<le> 0x7F")
    case True
    obtain c b where p: "PrepNodeAscii ch = (c, b)" by fastforce
    with 2(3) True have b by (auto split: bool.splits)
    with 2(1) [OF True p [symmetric]] 2(3) True p obtain t where
      "r = (result @ [c]) @ t" "list_all node_char t" "length t = length rest" by auto
    moreover have "node_char c"
      using p \<open>b\<close> by (auto intro: PrepNodeAscii_result)
    ultimately show ?thesis by (intro exI [of _ "c # t"]) simp
  next
    case False
    with 2(2) 2(3) obtain t where
      "r = (result @ [ch]) @ t" "list_all node_char t" "length t = length rest" by auto
    moreover from False have "node_char ch" by (simp add: node_char_def)
    ultimately show ?thesis by (intro exI [of _ "ch # t"]) simp
  qed
qed simp

lemma PrepNode_loop_id: "list_all node_char t \<Longrightarrow> PrepNode_loop t acc = Some (acc @ t)"
  by (induction t arbitrary: acc) (auto simp: node_char_def)

lemma label_loop_result:
  "label_loop s buf = (r, True) \<Longrightarrow>
   \<exists>t. r = buf @ t \<and> list_all label_char t \<and> length t = length s"
proof (induction s buf rule: label_loop.induct)
  case (2 ch rest buf)
  show ?case
  proof (cases "byte_of ch \<le> 0x7F")
    case True
    obtain c b where p: "PrepDomainLabelAscii ch = (c, b)" by fastforce
    with 2(3) True have b by (auto split: bool.splits)
    with 2(1) [OF True p [symmetric]] 2(3) True p obtain t where
      "r = (buf @ [c]) @ t" "list_all label_char t" "length t = length rest" by auto
    moreover have "label_char c"
      using p \<open>b\<close> by (auto intro: PrepDomainLabelAscii_result)
    ultimately show ?thesis by (intro exI [of _ "c # t"]) simp
  next
    case False
    with 2(2) 2(3) obtain t where
      "r = (buf @ [ch]) @ t" "list_all label_char t" "length t = length rest" by auto
    moreover from False have "label_char ch" by (simp add: label_char_def)
    ultimately show ?thesis by (intro exI [of _ "ch # t"]) simp
  qed
qed simp

lemma label_loop_id: "list_all label_char t \<Longrightarrow> label_loop t buf = (buf @ t, True)"
  by (induction t arbitrary: buf) (auto simp: label_char_def)

definition good_label :: "string \<Rightarrow> bool" where
  "good_label t \<longleftrightarrow> t \<noteq> [] \<and> length t \<le> 63 \<and> hd t \<noteq> CHR ''-'' \<and> last t \<noteq> CHR ''-'' \<and> list_all label_char t"

lemma PrepDomainLabel_result:
  assumes "PrepDomainLabel label buf = (r, True)"
  shows "\<exists>t. r = buf @ t \<and> good_label t"
proof -
  from assms have l: "label_loop label buf = (r, True)"
    and c: "length r - length buf \<noteq> 0" "length r - length buf \<le> 63"
      "r ! length buf \<noteq> CHR ''-''" "last r \<noteq> CHR ''-''"
    by (auto simp: PrepDomainLabel_def Let_def split: prod.splits bool.splits)
  obtain t where "r = buf @ t" "list_all label_char t"
    using label_loop_result [OF l] by blast
  with c show ?thesis
    by (intro exI [of _ t]) (auto simp: good_label_def hd_conv_nth nth_append)
qed

lemma PrepDomainLabel_id:
  assumes "good_label t"
  shows "PrepDomainLabel t buf = (buf @ t, True)"
proof -
  have "label_loop t buf = (buf @ t, True)"
    using assms by (simp add: label_loop_id good_label_def)
  moreover have "(buf @ t) ! length buf = hd t" "last (buf @ t) = last t"
    using assms by (simp_all add: good_label_def hd_conv_nth nth_append)
  ultimately show ?thesis
    using assms by (simp add: PrepDomainLabel_def good_label_def)
qed

lemma PrepDomain_loop_label:
  "list_all label_char t \<Longrightarrow> PrepDomain_loop (t @ rest) lab buf = PrepDomain_loop rest (lab @ t) buf"
  by (induction t arbitrary: lab) (auto dest: label_char_no_separator)

definition good_domain :: "string \<Rightarrow> bool" where
  "good_domain t \<longleftrightarrow> t \<noteq> [] \<and> list_all (\<lambda>c. c = CHR ''.'' \<or> label_char c) t \<and>
     (\<forall>buf. PrepDomain_loop t [] buf = (buf @ t, True))"

lemma good_domain_label: "good_label t \<Longrightarrow> good_domain t"
  using PrepDomain_loop_label [of t "[]" "[]"] PrepDomainLabel_id [of t]
  by (auto simp: good_domain_def good_label_def list_all_iff)

lemma good_domain_dot: "good_label t \<Longrightarrow> good_domain u \<Longrightarrow> good_domain (t @ CHR ''.'' # u)"
  using PrepDomain_loop_label [of t "CHR ''.'' # u" "[]"] PrepDomainLabel_id [of t]
  by (auto simp: good_domain_def good_label_def list_all_iff Let_def)

lemma PrepDomain_loop_result:
  "PrepDomain_loop s label buf = (r, True) \<Longrightarrow> \<exists>t. r = buf @ t \<and> good_domain t"
proof (induction s label buf rule: PrepDomain_loop.induct)
  case (1 label buf)
  then show ?case using PrepDomainLabel_result [of label buf r] good_domain_label by auto
next
  case (2 ch rest label buf)
  show ?case
  proof (cases "ch = CHR ''.''")
    case True
    obtain buf1 v where l: "PrepDomainLabel label buf = (buf1, v)" by fastforce
    with 2(3) True have v by (auto simp: Let_def split: if_splits)
    with l obtain t where t: "buf1 = buf @ t" "good_label t"
      using PrepDomainLabel_result [of label buf buf1] by auto
    from 2(1) [OF True l [symmetric] refl refl \<open>v\<close>] 2(3) True l \<open>v\<close>
    obtain u where "r = (buf1 @ ''.'') @ u" "good_domain u" by (auto simp: Let_def)
    with t show ?thesis
      by (intro exI [of _ "t @ CHR ''.'' # u"]) (simp add: good_domain_dot)
  next
    case False
    with 2 show ?thesis by simp
  qed
qed

lemma label_loop_length: "length (fst (label_loop l buf)) \<le> length buf + length l"
proof (induction l buf rule: label_loop.induct)
  case (2 ch rest buf)
  then show ?case by (cases "PrepDomainLabelAscii ch") (auto split: bool.split)
qed simp

lemma PrepDomainLabel_length: "length (fst (PrepDomainLabel l buf)) \<le> length buf + length l"
  using label_loop_length [of l buf] by (auto simp: PrepDomainLabel_def Let_def split: prod.split bool.split)

lemma PrepDomain_loop_length:
  "length (fst (PrepDomain_loop s label buf)) \<le> length buf + length label + length s"
proof (induction s label buf rule: PrepDomain_loop.induct)
  case (1 label buf)
  then show ?case using PrepDomainLabel_length [of label buf] by simp
next
  case (2 ch rest label buf)
  show ?case
  proof (cases "ch = CHR ''.''")
    case True
    obtain b v where l: "PrepDomainLabel label buf = (b, v)" by fastforce
    then have "length b \<le> length buf + length label"
      using PrepDomainLabel_length [of label buf] by simp
    with 2(1) True l show ?thesis by (cases v) (fastforce simp: Let_def)+
  next
    case False
    with 2(2) show ?thesis by simp
  qed
qed

lemma PrepDomain_result:
  "PrepDomain s = (d, True) \<Longrightarrow> good_domain d \<and> length d \<le> 1023 \<or> d = [] \<and> 1023 < length s"
  using PrepDomain_loop_result [of s "[]" "[]"] PrepDomain_loop_length [of s "[]" "[]"]
  by (auto simp: PrepDomain_def Let_def split: prod.splits if_splits)

lemma PrepDomain_id: "good_domain d \<Longrightarrow> length d \<le> 1023 \<Longrightarrow> PrepDomain d = (d, True)"
  by (simp add: PrepDomain_def good_domain_def)

lemma PrepNode_result:
  "PrepNode s = (n, True) \<Longrightarrow> list_all node_char n \<and> length n \<le> 1023"
  using PrepNode_loop_result [of s "[]"]
  by (auto simp: PrepNode_def split: option.splits if_splits)

lemma PrepNode_id: "list_all node_char n \<Longrightarrow> length n \<le> 1023 \<Longrightarrow> PrepNode n = (n, True)"
  by (simp add: PrepNode_def PrepNode_loop_id)

lemma PrepResource_char_idem [simp]: "PrepResource_char (PrepResource_char c) = PrepResource_char c"
  by (simp add: PrepResource_char_def PrepResourceAscii_def)

lemma PrepResource_result:
  "PrepResource s = (r, True) \<Longrightarrow> map PrepResource_char r = r \<and> length r \<le> 1023"
  by (auto simp: PrepResource_def Let_def comp_def split: if_splits)

lemma PrepResource_id:
  "map PrepResource_char r = r \<Longrightarrow> length r \<le> 1023 \<Longrightarrow> PrepResource r = (r, True)"
  by (simp add: PrepResource_def)

subsection \<open>The invariant of a Jid\<close>

definition jid_ok :: "jid \<Rightarrow> bool" where
  "jid_ok j \<longleftrightarrow> j = Jid_empty \<or>
     list_all node_char (node_name j) \<and> length (node_name j) \<le> 1023 \<and>
     good_domain (domain_name j) \<and> length (domain_name j) \<le> 1023 \<and>
     map PrepResource_char (resource_name j) = resource_name j \<and> length (resource_name j) \<le> 1023"

lemma ValidateOrReset_cases:
  "jid_ok (ValidateOrReset j) \<or> domain_name (ValidateOrReset j) = [] \<and> 1023 < length (domain_name j)"
  using PrepNode_result [of "node_name j"] PrepDomain_result [of "domain_name j"] PrepResource_result [of "resource_name j"]
  by (auto simp: ValidateOrReset_def jid_ok_def Let_def split: prod.splits)

lemma ValidateOrReset_ok [wf_intros]: "length (domain_name j) \<le> 1023 \<Longrightarrow> jid_ok (ValidateOrReset j)"
  using ValidateOrReset_cases [of j] by simp

lemma ValidateOrReset_id: "jid_ok j \<Longrightarrow> ValidateOrReset j = j"
proof (cases "j = Jid_empty")
  case True
  have "PrepDomain [] = ([], False)"
    by (simp add: PrepDomain_def PrepDomainLabel_def)
  with True show ?thesis
    by (simp add: ValidateOrReset_def Jid_empty_def Let_def split: prod.splits)
next
  case False
  moreover assume "jid_ok j"
  ultimately show ?thesis
    by (cases j) (simp add: jid_ok_def ValidateOrReset_def PrepNode_id PrepDomain_id PrepResource_id)
qed

lemma jid_ok_IsValid: "jid_ok j \<Longrightarrow> j \<noteq> Jid_empty \<Longrightarrow> Jid_IsValid j"
  by (auto simp: jid_ok_def Jid_IsValid_def good_domain_def)

lemma jid_ok_empty [wf_intros]: "jid_ok Jid_empty"
  by (simp add: jid_ok_def)

lemma Jid_of_string_validates:
  "s \<noteq> [] \<Longrightarrow> \<exists>j. Jid_of_string s = ValidateOrReset j \<and> length (domain_name j) \<le> length s"
  by (auto simp: Jid_of_string_def Let_def substr_def min_def intro!: exI split: prod.split)

lemma Jid_of_string_cases:
  "jid_ok (Jid_of_string s) \<or> domain_name (Jid_of_string s) = [] \<and> 1023 < length s"
proof (cases "s = []")
  case True
  then show ?thesis by (simp add: Jid_of_string_def wf_intros)
next
  case False
  then obtain j where "Jid_of_string s = ValidateOrReset j" "length (domain_name j) \<le> length s"
    using Jid_of_string_validates by blast
  with ValidateOrReset_cases [of j] show ?thesis by auto
qed

lemma Jid_of_string_ok [wf_intros]: "length s \<le> 1023 \<Longrightarrow> jid_ok (Jid_of_string s)"
  using Jid_of_string_cases [of s] by simp

lemma Jid_of_parts_cases:
  "jid_ok (Jid_of_parts n d r) \<or> domain_name (Jid_of_parts n d r) = [] \<and> 1023 < length d"
  using ValidateOrReset_cases [of "Jid n d r"] by (simp add: Jid_of_parts_def)

lemma BareJid_ok [wf_intros]: "jid_ok j \<Longrightarrow> jid_ok (BareJid j)"
proof (cases "Jid_IsValid j")
  case True
  moreover assume "jid_ok j"
  ultimately have "length (domain_name j) \<le> 1023" and "jid_ok j"
    by (auto simp: jid_ok_def Jid_empty_def)
  then show ?thesis by (auto simp: BareJid_def Jid_of_parts_def intro: wf_intros)
qed (simp add: BareJid_def wf_intros)

lemma BareJid_drops_resource:
  assumes "jid_ok j"
  shows "BareJid j = Jid (node_name j) (domain_name j) []"
proof (cases "j = Jid_empty")
  case True
  then show ?thesis by (simp add: BareJid_def Jid_empty_def Jid_IsValid_def)
next
  case False
  with assms have ok: "jid_ok (Jid (node_name j) (domain_name j) [])"
    by (simp add: jid_ok_def)
  have "Jid_IsValid j" using jid_ok_IsValid [OF assms False] .
  with ValidateOrReset_id [OF ok] show ?thesis
    by (cases j) (auto simp: BareJid_def Jid_IsFull_def Jid_of_parts_def)
qed

subsection \<open>Reading back what was printed\<close>

lemma Jid_of_string_node:
  assumes "CHR ''@'' \<notin> set n" "CHR ''/'' \<notin> set n" "CHR ''/'' \<notin> set d"
  shows "Jid_of_string (n @ CHR ''@'' # d) = ValidateOrReset (Jid n d [])"
    and "Jid_of_string (n @ CHR ''@'' # d @ CHR ''/'' # r) = ValidateOrReset (Jid n d r)"
proof -
  have "find_char CHR ''@'' (n @ CHR ''@'' # d) = Some (length n)"
    and "find_char CHR ''@'' (n @ CHR ''@'' # d @ CHR ''/'' # r) = Some (length n)"
    and "find_char CHR ''/'' (n @ CHR ''@'' # d) = None"
    using assms by (simp_all add: find_char_append)
  moreover have "find_char CHR ''/'' (n @ CHR ''@'' # d @ CHR ''/'' # r) = Some (length n + 1 + length d)"
    using find_char_append [of "CHR ''/''" "n @ CHR ''@'' # d" r] assms by simp
  ultimately show "Jid_of_string (n @ CHR ''@'' # d) = ValidateOrReset (Jid n d [])"
    and "Jid_of_string (n @ CHR ''@'' # d @ CHR ''/'' # r) = ValidateOrReset (Jid n d r)"
    by (simp_all add: Jid_of_string_def substr_def)
qed

lemma find_char_after: "c \<notin> set xs \<Longrightarrow> find_char c (xs @ ys) = Some i \<Longrightarrow> length xs \<le> i"
  by (auto simp: find_char_def takeWhile_append split: if_splits)

lemma Jid_of_string_domain:
  assumes "CHR ''@'' \<notin> set d" "CHR ''/'' \<notin> set d" "d \<noteq> []"
  shows "Jid_of_string d = ValidateOrReset (Jid [] d [])"
    and "Jid_of_string (d @ CHR ''/'' # r) = ValidateOrReset (Jid [] d r)"
proof -
  show "Jid_of_string d = ValidateOrReset (Jid [] d [])"
    using assms by (simp add: Jid_of_string_def substr_def)
  have slash: "find_char CHR ''/'' (d @ CHR ''/'' # r) = Some (length d)"
    using assms by (simp add: find_char_append)
  show "Jid_of_string (d @ CHR ''/'' # r) = ValidateOrReset (Jid [] d r)"
  proof (cases "find_char CHR ''@'' (d @ CHR ''/'' # r)")
    case None
    with slash show ?thesis by (simp add: Jid_of_string_def substr_def)
  next
    case (Some a)
    then have "\<not> a < length d"
      using find_char_after [OF assms(1)] by (simp add: not_less)
    with slash Some show ?thesis by (simp add: Jid_of_string_def substr_def)
  qed
qed

lemma good_domain_no_separator:
  assumes "good_domain d"
  shows "CHR ''/'' \<notin> set d \<and> CHR ''@'' \<notin> set d"
proof -
  have "list_all (\<lambda>c. c = CHR ''.'' \<or> label_char c) d"
    using assms by (simp only: good_domain_def)
  then have all: "c = CHR ''.'' \<or> label_char c" if "c \<in> set d" for c
    using that by (simp add: list_all_iff)
  show ?thesis
    using all [of "CHR ''/''"] all [of "CHR ''@''"] label_char_no_separator [of "CHR ''/''"]
      label_char_no_separator [of "CHR ''@''"] by auto
qed

lemma node_no_separator: "list_all node_char n \<Longrightarrow> CHR ''/'' \<notin> set n \<and> CHR ''@'' \<notin> set n"
  by (auto simp: list_all_iff dest: node_char_no_separator)

lemma Jid_Str_parse: "jid_ok j \<Longrightarrow> Jid_of_string (Jid_Str j) = j"
proof (cases "j = Jid_empty")
  case True
  then show ?thesis by (simp add: Jid_Str_def Jid_empty_def Jid_IsValid_def Jid_of_string_def)
next
  case False
  assume ok: "jid_ok j"
  then have v: "domain_name j \<noteq> []"
    using False jid_ok_IsValid by (simp add: Jid_IsValid_def)
  have "list_all node_char (node_name j)" "good_domain (domain_name j)"
    using ok False by (simp_all only: jid_ok_def simp_thms)
  note sep = node_no_separator [OF this(1)] good_domain_no_separator [OF this(2)]
  obtain n dom r where j: "j = Jid n dom r" by (cases j)
  note same = ValidateOrReset_id [OF ok]
  show ?thesis
  proof (cases "n = []")
    case True
    then show ?thesis
      using v sep same Jid_of_string_domain(1) [of dom] Jid_of_string_domain(2) [of dom r] by (cases "r = []") (simp_all add: j Jid_Str_def Jid_IsValid_def)
  next
    case False
    then show ?thesis
      using v sep same Jid_of_string_node(1) [of n dom] Jid_of_string_node(2) [of n dom r] by (cases "r = []") (simp_all add: j Jid_Str_def Jid_IsValid_def)
  qed
qed

lemma Jid_Str_parse_valid:
  assumes "jid_ok j \<or> domain_name j = []"
  shows "Jid_of_string (Jid_Str j) = (if Jid_IsValid j then j else Jid_empty)"
proof (cases "Jid_IsValid j")
  case True
  with assms show ?thesis using Jid_Str_parse by (auto simp: Jid_IsValid_def)
next
  case False
  then show ?thesis by (simp add: Jid_Str_def Jid_of_string_def)
qed

subsection \<open>Properties\<close>

text \<open>C13: every valid Jid that can be constructed, from a string or from its parts, is printed by
  \<open>Str\<close> to a string that the parser reads back as the same Jid; any other is printed as the
  empty string and read back as the empty Jid. So \<open>Str\<close> is injective on valid Jids.\<close>

theorem jid_string_roundtrip:
  "Jid_of_string (Jid_Str (Jid_of_string s)) = (if Jid_IsValid (Jid_of_string s) then Jid_of_string s else Jid_empty) \<and>
   Jid_of_string (Jid_Str (Jid_of_parts n d r)) = (if Jid_IsValid (Jid_of_parts n d r) then Jid_of_parts n d r else Jid_empty)"
  using Jid_Str_parse_valid Jid_of_string_cases [of s] Jid_of_parts_cases [of n d r] by blast


text \<open>The bare Jid of a constructed Jid keeps node and domain and has no resource; taking it
  twice changes nothing, and two Jids have the same bare Jid exactly when \<open>BareEquals\<close> holds.\<close>

theorem bare_jid_laws:
  assumes "jid_ok j" and "jid_ok k"
  shows "BareJid j = Jid (node_name j) (domain_name j) [] \<and> Jid_IsBare (BareJid j) \<and>
    BareJid (BareJid j) = BareJid j \<and> (BareJid j = BareJid k \<longleftrightarrow> BareEquals j k)"
proof -
  have "Jid_IsBare (Jid (node_name j) (domain_name j) [])"
    using assms(1) by (auto simp: Jid_IsBare_def Jid_IsEmpty_def Jid_IsValid_def jid_ok_def good_domain_def Jid_empty_def)
  with BareJid_drops_resource [OF assms(1)] BareJid_drops_resource [OF assms(2)]
    BareJid_drops_resource [OF BareJid_ok [OF assms(1)]]
  show ?thesis by (auto simp: BareEquals_def)
qed

theorem bare_jid_laws_witness:
  "BareEquals (Jid_of_string ''a@b/c'') (Jid_of_string ''a@b/d'') =
   (BareJid (Jid_of_string ''a@b/c'') = BareJid (Jid_of_string ''a@b/d''))"
proof -
  have "jid_ok (Jid_of_string ''a@b/c'')" "jid_ok (Jid_of_string ''a@b/d'')"
    by (simp_all add: wf_intros)
  from bare_jid_laws [OF this] show ?thesis by blast
qed

subsection \<open>Where the code departs from its intent\<close>

text \<open>\<open>PrepResource\<close> accepts a control character and puts a zero byte in its place.\<close>

lemma resource_control_char_accepted:
  "PrepResource [CHR ''a'', CHR 0x07, CHR ''b''] = ([CHR ''a'', NUL, CHR ''b''], True)"
  by (simp add: PrepResource_def PrepResource_char_def PrepResourceAscii_def)

text \<open>A well-formed domain that is too long is not rejected: the Jid keeps its node and its
  resource and only loses the domain, where a node that is too long empties the Jid.\<close>

lemma long_domain_not_rejected:
  assumes "good_domain d" "1023 < length d"
  shows "Jid_of_parts ''u'' d ''r'' = Jid ''u'' [] ''r''"
proof -
  have "PrepDomain d = ([], True)"
    using assms by (simp add: PrepDomain_def good_domain_def)
  moreover have "PrepNode ''u'' = (''u'', True)" "PrepResource ''r'' = (''r'', True)"
    by code_simp+
  ultimately show ?thesis by (simp add: Jid_of_parts_def ValidateOrReset_def)
qed

end
