(* ===== verification/Base64s.thy ===== *)
theory Base64s
  imports Prelude
begin

unbundle bit_operations_syntax

text \<open>
  Base64, \<open>talk/base/base64.cc\<close>. Bytes are \<^typ>\<open>8 word\<close>s and the shifts and masks are the
  ones of the code; characters are bytes of the tables. The decoder's flags are the integer
  of the code, taken apart with the three masks. \<open>GetNextQuantum\<close> is a walk over the rest
  of the data with the position in it.
\<close>

definition Base64Table :: string where
  "Base64Table = ''ABCDEFGHIJKLMNOPQRSTUVWXYZabcdefghijklmnopqrstuvwxyz0123456789+/''"

definition kPad :: char where
  "kPad = CHR ''=''"

definition pd :: byte where "pd = 0xFD"
definition sp :: byte where "sp = 0xFE"
definition il :: byte where "il = 0xFF"

definition DecodeTable :: "byte list" where
  "DecodeTable =
     replicate 9 il @ replicate 5 sp @ replicate 18 il @ [sp] @ replicate 10 il @
     [62, il, il, il, 63, 52, 53, 54, 55, 56, 57, 58, 59, 60, 61, il, il, il, pd, il, il, il] @
     [0, 1, 2, 3, 4, 5, 6, 7, 8, 9, 10, 11, 12, 13, 14, 15, 16, 17, 18, 19, 20, 21, 22, 23, 24, 25] @
     replicate 6 il @
     [26, 27, 28, 29, 30, 31, 32, 33, 34, 35, 36, 37, 38, 39, 40, 41, 42, 43, 44, 45, 46, 47, 48,
      49, 50, 51] @
     replicate 133 il"

definition IsBase64Char :: "char \<Rightarrow> bool" where
  "IsBase64Char ch \<longleftrightarrow>
     (CHR ''A'' \<le> ch \<and> ch \<le> CHR ''Z'') \<or> (CHR ''a'' \<le> ch \<and> ch \<le> CHR ''z'') \<or>
     (CHR ''0'' \<le> ch \<and> ch \<le> CHR ''9'') \<or> ch = CHR ''+'' \<or> ch = CHR ''/''"

text \<open>
  \<open>GetNextBase64Char\<close> for a non-null \<open>next_ch\<close>; \<open>strchr\<close> also finds the terminating zero,
  where the code reads past the table: \<^const>\<open>None\<close>. Otherwise the value and the result.
\<close>

definition GetNextBase64Char :: "char \<Rightarrow> (char option) option" where
  "GetNextBase64Char ch =
     (if ch = NUL then None
      else case find_char ch Base64Table of
          None \<Rightarrow> Some None
        | Some i \<Rightarrow> Some (Some (if i + 1 < length Base64Table then Base64Table ! (i + 1) else Base64Table ! 0)))"

definition IsBase64Encoded :: "string \<Rightarrow> bool" where
  "IsBase64Encoded str \<longleftrightarrow> list_all IsBase64Char str"

subsection \<open>Encoding\<close>

definition b64 :: "byte \<Rightarrow> char" where
  "b64 c = Base64Table ! unat c"

fun encode_loop :: "byte list \<Rightarrow> string" where
  "encode_loop [] = []"
| "encode_loop [a] = [b64 (drop_bit 2 a AND 0x3F), b64 (push_bit 4 a AND 0x3F), kPad, kPad]"
| "encode_loop [a, b] =
     [b64 (drop_bit 2 a AND 0x3F), b64 ((push_bit 4 a AND 0x3F) OR (drop_bit 4 b AND 0x0F)),
      b64 (push_bit 2 b AND 0x3F), kPad]"
| "encode_loop (a # b # c # rest) =
     b64 (drop_bit 2 a AND 0x3F) # b64 ((push_bit 4 a AND 0x3F) OR (drop_bit 4 b AND 0x0F)) #
     b64 ((push_bit 2 b AND 0x3F) OR (drop_bit 6 c AND 0x03)) # b64 (c AND 0x3F) # encode_loop rest"

definition Base64_Encode :: "string \<Rightarrow> string" where
  "Base64_Encode data = encode_loop (map char_byte data)"

subsection \<open>Decoding\<close>

type_synonym decode_flags = "32 word"

definition DO_PARSE_STRICT :: decode_flags where "DO_PARSE_STRICT = 1"
definition DO_PARSE_WHITE :: decode_flags where "DO_PARSE_WHITE = 2"
definition DO_PARSE_ANY :: decode_flags where "DO_PARSE_ANY = 3"
definition DO_PARSE_MASK :: decode_flags where "DO_PARSE_MASK = 3"
definition DO_PAD_YES :: decode_flags where "DO_PAD_YES = 4"
definition DO_PAD_ANY :: decode_flags where "DO_PAD_ANY = 8"
definition DO_PAD_NO :: decode_flags where "DO_PAD_NO = 12"
definition DO_PAD_MASK :: decode_flags where "DO_PAD_MASK = 12"
definition DO_TERM_BUFFER :: decode_flags where "DO_TERM_BUFFER = 16"
definition DO_TERM_CHAR :: decode_flags where "DO_TERM_CHAR = 32"
definition DO_TERM_ANY :: decode_flags where "DO_TERM_ANY = 48"
definition DO_TERM_MASK :: decode_flags where "DO_TERM_MASK = 48"
definition DO_STRICT :: decode_flags where "DO_STRICT = DO_PARSE_STRICT OR DO_PAD_YES OR DO_TERM_BUFFER"
definition DO_LAX :: decode_flags where "DO_LAX = DO_PARSE_ANY OR DO_PAD_ANY OR DO_TERM_CHAR"

lemmas decode_flag_defs = DO_PARSE_STRICT_def DO_PARSE_WHITE_def DO_PARSE_ANY_def DO_PARSE_MASK_def
  DO_PAD_YES_def DO_PAD_ANY_def DO_PAD_NO_def DO_PAD_MASK_def DO_TERM_BUFFER_def DO_TERM_CHAR_def
  DO_TERM_ANY_def DO_TERM_MASK_def DO_STRICT_def DO_LAX_def

record quantum =
  q_bytes :: "byte list" \<comment> \<open>the first \<open>byte_len\<close> entries of \<open>qbuf\<close>\<close>
  q_pad_len :: nat
  q_pad_start :: nat
  q_dpos :: nat

text \<open>
  One round of the loop of \<open>GetNextQuantum\<close> on the character at \<open>dpos\<close>: \<^const>\<open>None\<close> is a
  \<open>break\<close> or the end of the loop condition, otherwise \<open>dpos\<close> has been incremented.
\<close>

definition quantum_step :: "decode_flags \<Rightarrow> bool \<Rightarrow> char \<Rightarrow> quantum \<Rightarrow> quantum option" where
  "quantum_step parse_flags illegal_pads ch q =
     (let byte_len = length (q_bytes q);
          v = DecodeTable ! byte_of ch;
          skip = Some (q\<lparr>q_dpos := q_dpos q + 1\<rparr>) in
      if \<not> byte_len < 4 then None
      else if v = il \<or> (illegal_pads \<and> v = pd) then
        (if parse_flags \<noteq> DO_PARSE_ANY then None else skip)
      else if v = sp then
        (if parse_flags = DO_PARSE_STRICT then None else skip)
      else if v = pd then
        (if byte_len < 2 then (if parse_flags \<noteq> DO_PARSE_ANY then None else skip)
         else if byte_len + q_pad_len q \<ge> 4 then
           (if parse_flags \<noteq> DO_PARSE_ANY then None else skip)
         else Some (q\<lparr>q_pad_len := q_pad_len q + 1,
                      q_pad_start := (if q_pad_len q + 1 = 1 then q_dpos q else q_pad_start q),
                      q_dpos := q_dpos q + 1\<rparr>))
      else if q_pad_len q > 0 \<and> parse_flags \<noteq> DO_PARSE_ANY then None
      else Some (q\<lparr>q_pad_len := 0, q_bytes := q_bytes q @ [v], q_dpos := q_dpos q + 1\<rparr>))"

text \<open>The loop; the list is the data from \<open>dpos\<close> on.\<close>

fun quantum_loop :: "decode_flags \<Rightarrow> bool \<Rightarrow> string \<Rightarrow> quantum \<Rightarrow> quantum" where
  "quantum_loop parse_flags illegal_pads [] q = q"
| "quantum_loop parse_flags illegal_pads (ch # rest) q =
     (case quantum_step parse_flags illegal_pads ch q of
        None \<Rightarrow> q
      | Some q1 \<Rightarrow> quantum_loop parse_flags illegal_pads rest q1)"

text \<open>Result: \<open>byte_len\<close>, \<open>dpos\<close>, \<open>qbuf\<close> and \<open>padded\<close>.\<close>

definition GetNextQuantum ::
  "decode_flags \<Rightarrow> bool \<Rightarrow> string \<Rightarrow> nat \<Rightarrow> nat \<times> nat \<times> byte list \<times> bool" where
  "GetNextQuantum parse_flags illegal_pads data dpos =
     (let q = quantum_loop parse_flags illegal_pads (drop dpos data)
                \<lparr>q_bytes = [], q_pad_len = 0, q_pad_start = 0, q_dpos = dpos\<rparr>;
          byte_len = length (q_bytes q);
          qbuf = q_bytes q @ replicate (4 - byte_len) 0 in
      if 4 = byte_len + q_pad_len q then (byte_len, q_dpos q, qbuf, True)
      else (byte_len, if q_pad_len q \<noteq> 0 then q_pad_start q else q_dpos q, qbuf, False))"

text \<open>The bytes one quantum yields, and the bits left in \<open>c\<close>.\<close>

definition quantum_bytes :: "nat \<Rightarrow> byte list \<Rightarrow> byte list \<times> byte" where
  "quantum_bytes qlen qbuf =
     (let c0 = push_bit 2 (qbuf ! 0) OR (drop_bit 4 (qbuf ! 1) AND 0x3);
          c1 = (push_bit 4 (qbuf ! 1) AND 0xF0) OR (drop_bit 2 (qbuf ! 2) AND 0xF);
          c2 = (push_bit 6 (qbuf ! 2) AND 0xC0) OR qbuf ! 3 in
      if qlen \<ge> 2 then
        (if qlen \<ge> 3 then (if qlen \<ge> 4 then ([c0, c1, c2], 0) else ([c0, c1], c2))
         else ([c0], c1))
      else ([], c0))"

text \<open>
  The \<open>while\<close> loop. It ends: a full quantum has consumed at least one character.
\<close>

definition quantum_ok :: "quantum \<Rightarrow> bool" where
  "quantum_ok q \<longleftrightarrow> length (q_bytes q) \<le> 4 \<and> (length (q_bytes q) = 4 \<longrightarrow> q_pad_len q = 0)"

lemma quantum_step_progress:
  "quantum_step pf ip ch q = Some q1 \<Longrightarrow> quantum_ok q \<Longrightarrow>
   quantum_ok q1 \<and> q_dpos q1 = q_dpos q + 1 \<and> length (q_bytes q1) \<le> length (q_bytes q) + 1"
  by (auto simp: quantum_step_def quantum_ok_def Let_def split: if_splits)

lemma quantum_loop_progress:
  "quantum_ok q \<Longrightarrow> quantum_ok (quantum_loop pf ip data q) \<and>
   q_dpos q + length (q_bytes (quantum_loop pf ip data q)) \<le>
     q_dpos (quantum_loop pf ip data q) + length (q_bytes q)"
proof (induction data arbitrary: q)
  case (Cons ch rest)
  show ?case
  proof (cases "quantum_step pf ip ch q")
    case (Some q1)
    with quantum_step_progress [OF Some Cons.prems] Cons.IH [of q1] show ?thesis by auto
  qed (use Cons.prems in simp)
qed simp

lemma GetNextQuantum_progress:
  assumes "GetNextQuantum pf ip data dpos = (qlen, dpos1, qbuf, padded)" "\<not> qlen < 4"
  shows "dpos < dpos1"
  using assms quantum_loop_progress [of "\<lparr>q_bytes = [], q_pad_len = 0, q_pad_start = 0, q_dpos = dpos\<rparr>" pf ip "drop dpos data"]
  by (auto simp: GetNextQuantum_def Let_def quantum_ok_def split: if_splits)

function decode_loop :: "decode_flags \<Rightarrow> string \<Rightarrow> nat \<Rightarrow> byte list \<Rightarrow> byte list \<times> nat \<times> bool" where
  "decode_loop flags data dpos result =
     (if \<not> dpos < length data then (result, dpos, True)
      else let (qlen, dpos1, qbuf, padded) =
               GetNextQuantum (flags AND DO_PARSE_MASK) (DO_PAD_NO = flags AND DO_PAD_MASK) data dpos;
             (bytes, c) = quantum_bytes qlen qbuf;
             result1 = result @ bytes in
         if qlen < 4 then
           (result1, dpos1,
             \<not> (DO_TERM_ANY \<noteq> flags AND DO_TERM_MASK \<and> c \<noteq> 0) \<and>
             \<not> (DO_PAD_YES = flags AND DO_PAD_MASK \<and> \<not> padded))
         else decode_loop flags data dpos1 result1)"
  by pat_completeness auto
termination
  by (relation "measure (\<lambda>(flags, data, dpos, result). length data - dpos)")
     (auto dest: GetNextQuantum_progress [OF sym] intro: diff_less_mono2)

declare decode_loop.simps [simp del]

text \<open>Result: success, the decoded string, \<open>data_used\<close>.\<close>

definition DecodeFromArray :: "string \<Rightarrow> decode_flags \<Rightarrow> bool \<times> string \<times> nat" where
  "DecodeFromArray data flags =
     (let (result, dpos, success) = decode_loop flags data 0 [] in
      (success \<and> \<not> (DO_TERM_BUFFER = flags AND DO_TERM_MASK \<and> dpos \<noteq> length data),
       map byte_char result, dpos))"

definition Base64_Decode :: "string \<Rightarrow> decode_flags \<Rightarrow> string" where
  "Base64_Decode data flags = fst (snd (DecodeFromArray data flags))"

subsection \<open>The tables\<close>

lemma length_Base64Table: "length Base64Table = 64"
  by (simp add: Base64Table_def)

lemma length_DecodeTable: "length DecodeTable = 256"
  by (simp add: DecodeTable_def)

lemma decode_table_all:
  "list_all (\<lambda>n. DecodeTable ! byte_of (Base64Table ! n) = of_nat n) [0..<64]"
  by code_simp

lemma DecodeTable_b64:
  assumes "unat c < 64"
  shows "DecodeTable ! byte_of (b64 c) = c"
  using assms decode_table_all by (simp add: b64_def list_all_iff)

lemma DecodeTable_pad: "DecodeTable ! byte_of kPad = pd"
  by code_simp

subsection \<open>Bits\<close>

lemma mask_numerals:
  "(0x3F :: byte) = mask 6" "(0x0F :: byte) = mask 4" "(0x03 :: byte) = mask 2"
  by (simp_all add: mask_eq_exp_minus_1)

lemma sextets_less:
  "unat (x AND 0x3F :: byte) < 64" "unat ((x AND 0x3F) OR (y AND 0x0F) :: byte) < 64"
  "unat ((x AND 0x3F) OR (y AND 0x03) :: byte) < 64"
proof -
  have less: "unat z < 64" if "z = take_bit 6 z" for z :: byte
  proof -
    have "unat (take_bit 6 z) < 2 ^ 6" using take_bit_nat_less_exp [of 6 "unat z"] by (simp add: unsigned_take_bit_eq)
    with that show ?thesis by simp
  qed
  show "unat (x AND 0x3F :: byte) < 64" "unat ((x AND 0x3F) OR (y AND 0x0F) :: byte) < 64"
    "unat ((x AND 0x3F) OR (y AND 0x03) :: byte) < 64"
    by (rule less, rule bit_word_eqI, auto simp: mask_numerals bit_simps)+
qed

lemma byte_eqI:
  assumes "\<And>n. n \<in> {0, 1, 2, 3, 4, 5, 6, 7} \<Longrightarrow> bit a n = bit (b :: byte) n"
  shows "a = b"
proof (rule bit_word_eqI)
  fix n assume "n < LENGTH(8)"
  then have "n \<in> {0, 1, 2, 3, 4, 5, 6, 7}" by auto
  then show "bit a n = bit b n" by (rule assms)
qed

lemma octet_numerals: "(0xF0 :: byte) = push_bit 4 (mask 4)" "(0xC0 :: byte) = push_bit 6 (mask 2)"
    "(0xF :: byte) = mask 4" "(0x3 :: byte) = mask 2"
  by (simp_all add: mask_eq_exp_minus_1)

lemma octet_0:
  "push_bit 2 (drop_bit 2 a AND 0x3F) OR
     (drop_bit 4 ((push_bit 4 a AND 0x3F) OR (drop_bit 4 b AND 0x0F)) AND 0x3) = (a :: byte)"
  by (rule byte_eqI) (auto simp: mask_numerals octet_numerals bit_simps simp flip: numeral_2_eq_2 numeral_3_eq_3)

lemma octet_0_last:
  "push_bit 2 (drop_bit 2 a AND 0x3F) OR (drop_bit 4 (push_bit 4 a AND 0x3F) AND 0x3) = (a :: byte)"
  by (rule byte_eqI) (auto simp: mask_numerals octet_numerals bit_simps simp flip: numeral_2_eq_2 numeral_3_eq_3)

lemma octet_1:
  "(push_bit 4 ((push_bit 4 a AND 0x3F) OR (drop_bit 4 b AND 0x0F)) AND 0xF0) OR
     (drop_bit 2 ((push_bit 2 b AND 0x3F) OR (drop_bit 6 c AND 0x03)) AND 0xF) = (b :: byte)"
  by (rule byte_eqI) (auto simp: mask_numerals octet_numerals bit_simps simp flip: numeral_2_eq_2 numeral_3_eq_3)

lemma octet_1_last:
  "(push_bit 4 ((push_bit 4 a AND 0x3F) OR (drop_bit 4 b AND 0x0F)) AND 0xF0) OR
     (drop_bit 2 (push_bit 2 b AND 0x3F) AND 0xF) = (b :: byte)"
  by (rule byte_eqI) (auto simp: mask_numerals octet_numerals bit_simps simp flip: numeral_2_eq_2 numeral_3_eq_3)

lemma octet_2:
  "(push_bit 6 ((push_bit 2 b AND 0x3F) OR (drop_bit 6 c AND 0x03)) AND 0xC0) OR (c AND 0x3F) = (c :: byte)"
  by (rule byte_eqI) (auto simp: mask_numerals octet_numerals bit_simps simp flip: numeral_2_eq_2 numeral_3_eq_3)

lemma no_bits_left:
  "(push_bit 4 (push_bit 4 a AND 0x3F) AND 0xF0) OR (drop_bit 2 0 AND 0xF) = (0 :: byte)"
  "(push_bit 6 (push_bit 2 b AND 0x3F) AND 0xC0) OR 0 = (0 :: byte)"
  by (rule byte_eqI, auto simp: mask_numerals octet_numerals bit_simps simp flip: numeral_2_eq_2 numeral_3_eq_3)+

subsection \<open>Decoding what was encoded\<close>

lemma sextet_not_special: "unat c < 64 \<Longrightarrow> c \<noteq> il \<and> c \<noteq> sp \<and> c \<noteq> pd"
  by (auto simp: il_def sp_def pd_def)

lemma specials_distinct [simp]: "il \<noteq> sp" "il \<noteq> pd" "sp \<noteq> pd" "sp \<noteq> il" "pd \<noteq> il" "pd \<noteq> sp"
  by (simp_all add: il_def sp_def pd_def)

lemma quantum_step_data:
  "length bs < 4 \<Longrightarrow> unat c < 64 \<Longrightarrow>
   quantum_step pf ip (b64 c) \<lparr>q_bytes = bs, q_pad_len = 0, q_pad_start = p, q_dpos = d\<rparr> =
     Some \<lparr>q_bytes = bs @ [c], q_pad_len = 0, q_pad_start = p, q_dpos = d + 1\<rparr>"
  using sextet_not_special [of c] by (simp add: quantum_step_def DecodeTable_b64)

lemma quantum_step_full:
  "length bs = 4 \<Longrightarrow> quantum_step pf ip ch \<lparr>q_bytes = bs, q_pad_len = n, q_pad_start = p, q_dpos = d\<rparr> = None"
  by (simp add: quantum_step_def)

lemma quantum_step_pad:
  "2 \<le> length bs \<Longrightarrow> length bs + n < 4 \<Longrightarrow>
   quantum_step pf False kPad \<lparr>q_bytes = bs, q_pad_len = n, q_pad_start = p, q_dpos = d\<rparr> =
     Some \<lparr>q_bytes = bs, q_pad_len = n + 1, q_pad_start = (if n = 0 then d else p), q_dpos = d + 1\<rparr>"
  by (simp add: quantum_step_def DecodeTable_pad Let_def)

lemma quantum_loop_full:
  "length bs = 4 \<Longrightarrow> quantum_loop pf ip rest \<lparr>q_bytes = bs, q_pad_len = n, q_pad_start = p, q_dpos = d\<rparr> =
     \<lparr>q_bytes = bs, q_pad_len = n, q_pad_start = p, q_dpos = d\<rparr>"
  by (cases rest) (simp_all add: quantum_step_full)

lemmas quantum_steps = quantum_step_data quantum_step_pad quantum_loop_full

lemma GetNextQuantum_4:
  assumes "drop d data = b64 v # b64 x # b64 y # b64 z # rest"
    and "unat v < 64" "unat x < 64" "unat y < 64" "unat z < 64"
  shows "GetNextQuantum pf ip data d = (4, d + 4, [v, x, y, z], True)"
  using assms by (simp add: GetNextQuantum_def quantum_steps)

lemma GetNextQuantum_3:
  assumes "drop d data = [b64 v, b64 x, b64 y, kPad]"
    and "unat v < 64" "unat x < 64" "unat y < 64"
  shows "GetNextQuantum pf False data d = (3, d + 4, [v, x, y, 0], True)"
  using assms by (simp add: GetNextQuantum_def quantum_steps)

lemma GetNextQuantum_2:
  assumes "drop d data = [b64 v, b64 x, kPad, kPad]" and "unat v < 64" "unat x < 64"
  shows "GetNextQuantum pf False data d = (2, d + 4, [v, x, 0, 0], True)"
  using assms by (simp add: GetNextQuantum_def quantum_steps eval_nat_numeral)

lemma decode_loop_encode:
  assumes "DO_PAD_NO \<noteq> flags AND DO_PAD_MASK"
  shows "decode_loop flags (pre @ encode_loop bs) (length pre) result =
    (result @ bs, length pre + length (encode_loop bs), True)"
  using assms
proof (induction bs arbitrary: pre result rule: encode_loop.induct)
  case 1
  show ?case by (simp add: decode_loop.simps)
next
  case (2 a)
  show ?case
    using 2 sextets_less octet_0_last [of a] no_bits_left(1) [of a]
    by (subst decode_loop.simps)
       (simp add: GetNextQuantum_2 quantum_bytes_def Let_def)
next
  case (3 a b)
  show ?case
    using 3 sextets_less octet_0 [of a b] octet_1_last [of a b] no_bits_left(2) [of b]
    by (subst decode_loop.simps)
       (simp add: GetNextQuantum_3 quantum_bytes_def Let_def)
next
  case (4 a b c rest)
  let ?v = "drop_bit 2 a AND 0x3F" and ?x = "(push_bit 4 a AND 0x3F) OR (drop_bit 4 b AND 0x0F)"
    and ?y = "(push_bit 2 b AND 0x3F) OR (drop_bit 6 c AND 0x03)" and ?z = "c AND 0x3F"
  let ?data = "pre @ encode_loop (a # b # c # rest)"
  have "GetNextQuantum (flags AND DO_PARSE_MASK) (DO_PAD_NO = flags AND DO_PAD_MASK) ?data (length pre) =
      (4, length pre + 4, [?v, ?x, ?y, ?z], True)"
    by (rule GetNextQuantum_4) (simp_all add: sextets_less)
  moreover have "quantum_bytes 4 [?v, ?x, ?y, ?z] = ([a, b, c], 0)"
    using octet_0 [of a b] octet_1 [of a b c] octet_2 [of b c] by (simp add: quantum_bytes_def Let_def)
  moreover have "decode_loop flags ?data (length pre + 4) (result @ [a, b, c]) =
      (result @ a # b # c # rest, length ?data, True)"
    using 4(1) [of "pre @ [b64 ?v, b64 ?x, b64 ?y, b64 ?z]" "result @ [a, b, c]"] assms
    by (simp add: eval_nat_numeral)
  ultimately show ?case
    by (subst decode_loop.simps) simp
qed

lemma length_encode_loop: "length (encode_loop bs) = (length bs + 2) div 3 * 4"
proof (induction bs rule: encode_loop.induct)
  case (4 a b c rest)
  have "(length (a # b # c # rest) + 2) div 3 = (length rest + 2) div 3 + 1" by simp
  with 4 show ?case by (simp only: encode_loop.simps list.size) presburger
qed simp_all

subsection \<open>Properties\<close>

text \<open>C15: decoding what \<open>Encode\<close> produced gives the data back, consumes the whole text and
  reports success, under every combination of flags that does not forbid padding.\<close>

theorem base64_roundtrip:
  assumes "DO_PAD_NO \<noteq> flags AND DO_PAD_MASK"
  shows "DecodeFromArray (Base64_Encode data) flags = (True, data, length (Base64_Encode data))"
  using decode_loop_encode [OF assms, of "[]" "map char_byte data" "[]"]
  by (simp add: DecodeFromArray_def Base64_Encode_def comp_def)

theorem base64_roundtrip_witness:
  "DecodeFromArray (Base64_Encode ''PLAIN'') DO_STRICT = (True, ''PLAIN'', 8)"
  using base64_roundtrip [of DO_STRICT "''PLAIN''"]
  by (simp add: decode_flag_defs Base64_Encode_def length_encode_loop)

text \<open>\<open>EncodeFromArray\<close> fills exactly the \<open>(len + 2) / 3 * 4\<close> characters it has reserved:
  every position is written and none beyond, and only base64 characters and pads are written.\<close>

theorem base64_encode_fills_buffer:
  "length (Base64_Encode data) = (length data + 2) div 3 * 4 \<and>
   list_all (\<lambda>c. IsBase64Char c \<or> c = kPad) (Base64_Encode data)"
proof -
  have tab: "list_all IsBase64Char Base64Table" by code_simp
  have chr: "IsBase64Char (b64 c)" if "unat c < 64" for c
  proof -
    from that have "b64 c \<in> set Base64Table"
      by (simp add: b64_def length_Base64Table)
    with tab show ?thesis by (simp add: list_all_iff)
  qed
  have "list_all (\<lambda>c. IsBase64Char c \<or> c = kPad) (encode_loop bs)" for bs
    by (induction bs rule: encode_loop.induct) (simp_all add: chr sextets_less)
  then show ?thesis by (simp add: Base64_Encode_def length_encode_loop)
qed

end
