(* ===== verification/Sasl.thy ===== *)
theory Sasl
  imports XmlElements XmppConstants Jids Base64s
begin

text \<open>
  SASL: the base class \<open>SaslMechanism\<close> (\<open>saslmechanism.cc\<close>), the mechanisms PLAIN and cookie
  (\<open>saslplainmechanism.h\<close>, \<open>saslcookiemechanism.h\<close>), the interface \<open>SaslHandler\<close> and
  \<open>PlainSaslHandler\<close>. An object is a datatype value with the members of its class; the classes
  are meant to be subclassed by the application, which the constructors \<open>CustomMechanism\<close> and
  \<open>CustomSaslHandler\<close> stand for: they carry the overriding functions. A \<open>CryptString\<close> is its text.
\<close>

subsection \<open>Mechanisms\<close>

datatype sasl_mechanism =
    SaslPlainMechanism jid string
  | SaslCookieMechanism string string string string \<comment> \<open>mechanism, username, cookie, token service\<close>
  | CustomMechanism string "xml_element option" "xml_element \<Rightarrow> xml_element option"

definition default_StartSaslAuth :: "xml_element option" where
  "default_StartSaslAuth = Some (new_element_ns QN_SASL_AUTH True)"

definition default_HandleSaslChallenge :: "xml_element \<Rightarrow> xml_element option" where
  "default_HandleSaslChallenge challenge = Some (new_element_ns QN_SASL_ABORT True)"

fun GetMechanismName :: "sasl_mechanism \<Rightarrow> string" where
  "GetMechanismName (SaslPlainMechanism user_jid password) = ''PLAIN''"
| "GetMechanismName (SaslCookieMechanism mechanism username cookie token_service) = mechanism"
| "GetMechanismName (CustomMechanism name start challenge) = name"

definition plain_credential :: "jid \<Rightarrow> string \<Rightarrow> string" where
  "plain_credential user_jid password = [NUL] @ node_name user_jid @ [NUL] @ password"

definition cookie_credential :: "string \<Rightarrow> string \<Rightarrow> string" where
  "cookie_credential username cookie = [NUL] @ username @ [NUL] @ cookie"

fun StartSaslAuth :: "sasl_mechanism \<Rightarrow> xml_element option" where
  "StartSaslAuth (SaslPlainMechanism user_jid password) =
     (let el = new_element_ns QN_SASL_AUTH True;
          el = AddAttr el QN_MECHANISM ''PLAIN'' in
      Some (AddText el (Base64_Encode (plain_credential user_jid password))))"
| "StartSaslAuth (SaslCookieMechanism mechanism username cookie token_service) =
     (let el = new_element_ns QN_SASL_AUTH True;
          el = AddAttr el QN_MECHANISM mechanism;
          el = (if token_service \<noteq> [] then AddAttr el QN_GOOGLE_AUTH_SERVICE token_service else el) in
      Some (AddText el (Base64_Encode (cookie_credential username cookie))))"
| "StartSaslAuth (CustomMechanism name start challenge) = start"

fun HandleSaslChallenge :: "sasl_mechanism \<Rightarrow> xml_element \<Rightarrow> xml_element option" where
  "HandleSaslChallenge (CustomMechanism name start respond) challenge = respond challenge"
| "HandleSaslChallenge _ challenge = default_HandleSaslChallenge challenge"

subsection \<open>Handlers\<close>

datatype sasl_handler =
    PlainSaslHandler jid string bool \<comment> \<open>jid, password, \<open>allow_plain\<close>\<close>
  | CustomSaslHandler "string list \<Rightarrow> bool \<Rightarrow> string" "string \<Rightarrow> sasl_mechanism option"

fun ChooseBestSaslMechanism :: "sasl_handler \<Rightarrow> string list \<Rightarrow> bool \<Rightarrow> string" where
  "ChooseBestSaslMechanism (PlainSaslHandler user_jid password allow_plain) mechanisms encrypted =
     (if \<not> encrypted \<and> \<not> allow_plain then []
      else if ''PLAIN'' \<notin> set mechanisms then [] else ''PLAIN'')"
| "ChooseBestSaslMechanism (CustomSaslHandler pick mk) mechanisms encrypted = pick mechanisms encrypted"

fun CreateSaslMechanism :: "sasl_handler \<Rightarrow> string \<Rightarrow> sasl_mechanism option" where
  "CreateSaslMechanism (PlainSaslHandler user_jid password allow_plain) mechanism =
     (if mechanism = ''PLAIN'' then Some (SaslPlainMechanism user_jid password) else None)"
| "CreateSaslMechanism (CustomSaslHandler pick mk) mechanism = mk mechanism"

text \<open>The contract that the login relies on: a mechanism that was chosen can be created.\<close>

locale sasl_provider =
  fixes pick :: "'h \<Rightarrow> string list \<Rightarrow> bool \<Rightarrow> string"
    and mk :: "'h \<Rightarrow> string \<Rightarrow> sasl_mechanism option"
    and good :: "'h \<Rightarrow> bool"
  assumes offered: "good h \<Longrightarrow> pick h ms enc \<noteq> [] \<Longrightarrow> pick h ms enc \<in> set ms"
    and created: "good h \<Longrightarrow> pick h ms enc \<noteq> [] \<Longrightarrow>
      \<exists>m. mk h (pick h ms enc) = Some m \<and> GetMechanismName m = pick h ms enc \<and> StartSaslAuth m \<noteq> None"
begin

lemma nothing_offered: "good h \<Longrightarrow> pick h [] enc = []"
  using offered [of h "[]" enc] by auto

lemma auth_starts:
  assumes "good h" "pick h ms enc \<noteq> []"
  obtains m auth where "mk h (pick h ms enc) = Some m" "StartSaslAuth m = Some auth"
  using created [OF assms] by blast

end

fun plain_handler :: "sasl_handler \<Rightarrow> bool" where
  "plain_handler (PlainSaslHandler user_jid password allow_plain) = True"
| "plain_handler (CustomSaslHandler pick mk) = False"

interpretation plain: sasl_provider ChooseBestSaslMechanism CreateSaslMechanism plain_handler
proof unfold_locales
  fix h :: sasl_handler and ms :: "string list" and enc
  assume h: "plain_handler h" "ChooseBestSaslMechanism h ms enc \<noteq> []"
  then obtain u p a where hh: "h = PlainSaslHandler u p a" by (cases h) auto
  show "ChooseBestSaslMechanism h ms enc \<in> set ms"
    using h by (auto simp: hh split: if_splits)
  show "\<exists>m. CreateSaslMechanism h (ChooseBestSaslMechanism h ms enc) = Some m \<and>
      GetMechanismName m = ChooseBestSaslMechanism h ms enc \<and> StartSaslAuth m \<noteq> None"
    using h by (auto simp: hh Let_def split: if_splits)
qed

lemma BodyText_auth:
  assumes "elt_children el = []" "t \<noteq> []"
  shows "BodyText (AddText el t) = t"
  using assms by (simp add: BodyText_def append_text_def)

subsection \<open>Properties\<close>

text \<open>\<open>PlainSaslHandler\<close> never lets the password go over an unencrypted connection unless
  the application allowed it, it chooses only a mechanism the server offered, and what it chooses
  it can mk and start.\<close>

theorem plain_handler_protects_password:
  "ChooseBestSaslMechanism (PlainSaslHandler u p False) ms False = [] \<and>
   ChooseBestSaslMechanism (PlainSaslHandler u p a) ms enc =
     (if (enc \<or> a) \<and> ''PLAIN'' \<in> set ms then ''PLAIN'' else []) \<and>
   CreateSaslMechanism (PlainSaslHandler u p a) ''PLAIN'' = Some (SaslPlainMechanism u p) \<and>
   StartSaslAuth (SaslPlainMechanism u p) \<noteq> None"
  by (simp add: Let_def)

text \<open>The credentials of the auth element can be read back: the body of the element that PLAIN
  sends decodes, strictly, to zero byte, node, zero byte, password, and it names the mechanism.\<close>

theorem plain_auth_carries_credentials:
  "\<exists>auth. StartSaslAuth (SaslPlainMechanism u password) = Some auth \<and> elt_name auth = QN_SASL_AUTH \<and>
     Attr auth QN_MECHANISM = ''PLAIN'' \<and>
     DecodeFromArray (BodyText auth) DO_STRICT = (True, [NUL] @ node_name u @ [NUL] @ password, length (BodyText auth))"
proof -
  let ?t = "Base64_Encode (plain_credential u password)"
  have "length ?t \<noteq> 0"
    by (simp add: Base64_Encode_def length_encode_loop plain_credential_def)
  then have "?t \<noteq> []" by auto
  moreover have "DecodeFromArray ?t DO_STRICT = (True, plain_credential u password, length ?t)"
    using decode_loop_encode [of DO_STRICT "[]" "map char_byte (plain_credential u password)" "[]"]
    by (simp add: DecodeFromArray_def Base64_Encode_def comp_def decode_flag_defs)
  ultimately show ?thesis
    by (simp add: Let_def BodyText_auth plain_credential_def Attr_def find_attr_append new_element_ns_def)
      (simp add: qname_consts)
qed

end
