(* ===== verification/EngineCore.thy ===== *)
theory EngineCore
  imports XmlPrint Sasl
begin

text \<open>
  The state of the XMPP engine, \<open>talk/xmpp/xmppengineimpl.cc\<close>, and the operations that do not
  need the login task: the settings, the output buffer, the signals, the handler lists, and the
  guard \<open>EnterExit\<close> that flushes and closes when the engine is left.

  The engine is the record of the members of \<open>XmppEngineImpl\<close>. The objects it calls (output
  handler, session handler) are seen through the calls made to them: \<open>eng_trace\<close> is that
  sequence, oldest first. Registered stanza handlers and iq handlers are numbers. An iq cookie
  is the address of the entry; addresses are numbers from a counter, never reused. The XML
  parser lies outside this record (theory \<open>EngineInput\<close>); \<open>eng_parser_reset\<close> records that
  \<open>EnterExit\<close> has reset it.
\<close>

subsection \<open>State\<close>

datatype engine_state = STATE_NONE | STATE_START | STATE_OPENING | STATE_OPEN | STATE_CLOSED

datatype engine_error = ERROR_NONE | ERROR_XML | ERROR_STREAM | ERROR_VERSION | ERROR_UNAUTHORIZED
  | ERROR_TLS | ERROR_AUTH | ERROR_BIND | ERROR_CONNECTION_CLOSED | ERROR_DOCUMENT_CLOSED
  | ERROR_SOCKET | ERROR_NETWORK_TIMEOUT | ERROR_MISSING_USERNAME

datatype return_status = XMPP_RETURN_OK | XMPP_RETURN_BADARGUMENT | XMPP_RETURN_BADSTATE
  | XMPP_RETURN_PENDING | XMPP_RETURN_UNEXPECTED | XMPP_RETURN_NOTYETIMPLEMENTED

datatype tls_option = TLS_DISABLED | TLS_ENABLED | TLS_REQUIRED

datatype handler_level = HL_NONE | HL_PEEK | HL_SINGLE | HL_SENDER | HL_TYPE | HL_ALL

datatype login_state = LOGINSTATE_INIT | LOGINSTATE_STREAMSTART_SENT | LOGINSTATE_STARTED_XMPP
  | LOGINSTATE_TLS_INIT | LOGINSTATE_AUTH_INIT | LOGINSTATE_BIND_INIT | LOGINSTATE_TLS_REQUESTED
  | LOGINSTATE_SASL_RUNNING | LOGINSTATE_BIND_REQUESTED | LOGINSTATE_SESSION_REQUESTED | LOGINSTATE_DONE

record login_task =
  lt_authNeeded :: bool
  lt_allowNonGoogleLogin :: bool
  lt_state :: login_state
  lt_stanza :: "xml_element option" \<comment> \<open>\<open>pelStanza_\<close>\<close>
  lt_isStart :: bool
  lt_iqId :: string
  lt_features :: "xml_element option" \<comment> \<open>\<open>pelFeatures_\<close>\<close>
  lt_fullJid :: jid
  lt_streamId :: string
  lt_queue :: "xml_element list" \<comment> \<open>\<open>pvecQueuedStanzas_\<close>\<close>
  lt_sasl_mech :: "sasl_mechanism option"

record iq_entry =
  iqe_cookie :: nat
  iqe_id :: string
  iqe_to :: string
  iqe_handler :: nat

text \<open>The calls the engine makes to the objects registered with it.\<close>

datatype engine_call =
    WriteOutput string
  | OutputStartTls string
  | CloseConnection
  | OnStateChange engine_state
  | HandleStanza nat xml_element
  | IqResponse nat nat xml_element \<comment> \<open>handler, cookie, stanza\<close>

record engine =
  eng_entered :: nat
  eng_user_jid :: jid
  eng_requested_resource :: string
  eng_tls_option :: tls_option
  eng_tls_server_hostname :: string
  eng_tls_server_domain :: string
  eng_login :: "login_task option"
  eng_lang :: string
  eng_next_id :: nat
  eng_bound_jid :: jid
  eng_state :: engine_state
  eng_encrypted :: bool
  eng_error :: engine_error
  eng_subcode :: int
  eng_stream_error :: "xml_element option"
  eng_raised_reset :: bool
  eng_output_handler :: bool
  eng_session_handler :: bool
  eng_xmlns :: xmlns_stack
  eng_handlers :: "handler_level \<Rightarrow> nat list"
  eng_iq_entries :: "iq_entry list"
  eng_next_cookie :: nat
  eng_sasl_handler :: "sasl_handler option"
  eng_output :: string
  eng_trace :: "engine_call list"
  eng_parser_reset :: bool

definition login_init :: login_task where
  "login_init =
     \<lparr>lt_authNeeded = True, lt_allowNonGoogleLogin = True, lt_state = LOGINSTATE_INIT,
      lt_stanza = None, lt_isStart = False, lt_iqId = [], lt_features = None,
      lt_fullJid = Jid_of_string [], lt_streamId = [], lt_queue = [], lt_sasl_mech = None\<rparr>"

definition engine_init :: engine where
  "engine_init =
     \<lparr>eng_entered = 0, eng_user_jid = Jid_empty, eng_requested_resource = [],
      eng_tls_option = TLS_REQUIRED, eng_tls_server_hostname = [], eng_tls_server_domain = [],
      eng_login = Some login_init, eng_lang = [], eng_next_id = 0, eng_bound_jid = Jid_empty,
      eng_state = STATE_START, eng_encrypted = False, eng_error = ERROR_NONE, eng_subcode = 0,
      eng_stream_error = None, eng_raised_reset = False, eng_output_handler = False,
      eng_session_handler = False,
      eng_xmlns = AddXmlns [] ''jabber:client'' (AddXmlns ''stream'' ''http://etherx.jabber.org/streams'' xmlns_empty),
      eng_handlers = (\<lambda>_. []), eng_iq_entries = [], eng_next_cookie = 0, eng_sasl_handler = None,
      eng_output = [], eng_trace = [], eng_parser_reset = False\<rparr>"

definition call_out :: "engine_call \<Rightarrow> engine \<Rightarrow> engine" where
  "call_out c e = e\<lparr>eng_trace := eng_trace e @ [c]\<rparr>"

subsection \<open>EnterExit\<close>

definition enter_engine :: "engine \<Rightarrow> engine" where
  "enter_engine e = e\<lparr>eng_entered := eng_entered e + 1\<rparr>"

text \<open>The flush of the destructor; \<open>closing\<close> also closes and forgets the output handler.\<close>

definition flush_output :: "bool \<Rightarrow> engine \<Rightarrow> engine" where
  "flush_output closing e =
     (let e1 = (if eng_output e \<noteq> [] then call_out (WriteOutput (eng_output e)) e else e)\<lparr>eng_output := []\<rparr> in
      if closing then (call_out CloseConnection e1)\<lparr>eng_output_handler := False\<rparr> else e1)"

text \<open>The destructor, \<open>state\<close> being the state saved when the engine was entered.\<close>

definition exit_engine :: "engine_state \<Rightarrow> engine \<Rightarrow> engine" where
  "exit_engine saved e0 =
     (let e = e0\<lparr>eng_entered := eng_entered e0 - 1\<rparr>;
          closing = (eng_state e \<noteq> saved \<and> eng_state e = STATE_CLOSED);
          flushing = (closing \<or> eng_entered e = 0);
          e1 = (if eng_output_handler e \<and> flushing then flush_output closing e else e) in
      if eng_entered e1 \<noteq> 0 then e1
      else let e2 = (if eng_raised_reset e1 then e1\<lparr>eng_parser_reset := True, eng_raised_reset := False\<rparr> else e1) in
        if eng_session_handler e2 \<and> eng_state e2 \<noteq> saved then call_out (OnStateChange (eng_state e2)) e2
        else e2)"

definition within :: "(engine \<Rightarrow> engine) \<Rightarrow> engine \<Rightarrow> engine" where
  "within f e = exit_engine (eng_state e) (f (enter_engine e))"

subsection \<open>Signals\<close>

definition SignalError :: "engine_error \<Rightarrow> int \<Rightarrow> engine \<Rightarrow> engine" where
  "SignalError error_code sub_code e =
     (if eng_state e \<noteq> STATE_CLOSED
      then e\<lparr>eng_error := error_code, eng_subcode := sub_code, eng_state := STATE_CLOSED\<rparr> else e)"

definition SignalStreamError :: "xml_element \<Rightarrow> engine \<Rightarrow> engine" where
  "SignalStreamError stream_error e =
     (if eng_state e \<noteq> STATE_CLOSED
      then SignalError ERROR_STREAM 0 (e\<lparr>eng_stream_error := Some (copy_element stream_error)\<rparr>) else e)"

definition SignalBound :: "jid \<Rightarrow> engine \<Rightarrow> engine" where
  "SignalBound fullJid e =
     (if eng_state e = STATE_OPENING then e\<lparr>eng_bound_jid := fullJid, eng_state := STATE_OPEN\<rparr> else e)"

definition HasError :: "engine \<Rightarrow> bool" where
  "HasError e \<longleftrightarrow> eng_error e \<noteq> ERROR_NONE"

definition RaiseReset :: "engine \<Rightarrow> engine" where
  "RaiseReset e = e\<lparr>eng_raised_reset := True\<rparr>"

definition engine_StartTls :: "string \<Rightarrow> engine \<Rightarrow> engine" where
  "engine_StartTls domain e =
     (if eng_output_handler e then
        (call_out (OutputStartTls (if eng_tls_server_domain e = [] then domain else eng_tls_server_domain e)) e)
          \<lparr>eng_encrypted := True\<rparr>
      else e)"

subsection \<open>Output\<close>

definition put_output :: "string \<Rightarrow> engine \<Rightarrow> engine" where
  "put_output s e = e\<lparr>eng_output := eng_output e @ s\<rparr>"

abbreviation quoted :: "string \<Rightarrow> string" where
  "quoted s \<equiv> [CHR 0x22] @ s @ [CHR 0x22]"

definition InternalSendStart :: "string \<Rightarrow> engine \<Rightarrow> engine" where
  "InternalSendStart to e =
     (let hostname = (if eng_tls_server_hostname e = [] then to else eng_tls_server_hostname e);
          lang = (if length (eng_lang e) = 0 then ''*'' else eng_lang e) in
      put_output (''<stream:stream to='' @ quoted hostname @ '' xml:lang='' @ quoted lang @
        '' version='' @ quoted ''1.0'' @ '' xmlns:stream='' @ quoted ''http://etherx.jabber.org/streams'' @
        '' xmlns='' @ quoted ''jabber:client'' @ [CHR ''>'', CHR 0x0D, CHR 0x0A]) e)"

text \<open>Printing never fails (\<open>PrintElement_restores\<close>), the other case is not reached.\<close>

definition InternalSendStanza :: "xml_element \<Rightarrow> engine \<Rightarrow> engine" where
  "InternalSendStanza element e =
     (case PrintXml element (eng_xmlns e) of
        None \<Rightarrow> e
      | Some (s, st) \<Rightarrow> (put_output s e)\<lparr>eng_xmlns := st\<rparr>)"

definition NextId :: "engine \<Rightarrow> string \<times> engine" where
  "NextId e = (nat_to_dec (eng_next_id e), e\<lparr>eng_next_id := eng_next_id e + 1\<rparr>)"

subsection \<open>Settings\<close>

definition SetOutputHandler :: "bool \<Rightarrow> engine \<Rightarrow> return_status \<times> engine" where
  "SetOutputHandler present e =
     (if eng_state e \<noteq> STATE_START then (XMPP_RETURN_BADSTATE, e)
      else (XMPP_RETURN_OK, e\<lparr>eng_output_handler := present\<rparr>))"

definition SetSessionHandler :: "bool \<Rightarrow> engine \<Rightarrow> return_status \<times> engine" where
  "SetSessionHandler present e =
     (if eng_state e \<noteq> STATE_START then (XMPP_RETURN_BADSTATE, e)
      else (XMPP_RETURN_OK, e\<lparr>eng_session_handler := present\<rparr>))"

definition SetTls :: "tls_option \<Rightarrow> engine \<Rightarrow> return_status \<times> engine" where
  "SetTls use_tls e =
     (if eng_state e \<noteq> STATE_START then (XMPP_RETURN_BADSTATE, e)
      else (XMPP_RETURN_OK, e\<lparr>eng_tls_option := use_tls\<rparr>))"

definition SetTlsServer :: "string \<Rightarrow> string \<Rightarrow> engine \<Rightarrow> return_status \<times> engine" where
  "SetTlsServer hostname domain e =
     (if eng_state e \<noteq> STATE_START then (XMPP_RETURN_BADSTATE, e)
      else (XMPP_RETURN_OK, e\<lparr>eng_tls_server_hostname := hostname, eng_tls_server_domain := domain\<rparr>))"

definition SetUser :: "jid \<Rightarrow> engine \<Rightarrow> return_status \<times> engine" where
  "SetUser user e =
     (if eng_state e \<noteq> STATE_START then (XMPP_RETURN_BADSTATE, e)
      else (XMPP_RETURN_OK, e\<lparr>eng_user_jid := user\<rparr>))"

definition SetSaslHandler :: "sasl_handler option \<Rightarrow> engine \<Rightarrow> return_status \<times> engine" where
  "SetSaslHandler h e =
     (if eng_state e \<noteq> STATE_START then (XMPP_RETURN_BADSTATE, e)
      else (XMPP_RETURN_OK, e\<lparr>eng_sasl_handler := h\<rparr>))"

definition SetRequestedResource :: "string \<Rightarrow> engine \<Rightarrow> return_status \<times> engine" where
  "SetRequestedResource resource e =
     (if eng_state e \<noteq> STATE_START then (XMPP_RETURN_BADSTATE, e)
      else (XMPP_RETURN_OK, e\<lparr>eng_requested_resource := resource\<rparr>))"

definition SetLanguage :: "string \<Rightarrow> engine \<Rightarrow> engine" where
  "SetLanguage lang e = e\<lparr>eng_lang := lang\<rparr>"

definition AddStanzaHandler :: "nat \<Rightarrow> handler_level \<Rightarrow> engine \<Rightarrow> return_status \<times> engine" where
  "AddStanzaHandler h level e =
     (if eng_state e = STATE_CLOSED then (XMPP_RETURN_BADSTATE, e)
      else (XMPP_RETURN_OK, e\<lparr>eng_handlers := (eng_handlers e)(level := eng_handlers e level @ [h])\<rparr>))"

definition RemoveStanzaHandler :: "nat \<Rightarrow> engine \<Rightarrow> return_status \<times> engine" where
  "RemoveStanzaHandler h e =
     (let found = list_ex (\<lambda>level. h \<in> set (eng_handlers e level)) [HL_NONE, HL_PEEK, HL_SINGLE, HL_SENDER, HL_TYPE, HL_ALL];
          e1 = e\<lparr>eng_handlers := (\<lambda>level. removeAll h (eng_handlers e level))\<rparr> in
      if \<not> found then (XMPP_RETURN_BADARGUMENT, e1) else (XMPP_RETURN_OK, e1))"

definition SendRaw :: "string \<Rightarrow> engine \<Rightarrow> return_status \<times> engine" where
  "SendRaw txt e =
     (if eng_state e = STATE_CLOSED \<or> eng_login e \<noteq> None then (XMPP_RETURN_BADSTATE, e)
      else (XMPP_RETURN_OK, within (put_output txt) e))"

definition Disconnect :: "engine \<Rightarrow> return_status \<times> engine" where
  "Disconnect e =
     (if eng_state e \<noteq> STATE_CLOSED then
        (XMPP_RETURN_OK,
         within (\<lambda>e. (if eng_state e = STATE_OPEN then put_output ''</stream:stream>'' e else e)
                   \<lparr>eng_state := STATE_CLOSED\<rparr>) e)
      else (XMPP_RETURN_OK, e))"

definition ConnectionClosed :: "int \<Rightarrow> engine \<Rightarrow> return_status \<times> engine" where
  "ConnectionClosed subcode e =
     (if eng_state e \<noteq> STATE_CLOSED then
        (XMPP_RETURN_OK,
         within (if subcode \<noteq> 0 then SignalError ERROR_SOCKET subcode else SignalError ERROR_CONNECTION_CLOSED 0) e)
      else (XMPP_RETURN_OK, e))"

end
