(* ===== verification/Login.thy ===== *)
theory Login
  imports EngineCore
begin

text \<open>
  The login task, \<open>talk/xmpp/xmpplogintask.cc\<close>: \<open>Advance\<close> is the state machine that sends the
  stream header, negotiates TLS and SASL, binds a resource and opens the session. One pass
  through its \<open>for (;;)\<close> loop is \<open>login_step\<close>, one branch per \<open>case\<close>; \<open>Continue\<close> is \<open>continue\<close>
  or \<open>break\<close>, \<open>Return\<close> a \<open>return\<close>, \<open>Crash\<close> the use of a null pointer (\<open>pelFeatures_\<close>,
  \<open>sasl_mech_\<close> or \<open>sasl_handler_\<close>). The loop ends because every second pass consumes the stanza.
\<close>

datatype advance_result =
    Continue login_task engine
  | Return bool login_task engine
  | Crash

definition NextStanza :: "login_task \<Rightarrow> xml_element option \<times> login_task" where
  "NextStanza lt = (lt_stanza lt, lt\<lparr>lt_stanza := None\<rparr>)"

definition login_Failure :: "engine_error \<Rightarrow> login_task \<Rightarrow> engine \<Rightarrow> advance_result" where
  "login_Failure reason lt e =
     Return False (lt\<lparr>lt_state := LOGINSTATE_DONE\<rparr>) (SignalError reason 0 e)"

definition HandleStartStream :: "xml_element \<Rightarrow> login_task \<Rightarrow> login_task option" where
  "HandleStartStream element lt =
     (if elt_name element \<noteq> QN_STREAM_STREAM then None
      else if Attr element QN_XMLNS \<noteq> ''jabber:client'' then None
      else if Attr element QN_VERSION \<noteq> ''1.0'' then None
      else if \<not> HasAttr element QN_ID then None
      else Some (lt\<lparr>lt_streamId := Attr element QN_ID\<rparr>))"

definition HandleFeatures :: "xml_element \<Rightarrow> login_task \<Rightarrow> login_task option" where
  "HandleFeatures element lt =
     (if elt_name element \<noteq> QN_STREAM_FEATURES then None
      else Some (lt\<lparr>lt_features := Some (copy_element element)\<rparr>))"

text \<open>\<open>GetFeature\<close>: the outer option is the null pointer \<open>pelFeatures_\<close>.\<close>

definition GetFeature :: "qname \<Rightarrow> login_task \<Rightarrow> xml_element option option" where
  "GetFeature name lt = map_option (\<lambda>f. FirstNamed f name) (lt_features lt)"

definition OutgoingStanza :: "xml_element \<Rightarrow> login_task \<Rightarrow> login_task" where
  "OutgoingStanza element lt = lt\<lparr>lt_queue := lt_queue lt @ [copy_element element]\<rparr>"

definition FlushQueuedStanzas :: "login_task \<Rightarrow> engine \<Rightarrow> login_task \<times> engine" where
  "FlushQueuedStanzas lt e = (lt\<lparr>lt_queue := []\<rparr>, fold InternalSendStanza (lt_queue lt) e)"

definition bind_request :: "string \<Rightarrow> string \<Rightarrow> xml_element" where
  "bind_request iqId resource =
     (let iq = AddAttr (new_element QN_IQ) QN_TYPE ''set'';
          iq = AddAttr iq QN_ID iqId;
          iq = AddElement iq (Some (new_element_ns QN_BIND_BIND True)) in
      if resource \<noteq> [] then
        (case AddElement_depth iq (Some (new_element QN_BIND_RESOURCE)) 1 of
           None \<Rightarrow> iq
         | Some iq1 \<Rightarrow> (case AddText_depth iq1 resource 2 of None \<Rightarrow> iq1 | Some iq2 \<Rightarrow> iq2))
      else iq)"

definition session_request :: "string \<Rightarrow> xml_element" where
  "session_request iqId =
     AddElement (AddAttr (AddAttr (new_element QN_IQ) QN_TYPE ''set'') QN_ID iqId)
       (Some (new_element_ns QN_SESSION_SESSION True))"

definition google_auth_attrs :: "xml_element \<Rightarrow> xml_element" where
  "google_auth_attrs auth =
     SetAttr (SetAttr auth QN_GOOGLE_ALLOW_NON_GOOGLE_ID_XMPP_LOGIN ''true'')
       QN_GOOGLE_AUTH_CLIENT_USES_FULL_BIND_RESULT ''true''"

definition offered_mechanisms :: "xml_element \<Rightarrow> string list" where
  "offered_mechanisms pelSaslAuth = map BodyText (named_elements QN_SASL_MECHANISM (elt_children pelSaslAuth))"

text \<open>Not the answer to our iq: another stanza, another id, or a request.\<close>

definition not_our_answer :: "xml_element \<Rightarrow> login_task \<Rightarrow> bool" where
  "not_our_answer element lt \<longleftrightarrow>
     elt_name element \<noteq> QN_IQ \<or> Attr element QN_ID \<noteq> lt_iqId lt \<or>
     Attr element QN_TYPE = ''get'' \<or> Attr element QN_TYPE = ''set''"

subsection \<open>The cases of the switch\<close>

definition step_init :: "login_task \<Rightarrow> engine \<Rightarrow> advance_result" where
  "step_init lt e =
     (let e1 = RaiseReset e;
          lt1 = lt\<lparr>lt_features := None\<rparr>;
          e2 = InternalSendStart (domain_name (eng_user_jid e1)) e1 in
      Continue (lt1\<lparr>lt_state := LOGINSTATE_STREAMSTART_SENT\<rparr>) e2)"

definition step_streamstart_sent :: "login_task \<Rightarrow> engine \<Rightarrow> advance_result" where
  "step_streamstart_sent lt e =
     (case NextStanza lt of
        (None, lt1) \<Rightarrow> Return True lt1 e
      | (Some element, lt1) \<Rightarrow>
          (if \<not> lt_isStart lt1 then login_Failure ERROR_VERSION lt1 e
           else case HandleStartStream element lt1 of
               None \<Rightarrow> login_Failure ERROR_VERSION lt1 e
             | Some lt2 \<Rightarrow> Return True (lt2\<lparr>lt_state := LOGINSTATE_STARTED_XMPP\<rparr>) e))"

definition step_started_xmpp :: "login_task \<Rightarrow> engine \<Rightarrow> advance_result" where
  "step_started_xmpp lt e =
     (case NextStanza lt of
        (None, lt1) \<Rightarrow> Return True lt1 e
      | (Some element, lt1) \<Rightarrow>
          (case HandleFeatures element lt1 of
             None \<Rightarrow> login_Failure ERROR_VERSION lt1 e
           | Some lt2 \<Rightarrow>
               (case GetFeature QN_TLS_STARTTLS lt2 of
                  None \<Rightarrow> Crash
                | Some starttls \<Rightarrow>
                    (let tls_present = (starttls \<noteq> None) in
                     if eng_tls_option e = TLS_REQUIRED \<and> \<not> tls_present then login_Failure ERROR_TLS lt2 e
                     else if (eng_tls_option e = TLS_REQUIRED \<or> eng_tls_option e = TLS_ENABLED) \<and> tls_present
                       then Continue (lt2\<lparr>lt_state := LOGINSTATE_TLS_INIT\<rparr>) e
                     else if lt_authNeeded lt2 then Continue (lt2\<lparr>lt_state := LOGINSTATE_AUTH_INIT\<rparr>) e
                     else Continue (lt2\<lparr>lt_state := LOGINSTATE_BIND_INIT\<rparr>) e))))"

definition step_tls_init :: "login_task \<Rightarrow> engine \<Rightarrow> advance_result" where
  "step_tls_init lt e =
     (case GetFeature QN_TLS_STARTTLS lt of
        None \<Rightarrow> Crash
      | Some None \<Rightarrow> login_Failure ERROR_TLS lt e
      | Some (Some pelTls) \<Rightarrow>
          Continue (lt\<lparr>lt_state := LOGINSTATE_TLS_REQUESTED\<rparr>)
            (InternalSendStanza (new_element_ns QN_TLS_STARTTLS True) e))"

definition step_tls_requested :: "login_task \<Rightarrow> engine \<Rightarrow> advance_result" where
  "step_tls_requested lt e =
     (case NextStanza lt of
        (None, lt1) \<Rightarrow> Return True lt1 e
      | (Some element, lt1) \<Rightarrow>
          (if elt_name element \<noteq> QN_TLS_PROCEED then login_Failure ERROR_TLS lt1 e
           else Continue (lt1\<lparr>lt_state := LOGINSTATE_INIT\<rparr>)
                  ((engine_StartTls (domain_name (eng_user_jid e)) e)\<lparr>eng_tls_option := TLS_ENABLED\<rparr>)))"

definition step_auth_init :: "login_task \<Rightarrow> engine \<Rightarrow> advance_result" where
  "step_auth_init lt e =
     (case GetFeature QN_SASL_MECHANISMS lt of
        None \<Rightarrow> Crash
      | Some None \<Rightarrow> login_Failure ERROR_AUTH lt e
      | Some (Some pelSaslAuth) \<Rightarrow>
          (case eng_sasl_handler e of
             None \<Rightarrow> Crash
           | Some h \<Rightarrow>
               (let c = ChooseBestSaslMechanism h (offered_mechanisms pelSaslAuth) (eng_encrypted e) in
                if c = [] then login_Failure ERROR_AUTH lt e
                else let lt1 = lt\<lparr>lt_sasl_mech := CreateSaslMechanism h c\<rparr> in
                  case lt_sasl_mech lt1 of
                    None \<Rightarrow> login_Failure ERROR_AUTH lt1 e
                  | Some mech \<Rightarrow>
                      (case StartSaslAuth mech of
                         None \<Rightarrow> login_Failure ERROR_AUTH lt1 e
                       | Some auth \<Rightarrow>
                           Continue (lt1\<lparr>lt_state := LOGINSTATE_SASL_RUNNING\<rparr>)
                             (InternalSendStanza
                               (if lt_allowNonGoogleLogin lt1 then google_auth_attrs auth else auth) e)))))"

definition step_sasl_running :: "login_task \<Rightarrow> engine \<Rightarrow> advance_result" where
  "step_sasl_running lt e =
     (case NextStanza lt of
        (None, lt1) \<Rightarrow> Return True lt1 e
      | (Some element, lt1) \<Rightarrow>
          (if Namespace (elt_name element) \<noteq> NS_SASL then login_Failure ERROR_AUTH lt1 e
           else if elt_name element = QN_SASL_CHALLENGE then
             (case lt_sasl_mech lt1 of
                None \<Rightarrow> Crash
              | Some mech \<Rightarrow>
                  (case HandleSaslChallenge mech element of
                     None \<Rightarrow> login_Failure ERROR_AUTH lt1 e
                   | Some response \<Rightarrow>
                       Continue (lt1\<lparr>lt_state := LOGINSTATE_SASL_RUNNING\<rparr>) (InternalSendStanza response e)))
           else if elt_name element \<noteq> QN_SASL_SUCCESS then login_Failure ERROR_UNAUTHORIZED lt1 e
           else Continue (lt1\<lparr>lt_authNeeded := False, lt_state := LOGINSTATE_INIT\<rparr>) e))"

definition step_bind_init :: "login_task \<Rightarrow> engine \<Rightarrow> advance_result" where
  "step_bind_init lt e =
     (case (GetFeature QN_BIND_BIND lt, GetFeature QN_SESSION_SESSION lt) of
        (Some bind, Some session) \<Rightarrow>
          (if bind = None \<or> session = None then login_Failure ERROR_BIND lt e
           else let (iqId, e1) = NextId e in
             Continue (lt\<lparr>lt_iqId := iqId, lt_state := LOGINSTATE_BIND_REQUESTED\<rparr>)
               (InternalSendStanza (bind_request iqId (eng_requested_resource e1)) e1))
      | _ \<Rightarrow> Crash)"

definition step_bind_requested :: "login_task \<Rightarrow> engine \<Rightarrow> advance_result" where
  "step_bind_requested lt e =
     (case NextStanza lt of
        (None, lt1) \<Rightarrow> Return True lt1 e
      | (Some element, lt1) \<Rightarrow>
          (if not_our_answer element lt1 then Return True lt1 e
           else if Attr element QN_TYPE \<noteq> ''result'' then login_Failure ERROR_BIND lt1 e
           else case FirstElement element of
               None \<Rightarrow> login_Failure ERROR_BIND lt1 e
             | Some bind \<Rightarrow>
                 (if elt_name bind \<noteq> QN_BIND_BIND then login_Failure ERROR_BIND lt1 e
                  else let lt2 = lt1\<lparr>lt_fullJid := Jid_of_string (TextNamed bind QN_BIND_JID)\<rparr> in
                    if \<not> Jid_IsFull (lt_fullJid lt2) then login_Failure ERROR_BIND lt2 e
                    else let (iqId, e1) = NextId e in
                      Continue (lt2\<lparr>lt_iqId := iqId, lt_state := LOGINSTATE_SESSION_REQUESTED\<rparr>)
                        (InternalSendStanza (session_request iqId) e1))))"

definition step_session_requested :: "login_task \<Rightarrow> engine \<Rightarrow> advance_result" where
  "step_session_requested lt e =
     (case NextStanza lt of
        (None, lt1) \<Rightarrow> Return True lt1 e
      | (Some element, lt1) \<Rightarrow>
          (if not_our_answer element lt1 then Return False lt1 e
           else if Attr element QN_TYPE \<noteq> ''result'' then login_Failure ERROR_BIND lt1 e
           else let e1 = SignalBound (lt_fullJid lt1) e;
                    (lt2, e2) = FlushQueuedStanzas lt1 e1 in
             Return True (lt2\<lparr>lt_state := LOGINSTATE_DONE\<rparr>) e2))"

definition login_step :: "login_task \<Rightarrow> engine \<Rightarrow> advance_result" where
  "login_step lt e =
     (case lt_state lt of
        LOGINSTATE_INIT \<Rightarrow> step_init lt e
      | LOGINSTATE_STREAMSTART_SENT \<Rightarrow> step_streamstart_sent lt e
      | LOGINSTATE_STARTED_XMPP \<Rightarrow> step_started_xmpp lt e
      | LOGINSTATE_TLS_INIT \<Rightarrow> step_tls_init lt e
      | LOGINSTATE_TLS_REQUESTED \<Rightarrow> step_tls_requested lt e
      | LOGINSTATE_AUTH_INIT \<Rightarrow> step_auth_init lt e
      | LOGINSTATE_SASL_RUNNING \<Rightarrow> step_sasl_running lt e
      | LOGINSTATE_BIND_INIT \<Rightarrow> step_bind_init lt e
      | LOGINSTATE_BIND_REQUESTED \<Rightarrow> step_bind_requested lt e
      | LOGINSTATE_SESSION_REQUESTED \<Rightarrow> step_session_requested lt e
      | LOGINSTATE_DONE \<Rightarrow> Return False lt e)"

lemmas login_step_defs = step_init_def step_streamstart_sent_def step_started_xmpp_def step_tls_init_def
  step_tls_requested_def step_auth_init_def step_sasl_running_def step_bind_init_def
  step_bind_requested_def step_session_requested_def

subsection \<open>The loop\<close>

text \<open>A pass that continues either consumes the stanza or leaves a state that waits for none.\<close>

fun waits :: "login_state \<Rightarrow> bool" where
  "waits LOGINSTATE_INIT = False"
| "waits LOGINSTATE_TLS_INIT = False"
| "waits LOGINSTATE_AUTH_INIT = False"
| "waits LOGINSTATE_BIND_INIT = False"
| "waits _ = True"

definition login_rank :: "login_task \<Rightarrow> nat" where
  "login_rank lt = (if lt_stanza lt = None then 0 else 2) + (if waits (lt_state lt) then 0 else 1)"

lemma login_step_rank:
  assumes "login_step lt e = Continue lt' e'"
  shows "login_rank lt' < login_rank lt"
  using assms
  by (cases "lt_state lt")
     (auto simp: login_step_def login_step_defs login_rank_def login_Failure_def NextStanza_def Let_def
        HandleStartStream_def HandleFeatures_def split: option.splits if_splits prod.splits)

function Advance :: "login_task \<Rightarrow> engine \<Rightarrow> (bool \<times> login_task \<times> engine) option" where
  "Advance lt e =
     (case login_step lt e of
        Continue lt1 e1 \<Rightarrow> Advance lt1 e1
      | Return b lt1 e1 \<Rightarrow> Some (b, lt1, e1)
      | Crash \<Rightarrow> None)"
  by pat_completeness auto
termination
  by (relation "measure (\<lambda>(lt, e). login_rank lt)") (auto simp: login_step_rank)

declare Advance.simps [simp del]

definition login_IncomingStanza ::
  "xml_element option \<Rightarrow> bool \<Rightarrow> login_task \<Rightarrow> engine \<Rightarrow> (login_task \<times> engine) option" where
  "login_IncomingStanza element isStart lt e =
     (case Advance (lt\<lparr>lt_stanza := element, lt_isStart := isStart\<rparr>) e of
        None \<Rightarrow> None
      | Some (b, lt1, e1) \<Rightarrow> Some (lt1\<lparr>lt_stanza := None, lt_isStart := False\<rparr>, e1))"

definition login_IsDone :: "login_task \<Rightarrow> bool" where
  "login_IsDone lt \<longleftrightarrow> lt_state lt = LOGINSTATE_DONE"

subsection \<open>Invariants of the loop\<close>

text \<open>
  A condition on login task and engine that every pass keeps, and that a new stanza does not
  touch, holds after \<open>Advance\<close> and after \<open>IncomingStanza\<close>; one that also excludes the
  null pointers makes them return.
\<close>

locale login_invariant =
  fixes I :: "login_task \<Rightarrow> engine \<Rightarrow> bool"
  assumes pass_continue: "I lt e \<Longrightarrow> login_step lt e = Continue lt' e' \<Longrightarrow> I lt' e'"
    and pass_return: "I lt e \<Longrightarrow> login_step lt e = Return b lt' e' \<Longrightarrow> I lt' e'"
    and new_stanza: "\<And>el start. I lt e \<Longrightarrow> I (lt\<lparr>lt_stanza := el, lt_isStart := start\<rparr>) e"
begin

lemma Advance_keeps: "Advance lt e = Some (b, lt', e') \<Longrightarrow> I lt e \<Longrightarrow> I lt' e'"
proof (induction lt e rule: Advance.induct)
  case (1 lt e)
  then show ?case
    by (subst (asm) (2) Advance.simps)
       (auto split: advance_result.splits intro: pass_continue pass_return)
qed

lemma IncomingStanza_keeps:
  "login_IncomingStanza el start lt e = Some (lt', e') \<Longrightarrow> I lt e \<Longrightarrow> I lt' e'"
  by (auto simp: login_IncomingStanza_def dest!: Advance_keeps intro!: new_stanza split: option.splits)

end

locale safe_login_invariant = login_invariant +
  assumes no_null: "I lt e \<Longrightarrow> login_step lt e \<noteq> Crash"
begin

lemma Advance_returns: "I lt e \<Longrightarrow> Advance lt e \<noteq> None"
proof (induction lt e rule: Advance.induct)
  case (1 lt e)
  then show ?case
    by (subst Advance.simps) (auto split: advance_result.splits dest: no_null pass_continue)
qed

lemma IncomingStanza_returns: "I lt e \<Longrightarrow> login_IncomingStanza el start lt e \<noteq> None"
  using Advance_returns [OF new_stanza] by (auto simp: login_IncomingStanza_def split: option.splits)

end

text \<open>What a pass leaves alone in the engine.\<close>

lemma InternalSend_sel [simp]:
  "eng_state (InternalSendStanza s e) = eng_state e" "eng_tls_option (InternalSendStanza s e) = eng_tls_option e"
  "eng_encrypted (InternalSendStanza s e) = eng_encrypted e" "eng_trace (InternalSendStanza s e) = eng_trace e"
  "eng_output_handler (InternalSendStanza s e) = eng_output_handler e"
  "eng_sasl_handler (InternalSendStanza s e) = eng_sasl_handler e" "eng_xmlns (InternalSendStanza s e) = eng_xmlns e"
  "eng_next_id (InternalSendStanza s e) = eng_next_id e" "eng_user_jid (InternalSendStanza s e) = eng_user_jid e"
  "eng_bound_jid (InternalSendStanza s e) = eng_bound_jid e" "eng_error (InternalSendStanza s e) = eng_error e"
  "eng_entered (InternalSendStanza s e) = eng_entered e" "eng_login (InternalSendStanza s e) = eng_login e"
  "eng_requested_resource (InternalSendStanza s e) = eng_requested_resource e"
  using PrintElement_restores [of "eng_xmlns e" s]
  by (auto simp: InternalSendStanza_def PrintXml_def put_output_def split: option.splits)

lemma InternalSendStart_sel [simp]:
  "eng_state (InternalSendStart s e) = eng_state e" "eng_tls_option (InternalSendStart s e) = eng_tls_option e"
  "eng_encrypted (InternalSendStart s e) = eng_encrypted e" "eng_trace (InternalSendStart s e) = eng_trace e"
  "eng_output_handler (InternalSendStart s e) = eng_output_handler e"
  "eng_sasl_handler (InternalSendStart s e) = eng_sasl_handler e" "eng_xmlns (InternalSendStart s e) = eng_xmlns e"
  "eng_next_id (InternalSendStart s e) = eng_next_id e" "eng_user_jid (InternalSendStart s e) = eng_user_jid e"
  "eng_bound_jid (InternalSendStart s e) = eng_bound_jid e" "eng_error (InternalSendStart s e) = eng_error e"
  "eng_entered (InternalSendStart s e) = eng_entered e" "eng_login (InternalSendStart s e) = eng_login e"
  "eng_requested_resource (InternalSendStart s e) = eng_requested_resource e"
  by (simp_all add: InternalSendStart_def put_output_def Let_def)

lemma fold_InternalSend_sel [simp]:
  "eng_state (fold InternalSendStanza ss e) = eng_state e" "eng_tls_option (fold InternalSendStanza ss e) = eng_tls_option e"
  "eng_encrypted (fold InternalSendStanza ss e) = eng_encrypted e" "eng_trace (fold InternalSendStanza ss e) = eng_trace e"
  "eng_output_handler (fold InternalSendStanza ss e) = eng_output_handler e"
  "eng_sasl_handler (fold InternalSendStanza ss e) = eng_sasl_handler e" "eng_xmlns (fold InternalSendStanza ss e) = eng_xmlns e"
  "eng_bound_jid (fold InternalSendStanza ss e) = eng_bound_jid e" "eng_error (fold InternalSendStanza ss e) = eng_error e"
  "eng_entered (fold InternalSendStanza ss e) = eng_entered e" "eng_login (fold InternalSendStanza ss e) = eng_login e"
  by (induction ss arbitrary: e) simp_all

lemmas login_cases = login_step_def login_step_defs login_Failure_def NextStanza_def Let_def
  HandleStartStream_def HandleFeatures_def GetFeature_def FlushQueuedStanzas_def NextId_def RaiseReset_def

subsection \<open>No null pointer is used\<close>

definition login_wf :: "login_task \<Rightarrow> engine \<Rightarrow> bool" where
  "login_wf lt e \<longleftrightarrow>
     (lt_state lt \<in> {LOGINSTATE_TLS_INIT, LOGINSTATE_AUTH_INIT, LOGINSTATE_BIND_INIT} \<longrightarrow> lt_features lt \<noteq> None) \<and>
     (lt_state lt = LOGINSTATE_SASL_RUNNING \<longrightarrow> lt_sasl_mech lt \<noteq> None) \<and>
     eng_sasl_handler e \<noteq> None"

lemma Signal_sel [simp]:
  "eng_sasl_handler (SignalError c n e) = eng_sasl_handler e" "eng_sasl_handler (SignalBound j e) = eng_sasl_handler e"
  "eng_sasl_handler (engine_StartTls d e) = eng_sasl_handler e"
  "eng_tls_option (SignalError c n e) = eng_tls_option e" "eng_tls_option (SignalBound j e) = eng_tls_option e"
  "eng_encrypted (SignalError c n e) = eng_encrypted e" "eng_encrypted (SignalBound j e) = eng_encrypted e"
  "eng_output_handler (SignalError c n e) = eng_output_handler e" "eng_output_handler (SignalBound j e) = eng_output_handler e"
  "eng_output_handler (engine_StartTls d e) = eng_output_handler e" "eng_state (engine_StartTls d e) = eng_state e"
  "eng_encrypted (engine_StartTls d e) = (eng_output_handler e \<or> eng_encrypted e)"
  "eng_trace (SignalError c n e) = eng_trace e" "eng_trace (SignalBound j e) = eng_trace e"
  "eng_entered (SignalError c n e) = eng_entered e" "eng_entered (SignalBound j e) = eng_entered e"
  "eng_login (SignalError c n e) = eng_login e" "eng_login (SignalBound j e) = eng_login e"
  "eng_entered (engine_StartTls d e) = eng_entered e" "eng_login (engine_StartTls d e) = eng_login e"
  by (simp_all add: SignalError_def SignalBound_def engine_StartTls_def call_out_def)

interpretation login_wf: safe_login_invariant login_wf
proof unfold_locales
  fix lt lt' :: login_task and e e' :: engine and b :: bool
  assume I: "login_wf lt e"
  show "login_step lt e = Continue lt' e' \<Longrightarrow> login_wf lt' e'"
    using I by (cases "lt_state lt")
      (auto simp: login_cases login_wf_def split: option.splits if_splits prod.splits)
  show "login_step lt e = Return b lt' e' \<Longrightarrow> login_wf lt' e'"
    using I by (cases "lt_state lt")
      (auto simp: login_cases login_wf_def split: option.splits if_splits prod.splits)
  show "login_wf (lt\<lparr>lt_stanza := el, lt_isStart := s\<rparr>) e" for el s
    using I by (simp add: login_wf_def)
  show "login_step lt e \<noteq> Crash"
    using I by (cases "lt_state lt")
      (auto simp: login_cases login_wf_def split: option.splits if_splits prod.splits)
qed

lemma login_init_wf: "eng_sasl_handler e \<noteq> None \<Longrightarrow> login_wf login_init e"
  by (simp add: login_wf_def login_init_def)

subsection \<open>TLS comes before authentication\<close>

definition pre_tls :: "login_state set" where
  "pre_tls = {LOGINSTATE_INIT, LOGINSTATE_STREAMSTART_SENT, LOGINSTATE_STARTED_XMPP,
     LOGINSTATE_TLS_INIT, LOGINSTATE_TLS_REQUESTED, LOGINSTATE_DONE}"

definition tls_guard :: "login_task \<Rightarrow> engine \<Rightarrow> bool" where
  "tls_guard lt e \<longleftrightarrow> eng_output_handler e \<and>
     (eng_tls_option e = TLS_REQUIRED \<and> lt_state lt \<in> pre_tls \<and> eng_state e \<noteq> STATE_OPEN \<or> eng_encrypted e) \<and>
     (eng_encrypted e \<longrightarrow> (\<exists>d. OutputStartTls d \<in> set (eng_trace e)))"

lemma trace_StartTls [simp]:
  "set (eng_trace (engine_StartTls d e)) =
     (if eng_output_handler e
      then insert (OutputStartTls (if eng_tls_server_domain e = [] then d else eng_tls_server_domain e)) (set (eng_trace e))
      else set (eng_trace e))"
  by (simp add: engine_StartTls_def call_out_def)

lemma SignalError_not_open: "eng_state (SignalError c n e) \<noteq> STATE_OPEN"
  by (simp add: SignalError_def)

interpretation tls_guard: login_invariant tls_guard
proof unfold_locales
  fix lt lt' :: login_task and e e' :: engine and b :: bool
  assume I: "tls_guard lt e"
  show "login_step lt e = Continue lt' e' \<Longrightarrow> tls_guard lt' e'"
    using I by (cases "lt_state lt")
      (auto simp: login_cases tls_guard_def pre_tls_def split: option.splits if_splits prod.splits)
  show "login_step lt e = Return b lt' e' \<Longrightarrow> tls_guard lt' e'"
    using I SignalError_not_open by (cases "lt_state lt")
      (auto simp: login_cases tls_guard_def pre_tls_def split: option.splits if_splits prod.splits)
  show "tls_guard (lt\<lparr>lt_stanza := el, lt_isStart := s\<rparr>) e" for el s
    using I by (simp add: tls_guard_def)
qed

text \<open>
  The configurations of a login: the passes of the loop one by one, the stanzas that arrive,
  the stanzas the application queues.
\<close>

inductive login_reach :: "engine \<Rightarrow> login_task \<Rightarrow> engine \<Rightarrow> bool" for e0 where
  start: "login_reach e0 login_init e0"
| pass: "login_reach e0 lt e \<Longrightarrow> login_step lt e = Continue lt' e' \<Longrightarrow> login_reach e0 lt' e'"
| wait: "login_reach e0 lt e \<Longrightarrow> login_step lt e = Return b lt' e' \<Longrightarrow> login_reach e0 lt' e'"
| stanza: "login_reach e0 lt e \<Longrightarrow> login_reach e0 (lt\<lparr>lt_stanza := el, lt_isStart := s\<rparr>) e"
| queue: "login_reach e0 lt e \<Longrightarrow> login_reach e0 (OutgoingStanza el lt) e"

lemma login_reach_tls_guard:
  assumes "login_reach e0 lt e" "tls_guard login_init e0"
  shows "tls_guard lt e"
  using assms
proof (induction rule: login_reach.induct)
  case (queue lt e el)
  then show ?case by (simp add: tls_guard_def OutgoingStanza_def)
qed (auto intro: tls_guard.pass_continue tls_guard.pass_return tls_guard.new_stanza)

subsection \<open>Binding\<close>

definition bind_guard :: "login_task \<Rightarrow> engine \<Rightarrow> bool" where
  "bind_guard lt e \<longleftrightarrow>
     (lt_state lt = LOGINSTATE_SESSION_REQUESTED \<longrightarrow> Jid_IsFull (lt_fullJid lt)) \<and>
     (eng_state e = STATE_OPEN \<longrightarrow> Jid_IsFull (eng_bound_jid e))"

lemma engine_StartTls_bound [simp]: "eng_bound_jid (engine_StartTls d e) = eng_bound_jid e"
  by (simp add: engine_StartTls_def call_out_def)

interpretation bind_guard: login_invariant bind_guard
proof unfold_locales
  fix lt lt' :: login_task and e e' :: engine and b :: bool
  assume I: "bind_guard lt e"
  show "login_step lt e = Continue lt' e' \<Longrightarrow> bind_guard lt' e'"
    using I by (cases "lt_state lt")
      (auto simp: login_cases bind_guard_def split: option.splits if_splits prod.splits)
  show "login_step lt e = Return b lt' e' \<Longrightarrow> bind_guard lt' e'"
    using I SignalError_not_open by (cases "lt_state lt")
      (auto simp: login_cases bind_guard_def SignalBound_def split: option.splits if_splits prod.splits)
  show "bind_guard (lt\<lparr>lt_stanza := el, lt_isStart := s\<rparr>) e" for el s
    using I by (simp add: bind_guard_def)
qed

subsection \<open>A complete handshake\<close>

fun login_feed :: "(xml_element option \<times> bool) list \<Rightarrow> login_task \<Rightarrow> engine \<Rightarrow> (login_task \<times> engine) option" where
  "login_feed [] lt e = Some (lt, e)"
| "login_feed ((el, isStart) # rest) lt e =
     (case login_IncomingStanza el isStart lt e of
        None \<Rightarrow> None
      | Some (lt1, e1) \<Rightarrow> login_feed rest lt1 e1)"

definition stream_header :: "xml_element \<Rightarrow> bool" where
  "stream_header h \<longleftrightarrow> elt_name h = QN_STREAM_STREAM \<and> Attr h QN_XMLNS = ''jabber:client'' \<and>
     Attr h QN_VERSION = ''1.0'' \<and> HasAttr h QN_ID"

definition features_offer :: "xml_element \<Rightarrow> qname \<Rightarrow> bool" where
  "features_offer f n \<longleftrightarrow> elt_name f = QN_STREAM_FEATURES \<and> FirstNamed f n \<noteq> None"

definition features_lack :: "xml_element \<Rightarrow> qname \<Rightarrow> bool" where
  "features_lack f n \<longleftrightarrow> elt_name f = QN_STREAM_FEATURES \<and> FirstNamed f n = None"

definition iq_result :: "xml_element \<Rightarrow> string \<Rightarrow> bool" where
  "iq_result el i \<longleftrightarrow> elt_name el = QN_IQ \<and> Attr el QN_ID = i \<and> Attr el QN_TYPE = ''result''"

lemmas login_run = login_IncomingStanza_def login_cases copy_element_id

lemma feed_connect:
  "lt_state lt = LOGINSTATE_INIT \<Longrightarrow>
   login_IncomingStanza None False lt e =
     Some (lt\<lparr>lt_state := LOGINSTATE_STREAMSTART_SENT, lt_features := None, lt_stanza := None, lt_isStart := False\<rparr>,
       InternalSendStart (domain_name (eng_user_jid e)) (RaiseReset e))"
  by (simp add: login_run Advance.simps)

lemma feed_header:
  "lt_state lt = LOGINSTATE_STREAMSTART_SENT \<Longrightarrow> stream_header h \<Longrightarrow>
   login_IncomingStanza (Some h) True lt e =
     Some (lt\<lparr>lt_state := LOGINSTATE_STARTED_XMPP, lt_streamId := Attr h QN_ID, lt_stanza := None, lt_isStart := False\<rparr>, e)"
  by (simp add: login_run Advance.simps stream_header_def)

lemma feed_starttls:
  "lt_state lt = LOGINSTATE_STARTED_XMPP \<Longrightarrow> features_offer f QN_TLS_STARTTLS \<Longrightarrow>
   eng_tls_option e = TLS_REQUIRED \<or> eng_tls_option e = TLS_ENABLED \<Longrightarrow>
   login_IncomingStanza (Some f) False lt e =
     Some (lt\<lparr>lt_state := LOGINSTATE_TLS_REQUESTED, lt_features := Some f, lt_stanza := None, lt_isStart := False\<rparr>,
       InternalSendStanza (new_element_ns QN_TLS_STARTTLS True) e)"
  by (auto simp: login_run Advance.simps features_offer_def)

lemma feed_proceed:
  "lt_state lt = LOGINSTATE_TLS_REQUESTED \<Longrightarrow> elt_name p = QN_TLS_PROCEED \<Longrightarrow>
   login_IncomingStanza (Some p) False lt e =
     Some (lt\<lparr>lt_state := LOGINSTATE_STREAMSTART_SENT, lt_features := None, lt_stanza := None, lt_isStart := False\<rparr>,
       let e1 = (engine_StartTls (domain_name (eng_user_jid e)) e)\<lparr>eng_tls_option := TLS_ENABLED\<rparr> in
       InternalSendStart (domain_name (eng_user_jid e1)) (RaiseReset e1))"
  by (simp add: login_run Advance.simps)

lemma feed_mechanisms:
  "lt_state lt = LOGINSTATE_STARTED_XMPP \<Longrightarrow> features_lack f QN_TLS_STARTTLS \<Longrightarrow> lt_authNeeded lt \<Longrightarrow>
   eng_tls_option e \<noteq> TLS_REQUIRED \<Longrightarrow> FirstNamed f QN_SASL_MECHANISMS = Some ms \<Longrightarrow>
   eng_sasl_handler e = Some h \<Longrightarrow> ChooseBestSaslMechanism h (offered_mechanisms ms) (eng_encrypted e) = c \<Longrightarrow>
   c \<noteq> [] \<Longrightarrow> CreateSaslMechanism h c = Some mech \<Longrightarrow> StartSaslAuth mech = Some auth \<Longrightarrow>
   login_IncomingStanza (Some f) False lt e =
     Some (lt\<lparr>lt_state := LOGINSTATE_SASL_RUNNING, lt_features := Some f, lt_sasl_mech := Some mech,
              lt_stanza := None, lt_isStart := False\<rparr>,
       InternalSendStanza (if lt_allowNonGoogleLogin lt then google_auth_attrs auth else auth) e)"
  by (simp add: login_run Advance.simps features_lack_def)

lemma feed_success:
  "lt_state lt = LOGINSTATE_SASL_RUNNING \<Longrightarrow> elt_name s = QN_SASL_SUCCESS \<Longrightarrow>
   login_IncomingStanza (Some s) False lt e =
     Some (lt\<lparr>lt_state := LOGINSTATE_STREAMSTART_SENT, lt_authNeeded := False, lt_features := None,
              lt_stanza := None, lt_isStart := False\<rparr>,
       InternalSendStart (domain_name (eng_user_jid e)) (RaiseReset e))"
  by (simp add: login_run Advance.simps) (simp add: qname_consts)

lemma feed_bind:
  "lt_state lt = LOGINSTATE_STARTED_XMPP \<Longrightarrow> features_lack f QN_TLS_STARTTLS \<Longrightarrow> \<not> lt_authNeeded lt \<Longrightarrow>
   eng_tls_option e \<noteq> TLS_REQUIRED \<Longrightarrow> features_offer f QN_BIND_BIND \<Longrightarrow> features_offer f QN_SESSION_SESSION \<Longrightarrow>
   login_IncomingStanza (Some f) False lt e =
     Some (lt\<lparr>lt_state := LOGINSTATE_BIND_REQUESTED, lt_features := Some f, lt_iqId := nat_to_dec (eng_next_id e),
              lt_stanza := None, lt_isStart := False\<rparr>,
       InternalSendStanza (bind_request (nat_to_dec (eng_next_id e)) (eng_requested_resource e))
         (e\<lparr>eng_next_id := eng_next_id e + 1\<rparr>))"
  by (auto simp: login_run Advance.simps features_lack_def features_offer_def)

lemma feed_bound:
  "lt_state lt = LOGINSTATE_BIND_REQUESTED \<Longrightarrow> iq_result r (lt_iqId lt) \<Longrightarrow> FirstElement r = Some b \<Longrightarrow>
   elt_name b = QN_BIND_BIND \<Longrightarrow> Jid_of_string (TextNamed b QN_BIND_JID) = j \<Longrightarrow> Jid_IsFull j \<Longrightarrow>
   login_IncomingStanza (Some r) False lt e =
     Some (lt\<lparr>lt_state := LOGINSTATE_SESSION_REQUESTED, lt_fullJid := j, lt_iqId := nat_to_dec (eng_next_id e),
              lt_stanza := None, lt_isStart := False\<rparr>,
       InternalSendStanza (session_request (nat_to_dec (eng_next_id e))) (e\<lparr>eng_next_id := eng_next_id e + 1\<rparr>))"
  by (simp add: login_run Advance.simps iq_result_def not_our_answer_def)

lemma feed_session:
  "lt_state lt = LOGINSTATE_SESSION_REQUESTED \<Longrightarrow> iq_result r (lt_iqId lt) \<Longrightarrow>
   login_IncomingStanza (Some r) False lt e =
     Some (lt\<lparr>lt_state := LOGINSTATE_DONE, lt_queue := [], lt_stanza := None, lt_isStart := False\<rparr>,
       fold InternalSendStanza (lt_queue lt) (SignalBound (lt_fullJid lt) e))"
  by (simp add: login_run Advance.simps iq_result_def not_our_answer_def)

definition printed :: "xmlns_stack \<Rightarrow> xml_element \<Rightarrow> string" where
  "printed ns el = fst (the (PrintXml el ns))"

lemma InternalSendStanza_output: "eng_output (InternalSendStanza s e) = eng_output e @ printed (eng_xmlns e) s"
  using PrintElement_restores [of "eng_xmlns e" s]
  by (auto simp: InternalSendStanza_def PrintXml_def put_output_def printed_def)

lemma fold_InternalSendStanza_output:
  "eng_output (fold InternalSendStanza ss e) = eng_output e @ concat (map (printed (eng_xmlns e)) ss)"
  by (induction ss arbitrary: e) (simp_all add: InternalSendStanza_output)

lemma InternalSendStanza_update [simp]:
  "InternalSendStanza s (e\<lparr>eng_raised_reset := b\<rparr>) = (InternalSendStanza s e)\<lparr>eng_raised_reset := b\<rparr>"
  by (simp add: InternalSendStanza_def put_output_def split: option.split prod.split)

lemma SignalBound_opening:
  "eng_state e = STATE_OPENING \<Longrightarrow> eng_state (SignalBound j e) = STATE_OPEN \<and> eng_bound_jid (SignalBound j e) = j"
  by (simp add: SignalBound_def)

lemma more_engine_sel [simp]:
  "eng_user_jid (engine_StartTls d e) = eng_user_jid e" "eng_next_id (engine_StartTls d e) = eng_next_id e"
  "eng_requested_resource (engine_StartTls d e) = eng_requested_resource e"
  "eng_output (engine_StartTls d e) = eng_output e" "eng_xmlns (engine_StartTls d e) = eng_xmlns e"
  "eng_output (SignalBound j e) = eng_output e" "eng_xmlns (SignalBound j e) = eng_xmlns e"
  by (simp_all add: engine_StartTls_def call_out_def SignalBound_def)

lemma RaiseReset_sel [simp]:
  "eng_user_jid (RaiseReset e) = eng_user_jid e" "eng_next_id (RaiseReset e) = eng_next_id e"
  "eng_tls_option (RaiseReset e) = eng_tls_option e" "eng_encrypted (RaiseReset e) = eng_encrypted e"
  "eng_sasl_handler (RaiseReset e) = eng_sasl_handler e" "eng_state (RaiseReset e) = eng_state e"
  "eng_output_handler (RaiseReset e) = eng_output_handler e" "eng_output (RaiseReset e) = eng_output e"
  "eng_xmlns (RaiseReset e) = eng_xmlns e" "eng_requested_resource (RaiseReset e) = eng_requested_resource e"
  by (simp_all add: RaiseReset_def)

text \<open>What the server sends in a complete handshake with TLS, PLAIN, bind and session.\<close>

definition server_plays :: "engine \<Rightarrow> (xml_element option \<times> bool) list \<Rightarrow> jid \<Rightarrow> bool" where
  "server_plays e script j \<longleftrightarrow>
     (\<exists>h1 f1 pr h2 f2 ms su h3 f3 r1 b r2.
        script = [(None, False), (Some h1, True), (Some f1, False), (Some pr, False),
                  (Some h2, True), (Some f2, False), (Some su, False),
                  (Some h3, True), (Some f3, False), (Some r1, False), (Some r2, False)] \<and>
        stream_header h1 \<and> stream_header h2 \<and> stream_header h3 \<and>
        features_offer f1 QN_TLS_STARTTLS \<and> elt_name pr = QN_TLS_PROCEED \<and>
        features_lack f2 QN_TLS_STARTTLS \<and> FirstNamed f2 QN_SASL_MECHANISMS = Some ms \<and>
        ''PLAIN'' \<in> set (offered_mechanisms ms) \<and> elt_name su = QN_SASL_SUCCESS \<and>
        features_lack f3 QN_TLS_STARTTLS \<and> features_offer f3 QN_BIND_BIND \<and> features_offer f3 QN_SESSION_SESSION \<and>
        iq_result r1 (nat_to_dec (eng_next_id e)) \<and> FirstElement r1 = Some b \<and> elt_name b = QN_BIND_BIND \<and>
        Jid_of_string (TextNamed b QN_BIND_JID) = j \<and> Jid_IsFull j \<and>
        iq_result r2 (nat_to_dec (eng_next_id e + 1)))"

lemma login_handshake:
  assumes "server_plays e script j" and "eng_state e = STATE_OPENING" and "eng_output_handler e"
    and "eng_tls_option e \<noteq> TLS_DISABLED" and "eng_sasl_handler e = Some (PlainSaslHandler u p a)"
  shows "\<exists>lt' e' out. login_feed script (login_init\<lparr>lt_queue := q\<rparr>) e = Some (lt', e') \<and>
    login_IsDone lt' \<and> lt_queue lt' = [] \<and> eng_state e' = STATE_OPEN \<and> eng_bound_jid e' = j \<and>
    eng_encrypted e' \<and> eng_output e' = out @ concat (map (printed (eng_xmlns e)) q)"
proof -
  have tls: "eng_tls_option e = TLS_REQUIRED \<or> eng_tls_option e = TLS_ENABLED"
    using assms(4) by (cases "eng_tls_option e") auto
  obtain h1 f1 pr h2 f2 ms su h3 f3 r1 b r2 where
    script: "script = [(None, False), (Some h1, True), (Some f1, False), (Some pr, False),
                  (Some h2, True), (Some f2, False), (Some su, False),
                  (Some h3, True), (Some f3, False), (Some r1, False), (Some r2, False)]"
    and c: "stream_header h1" "stream_header h2" "stream_header h3"
      "features_offer f1 QN_TLS_STARTTLS" "elt_name pr = QN_TLS_PROCEED"
      "features_lack f2 QN_TLS_STARTTLS" "FirstNamed f2 QN_SASL_MECHANISMS = Some ms"
      "''PLAIN'' \<in> set (offered_mechanisms ms)" "elt_name su = QN_SASL_SUCCESS"
      "features_lack f3 QN_TLS_STARTTLS" "features_offer f3 QN_BIND_BIND" "features_offer f3 QN_SESSION_SESSION"
      "iq_result r1 (nat_to_dec (eng_next_id e))" "FirstElement r1 = Some b" "elt_name b = QN_BIND_BIND"
      "Jid_of_string (TextNamed b QN_BIND_JID) = j" "Jid_IsFull j"
      "iq_result r2 (nat_to_dec (eng_next_id e + 1))"
    using assms(1) unfolding server_plays_def by blast
  obtain auth where auth: "StartSaslAuth (SaslPlainMechanism u p) = Some auth"
    by (simp add: Let_def)
  note mech = feed_mechanisms [where h = "PlainSaslHandler u p a" and c = "''PLAIN''"
      and mech = "SaslPlainMechanism u p" and auth = auth and ms = ms]
  show ?thesis
    using assms(2,3,5) tls c auth
    by (simp add: script feed_connect feed_header feed_starttls feed_proceed mech feed_success
        feed_bind feed_bound feed_session login_init_def login_IsDone_def SignalBound_opening
        fold_InternalSendStanza_output del: StartSaslAuth.simps)
qed

subsection \<open>A sample login\<close>

definition sample_engine :: engine where
  "sample_engine = engine_init\<lparr>eng_state := STATE_OPENING, eng_output_handler := True,
     eng_sasl_handler := Some (PlainSaslHandler Jid_empty ''pw'' False)\<rparr>"

definition sample_script :: "(xml_element option \<times> bool) list" where
  "sample_script =
     [(None, False),
      (Some (XmlElement QN_STREAM_STREAM [(QN_XMLNS, ''jabber:client''), (QN_VERSION, ''1.0''), (QN_ID, ''7'')] [] False), True),
      (Some (XmlElement QN_STREAM_FEATURES [] [XmlElem (new_element QN_TLS_STARTTLS)] False), False),
      (Some (new_element QN_TLS_PROCEED), False),
      (Some (XmlElement QN_STREAM_STREAM [(QN_XMLNS, ''jabber:client''), (QN_VERSION, ''1.0''), (QN_ID, ''8'')] [] False), True),
      (Some (XmlElement QN_STREAM_FEATURES [] [XmlElem (XmlElement QN_SASL_MECHANISMS []
               [XmlElem (XmlElement QN_SASL_MECHANISM [] [XmlText ''PLAIN''] False)] False)] False), False),
      (Some (new_element QN_SASL_SUCCESS), False),
      (Some (XmlElement QN_STREAM_STREAM [(QN_XMLNS, ''jabber:client''), (QN_VERSION, ''1.0''), (QN_ID, ''9'')] [] False), True),
      (Some (XmlElement QN_STREAM_FEATURES [] [XmlElem (new_element QN_BIND_BIND), XmlElem (new_element QN_SESSION_SESSION)] False), False),
      (Some (XmlElement QN_IQ [(QN_ID, ''0''), (QN_TYPE, ''result'')] [XmlElem (XmlElement QN_BIND_BIND []
               [XmlElem (XmlElement QN_BIND_JID [] [XmlText ''a@b/c''] False)] False)] False), False),
      (Some (XmlElement QN_IQ [(QN_ID, ''1''), (QN_TYPE, ''result'')] [] False), False)]"

lemma sample_server_plays: "server_plays sample_engine sample_script (Jid ''a'' ''b'' ''c'')"
proof -
  have j: "Jid_of_string ''a@b/c'' = Jid ''a'' ''b'' ''c''" by code_simp
  have d: "nat_to_dec 0 = ''0''" "nat_to_dec (Suc 0) = ''1''" by code_simp+
  note evals = stream_header_def features_offer_def features_lack_def iq_result_def Attr_def HasAttr_def
    FirstNamed_filter FirstElement_elements TextNamed_def NextNamed_def BodyText_def offered_mechanisms_def
    named_elements_filter engine_init_def d j Jid_IsFull_def Jid_IsValid_def new_element_def sample_engine_def
  show ?thesis
    unfolding server_plays_def sample_script_def
    by (simp add: evals) (auto simp: qname_consts)
qed

lemma login_reach_feed:
  "login_feed script lt e = Some (lt', e') \<Longrightarrow> login_reach e0 lt e \<Longrightarrow> login_reach e0 lt' e'"
proof (induction script lt e rule: login_feed.induct)
  case (2 el isStart rest lt e)
  have adv: "login_reach e0 lt2 e2" if "Advance lt1 e1 = Some (b, lt2, e2)" "login_reach e0 lt1 e1" for b lt1 e1 lt2 e2
    using that
  proof (induction lt1 e1 rule: Advance.induct)
    case (1 lt1 e1)
    then show ?case
      by (subst (asm) (2) Advance.simps)
         (auto split: advance_result.splits intro: login_reach.pass login_reach.wait)
  qed
  obtain lt1 e1 where one: "login_IncomingStanza el isStart lt e = Some (lt1, e1)"
    and rest: "login_feed rest lt1 e1 = Some (lt', e')"
    using 2(2) by (auto split: option.splits)
  from one have "login_reach e0 lt1 e1"
    using adv [OF _ login_reach.stanza [OF 2(3)]]
    by (auto simp: login_IncomingStanza_def split: option.splits intro!: login_reach.stanza)
  with 2(1) [OF one refl rest] show ?case .
qed simp

subsection \<open>Properties\<close>

text \<open>C2: TLS comes before authentication. In a login that started with TLS required and an output
  handler, the states that talk to the SASL mechanism, bind or open the session are reached only
  when the connection is encrypted, after \<open>StartTls\<close> was called on the output handler; the same
  holds when the engine is open.\<close>

theorem tls_before_auth:
  assumes "login_reach e0 lt e" and "eng_tls_option e0 = TLS_REQUIRED" and "eng_output_handler e0"
    and "eng_state e0 \<noteq> STATE_OPEN" and "\<not> eng_encrypted e0"
    and "lt_state lt \<in> {LOGINSTATE_AUTH_INIT, LOGINSTATE_SASL_RUNNING, LOGINSTATE_BIND_INIT,
      LOGINSTATE_BIND_REQUESTED, LOGINSTATE_SESSION_REQUESTED} \<or> eng_state e = STATE_OPEN"
  shows "eng_encrypted e \<and> (\<exists>d. OutputStartTls d \<in> set (eng_trace e))"
proof -
  have "tls_guard login_init e0"
    using assms(2-5) by (simp add: tls_guard_def login_init_def pre_tls_def)
  with assms(1) have "tls_guard lt e" by (rule login_reach_tls_guard)
  with assms(6) show ?thesis by (auto simp: tls_guard_def pre_tls_def)
qed

theorem tls_before_auth_witness:
  "\<exists>lt e d. login_reach sample_engine lt e \<and> eng_state e = STATE_OPEN \<and> OutputStartTls d \<in> set (eng_trace e)"
proof -
  obtain lt e where f: "login_feed sample_script login_init sample_engine = Some (lt, e)" and o: "eng_state e = STATE_OPEN"
    using login_handshake [OF sample_server_plays, of Jid_empty "''pw''" False "[]"]
    by (auto simp: sample_engine_def engine_init_def login_init_def)
  from f have r: "login_reach sample_engine lt e"
    using login_reach.start by (rule login_reach_feed)
  with o show ?thesis
    using tls_before_auth [OF r] by (auto simp: sample_engine_def engine_init_def)
qed





text \<open>C6: a server that plays its part gets the client logged in: stream header, STARTTLS, proceed,
  PLAIN, success, bind and session, in ten stanzas. The engine is then open and encrypted with
  the Jid the server bound, and the stanzas the application had queued have been written in the
  order in which they were queued.\<close>

theorem handshake_logs_in:
  assumes "server_plays e script j" and "eng_state e = STATE_OPENING" and "eng_output_handler e"
    and "eng_tls_option e \<noteq> TLS_DISABLED" and "eng_sasl_handler e = Some (PlainSaslHandler u p a)"
  shows "\<exists>lt' e' out. login_feed script (login_init\<lparr>lt_queue := q\<rparr>) e = Some (lt', e') \<and>
    login_IsDone lt' \<and> lt_queue lt' = [] \<and> eng_state e' = STATE_OPEN \<and> eng_bound_jid e' = j \<and>
    eng_encrypted e' \<and> eng_output e' = out @ concat (map (printed (eng_xmlns e)) q)"
  using assms by (rule login_handshake)

theorem handshake_logs_in_witness:
  "\<exists>lt' e'. login_feed sample_script (login_init\<lparr>lt_queue := [new_element QN_PRESENCE]\<rparr>) sample_engine = Some (lt', e') \<and>
     eng_state e' = STATE_OPEN \<and> eng_bound_jid e' = Jid ''a'' ''b'' ''c''"
  using handshake_logs_in [OF sample_server_plays, of Jid_empty "''pw''" False "[new_element QN_PRESENCE]"]
  by (auto simp: sample_engine_def engine_init_def)

end
