(* ===== verification/EngineInput.thy ===== *)
theory EngineInput
  imports Login Stanzas
begin

text \<open>
  The rest of the engine: sending stanzas and iqs (\<open>xmppengineimpl.cc\<close>,
  \<open>xmppengineimpl_iq.cc\<close>), the error stanza, the dispatch of incoming stanzas to the login
  task, the iq entries and the stanza handlers, and the connection, which is the stanza parser
  with the engine as its client.

  The application is the parameter \<open>app\<close>: what a stanza handler or an iq handler does when it is
  called is a list of calls to the engine, chosen from the engine's state, and, for a stanza
  handler, whether it handled the stanza. The loops over the handlers look at the vectors
  anew in every round, as the code does; a handler may change them, and a handler that keeps
  adding handlers keeps the loop going, which is the value \<^const>\<open>None\<close>.
\<close>

subsection \<open>Sending\<close>

definition SendStanza :: "xml_element \<Rightarrow> engine \<Rightarrow> return_status \<times> engine" where
  "SendStanza element e =
     (if eng_state e = STATE_CLOSED then (XMPP_RETURN_BADSTATE, e)
      else (XMPP_RETURN_OK,
        within (\<lambda>e. case eng_login e of
                    Some lt \<Rightarrow> e\<lparr>eng_login := Some (OutgoingStanza element lt)\<rparr>
                  | None \<Rightarrow> InternalSendStanza element e) e))"

text \<open>\<open>SendIq\<close>: null pointers are \<^const>\<open>None\<close>; the cookie is the new entry's address.\<close>

definition SendIq ::
  "xml_element option \<Rightarrow> nat option \<Rightarrow> engine \<Rightarrow> return_status \<times> nat option \<times> engine" where
  "SendIq element iq_handler e =
     (if eng_state e = STATE_CLOSED then (XMPP_RETURN_BADSTATE, None, e)
      else case iq_handler of None \<Rightarrow> (XMPP_RETURN_BADARGUMENT, None, e)
      | Some h \<Rightarrow>
        (case element of None \<Rightarrow> (XMPP_RETURN_BADARGUMENT, None, e)
         | Some el \<Rightarrow>
           (if elt_name el \<noteq> QN_IQ then (XMPP_RETURN_BADARGUMENT, None, e)
            else if Attr el QN_TYPE \<noteq> ''get'' \<and> Attr el QN_TYPE \<noteq> ''set'' then (XMPP_RETURN_BADARGUMENT, None, e)
            else if \<not> HasAttr el QN_ID then (XMPP_RETURN_BADARGUMENT, None, e)
            else let cookie = eng_next_cookie e;
                     entry = \<lparr>iqe_cookie = cookie, iqe_id = Attr el QN_ID, iqe_to = Attr el QN_TO, iqe_handler = h\<rparr>;
                     e1 = e\<lparr>eng_iq_entries := eng_iq_entries e @ [entry], eng_next_cookie := cookie + 1\<rparr>;
                     (status, e2) = SendStanza el e1 in
              (XMPP_RETURN_OK, Some cookie, e2))))"

fun remove_entry :: "(iq_entry \<Rightarrow> bool) \<Rightarrow> iq_entry list \<Rightarrow> (iq_entry \<times> iq_entry list) option" where
  "remove_entry P [] = None"
| "remove_entry P (x # xs) =
     (if P x then Some (x, xs)
      else case remove_entry P xs of None \<Rightarrow> None | Some (y, ys) \<Rightarrow> Some (y, x # ys))"

definition RemoveIqHandler :: "nat \<Rightarrow> engine \<Rightarrow> return_status \<times> nat option \<times> engine" where
  "RemoveIqHandler cookie e =
     (case remove_entry (\<lambda>x. iqe_cookie x = cookie) (eng_iq_entries e) of
        None \<Rightarrow> (XMPP_RETURN_BADARGUMENT, None, e)
      | Some (entry, rest) \<Rightarrow> (XMPP_RETURN_OK, Some (iqe_handler entry), e\<lparr>eng_iq_entries := rest\<rparr>))"

definition DeleteIqCookies :: "engine \<Rightarrow> engine" where
  "DeleteIqCookies e = e\<lparr>eng_iq_entries := []\<rparr>"

subsection \<open>Error stanzas\<close>

datatype stanza_error = XSE_BAD_REQUEST | XSE_CONFLICT | XSE_FEATURE_NOT_IMPLEMENTED | XSE_FORBIDDEN
  | XSE_GONE | XSE_INTERNAL_SERVER_ERROR | XSE_ITEM_NOT_FOUND | XSE_JID_MALFORMED | XSE_NOT_ACCEPTABLE
  | XSE_NOT_ALLOWED | XSE_PAYMENT_REQUIRED | XSE_RECIPIENT_UNAVAILABLE | XSE_REDIRECT
  | XSE_REGISTRATION_REQUIRED | XSE_SERVER_NOT_FOUND | XSE_SERVER_TIMEOUT | XSE_RESOURCE_CONSTRAINT
  | XSE_SERVICE_UNAVAILABLE | XSE_SUBSCRIPTION_REQUIRED | XSE_UNDEFINED_CONDITION | XSE_UNEXPECTED_REQUEST

text \<open>The depth-one additions go to the error element just added.\<close>

definition AecImpl :: "xml_element \<Rightarrow> qname \<Rightarrow> string \<Rightarrow> string \<Rightarrow> xml_element option" where
  "AecImpl error_element name typ code =
     Option.bind (AddAttr_depth (AddElement error_element (Some (new_element QN_ERROR))) QN_CODE code 1)
       (\<lambda>x. Option.bind (AddAttr_depth x QN_TYPE typ 1)
         (\<lambda>y. AddElement_depth y (Some (new_element_ns name True)) 1))"

fun error_condition :: "stanza_error \<Rightarrow> qname \<times> string \<times> string" where
  "error_condition XSE_BAD_REQUEST = (QN_STANZA_BAD_REQUEST, ''modify'', ''400'')"
| "error_condition XSE_CONFLICT = (QN_STANZA_CONFLICT, ''cancel'', ''409'')"
| "error_condition XSE_FEATURE_NOT_IMPLEMENTED = (QN_STANZA_FEATURE_NOT_IMPLEMENTED, ''cancel'', ''501'')"
| "error_condition XSE_FORBIDDEN = (QN_STANZA_FORBIDDEN, ''auth'', ''403'')"
| "error_condition XSE_GONE = (QN_STANZA_GONE, ''modify'', ''302'')"
| "error_condition XSE_INTERNAL_SERVER_ERROR = (QN_STANZA_INTERNAL_SERVER_ERROR, ''wait'', ''500'')"
| "error_condition XSE_ITEM_NOT_FOUND = (QN_STANZA_ITEM_NOT_FOUND, ''cancel'', ''404'')"
| "error_condition XSE_JID_MALFORMED = (QN_STANZA_JID_MALFORMED, ''modify'', ''400'')"
| "error_condition XSE_NOT_ACCEPTABLE = (QN_STANZA_NOT_ACCEPTABLE, ''cancel'', ''406'')"
| "error_condition XSE_NOT_ALLOWED = (QN_STANZA_NOT_ALLOWED, ''cancel'', ''405'')"
| "error_condition XSE_PAYMENT_REQUIRED = (QN_STANZA_PAYMENT_REQUIRED, ''auth'', ''402'')"
| "error_condition XSE_RECIPIENT_UNAVAILABLE = (QN_STANZA_RECIPIENT_UNAVAILABLE, ''wait'', ''404'')"
| "error_condition XSE_REDIRECT = (QN_STANZA_REDIRECT, ''modify'', ''302'')"
| "error_condition XSE_REGISTRATION_REQUIRED = (QN_STANZA_REGISTRATION_REQUIRED, ''auth'', ''407'')"
| "error_condition XSE_SERVER_NOT_FOUND = (QN_STANZA_REMOTE_SERVER_NOT_FOUND, ''cancel'', ''404'')"
| "error_condition XSE_SERVER_TIMEOUT = (QN_STANZA_REMOTE_SERVER_TIMEOUT, ''wait'', ''502'')"
| "error_condition XSE_RESOURCE_CONSTRAINT = (QN_STANZA_RESOURCE_CONSTRAINT, ''wait'', ''500'')"
| "error_condition XSE_SERVICE_UNAVAILABLE = (QN_STANZA_SERVICE_UNAVAILABLE, ''cancel'', ''503'')"
| "error_condition XSE_SUBSCRIPTION_REQUIRED = (QN_STANZA_SUBSCRIPTION_REQUIRED, ''auth'', ''407'')"
| "error_condition XSE_UNDEFINED_CONDITION = (QN_STANZA_UNDEFINED_CONDITION, ''wait'', ''500'')"
| "error_condition XSE_UNEXPECTED_REQUEST = (QN_STANZA_UNEXPECTED_REQUEST, ''wait'', ''400'')"

definition AddErrorCode :: "xml_element \<Rightarrow> stanza_error \<Rightarrow> xml_element option" where
  "AddErrorCode error_element code =
     (let (name, typ, num) = error_condition code in AecImpl error_element name typ num)"

fun error_attrs :: "(qname \<times> string) list \<Rightarrow> xml_element \<Rightarrow> xml_element" where
  "error_attrs [] error_element = error_element"
| "error_attrs ((name, v) # rest) error_element =
     (if name = QN_TO then error_attrs rest error_element
      else if name = QN_FROM then error_attrs rest (AddAttr error_element QN_TO v)
      else if name = QN_TYPE then error_attrs rest error_element
      else error_attrs rest (AddAttr error_element name v))"

fun error_children :: "xml_child list \<Rightarrow> xml_element \<Rightarrow> xml_element" where
  "error_children [] error_element = error_element"
| "error_children (XmlText t # rest) error_element = error_children rest (AddText error_element t)"
| "error_children (XmlElem c # rest) error_element =
     error_children rest (AddElement error_element (Some (copy_element c)))"

definition error_stanza :: "xml_element \<Rightarrow> stanza_error \<Rightarrow> string \<Rightarrow> xml_element option" where
  "error_stanza element_original code txt =
     (let err = AddAttr (new_element (elt_name element_original)) QN_TYPE ''error'';
          err = error_attrs (elt_attrs element_original) err;
          err = error_children (elt_children element_original) err in
      map_option (\<lambda>err.
          if txt \<noteq> [] then AddElement err (Some (AddText (new_element_ns QN_STANZA_TEXT True) txt)) else err)
        (AddErrorCode err code))"

definition SendStanzaError :: "xml_element \<Rightarrow> stanza_error \<Rightarrow> string \<Rightarrow> engine \<Rightarrow> (return_status \<times> engine) option" where
  "SendStanzaError element_original code txt e =
     (if eng_state e = STATE_CLOSED then Some (XMPP_RETURN_BADSTATE, e)
      else case error_stanza element_original code txt of
          None \<Rightarrow> None
        | Some err \<Rightarrow> Some (XMPP_RETURN_OK, snd (SendStanza err e)))"

subsection \<open>Connecting\<close>

definition login_input :: "xml_element option \<Rightarrow> bool \<Rightarrow> login_task \<Rightarrow> engine \<Rightarrow> engine option" where
  "login_input element isStart lt e =
     (case login_IncomingStanza element isStart lt e of
        None \<Rightarrow> None
      | Some (lt1, e1) \<Rightarrow> Some (e1\<lparr>eng_login := (if login_IsDone lt1 then None else Some lt1)\<rparr>))"

definition Connect :: "engine \<Rightarrow> (return_status \<times> engine) option" where
  "Connect e =
     (if eng_state e \<noteq> STATE_START then Some (XMPP_RETURN_BADSTATE, e)
      else let e1 = (enter_engine e)\<lparr>eng_state := STATE_OPENING\<rparr> in
        map_option (\<lambda>e2. (XMPP_RETURN_OK, exit_engine (eng_state e) e2))
          (case eng_login e1 of None \<Rightarrow> Some e1 | Some lt \<Rightarrow> login_input None False lt e1))"

subsection \<open>The calls an application can make\<close>

datatype api_call =
    CallSetOutputHandler bool | CallSetSessionHandler bool | CallSetTls tls_option
  | CallSetTlsServer string string | CallSetUser jid | CallSetSaslHandler "sasl_handler option"
  | CallSetRequestedResource string | CallSetLanguage string
  | CallAddStanzaHandler nat handler_level | CallRemoveStanzaHandler nat
  | CallConnect | CallSendStanza xml_element | CallSendRaw string | CallNextId
  | CallSendIq "xml_element option" "nat option" | CallRemoveIqHandler nat
  | CallSendStanzaError xml_element stanza_error string
  | CallDisconnect | CallConnectionClosed int

fun api :: "api_call \<Rightarrow> engine \<Rightarrow> engine option" where
  "api (CallSetOutputHandler b) e = Some (snd (SetOutputHandler b e))"
| "api (CallSetSessionHandler b) e = Some (snd (SetSessionHandler b e))"
| "api (CallSetTls t) e = Some (snd (SetTls t e))"
| "api (CallSetTlsServer h d) e = Some (snd (SetTlsServer h d e))"
| "api (CallSetUser j) e = Some (snd (SetUser j e))"
| "api (CallSetSaslHandler h) e = Some (snd (SetSaslHandler h e))"
| "api (CallSetRequestedResource r) e = Some (snd (SetRequestedResource r e))"
| "api (CallSetLanguage l) e = Some (SetLanguage l e)"
| "api (CallAddStanzaHandler h level) e = Some (snd (AddStanzaHandler h level e))"
| "api (CallRemoveStanzaHandler h) e = Some (snd (RemoveStanzaHandler h e))"
| "api CallConnect e = map_option snd (Connect e)"
| "api (CallSendStanza el) e = Some (snd (SendStanza el e))"
| "api (CallSendRaw t) e = Some (snd (SendRaw t e))"
| "api CallNextId e = Some (snd (NextId e))"
| "api (CallSendIq el h) e = Some (snd (snd (SendIq el h e)))"
| "api (CallRemoveIqHandler cookie) e = Some (snd (snd (RemoveIqHandler cookie e)))"
| "api (CallSendStanzaError el code t) e = map_option snd (SendStanzaError el code t e)"
| "api CallDisconnect e = Some (snd (Disconnect e))"
| "api (CallConnectionClosed n) e = Some (snd (ConnectionClosed n e))"

fun api_calls :: "api_call list \<Rightarrow> engine \<Rightarrow> engine option" where
  "api_calls [] e = Some e"
| "api_calls (c # cs) e = Option.bind (api c e) (api_calls cs)"

record app =
  app_stanza :: "nat \<Rightarrow> xml_element \<Rightarrow> engine \<Rightarrow> api_call list \<times> bool"
  app_iq :: "nat \<Rightarrow> nat \<Rightarrow> xml_element \<Rightarrow> engine \<Rightarrow> api_call list"

subsection \<open>Incoming stanzas\<close>

definition call_handler :: "app \<Rightarrow> nat \<Rightarrow> xml_element \<Rightarrow> engine \<Rightarrow> (bool \<times> engine) option" where
  "call_handler A h stanza e =
     (let e1 = call_out (HandleStanza h stanza) e; (calls, handled) = app_stanza A h stanza e1 in
      map_option (\<lambda>e2. (handled, e2)) (api_calls calls e1))"

definition HandleIqResponse :: "app \<Rightarrow> xml_element \<Rightarrow> engine \<Rightarrow> (bool \<times> engine) option" where
  "HandleIqResponse A element e =
     (if eng_iq_entries e = [] then Some (False, e)
      else if elt_name element \<noteq> QN_IQ then Some (False, e)
      else if Attr element QN_TYPE \<noteq> ''result'' \<and> Attr element QN_TYPE \<noteq> ''error'' then Some (False, e)
      else if \<not> HasAttr element QN_ID then Some (False, e)
      else case remove_entry (\<lambda>x. iqe_id x = Attr element QN_ID \<and> iqe_to x = Attr element QN_FROM) (eng_iq_entries e) of
          None \<Rightarrow> Some (False, e)
        | Some (entry, rest) \<Rightarrow>
            (let e1 = call_out (IqResponse (iqe_handler entry) (iqe_cookie entry) element) (e\<lparr>eng_iq_entries := rest\<rparr>) in
             map_option (\<lambda>e2. (True, e2)) (api_calls (app_iq A (iqe_handler entry) (iqe_cookie entry) element e1) e1)))"

partial_function (option) peek_loop :: "app \<Rightarrow> xml_element \<Rightarrow> nat \<Rightarrow> engine \<Rightarrow> engine option" where
  "peek_loop A stanza i e =
     (if i < length (eng_handlers e HL_PEEK) then
        Option.bind (call_handler A (eng_handlers e HL_PEEK ! i) stanza e)
          (\<lambda>(handled, e1). peek_loop A stanza (i + 1) e1)
      else Some e)"

partial_function (option) level_loop ::
  "app \<Rightarrow> xml_element \<Rightarrow> handler_level list \<Rightarrow> nat \<Rightarrow> engine \<Rightarrow> (bool \<times> engine) option" where
  "level_loop A stanza levels i e =
     (case levels of
        [] \<Rightarrow> Some (False, e)
      | level # rest \<Rightarrow>
          (if i < length (eng_handlers e level) then
             Option.bind (call_handler A (eng_handlers e level ! i) stanza e)
               (\<lambda>(handled, e1). if handled then Some (True, e1) else level_loop A stanza levels (i + 1) e1)
           else level_loop A stanza rest 0 e))"

definition unhandled_stanza :: "xml_element \<Rightarrow> engine \<Rightarrow> engine option" where
  "unhandled_stanza stanza e =
     (let typ = Attr stanza QN_TYPE in
      if elt_name stanza = QN_IQ \<and> \<not> (typ = ''error'' \<or> typ = ''result'')
      then map_option snd (SendStanzaError stanza XSE_FEATURE_NOT_IMPLEMENTED [] e)
      else Some e)"

definition dispatch_stanza :: "app \<Rightarrow> xml_element \<Rightarrow> engine \<Rightarrow> engine option" where
  "dispatch_stanza A stanza e =
     Option.bind (peek_loop A stanza 0 e) (\<lambda>e1.
       Option.bind (level_loop A stanza [HL_SINGLE, HL_SENDER, HL_TYPE, HL_ALL] 0 e1) (\<lambda>(handled, e2).
         if handled then Some e2 else unhandled_stanza stanza e2))"

definition engine_IncomingStanza :: "app \<Rightarrow> xml_element option \<Rightarrow> engine \<Rightarrow> engine option" where
  "engine_IncomingStanza A stanza_or_null e =
     (if HasError e \<or> eng_raised_reset e then Some e
      else case stanza_or_null of None \<Rightarrow> None
      | Some stanza \<Rightarrow>
        (if elt_name stanza = QN_STREAM_ERROR then Some (SignalStreamError stanza e)
         else case eng_login e of
             Some lt \<Rightarrow> login_input (Some stanza) False lt e
           | None \<Rightarrow>
               Option.bind (HandleIqResponse A stanza e) (\<lambda>(handled, e1).
                 if handled then Some e1 else dispatch_stanza A stanza e1)))"

definition engine_IncomingStart :: "xml_element \<Rightarrow> engine \<Rightarrow> engine option" where
  "engine_IncomingStart start e =
     (if HasError e \<or> eng_raised_reset e then Some e
      else case eng_login e of
          Some lt \<Rightarrow> login_input (Some start) True lt e
        | None \<Rightarrow> Some (SignalError ERROR_XML 0 e))"

definition engine_IncomingEnd :: "bool \<Rightarrow> engine \<Rightarrow> engine" where
  "engine_IncomingEnd isError e =
     (if HasError e \<or> eng_raised_reset e then e
      else SignalError (if isError then ERROR_XML else ERROR_DOCUMENT_CLOSED) 0 e)"

definition engine_client :: "app \<Rightarrow> engine stanza_client" where
  "engine_client A =
     \<lparr>sc_StartStream = engine_IncomingStart, sc_Stanza = engine_IncomingStanza A,
      sc_EndStream = (\<lambda>e. Some (engine_IncomingEnd False e)),
      sc_XmlError = (\<lambda>e. Some (engine_IncomingEnd True e))\<rparr>"

subsection \<open>The connection\<close>

type_synonym 'x connection = "('x, engine stanza_parser) xml_parser"

definition conn_engine :: "'x connection \<Rightarrow> engine" where
  "conn_engine c = sp_client (xp_handler c)"

definition with_engine :: "engine \<Rightarrow> 'x connection \<Rightarrow> 'x connection" where
  "with_engine e c = c\<lparr>xp_handler := (xp_handler c)\<lparr>sp_client := e\<rparr>\<rparr>"

text \<open>The reset of the parser that \<open>EnterExit\<close> has asked for.\<close>

definition finish_call :: "'x \<Rightarrow> 'x connection \<Rightarrow> 'x connection" where
  "finish_call x0 c =
     (if eng_parser_reset (conn_engine c)
      then stanza_parser_Reset x0 (with_engine ((conn_engine c)\<lparr>eng_parser_reset := False\<rparr>) c)
      else c)"

definition connection_init :: "'x \<Rightarrow> 'x connection" where
  "connection_init x0 = parser_init x0 (stanza_parser_init engine_init)"

definition HandleInput ::
  "'x expat_feed \<Rightarrow> 'x \<Rightarrow> app \<Rightarrow> string \<Rightarrow> 'x connection \<Rightarrow> (return_status \<times> 'x connection) option" where
  "HandleInput feed x0 A bytes c =
     (let e = conn_engine c in
      if eng_state e \<notin> {STATE_OPENING, STATE_OPEN} then Some (XMPP_RETURN_BADSTATE, c)
      else case Parse feed (stanza_handler (engine_client A)) bytes False (with_engine (enter_engine e) c) of
          None \<Rightarrow> None
        | Some (c1, ok) \<Rightarrow>
            Some (XMPP_RETURN_OK, finish_call x0 (with_engine (exit_engine (eng_state e) (conn_engine c1)) c1)))"

definition conn_api :: "'x \<Rightarrow> api_call \<Rightarrow> 'x connection \<Rightarrow> 'x connection option" where
  "conn_api x0 call c = map_option (\<lambda>e. finish_call x0 (with_engine e c)) (api call (conn_engine c))"

inductive conn_reach :: "'x expat_feed \<Rightarrow> 'x \<Rightarrow> app \<Rightarrow> 'x connection \<Rightarrow> bool" for feed x0 A where
  init: "conn_reach feed x0 A (connection_init x0)"
| input: "conn_reach feed x0 A c \<Longrightarrow> HandleInput feed x0 A bytes c = Some (status, c') \<Longrightarrow> conn_reach feed x0 A c'"
| call: "conn_reach feed x0 A c \<Longrightarrow> conn_api x0 k c = Some c' \<Longrightarrow> conn_reach feed x0 A c'"

subsection \<open>A relation that every engine operation keeps is kept by whole calls\<close>

lemma conn_engine_with [simp]: "conn_engine (with_engine e c) = e"
  by (simp add: conn_engine_def with_engine_def)

lemma conn_engine_finish [simp]: "conn_engine (finish_call x0 c) = (conn_engine c)\<lparr>eng_parser_reset := False\<rparr>"
  by (simp add: finish_call_def conn_engine_def with_engine_def stanza_parser_Reset_def parser_Reset_def Let_def)

lemma conn_engine_init [simp]: "conn_engine (connection_init x0) = engine_init"
  by (simp add: conn_engine_def connection_init_def parser_init_def stanza_parser_init_def)

text \<open>
  First for one application \<open>A\<close>: the relation is kept by each call of a handler that is registered,
  by the responses, and by what the engine does itself.
\<close>

locale app_relation =
  fixes R :: "engine \<Rightarrow> engine \<Rightarrow> bool" and A :: app
  assumes refl_eng [simp]: "R e e"
    and trans_eng [trans]: "R a b \<Longrightarrow> R b c \<Longrightarrow> R a c"
    and handler_call: "i < length (eng_handlers e level) \<Longrightarrow>
      call_handler A (eng_handlers e level ! i) stanza e = Some (handled, e') \<Longrightarrow> R e e'"
    and response_call: "HandleIqResponse A el e = Some (handled, e') \<Longrightarrow> R e e'"
    and unhandled_call: "unhandled_stanza stanza e = Some e' \<Longrightarrow> R e e'"
    and login_call: "eng_login e = Some lt \<Longrightarrow> login_input input isStart lt e = Some e' \<Longrightarrow> R e e'"
    and error_call: "R e (SignalError code n e)"
    and stream_error_call: "R e (SignalStreamError el e)"
begin

lemma peek_loop_rel:
  assumes "peek_loop A stanza i e = Some e'"
  shows "R e e'"
proof -
  have "B = A \<longrightarrow> R e e'" if "peek_loop B stanza i e = Some e'" for B
  proof (rule peek_loop.raw_induct [where P = "\<lambda>B stanza i e e'. B = A \<longrightarrow> R e e'", OF _ that])
    fix f B stanza i e e'
    assume IH: "\<And>B stanza i e e'. f B stanza i e = Some e' \<Longrightarrow> B = A \<longrightarrow> R e e'"
      and f: "(if i < length (eng_handlers e HL_PEEK)
        then Option.bind (call_handler B (eng_handlers e HL_PEEK ! i) stanza e)
              (\<lambda>(handled, e1). f B stanza (i + 1) e1)
        else Some e) = Some e'"
    show "B = A \<longrightarrow> R e e'"
      using f by (auto simp: bind_eq_Some_conv split: if_splits prod.splits
          intro: trans_eng [OF handler_call IH [rule_format]])
  qed
  then show ?thesis using assms by blast
qed

lemma level_loop_rel:
  assumes "level_loop A stanza levels i e = Some r"
  shows "R e (snd r)"
proof -
  have "B = A \<longrightarrow> R e (snd r)" if "level_loop B stanza levels i e = Some r" for B
  proof (rule level_loop.raw_induct [where P = "\<lambda>B stanza levels i e r. B = A \<longrightarrow> R e (snd r)", OF _ that])
    fix f B stanza levels i e r
    assume IH: "\<And>B stanza levels i e r. f B stanza levels i e = Some r \<Longrightarrow> B = A \<longrightarrow> R e (snd r)"
      and f: "(case levels of
          [] \<Rightarrow> Some (False, e)
        | level # rest \<Rightarrow>
            (if i < length (eng_handlers e level) then
               Option.bind (call_handler B (eng_handlers e level ! i) stanza e)
                 (\<lambda>(handled, e1). if handled then Some (True, e1) else f B stanza levels (i + 1) e1)
             else f B stanza rest 0 e)) = Some r"
    show "B = A \<longrightarrow> R e (snd r)"
      using f by (auto simp: bind_eq_Some_conv split: if_splits prod.splits list.splits
          intro: handler_call IH [rule_format] trans_eng [OF handler_call IH [rule_format]])
  qed
  then show ?thesis using assms by blast
qed

lemma dispatch_rel: "dispatch_stanza A stanza e = Some e' \<Longrightarrow> R e e'"
proof -
  assume "dispatch_stanza A stanza e = Some e'"
  then obtain e1 handled e2 where "peek_loop A stanza 0 e = Some e1"
    and "level_loop A stanza [HL_SINGLE, HL_SENDER, HL_TYPE, HL_ALL] 0 e1 = Some (handled, e2)"
    and last: "(if handled then Some e2 else unhandled_stanza stanza e2) = Some e'"
    by (auto simp: dispatch_stanza_def bind_eq_Some_conv)
  then have "R e e1" "R e1 e2"
    using peek_loop_rel level_loop_rel by fastforce+
  moreover have "R e2 e'"
    using last unhandled_call by (auto split: if_splits)
  ultimately show ?thesis using trans_eng by blast
qed

lemma IncomingStanza_rel: "engine_IncomingStanza A el e = Some e' \<Longrightarrow> R e e'"
  by (auto simp: engine_IncomingStanza_def bind_eq_Some_conv stream_error_call
      split: if_splits option.splits
      intro: login_call response_call trans_eng [OF response_call dispatch_rel])

lemma IncomingStart_rel: "engine_IncomingStart el e = Some e' \<Longrightarrow> R e e'"
  by (auto simp: engine_IncomingStart_def error_call split: if_splits option.splits intro: login_call)

lemma IncomingEnd_rel: "R e (engine_IncomingEnd b e)"
  by (simp add: engine_IncomingEnd_def error_call)

lemma client: "client_relation (engine_client A) R"
  using IncomingStart_rel IncomingStanza_rel IncomingEnd_rel
  by unfold_locales (auto simp: engine_client_def intro: trans_eng)

lemma HandleInput_rel:
  assumes "HandleInput feed x0 A bytes c = Some (status, c')" and "status \<noteq> XMPP_RETURN_BADSTATE"
  obtains e1 where "R (enter_engine (conn_engine c)) e1"
    and "conn_engine c' = (exit_engine (eng_state (conn_engine c)) e1)\<lparr>eng_parser_reset := False\<rparr>"
proof -
  let ?c = "with_engine (enter_engine (conn_engine c)) c"
  obtain c1 ok where parse: "Parse feed (stanza_handler (engine_client A)) bytes False ?c = Some (c1, ok)"
    and c': "c' = finish_call x0 (with_engine (exit_engine (eng_state (conn_engine c)) (conn_engine c1)) c1)"
    using assms by (auto simp: HandleInput_def Let_def split: if_splits option.splits)
  have "R (enter_engine (conn_engine c)) (conn_engine c1)"
    using client_relation.Parse_rel [OF client parse] by (simp add: conn_engine_def with_engine_def)
  with that c' show ?thesis by simp
qed

end

text \<open>And for every application: it is enough that each call to the engine keeps the relation.\<close>

locale engine_relation =
  fixes R :: "engine \<Rightarrow> engine \<Rightarrow> bool"
  assumes refl_eng [simp]: "R e e"
    and trans_eng [trans]: "R a b \<Longrightarrow> R b c \<Longrightarrow> R a c"
    and api_eng: "api call e = Some e' \<Longrightarrow> R e e'"
    and login_eng: "eng_login e = Some lt \<Longrightarrow> login_input stanza isStart lt e = Some e' \<Longrightarrow> R e e'"
    and handler_eng: "R e (call_out (HandleStanza h el) e)"
    and response_eng: "remove_entry P (eng_iq_entries e) = Some (entry, rest) \<Longrightarrow>
      R e (call_out (IqResponse (iqe_handler entry) (iqe_cookie entry) el) (e\<lparr>eng_iq_entries := rest\<rparr>))"
    and error_eng: "R e (SignalError code n e)"
    and stream_error_eng: "R e (SignalStreamError el e)"
begin

lemma api_calls_rel: "api_calls cs e = Some e' \<Longrightarrow> R e e'"
proof (induction cs arbitrary: e)
  case (Cons c cs)
  then show ?case by (auto simp: bind_eq_Some_conv intro: trans_eng [OF api_eng])
qed simp

lemma call_handler_rel: "call_handler A h stanza e = Some (b, e') \<Longrightarrow> R e e'"
  by (auto simp: call_handler_def Let_def split: prod.splits intro!: trans_eng [OF handler_eng api_calls_rel])

lemma HandleIqResponse_rel: "HandleIqResponse A el e = Some (b, e') \<Longrightarrow> R e e'"
  by (auto simp: HandleIqResponse_def Let_def split: if_splits option.splits prod.splits
      dest!: api_calls_rel dest: trans_eng [OF response_eng])

lemma unhandled_rel: "unhandled_stanza stanza e = Some e' \<Longrightarrow> R e e'"
  using api_eng [of "CallSendStanzaError stanza XSE_FEATURE_NOT_IMPLEMENTED []" e e']
  by (auto simp: unhandled_stanza_def Let_def split: if_splits)

lemma app: "app_relation R A"
  by unfold_locales (auto intro: trans_eng call_handler_rel HandleIqResponse_rel unhandled_rel login_eng error_eng stream_error_eng)

lemmas IncomingStanza_rel = app_relation.IncomingStanza_rel [OF app]
lemmas client = app_relation.client [OF app]
lemmas HandleInput_rel = app_relation.HandleInput_rel [OF app]

end

lemma HandleInput_BADSTATE: "HandleInput feed x0 A bytes c = Some (XMPP_RETURN_BADSTATE, c') \<Longrightarrow> c' = c"
  by (auto simp: HandleInput_def Let_def split: if_splits option.splits)

lemma conn_api_engine:
  assumes "conn_api x0 call c = Some c'"
  obtains e1 where "api call (conn_engine c) = Some e1" "conn_engine c' = e1\<lparr>eng_parser_reset := False\<rparr>"
  using assms by (auto simp: conn_api_def)

end
