(* ===== verification/Session.thy ===== *)
theory Session
  imports EngineInput
begin

text \<open>
  What the engine promises to the objects registered with it: an abstract session that keeps only
  the engine's state, whether the output handler is attached, and the calls made so far. Every
  operation of the engine, with everything the application does inside it, is a sequence of steps
  of this session (a refinement), so the guarantees about the order of the calls are proved on
  the session, once.
\<close>

record session =
  ss_state :: engine_state
  ss_output :: bool
  ss_trace :: "engine_call list"

definition session_of :: "engine \<Rightarrow> session" where
  "session_of e = \<lparr>ss_state = eng_state e, ss_output = eng_output_handler e, ss_trace = eng_trace e\<rparr>"

fun to_output :: "engine_call \<Rightarrow> bool" where
  "to_output (WriteOutput s) = True"
| "to_output (OutputStartTls d) = True"
| "to_output _ = False"

fun to_application :: "engine_call \<Rightarrow> bool" where
  "to_application (OnStateChange st) = True"
| "to_application (HandleStanza h el) = True"
| "to_application (IqResponse h c el) = True"
| "to_application _ = False"

inductive session_step :: "session \<Rightarrow> session \<Rightarrow> bool" where
  attach: "ss_state s = STATE_START \<Longrightarrow> session_step s (s\<lparr>ss_output := b\<rparr>)"
| start_opening: "ss_state s = STATE_START \<Longrightarrow> session_step s (s\<lparr>ss_state := STATE_OPENING\<rparr>)"
| bound: "ss_state s = STATE_OPENING \<Longrightarrow> session_step s (s\<lparr>ss_state := STATE_OPEN\<rparr>)"
| closed: "ss_state s \<noteq> STATE_CLOSED \<Longrightarrow> session_step s (s\<lparr>ss_state := STATE_CLOSED\<rparr>)"
| put: "ss_output s \<Longrightarrow> to_output c \<Longrightarrow> session_step s (s\<lparr>ss_trace := ss_trace s @ [c]\<rparr>)"
| hangup: "ss_output s \<Longrightarrow> ss_state s = STATE_CLOSED \<Longrightarrow>
    session_step s (s\<lparr>ss_trace := ss_trace s @ [CloseConnection], ss_output := False\<rparr>)"
| notify: "to_application c \<Longrightarrow> session_step s (s\<lparr>ss_trace := ss_trace s @ [c]\<rparr>)"

inductive_cases session_stepE: "session_step s t"

definition refines :: "engine \<Rightarrow> engine \<Rightarrow> bool" where
  "refines e e' \<longleftrightarrow> session_step\<^sup>*\<^sup>* (session_of e) (session_of e')"

lemma refines_refl [simp]: "refines e e"
  by (simp add: refines_def)

lemma refines_trans [trans]: "refines a b \<Longrightarrow> refines b c \<Longrightarrow> refines a c"
  by (simp add: refines_def)

lemma refines_frame: "session_of e = session_of e' \<Longrightarrow> refines e e'"
  by (simp add: refines_def)

lemma refines_step: "session_step (session_of e) s \<Longrightarrow> session_of e' = s \<Longrightarrow> refines e e'"
  by (simp add: refines_def r_into_rtranclp)

subsection \<open>The operations without the application\<close>

lemma session_frames [simp]:
  "session_of (e\<lparr>eng_login := a\<rparr>) = session_of e" "session_of (e\<lparr>eng_entered := n\<rparr>) = session_of e"
  "session_of (e\<lparr>eng_tls_option := t\<rparr>) = session_of e" "session_of (e\<lparr>eng_output := o'\<rparr>) = session_of e"
  "session_of (e\<lparr>eng_encrypted := b\<rparr>) = session_of e" "session_of (e\<lparr>eng_xmlns := x\<rparr>) = session_of e"
  "session_of (e\<lparr>eng_next_id := n\<rparr>) = session_of e" "session_of (e\<lparr>eng_iq_entries := q\<rparr>) = session_of e"
  "session_of (e\<lparr>eng_next_cookie := n\<rparr>) = session_of e" "session_of (e\<lparr>eng_raised_reset := b\<rparr>) = session_of e"
  "session_of (e\<lparr>eng_parser_reset := b\<rparr>) = session_of e" "session_of (e\<lparr>eng_handlers := h\<rparr>) = session_of e"
  "session_of (e\<lparr>eng_stream_error := s\<rparr>) = session_of e" "session_of (e\<lparr>eng_session_handler := b\<rparr>) = session_of e"
  "session_of (e\<lparr>eng_tls_server_hostname := h1\<rparr>) = session_of e" "session_of (e\<lparr>eng_tls_server_domain := h1\<rparr>) = session_of e"
  "session_of (e\<lparr>eng_user_jid := j\<rparr>) = session_of e" "session_of (e\<lparr>eng_sasl_handler := sh\<rparr>) = session_of e"
  "session_of (e\<lparr>eng_requested_resource := h1\<rparr>) = session_of e" "session_of (e\<lparr>eng_lang := h1\<rparr>) = session_of e"
  "session_of (e\<lparr>eng_bound_jid := j\<rparr>) = session_of e" "session_of (e\<lparr>eng_error := er\<rparr>) = session_of e"
  "session_of (e\<lparr>eng_subcode := i\<rparr>) = session_of e"
  by (simp_all add: session_of_def)

lemma session_sends [simp]:
  "session_of (InternalSendStanza s e) = session_of e" "session_of (InternalSendStart t e) = session_of e"
  "session_of (put_output t e) = session_of e" "session_of (enter_engine e) = session_of e"
  "session_of (RaiseReset e) = session_of e" "session_of (fold InternalSendStanza ss e) = session_of e"
  by (simp_all add: session_of_def put_output_def enter_engine_def RaiseReset_def)

lemma session_of_sel [simp]:
  "ss_state (session_of e) = eng_state e" "ss_output (session_of e) = eng_output_handler e"
  "ss_trace (session_of e) = eng_trace e"
  by (simp_all add: session_of_def)

lemma refines_SignalError: "refines e (SignalError c n e)"
  by (cases "eng_state e = STATE_CLOSED")
     (auto simp: SignalError_def session_of_def intro!: refines_step [OF session_step.closed])

lemma refines_SignalStreamError: "refines e (SignalStreamError s e)"
proof -
  have "refines e (e\<lparr>eng_stream_error := Some (copy_element s)\<rparr>)" by (rule refines_frame) simp
  then show ?thesis
    using refines_trans refines_SignalError by (auto simp: SignalStreamError_def)
qed

lemma refines_SignalBound: "refines e (SignalBound j e)"
  by (cases "eng_state e = STATE_OPENING")
     (auto simp: SignalBound_def session_of_def intro!: refines_step [OF session_step.bound])

lemma refines_StartTls: "refines e (engine_StartTls d e)"
  by (cases "eng_output_handler e")
     (auto simp: engine_StartTls_def call_out_def session_of_def
        intro!: refines_step [OF session_step.put])

lemma refines_notify: "to_application c \<Longrightarrow> refines e (call_out c e)"
  by (rule refines_step [OF session_step.notify]) (auto simp: call_out_def session_of_def)

lemma refines_flush:
  assumes "eng_output_handler e" "closing \<Longrightarrow> eng_state e = STATE_CLOSED"
  shows "refines e (flush_output closing e)"
proof -
  let ?w = "if eng_output e \<noteq> [] then call_out (WriteOutput (eng_output e)) e else e"
  have w: "refines e ?w" "eng_output_handler ?w" "eng_state ?w = eng_state e"
    using assms(1) by (auto simp: call_out_def session_of_def intro!: refines_step [OF session_step.put])
  have o: "session_of (?w\<lparr>eng_output := []\<rparr>) = session_of ?w" by simp
  show ?thesis
  proof (cases closing)
    case False
    with w o show ?thesis
      by (simp add: flush_output_def Let_def refines_def)
  next
    case True
    have "refines (?w\<lparr>eng_output := []\<rparr>) ((call_out CloseConnection (?w\<lparr>eng_output := []\<rparr>))\<lparr>eng_output_handler := False\<rparr>)"
      using w(2,3) assms(2) [OF True]
      by (intro refines_step [OF session_step.hangup]) (auto simp: call_out_def session_of_def)
    with w(1) o True show ?thesis
      by (auto simp: flush_output_def Let_def refines_def)
  qed
qed

lemma refines_exit: "refines e (exit_engine saved e)"
proof -
  let ?e = "e\<lparr>eng_entered := eng_entered e - 1\<rparr>"
  let ?closing = "eng_state ?e \<noteq> saved \<and> eng_state ?e = STATE_CLOSED"
  let ?e1 = "if eng_output_handler ?e \<and> (?closing \<or> eng_entered ?e = 0) then flush_output ?closing ?e else ?e"
  let ?e2 = "if eng_raised_reset ?e1 then ?e1\<lparr>eng_parser_reset := True, eng_raised_reset := False\<rparr> else ?e1"
  have "refines e ?e" by (rule refines_frame) simp
  moreover have "refines ?e ?e1" using refines_flush [of ?e ?closing] by auto
  moreover have "refines ?e1 ?e2" by (rule refines_frame) simp
  moreover have "refines ?e2 (call_out (OnStateChange (eng_state ?e2)) ?e2)" by (rule refines_notify) simp
  ultimately have "refines e ?e1" "refines e ?e2" "refines e (call_out (OnStateChange (eng_state ?e2)) ?e2)"
    using refines_trans by blast+
  then show ?thesis unfolding exit_engine_def Let_def by (simp only: split: if_split) simp
qed

lemma refines_within:
  assumes "\<And>x. refines x (f x)"
  shows "refines e (within f e)"
proof -
  have "refines e (enter_engine e)" by (rule refines_frame) simp
  also have "refines (enter_engine e) (f (enter_engine e))" by (rule assms)
  also have "refines (f (enter_engine e)) (within f e)" unfolding within_def by (rule refines_exit)
  finally show ?thesis .
qed

subsection \<open>The login task\<close>

lemma login_step_refines:
  "login_step lt e = Continue lt' e' \<Longrightarrow> refines e e'"
  "login_step lt e = Return b lt' e' \<Longrightarrow> refines e e'"
proof -
  have tls: "refines e ((engine_StartTls d e)\<lparr>eng_tls_option := t\<rparr>)" for d t
    by (rule refines_trans [OF refines_StartTls]) (rule refines_frame, simp)
  have frame: "refines e e''" if "session_of e = session_of e''" for e''
    using that by (rule refines_frame)
  have flush: "refines e (fold InternalSendStanza ss (SignalBound j e))" for ss j
    by (rule refines_trans [OF refines_SignalBound]) (rule refines_frame, simp)
  show "login_step lt e = Continue lt' e' \<Longrightarrow> refines e e'"
    by (cases "lt_state lt")
       (auto simp: login_cases tls intro: frame split: option.splits if_splits prod.splits)
  show "login_step lt e = Return b lt' e' \<Longrightarrow> refines e e'"
    by (cases "lt_state lt")
       (auto simp: login_cases refines_SignalError flush split: option.splits if_splits prod.splits)
qed

interpretation login_refines: login_invariant "\<lambda>lt e. refines e0 e" for e0
  by unfold_locales (auto intro: refines_trans login_step_refines)

lemma refines_login_input:
  assumes "login_input el start lt e = Some e'"
  shows "refines e e'"
proof -
  obtain lt1 e1 where "login_IncomingStanza el start lt e = Some (lt1, e1)"
    and e': "e' = e1\<lparr>eng_login := (if login_IsDone lt1 then None else Some lt1)\<rparr>"
    using assms by (auto simp: login_input_def split: option.splits)
  then have "refines e e1" using login_refines.IncomingStanza_keeps refines_refl by blast
  also have "refines e1 e'" unfolding e' by (rule refines_frame) simp
  finally show ?thesis .
qed

subsection \<open>The interface\<close>

lemma refines_SendStanza: "refines e (snd (SendStanza el e))"
proof -
  have "refines x (case eng_login x of Some lt \<Rightarrow> x\<lparr>eng_login := Some (OutgoingStanza el lt)\<rparr>
      | None \<Rightarrow> InternalSendStanza el x)" for x
    by (rule refines_frame) (simp split: option.split)
  from refines_within [of "\<lambda>x. case eng_login x of Some lt \<Rightarrow> x\<lparr>eng_login := Some (OutgoingStanza el lt)\<rparr>
      | None \<Rightarrow> InternalSendStanza el x", OF this] show ?thesis
    by (simp add: SendStanza_def)
qed

lemma refines_SendRaw: "refines e (snd (SendRaw t e))"
  using refines_within [of "put_output t" e, OF refines_frame] by (simp add: SendRaw_def)

lemma refines_ConnectionClosed: "refines e (snd (ConnectionClosed n e))"
  using refines_within [OF refines_SignalError] by (simp add: ConnectionClosed_def)

lemma refines_SendIq: "refines e (snd (snd (SendIq el h e)))"
proof -
  have "refines e (snd (SendStanza x (e\<lparr>eng_iq_entries := q, eng_next_cookie := n\<rparr>)))" for x q n
    by (rule refines_trans [OF refines_frame refines_SendStanza]) simp
  then show ?thesis
    by (auto simp: SendIq_def Let_def split: option.split prod.split) (metis snd_conv)+
qed

lemma refines_SendStanzaError: "SendStanzaError el code t e = Some (st, e') \<Longrightarrow> refines e e'"
  by (auto simp: SendStanzaError_def refines_SendStanza split: if_splits option.splits)

lemma refines_Connect: "Connect e = Some (st, e') \<Longrightarrow> refines e e'"
proof (cases "eng_state e = STATE_START")
  case True
  let ?e1 = "(enter_engine e)\<lparr>eng_state := STATE_OPENING\<rparr>"
  assume "Connect e = Some (st, e')"
  with True obtain e2 where e2: "(case eng_login ?e1 of None \<Rightarrow> Some ?e1 | Some lt \<Rightarrow> login_input None False lt ?e1) = Some e2"
    and e': "e' = exit_engine (eng_state e) e2"
    by (auto simp: Connect_def Let_def)
  have "refines e ?e1"
    using True by (intro refines_step [OF session_step.start_opening]) (auto simp: session_of_def enter_engine_def)
  also have "refines ?e1 e2"
    using e2 refines_login_input by (auto split: option.splits)
  also have "refines e2 e'" unfolding e' by (rule refines_exit)
  finally show ?thesis .
qed (simp add: Connect_def)

lemma refines_Disconnect: "refines e (snd (Disconnect e))"
proof (cases "eng_state e = STATE_CLOSED")
  case False
  let ?f = "\<lambda>e. (if eng_state e = STATE_OPEN then put_output ''</stream:stream>'' e else e)\<lparr>eng_state := STATE_CLOSED\<rparr>"
  have "refines e (enter_engine e)" by (rule refines_frame) simp
  also have "refines (enter_engine e) (?f (enter_engine e))"
    using False by (intro refines_step [OF session_step.closed]) (auto simp: session_of_def enter_engine_def put_output_def)
  also have "refines (?f (enter_engine e)) (within ?f e)" unfolding within_def by (rule refines_exit)
  finally show ?thesis using False by (simp add: Disconnect_def)
qed (simp add: Disconnect_def)

lemma session_settings [simp]:
  "session_of (snd (SetSessionHandler b e)) = session_of e" "session_of (snd (SetTls t e)) = session_of e"
  "session_of (snd (SetTlsServer h d e)) = session_of e" "session_of (snd (SetUser j e)) = session_of e"
  "session_of (snd (SetSaslHandler sh e)) = session_of e" "session_of (snd (SetRequestedResource h e)) = session_of e"
  "session_of (SetLanguage h e) = session_of e" "session_of (snd (AddStanzaHandler n level e)) = session_of e"
  "session_of (snd (RemoveStanzaHandler n e)) = session_of e" "session_of (snd (NextId e)) = session_of e"
  "session_of (snd (snd (RemoveIqHandler n e))) = session_of e"
  by (simp_all add: SetSessionHandler_def SetTls_def SetTlsServer_def SetUser_def SetSaslHandler_def
      SetRequestedResource_def SetLanguage_def AddStanzaHandler_def RemoveStanzaHandler_def
      NextId_def RemoveIqHandler_def Let_def split: option.split prod.split)

lemma refines_SetOutputHandler: "refines e (snd (SetOutputHandler b e))"
  by (cases "eng_state e = STATE_START")
     (auto simp: SetOutputHandler_def session_of_def intro!: refines_step [OF session_step.attach])

lemma refines_api: "api c e = Some e' \<Longrightarrow> refines e e'"
  by (cases c)
     (auto simp: refines_SendStanza refines_SendIq refines_Disconnect refines_SendRaw refines_ConnectionClosed
        refines_SetOutputHandler intro: refines_Connect refines_SendStanzaError refines_frame)

subsection \<open>The application inside, and whole connections\<close>

interpretation refinement: engine_relation refines
proof unfold_locales
  show "refines e (call_out (IqResponse (iqe_handler entry) (iqe_cookie entry) el) (e\<lparr>eng_iq_entries := rest\<rparr>))"
    for e entry rest el
    by (rule refines_trans [OF refines_frame refines_notify]) simp_all
qed (auto intro: refines_trans refines_api refines_login_input refines_notify refines_SignalError refines_SignalStreamError)

lemma HandleInput_refines:
  assumes "HandleInput feed x0 A bytes c = Some (status, c')"
  shows "refines (conn_engine c) (conn_engine c')"
proof (cases "status = XMPP_RETURN_BADSTATE")
  case True
  with assms HandleInput_BADSTATE show ?thesis by (metis refines_refl)
next
  case False
  from refinement.HandleInput_rel [OF assms this] obtain e1 where
    e1: "refines (enter_engine (conn_engine c)) e1"
      "conn_engine c' = (exit_engine (eng_state (conn_engine c)) e1)\<lparr>eng_parser_reset := False\<rparr>" .
  have "refines (conn_engine c) (enter_engine (conn_engine c))" by (rule refines_frame) simp
  also note e1(1)
  also have "refines e1 (exit_engine (eng_state (conn_engine c)) e1)" by (rule refines_exit)
  also have "refines \<dots> (conn_engine c')" unfolding e1(2) by (rule refines_frame) simp
  finally show ?thesis .
qed

lemma conn_api_refines:
  assumes "conn_api x0 call c = Some c'"
  shows "refines (conn_engine c) (conn_engine c')"
proof -
  obtain e1 where "api call (conn_engine c) = Some e1" "conn_engine c' = e1\<lparr>eng_parser_reset := False\<rparr>"
    using conn_api_engine [OF assms] .
  with refines_api show ?thesis by (simp add: refines_def)
qed

lemma conn_reach_refines: "conn_reach feed x0 A c \<Longrightarrow> refines engine_init (conn_engine c)"
  by (induction rule: conn_reach.induct)
     (auto intro: refines_trans HandleInput_refines conn_api_refines)

subsection \<open>What the abstract session guarantees\<close>

fun state_rank :: "engine_state \<Rightarrow> nat" where
  "state_rank STATE_NONE = 0"
| "state_rank STATE_START = 1"
| "state_rank STATE_OPENING = 2"
| "state_rank STATE_OPEN = 3"
| "state_rank STATE_CLOSED = 4"

lemma state_rank_le [simp]: "state_rank st \<le> 4"
  by (cases st) simp_all

lemma state_rank_closed: "state_rank st = 4 \<longleftrightarrow> st = STATE_CLOSED"
  by (cases st) simp_all

text \<open>After \<open>CloseConnection\<close> the output handler is not called again.\<close>

fun quiet_after_close :: "engine_call list \<Rightarrow> bool" where
  "quiet_after_close [] = True"
| "quiet_after_close (CloseConnection # rest) = list_all (\<lambda>c. \<not> to_output c \<and> c \<noteq> CloseConnection) rest"
| "quiet_after_close (c # rest) = quiet_after_close rest"

lemma quiet_after_close_append:
  "quiet_after_close (tr @ [c]) \<longleftrightarrow>
     quiet_after_close tr \<and> (CloseConnection \<in> set tr \<longrightarrow> \<not> to_output c \<and> c \<noteq> CloseConnection)"
  by (induction tr rule: quiet_after_close.induct) (cases c; auto)+

definition session_ok :: "session \<Rightarrow> bool" where
  "session_ok s \<longleftrightarrow> quiet_after_close (ss_trace s) \<and>
     (CloseConnection \<in> set (ss_trace s) \<longrightarrow> ss_state s = STATE_CLOSED \<and> \<not> ss_output s)"

lemma session_step_ok: "session_step s t \<Longrightarrow> session_ok s \<Longrightarrow> session_ok t"
  by (induction rule: session_step.induct)
     (auto simp: session_ok_def quiet_after_close_append, (case_tac c; auto)+)

lemma session_step_rank: "session_step s t \<Longrightarrow> state_rank (ss_state s) \<le> state_rank (ss_state t)"
  by (induction rule: session_step.induct) simp_all

lemma session_step_trace: "session_step s t \<Longrightarrow> \<exists>new. ss_trace t = ss_trace s @ new"
  by (induction rule: session_step.induct) simp_all

lemma session_steps:
  assumes "session_step\<^sup>*\<^sup>* s t"
  shows "session_ok s \<Longrightarrow> session_ok t" and "state_rank (ss_state s) \<le> state_rank (ss_state t)"
    and "\<exists>new. ss_trace t = ss_trace s @ new"
proof -
  show "session_ok s \<Longrightarrow> session_ok t"
    using assms by (induction rule: rtranclp_induct) (auto intro: session_step_ok)
  show "state_rank (ss_state s) \<le> state_rank (ss_state t)"
    using assms by (induction rule: rtranclp_induct) (auto dest: session_step_rank)
  show "\<exists>new. ss_trace t = ss_trace s @ new"
    using assms by (induction rule: rtranclp_induct) (auto dest!: session_step_trace)
qed

lemma refines_rank: "refines e e' \<Longrightarrow> state_rank (eng_state e) \<le> state_rank (eng_state e')"
  using session_steps(2) by (fastforce simp: refines_def)

end
