(* ===== verification/Connection.thy ===== *)
theory Connection
  imports Session
begin

text \<open>
  The guarantees of a whole connection, over every sequence of inputs from the network, calls from
  outside and calls made by handlers: what the refinement of theory \<open>Session\<close> gives for the order
  of calls, and two more relations kept by every operation, one on the depth of entry and the state
  notifications, one on the outstanding iqs and the responses delivered.
\<close>

subsection \<open>The depth, the notifications, the responses\<close>

fun notified :: "engine_call list \<Rightarrow> engine_state list" where
  "notified [] = []"
| "notified (OnStateChange st # tr) = st # notified tr"
| "notified (c # tr) = notified tr"

fun answered :: "engine_call list \<Rightarrow> nat list" where
  "answered [] = []"
| "answered (IqResponse h cookie el # tr) = cookie # answered tr"
| "answered (c # tr) = answered tr"

lemma notified_append [simp]: "notified (xs @ ys) = notified xs @ notified ys"
  by (induction xs rule: notified.induct) simp_all

lemma answered_append [simp]: "answered (xs @ ys) = answered xs @ answered ys"
  by (induction xs rule: answered.induct) simp_all

definition book :: "engine \<Rightarrow> nat \<times> engine_state list \<times> nat list \<times> iq_entry list \<times> nat" where
  "book e = (eng_entered e, notified (eng_trace e), answered (eng_trace e), eng_iq_entries e, eng_next_cookie e)"

lemma book_frames [simp]:
  "book (e\<lparr>eng_login := a\<rparr>) = book e" "book (e\<lparr>eng_state := st\<rparr>) = book e"
  "book (e\<lparr>eng_tls_option := t\<rparr>) = book e" "book (e\<lparr>eng_output := o'\<rparr>) = book e"
  "book (e\<lparr>eng_encrypted := b\<rparr>) = book e" "book (e\<lparr>eng_xmlns := x\<rparr>) = book e"
  "book (e\<lparr>eng_next_id := n\<rparr>) = book e" "book (e\<lparr>eng_raised_reset := b\<rparr>) = book e"
  "book (e\<lparr>eng_parser_reset := b\<rparr>) = book e" "book (e\<lparr>eng_handlers := h\<rparr>) = book e"
  "book (e\<lparr>eng_stream_error := s\<rparr>) = book e" "book (e\<lparr>eng_session_handler := b\<rparr>) = book e"
  "book (e\<lparr>eng_tls_server_hostname := h1\<rparr>) = book e" "book (e\<lparr>eng_tls_server_domain := h1\<rparr>) = book e"
  "book (e\<lparr>eng_user_jid := j\<rparr>) = book e" "book (e\<lparr>eng_sasl_handler := sh\<rparr>) = book e"
  "book (e\<lparr>eng_requested_resource := h1\<rparr>) = book e" "book (e\<lparr>eng_lang := h1\<rparr>) = book e"
  "book (e\<lparr>eng_bound_jid := j\<rparr>) = book e" "book (e\<lparr>eng_error := er\<rparr>) = book e"
  "book (e\<lparr>eng_subcode := i\<rparr>) = book e" "book (e\<lparr>eng_output_handler := b\<rparr>) = book e"
  by (simp_all add: book_def)

lemma book_InternalSendStanza [simp]: "book (InternalSendStanza s e) = book e"
  by (simp add: InternalSendStanza_def put_output_def split: option.split prod.split)

lemma book_sends [simp]:
  "book (InternalSendStart t e) = book e" "book (put_output t e) = book e"
  "book (RaiseReset e) = book e" "book (fold InternalSendStanza ss e) = book e"
  "book (SignalError c n e) = book e" "book (SignalStreamError el e) = book e"
  "book (SignalBound j e) = book e" "book (engine_StartTls d e) = book e"
  subgoal by (simp add: InternalSendStart_def Let_def put_output_def)
  subgoal by (simp add: put_output_def)
  subgoal by (simp add: RaiseReset_def)
  subgoal by (induction ss arbitrary: e) simp_all
  subgoal by (simp add: SignalError_def)
  subgoal by (simp add: SignalStreamError_def SignalError_def)
  subgoal by (simp add: SignalBound_def)
  subgoal by (simp add: engine_StartTls_def) (simp add: book_def call_out_def)
  done

lemma login_step_book:
  "login_step lt e = Continue lt' e' \<Longrightarrow> book e' = book e"
  "login_step lt e = Return b lt' e' \<Longrightarrow> book e' = book e"
  by (cases "lt_state lt"; auto simp: login_cases split: option.splits if_splits prod.splits)+

interpretation login_book: login_invariant "\<lambda>lt e. book e = b" for b
  by unfold_locales (auto dest: login_step_book)

lemma book_login_input: "login_input el start lt e = Some e' \<Longrightarrow> book e' = book e"
  by (auto simp: login_input_def dest: login_book.IncomingStanza_keeps [where b = "book e"]
      split: option.splits)

lemma book_flush [simp]: "book (flush_output closing e) = book e"
  by (simp add: flush_output_def Let_def call_out_def book_def)

lemma flush_output_sel [simp]:
  "eng_entered (flush_output closing e) = eng_entered e" "eng_state (flush_output closing e) = eng_state e"
  "eng_output (flush_output closing e) = []" "eng_raised_reset (flush_output closing e) = eng_raised_reset e"
  "eng_output_handler (flush_output closing e) = (eng_output_handler e \<and> \<not> closing)"
  "eng_session_handler (flush_output closing e) = eng_session_handler e"
  "eng_login (flush_output closing e) = eng_login e"
  by (simp_all add: flush_output_def Let_def call_out_def)

lemma exit_engine_sel [simp]:
  "eng_state (exit_engine saved e) = eng_state e" "eng_entered (exit_engine saved e) = eng_entered e - 1"
  "eng_login (exit_engine saved e) = eng_login e"
  by (simp_all add: exit_engine_def Let_def call_out_def)

text \<open>Leaving an inner call changes only the depth.\<close>

lemma book_exit:
  assumes "1 < eng_entered e"
  shows "book (exit_engine saved e) = book (e\<lparr>eng_entered := eng_entered e - 1\<rparr>)"
  using assms by (simp add: exit_engine_def Let_def)

lemma book_within:
  assumes "0 < eng_entered e" "\<And>x. book (f x) = book x"
  shows "book (within f e) = book e"
proof -
  have "book (f (enter_engine e)) = book (enter_engine e)" by (rule assms)
  then have "eng_entered (f (enter_engine e)) = eng_entered e + 1"
    and "book ((f (enter_engine e))\<lparr>eng_entered := eng_entered e\<rparr>) = book e"
    by (simp_all add: book_def enter_engine_def)
  with assms(1) show ?thesis by (simp add: within_def book_exit)
qed

subsection \<open>Inside a call: depth and notifications\<close>

definition interior :: "engine \<Rightarrow> engine \<Rightarrow> bool" where
  "interior e e' \<longleftrightarrow> 0 < eng_entered e \<longrightarrow>
     eng_entered e' = eng_entered e \<and> notified (eng_trace e') = notified (eng_trace e)"

lemma interior_book: "book e' = book e \<Longrightarrow> interior e e'"
  by (auto simp: interior_def book_def)

lemma interior_within: "(\<And>x. book (f x) = book x) \<Longrightarrow> interior e (within f e)"
  using book_within [of e f] by (auto simp: interior_def book_def)

lemma interior_SendStanza: "interior e (snd (SendStanza el e))"
proof (cases "eng_state e = STATE_CLOSED")
  case False
  have "interior e (within (\<lambda>e. case eng_login e of Some lt \<Rightarrow> e\<lparr>eng_login := Some (OutgoingStanza el lt)\<rparr>
      | None \<Rightarrow> InternalSendStanza el e) e)"
    by (rule interior_within) (simp split: option.split)
  with False show ?thesis by (simp add: SendStanza_def)
qed (simp add: SendStanza_def interior_def)

lemma interior_SendIq: "interior e (snd (snd (SendIq el h e)))"
proof -
  have "interior e (snd (SendStanza x (e\<lparr>eng_iq_entries := q, eng_next_cookie := n\<rparr>)))" for x q n
    using interior_SendStanza [of "e\<lparr>eng_iq_entries := q, eng_next_cookie := n\<rparr>" x] by (simp add: interior_def)
  then show ?thesis
    by (auto simp: SendIq_def Let_def interior_def split: option.split prod.split) (metis snd_conv)+
qed

lemma interior_Connect:
  assumes "Connect e = Some (st, e')"
  shows "interior e e'"
proof (cases "eng_state e = STATE_START")
  case True
  let ?e1 = "(enter_engine e)\<lparr>eng_state := STATE_OPENING\<rparr>"
  obtain e2 where "(case eng_login ?e1 of None \<Rightarrow> Some ?e1 | Some lt \<Rightarrow> login_input None False lt ?e1) = Some e2"
    and e': "e' = exit_engine (eng_state e) e2"
    using assms True by (auto simp: Connect_def Let_def)
  then have b: "book e2 = book ?e1"
    by (auto simp del: book_frames dest: book_login_input split: option.splits)
  then have "eng_entered e2 = eng_entered e + 1" "notified (eng_trace e2) = notified (eng_trace e)"
    by (simp_all add: book_def enter_engine_def)
  then show ?thesis
    using book_exit [of e2 "eng_state e"] by (auto simp: interior_def e' book_def)
qed (use assms in \<open>simp add: Connect_def interior_def\<close>)

lemma book_settings [simp]:
  "book (snd (SetOutputHandler b e)) = book e"
  "book (snd (SetSessionHandler b e)) = book e" "book (snd (SetTls t e)) = book e"
  "book (snd (SetTlsServer h d e)) = book e" "book (snd (SetUser j e)) = book e"
  "book (snd (SetSaslHandler sh e)) = book e" "book (snd (SetRequestedResource h e)) = book e"
  "book (SetLanguage h e) = book e" "book (snd (AddStanzaHandler n level e)) = book e"
  "book (snd (RemoveStanzaHandler n e)) = book e" "book (snd (NextId e)) = book e"
  by (simp_all add: SetOutputHandler_def SetSessionHandler_def SetTls_def SetTlsServer_def SetUser_def SetSaslHandler_def
      SetRequestedResource_def SetLanguage_def AddStanzaHandler_def RemoveStanzaHandler_def
      NextId_def Let_def split: option.split prod.split)

lemma interior_RemoveIqHandler: "interior e (snd (snd (RemoveIqHandler n e)))"
  by (simp add: RemoveIqHandler_def interior_def split: option.split prod.split)

lemma interior_SendRaw: "interior e (snd (SendRaw t e))"
  using interior_within [of "put_output t" e] by (simp add: SendRaw_def interior_def)

lemma interior_ConnectionClosed: "interior e (snd (ConnectionClosed n e))"
  using interior_within [of "SignalError ERROR_SOCKET n" e] interior_within [of "SignalError ERROR_CONNECTION_CLOSED 0" e]
  by (auto simp: ConnectionClosed_def interior_def)

lemma interior_Disconnect: "interior e (snd (Disconnect e))"
proof -
  have "interior e (within (\<lambda>e. (if eng_state e = STATE_OPEN then put_output ''</stream:stream>'' e else e)\<lparr>eng_state := STATE_CLOSED\<rparr>) e)"
    by (rule interior_within) simp
  then show ?thesis by (simp add: Disconnect_def interior_def)
qed

lemma interior_api: "api c e = Some e' \<Longrightarrow> interior e e'"
  by (cases c)
     (auto simp: interior_SendStanza interior_SendIq interior_SendRaw interior_Disconnect interior_ConnectionClosed
        interior_RemoveIqHandler SendStanzaError_def
        intro: interior_Connect interior_book split: if_splits option.splits)

interpretation inside: engine_relation interior
proof unfold_locales
  show "interior e (call_out (IqResponse (iqe_handler entry) (iqe_cookie entry) el) (e\<lparr>eng_iq_entries := rest\<rparr>))"
    for e entry rest el by (simp add: interior_def call_out_def)
qed (auto intro: interior_api interior_book book_login_input, auto simp: interior_def call_out_def)

subsection \<open>Between calls\<close>

text \<open>
  The engine at rest: nobody is inside, nothing unsent is left while an output handler is attached,
  the states notified so far are in strictly ascending order and do not exceed the present one,
  and before \<open>Connect\<close> there is a login task and no output.
\<close>

definition unconnected_ok :: "engine \<Rightarrow> bool" where
  "unconnected_ok e \<longleftrightarrow> state_rank (eng_state e) \<le> 1 \<longrightarrow> eng_output e = [] \<and> eng_login e \<noteq> None"

definition told_ok :: "nat \<Rightarrow> engine \<Rightarrow> bool" where
  "told_ok n e \<longleftrightarrow> sorted_wrt (<) (map state_rank (notified (eng_trace e))) \<and>
     list_all (\<lambda>st. state_rank st \<le> n) (notified (eng_trace e))"

definition at_rest :: "engine \<Rightarrow> bool" where
  "at_rest e \<longleftrightarrow> eng_entered e = 0 \<and> (eng_output_handler e \<longrightarrow> eng_output e = []) \<and>
     told_ok (state_rank (eng_state e)) e \<and> unconnected_ok e"

lemma told_ok_mono: "told_ok m e \<Longrightarrow> m \<le> n \<Longrightarrow> told_ok n e"
  by (auto simp: told_ok_def list_all_iff)

lemma told_ok_call [simp]: "notified [c] = [] \<Longrightarrow> told_ok n (call_out c e) = told_ok n e"
  by (simp add: told_ok_def call_out_def)

lemma told_ok_book: "book e' = book e \<Longrightarrow> told_ok n e' = told_ok n e"
  by (simp add: told_ok_def book_def)

lemma at_rest_init: "at_rest engine_init"
  by (simp add: at_rest_def told_ok_def unconnected_ok_def engine_init_def)

lemma at_rest_exit:
  assumes one: "eng_entered e = 1" and told: "told_ok (state_rank saved) e"
    and rank: "state_rank saved \<le> state_rank (eng_state e)" and un: "unconnected_ok e"
  shows "at_rest (exit_engine saved e)"
proof -
  define closing where "closing \<longleftrightarrow> eng_state e \<noteq> saved \<and> eng_state e = STATE_CLOSED"
  define e1 where "e1 = (let e = e\<lparr>eng_entered := 0\<rparr> in if eng_output_handler e then flush_output closing e else e)"
  define e2 where "e2 = (if eng_raised_reset e1 then e1\<lparr>eng_parser_reset := True, eng_raised_reset := False\<rparr> else e1)"
  have "book e1 = book (e\<lparr>eng_entered := 0\<rparr>)" by (simp add: e1_def Let_def)
  then have "book e2 = book (e\<lparr>eng_entered := 0\<rparr>)" by (simp add: e2_def)
  then have told2: "told_ok (state_rank saved) e2"
    using told told_ok_book [of e2 "e\<lparr>eng_entered := 0\<rparr>"] by (simp add: told_ok_def)
  have e2: "eng_state e2 = eng_state e" "eng_entered e2 = 0" "eng_login e2 = eng_login e"
      "eng_output_handler e2 \<longrightarrow> eng_output e2 = []" "eng_output e = [] \<longrightarrow> eng_output e2 = []"
    by (auto simp: e2_def e1_def Let_def)
  have final: "exit_engine saved e =
      (if eng_session_handler e2 \<and> eng_state e2 \<noteq> saved then call_out (OnStateChange (eng_state e2)) e2 else e2)"
    using one unfolding e2_def e1_def closing_def exit_engine_def Let_def by simp
  have "state_rank saved < state_rank (eng_state e)" if "eng_state e \<noteq> saved"
    using rank that by (cases saved; cases "eng_state e") simp_all
  moreover have "told_ok (state_rank (eng_state e)) e2" using told2 rank by (rule told_ok_mono)
  ultimately show ?thesis
    using told2 e2 un
    by (auto simp: final at_rest_def unconnected_ok_def told_ok_def call_out_def sorted_wrt_append list_all_iff)
qed

lemma at_rest_within:
  assumes rest: "at_rest e" and book: "book (f (enter_engine e)) = book (enter_engine e)"
    and rank: "state_rank (eng_state e) \<le> state_rank (eng_state (f (enter_engine e)))"
    and un: "unconnected_ok (f (enter_engine e))"
  shows "at_rest (within f e)"
proof -
  have "told_ok (state_rank (eng_state e)) (f (enter_engine e))"
    using rest told_ok_book [OF book] by (simp add: at_rest_def told_ok_def enter_engine_def)
  moreover have "eng_entered (f (enter_engine e)) = 1"
    using rest book by (simp add: at_rest_def book_def enter_engine_def)
  ultimately show ?thesis unfolding within_def using rank un by (intro at_rest_exit) simp_all
qed

lemma enter_engine_sel [simp]:
  "eng_state (enter_engine e) = eng_state e" "eng_output (enter_engine e) = eng_output e"
  "eng_login (enter_engine e) = eng_login e" "eng_output_handler (enter_engine e) = eng_output_handler e"
  "eng_trace (enter_engine e) = eng_trace e"
  by (simp_all add: enter_engine_def)

lemma at_rest_SendStanza: "at_rest e \<Longrightarrow> at_rest (snd (SendStanza el e))"
  by (auto simp: SendStanza_def unconnected_ok_def at_rest_def [of e] intro!: at_rest_within split: option.splits)

lemma at_rest_SendIq: "at_rest e \<Longrightarrow> at_rest (snd (snd (SendIq el h e)))"
proof -
  have "at_rest (snd (SendStanza x (e\<lparr>eng_iq_entries := q, eng_next_cookie := n\<rparr>)))" if "at_rest e" for x q n
    using that by (intro at_rest_SendStanza) (simp add: at_rest_def told_ok_def unconnected_ok_def)
  then show "at_rest e \<Longrightarrow> at_rest (snd (snd (SendIq el h e)))"
    by (auto simp: SendIq_def Let_def split: option.split prod.split) (metis snd_conv)+
qed

lemma at_rest_SendRaw: "at_rest e \<Longrightarrow> at_rest (snd (SendRaw t e))"
  by (auto simp: SendRaw_def unconnected_ok_def at_rest_def [of e] put_output_def intro!: at_rest_within)

lemma at_rest_Disconnect: "at_rest e \<Longrightarrow> at_rest (snd (Disconnect e))"
  by (auto simp: Disconnect_def unconnected_ok_def intro!: at_rest_within)

lemma at_rest_SignalError:
  "at_rest e \<Longrightarrow> eng_state e \<noteq> STATE_CLOSED \<Longrightarrow> at_rest (within (SignalError c n) e)"
  by (intro at_rest_within) (auto simp: SignalError_def unconnected_ok_def)

lemma at_rest_ConnectionClosed: "at_rest e \<Longrightarrow> at_rest (snd (ConnectionClosed n e))"
  by (simp add: ConnectionClosed_def at_rest_SignalError)

lemma at_rest_Connect:
  assumes "Connect e = Some (st, e')" "at_rest e"
  shows "at_rest e'"
proof (cases "eng_state e = STATE_START")
  case True
  let ?e1 = "(enter_engine e)\<lparr>eng_state := STATE_OPENING\<rparr>"
  obtain e2 where e2: "(case eng_login ?e1 of None \<Rightarrow> Some ?e1 | Some lt \<Rightarrow> login_input None False lt ?e1) = Some e2"
    and e': "e' = exit_engine (eng_state e) e2"
    using assms True by (auto simp: Connect_def Let_def)
  then have b: "book e2 = book ?e1"
    by (auto simp del: book_frames dest: book_login_input split: option.splits)
  have "refines ?e1 e2"
    using e2 refines_login_input by (auto split: option.splits)
  then have rank: "2 \<le> state_rank (eng_state e2)"
    using refines_rank by fastforce
  have "told_ok (state_rank (eng_state e)) e2"
    using assms(2) told_ok_book [OF b] by (simp add: at_rest_def told_ok_def)
  moreover have "eng_entered e2 = 1"
    using b assms(2) by (simp add: book_def at_rest_def enter_engine_def)
  ultimately show ?thesis
    using rank True unfolding e' by (intro at_rest_exit) (simp_all add: unconnected_ok_def)
qed (use assms in \<open>simp add: Connect_def\<close>)

lemma at_rest_frame:
  assumes "at_rest e" "session_of x = session_of e" "book x = book e" "eng_output x = eng_output e"
    "eng_login x = eng_login e"
  shows "at_rest x"
  using assms told_ok_book [OF assms(3)]
  by (simp add: at_rest_def unconnected_ok_def session_of_def book_def)

lemma settings_keep_output [simp]:
  "eng_output (snd (SetSessionHandler b e)) = eng_output e" "eng_output (snd (SetTls t e)) = eng_output e"
  "eng_output (snd (SetTlsServer h d e)) = eng_output e" "eng_output (snd (SetUser j e)) = eng_output e"
  "eng_output (snd (SetSaslHandler sh e)) = eng_output e" "eng_output (snd (SetRequestedResource h e)) = eng_output e"
  "eng_output (SetLanguage h e) = eng_output e" "eng_output (snd (AddStanzaHandler n level e)) = eng_output e"
  "eng_output (snd (RemoveStanzaHandler n e)) = eng_output e" "eng_output (snd (NextId e)) = eng_output e"
  "eng_login (snd (SetSessionHandler b e)) = eng_login e" "eng_login (snd (SetTls t e)) = eng_login e"
  "eng_login (snd (SetTlsServer h d e)) = eng_login e" "eng_login (snd (SetUser j e)) = eng_login e"
  "eng_login (snd (SetSaslHandler sh e)) = eng_login e" "eng_login (snd (SetRequestedResource h e)) = eng_login e"
  "eng_login (SetLanguage h e) = eng_login e" "eng_login (snd (AddStanzaHandler n level e)) = eng_login e"
  "eng_login (snd (RemoveStanzaHandler n e)) = eng_login e" "eng_login (snd (NextId e)) = eng_login e"
  by (simp_all add: SetSessionHandler_def SetTls_def SetTlsServer_def SetUser_def SetSaslHandler_def
      SetRequestedResource_def SetLanguage_def AddStanzaHandler_def RemoveStanzaHandler_def NextId_def Let_def)

lemma at_rest_settings:
  "at_rest e \<Longrightarrow> at_rest (snd (SetOutputHandler b e))" "at_rest e \<Longrightarrow> at_rest (snd (snd (RemoveIqHandler n e)))"
  "at_rest e \<Longrightarrow> at_rest (snd (SetSessionHandler b e))" "at_rest e \<Longrightarrow> at_rest (snd (SetTls t e))"
  "at_rest e \<Longrightarrow> at_rest (snd (SetTlsServer h d e))" "at_rest e \<Longrightarrow> at_rest (snd (SetUser j e))"
  "at_rest e \<Longrightarrow> at_rest (snd (SetSaslHandler sh e))" "at_rest e \<Longrightarrow> at_rest (snd (SetRequestedResource h e))"
  "at_rest e \<Longrightarrow> at_rest (SetLanguage h e)" "at_rest e \<Longrightarrow> at_rest (snd (AddStanzaHandler n level e))"
  "at_rest e \<Longrightarrow> at_rest (snd (RemoveStanzaHandler n e))" "at_rest e \<Longrightarrow> at_rest (snd (NextId e))"
  subgoal by (auto simp: SetOutputHandler_def at_rest_def unconnected_ok_def told_ok_def)
  subgoal by (auto simp: RemoveIqHandler_def at_rest_def unconnected_ok_def told_ok_def split: option.split prod.split)
  by (erule at_rest_frame; simp)+

lemma at_rest_api:
  assumes "api c e = Some e'" "at_rest e"
  shows "at_rest e'"
  using assms
  by (cases c)
     (auto simp: at_rest_settings at_rest_SendStanza at_rest_SendIq at_rest_SendRaw
        at_rest_Disconnect at_rest_ConnectionClosed SendStanzaError_def
        dest: at_rest_Connect split: if_splits option.splits)

interpretation inside_monotone: engine_relation "\<lambda>e e'. refines e e' \<and> interior e e'"
  using inside.trans_eng refinement.trans_eng
  by unfold_locales
     (auto simp del: session_frames intro: refinement.api_eng refinement.login_eng refinement.handler_eng
        refinement.response_eng refinement.error_eng refinement.stream_error_eng
        inside.api_eng inside.login_eng inside.handler_eng inside.response_eng inside.error_eng inside.stream_error_eng
        inside.refl_eng)

lemma conn_at_rest: "conn_reach feed x0 A c \<Longrightarrow> at_rest (conn_engine c)"
proof (induction rule: conn_reach.induct)
  case init
  show ?case by (simp add: at_rest_init)
next
  case (call c k c')
  then obtain e1 where "api k (conn_engine c) = Some e1" "conn_engine c' = e1\<lparr>eng_parser_reset := False\<rparr>"
    by (auto elim: conn_api_engine)
  with at_rest_api [of k "conn_engine c" e1] call.IH show ?case
    by (simp add: at_rest_def told_ok_def unconnected_ok_def)
next
  case (input c bytes status c')
  show ?case
  proof (cases "status = XMPP_RETURN_BADSTATE")
    case True
    with input HandleInput_BADSTATE show ?thesis by metis
  next
    case False
    from inside_monotone.HandleInput_rel [OF input.hyps(2) False] obtain e1 where
      rel: "refines (enter_engine (conn_engine c)) e1 \<and> interior (enter_engine (conn_engine c)) e1"
      and c': "conn_engine c' = (exit_engine (eng_state (conn_engine c)) e1)\<lparr>eng_parser_reset := False\<rparr>" .
    have "2 \<le> state_rank (eng_state (conn_engine c))"
      using input.hyps(2) False by (cases "eng_state (conn_engine c)") (auto simp: HandleInput_def Let_def)
    moreover have "state_rank (eng_state (conn_engine c)) \<le> state_rank (eng_state e1)"
      using rel refines_rank by fastforce
    moreover have "eng_entered e1 = 1" "notified (eng_trace e1) = notified (eng_trace (conn_engine c))"
      using rel input.IH by (auto simp: interior_def at_rest_def enter_engine_def)
    ultimately have "at_rest (exit_engine (eng_state (conn_engine c)) e1)"
      using input.IH by (intro at_rest_exit) (simp_all add: at_rest_def told_ok_def unconnected_ok_def)
    with c' show ?thesis by (simp add: at_rest_def told_ok_def unconnected_ok_def)
  qed
qed

subsection \<open>Outstanding iqs and responses\<close>

definition outstanding :: "engine \<Rightarrow> nat list" where
  "outstanding e = map iqe_cookie (eng_iq_entries e)"

definition iq_ok :: "engine \<Rightarrow> bool" where
  "iq_ok e \<longleftrightarrow> distinct (answered (eng_trace e) @ outstanding e) \<and>
     list_all (\<lambda>c. c < eng_next_cookie e) (answered (eng_trace e) @ outstanding e)"

text \<open>
  A step answers only iqs that were outstanding or are new, and leaves outstanding only such iqs.
\<close>

definition responds :: "engine \<Rightarrow> engine \<Rightarrow> bool" where
  "responds e e' \<longleftrightarrow> iq_ok e \<longrightarrow> iq_ok e' \<and> eng_next_cookie e \<le> eng_next_cookie e' \<and>
     (\<exists>new. answered (eng_trace e') = answered (eng_trace e) @ new \<and>
        set new \<union> set (outstanding e') \<subseteq> set (outstanding e) \<union> {eng_next_cookie e..})"

lemma responds_refl [simp]: "responds e e"
  by (simp add: responds_def)

lemma responds_trans: "responds a b \<Longrightarrow> responds b c \<Longrightarrow> responds a c"
  unfolding responds_def by (fastforce simp: subset_iff)

lemma remove_entry_spec:
  "remove_entry P es = Some (x, rest) \<Longrightarrow> \<exists>us vs. es = us @ x # vs \<and> rest = us @ vs \<and> P x"
proof (induction es arbitrary: x rest)
  case (Cons y ys)
  then show ?case
    by (auto split: if_splits option.splits) (metis append_Cons append_Nil)+
qed simp

lemma remove_entry_None: "remove_entry P es = None \<longleftrightarrow> list_all (\<lambda>x. \<not> P x) es"
  by (induction es) (auto split: option.split)

definition iqs :: "engine \<Rightarrow> nat list \<times> iq_entry list \<times> nat" where
  "iqs e = (answered (eng_trace e), eng_iq_entries e, eng_next_cookie e)"

lemma responds_same: "iqs e' = iqs e \<Longrightarrow> responds e e'"
  by (auto simp: responds_def iqs_def iq_ok_def outstanding_def)

lemma iqs_book: "book e' = book e \<Longrightarrow> iqs e' = iqs e"
  by (simp add: iqs_def book_def)

lemma responds_book: "book e' = book e \<Longrightarrow> responds e e'"
  using iqs_book responds_same by blast

lemma iqs_depth [simp]: "iqs (e\<lparr>eng_entered := n\<rparr>) = iqs e"
  by (simp add: iqs_def)

lemma iqs_enter [simp]: "iqs (enter_engine e) = iqs e"
  by (simp add: enter_engine_def)

lemma iqs_exit [simp]: "iqs (exit_engine saved e) = iqs e"
proof -
  have "iqs (flush_output b (e\<lparr>eng_entered := n\<rparr>)) = iqs e" for b n
    using iqs_book [OF book_flush] by simp
  moreover have "iqs (e1\<lparr>eng_parser_reset := b1, eng_raised_reset := b2\<rparr>) = iqs e1" for e1 b1 b2
    by (simp add: iqs_def)
  moreover have "iqs (call_out (OnStateChange st) e1) = iqs e1" for e1 st
    by (simp add: iqs_def call_out_def)
  ultimately show ?thesis by (simp add: exit_engine_def Let_def)
qed

lemma iqs_within: "(\<And>x. book (f x) = book x) \<Longrightarrow> iqs (within f e) = iqs e"
  using iqs_book by (metis iqs_enter iqs_exit within_def)

lemma iqs_SendStanza [simp]: "iqs (snd (SendStanza el e)) = iqs e"
proof -
  have "iqs (within (\<lambda>e. case eng_login e of Some lt \<Rightarrow> e\<lparr>eng_login := Some (OutgoingStanza el lt)\<rparr>
      | None \<Rightarrow> InternalSendStanza el e) e) = iqs e"
    by (rule iqs_within) (simp split: option.split)
  then show ?thesis by (simp add: SendStanza_def)
qed

lemma iqs_SendStanza_eq: "SendStanza el e = (status, e') \<Longrightarrow> iqs e' = iqs e"
  using iqs_SendStanza [of el e] by simp

lemma iqs_calls [simp]:
  "iqs (snd (SendRaw t e)) = iqs e" "iqs (snd (ConnectionClosed n e)) = iqs e" "iqs (snd (Disconnect e)) = iqs e"
  by (simp_all add: SendRaw_def ConnectionClosed_def Disconnect_def iqs_within)

lemma iqs_Connect: "Connect e = Some (st, e') \<Longrightarrow> iqs e' = iqs e"
proof (cases "eng_state e = STATE_START")
  case True
  let ?e1 = "(enter_engine e)\<lparr>eng_state := STATE_OPENING\<rparr>"
  assume "Connect e = Some (st, e')"
  with True obtain e2 where e2: "(case eng_login ?e1 of None \<Rightarrow> Some ?e1 | Some lt \<Rightarrow> login_input None False lt ?e1) = Some e2"
    and e': "e' = exit_engine (eng_state e) e2"
    by (auto simp: Connect_def Let_def)
  then have "book e2 = book (enter_engine e)"
    by (auto dest: book_login_input split: option.splits)
  with iqs_book show ?thesis by (metis e' iqs_enter iqs_exit)
qed (simp add: Connect_def)

lemma responds_RemoveIqHandler: "responds e (snd (snd (RemoveIqHandler n e)))"
  by (auto simp: RemoveIqHandler_def responds_def iq_ok_def outstanding_def split: option.split prod.split
      dest!: remove_entry_spec)

lemma responds_SendIq: "responds e (snd (snd (SendIq el h e)))"
proof -
  have new: "responds e e2"
    if "iqs e2 = iqs (e\<lparr>eng_iq_entries := eng_iq_entries e @ [x], eng_next_cookie := Suc (eng_next_cookie e)\<rparr>)"
      "iqe_cookie x = eng_next_cookie e" for e2 x
    using that by (auto simp: responds_def iqs_def iq_ok_def outstanding_def list_all_iff dest: less_SucI)
  show ?thesis
    by (auto simp: SendIq_def Let_def split: option.split prod.split intro!: new dest: iqs_SendStanza_eq)
qed

lemma responds_api: "api c e = Some e' \<Longrightarrow> responds e e'"
  by (cases c)
     (auto simp: responds_RemoveIqHandler responds_SendIq SendStanzaError_def responds_book responds_same
        intro: responds_same [OF iqs_Connect] split: if_splits option.splits)

interpretation responses: engine_relation responds
proof unfold_locales
  show "responds e (call_out (IqResponse (iqe_handler entry) (iqe_cookie entry) el) (e\<lparr>eng_iq_entries := rest\<rparr>))"
    if "remove_entry P (eng_iq_entries e) = Some (entry, rest)" for P e entry rest el
    using remove_entry_spec [OF that]
    by (auto simp: responds_def iq_ok_def outstanding_def call_out_def)
  show "responds e (call_out (HandleStanza h el) e)" for e h el
    by (rule responds_same) (simp add: iqs_def call_out_def)
qed (auto intro: responds_trans responds_api responds_book book_login_input)

lemma HandleInput_responds:
  assumes "HandleInput feed x0 A bytes c = Some (status, c')"
  shows "responds (conn_engine c) (conn_engine c')"
proof (cases "status = XMPP_RETURN_BADSTATE")
  case True
  with assms HandleInput_BADSTATE show ?thesis by (metis responds_refl)
next
  case False
  from responses.HandleInput_rel [OF assms this] obtain e1 where
    e1: "responds (enter_engine (conn_engine c)) e1"
      "conn_engine c' = (exit_engine (eng_state (conn_engine c)) e1)\<lparr>eng_parser_reset := False\<rparr>" .
  have "responds (conn_engine c) (enter_engine (conn_engine c))" by (rule responds_same) simp
  moreover have "responds e1 (conn_engine c')"
    unfolding e1(2) by (rule responds_same) (metis book_frames(9) iqs_book iqs_exit)
  ultimately show ?thesis using e1(1) responds_trans by blast
qed

lemma conn_api_responds:
  assumes "conn_api x0 call c = Some c'"
  shows "responds (conn_engine c) (conn_engine c')"
proof -
  obtain e1 where "api call (conn_engine c) = Some e1" and c': "conn_engine c' = e1\<lparr>eng_parser_reset := False\<rparr>"
    using conn_api_engine [OF assms] .
  moreover have "responds e1 (e1\<lparr>eng_parser_reset := False\<rparr>)" by (simp add: responds_same iqs_def)
  ultimately show ?thesis using responds_api responds_trans by metis
qed

lemma conn_iq_ok: "conn_reach feed x0 A c \<Longrightarrow> iq_ok (conn_engine c)"
proof (induction rule: conn_reach.induct)
  case init
  show ?case by (simp add: iq_ok_def outstanding_def engine_init_def)
qed (use HandleInput_responds conn_api_responds in \<open>fastforce simp: responds_def\<close>)+

subsection \<open>Properties\<close>

text \<open>A connection that was attached, connected and disconnected, without a server.\<close>

definition sample_connection :: "unit connection option" where
  "sample_connection =
     Option.bind (conn_api () (CallSetOutputHandler True) (connection_init ())) (\<lambda>c.
     Option.bind (conn_api () (CallSetSessionHandler True) c) (\<lambda>c.
     Option.bind (conn_api () (CallSendIq (Some (XmlElement QN_IQ [(QN_TYPE, ''get''), (QN_ID, ''1'')] [] False)) (Some 3)) c) (\<lambda>c.
     Option.bind (conn_api () CallConnect c) (conn_api () CallDisconnect))))"

lemma sample_reach: "sample_connection = Some c \<Longrightarrow> conn_reach feed () A c"
  unfolding sample_connection_def bind_eq_Some_conv
  by (elim exE conjE) ((erule conn_reach.call [rotated])+, rule conn_reach.init)

lemma sample_runs:
  "map_option (\<lambda>c. (length (eng_trace (conn_engine c)), CloseConnection \<in> set (eng_trace (conn_engine c)),
     notified (eng_trace (conn_engine c)), outstanding (conn_engine c), eng_output_handler (conn_engine c),
     eng_output (conn_engine c))) sample_connection =
   Some (4, True, [STATE_OPENING, STATE_CLOSED], [0], False, [])"
  by (simp add: sample_connection_def conn_api_def engine_init_def SetOutputHandler_def SetSessionHandler_def
      SendIq_def SendStanza_def within_def enter_engine_def exit_engine_def flush_output_def Let_def Connect_def
      login_input_def feed_connect login_init_def InternalSendStart_def put_output_def call_out_def RaiseReset_def
      OutgoingStanza_def login_IsDone_def Attr_def HasAttr_def Disconnect_def outstanding_def)

text \<open>C1: a connection is a session: whatever arrives from the network, whatever the application
  calls and whatever its handlers do, each input and each call takes the connection along steps of
  the abstract session, in which the state only moves forward, the output handler is attached only
  before connecting and called only while attached, and hanging up follows closing.\<close>

theorem connection_refines_session:
  assumes "conn_reach feed x0 A c"
    and "HandleInput feed x0 A bytes c = Some (status, c1)" and "conn_api x0 call c1 = Some c2"
  shows "session_step\<^sup>*\<^sup>* (session_of engine_init) (session_of (conn_engine c)) \<and>
    session_step\<^sup>*\<^sup>* (session_of (conn_engine c)) (session_of (conn_engine c1)) \<and>
    session_step\<^sup>*\<^sup>* (session_of (conn_engine c1)) (session_of (conn_engine c2))"
  using conn_reach_refines [OF assms(1)] HandleInput_refines [OF assms(2)] conn_api_refines [OF assms(3)]
  by (simp add: refines_def)

text \<open>C3: nothing goes to the output handler after \<open>CloseConnection\<close>, which is called at most once,
  and only when the engine is closed; closed is final and the calls made are never taken back.\<close>

theorem output_ends_with_close:
  assumes "conn_reach feed x0 A c" and "HandleInput feed x0 A bytes c = Some (status, c')"
  shows "quiet_after_close (eng_trace (conn_engine c')) \<and>
    (CloseConnection \<in> set (eng_trace (conn_engine c')) \<longrightarrow> eng_state (conn_engine c') = STATE_CLOSED) \<and>
    state_rank (eng_state (conn_engine c)) \<le> state_rank (eng_state (conn_engine c')) \<and>
    (\<exists>new. eng_trace (conn_engine c') = eng_trace (conn_engine c) @ new)"
proof -
  note steps = HandleInput_refines [OF assms(2), unfolded refines_def]
  have "session_ok (session_of engine_init)"
    by (simp add: session_ok_def engine_init_def)
  with conn_reach_refines [OF assms(1), unfolded refines_def] steps have "session_ok (session_of (conn_engine c'))"
    using session_steps(1) by blast
  with session_steps(2,3) [OF steps] show ?thesis by (simp add: session_ok_def)
qed

text \<open>C11: between calls nothing is left unsent while an output handler is attached, the guard of
  nested calls is balanced, and the session handler has been told a strictly ascending sequence of
  states, so each state at most once and closed last.\<close>

theorem connection_at_rest:
  assumes "conn_reach feed x0 A c"
  shows "eng_entered (conn_engine c) = 0 \<and>
    (eng_output_handler (conn_engine c) \<longrightarrow> eng_output (conn_engine c) = []) \<and>
    sorted_wrt (<) (map state_rank (notified (eng_trace (conn_engine c)))) \<and>
    list_all (\<lambda>st. state_rank st \<le> state_rank (eng_state (conn_engine c))) (notified (eng_trace (conn_engine c)))"
  using conn_at_rest [OF assms] by (simp add: at_rest_def told_ok_def)

text \<open>C4: every request gets at most one response: the cookies handed to \<open>IqResponse\<close> are
  distinct, and none of them is outstanding any more.\<close>

theorem iq_answered_once:
  assumes "conn_reach feed x0 A c"
  shows "distinct (answered (eng_trace (conn_engine c)) @ outstanding (conn_engine c)) \<and>
    list_all (\<lambda>cookie. cookie < eng_next_cookie (conn_engine c)) (outstanding (conn_engine c))"
  using conn_iq_ok [OF assms] by (simp add: iq_ok_def)

text \<open>No callback comes to an iq handler after it has been unregistered, nor a second one
  after its response: a cookie that is not outstanding is not answered by any input.\<close>

theorem unregistered_iq_not_called:
  assumes "conn_reach feed x0 A c" and "conn_api x0 (CallRemoveIqHandler cookie) c = Some c1"
    and "cookie \<in> set (outstanding (conn_engine c))"
    and "HandleInput feed x0 A bytes c1 = Some (status, c2)"
  shows "cookie \<notin> set (answered (eng_trace (conn_engine c2))) \<and> cookie \<notin> set (outstanding (conn_engine c2))"
proof -
  have ok: "iq_ok (conn_engine c)" "iq_ok (conn_engine c1)"
    by (rule conn_iq_ok [OF assms(1)], rule conn_iq_ok [OF conn_reach.call [OF assms(1,2)]])
  obtain e1 where e1: "api (CallRemoveIqHandler cookie) (conn_engine c) = Some e1" "conn_engine c1 = e1\<lparr>eng_parser_reset := False\<rparr>"
    using conn_api_engine [OF assms(2)] .
  have "cookie \<notin> set (outstanding e1)" and tr: "eng_trace e1 = eng_trace (conn_engine c)"
    "eng_next_cookie e1 = eng_next_cookie (conn_engine c)"
    using e1(1) ok(1) assms(3)
    by (auto simp: RemoveIqHandler_def outstanding_def iq_ok_def split: option.splits prod.splits dest!: remove_entry_spec iffD1 [OF remove_entry_None] simp: list_all_iff)
  then have gone: "cookie \<notin> set (answered (eng_trace (conn_engine c1)) @ outstanding (conn_engine c1))"
    "cookie < eng_next_cookie (conn_engine c1)"
    using ok(1) assms(3) e1(2) by (auto simp: iq_ok_def outstanding_def list_all_iff)
  from HandleInput_responds [OF assms(4)] ok(2) show ?thesis
    using gone by (fastforce simp: responds_def)
qed

text \<open>The witnesses: the sample connection, over a network that never reports anything.\<close>

abbreviation silent_feed :: "unit expat_feed" where
  "silent_feed \<equiv> \<lambda>x data isFinal. (x, [], XML_ERROR_NONE, (0, 0, 0))"

abbreviation no_app :: app where
  "no_app \<equiv> \<lparr>app_stanza = (\<lambda>h el e. ([], False)), app_iq = (\<lambda>h c el e. [])\<rparr>"

lemma sample_closed:
  obtains c where "sample_connection = Some c" "conn_reach silent_feed () no_app c"
    "HandleInput silent_feed () no_app ''x'' c = Some (XMPP_RETURN_BADSTATE, c)"
    "outstanding (conn_engine c) = [0]" "CloseConnection \<in> set (eng_trace (conn_engine c))"
    "notified (eng_trace (conn_engine c)) = [STATE_OPENING, STATE_CLOSED]"
proof -
  from sample_runs obtain c where c: "sample_connection = Some c" "outstanding (conn_engine c) = [0]"
      "CloseConnection \<in> set (eng_trace (conn_engine c))" "notified (eng_trace (conn_engine c)) = [STATE_OPENING, STATE_CLOSED]"
    by auto
  have "at_rest (conn_engine c)" by (rule conn_at_rest [OF sample_reach [OF c(1)]])
  then have "4 \<le> state_rank (eng_state (conn_engine c))"
    using c(4) by (simp add: at_rest_def told_ok_def)
  then have "eng_state (conn_engine c) = STATE_CLOSED"
    using state_rank_le [of "eng_state (conn_engine c)"] state_rank_closed by (metis le_antisym)
  then have "HandleInput silent_feed () no_app ''x'' c = Some (XMPP_RETURN_BADSTATE, c)"
    by (simp add: HandleInput_def Let_def)
  with that c sample_reach [OF c(1)] show thesis by blast
qed

theorem output_ends_with_close_witness:
  "\<exists>c. sample_connection = Some c \<and> CloseConnection \<in> set (eng_trace (conn_engine c)) \<and>
     quiet_after_close (eng_trace (conn_engine c))"
proof -
  obtain c where c: "sample_connection = Some c" "conn_reach silent_feed () no_app c"
    "HandleInput silent_feed () no_app ''x'' c = Some (XMPP_RETURN_BADSTATE, c)"
    "CloseConnection \<in> set (eng_trace (conn_engine c))" by (rule sample_closed)
  from output_ends_with_close [OF c(2,3)] c(1,4) show ?thesis by blast
qed

theorem connection_refines_session_witness:
  "\<exists>c. sample_connection = Some c \<and> session_step\<^sup>*\<^sup>* (session_of engine_init) (session_of (conn_engine c)) \<and>
     CloseConnection \<in> set (ss_trace (session_of (conn_engine c)))"
proof -
  obtain c where c: "sample_connection = Some c" "conn_reach silent_feed () no_app c"
    "HandleInput silent_feed () no_app ''x'' c = Some (XMPP_RETURN_BADSTATE, c)"
    "CloseConnection \<in> set (eng_trace (conn_engine c))" by (rule sample_closed)
  have "conn_api () CallNextId c = Some (the (conn_api () CallNextId c))" by (simp add: conn_api_def)
  from connection_refines_session [OF c(2,3) this] c(1,4) show ?thesis by auto
qed

theorem connection_at_rest_witness:
  "\<exists>c. sample_connection = Some c \<and> eng_entered (conn_engine c) = 0 \<and>
     notified (eng_trace (conn_engine c)) = [STATE_OPENING, STATE_CLOSED]"
proof -
  obtain c where c: "sample_connection = Some c" "conn_reach silent_feed () no_app c"
    "notified (eng_trace (conn_engine c)) = [STATE_OPENING, STATE_CLOSED]" by (rule sample_closed)
  from connection_at_rest [OF c(2)] c(1,3) show ?thesis by blast
qed

theorem iq_answered_once_witness:
  "\<exists>c. sample_connection = Some c \<and> outstanding (conn_engine c) = [0] \<and>
     0 \<notin> set (answered (eng_trace (conn_engine c)))"
proof -
  obtain c where c: "sample_connection = Some c" "conn_reach silent_feed () no_app c"
    "outstanding (conn_engine c) = [0]" by (rule sample_closed)
  from iq_answered_once [OF c(2)] c(1,3) show ?thesis by auto
qed

theorem unregistered_iq_not_called_witness:
  "\<exists>c c1. sample_connection = Some c \<and> outstanding (conn_engine c) = [0] \<and>
     conn_api () (CallRemoveIqHandler 0) c = Some c1 \<and> 0 \<notin> set (outstanding (conn_engine c1))"
proof -
  obtain c where c: "sample_connection = Some c" "conn_reach silent_feed () no_app c"
    "HandleInput silent_feed () no_app ''x'' c = Some (XMPP_RETURN_BADSTATE, c)"
    "outstanding (conn_engine c) = [0]" by (rule sample_closed)
  let ?c1 = "the (conn_api () (CallRemoveIqHandler 0) c)"
  have c1: "conn_api () (CallRemoveIqHandler 0) c = Some ?c1" by (simp add: conn_api_def)
  then obtain e1 where "api (CallRemoveIqHandler 0) (conn_engine c) = Some e1"
    "conn_engine ?c1 = e1\<lparr>eng_parser_reset := False\<rparr>" by (rule conn_api_engine)
  then have "eng_state (conn_engine ?c1) = eng_state (conn_engine c)"
    by (auto simp: RemoveIqHandler_def split: option.splits prod.splits)
  then have "HandleInput silent_feed () no_app ''x'' ?c1 = Some (XMPP_RETURN_BADSTATE, ?c1)"
    using c(3) by (auto simp: HandleInput_def Let_def split: if_splits option.splits)
  from unregistered_iq_not_called [OF c(2) c1 _ this] c(1,4) c1 show ?thesis by auto
qed

end
