(* ===== verification/Replies.thy ===== *)
theory Replies
  imports EngineInput
begin

text \<open>
  What becomes of an incoming stanza: which handlers see it, and the error that answers a request
  nobody handled (\<open>XmppEngineImpl::IncomingStanza\<close>, \<open>SendStanzaError\<close>).
\<close>

subsection \<open>Delivery to handlers that only look\<close>

text \<open>
  The handlers that see a stanza when they do nothing but answer whether they handled it:
  in order, up to and including the first that handles it.
\<close>

fun served :: "(nat \<Rightarrow> bool) \<Rightarrow> nat list \<Rightarrow> nat list" where
  "served handles [] = []"
| "served handles (h # hs) = (if handles h then [h] else h # served handles hs)"

definition looks_only :: "app \<Rightarrow> (nat \<Rightarrow> bool) \<Rightarrow> xml_element \<Rightarrow> bool" where
  "looks_only A handles stanza \<longleftrightarrow> (\<forall>h e. app_stanza A h stanza e = ([], handles h))"

definition told :: "xml_element \<Rightarrow> nat list \<Rightarrow> engine \<Rightarrow> engine" where
  "told stanza hs e = e\<lparr>eng_trace := eng_trace e @ map (\<lambda>h. HandleStanza h stanza) hs\<rparr>"

lemma told_simps [simp]:
  "told stanza [] e = e" "told stanza hs (told stanza gs e) = told stanza (gs @ hs) e"
  "eng_handlers (told stanza hs e) = eng_handlers e" "call_out (HandleStanza h stanza) e = told stanza [h] e"
  by (simp_all add: told_def call_out_def)

lemma call_handler_looks:
  "looks_only A handles stanza \<Longrightarrow> call_handler A h stanza e = Some (handles h, told stanza [h] e)"
  by (simp add: call_handler_def looks_only_def Let_def)

lemma peek_loop_looks:
  assumes "looks_only A handles stanza"
  shows "peek_loop A stanza i e = Some (told stanza (drop i (eng_handlers e HL_PEEK)) e)"
proof (induction "length (eng_handlers e HL_PEEK) - i" arbitrary: i e)
  case 0
  then show ?case by (subst peek_loop.simps) simp
next
  case (Suc n)
  then have i: "i < length (eng_handlers e HL_PEEK)" by simp
  have "peek_loop A stanza (i + 1) (told stanza [eng_handlers e HL_PEEK ! i] e) =
      Some (told stanza (drop i (eng_handlers e HL_PEEK)) e)"
    using Suc(1) [of "told stanza [eng_handlers e HL_PEEK ! i] e" "i + 1"] Suc(2) Cons_nth_drop_Suc [OF i]
    by (simp add: Suc_diff_Suc)
  with i call_handler_looks [OF assms] show ?case by (subst peek_loop.simps) simp
qed

lemma level_loop_looks:
  assumes "looks_only A handles stanza"
  shows "level_loop A stanza levels i e =
    (let hs = (case levels of [] \<Rightarrow> [] | level # rest \<Rightarrow> drop i (eng_handlers e level) @ concat (map (eng_handlers e) rest)) in
     Some (list_ex handles hs, told stanza (served handles hs) e))"
proof (induction levels arbitrary: i e)
  case Nil
  then show ?case by (subst level_loop.simps) simp
next
  case (Cons level rest)
  show ?case
  proof (induction "length (eng_handlers e level) - i" arbitrary: i e)
    case 0
    then have "level_loop A stanza (level # rest) i e = level_loop A stanza rest 0 e"
      by (subst level_loop.simps) simp
    with 0 Cons.IH [of 0 e] show ?case by (cases rest) (simp_all add: Let_def)
  next
    case (Suc n)
    let ?h = "eng_handlers e level ! i"
    have i: "i < length (eng_handlers e level)" using Suc by simp
    then have step: "level_loop A stanza (level # rest) i e =
        (if handles ?h then Some (True, told stanza [?h] e) else level_loop A stanza (level # rest) (i + 1) (told stanza [?h] e))"
      by (subst level_loop.simps) (simp add: call_handler_looks [OF assms])
    have split: "drop i (eng_handlers e level) = ?h # drop (i + 1) (eng_handlers e level)"
      using Cons_nth_drop_Suc [OF i] by simp
    have "level_loop A stanza (level # rest) (i + 1) (told stanza [?h] e) =
        (let hs = drop (i + 1) (eng_handlers e level) @ concat (map (eng_handlers e) rest) in
         Some (list_ex handles hs, told stanza (?h # served handles hs) e))"
      using Suc(1) [of "told stanza [?h] e" "i + 1"] Suc(2) by (simp add: Let_def)
    then show ?case
      unfolding step by (simp add: Let_def split)
  qed
qed

definition ranked_handlers :: "engine \<Rightarrow> nat list" where
  "ranked_handlers e = eng_handlers e HL_SINGLE @ eng_handlers e HL_SENDER @ eng_handlers e HL_TYPE @ eng_handlers e HL_ALL"

lemma dispatch_looks:
  assumes "looks_only A handles stanza"
  shows "dispatch_stanza A stanza e =
    (let e' = told stanza (eng_handlers e HL_PEEK @ served handles (ranked_handlers e)) e in
     if list_ex handles (ranked_handlers e) then Some e' else unhandled_stanza stanza e')"
  by (simp add: dispatch_stanza_def peek_loop_looks [OF assms] level_loop_looks [OF assms] Let_def ranked_handlers_def)

subsection \<open>The error reply\<close>

definition reply_attrs :: "(qname \<times> string) list \<Rightarrow> (qname \<times> string) list" where
  "reply_attrs as =
     map (\<lambda>(m, v). (if m = QN_FROM then QN_TO else m, v)) (filter (\<lambda>(m, v). m \<noteq> QN_TO \<and> m \<noteq> QN_TYPE) as)"

lemma qn_distinct [simp]: "QN_FROM \<noteq> QN_TYPE" "QN_FROM \<noteq> QN_TO" "QN_TYPE \<noteq> QN_FROM" "QN_TO \<noteq> QN_FROM" "QN_TYPE \<noteq> QN_TO" "QN_TO \<noteq> QN_TYPE"
  by (simp_all add: qname_consts)

lemma error_attrs_sel [simp]:
  "elt_attrs (error_attrs as el) = elt_attrs el @ reply_attrs as"
  "elt_name (error_attrs as el) = elt_name el" "elt_children (error_attrs as el) = elt_children el"
  by (induction as el rule: error_attrs.induct) (auto simp: reply_attrs_def)

lemma find_reply_attr:
  "find_attr n (reply_attrs as) =
     (if n = QN_TO then find_attr QN_FROM as else if n = QN_FROM \<or> n = QN_TYPE then None else find_attr n as)"
  by (induction as) (auto simp: reply_attrs_def)

lemma error_children_sel [simp]:
  "elt_name (error_children cs el) = elt_name el" "elt_attrs (error_children cs el) = elt_attrs el"
  by (induction cs el rule: error_children.induct) simp_all

lemma text_merged_append_last:
  "text_merged (xs @ XmlText t # cs) \<Longrightarrow> t \<noteq> [] \<and> (xs = [] \<or> \<not> IsText (last xs))"
proof (induction xs rule: text_merged.induct)
  case (2 u xs)
  then show ?case by (cases xs) (auto split: xml_child.splits)
qed auto

lemma error_children_copy:
  "text_merged (elt_children el @ cs) \<Longrightarrow> elt_children (error_children cs el) = elt_children el @ cs"
proof (induction cs el rule: error_children.induct)
  case (2 t rest el)
  from text_merged_append_last [OF 2(2)] have "append_text t (elt_children el) = elt_children el @ [XmlText t]"
    by (auto simp: append_text_def)
  with 2 show ?case by simp
qed (simp_all add: AddElement_def copy_element_id)

definition error_child :: "stanza_error \<Rightarrow> xml_element" where
  "error_child code =
     (let (name, typ, num) = error_condition code in
      XmlElement QN_ERROR [(QN_CODE, num), (QN_TYPE, typ)] [XmlElem (new_element_ns name True)] False)"

lemma AddErrorCode_child:
  "AddErrorCode el code = Some (with_children el (elt_children el @ [XmlElem (error_child code)]))"
  by (simp add: AddErrorCode_def AecImpl_def error_child_def AddAttr_depth_def AddElement_depth_def Let_def
      AddElement_def AddAttr_def new_element_def with_children_def with_attrs_def split: prod.split)

lemma delivery_of_looks:
  assumes "looks_only A handles stanza" "elt_name stanza \<noteq> QN_IQ"
  shows "dispatch_stanza A stanza e = Some (told stanza (eng_handlers e HL_PEEK @ served handles (ranked_handlers e)) e)"
  using assms by (simp add: dispatch_looks [OF assms(1)] unhandled_stanza_def Let_def)

subsection \<open>Properties\<close>

text \<open>C10: handlers that only look at stanzas see an incoming stanza in order of rank: every peek
  handler, then the single, sender, type and all handlers in the order of registration until one
  handles it. Only when none does is a request answered with an error.\<close>

theorem stanza_delivery_order:
  assumes "looks_only A handles stanza"
  shows "dispatch_stanza A stanza e =
    (let seen = told stanza (eng_handlers e HL_PEEK @ served handles (ranked_handlers e)) e in
     if list_ex handles (ranked_handlers e) then Some seen
     else if elt_name stanza = QN_IQ \<and> Attr stanza QN_TYPE \<notin> {''error'', ''result''}
       then map_option snd (SendStanzaError stanza XSE_FEATURE_NOT_IMPLEMENTED [] seen)
       else Some seen)"
  by (simp add: dispatch_looks [OF assms] unhandled_stanza_def Let_def)

theorem stanza_delivery_order_witness:
  "let A = \<lparr>app_stanza = (\<lambda>h el e. ([], h = 8)), app_iq = (\<lambda>h c el e. [])\<rparr>;
       m = new_element QN_MESSAGE;
       e = engine_init\<lparr>eng_handlers := (\<lambda>_. [])(HL_PEEK := [1, 2], HL_TYPE := [7, 8], HL_ALL := [9])\<rparr> in
   dispatch_stanza A m e = Some (e\<lparr>eng_trace := map (\<lambda>h. HandleStanza h m) [1, 2, 7, 8]\<rparr>)"
proof -
  let ?A = "\<lparr>app_stanza = (\<lambda>h el e. ([], h = 8)), app_iq = (\<lambda>h c el e. [])\<rparr> :: app"
  let ?e = "engine_init\<lparr>eng_handlers := (\<lambda>_. [])(HL_PEEK := [1, 2], HL_TYPE := [7, 8], HL_ALL := [9])\<rparr>"
  have "looks_only ?A (\<lambda>h. h = 8) (new_element QN_MESSAGE)" by (simp add: looks_only_def)
  from stanza_delivery_order [OF this, of ?e] show ?thesis
    by (simp add: Let_def ranked_handlers_def told_def engine_init_def)
qed



text \<open>A closed engine still delivers: \<open>Disconnect\<close> closes the engine without an error, and
  \<open>IncomingStanza\<close> only looks for an error, so a stanza that follows in the same input, after a
  handler has disconnected, is handed to the handlers.\<close>

theorem closed_engine_still_delivers:
  assumes open_engine: "eng_state e = STATE_OPEN" "eng_login e = None" "eng_error e = ERROR_NONE"
      "0 < eng_entered e" "\<not> eng_raised_reset e" "eng_iq_entries e = []"
    and "looks_only A handles stanza" and "elt_name stanza \<notin> {QN_STREAM_ERROR, QN_IQ}"
  shows "eng_state (snd (Disconnect e)) = STATE_CLOSED \<and>
    engine_IncomingStanza A (Some stanza) (snd (Disconnect e)) =
      Some (told stanza (eng_handlers e HL_PEEK @ served handles (ranked_handlers e)) (snd (Disconnect e)))"
proof -
  let ?d = "snd (Disconnect e)"
  have d: "eng_state ?d = STATE_CLOSED" "eng_login ?d = None" "eng_error ?d = ERROR_NONE" "\<not> eng_raised_reset ?d"
      "eng_iq_entries ?d = []" "eng_handlers ?d = eng_handlers e"
    using open_engine
    by (simp_all add: Disconnect_def within_def exit_engine_def enter_engine_def flush_output_def call_out_def put_output_def Let_def)
  then show ?thesis
    using assms(7,8) delivery_of_looks [OF assms(7), of ?d] d by (simp add: engine_IncomingStanza_def HasError_def HandleIqResponse_def ranked_handlers_def)
qed

definition busy_engine :: engine where
  "busy_engine = engine_init\<lparr>eng_state := STATE_OPEN, eng_login := None, eng_entered := 1,
     eng_handlers := (\<lambda>_. [])(HL_ALL := [5])\<rparr>"

theorem closed_engine_still_delivers_witness:
  "\<exists>e'. engine_IncomingStanza \<lparr>app_stanza = (\<lambda>h el e. ([], True)), app_iq = (\<lambda>h c el e. [])\<rparr>
     (Some (new_element QN_MESSAGE)) (snd (Disconnect busy_engine)) = Some e' \<and>
   eng_state e' = STATE_CLOSED \<and> last (eng_trace e') = HandleStanza 5 (new_element QN_MESSAGE)"
proof -
  have "looks_only \<lparr>app_stanza = (\<lambda>h el e. ([], True)), app_iq = (\<lambda>h c el e. [])\<rparr> (\<lambda>_. True) (new_element QN_MESSAGE)"
    by (simp add: looks_only_def)
  from closed_engine_still_delivers [OF _ _ _ _ _ _ this, of busy_engine] show ?thesis
    by (simp add: busy_engine_def engine_init_def told_def ranked_handlers_def)
       (simp add: qname_consts)
qed

end
