(* ===== verification/StringCodes.thy ===== *)
theory StringCodes
  imports Prelude
begin

text \<open>
  The string codecs of \<open>talk/base/stringencode.cc\<close> and the string helpers of
  \<open>talk/base/stringutils.cc\<close>.

  A function that fills a caller's buffer of size \<open>buflen\<close> is a function from the source to the
  bytes it puts before the terminating NUL; its return value is their number. The loops carry the
  output so far, \<open>bufpos\<close> is its length. The source is the list of the bytes not yet read,
  \<open>srcpos + k < srclen\<close> is that more than \<open>k\<close> are left. A C string (\<open>illegal\<close>, the arguments of
  \<open>string_match\<close>) is the list of its bytes before the NUL. A \<open>char\<close> is signed, an
  \<open>unsigned long\<close> has 64 bits.
\<close>

unbundle bit_operations_syntax

definition strchr :: "string \<Rightarrow> char \<Rightarrow> bool" where
  "strchr s ch \<longleftrightarrow> ch \<in> set s \<or> ch = NUL"

subsection \<open>Hexadecimal digits\<close>

definition HEX :: string where
  "HEX = ''0123456789abcdef''"

definition hex_encode :: "nat \<Rightarrow> char" where
  "hex_encode val = (if val < 16 then HEX ! val else CHR ''!'')"

definition hex_decode :: "char \<Rightarrow> nat option" where
  "hex_decode ch =
     (if byte_of CHR ''0'' \<le> byte_of ch \<and> byte_of ch \<le> byte_of CHR ''9'' then Some (byte_of ch - byte_of CHR ''0'')
      else if byte_of CHR ''A'' \<le> byte_of ch \<and> byte_of ch \<le> byte_of CHR ''Z'' then Some (byte_of ch - byte_of CHR ''A'' + 10)
      else if byte_of CHR ''a'' \<le> byte_of ch \<and> byte_of ch \<le> byte_of CHR ''z'' then Some (byte_of ch - byte_of CHR ''a'' + 10)
      else None)"

text \<open>The byte \<open>(h1 << 4) | h2\<close>, cut to eight bits by the assignment.\<close>

definition hex_byte :: "nat \<Rightarrow> nat \<Rightarrow> char" where
  "hex_byte h1 h2 = char_of (push_bit 4 h1 OR h2)"

definition hex_pair :: "char \<Rightarrow> string" where
  "hex_pair ch = [hex_encode (drop_bit 4 (byte_of ch) AND 15), hex_encode (byte_of ch AND 15)]"

subsection \<open>Escaping\<close>

fun escape_loop :: "nat \<Rightarrow> string \<Rightarrow> char \<Rightarrow> string \<Rightarrow> string \<Rightarrow> string" where
  "escape_loop buflen illegal esc [] out = out"
| "escape_loop buflen illegal esc (ch # src) out =
     (if \<not> length out + 1 < buflen then out
      else if ch = esc \<or> strchr illegal ch then
        (if length out + 2 \<ge> buflen then out else escape_loop buflen illegal esc src (out @ [esc, ch]))
      else escape_loop buflen illegal esc src (out @ [ch]))"

definition escape :: "nat \<Rightarrow> string \<Rightarrow> string \<Rightarrow> char \<Rightarrow> string" where
  "escape buflen source illegal esc = (if buflen \<le> 0 then [] else escape_loop buflen illegal esc source [])"

fun unescape_loop :: "nat \<Rightarrow> char \<Rightarrow> string \<Rightarrow> string \<Rightarrow> string" where
  "unescape_loop buflen esc [] out = out"
| "unescape_loop buflen esc (ch # src) out =
     (if \<not> length out + 1 < buflen then out
      else if ch = esc \<and> src \<noteq> [] then unescape_loop buflen esc (tl src) (out @ [hd src])
      else unescape_loop buflen esc src (out @ [ch]))"

definition unescape :: "nat \<Rightarrow> string \<Rightarrow> char \<Rightarrow> string" where
  "unescape buflen source esc = (if buflen \<le> 0 then [] else unescape_loop buflen esc source [])"

fun str_encode_loop :: "nat \<Rightarrow> string \<Rightarrow> char \<Rightarrow> string \<Rightarrow> string \<Rightarrow> string" where
  "str_encode_loop buflen illegal esc [] out = out"
| "str_encode_loop buflen illegal esc (ch # src) out =
     (if \<not> length out + 1 < buflen then out
      else if ch \<noteq> esc \<and> \<not> strchr illegal ch then str_encode_loop buflen illegal esc src (out @ [ch])
      else if length out + 3 \<ge> buflen then out
      else str_encode_loop buflen illegal esc src (out @ esc # hex_pair ch))"

definition str_encode :: "nat \<Rightarrow> string \<Rightarrow> string \<Rightarrow> char \<Rightarrow> string" where
  "str_encode buflen source illegal esc = (if buflen \<le> 0 then [] else str_encode_loop buflen illegal esc source [])"

text \<open>The byte written for two hexadecimal digits at the head of the source, if they are there.\<close>

fun hex_ahead :: "string \<Rightarrow> char option" where
  "hex_ahead (c1 # c2 # src) =
     (case (hex_decode c1, hex_decode c2) of (Some h1, Some h2) \<Rightarrow> Some (hex_byte h1 h2) | _ \<Rightarrow> None)"
| "hex_ahead src = None"

fun str_decode_loop :: "nat \<Rightarrow> char \<Rightarrow> string \<Rightarrow> string \<Rightarrow> string" where
  "str_decode_loop buflen esc [] out = out"
| "str_decode_loop buflen esc (ch # src) out =
     (if \<not> length out + 1 < buflen then out
      else case (if ch = esc then hex_ahead src else None) of
          Some b \<Rightarrow> str_decode_loop buflen esc (drop 2 src) (out @ [b])
        | None \<Rightarrow> str_decode_loop buflen esc src (out @ [ch]))"

definition str_decode :: "nat \<Rightarrow> string \<Rightarrow> char \<Rightarrow> string" where
  "str_decode buflen source esc = (if buflen \<le> 0 then [] else str_decode_loop buflen esc source [])"

subsection \<open>Character classes and URLs\<close>

definition URL_UNSAFE :: nat where "URL_UNSAFE = 1"
definition XML_UNSAFE :: nat where "XML_UNSAFE = 2"
definition HTML_UNSAFE :: nat where "HTML_UNSAFE = 2"

definition ASCII_CLASS :: "nat list" where
  "ASCII_CLASS =
    [1,1,1,1,1,1,1,1,1,1,1,1,1,1,1,1,1,1,1,1,1,1,1,1,1,1,1,1,1,1,1,1,
     1,0,3,1,1,1,3,2,0,0,0,1,1,0,0,1,0,0,0,0,0,0,0,0,0,0,1,1,3,1,3,1,
     1,0,0,0,0,0,0,0,0,0,0,0,0,0,0,0,0,0,0,0,0,0,0,0,0,0,0,1,1,1,1,0,
     1,0,0,0,0,0,0,0,0,0,0,0,0,0,0,0,0,0,0,0,0,0,0,0,0,0,0,1,1,1,0,1]"

definition unsafe :: "nat \<Rightarrow> char \<Rightarrow> bool" where
  "unsafe cls ch \<longleftrightarrow> byte_of ch < 128 \<and> ASCII_CLASS ! byte_of ch AND cls \<noteq> 0"

fun url_encode_loop :: "nat \<Rightarrow> string \<Rightarrow> string \<Rightarrow> string" where
  "url_encode_loop buflen [] out = out"
| "url_encode_loop buflen (ch # src) out =
     (if \<not> length out + 1 < buflen then out
      else if unsafe URL_UNSAFE ch then
        (if length out + 3 \<ge> buflen then out else url_encode_loop buflen src (out @ CHR ''%'' # hex_pair ch))
      else url_encode_loop buflen src (out @ [ch]))"

definition url_encode :: "nat \<Rightarrow> string \<Rightarrow> string" where
  "url_encode buflen source = (if buflen \<le> 0 then [] else url_encode_loop buflen source [])"

fun url_decode_loop :: "nat \<Rightarrow> string \<Rightarrow> string \<Rightarrow> string" where
  "url_decode_loop buflen [] out = out"
| "url_decode_loop buflen (ch # src) out =
     (if \<not> length out + 1 < buflen then out
      else if ch = CHR ''+'' then url_decode_loop buflen src (out @ '' '')
      else case (if ch = CHR ''%'' then hex_ahead src else None) of
          Some b \<Rightarrow> url_decode_loop buflen (drop 2 src) (out @ [b])
        | None \<Rightarrow> url_decode_loop buflen src (out @ [ch]))"

definition url_decode :: "nat \<Rightarrow> string \<Rightarrow> string" where
  "url_decode buflen source = (if buflen \<le> 0 then [] else url_decode_loop buflen source [])"

text \<open>With a null buffer the two return an upper bound of the size they need.\<close>

definition url_encode_size :: "nat \<Rightarrow> nat" where
  "url_encode_size srclen = srclen * 3 + 1"

definition url_decode_size :: "nat \<Rightarrow> nat" where
  "url_decode_size srclen = srclen + 1"

definition s_transform :: "(nat \<Rightarrow> nat) \<Rightarrow> (nat \<Rightarrow> string \<Rightarrow> string) \<Rightarrow> string \<Rightarrow> string" where
  "s_transform room t source = t (room (length source)) source"

definition transform :: "nat \<Rightarrow> (nat \<Rightarrow> string \<Rightarrow> string) \<Rightarrow> string \<Rightarrow> string" where
  "transform maxlen t source = t (maxlen + 1) source"

definition s_url_encode :: "string \<Rightarrow> string" where
  "s_url_encode source = s_transform url_encode_size url_encode source"

definition s_url_decode :: "string \<Rightarrow> string" where
  "s_url_decode source = s_transform url_decode_size url_decode source"

subsection \<open>UTF-8\<close>

text \<open>The number of bytes read and the value; no bytes when the sequence is not valid.\<close>

definition utf8_decode :: "string \<Rightarrow> nat \<times> nat" where
  "utf8_decode source =
     (let s = (\<lambda>i. byte_of (source ! i)); srclen = length source in
      if s 0 AND 0x80 = 0 then (1, s 0)
      else if srclen < 2 \<or> s 1 AND 0xC0 \<noteq> 0x80 then (0, 0)
      else let value16 = s 1 AND 0x3F in
      if s 0 AND 0xE0 = 0xC0 then (2, push_bit 6 (s 0 AND 0x1F) OR value16)
      else if srclen < 3 \<or> s 2 AND 0xC0 \<noteq> 0x80 then (0, 0)
      else let value16 = push_bit 6 value16 OR (s 2 AND 0x3F) in
      if s 0 AND 0xF0 = 0xE0 then (3, push_bit 12 (s 0 AND 0x0F) OR value16)
      else if srclen < 4 \<or> s 3 AND 0xC0 \<noteq> 0x80 then (0, 0)
      else let value16 = push_bit 6 value16 OR (s 3 AND 0x3F) in
      if s 0 AND 0xF8 = 0xF0 then (4, push_bit 18 (s 0 AND 0x07) OR value16)
      else (0, 0))"

definition utf8_encode :: "nat \<Rightarrow> nat \<Rightarrow> string" where
  "utf8_encode buflen val =
     (if val \<le> 0x7F \<and> buflen \<ge> 1 then [char_of val]
      else if val \<le> 0x7FF \<and> buflen \<ge> 2 then
        [char_of (0xC0 OR drop_bit 6 val), char_of (0x80 OR (val AND 0x3F))]
      else if val \<le> 0xFFFF \<and> buflen \<ge> 3 then
        [char_of (0xE0 OR drop_bit 12 val), char_of (0x80 OR (drop_bit 6 val AND 0x3F)), char_of (0x80 OR (val AND 0x3F))]
      else if val \<le> 0x1FFFFF \<and> buflen \<ge> 4 then
        [char_of (0xF0 OR drop_bit 18 val), char_of (0x80 OR (drop_bit 12 val AND 0x3F)),
         char_of (0x80 OR (drop_bit 6 val AND 0x3F)), char_of (0x80 OR (val AND 0x3F))]
      else [])"

subsection \<open>XML and HTML\<close>

definition html_escseq :: "char \<Rightarrow> string" where
  "html_escseq ch =
     (if ch = CHR ''<'' then ''&lt;'' else if ch = CHR ''>'' then ''&gt;''
      else if ch = CHR 0x27 then ''&#39;'' else if ch = CHR 0x22 then ''&quot;''
      else if ch = CHR ''&'' then ''&amp;'' else [])"

function html_encode_loop :: "nat \<Rightarrow> string \<Rightarrow> string \<Rightarrow> string" where
  "html_encode_loop buflen src out =
     (if src = [] \<or> \<not> length out + 1 < buflen then out
      else let ch = hd src in
        if byte_of ch < 128 then
          (if unsafe HTML_UNSAFE ch then
             (let escseq = html_escseq ch in
              if length out + length escseq \<ge> buflen then out else html_encode_loop buflen (tl src) (out @ escseq))
           else html_encode_loop buflen (tl src) (out @ [ch]))
        else
          let (vallen, val0) = utf8_decode src;
              (used, val) = (if vallen \<noteq> 0 then (vallen, val0) else (1, byte_of ch));
              escseq = ''&#'' @ nat_to_dec val @ '';'' in
          if length out + length escseq \<ge> buflen then out
          else html_encode_loop buflen (drop used src) (out @ escseq))"
  by pat_completeness auto
termination
  by (relation "measure (\<lambda>(buflen, src, out). length src)") (auto intro!: diff_less split: if_splits, metis prod.inject)

declare html_encode_loop.simps [simp del]

definition html_encode :: "nat \<Rightarrow> string \<Rightarrow> string" where
  "html_encode buflen source = (if buflen \<le> 0 then [] else html_encode_loop buflen source [])"

definition xml_escseq :: "char \<Rightarrow> string" where
  "xml_escseq ch =
     (if ch = CHR ''<'' then ''&lt;'' else if ch = CHR ''>'' then ''&gt;''
      else if ch = CHR 0x27 then ''&apos;'' else if ch = CHR 0x22 then ''&quot;''
      else if ch = CHR ''&'' then ''&amp;'' else [])"

fun xml_encode_loop :: "nat \<Rightarrow> string \<Rightarrow> string \<Rightarrow> string" where
  "xml_encode_loop buflen [] out = out"
| "xml_encode_loop buflen (ch # src) out =
     (if \<not> length out + 1 < buflen then out
      else if unsafe XML_UNSAFE ch then
        (if length out + length (xml_escseq ch) \<ge> buflen then out
         else xml_encode_loop buflen src (out @ xml_escseq ch))
      else xml_encode_loop buflen src (out @ [ch]))"

definition xml_encode :: "nat \<Rightarrow> string \<Rightarrow> string" where
  "xml_encode buflen source = (if buflen \<le> 0 then [] else xml_encode_loop buflen source [])"

text \<open>
  \<open>strtoul\<close> of the C library: white space, a sign, for base 16 an optional \<open>0x\<close>, digits; the value
  saturates. It gives the value and what follows the number, the whole text when there is no number.
  It reads a text that ends where the source ends: reading on into what lies behind would only move
  \<open>ptr\<close> past the end, where \<open>xml_decode\<close> gives up just the same.
\<close>

definition base_digit :: "nat \<Rightarrow> char \<Rightarrow> bool" where
  "base_digit base ch \<longleftrightarrow> (case hex_decode ch of None \<Rightarrow> False | Some d \<Rightarrow> d < base)"

definition ULONG_MAX :: nat where
  "ULONG_MAX = 2 ^ 64 - 1"

definition skip_sign :: "string \<Rightarrow> string" where
  "skip_sign s = (if s \<noteq> [] \<and> hd s \<in> {CHR ''+'', CHR ''-''} then tl s else s)"

definition skip_0x :: "nat \<Rightarrow> string \<Rightarrow> string" where
  "skip_0x base s =
     (if base = 16 \<and> length s \<ge> 3 \<and> s ! 0 = CHR ''0'' \<and> s ! 1 \<in> {CHR ''x'', CHR ''X''} \<and> base_digit 16 (s ! 2)
      then drop 2 s else s)"

definition strtoul :: "string \<Rightarrow> nat \<Rightarrow> nat \<times> string" where
  "strtoul s base =
     (let s1 = dropWhile is_space s;
          neg = (s1 \<noteq> [] \<and> hd s1 = CHR ''-'');
          s3 = skip_0x base (skip_sign s1);
          digits = takeWhile (base_digit base) s3;
          val = foldl (\<lambda>n d. n * base + the (hex_decode d)) 0 digits in
      if digits = [] then (0, s)
      else (if val > ULONG_MAX then ULONG_MAX else if neg \<and> val \<noteq> 0 then ULONG_MAX + 1 - val else val,
            dropWhile (base_digit base) s3))"

text \<open>One escape sequence after \<open>&\<close>: what follows it and the bytes to write; None leaves the loop.\<close>

definition numeric_entity :: "nat \<Rightarrow> string \<Rightarrow> (string \<times> string) option" where
  "numeric_entity room src =
     (let (int_base, src1) = (if length src > 1 \<and> src ! 1 = CHR ''x'' then (16, tl src) else (10, src));
          (val, ptr) = strtoul (tl src1) int_base in
      if ptr \<noteq> [] \<and> hd ptr = CHR '';'' then
        (let esc = utf8_encode room val in if esc \<noteq> [] then Some (tl ptr, esc) else None)
      else None)"

definition xml_entity :: "nat \<Rightarrow> string \<Rightarrow> (string \<times> string) option" where
  "xml_entity room src =
     (if take 3 src = ''lt;'' then Some (drop 3 src, ''<'')
      else if take 3 src = ''gt;'' then Some (drop 3 src, ''>'')
      else if take 5 src = ''apos;'' then Some (drop 5 src, [CHR 0x27])
      else if take 5 src = ''quot;'' then Some (drop 5 src, [CHR 0x22])
      else if take 4 src = ''amp;'' then Some (drop 4 src, ''&'')
      else if src \<noteq> [] \<and> hd src = CHR ''#'' then numeric_entity room src
      else None)"

lemma skip_length: "length (skip_0x base (skip_sign s)) \<le> length s"
  by (simp add: skip_0x_def skip_sign_def)

lemma strtoul_length: "length (snd (strtoul s base)) \<le> length s"
proof -
  have "length (dropWhile (base_digit base) (skip_0x base (skip_sign (dropWhile is_space s)))) \<le> length s"
    by (rule le_trans [OF length_dropWhile_le le_trans [OF skip_length length_dropWhile_le]])
  then show ?thesis by (simp add: strtoul_def Let_def)
qed

lemma xml_entity_shrinks: "xml_entity room src = Some (rest, esc) \<Longrightarrow> length rest \<le> length src"
proof -
  have "length (tl ptr) \<le> length src" if "strtoul (tl src1) base = (v, ptr)" "length src1 \<le> length src" for src1 base v ptr
    using strtoul_length [of "tl src1" base] that by simp
  then show "xml_entity room src = Some (rest, esc) \<Longrightarrow> length rest \<le> length src"
    by (auto simp: xml_entity_def numeric_entity_def Let_def split: if_splits prod.splits)
qed

function xml_decode_loop :: "nat \<Rightarrow> string \<Rightarrow> string \<Rightarrow> string" where
  "xml_decode_loop buflen [] out = out"
| "xml_decode_loop buflen (ch # src) out =
     (if \<not> length out + 1 < buflen then out
      else if ch \<noteq> CHR ''&'' then xml_decode_loop buflen src (out @ [ch])
      else case xml_entity (buflen - length out) src of
          None \<Rightarrow> out
        | Some (rest, esc) \<Rightarrow> xml_decode_loop buflen rest (out @ esc))"
  by pat_completeness auto
termination
  by (relation "measure (\<lambda>(buflen, src, out). length src)") (auto dest: xml_entity_shrinks)

definition xml_decode :: "nat \<Rightarrow> string \<Rightarrow> string" where
  "xml_decode buflen source = (if buflen \<le> 0 then [] else xml_decode_loop buflen source [])"

definition html_decode :: "nat \<Rightarrow> string \<Rightarrow> string" where
  "html_decode buflen source = xml_decode buflen source"

subsection \<open>Hexadecimal strings\<close>

text \<open>A NUL delimiter stands for none.\<close>

fun hex_encode_loop :: "char \<Rightarrow> string \<Rightarrow> string" where
  "hex_encode_loop delimiter [] = []"
| "hex_encode_loop delimiter (ch # src) =
     hex_pair ch @ (if delimiter \<noteq> NUL \<and> src \<noteq> [] then [delimiter] else []) @ hex_encode_loop delimiter src"

definition hex_encode_with_delimiter :: "nat \<Rightarrow> string \<Rightarrow> char \<Rightarrow> string" where
  "hex_encode_with_delimiter buflen source delimiter =
     (if buflen = 0 then []
      else let needed = (if delimiter \<noteq> NUL then length source * 3 else length source * 2 + 1) in
        if buflen < needed then [] else hex_encode_loop delimiter source)"

definition hex_encode_string :: "string \<Rightarrow> char \<Rightarrow> string" where
  "hex_encode_string source delimiter = hex_encode_with_delimiter (length source * 3) source delimiter"

text \<open>Invalid input returns 0, which is the empty result.\<close>

fun hex_decode_loop :: "char \<Rightarrow> string \<Rightarrow> string \<Rightarrow> string" where
  "hex_decode_loop delimiter [] out = out"
| "hex_decode_loop delimiter [c] out = []"
| "hex_decode_loop delimiter (c1 # c2 # src) out =
     (case hex_ahead (c1 # c2 # src) of
        None \<Rightarrow> []
      | Some b \<Rightarrow>
          (if delimiter \<noteq> NUL \<and> length src > 1 then
             (if hd src \<noteq> delimiter then [] else hex_decode_loop delimiter (tl src) (out @ [b]))
           else hex_decode_loop delimiter src (out @ [b])))"

definition hex_decode_with_delimiter :: "nat \<Rightarrow> string \<Rightarrow> char \<Rightarrow> string" where
  "hex_decode_with_delimiter buflen source delimiter =
     (if buflen = 0 then []
      else let needed = (if delimiter \<noteq> NUL then (length source + 1) div 3 else length source div 2) in
        if buflen < needed then [] else hex_decode_loop delimiter source [])"

subsection \<open>Fields\<close>

text \<open>The loops of \<open>tokenize\<close> and \<open>split\<close>: \<open>cur\<close> is the text between \<open>last\<close> and \<open>i\<close>.\<close>

fun tokenize_loop :: "char \<Rightarrow> string \<Rightarrow> string \<Rightarrow> string list \<Rightarrow> string list" where
  "tokenize_loop delimiter [] cur fields = (if cur \<noteq> [] then fields @ [cur] else fields)"
| "tokenize_loop delimiter (c # src) cur fields =
     (if c = delimiter then tokenize_loop delimiter src [] (if cur \<noteq> [] then fields @ [cur] else fields)
      else tokenize_loop delimiter src (cur @ [c]) fields)"

definition tokenize :: "string \<Rightarrow> char \<Rightarrow> string list" where
  "tokenize source delimiter = tokenize_loop delimiter source [] []"

definition tokenize_append :: "string \<Rightarrow> char \<Rightarrow> string list \<Rightarrow> string list" where
  "tokenize_append source delimiter fields = fields @ tokenize source delimiter"

text \<open>The loop with marks; the first position after the start mark is \<open>start_pos + 1\<close>.\<close>

function tokenize_marks_loop :: "char \<Rightarrow> char \<Rightarrow> char \<Rightarrow> string \<Rightarrow> string list \<Rightarrow> string list" where
  "tokenize_marks_loop delimiter start_mark end_mark remain fields =
     (case find_char start_mark remain of
        None \<Rightarrow> tokenize_append remain delimiter fields
      | Some start_pos \<Rightarrow>
          (let pre_mark = (if start_pos > 0 then substr 0 (start_pos - 1) remain else []) in
           case find_char end_mark (drop (start_pos + 1) remain) of
             None \<Rightarrow> tokenize_append remain delimiter fields
           | Some n \<Rightarrow>
               tokenize_marks_loop delimiter start_mark end_mark (drop (start_pos + 1 + n + 1) remain)
                 (tokenize_append pre_mark delimiter fields @ [substr (start_pos + 1) n remain])))"
  by pat_completeness auto
termination
  by (relation "measure (\<lambda>(d, s, e, remain, fields). length remain)") (auto dest: find_char_SomeD)

definition tokenize_marks :: "string \<Rightarrow> char \<Rightarrow> char \<Rightarrow> char \<Rightarrow> string list" where
  "tokenize_marks source delimiter start_mark end_mark =
     tokenize_marks_loop delimiter start_mark end_mark source []"

fun split_loop :: "char \<Rightarrow> string \<Rightarrow> string \<Rightarrow> string list \<Rightarrow> string list" where
  "split_loop delimiter [] cur fields = fields @ [cur]"
| "split_loop delimiter (c # src) cur fields =
     (if c = delimiter then split_loop delimiter src [] (fields @ [cur])
      else split_loop delimiter src (cur @ [c]) fields)"

definition split_fields :: "string \<Rightarrow> char \<Rightarrow> string list" where
  "split_fields source delimiter = split_loop delimiter source [] []"

definition make_char_safe_for_filename :: "char \<Rightarrow> char" where
  "make_char_safe_for_filename c =
     (if byte_of c < 32 \<or> 128 \<le> byte_of c then CHR ''_''
      else if c \<in> {CHR ''<'', CHR ''>'', CHR '':'', CHR 0x22, CHR ''/'', CHR 0x5C, CHR ''|'', CHR ''*'', CHR ''?''} then CHR ''_''
      else c)"

subsection \<open>String helpers\<close>

definition memory_check :: "char list \<Rightarrow> int \<Rightarrow> nat \<Rightarrow> bool" where
  "memory_check memory c count = list_all (\<lambda>x. x = char_of (nat (c mod 256))) (take count memory)"

definition toupper :: "char \<Rightarrow> char" where
  "toupper c = (if byte_of CHR ''a'' \<le> byte_of c \<and> byte_of c \<le> byte_of CHR ''z'' then char_of (byte_of c - 32) else c)"

text \<open>
  \<open>string_match target pattern\<close>: the loop over the pattern and, after an asterisk, the inner loop
  over the target (\<open>star_match\<close>), which looks for the character after the asterisk.
\<close>

function string_match :: "string \<Rightarrow> string \<Rightarrow> bool"
  and star_match :: "string \<Rightarrow> char \<Rightarrow> string \<Rightarrow> bool" where
  "string_match target [] = (target = [])"
| "string_match target (p # pattern) =
     (if p = CHR ''*'' then
        (case pattern of [] \<Rightarrow> True | q # rest \<Rightarrow> star_match target q rest)
      else case target of
          [] \<Rightarrow> False
        | c # cs \<Rightarrow> (if toupper p \<noteq> toupper c then False else string_match cs pattern))"
| "star_match [] q pattern = False"
| "star_match (c # cs) q pattern =
     (if toupper q = toupper c \<and> string_match cs pattern then True else star_match cs q pattern)"
  by pat_completeness auto
termination
  by (relation "measure (\<lambda>x. case x of Inl (t, p) \<Rightarrow> length t + 2 * length p | Inr (t, q, p) \<Rightarrow> length t + 2 * length p + 1)")
     auto

text \<open>\<open>replace_substrs\<close>: the text before \<open>pos\<close> is done; a match there is replaced and skipped.\<close>

function replace_loop :: "string \<Rightarrow> string \<Rightarrow> string \<Rightarrow> string \<Rightarrow> string" where
  "replace_loop search replacement [] before = before"
| "replace_loop search replacement (c # rest) before =
     (if search \<noteq> [] \<and> take (length search) (c # rest) = search
      then replace_loop search replacement (drop (length search) (c # rest)) (before @ replacement)
      else replace_loop search replacement rest (before @ [c]))"
  by pat_completeness auto
termination
  by (relation "measure (\<lambda>(search, replacement, rest, d). length rest)") auto

text \<open>An empty search text is found everywhere and the loop never ends.\<close>

definition replace_substrs :: "string \<Rightarrow> string \<Rightarrow> string \<Rightarrow> string option" where
  "replace_substrs search replacement s =
     (if search = [] then None else Some (replace_loop search replacement s []))"

definition starts_with :: "string \<Rightarrow> string \<Rightarrow> bool" where
  "starts_with s1 s2 \<longleftrightarrow> take (length s2) s1 = s2"

definition ends_with :: "string \<Rightarrow> string \<Rightarrow> bool" where
  "ends_with s1 s2 =
     (if length s2 > length s1 then False else take (length s2) (drop (length s1 - length s2) s1) = s2)"

definition kWhitespace :: string where
  "kWhitespace = [CHR '' '', CHR 0x0A, CHR 0x0D, CHR 0x09]"

definition string_trim :: "string \<Rightarrow> string" where
  "string_trim s =
     (let drop_ws = dropWhile (\<lambda>c. c \<in> set kWhitespace); first = length s - length (drop_ws s);
          last_plus_1 = length (drop_ws (rev s)) in
      if drop_ws s = [] then [] else substr first (last_plus_1 - first) s)"

definition strchrn :: "string \<Rightarrow> nat \<Rightarrow> char \<Rightarrow> nat option" where
  "strchrn str slen ch = find_char ch (take slen (takeWhile (\<lambda>c. c \<noteq> NUL) str))"

definition strlenn :: "string \<Rightarrow> nat \<Rightarrow> nat" where
  "strlenn buffer buflen = length (take buflen (takeWhile (\<lambda>c. c \<noteq> NUL) buffer))"

text \<open>\<open>srclen\<close> is None for \<open>SIZE_UNKNOWN\<close>.\<close>

definition strcpyn :: "nat \<Rightarrow> string \<Rightarrow> nat option \<Rightarrow> string" where
  "strcpyn buflen source srclen =
     (if buflen \<le> 0 then []
      else let n = (case srclen of
                      None \<Rightarrow> strlenn source (buflen - 1)
                    | Some n \<Rightarrow> if n \<ge> buflen then buflen - 1 else n) in
        take n source)"

definition strcatn :: "string \<Rightarrow> nat \<Rightarrow> string \<Rightarrow> nat option \<Rightarrow> string" where
  "strcatn buffer buflen source srclen =
     (if buflen \<le> 0 then []
      else let bufpos = strlenn buffer (buflen - 1) in
        take bufpos buffer @ strcpyn (buflen - bufpos) source srclen)"

end
