(* ===== verification/StringLaws.thy ===== *)
theory StringLaws
  imports StringCodes
begin

text \<open>
  What the codecs of theory \<open>StringCodes\<close> guarantee: the decoders undo the encoders, the loops stay
  within their buffers (with one exception), fields are split at the delimiters, and the wildcard
  matcher agrees with the usual meaning of a pattern.
\<close>

subsection \<open>Hexadecimal digits\<close>

lemma nibble_cases: "n < 16 \<Longrightarrow> n \<in> set [0, 1, 2, 3, 4, 5, 6, 7, 8, 9, 10, 11, 12, 13, 14, 15]" for n :: nat
  by (simp add: numeral_eq_Suc less_Suc_eq)

lemma hex_digit_table:
  "list_all (\<lambda>n. hex_decode (hex_encode n) = Some n) [0, 1, 2, 3, 4, 5, 6, 7, 8, 9, 10, 11, 12, 13, 14, 15]"
  by code_simp

lemma hex_decode_encode: "n < 16 \<Longrightarrow> hex_decode (hex_encode n) = Some n"
  using hex_digit_table nibble_cases [of n] unfolding list_all_iff by blast

lemma split_bits: "push_bit n (drop_bit n a) OR take_bit n a = a" for a :: nat
  by (rule bit_eqI) (auto simp: bit_simps)

lemma mask_low: "a AND 15 = take_bit 4 a" "a AND 63 = take_bit 6 a" for a :: nat
  by (simp_all add: take_bit_eq_mask mask_eq_exp_minus_1)

lemma hex_ahead_pair [simp]: "hex_ahead (hex_pair ch @ rest) = Some ch"
proof -
  let ?b = "byte_of ch"
  have hi: "drop_bit 4 ?b < 16" by (simp add: drop_bit_eq_div less_mult_imp_div_less)
  then have "drop_bit 4 ?b AND 15 = drop_bit 4 ?b" and lo: "?b AND 15 < 16"
    by (simp_all add: mask_low take_bit_eq_mod)
  with hi show ?thesis
    by (simp add: hex_pair_def hex_decode_encode hex_byte_def split_bits flip: mask_low(1)) (simp add: mask_low split_bits)
qed

lemma hex_pair_length [simp]: "length (hex_pair ch) = 2"
  by (simp add: hex_pair_def)

subsection \<open>URLs\<close>

definition url_enc1 :: "char \<Rightarrow> string" where
  "url_enc1 ch = (if unsafe URL_UNSAFE ch then CHR ''%'' # hex_pair ch else [ch])"

lemma url_encode_loop_all:
  "length out + 3 * length src < buflen \<Longrightarrow> url_encode_loop buflen src out = out @ concat (map url_enc1 src)"
  by (induction buflen src out rule: url_encode_loop.induct) (auto simp: url_enc1_def)

lemma url_unsafe: "unsafe URL_UNSAFE CHR ''%''" "unsafe URL_UNSAFE CHR ''+''"
  by code_simp+

lemma url_decode_loop_all:
  "length out + length s < buflen \<Longrightarrow> url_decode_loop buflen (concat (map url_enc1 s)) out = out @ s"
proof (induction s arbitrary: out)
  case (Cons ch s)
  show ?case
  proof (cases "unsafe URL_UNSAFE ch")
    case True
    with Cons show ?thesis by (simp add: url_enc1_def)
  next
    case False
    then have "ch \<noteq> CHR ''%''" "ch \<noteq> CHR ''+''" using url_unsafe by auto
    with Cons False show ?thesis by (simp add: url_enc1_def)
  qed
qed simp

lemma url_enc1_length: "length s \<le> length (concat (map url_enc1 s))"
  by (induction s) (auto simp: url_enc1_def)

lemma url_roundtrip: "s_url_decode (s_url_encode s) = s"
proof -
  have "s_url_encode s = concat (map url_enc1 s)"
    by (simp add: s_url_encode_def s_transform_def url_encode_size_def url_encode_def url_encode_loop_all)
  then show ?thesis
    using url_enc1_length [of s] url_decode_loop_all [of "[]" s]
    by (simp add: s_url_decode_def s_transform_def url_decode_size_def url_decode_def le_imp_less_Suc)
qed

subsection \<open>Hexadecimal strings\<close>

lemma hex_decode_loop_all: "hex_decode_loop d (hex_encode_loop d s) out = out @ s"
proof (induction s arbitrary: out)
  case (Cons ch s)
  obtain a b where p: "hex_pair ch = [a, b]" by (simp add: hex_pair_def)
  then have ahead: "hex_ahead (a # b # rest) = Some ch" for rest
    using hex_ahead_pair [of ch rest] by simp
  show ?case
  proof (cases s)
    case Nil
    with p ahead show ?thesis by simp
  next
    case (Cons c cs)
    then have "length (hex_encode_loop d s) > 1" by simp
    with p ahead Cons Cons.IH show ?thesis by (auto simp: Let_def)
  qed
qed simp

lemma hex_encode_loop_length:
  "length (hex_encode_loop d s) = (if d = NUL then 2 * length s else 3 * length s - 1)"
  by (induction s) auto

lemma hex_roundtrip:
  assumes "length s \<le> n"
  shows "hex_decode_with_delimiter n (hex_encode_string s d) d = s"
proof (cases "s = []")
  case True
  then show ?thesis by (simp add: hex_decode_with_delimiter_def hex_encode_string_def hex_encode_with_delimiter_def)
next
  case False
  then have "hex_encode_string s d = hex_encode_loop d s"
    by (cases s) (auto simp: hex_encode_string_def hex_encode_with_delimiter_def)
  moreover have "n > 0" using False assms by (cases s) simp_all
  ultimately show ?thesis
    using assms by (auto simp: hex_decode_with_delimiter_def hex_encode_loop_length hex_decode_loop_all)
qed

subsection \<open>XML\<close>

definition xml_enc1 :: "char \<Rightarrow> string" where
  "xml_enc1 ch = (if unsafe XML_UNSAFE ch then xml_escseq ch else [ch])"

lemma xml_escseq_length: "length (xml_escseq ch) \<le> 6"
  by (simp add: xml_escseq_def)

lemma xml_encode_loop_all:
  "length out + 6 * length src < buflen \<Longrightarrow> xml_encode_loop buflen src out = out @ concat (map xml_enc1 src)"
proof (induction buflen src out rule: xml_encode_loop.induct)
  case (2 buflen ch src out)
  with xml_escseq_length [of ch] show ?case by (auto simp: xml_enc1_def)
qed simp

lemma xml_unsafe_table:
  "filter (\<lambda>(n, c). c AND XML_UNSAFE \<noteq> 0) (enumerate 0 ASCII_CLASS) = [(34, 3), (38, 3), (39, 2), (60, 3), (62, 3)]"
  by (simp add: ASCII_CLASS_def XML_UNSAFE_def)

lemma xml_unsafe_iff: "unsafe XML_UNSAFE ch \<longleftrightarrow> ch \<in> {CHR ''<'', CHR ''>'', CHR 0x27, CHR 0x22, CHR ''&''}"
proof -
  have "length ASCII_CLASS = 128" by (simp add: ASCII_CLASS_def)
  then have "unsafe XML_UNSAFE ch \<longleftrightarrow>
      (byte_of ch, ASCII_CLASS ! byte_of ch) \<in> set (filter (\<lambda>(n, c). c AND XML_UNSAFE \<noteq> 0) (enumerate 0 ASCII_CLASS))"
    by (auto simp: unsafe_def in_set_enumerate_eq)
  also have "\<dots> \<longleftrightarrow> byte_of ch \<in> {34, 38, 39, 60, 62}"
    unfolding xml_unsafe_table by (auto simp: ASCII_CLASS_def)
  also have "\<dots> \<longleftrightarrow> ch \<in> {CHR ''<'', CHR ''>'', CHR 0x27, CHR 0x22, CHR ''&''}"
    using byte_of_inject [of ch "CHR ''<''"] byte_of_inject [of ch "CHR ''>''"] byte_of_inject [of ch "CHR 0x27"]
      byte_of_inject [of ch "CHR 0x22"] byte_of_inject [of ch "CHR ''&''"] by auto
  finally show ?thesis .
qed

lemma xml_decode_step:
  assumes "length out + 1 < buflen"
  shows "xml_decode_loop buflen (xml_enc1 ch @ rest) out = xml_decode_loop buflen rest (out @ [ch])"
proof (cases "unsafe XML_UNSAFE ch")
  case True
  then show ?thesis
    using assms xml_unsafe_iff [of ch] by (auto simp: xml_enc1_def xml_escseq_def xml_entity_def)
next
  case False
  then show ?thesis using assms xml_unsafe_iff [of ch] by (auto simp: xml_enc1_def)
qed

lemma xml_decode_loop_all:
  "length out + length s < buflen \<Longrightarrow> xml_decode_loop buflen (concat (map xml_enc1 s)) out = out @ s"
  by (induction s arbitrary: out) (simp_all add: xml_decode_step)

lemma xml_roundtrip:
  "6 * length s < m \<Longrightarrow> length s < n \<Longrightarrow> xml_decode n (xml_encode m s) = s"
  by (simp add: xml_decode_def xml_encode_def xml_encode_loop_all xml_decode_loop_all)

subsection \<open>Bounds\<close>

lemma escape_loop_fits: "length out < buflen \<Longrightarrow> length (escape_loop buflen illegal esc src out) < buflen"
  by (induction buflen illegal esc src out rule: escape_loop.induct) auto

lemma unescape_loop_fits: "length out < buflen \<Longrightarrow> length (unescape_loop buflen esc src out) < buflen"
  by (induction buflen esc src out rule: unescape_loop.induct) auto

lemma str_encode_loop_fits: "length out < buflen \<Longrightarrow> length (str_encode_loop buflen illegal esc src out) < buflen"
  by (induction buflen illegal esc src out rule: str_encode_loop.induct) auto

lemma str_decode_loop_fits: "length out < buflen \<Longrightarrow> length (str_decode_loop buflen esc src out) < buflen"
  by (induction buflen esc src out rule: str_decode_loop.induct) (auto split: option.splits)

lemma url_encode_loop_fits: "length out < buflen \<Longrightarrow> length (url_encode_loop buflen src out) < buflen"
  by (induction buflen src out rule: url_encode_loop.induct) auto

lemma url_decode_loop_fits: "length out < buflen \<Longrightarrow> length (url_decode_loop buflen src out) < buflen"
  by (induction buflen src out rule: url_decode_loop.induct) (auto split: option.splits)

lemma xml_encode_loop_fits: "length out < buflen \<Longrightarrow> length (xml_encode_loop buflen src out) < buflen"
  by (induction buflen src out rule: xml_encode_loop.induct) auto

lemma html_encode_loop_fits: "length out < buflen \<Longrightarrow> length (html_encode_loop buflen src out) < buflen"
proof (induction buflen src out rule: html_encode_loop.induct)
  case (1 buflen src out)
  show ?case
    by (subst html_encode_loop.simps) (auto simp: Let_def split: prod.split intro!: 1)
qed

lemma utf8_encode_length: "length (utf8_encode n v) \<le> n"
  by (simp add: utf8_encode_def)

lemma xml_entity_length: "xml_entity room src = Some (rest, esc) \<Longrightarrow> length esc \<le> max 1 room"
proof -
  have "numeric_entity room src = Some (rest, esc) \<Longrightarrow> length esc \<le> room"
    by (auto simp: numeric_entity_def Let_def utf8_encode_length split: if_splits prod.splits)
  then show "xml_entity room src = Some (rest, esc) \<Longrightarrow> length esc \<le> max 1 room"
    by (auto simp: xml_entity_def le_max_iff_disj split: if_splits)
qed

lemma xml_decode_loop_fits: "length out \<le> buflen \<Longrightarrow> length (xml_decode_loop buflen src out) \<le> buflen"
proof (induction buflen src out rule: xml_decode_loop.induct)
  case (2 buflen ch src out)
  show ?case
  proof (cases "xml_entity (buflen - length out) src")
    case None
    with 2 show ?thesis by simp
  next
    case (Some r)
    obtain rest esc where r: "r = (rest, esc)" by (cases r)
    with Some have "length esc \<le> max 1 (buflen - length out)" using xml_entity_length by simp
    moreover have "length out + 1 < buflen \<Longrightarrow> length (out @ esc) \<le> buflen"
      using \<open>length esc \<le> max 1 (buflen - length out)\<close> by (simp add: max_def split: if_splits)
    ultimately show ?thesis using 2 Some r by simp
  qed
qed simp

subsection \<open>UTF-8\<close>

lemma nat_and_or: "(a OR b) AND c = (a AND c) OR (b AND c)" for a b c :: nat
  by (rule bit_eqI) (auto simp: bit_simps)

lemma trail_byte:
  "(0x80 OR (y AND 0x3F)) AND 0xC0 = 0x80" "(0x80 OR (y AND 0x3F)) AND 0x3F = y AND 0x3F" for y :: nat
  by (simp_all add: nat_and_or and.assoc)

lemma lead_bytes:
  "(0xC0 OR (y AND 0x1F)) AND 0x80 = 0x80" "(0xC0 OR (y AND 0x1F)) AND 0xE0 = 0xC0" "(0xC0 OR (y AND 0x1F)) AND 0x1F = y AND 0x1F"
  "(0xE0 OR (y AND 0x0F)) AND 0x80 = 0x80" "(0xE0 OR (y AND 0x0F)) AND 0xE0 = 0xE0" "(0xE0 OR (y AND 0x0F)) AND 0xF0 = 0xE0"
  "(0xE0 OR (y AND 0x0F)) AND 0x0F = y AND 0x0F"
  "(0xF0 OR (y AND 0x07)) AND 0x80 = 0x80" "(0xF0 OR (y AND 0x07)) AND 0xE0 = 0xE0" "(0xF0 OR (y AND 0x07)) AND 0xF0 = 0xF0"
  "(0xF0 OR (y AND 0x07)) AND 0xF8 = 0xF0" "(0xF0 OR (y AND 0x07)) AND 0x07 = y AND 0x07" for y :: nat
  by (simp_all add: nat_and_or and.assoc)

lemma or_byte_less: "a < 256 \<Longrightarrow> b < 256 \<Longrightarrow> a OR b < 256" for a b :: nat
proof -
  assume "a < 256" "b < 256"
  then have "take_bit 8 (a OR b) = a OR b"
    using take_bit_nat_eq_self [of a 8] take_bit_nat_eq_self [of b 8] by simp
  then show ?thesis
    using take_bit_nat_less_exp [of 8 "a OR b"] by simp
qed

lemma masks:
  "y AND 0x3F = take_bit 6 y" "y AND 0x1F = take_bit 5 y" "y AND 0x0F = take_bit 4 y" "y AND 0x07 = take_bit 3 y" for y :: nat
  by (simp_all add: take_bit_eq_mask mask_eq_exp_minus_1)

lemma utf8_bytes [simp]:
  "byte_of (char_of (0x80 OR (y AND 0x3F))) = 0x80 OR (y AND 0x3F)"
  "byte_of (char_of (0xC0 OR (y AND 0x1F))) = 0xC0 OR (y AND 0x1F)"
  "byte_of (char_of (0xE0 OR (y AND 0x0F))) = 0xE0 OR (y AND 0x0F)"
  "byte_of (char_of (0xF0 OR (y AND 0x07))) = 0xF0 OR (y AND 0x07)" for y :: nat
proof -
  have "y AND 0x3F < 256" "y AND 0x1F < 256" "y AND 0x0F < 256" "y AND 0x07 < 256"
    unfolding masks by (simp_all add: take_bit_eq_mod less_trans [OF mod_less_divisor])
  then have "0x80 OR (y AND 0x3F) < 256" "0xC0 OR (y AND 0x1F) < 256" "0xE0 OR (y AND 0x0F) < 256" "0xF0 OR (y AND 0x07) < 256"
    by (simp_all add: or_byte_less)
  then show
    "byte_of (char_of (0x80 OR (y AND 0x3F))) = 0x80 OR (y AND 0x3F)"
    "byte_of (char_of (0xC0 OR (y AND 0x1F))) = 0xC0 OR (y AND 0x1F)"
    "byte_of (char_of (0xE0 OR (y AND 0x0F))) = 0xE0 OR (y AND 0x0F)"
    "byte_of (char_of (0xF0 OR (y AND 0x07))) = 0xF0 OR (y AND 0x07)"
    by simp_all
qed

lemma trail_mod: "(0x80 OR (y AND 0x3F)) mod 256 = 0x80 OR (y AND 0x3F)" for y :: nat
  using utf8_bytes(1) [of y] by simp

lemma lead2:
  fixes v :: nat
  assumes "v \<le> 0x7FF"
  defines "b \<equiv> 0xC0 OR drop_bit 6 v"
  shows "byte_of (char_of b) = b" "b AND 0x80 = 0x80" "b AND 0xE0 = 0xC0" "b AND 0x1F = drop_bit 6 v"
proof -
  have y: "drop_bit 6 v AND 0x1F = drop_bit 6 v"
    using assms(1) unfolding masks by (simp add: take_bit_eq_mod drop_bit_eq_div)
  show "byte_of (char_of b) = b" "b AND 0x80 = 0x80" "b AND 0xE0 = 0xC0" "b AND 0x1F = drop_bit 6 v"
    using utf8_bytes(2) [of "drop_bit 6 v"] lead_bytes(1-3) [of "drop_bit 6 v"] unfolding y b_def .
qed

lemma lead3:
  fixes v :: nat
  assumes "v \<le> 0xFFFF"
  defines "b \<equiv> 0xE0 OR drop_bit 12 v"
  shows "byte_of (char_of b) = b" "b AND 0x80 = 0x80" "b AND 0xE0 = 0xE0" "b AND 0xF0 = 0xE0" "b AND 0x0F = drop_bit 12 v"
proof -
  have y: "drop_bit 12 v AND 0x0F = drop_bit 12 v"
    using assms(1) unfolding masks by (simp add: take_bit_eq_mod drop_bit_eq_div)
  show "byte_of (char_of b) = b" "b AND 0x80 = 0x80" "b AND 0xE0 = 0xE0" "b AND 0xF0 = 0xE0" "b AND 0x0F = drop_bit 12 v"
    using utf8_bytes(3) [of "drop_bit 12 v"] lead_bytes(4-7) [of "drop_bit 12 v"] unfolding y b_def .
qed

lemma lead4:
  fixes v :: nat
  assumes "v \<le> 0x1FFFFF"
  defines "b \<equiv> 0xF0 OR drop_bit 18 v"
  shows "byte_of (char_of b) = b" "b AND 0x80 = 0x80" "b AND 0xE0 = 0xE0" "b AND 0xF0 = 0xF0" "b AND 0xF8 = 0xF0"
    "b AND 0x07 = drop_bit 18 v"
proof -
  have y: "drop_bit 18 v AND 0x07 = drop_bit 18 v"
    using assms(1) unfolding masks by (simp add: take_bit_eq_mod drop_bit_eq_div)
  show "byte_of (char_of b) = b" "b AND 0x80 = 0x80" "b AND 0xE0 = 0xE0" "b AND 0xF0 = 0xF0" "b AND 0xF8 = 0xF0"
    "b AND 0x07 = drop_bit 18 v"
    using utf8_bytes(4) [of "drop_bit 18 v"] lead_bytes(8-12) [of "drop_bit 18 v"] unfolding y b_def .
qed

lemma join_bits:
  "push_bit 6 (drop_bit 6 v) OR (v AND 0x3F) = v"
  "push_bit 12 (drop_bit 12 v) OR (push_bit 6 (drop_bit 6 v AND 0x3F) OR (v AND 0x3F)) = v"
  "push_bit 18 (drop_bit 18 v) OR (push_bit 6 (push_bit 6 (drop_bit 12 v AND 0x3F) OR (drop_bit 6 v AND 0x3F)) OR (v AND 0x3F)) = v"
  for v :: nat
proof -
  have s: "push_bit 6 (drop_bit 6 w) OR take_bit 6 w = w" for w :: nat by (rule split_bits)
  show "push_bit 6 (drop_bit 6 v) OR (v AND 0x3F) = v" unfolding masks by (rule s)
  have "push_bit 12 (drop_bit 12 v) OR (push_bit 6 (take_bit 6 (drop_bit 6 v)) OR take_bit 6 v) =
      push_bit 6 (push_bit 6 (drop_bit 6 (drop_bit 6 v)) OR take_bit 6 (drop_bit 6 v)) OR take_bit 6 v"
    by (simp add: push_bit_or or.assoc)
  then show "push_bit 12 (drop_bit 12 v) OR (push_bit 6 (drop_bit 6 v AND 0x3F) OR (v AND 0x3F)) = v"
    unfolding masks by (simp only: s)
  have "push_bit 18 (drop_bit 18 v) OR (push_bit 6 (push_bit 6 (take_bit 6 (drop_bit 12 v)) OR take_bit 6 (drop_bit 6 v)) OR take_bit 6 v) =
      push_bit 6 (push_bit 6 (push_bit 6 (drop_bit 6 (drop_bit 6 (drop_bit 6 v))) OR take_bit 6 (drop_bit 6 (drop_bit 6 v))) OR
        take_bit 6 (drop_bit 6 v)) OR take_bit 6 v"
    by (simp add: push_bit_or or.assoc)
  then show "push_bit 18 (drop_bit 18 v) OR (push_bit 6 (push_bit 6 (drop_bit 12 v AND 0x3F) OR (drop_bit 6 v AND 0x3F)) OR (v AND 0x3F)) = v"
    unfolding masks by (simp only: s)
qed

lemma nat_and_7F_80: "0x7F AND 0x80 = (0 :: nat)"
  by simp

lemma utf8_decode_encode:
  assumes "v \<le> 0x1FFFFF" "4 \<le> n"
  shows "utf8_decode (utf8_encode n v @ rest) = (length (utf8_encode n v), v)"
proof -
  consider "v \<le> 0x7F" | "\<not> v \<le> 0x7F" "v \<le> 0x7FF" | "\<not> v \<le> 0x7FF" "v \<le> 0xFFFF" | "\<not> v \<le> 0xFFFF"
    by linarith
  then show ?thesis
  proof cases
    case 1
    then have "v = v AND 0x7F"
      using take_bit_nat_eq_self [of v 7] by (simp add: take_bit_eq_mask mask_eq_exp_minus_1)
    then have "v AND 0x80 = 0"
      by (metis (no_types) and.assoc and_zero_eq nat_and_7F_80)
    with 1 assms show ?thesis by (simp add: utf8_encode_def utf8_decode_def)
  next
    case 2
    then show ?thesis using assms lead2 [of v] join_bits(1) [of v]
      by (simp add: utf8_encode_def utf8_decode_def Let_def trail_byte trail_mod)
  next
    case 3
    then show ?thesis using assms lead3 [of v] join_bits(2) [of v]
      by (simp add: utf8_encode_def utf8_decode_def Let_def trail_byte trail_mod)
  next
    case 4
    then show ?thesis using assms lead4 [of v] join_bits(3) [of v]
      by (simp add: utf8_encode_def utf8_decode_def Let_def trail_byte trail_mod)
  qed
qed

subsection \<open>Fields\<close>

fun join_fields :: "char \<Rightarrow> string list \<Rightarrow> string" where
  "join_fields d [] = []"
| "join_fields d [f] = f"
| "join_fields d (f # g # fs) = f @ d # join_fields d (g # fs)"

lemma join_fields_append: "fs \<noteq> [] \<Longrightarrow> gs \<noteq> [] \<Longrightarrow> join_fields d (fs @ gs) = join_fields d fs @ d # join_fields d gs"
  by (induction d fs rule: join_fields.induct) (auto simp: neq_Nil_conv)

lemma split_loop_acc: "split_loop d s cur fields = fields @ split_loop d s cur []"
proof (induction s arbitrary: cur fields)
  case (Cons c s)
  show ?case
  proof (cases "c = d")
    case True
    then show ?thesis using Cons.IH [of "[]" "fields @ [cur]"] Cons.IH [of "[]" "[cur]"] by simp
  next
    case False
    then show ?thesis using Cons.IH [of "cur @ [c]" fields] by simp
  qed
qed simp

lemma split_loop_nonempty: "split_loop d s cur [] \<noteq> []"
proof (induction s arbitrary: cur)
  case (Cons c s)
  then show ?case by (simp add: split_loop_acc [of d s "[]" "[cur]"])
qed simp

lemma split_loop_spec:
  "d \<notin> set cur \<Longrightarrow> join_fields d (split_loop d s cur []) = cur @ s \<and> list_all (\<lambda>f. d \<notin> set f) (split_loop d s cur [])"
proof (induction s arbitrary: cur)
  case (Cons c s)
  show ?case
  proof (cases "c = d")
    case True
    obtain g gs where gs: "split_loop d s [] [] = g # gs" 
      using split_loop_nonempty [of d s "[]"] by (cases "split_loop d s [] []") auto
    have "join_fields d (g # gs) = s \<and> list_all (\<lambda>f. d \<notin> set f) (g # gs)"
      using Cons.IH [of "[]"] gs by simp
    with True Cons.prems show ?thesis by (simp add: split_loop_acc [of d s "[]" "[cur]"] gs)
  next
    case False
    with Cons show ?thesis by simp
  qed
qed simp

lemma tokenize_loop_split:
  "tokenize_loop d s cur fields = fields @ filter (\<lambda>f. f \<noteq> []) (split_loop d s cur [])"
proof (induction d s cur fields rule: tokenize_loop.induct)
  case (2 d c s cur fields)
  then show ?case by (simp add: split_loop_acc [of d s "[]" "[cur]"])
qed simp

subsection \<open>Wildcards\<close>

text \<open>The usual meaning of a pattern: an asterisk stands for any text, letters match in either case.\<close>

fun glob :: "string \<Rightarrow> string \<Rightarrow> bool" where
  "glob t [] = (t = [])"
| "glob [] (p # ps) = (p = CHR ''*'' \<and> glob [] ps)"
| "glob (c # cs) (p # ps) =
     (if p = CHR ''*'' then glob (c # cs) ps \<or> glob cs (p # ps) else toupper p = toupper c \<and> glob cs ps)"

fun no_double_star :: "string \<Rightarrow> bool" where
  "no_double_star (p # q # ps) = (\<not> (p = CHR ''*'' \<and> q = CHR ''*'') \<and> no_double_star (q # ps))"
| "no_double_star ps = True"

lemma no_double_star_tl: "no_double_star (p # ps) \<Longrightarrow> no_double_star ps"
  by (cases ps) auto

lemma glob_star: "glob t [CHR ''*'']"
  by (induction t) auto

lemma match_glob:
  "no_double_star p \<Longrightarrow> string_match t p = glob t p"
  "q \<noteq> CHR ''*'' \<Longrightarrow> no_double_star (q # ps) \<Longrightarrow> star_match t q ps = glob t (CHR ''*'' # q # ps)"
proof (induction t p and t q ps rule: string_match_star_match.induct)
  case (2 t p ps)
  show ?case
  proof (cases "p = CHR ''*''")
    case True
    show ?thesis
    proof (cases ps)
      case Nil
      with True glob_star show ?thesis by simp
    next
      case (Cons q rest)
      with 2 True have "star_match t q rest = glob t (CHR ''*'' # q # rest)" by simp
      with True Cons show ?thesis by simp
    qed
  next
    case False
    with 2 no_double_star_tl show ?thesis by (cases t) auto
  qed
next
  case (4 c cs q ps)
  then show ?case using no_double_star_tl [of q ps] by auto
qed auto

subsection \<open>Properties\<close>

text \<open>C16: the codecs are inverse to each other: a URL-encoded string decodes to itself, whatever its
  bytes; a hexadecimal string decodes to its source, with any delimiter or none; an XML-encoded
  string decodes to its source, when the buffers are large enough for the worst case.\<close>

theorem string_codec_roundtrips:
  assumes "6 * length s < m" and "length s < n"
  shows "s_url_decode (s_url_encode s) = s \<and>
    hex_decode_with_delimiter n (hex_encode_string s d) d = s \<and>
    xml_decode n (xml_encode m s) = s"
  using assms by (simp add: url_roundtrip hex_roundtrip xml_roundtrip)

theorem string_codec_roundtrips_witness:
  "xml_decode 4 (xml_encode 19 ''<&a'') = ''<&a'' \<and> s_url_decode (s_url_encode ''<&a'') = ''<&a''"
  using string_codec_roundtrips [of "''<&a''" 19 4] by simp

text \<open>C17: no codec writes past its buffer, and the terminating NUL has room too, except in
  \<open>xml_decode\<close>: a numeric entity may fill the buffer to its last byte, and the NUL then goes one past
  the end, as \<open>&#233;\<close> does in a buffer of two.\<close>

theorem codecs_stay_in_buffer:
  assumes "0 < buflen"
  shows "length (escape buflen s illegal e) < buflen \<and> length (unescape buflen s e) < buflen \<and>
    length (str_encode buflen s illegal e) < buflen \<and> length (str_decode buflen s e) < buflen \<and>
    length (url_encode buflen s) < buflen \<and> length (url_decode buflen s) < buflen \<and>
    length (html_encode buflen s) < buflen \<and> length (xml_encode buflen s) < buflen \<and>
    length (xml_decode buflen s) \<le> buflen \<and> length (xml_decode 2 ''&#233;'') = 2"
proof -
  have "xml_decode 2 ''&#233;'' = [CHR 0xC3, CHR 0xA9]"
    by (simp add: xml_decode_def xml_entity_def numeric_entity_def strtoul_def skip_sign_def skip_0x_def
        is_space_def base_digit_def hex_decode_def ULONG_MAX_def utf8_encode_def) code_simp
  with assms show ?thesis
    by (simp add: escape_def unescape_def str_encode_def str_decode_def url_encode_def url_decode_def html_encode_def
        xml_encode_def xml_decode_def escape_loop_fits unescape_loop_fits str_encode_loop_fits str_decode_loop_fits
        url_encode_loop_fits url_decode_loop_fits html_encode_loop_fits xml_encode_loop_fits xml_decode_loop_fits)
qed

theorem codecs_stay_in_buffer_witness: "length (url_encode 4 ''a b c'') < 4"
  using codecs_stay_in_buffer [of 4 "''a b c''" "[]" "CHR ''/''"] by simp

text \<open>UTF-8: every value of at most 21 bits is encoded in one to four bytes, and reading them
  back, whatever follows, gives the value and their number.\<close>

theorem utf8_roundtrip:
  assumes "v \<le> 0x1FFFFF" and "4 \<le> n"
  shows "utf8_decode (utf8_encode n v @ rest) = (length (utf8_encode n v), v) \<and>
    length (utf8_encode n v) = (if v \<le> 0x7F then 1 else if v \<le> 0x7FF then 2 else if v \<le> 0xFFFF then 3 else 4)"
  using utf8_decode_encode [OF assms] assms by (simp add: utf8_encode_def)

theorem utf8_roundtrip_witness: "utf8_decode (utf8_encode 4 0x20AC @ ''x'') = (3, 0x20AC)"
  using utf8_roundtrip [of "0x20AC" 4 "''x''"] by simp

text \<open>\<open>split\<close> cuts at every delimiter: no field contains one, and joining the fields gives the
  source back; \<open>tokenize\<close> gives the same fields without the empty ones.\<close>

theorem split_and_tokenize:
  "join_fields d (split_fields s d) = s \<and> list_all (\<lambda>f. d \<notin> set f) (split_fields s d) \<and>
   tokenize s d = filter (\<lambda>f. f \<noteq> []) (split_fields s d)"
  using split_loop_spec [of d "[]" s] by (simp add: split_fields_def tokenize_def tokenize_loop_split)

text \<open>C18: the matcher with its backtracking loops decides the usual meaning of wildcard patterns, for
  patterns without two asterisks in a row.\<close>

theorem string_match_is_glob:
  assumes "no_double_star pattern"
  shows "string_match target pattern = glob target pattern"
  using match_glob(1) [OF assms] .

theorem string_match_is_glob_witness: "string_match ''www.TEST.COM'' ''www.*.com''"
proof -
  have "glob ''www.TEST.COM'' ''www.*.com''" by code_simp
  then show ?thesis using string_match_is_glob [of "''www.*.com''" "''www.TEST.COM''"] by simp
qed

end
