(* ===== verification/ByteOrders.thy ===== *)
theory ByteOrders
  imports Prelude
begin

text \<open>
  Numbers in memory, \<open>talk/base/byteorder.h\<close>. Memory is a list of bytes; \<open>SetBE32\<close> and its kin
  give the bytes they store, \<open>GetBE32\<close> and its kin read them. The byte order of the host is the
  parameter \<open>big\<close> (\<open>IsHostBigEndian\<close>): \<open>mem32 big v\<close> is how a variable \<open>v\<close> lies in memory.
\<close>

unbundle bit_operations_syntax

subsection \<open>Storing\<close>

definition SetBE16 :: "16 word \<Rightarrow> byte list" where
  "SetBE16 v = [ucast (drop_bit 8 v), ucast v]"

definition SetBE32 :: "32 word \<Rightarrow> byte list" where
  "SetBE32 v = [ucast (drop_bit 24 v), ucast (drop_bit 16 v), ucast (drop_bit 8 v), ucast v]"

definition SetBE64 :: "64 word \<Rightarrow> byte list" where
  "SetBE64 v = [ucast (drop_bit 56 v), ucast (drop_bit 48 v), ucast (drop_bit 40 v), ucast (drop_bit 32 v),
     ucast (drop_bit 24 v), ucast (drop_bit 16 v), ucast (drop_bit 8 v), ucast v]"

definition SetLE16 :: "16 word \<Rightarrow> byte list" where
  "SetLE16 v = [ucast v, ucast (drop_bit 8 v)]"

definition SetLE32 :: "32 word \<Rightarrow> byte list" where
  "SetLE32 v = [ucast v, ucast (drop_bit 8 v), ucast (drop_bit 16 v), ucast (drop_bit 24 v)]"

definition SetLE64 :: "64 word \<Rightarrow> byte list" where
  "SetLE64 v = [ucast v, ucast (drop_bit 8 v), ucast (drop_bit 16 v), ucast (drop_bit 24 v),
     ucast (drop_bit 32 v), ucast (drop_bit 40 v), ucast (drop_bit 48 v), ucast (drop_bit 56 v)]"

subsection \<open>Reading\<close>

definition GetBE16 :: "byte list \<Rightarrow> 16 word" where
  "GetBE16 m = push_bit 8 (ucast (m ! 0)) OR ucast (m ! 1)"

definition GetBE32 :: "byte list \<Rightarrow> 32 word" where
  "GetBE32 m = push_bit 24 (ucast (m ! 0)) OR push_bit 16 (ucast (m ! 1)) OR push_bit 8 (ucast (m ! 2)) OR ucast (m ! 3)"

definition GetBE64 :: "byte list \<Rightarrow> 64 word" where
  "GetBE64 m = push_bit 56 (ucast (m ! 0)) OR push_bit 48 (ucast (m ! 1)) OR push_bit 40 (ucast (m ! 2)) OR
     push_bit 32 (ucast (m ! 3)) OR push_bit 24 (ucast (m ! 4)) OR push_bit 16 (ucast (m ! 5)) OR
     push_bit 8 (ucast (m ! 6)) OR ucast (m ! 7)"

definition GetLE16 :: "byte list \<Rightarrow> 16 word" where
  "GetLE16 m = ucast (m ! 0) OR push_bit 8 (ucast (m ! 1))"

definition GetLE32 :: "byte list \<Rightarrow> 32 word" where
  "GetLE32 m = ucast (m ! 0) OR push_bit 8 (ucast (m ! 1)) OR push_bit 16 (ucast (m ! 2)) OR push_bit 24 (ucast (m ! 3))"

definition GetLE64 :: "byte list \<Rightarrow> 64 word" where
  "GetLE64 m = ucast (m ! 0) OR push_bit 8 (ucast (m ! 1)) OR push_bit 16 (ucast (m ! 2)) OR
     push_bit 24 (ucast (m ! 3)) OR push_bit 32 (ucast (m ! 4)) OR push_bit 40 (ucast (m ! 5)) OR
     push_bit 48 (ucast (m ! 6)) OR push_bit 56 (ucast (m ! 7))"

subsection \<open>The host\<close>

definition mem16 :: "bool \<Rightarrow> 16 word \<Rightarrow> byte list" where
  "mem16 big v = (if big then SetBE16 v else SetLE16 v)"

definition mem32 :: "bool \<Rightarrow> 32 word \<Rightarrow> byte list" where
  "mem32 big v = (if big then SetBE32 v else SetLE32 v)"

definition mem64 :: "bool \<Rightarrow> 64 word \<Rightarrow> byte list" where
  "mem64 big v = (if big then SetBE64 v else SetLE64 v)"

definition load16 :: "bool \<Rightarrow> byte list \<Rightarrow> 16 word" where
  "load16 big m = (if big then GetBE16 m else GetLE16 m)"

definition load32 :: "bool \<Rightarrow> byte list \<Rightarrow> 32 word" where
  "load32 big m = (if big then GetBE32 m else GetLE32 m)"

definition load64 :: "bool \<Rightarrow> byte list \<Rightarrow> 64 word" where
  "load64 big m = (if big then GetBE64 m else GetLE64 m)"

text \<open>The first byte of the number one in the host's memory decides.\<close>

definition IsHostBigEndian :: "bool \<Rightarrow> bool" where
  "IsHostBigEndian big \<longleftrightarrow> mem32 big 1 ! 0 = 0"

definition HostToNetwork16 :: "bool \<Rightarrow> 16 word \<Rightarrow> 16 word" where
  "HostToNetwork16 big n = load16 big (SetBE16 n)"

definition HostToNetwork32 :: "bool \<Rightarrow> 32 word \<Rightarrow> 32 word" where
  "HostToNetwork32 big n = load32 big (SetBE32 n)"

definition HostToNetwork64 :: "bool \<Rightarrow> 64 word \<Rightarrow> 64 word" where
  "HostToNetwork64 big n = load64 big (SetBE64 n)"

definition NetworkToHost16 :: "bool \<Rightarrow> 16 word \<Rightarrow> 16 word" where
  "NetworkToHost16 big n = GetBE16 (mem16 big n)"

definition NetworkToHost32 :: "bool \<Rightarrow> 32 word \<Rightarrow> 32 word" where
  "NetworkToHost32 big n = GetBE32 (mem32 big n)"

definition NetworkToHost64 :: "bool \<Rightarrow> 64 word \<Rightarrow> 64 word" where
  "NetworkToHost64 big n = GetBE64 (mem64 big n)"

subsection \<open>Round trips\<close>

lemma IsHostBigEndian_iff [simp]: "IsHostBigEndian big = big"
  by (cases big) (simp_all add: IsHostBigEndian_def mem32_def SetBE32_def SetLE32_def)

text \<open>Byte \<open>k\<close> of a number, back in its place.\<close>

lemma bit_byte_in_place:
  "bit (push_bit k (ucast (ucast (drop_bit k v) :: byte)) :: 'a::len word) n \<longleftrightarrow> bit v n \<and> k \<le> n \<and> n < k + 8"
  for v :: "'a::len word"
  by (auto simp: bit_simps dest: bit_imp_le_length)

lemma bit_low_byte: "bit (ucast (ucast v :: byte) :: 'a::len word) n \<longleftrightarrow> bit v n \<and> n < 8" for v :: "'a::len word"
  by (auto simp: bit_simps dest: bit_imp_le_length)

lemma get_set [simp]:
  "GetBE16 (SetBE16 a) = a" "GetLE16 (SetLE16 a) = a" "GetBE32 (SetBE32 b) = b" "GetLE32 (SetLE32 b) = b"
  "GetBE64 (SetBE64 c) = c" "GetLE64 (SetLE64 c) = c"
  by (rule bit_word_eqI;
      auto simp: GetBE16_def SetBE16_def GetLE16_def SetLE16_def GetBE32_def SetBE32_def GetLE32_def SetLE32_def
        GetBE64_def SetBE64_def GetLE64_def SetLE64_def bit_or_iff bit_byte_in_place bit_low_byte)+

lemma load_mem [simp]: "load16 big (mem16 big a) = a" "load32 big (mem32 big b) = b" "load64 big (mem64 big c) = c"
  by (simp_all add: load16_def mem16_def load32_def mem32_def load64_def mem64_def)

lemma length_set [simp]:
  "length (SetBE16 a) = 2" "length (SetLE16 a) = 2" "length (SetBE32 b) = 4" "length (SetLE32 b) = 4"
  "length (SetBE64 c) = 8" "length (SetLE64 c) = 8"
  "length (mem16 big a) = 2" "length (mem32 big b) = 4" "length (mem64 big c) = 8"
  by (simp_all add: SetBE16_def SetLE16_def SetBE32_def SetLE32_def SetBE64_def SetLE64_def mem16_def mem32_def mem64_def)

lemma byte_cast_bit: "bit (ucast (x :: byte) :: 'a::len word) n \<longleftrightarrow> bit x n \<and> n < LENGTH('a)"
  by (auto simp: bit_simps)

lemma length_2_cases: "length m = 2 \<Longrightarrow> \<exists>a b. m = [a, b]"
  by (auto simp: numeral_2_eq_2 length_Suc_conv)

lemma length_4_cases: "length m = 4 \<Longrightarrow> \<exists>a b c d. m = [a, b, c, d]"
  by (auto simp: numeral_eq_Suc length_Suc_conv)

lemma length_8_cases: "length m = 8 \<Longrightarrow> \<exists>a b c d e f g h. m = [a, b, c, d, e, f, g, h]"
  by (auto simp: numeral_eq_Suc length_Suc_conv)

lemma bit_extracted:
  "bit (ucast (drop_bit j w) :: byte) n \<longleftrightarrow> bit w (j + n) \<and> n < 8" "bit (ucast w :: byte) n \<longleftrightarrow> bit w n \<and> n < 8"
  for w :: "'a::len word"
  by (auto simp: bit_simps dest: bit_imp_le_length)

lemma bit_placed:
  "bit (push_bit k (ucast (x :: byte)) :: 'a::len word) n \<longleftrightarrow> k \<le> n \<and> n < LENGTH('a) \<and> n < k + 8 \<and> bit x (n - k)"
  by (auto simp: bit_simps dest: bit_imp_le_length)

lemma no_ninth_bit: "8 \<le> n \<Longrightarrow> \<not> bit x n" for x :: byte
  by (auto dest: bit_imp_le_length)

lemmas byte_bits = bit_drop_bit_eq bit_extracted bit_placed bit_or_iff byte_cast_bit no_ninth_bit

lemma set_get:
  "length m = 2 \<Longrightarrow> SetBE16 (GetBE16 m) = m" "length m = 2 \<Longrightarrow> SetLE16 (GetLE16 m) = m"
  "length m = 4 \<Longrightarrow> SetBE32 (GetBE32 m) = m" "length m = 4 \<Longrightarrow> SetLE32 (GetLE32 m) = m"
  "length m = 8 \<Longrightarrow> SetBE64 (GetBE64 m) = m" "length m = 8 \<Longrightarrow> SetLE64 (GetLE64 m) = m"
proof -
  show "length m = 2 \<Longrightarrow> SetBE16 (GetBE16 m) = m"
    by (drule length_2_cases) (auto simp: GetBE16_def SetBE16_def byte_bits intro!: bit_word_eqI)
  show "length m = 2 \<Longrightarrow> SetLE16 (GetLE16 m) = m"
    by (drule length_2_cases) (auto simp: GetLE16_def SetLE16_def byte_bits intro!: bit_word_eqI)
  show "length m = 4 \<Longrightarrow> SetBE32 (GetBE32 m) = m"
    by (drule length_4_cases) (auto simp: GetBE32_def SetBE32_def byte_bits intro!: bit_word_eqI)
  show "length m = 4 \<Longrightarrow> SetLE32 (GetLE32 m) = m"
    by (drule length_4_cases) (auto simp: GetLE32_def SetLE32_def byte_bits intro!: bit_word_eqI)
  show "length m = 8 \<Longrightarrow> SetBE64 (GetBE64 m) = m"
    by (drule length_8_cases) (auto simp: GetBE64_def SetBE64_def byte_bits intro!: bit_word_eqI)
  show "length m = 8 \<Longrightarrow> SetLE64 (GetLE64 m) = m"
    by (drule length_8_cases) (auto simp: GetLE64_def SetLE64_def byte_bits intro!: bit_word_eqI)
qed

lemma mem_load:
  "length m = 2 \<Longrightarrow> mem16 big (load16 big m) = m" "length m = 4 \<Longrightarrow> mem32 big (load32 big m) = m"
  "length m = 8 \<Longrightarrow> mem64 big (load64 big m) = m"
  by (simp_all add: mem16_def load16_def mem32_def load32_def mem64_def load64_def set_get)

text \<open>A number in network order lies in memory with its high byte first, on every host.\<close>

lemma mem_network [simp]:
  "mem16 big (HostToNetwork16 big a) = SetBE16 a" "mem32 big (HostToNetwork32 big b) = SetBE32 b"
  "mem64 big (HostToNetwork64 big c) = SetBE64 c"
  by (simp_all add: HostToNetwork16_def HostToNetwork32_def HostToNetwork64_def mem_load)

lemma network_load [simp]:
  "length m = 2 \<Longrightarrow> NetworkToHost16 big (load16 big m) = GetBE16 m"
  "length m = 4 \<Longrightarrow> NetworkToHost32 big (load32 big m) = GetBE32 m"
  "length m = 8 \<Longrightarrow> NetworkToHost64 big (load64 big m) = GetBE64 m"
  by (simp_all add: NetworkToHost16_def NetworkToHost32_def NetworkToHost64_def mem_load)

end
