(* ===== verification/ByteBuffers.thy ===== *)
theory ByteBuffers
  imports ByteOrders
begin

text \<open>
  \<open>talk/base/bytebuffer.cc\<close>. The block \<open>bytes_\<close> is a list whose length is \<open>size_\<close>; a new block has
  unspecified contents, which the parameter \<open>junk\<close> supplies. A read is None when it fails, and
  otherwise the value and the buffer after it. The host's byte order is the parameter \<open>big\<close>. The
  version counter is unbounded.
\<close>

subsection \<open>State and operations\<close>

datatype byte_order = ORDER_NETWORK | ORDER_HOST

record byte_buffer =
  bb_bytes :: "byte list"
  bb_start :: nat
  bb_end :: nat
  bb_version :: int
  bb_order :: byte_order

type_synonym junk = "nat \<Rightarrow> byte" \<comment> \<open>the contents of a new block\<close>

definition new_block :: "junk \<Rightarrow> nat \<Rightarrow> byte list" where
  "new_block junk n = map junk [0..<n]"

definition DEFAULT_SIZE :: nat where
  "DEFAULT_SIZE = 4096"

text \<open>\<open>Construct\<close>: no bytes is the null pointer.\<close>

definition Construct :: "junk \<Rightarrow> byte list option \<Rightarrow> nat \<Rightarrow> byte_order \<Rightarrow> byte_buffer" where
  "Construct junk bytes len order =
     (case bytes of
        Some bs \<Rightarrow> \<lparr>bb_bytes = take len bs, bb_start = 0, bb_end = len, bb_version = 0, bb_order = order\<rparr>
      | None \<Rightarrow> \<lparr>bb_bytes = new_block junk len, bb_start = 0, bb_end = 0, bb_version = 0, bb_order = order\<rparr>)"

definition Length :: "byte_buffer \<Rightarrow> nat" where
  "Length b = bb_end b - bb_start b"

definition Capacity :: "byte_buffer \<Rightarrow> nat" where
  "Capacity b = length (bb_bytes b) - bb_start b"

definition ReadBytes :: "nat \<Rightarrow> byte_buffer \<Rightarrow> (byte list \<times> byte_buffer) option" where
  "ReadBytes len b =
     (if len > Length b then None
      else Some (take len (drop (bb_start b) (bb_bytes b)), b\<lparr>bb_start := bb_start b + len\<rparr>))"

definition ReadUInt8 :: "byte_buffer \<Rightarrow> (byte \<times> byte_buffer) option" where
  "ReadUInt8 b = map_option (\<lambda>(m, b'). (m ! 0, b')) (ReadBytes 1 b)"

definition ReadUInt16 :: "bool \<Rightarrow> byte_buffer \<Rightarrow> (16 word \<times> byte_buffer) option" where
  "ReadUInt16 big b =
     map_option (\<lambda>(m, b'). let v = load16 big m in (if bb_order b = ORDER_NETWORK then NetworkToHost16 big v else v, b'))
       (ReadBytes 2 b)"

text \<open>The three bytes go into a zeroed variable, one byte up when its first byte is the highest.\<close>

definition ReadUInt24 :: "bool \<Rightarrow> byte_buffer \<Rightarrow> (32 word \<times> byte_buffer) option" where
  "ReadUInt24 big b =
     map_option (\<lambda>(m, b').
         let v = load32 big (if bb_order b = ORDER_NETWORK \<or> IsHostBigEndian big then 0 # m else m @ [0]) in
         (if bb_order b = ORDER_NETWORK then NetworkToHost32 big v else v, b'))
       (ReadBytes 3 b)"

definition ReadUInt32 :: "bool \<Rightarrow> byte_buffer \<Rightarrow> (32 word \<times> byte_buffer) option" where
  "ReadUInt32 big b =
     map_option (\<lambda>(m, b'). let v = load32 big m in (if bb_order b = ORDER_NETWORK then NetworkToHost32 big v else v, b'))
       (ReadBytes 4 b)"

definition ReadUInt64 :: "bool \<Rightarrow> byte_buffer \<Rightarrow> (64 word \<times> byte_buffer) option" where
  "ReadUInt64 big b =
     map_option (\<lambda>(m, b'). let v = load64 big m in (if bb_order b = ORDER_NETWORK then NetworkToHost64 big v else v, b'))
       (ReadBytes 8 b)"

text \<open>\<open>ReadString\<close> appends to the caller's string.\<close>

definition ReadString :: "string \<Rightarrow> nat \<Rightarrow> byte_buffer \<Rightarrow> (string \<times> byte_buffer) option" where
  "ReadString val len b =
     (if len > Length b then None
      else Some (val @ map byte_char (take len (drop (bb_start b) (bb_bytes b))), b\<lparr>bb_start := bb_start b + len\<rparr>))"

definition Resize :: "junk \<Rightarrow> nat \<Rightarrow> byte_buffer \<Rightarrow> byte_buffer" where
  "Resize junk sz b =
     (let len = min (bb_end b - bb_start b) sz;
          kept = take len (drop (bb_start b) (bb_bytes b));
          b1 = (if sz \<le> length (bb_bytes b) then b\<lparr>bb_bytes := kept @ drop len (bb_bytes b)\<rparr>
                else let new_size = max sz (3 * length (bb_bytes b) div 2) in
                  b\<lparr>bb_bytes := kept @ drop len (new_block junk new_size)\<rparr>) in
      b1\<lparr>bb_start := 0, bb_end := len, bb_version := bb_version b + 1\<rparr>)"

text \<open>\<open>ReserveWriteBuffer\<close> returns where to write: an index into the block.\<close>

definition ReserveWriteBuffer :: "junk \<Rightarrow> nat \<Rightarrow> byte_buffer \<Rightarrow> nat \<times> byte_buffer" where
  "ReserveWriteBuffer junk len b =
     (let b1 = (if Length b + len > Capacity b then Resize junk (Length b + len) b else b) in
      (bb_end b1, b1\<lparr>bb_end := bb_end b1 + len\<rparr>))"

definition store_at :: "nat \<Rightarrow> byte list \<Rightarrow> byte list \<Rightarrow> byte list" where
  "store_at i val m = take i m @ val @ drop (i + length val) m"

definition WriteBytes :: "junk \<Rightarrow> byte list \<Rightarrow> byte_buffer \<Rightarrow> byte_buffer" where
  "WriteBytes junk val b =
     (let (i, b1) = ReserveWriteBuffer junk (length val) b in b1\<lparr>bb_bytes := store_at i val (bb_bytes b1)\<rparr>)"

definition WriteUInt8 :: "junk \<Rightarrow> byte \<Rightarrow> byte_buffer \<Rightarrow> byte_buffer" where
  "WriteUInt8 junk val b = WriteBytes junk [val] b"

definition WriteUInt16 :: "junk \<Rightarrow> bool \<Rightarrow> 16 word \<Rightarrow> byte_buffer \<Rightarrow> byte_buffer" where
  "WriteUInt16 junk big val b =
     (let v = (if bb_order b = ORDER_NETWORK then HostToNetwork16 big val else val) in WriteBytes junk (mem16 big v) b)"

definition WriteUInt24 :: "junk \<Rightarrow> bool \<Rightarrow> 32 word \<Rightarrow> byte_buffer \<Rightarrow> byte_buffer" where
  "WriteUInt24 junk big val b =
     (let v = (if bb_order b = ORDER_NETWORK then HostToNetwork32 big val else val);
          start = (if bb_order b = ORDER_NETWORK \<or> IsHostBigEndian big then 1 else 0) in
      WriteBytes junk (take 3 (drop start (mem32 big v))) b)"

definition WriteUInt32 :: "junk \<Rightarrow> bool \<Rightarrow> 32 word \<Rightarrow> byte_buffer \<Rightarrow> byte_buffer" where
  "WriteUInt32 junk big val b =
     (let v = (if bb_order b = ORDER_NETWORK then HostToNetwork32 big val else val) in WriteBytes junk (mem32 big v) b)"

definition WriteUInt64 :: "junk \<Rightarrow> bool \<Rightarrow> 64 word \<Rightarrow> byte_buffer \<Rightarrow> byte_buffer" where
  "WriteUInt64 junk big val b =
     (let v = (if bb_order b = ORDER_NETWORK then HostToNetwork64 big val else val) in WriteBytes junk (mem64 big v) b)"

definition WriteString :: "junk \<Rightarrow> string \<Rightarrow> byte_buffer \<Rightarrow> byte_buffer" where
  "WriteString junk val b = WriteBytes junk (map char_byte val) b"

definition Consume :: "nat \<Rightarrow> byte_buffer \<Rightarrow> bool \<times> byte_buffer" where
  "Consume sz b = (if sz > Length b then (False, b) else (True, b\<lparr>bb_start := bb_start b + sz\<rparr>))"

definition GetReadPosition :: "byte_buffer \<Rightarrow> nat \<times> int" where
  "GetReadPosition b = (bb_start b, bb_version b)"

definition SetReadPosition :: "nat \<times> int \<Rightarrow> byte_buffer \<Rightarrow> bool \<times> byte_buffer" where
  "SetReadPosition position b =
     (if snd position \<noteq> bb_version b then (False, b) else (True, b\<lparr>bb_start := fst position\<rparr>))"

definition buffer_Clear :: "byte_buffer \<Rightarrow> byte_buffer" where
  "buffer_Clear b =
     b\<lparr>bb_bytes := replicate (length (bb_bytes b)) 0, bb_start := 0, bb_end := 0, bb_version := bb_version b + 1\<rparr>"

subsection \<open>The contract of a byte queue\<close>

locale byte_queue =
  fixes contents :: "'b \<Rightarrow> byte list" and wf :: "'b \<Rightarrow> bool"
    and put :: "byte list \<Rightarrow> 'b \<Rightarrow> 'b" and get :: "nat \<Rightarrow> 'b \<Rightarrow> (byte list \<times> 'b) option"
  assumes put_wf: "wf b \<Longrightarrow> wf (put bs b)"
    and put_contents: "wf b \<Longrightarrow> contents (put bs b) = contents b @ bs"
    and get_wf: "wf b \<Longrightarrow> get n b = Some (bs, b') \<Longrightarrow> wf b'"
    and get_contents: "wf b \<Longrightarrow> get n b = Some (bs, b') \<Longrightarrow> length bs = n \<and> contents b = bs @ contents b'"
    and get_none: "wf b \<Longrightarrow> (get n b = None) = (length (contents b) < n)"
begin

lemma get_front:
  assumes "wf b" "contents b = bs @ rest"
  obtains b' where "get (length bs) b = Some (bs, b')" "wf b'" "contents b' = rest"
proof -
  have "get (length bs) b \<noteq> None"
    using assms get_none [of b "length bs"] by simp
  then obtain m b' where g: "get (length bs) b = Some (m, b')" by auto
  from get_contents [OF assms(1) g] have "length m = length bs" "bs @ rest = m @ contents b'"
    using assms(2) by simp_all
  then have "m = bs" "contents b' = rest" by (simp_all add: append_eq_append_conv)
  with g get_wf [OF assms(1) g] that show thesis by blast
qed

text \<open>What was put behind \<open>old\<close> comes out unchanged after \<open>old\<close>.\<close>

lemma fifo:
  assumes "wf b" "contents b = old"
  obtains b1 b2 where "get (length old) (put bs b) = Some (old, b1)" "get (length bs) b1 = Some (bs, b2)"
    "wf b2" "contents b2 = []"
proof -
  have "wf (put bs b)" "contents (put bs b) = old @ bs" using assms put_wf put_contents by auto
  then obtain b1 where b1: "get (length old) (put bs b) = Some (old, b1)" "wf b1" "contents b1 = bs"
    by (rule get_front)
  moreover obtain b2 where "get (length bs) b1 = Some (bs, b2)" "wf b2" "contents b2 = []"
    using get_front [of b1 bs "[]"] b1 by auto
  ultimately show thesis using that by blast
qed

end

subsection \<open>The buffer is a byte queue\<close>

definition buffer_ok :: "byte_buffer \<Rightarrow> bool" where
  "buffer_ok b \<longleftrightarrow> bb_start b \<le> bb_end b \<and> bb_end b \<le> length (bb_bytes b)"

definition buffered :: "byte_buffer \<Rightarrow> byte list" where
  "buffered b = take (bb_end b - bb_start b) (drop (bb_start b) (bb_bytes b))"

lemma length_buffered: "buffer_ok b \<Longrightarrow> length (buffered b) = Length b"
  by (auto simp: buffer_ok_def buffered_def Length_def)

lemma Resize_ok:
  assumes "buffer_ok b"
  shows "buffer_ok (Resize junk n b)" and "buffered (Resize junk n b) = take n (buffered b)"
    and "n \<le> length (bb_bytes (Resize junk n b))" and "bb_start (Resize junk n b) = 0"
    and "bb_order (Resize junk n b) = bb_order b"
  using assms by (auto simp: Resize_def buffer_ok_def buffered_def new_block_def Let_def min_def)

lemma WriteBytes_ok:
  assumes "buffer_ok b"
  shows "buffer_ok (WriteBytes junk val b)" and "buffered (WriteBytes junk val b) = buffered b @ val"
    and "bb_order (WriteBytes junk val b) = bb_order b"
proof -
  define b1 where "b1 = (if Length b + length val > Capacity b then Resize junk (Length b + length val) b else b)"
  have ok: "buffer_ok b1" and same: "buffered b1 = buffered b" "bb_order b1 = bb_order b"
    using Resize_ok [OF assms] assms length_buffered [OF assms] by (auto simp: b1_def)
  have room: "bb_end b1 + length val \<le> length (bb_bytes b1)"
  proof (cases "Length b + length val > Capacity b")
    case True
    let ?r = "Resize junk (Length b + length val) b"
    have "bb_end ?r = length (buffered ?r)" using Resize_ok(1,4) [OF assms, where junk = junk and n = "Length b + length val"]
      by (simp add: buffered_def buffer_ok_def)
    then have "bb_end ?r = Length b" using Resize_ok(2) [OF assms] length_buffered [OF assms] by simp
    with True Resize_ok(3) [OF assms, where junk = junk and n = "Length b + length val"] show ?thesis by (simp add: b1_def)
  next
    case False
    with assms show ?thesis by (auto simp: b1_def Length_def Capacity_def buffer_ok_def)
  qed
  have w: "WriteBytes junk val b = b1\<lparr>bb_end := bb_end b1 + length val, bb_bytes := store_at (bb_end b1) val (bb_bytes b1)\<rparr>"
    by (simp add: WriteBytes_def ReserveWriteBuffer_def Let_def b1_def)
  show "buffer_ok (WriteBytes junk val b)"
    using ok room by (simp add: w buffer_ok_def store_at_def)
  show "bb_order (WriteBytes junk val b) = bb_order b" using same by (simp add: w)
  have "buffered (WriteBytes junk val b) = buffered b1 @ val"
  proof -
    have b: "bb_start b1 \<le> bb_end b1" "bb_end b1 \<le> length (bb_bytes b1)" using ok by (simp_all add: buffer_ok_def)
    then have front: "drop (bb_start b1) (take (bb_end b1) (bb_bytes b1) @ val @ rest) = buffered b1 @ val @ rest" for rest
      by (simp add: buffered_def drop_take)
    have "length (buffered b1) = bb_end b1 - bb_start b1" using length_buffered [OF ok] by (simp add: Length_def)
    moreover have "buffered (WriteBytes junk val b) =
        take (bb_end b1 + length val - bb_start b1) (drop (bb_start b1) (store_at (bb_end b1) val (bb_bytes b1)))"
      by (simp add: w buffered_def)
    moreover have "drop (bb_start b1) (take (bb_end b1) (bb_bytes b1)) = buffered b1"
      by (simp add: buffered_def drop_take)
    ultimately show ?thesis using b by (simp add: store_at_def front)
  qed
  with same show "buffered (WriteBytes junk val b) = buffered b @ val" by simp
qed

lemma ReadBytes_ok:
  assumes "buffer_ok b" "ReadBytes n b = Some (m, b')"
  shows "buffer_ok b'" and "length m = n \<and> buffered b = m @ buffered b'" and "bb_order b' = bb_order b"
proof -
  have n: "n \<le> bb_end b - bb_start b" and m: "m = take n (drop (bb_start b) (bb_bytes b))"
    and b': "b' = b\<lparr>bb_start := bb_start b + n\<rparr>"
    using assms(2) by (auto simp: ReadBytes_def Length_def split: if_splits)
  then show "buffer_ok b'" "bb_order b' = bb_order b"
    using assms(1) by (auto simp: buffer_ok_def)
  have "buffered b = take n (drop (bb_start b) (bb_bytes b)) @
      take (bb_end b - bb_start b - n) (drop n (drop (bb_start b) (bb_bytes b)))"
    using n by (metis buffered_def le_add_diff_inverse take_add)
  then show "length m = n \<and> buffered b = m @ buffered b'"
    using n assms(1) by (auto simp: m b' buffered_def buffer_ok_def add.commute)
qed

interpretation buffer_queue: byte_queue buffered buffer_ok "WriteBytes junk" ReadBytes
  for junk
proof unfold_locales
  show "(ReadBytes n b = None) = (length (buffered b) < n)" if "buffer_ok b" for b n
    using that by (auto simp: ReadBytes_def length_buffered)
qed (use WriteBytes_ok ReadBytes_ok in blast)+

subsection \<open>Numbers\<close>

text \<open>The bytes of a number in the buffer.\<close>

definition coded16 :: "bool \<Rightarrow> byte_order \<Rightarrow> 16 word \<Rightarrow> byte list" where
  "coded16 big order v = (if order = ORDER_NETWORK then SetBE16 v else mem16 big v)"

definition coded32 :: "bool \<Rightarrow> byte_order \<Rightarrow> 32 word \<Rightarrow> byte list" where
  "coded32 big order v = (if order = ORDER_NETWORK then SetBE32 v else mem32 big v)"

definition coded64 :: "bool \<Rightarrow> byte_order \<Rightarrow> 64 word \<Rightarrow> byte list" where
  "coded64 big order v = (if order = ORDER_NETWORK then SetBE64 v else mem64 big v)"

definition coded24 :: "bool \<Rightarrow> byte_order \<Rightarrow> 32 word \<Rightarrow> byte list" where
  "coded24 big order v =
     (if order = ORDER_NETWORK \<or> big then tl (SetBE32 v) else take 3 (SetLE32 v))"

lemma Write_coded:
  "WriteUInt16 junk big v2 b = WriteBytes junk (coded16 big (bb_order b) v2) b"
  "WriteUInt24 junk big v4 b = WriteBytes junk (coded24 big (bb_order b) v4) b"
  "WriteUInt32 junk big v4 b = WriteBytes junk (coded32 big (bb_order b) v4) b"
  "WriteUInt64 junk big v8 b = WriteBytes junk (coded64 big (bb_order b) v8) b"
proof -
  have "take 3 (drop 1 (SetBE32 v)) = tl (SetBE32 v)" for v by (simp add: SetBE32_def)
  then show "WriteUInt24 junk big v4 b = WriteBytes junk (coded24 big (bb_order b) v4) b"
    by (cases "bb_order b = ORDER_NETWORK") (simp_all add: WriteUInt24_def coded24_def Let_def, simp add: mem32_def)
qed (simp_all add: WriteUInt16_def WriteUInt32_def WriteUInt64_def coded16_def coded32_def coded64_def Let_def)

lemma coded_length [simp]:
  "length (coded16 big order v2) = 2" "length (coded32 big order v4) = 4" "length (coded64 big order v8) = 8"
  "length (coded24 big order v4) = 3"
  by (simp_all add: coded16_def coded32_def coded64_def coded24_def)

lemma top_byte_zero: "unat v < 2 ^ 24 \<Longrightarrow> SetBE32 v = 0 # tl (SetBE32 v) \<and> SetLE32 v = take 3 (SetLE32 v) @ [0]"
proof -
  assume "unat v < 2 ^ 24"
  then have "unat (drop_bit 24 v) = 0" by (simp only: unat_drop_bit_eq) (simp add: drop_bit_eq_div)
  then have "drop_bit 24 v = 0" by (simp only: unsigned_eq_0_iff)
  then show ?thesis by (simp add: SetBE32_def SetLE32_def)
qed

lemma Read_coded:
  "ReadBytes 2 b = Some (coded16 big (bb_order b) v2, b') \<Longrightarrow> ReadUInt16 big b = Some (v2, b')"
  "unat v4 < 2 ^ 24 \<Longrightarrow> ReadBytes 3 b = Some (coded24 big (bb_order b) v4, b') \<Longrightarrow> ReadUInt24 big b = Some (v4, b')"
  "ReadBytes 4 b = Some (coded32 big (bb_order b) v4, b') \<Longrightarrow> ReadUInt32 big b = Some (v4, b')"
  "ReadBytes 8 b = Some (coded64 big (bb_order b) v8, b') \<Longrightarrow> ReadUInt64 big b = Some (v8, b')"
proof -
  show "ReadUInt24 big b = Some (v4, b')"
    if v: "unat v4 < 2 ^ 24" and r: "ReadBytes 3 b = Some (coded24 big (bb_order b) v4, b')"
  proof (cases "bb_order b = ORDER_NETWORK")
    case True
    then have "coded24 big (bb_order b) v4 = tl (SetBE32 v4)" by (simp add: coded24_def)
    moreover have "0 # tl (SetBE32 v4) = SetBE32 v4" using top_byte_zero [OF v] by simp
    ultimately show ?thesis using r True by (simp add: ReadUInt24_def Let_def network_load)
  next
    case False
    with r top_byte_zero [OF v] get_set(3,4) [of v4] show ?thesis
      by (cases big) (simp_all add: ReadUInt24_def coded24_def load32_def)
  qed
qed (auto simp: ReadUInt16_def ReadUInt32_def ReadUInt64_def coded16_def coded32_def coded64_def Let_def)

subsection \<open>Sequences of fields\<close>

text \<open>What a protocol writes and reads: numbers of the five widths and strings of known length.\<close>

datatype field = Byte8 byte | Word16 "16 word" | Word24 "32 word" | Word32 "32 word" | Word64 "64 word" | Chars string

fun write_field :: "junk \<Rightarrow> bool \<Rightarrow> field \<Rightarrow> byte_buffer \<Rightarrow> byte_buffer" where
  "write_field junk big (Byte8 v) b = WriteUInt8 junk v b"
| "write_field junk big (Word16 v) b = WriteUInt16 junk big v b"
| "write_field junk big (Word24 v) b = WriteUInt24 junk big v b"
| "write_field junk big (Word32 v) b = WriteUInt32 junk big v b"
| "write_field junk big (Word64 v) b = WriteUInt64 junk big v b"
| "write_field junk big (Chars s) b = WriteString junk s b"

text \<open>A read of the same kind of field; the value of the first argument is not used.\<close>

fun read_field :: "bool \<Rightarrow> field \<Rightarrow> byte_buffer \<Rightarrow> (field \<times> byte_buffer) option" where
  "read_field big (Byte8 _) b = map_option (apfst Byte8) (ReadUInt8 b)"
| "read_field big (Word16 _) b = map_option (apfst Word16) (ReadUInt16 big b)"
| "read_field big (Word24 _) b = map_option (apfst Word24) (ReadUInt24 big b)"
| "read_field big (Word32 _) b = map_option (apfst Word32) (ReadUInt32 big b)"
| "read_field big (Word64 _) b = map_option (apfst Word64) (ReadUInt64 big b)"
| "read_field big (Chars s) b = map_option (apfst Chars) (ReadString [] (length s) b)"

fun read_fields :: "bool \<Rightarrow> field list \<Rightarrow> byte_buffer \<Rightarrow> (field list \<times> byte_buffer) option" where
  "read_fields big [] b = Some ([], b)"
| "read_fields big (f # fs) b =
     (case read_field big f b of
        None \<Rightarrow> None
      | Some (g, b') \<Rightarrow> map_option (apfst (Cons g)) (read_fields big fs b'))"

definition write_fields :: "junk \<Rightarrow> bool \<Rightarrow> field list \<Rightarrow> byte_buffer \<Rightarrow> byte_buffer" where
  "write_fields junk big = fold (write_field junk big)"

text \<open>The value that comes back: only the low three bytes of a 24-bit number are kept.\<close>

fun kept_field :: "field \<Rightarrow> field" where
  "kept_field (Word24 v) = Word24 (take_bit 24 v)"
| "kept_field f = f"

fun coded_field :: "bool \<Rightarrow> byte_order \<Rightarrow> field \<Rightarrow> byte list" where
  "coded_field big order (Byte8 v) = [v]"
| "coded_field big order (Word16 v) = coded16 big order v"
| "coded_field big order (Word24 v) = coded24 big order v"
| "coded_field big order (Word32 v) = coded32 big order v"
| "coded_field big order (Word64 v) = coded64 big order v"
| "coded_field big order (Chars s) = map char_byte s"

lemma low24:
  fixes v :: "32 word"
  shows "unat (take_bit 24 v) < 2 ^ 24" and "coded24 big order (take_bit 24 v) = coded24 big order v"
proof -
  show "unat (take_bit 24 v) < 2 ^ 24" by (simp only: unsigned_take_bit_eq take_bit_nat_less_exp)
  have byte: "(ucast (drop_bit n (take_bit 24 v)) :: byte) = ucast (drop_bit n v)" if "n \<le> 16" for n
    using that by (intro bit_word_eqI) (auto simp: bit_simps)
  from byte [of 0] byte [of 8] byte [of 16]
  show "coded24 big order (take_bit 24 v) = coded24 big order v"
    by (simp add: coded24_def SetBE32_def SetLE32_def)
qed

lemma write_field_is: "write_field junk big f b = WriteBytes junk (coded_field big (bb_order b) f) b"
  by (cases f) (simp_all add: Write_coded WriteUInt8_def WriteString_def)

lemma read_field_is:
  assumes "ReadBytes (length (coded_field big (bb_order b) f)) b = Some (coded_field big (bb_order b) f, b')"
  shows "read_field big f b = Some (kept_field f, b')"
proof (cases f)
  case (Word24 v)
  with assms Read_coded(2) [OF low24(1), of b big v b'] show ?thesis by (simp add: low24(2))
next
  case (Chars s)
  with assms show ?thesis by (auto simp: ReadString_def ReadBytes_def comp_def split: if_splits)
qed (use assms Read_coded in \<open>simp_all add: ReadUInt8_def\<close>)

lemma write_fields_ok:
  assumes "buffer_ok b"
  shows "buffer_ok (write_fields junk big fs b)"
    and "buffered (write_fields junk big fs b) = buffered b @ concat (map (coded_field big (bb_order b)) fs)"
    and "bb_order (write_fields junk big fs b) = bb_order b"
  using assms
  by (induction fs arbitrary: b) (simp_all add: write_fields_def write_field_is WriteBytes_ok)

lemma read_fields_ok:
  assumes "buffer_ok b" "buffered b = concat (map (coded_field big (bb_order b)) fs) @ rest"
  shows "\<exists>b'. read_fields big fs b = Some (map kept_field fs, b') \<and> buffer_ok b' \<and> buffered b' = rest"
  using assms
proof (induction fs arbitrary: b)
  case (Cons f fs)
  from Cons.prems(2)
  have "buffered b = coded_field big (bb_order b) f @ concat (map (coded_field big (bb_order b)) fs) @ rest" by simp
  with Cons.prems(1)
  obtain b1 where b1: "ReadBytes (length (coded_field big (bb_order b) f)) b = Some (coded_field big (bb_order b) f, b1)"
    "buffer_ok b1" "buffered b1 = concat (map (coded_field big (bb_order b)) fs) @ rest"
    by (rule buffer_queue.get_front)
  from b1(1) have "bb_order b1 = bb_order b" by (rule ReadBytes_ok(3) [OF Cons.prems(1)])
  then obtain b' where "read_fields big fs b1 = Some (map kept_field fs, b')" "buffer_ok b'" "buffered b' = rest"
    using Cons.IH [of b1] b1 by metis
  then show ?case using read_field_is [OF b1(1)] by simp
qed simp

subsection \<open>Properties\<close>

lemma Construct_ok: "buffer_ok (Construct junk None n order)" "buffered (Construct junk None n order) = []"
  by (simp_all add: Construct_def buffer_ok_def buffered_def)


end
