(* ===== verification/XmppNames.thy ===== *)
theory XmppNames
  imports XmppConstants
begin

text \<open>
  The rest of the table \<open>talk/xmpp/constants.cc\<close>: the names of presence, roster, publish-subscribe,
  chat rooms, service discovery and the other extensions, in the order of the file. They are
  collected in \<open>xmpp_names\<close>. The names behind \<open>FEATURE_ENABLE_VOICEMAIL\<close> and \<open>FEATURE_ENABLE_PSTN\<close>
  are left out.
\<close>

named_theorems xmpp_names

definition NS_SERVER :: string where
  [xmpp_names]: "NS_SERVER = ''jabber:server''"

definition NS_XSTREAM :: string where
  [xmpp_names]: "NS_XSTREAM = ''urn:ietf:params:xml:ns:xmpp-streams''"

definition NS_DIALBACK :: string where
  [xmpp_names]: "NS_DIALBACK = ''jabber:server:dialback''"

definition NS_PRIVACY :: string where
  [xmpp_names]: "NS_PRIVACY = ''jabber:iq:privacy''"

definition NS_VCARD :: string where
  [xmpp_names]: "NS_VCARD = ''vcard-temp''"

definition NS_AVATAR_HASH :: string where
  [xmpp_names]: "NS_AVATAR_HASH = ''google:avatar''"

definition NS_VCARD_UPDATE :: string where
  [xmpp_names]: "NS_VCARD_UPDATE = ''vcard-temp:x:update''"

definition STR_CLIENT :: string where
  [xmpp_names]: "STR_CLIENT = ''client''"

definition STR_SERVER :: string where
  [xmpp_names]: "STR_SERVER = ''server''"

definition STR_STREAM :: string where
  [xmpp_names]: "STR_STREAM = ''stream''"

definition STR_GET :: string where
  [xmpp_names]: "STR_GET = ''get''"

definition STR_SET :: string where
  [xmpp_names]: "STR_SET = ''set''"

definition STR_RESULT :: string where
  [xmpp_names]: "STR_RESULT = ''result''"

definition STR_ERROR :: string where
  [xmpp_names]: "STR_ERROR = ''error''"

definition STR_FORM :: string where
  [xmpp_names]: "STR_FORM = ''form''"

definition STR_SUBMIT :: string where
  [xmpp_names]: "STR_SUBMIT = ''submit''"

definition STR_TEXT_SINGLE :: string where
  [xmpp_names]: "STR_TEXT_SINGLE = ''text-single''"

definition STR_LIST_SINGLE :: string where
  [xmpp_names]: "STR_LIST_SINGLE = ''list-single''"

definition STR_LIST_MULTI :: string where
  [xmpp_names]: "STR_LIST_MULTI = ''list-multi''"

definition STR_HIDDEN :: string where
  [xmpp_names]: "STR_HIDDEN = ''hidden''"

definition STR_FORM_TYPE :: string where
  [xmpp_names]: "STR_FORM_TYPE = ''FORM_TYPE''"

definition STR_FROM :: string where
  [xmpp_names]: "STR_FROM = ''from''"

definition STR_TO :: string where
  [xmpp_names]: "STR_TO = ''to''"

definition STR_BOTH :: string where
  [xmpp_names]: "STR_BOTH = ''both''"

definition STR_REMOVE :: string where
  [xmpp_names]: "STR_REMOVE = ''remove''"

definition STR_TRUE :: string where
  [xmpp_names]: "STR_TRUE = ''true''"

definition STR_TYPE :: string where
  [xmpp_names]: "STR_TYPE = ''type''"

definition STR_NAME :: string where
  [xmpp_names]: "STR_NAME = ''name''"

definition STR_ID :: string where
  [xmpp_names]: "STR_ID = ''id''"

definition STR_JID :: string where
  [xmpp_names]: "STR_JID = ''jid''"

definition STR_SUBSCRIPTION :: string where
  [xmpp_names]: "STR_SUBSCRIPTION = ''subscription''"

definition STR_ASK :: string where
  [xmpp_names]: "STR_ASK = ''ask''"

definition STR_X :: string where
  [xmpp_names]: "STR_X = ''x''"

definition STR_GOOGLE_COM :: string where
  [xmpp_names]: "STR_GOOGLE_COM = ''google.com''"

definition STR_GMAIL_COM :: string where
  [xmpp_names]: "STR_GMAIL_COM = ''gmail.com''"

definition STR_GOOGLEMAIL_COM :: string where
  [xmpp_names]: "STR_GOOGLEMAIL_COM = ''googlemail.com''"

definition STR_DEFAULT_DOMAIN :: string where
  [xmpp_names]: "STR_DEFAULT_DOMAIN = ''default.talk.google.com''"

definition STR_TALK_GOOGLE_COM :: string where
  [xmpp_names]: "STR_TALK_GOOGLE_COM = ''talk.google.com''"

definition STR_TALKX_L_GOOGLE_COM :: string where
  [xmpp_names]: "STR_TALKX_L_GOOGLE_COM = ''talkx.l.google.com''"

definition STR_XMPP_GOOGLE_COM :: string where
  [xmpp_names]: "STR_XMPP_GOOGLE_COM = ''xmpp.google.com''"

definition STR_XMPPX_L_GOOGLE_COM :: string where
  [xmpp_names]: "STR_XMPPX_L_GOOGLE_COM = ''xmppx.l.google.com''"

definition STR_UNAVAILABLE :: string where
  [xmpp_names]: "STR_UNAVAILABLE = ''unavailable''"

definition NS_MUC_UNIQUE :: string where
  [xmpp_names]: "NS_MUC_UNIQUE = ''http://jabber.org/protocol/muc#unique''"

definition QN_MUC_UNIQUE_QUERY :: qname where
  [xmpp_names]: "QN_MUC_UNIQUE_QUERY = QName NS_MUC_UNIQUE ''unique''"

definition QN_HANGOUT_ID :: qname where
  [xmpp_names]: "QN_HANGOUT_ID = QName [] ''hangout-id''"

definition STR_GOOGLE_MUC_LOOKUP_JID :: string where
  [xmpp_names]: "STR_GOOGLE_MUC_LOOKUP_JID = ''lookup.groupchat.google.com''"

definition STR_MUC_ROOMCONFIG_ROOMNAME :: string where
  [xmpp_names]: "STR_MUC_ROOMCONFIG_ROOMNAME = ''muc#roomconfig_roomname''"

definition STR_MUC_ROOMCONFIG_FEATURES :: string where
  [xmpp_names]: "STR_MUC_ROOMCONFIG_FEATURES = ''muc#roomconfig_features''"

definition STR_MUC_ROOM_FEATURE_ENTERPRISE :: string where
  [xmpp_names]: "STR_MUC_ROOM_FEATURE_ENTERPRISE = ''muc_enterprise''"

definition STR_MUC_ROOMCONFIG :: string where
  [xmpp_names]: "STR_MUC_ROOMCONFIG = ''http://jabber.org/protocol/muc#roomconfig''"

definition STR_MUC_ROOM_FEATURE_HANGOUT :: string where
  [xmpp_names]: "STR_MUC_ROOM_FEATURE_HANGOUT = ''muc_es''"

definition STR_MUC_ROOM_FEATURE_HANGOUT_LITE :: string where
  [xmpp_names]: "STR_MUC_ROOM_FEATURE_HANGOUT_LITE = ''muc_lite''"

definition STR_MUC_ROOM_FEATURE_BROADCAST :: string where
  [xmpp_names]: "STR_MUC_ROOM_FEATURE_BROADCAST = ''broadcast''"

definition STR_MUC_ROOM_FEATURE_MULTI_USER_VC :: string where
  [xmpp_names]: "STR_MUC_ROOM_FEATURE_MULTI_USER_VC = ''muc_muvc''"

definition QN_XSTREAM_BAD_FORMAT :: qname where
  [xmpp_names]: "QN_XSTREAM_BAD_FORMAT = QName NS_XSTREAM ''bad-format''"

definition QN_XSTREAM_BAD_NAMESPACE_PREFIX :: qname where
  [xmpp_names]: "QN_XSTREAM_BAD_NAMESPACE_PREFIX = QName NS_XSTREAM ''bad-namespace-prefix''"

definition QN_XSTREAM_CONFLICT :: qname where
  [xmpp_names]: "QN_XSTREAM_CONFLICT = QName NS_XSTREAM ''conflict''"

definition QN_XSTREAM_CONNECTION_TIMEOUT :: qname where
  [xmpp_names]: "QN_XSTREAM_CONNECTION_TIMEOUT = QName NS_XSTREAM ''connection-timeout''"

definition QN_XSTREAM_HOST_GONE :: qname where
  [xmpp_names]: "QN_XSTREAM_HOST_GONE = QName NS_XSTREAM ''host-gone''"

definition QN_XSTREAM_HOST_UNKNOWN :: qname where
  [xmpp_names]: "QN_XSTREAM_HOST_UNKNOWN = QName NS_XSTREAM ''host-unknown''"

definition QN_XSTREAM_IMPROPER_ADDRESSIING :: qname where
  [xmpp_names]: "QN_XSTREAM_IMPROPER_ADDRESSIING = QName NS_XSTREAM ''improper-addressing''"

definition QN_XSTREAM_INTERNAL_SERVER_ERROR :: qname where
  [xmpp_names]: "QN_XSTREAM_INTERNAL_SERVER_ERROR = QName NS_XSTREAM ''internal-server-error''"

definition QN_XSTREAM_INVALID_FROM :: qname where
  [xmpp_names]: "QN_XSTREAM_INVALID_FROM = QName NS_XSTREAM ''invalid-from''"

definition QN_XSTREAM_INVALID_ID :: qname where
  [xmpp_names]: "QN_XSTREAM_INVALID_ID = QName NS_XSTREAM ''invalid-id''"

definition QN_XSTREAM_INVALID_NAMESPACE :: qname where
  [xmpp_names]: "QN_XSTREAM_INVALID_NAMESPACE = QName NS_XSTREAM ''invalid-namespace''"

definition QN_XSTREAM_INVALID_XML :: qname where
  [xmpp_names]: "QN_XSTREAM_INVALID_XML = QName NS_XSTREAM ''invalid-xml''"

definition QN_XSTREAM_NOT_AUTHORIZED :: qname where
  [xmpp_names]: "QN_XSTREAM_NOT_AUTHORIZED = QName NS_XSTREAM ''not-authorized''"

definition QN_XSTREAM_POLICY_VIOLATION :: qname where
  [xmpp_names]: "QN_XSTREAM_POLICY_VIOLATION = QName NS_XSTREAM ''policy-violation''"

definition QN_XSTREAM_REMOTE_CONNECTION_FAILED :: qname where
  [xmpp_names]: "QN_XSTREAM_REMOTE_CONNECTION_FAILED = QName NS_XSTREAM ''remote-connection-failed''"

definition QN_XSTREAM_RESOURCE_CONSTRAINT :: qname where
  [xmpp_names]: "QN_XSTREAM_RESOURCE_CONSTRAINT = QName NS_XSTREAM ''resource-constraint''"

definition QN_XSTREAM_RESTRICTED_XML :: qname where
  [xmpp_names]: "QN_XSTREAM_RESTRICTED_XML = QName NS_XSTREAM ''restricted-xml''"

definition QN_XSTREAM_SEE_OTHER_HOST :: qname where
  [xmpp_names]: "QN_XSTREAM_SEE_OTHER_HOST = QName NS_XSTREAM ''see-other-host''"

definition QN_XSTREAM_SYSTEM_SHUTDOWN :: qname where
  [xmpp_names]: "QN_XSTREAM_SYSTEM_SHUTDOWN = QName NS_XSTREAM ''system-shutdown''"

definition QN_XSTREAM_UNDEFINED_CONDITION :: qname where
  [xmpp_names]: "QN_XSTREAM_UNDEFINED_CONDITION = QName NS_XSTREAM ''undefined-condition''"

definition QN_XSTREAM_UNSUPPORTED_ENCODING :: qname where
  [xmpp_names]: "QN_XSTREAM_UNSUPPORTED_ENCODING = QName NS_XSTREAM ''unsupported-encoding''"

definition QN_XSTREAM_UNSUPPORTED_STANZA_TYPE :: qname where
  [xmpp_names]: "QN_XSTREAM_UNSUPPORTED_STANZA_TYPE = QName NS_XSTREAM ''unsupported-stanza-type''"

definition QN_XSTREAM_UNSUPPORTED_VERSION :: qname where
  [xmpp_names]: "QN_XSTREAM_UNSUPPORTED_VERSION = QName NS_XSTREAM ''unsupported-version''"

definition QN_XSTREAM_XML_NOT_WELL_FORMED :: qname where
  [xmpp_names]: "QN_XSTREAM_XML_NOT_WELL_FORMED = QName NS_XSTREAM ''xml-not-well-formed''"

definition QN_XSTREAM_TEXT :: qname where
  [xmpp_names]: "QN_XSTREAM_TEXT = QName NS_XSTREAM ''text''"

definition QN_TLS_REQUIRED :: qname where
  [xmpp_names]: "QN_TLS_REQUIRED = QName NS_TLS ''required''"

definition QN_TLS_FAILURE :: qname where
  [xmpp_names]: "QN_TLS_FAILURE = QName NS_TLS ''failure''"

definition QN_SASL_RESPONSE :: qname where
  [xmpp_names]: "QN_SASL_RESPONSE = QName NS_SASL ''response''"

definition QN_SASL_FAILURE :: qname where
  [xmpp_names]: "QN_SASL_FAILURE = QName NS_SASL ''failure''"

definition QN_SASL_ABORTED :: qname where
  [xmpp_names]: "QN_SASL_ABORTED = QName NS_SASL ''aborted''"

definition QN_SASL_INCORRECT_ENCODING :: qname where
  [xmpp_names]: "QN_SASL_INCORRECT_ENCODING = QName NS_SASL ''incorrect-encoding''"

definition QN_SASL_INVALID_AUTHZID :: qname where
  [xmpp_names]: "QN_SASL_INVALID_AUTHZID = QName NS_SASL ''invalid-authzid''"

definition QN_SASL_INVALID_MECHANISM :: qname where
  [xmpp_names]: "QN_SASL_INVALID_MECHANISM = QName NS_SASL ''invalid-mechanism''"

definition QN_SASL_MECHANISM_TOO_WEAK :: qname where
  [xmpp_names]: "QN_SASL_MECHANISM_TOO_WEAK = QName NS_SASL ''mechanism-too-weak''"

definition QN_SASL_NOT_AUTHORIZED :: qname where
  [xmpp_names]: "QN_SASL_NOT_AUTHORIZED = QName NS_SASL ''not-authorized''"

definition QN_SASL_TEMPORARY_AUTH_FAILURE :: qname where
  [xmpp_names]: "QN_SASL_TEMPORARY_AUTH_FAILURE = QName NS_SASL ''temporary-auth-failure''"

definition NS_GOOGLE_AUTH_OLD :: string where
  [xmpp_names]: "NS_GOOGLE_AUTH_OLD = ''google:auth''"

definition QN_DIALBACK_RESULT :: qname where
  [xmpp_names]: "QN_DIALBACK_RESULT = QName NS_DIALBACK ''result''"

definition QN_DIALBACK_VERIFY :: qname where
  [xmpp_names]: "QN_DIALBACK_VERIFY = QName NS_DIALBACK ''verify''"

definition QN_BODY :: qname where
  [xmpp_names]: "QN_BODY = QName NS_CLIENT ''body''"

definition QN_SUBJECT :: qname where
  [xmpp_names]: "QN_SUBJECT = QName NS_CLIENT ''subject''"

definition QN_THREAD :: qname where
  [xmpp_names]: "QN_THREAD = QName NS_CLIENT ''thread''"

definition QN_SHOW :: qname where
  [xmpp_names]: "QN_SHOW = QName NS_CLIENT ''show''"

definition QN_STATUS :: qname where
  [xmpp_names]: "QN_STATUS = QName NS_CLIENT ''status''"

definition QN_LANG :: qname where
  [xmpp_names]: "QN_LANG = QName NS_CLIENT ''lang''"

definition QN_PRIORITY :: qname where
  [xmpp_names]: "QN_PRIORITY = QName NS_CLIENT ''priority''"

definition QN_SERVER_MESSAGE :: qname where
  [xmpp_names]: "QN_SERVER_MESSAGE = QName NS_SERVER ''message''"

definition QN_SERVER_BODY :: qname where
  [xmpp_names]: "QN_SERVER_BODY = QName NS_SERVER ''body''"

definition QN_SERVER_SUBJECT :: qname where
  [xmpp_names]: "QN_SERVER_SUBJECT = QName NS_SERVER ''subject''"

definition QN_SERVER_THREAD :: qname where
  [xmpp_names]: "QN_SERVER_THREAD = QName NS_SERVER ''thread''"

definition QN_SERVER_PRESENCE :: qname where
  [xmpp_names]: "QN_SERVER_PRESENCE = QName NS_SERVER ''presence''"

definition QN_SERVER_SHOW :: qname where
  [xmpp_names]: "QN_SERVER_SHOW = QName NS_SERVER ''show''"

definition QN_SERVER_STATUS :: qname where
  [xmpp_names]: "QN_SERVER_STATUS = QName NS_SERVER ''status''"

definition QN_SERVER_LANG :: qname where
  [xmpp_names]: "QN_SERVER_LANG = QName NS_SERVER ''lang''"

definition QN_SERVER_PRIORITY :: qname where
  [xmpp_names]: "QN_SERVER_PRIORITY = QName NS_SERVER ''priority''"

definition QN_SERVER_IQ :: qname where
  [xmpp_names]: "QN_SERVER_IQ = QName NS_SERVER ''iq''"

definition QN_SERVER_ERROR :: qname where
  [xmpp_names]: "QN_SERVER_ERROR = QName NS_SERVER ''error''"

definition QN_PRIVACY_QUERY :: qname where
  [xmpp_names]: "QN_PRIVACY_QUERY = QName NS_PRIVACY ''query''"

definition QN_PRIVACY_ACTIVE :: qname where
  [xmpp_names]: "QN_PRIVACY_ACTIVE = QName NS_PRIVACY ''active''"

definition QN_PRIVACY_DEFAULT :: qname where
  [xmpp_names]: "QN_PRIVACY_DEFAULT = QName NS_PRIVACY ''default''"

definition QN_PRIVACY_LIST :: qname where
  [xmpp_names]: "QN_PRIVACY_LIST = QName NS_PRIVACY ''list''"

definition QN_PRIVACY_ITEM :: qname where
  [xmpp_names]: "QN_PRIVACY_ITEM = QName NS_PRIVACY ''item''"

definition QN_PRIVACY_IQ :: qname where
  [xmpp_names]: "QN_PRIVACY_IQ = QName NS_PRIVACY ''iq''"

definition QN_PRIVACY_MESSAGE :: qname where
  [xmpp_names]: "QN_PRIVACY_MESSAGE = QName NS_PRIVACY ''message''"

definition QN_PRIVACY_PRESENCE_IN :: qname where
  [xmpp_names]: "QN_PRIVACY_PRESENCE_IN = QName NS_PRIVACY ''presence-in''"

definition QN_PRIVACY_PRESENCE_OUT :: qname where
  [xmpp_names]: "QN_PRIVACY_PRESENCE_OUT = QName NS_PRIVACY ''presence-out''"

definition QN_VCARD :: qname where
  [xmpp_names]: "QN_VCARD = QName NS_VCARD ''vCard''"

definition QN_VCARD_FN :: qname where
  [xmpp_names]: "QN_VCARD_FN = QName NS_VCARD ''FN''"

definition QN_VCARD_PHOTO :: qname where
  [xmpp_names]: "QN_VCARD_PHOTO = QName NS_VCARD ''PHOTO''"

definition QN_VCARD_PHOTO_BINVAL :: qname where
  [xmpp_names]: "QN_VCARD_PHOTO_BINVAL = QName NS_VCARD ''BINVAL''"

definition QN_VCARD_AVATAR_HASH :: qname where
  [xmpp_names]: "QN_VCARD_AVATAR_HASH = QName NS_AVATAR_HASH ''hash''"

definition QN_VCARD_AVATAR_HASH_MODIFIED :: qname where
  [xmpp_names]: "QN_VCARD_AVATAR_HASH_MODIFIED = QName NS_AVATAR_HASH ''modified''"

definition QN_AFFILIATION :: qname where
  [xmpp_names]: "QN_AFFILIATION = QName [] ''affiliation''"

definition QN_ROLE :: qname where
  [xmpp_names]: "QN_ROLE = QName [] ''role''"

definition QN_XML_LANG :: qname where
  [xmpp_names]: "QN_XML_LANG = QName NS_XML ''lang''"

definition QN_ENCODING :: qname where
  [xmpp_names]: "QN_ENCODING = QName [] ''encoding''"

definition QN_VALUE :: qname where
  [xmpp_names]: "QN_VALUE = QName [] ''value''"

definition QN_ACTION :: qname where
  [xmpp_names]: "QN_ACTION = QName [] ''action''"

definition QN_ORDER :: qname where
  [xmpp_names]: "QN_ORDER = QName [] ''order''"

definition QN_NICK :: qname where
  [xmpp_names]: "QN_NICK = QName [] ''nick''"

definition QN_TITLE1 :: qname where
  [xmpp_names]: "QN_TITLE1 = QName [] ''title1''"

definition QN_TITLE2 :: qname where
  [xmpp_names]: "QN_TITLE2 = QName [] ''title2''"

definition QN_SOURCE :: qname where
  [xmpp_names]: "QN_SOURCE = QName [] ''source''"

definition QN_TIME :: qname where
  [xmpp_names]: "QN_TIME = QName [] ''time''"

definition QN_XMLNS_CLIENT :: qname where
  [xmpp_names]: "QN_XMLNS_CLIENT = QName NS_XMLNS STR_CLIENT"

definition QN_XMLNS_SERVER :: qname where
  [xmpp_names]: "QN_XMLNS_SERVER = QName NS_XMLNS STR_SERVER"

definition QN_XMLNS_STREAM :: qname where
  [xmpp_names]: "QN_XMLNS_STREAM = QName NS_XMLNS STR_STREAM"

definition STR_SHOW_AWAY :: string where
  [xmpp_names]: "STR_SHOW_AWAY = ''away''"

definition STR_SHOW_CHAT :: string where
  [xmpp_names]: "STR_SHOW_CHAT = ''chat''"

definition STR_SHOW_DND :: string where
  [xmpp_names]: "STR_SHOW_DND = ''dnd''"

definition STR_SHOW_XA :: string where
  [xmpp_names]: "STR_SHOW_XA = ''xa''"

definition STR_SHOW_OFFLINE :: string where
  [xmpp_names]: "STR_SHOW_OFFLINE = ''offline''"

definition NS_GOOGLE_PSTN_CONFERENCE :: string where
  [xmpp_names]: "NS_GOOGLE_PSTN_CONFERENCE = ''http://www.google.com/pstn-conference''"

definition QN_GOOGLE_PSTN_CONFERENCE_STATUS :: qname where
  [xmpp_names]: "QN_GOOGLE_PSTN_CONFERENCE_STATUS = QName NS_GOOGLE_PSTN_CONFERENCE ''status''"

definition QN_ATTR_STATUS :: qname where
  [xmpp_names]: "QN_ATTR_STATUS = QName [] ''status''"

definition STR_PSTN_CONFERENCE_STATUS_CONNECTING :: string where
  [xmpp_names]: "STR_PSTN_CONFERENCE_STATUS_CONNECTING = ''connecting''"

definition STR_PSTN_CONFERENCE_STATUS_CONNECTED :: string where
  [xmpp_names]: "STR_PSTN_CONFERENCE_STATUS_CONNECTED = ''connected''"

definition STR_PSTN_CONFERENCE_STATUS_HANGUP :: string where
  [xmpp_names]: "STR_PSTN_CONFERENCE_STATUS_HANGUP = ''hangup''"

definition STR_SUBSCRIBE :: string where
  [xmpp_names]: "STR_SUBSCRIBE = ''subscribe''"

definition STR_SUBSCRIBED :: string where
  [xmpp_names]: "STR_SUBSCRIBED = ''subscribed''"

definition STR_UNSUBSCRIBE :: string where
  [xmpp_names]: "STR_UNSUBSCRIBE = ''unsubscribe''"

definition STR_UNSUBSCRIBED :: string where
  [xmpp_names]: "STR_UNSUBSCRIBED = ''unsubscribed''"

definition NS_GOOGLE_SUBSCRIBE :: string where
  [xmpp_names]: "NS_GOOGLE_SUBSCRIBE = ''google:subscribe''"

definition QN_INVITATION :: qname where
  [xmpp_names]: "QN_INVITATION = QName NS_GOOGLE_SUBSCRIBE ''invitation''"

definition QN_INVITE_NAME :: qname where
  [xmpp_names]: "QN_INVITE_NAME = QName NS_GOOGLE_SUBSCRIBE ''name''"

definition QN_INVITE_SUBJECT :: qname where
  [xmpp_names]: "QN_INVITE_SUBJECT = QName NS_GOOGLE_SUBSCRIBE ''subject''"

definition QN_INVITE_MESSAGE :: qname where
  [xmpp_names]: "QN_INVITE_MESSAGE = QName NS_GOOGLE_SUBSCRIBE ''body''"

definition NS_GOOGLE_MUC_ADMIN :: string where
  [xmpp_names]: "NS_GOOGLE_MUC_ADMIN = ''google:muc#admin''"

definition QN_GOOGLE_MUC_ADMIN_QUERY :: qname where
  [xmpp_names]: "QN_GOOGLE_MUC_ADMIN_QUERY = QName NS_GOOGLE_MUC_ADMIN ''query''"

definition QN_GOOGLE_MUC_ADMIN_QUERY_ITEM :: qname where
  [xmpp_names]: "QN_GOOGLE_MUC_ADMIN_QUERY_ITEM = QName NS_GOOGLE_MUC_ADMIN ''item''"

definition QN_GOOGLE_MUC_ADMIN_QUERY_ITEM_REASON :: qname where
  [xmpp_names]: "QN_GOOGLE_MUC_ADMIN_QUERY_ITEM_REASON = QName NS_GOOGLE_MUC_ADMIN ''reason''"

definition NS_PUBSUB :: string where
  [xmpp_names]: "NS_PUBSUB = ''http://jabber.org/protocol/pubsub''"

definition QN_PUBSUB :: qname where
  [xmpp_names]: "QN_PUBSUB = QName NS_PUBSUB ''pubsub''"

definition QN_PUBSUB_ITEMS :: qname where
  [xmpp_names]: "QN_PUBSUB_ITEMS = QName NS_PUBSUB ''items''"

definition QN_PUBSUB_ITEM :: qname where
  [xmpp_names]: "QN_PUBSUB_ITEM = QName NS_PUBSUB ''item''"

definition QN_PUBSUB_PUBLISH :: qname where
  [xmpp_names]: "QN_PUBSUB_PUBLISH = QName NS_PUBSUB ''publish''"

definition QN_PUBSUB_RETRACT :: qname where
  [xmpp_names]: "QN_PUBSUB_RETRACT = QName NS_PUBSUB ''retract''"

definition QN_ATTR_PUBLISHER :: qname where
  [xmpp_names]: "QN_ATTR_PUBLISHER = QName [] ''publisher''"

definition NS_PUBSUB_EVENT :: string where
  [xmpp_names]: "NS_PUBSUB_EVENT = ''http://jabber.org/protocol/pubsub#event''"

definition QN_NODE :: qname where
  [xmpp_names]: "QN_NODE = QName [] ''node''"

definition QN_PUBSUB_EVENT :: qname where
  [xmpp_names]: "QN_PUBSUB_EVENT = QName NS_PUBSUB_EVENT ''event''"

definition QN_PUBSUB_EVENT_ITEMS :: qname where
  [xmpp_names]: "QN_PUBSUB_EVENT_ITEMS = QName NS_PUBSUB_EVENT ''items''"

definition QN_PUBSUB_EVENT_ITEM :: qname where
  [xmpp_names]: "QN_PUBSUB_EVENT_ITEM = QName NS_PUBSUB_EVENT ''item''"

definition QN_PUBSUB_EVENT_RETRACT :: qname where
  [xmpp_names]: "QN_PUBSUB_EVENT_RETRACT = QName NS_PUBSUB_EVENT ''retract''"

definition QN_NOTIFY :: qname where
  [xmpp_names]: "QN_NOTIFY = QName [] ''notify''"

definition NS_PRESENTER :: string where
  [xmpp_names]: "NS_PRESENTER = ''google:presenter''"

definition QN_PRESENTER_PRESENTER :: qname where
  [xmpp_names]: "QN_PRESENTER_PRESENTER = QName NS_PRESENTER ''presenter''"

definition QN_PRESENTER_PRESENTATION_ITEM :: qname where
  [xmpp_names]: "QN_PRESENTER_PRESENTATION_ITEM = QName NS_PRESENTER ''presentation-item''"

definition QN_PRESENTER_PRESENTATION_TYPE :: qname where
  [xmpp_names]: "QN_PRESENTER_PRESENTATION_TYPE = QName NS_PRESENTER ''presentation-type''"

definition QN_PRESENTER_PRESENTATION_ID :: qname where
  [xmpp_names]: "QN_PRESENTER_PRESENTATION_ID = QName NS_PRESENTER ''presentation-id''"

definition QN_CATEGORY :: qname where
  [xmpp_names]: "QN_CATEGORY = QName [] ''category''"

definition QN_VAR :: qname where
  [xmpp_names]: "QN_VAR = QName [] ''var''"

definition NS_DISCO_INFO :: string where
  [xmpp_names]: "NS_DISCO_INFO = ''http://jabber.org/protocol/disco#info''"

definition NS_DISCO_ITEMS :: string where
  [xmpp_names]: "NS_DISCO_ITEMS = ''http://jabber.org/protocol/disco#items''"

definition QN_DISCO_INFO_QUERY :: qname where
  [xmpp_names]: "QN_DISCO_INFO_QUERY = QName NS_DISCO_INFO ''query''"

definition QN_DISCO_IDENTITY :: qname where
  [xmpp_names]: "QN_DISCO_IDENTITY = QName NS_DISCO_INFO ''identity''"

definition QN_DISCO_FEATURE :: qname where
  [xmpp_names]: "QN_DISCO_FEATURE = QName NS_DISCO_INFO ''feature''"

definition QN_DISCO_ITEMS_QUERY :: qname where
  [xmpp_names]: "QN_DISCO_ITEMS_QUERY = QName NS_DISCO_ITEMS ''query''"

definition QN_DISCO_ITEM :: qname where
  [xmpp_names]: "QN_DISCO_ITEM = QName NS_DISCO_ITEMS ''item''"

definition NS_FEATURE :: string where
  [xmpp_names]: "NS_FEATURE = ''http://jabber.org/protocol/feature-neg''"

definition QN_FEATURE_FEATURE :: qname where
  [xmpp_names]: "QN_FEATURE_FEATURE = QName NS_FEATURE ''feature''"

definition NS_XDATA :: string where
  [xmpp_names]: "NS_XDATA = ''jabber:x:data''"

definition QN_XDATA_X :: qname where
  [xmpp_names]: "QN_XDATA_X = QName NS_XDATA ''x''"

definition QN_XDATA_INSTRUCTIONS :: qname where
  [xmpp_names]: "QN_XDATA_INSTRUCTIONS = QName NS_XDATA ''instructions''"

definition QN_XDATA_TITLE :: qname where
  [xmpp_names]: "QN_XDATA_TITLE = QName NS_XDATA ''title''"

definition QN_XDATA_FIELD :: qname where
  [xmpp_names]: "QN_XDATA_FIELD = QName NS_XDATA ''field''"

definition QN_XDATA_REPORTED :: qname where
  [xmpp_names]: "QN_XDATA_REPORTED = QName NS_XDATA ''reported''"

definition QN_XDATA_ITEM :: qname where
  [xmpp_names]: "QN_XDATA_ITEM = QName NS_XDATA ''item''"

definition QN_XDATA_DESC :: qname where
  [xmpp_names]: "QN_XDATA_DESC = QName NS_XDATA ''desc''"

definition QN_XDATA_REQUIRED :: qname where
  [xmpp_names]: "QN_XDATA_REQUIRED = QName NS_XDATA ''required''"

definition QN_XDATA_VALUE :: qname where
  [xmpp_names]: "QN_XDATA_VALUE = QName NS_XDATA ''value''"

definition QN_XDATA_OPTION :: qname where
  [xmpp_names]: "QN_XDATA_OPTION = QName NS_XDATA ''option''"

definition NS_MUC :: string where
  [xmpp_names]: "NS_MUC = ''http://jabber.org/protocol/muc''"

definition QN_MUC_X :: qname where
  [xmpp_names]: "QN_MUC_X = QName NS_MUC ''x''"

definition QN_MUC_ITEM :: qname where
  [xmpp_names]: "QN_MUC_ITEM = QName NS_MUC ''item''"

definition QN_MUC_AFFILIATION :: qname where
  [xmpp_names]: "QN_MUC_AFFILIATION = QName NS_MUC ''affiliation''"

definition QN_MUC_ROLE :: qname where
  [xmpp_names]: "QN_MUC_ROLE = QName NS_MUC ''role''"

definition STR_AFFILIATION_NONE :: string where
  [xmpp_names]: "STR_AFFILIATION_NONE = ''none''"

definition STR_ROLE_PARTICIPANT :: string where
  [xmpp_names]: "STR_ROLE_PARTICIPANT = ''participant''"

definition NS_GOOGLE_SESSION :: string where
  [xmpp_names]: "NS_GOOGLE_SESSION = ''http://www.google.com/session''"

definition QN_GOOGLE_CIRCLE_ID :: qname where
  [xmpp_names]: "QN_GOOGLE_CIRCLE_ID = QName [] ''google-circle-id''"

definition QN_GOOGLE_USER_ID :: qname where
  [xmpp_names]: "QN_GOOGLE_USER_ID = QName [] ''google-user-id''"

definition QN_GOOGLE_SESSION_BLOCKED :: qname where
  [xmpp_names]: "QN_GOOGLE_SESSION_BLOCKED = QName NS_GOOGLE_SESSION ''blocked''"

definition QN_GOOGLE_SESSION_BLOCKING :: qname where
  [xmpp_names]: "QN_GOOGLE_SESSION_BLOCKING = QName NS_GOOGLE_SESSION ''blocking''"

definition NS_MUC_OWNER :: string where
  [xmpp_names]: "NS_MUC_OWNER = ''http://jabber.org/protocol/muc#owner''"

definition QN_MUC_OWNER_QUERY :: qname where
  [xmpp_names]: "QN_MUC_OWNER_QUERY = QName NS_MUC_OWNER ''query''"

definition NS_MUC_USER :: string where
  [xmpp_names]: "NS_MUC_USER = ''http://jabber.org/protocol/muc#user''"

definition QN_MUC_USER_CONTINUE :: qname where
  [xmpp_names]: "QN_MUC_USER_CONTINUE = QName NS_MUC_USER ''continue''"

definition QN_MUC_USER_X :: qname where
  [xmpp_names]: "QN_MUC_USER_X = QName NS_MUC_USER ''x''"

definition QN_MUC_USER_ITEM :: qname where
  [xmpp_names]: "QN_MUC_USER_ITEM = QName NS_MUC_USER ''item''"

definition QN_MUC_USER_STATUS :: qname where
  [xmpp_names]: "QN_MUC_USER_STATUS = QName NS_MUC_USER ''status''"

definition QN_MUC_USER_REASON :: qname where
  [xmpp_names]: "QN_MUC_USER_REASON = QName NS_MUC_USER ''reason''"

definition QN_MUC_USER_ABUSE_VIOLATION :: qname where
  [xmpp_names]: "QN_MUC_USER_ABUSE_VIOLATION = QName NS_MUC_USER ''abuse-violation''"

definition NS_SEARCH :: string where
  [xmpp_names]: "NS_SEARCH = ''jabber:iq:search''"

definition QN_SEARCH_QUERY :: qname where
  [xmpp_names]: "QN_SEARCH_QUERY = QName NS_SEARCH ''query''"

definition QN_SEARCH_ITEM :: qname where
  [xmpp_names]: "QN_SEARCH_ITEM = QName NS_SEARCH ''item''"

definition QN_SEARCH_ROOM_NAME :: qname where
  [xmpp_names]: "QN_SEARCH_ROOM_NAME = QName NS_SEARCH ''room-name''"

definition QN_SEARCH_ROOM_DOMAIN :: qname where
  [xmpp_names]: "QN_SEARCH_ROOM_DOMAIN = QName NS_SEARCH ''room-domain''"

definition QN_SEARCH_ROOM_JID :: qname where
  [xmpp_names]: "QN_SEARCH_ROOM_JID = QName NS_SEARCH ''room-jid''"

definition QN_SEARCH_HANGOUT_ID :: qname where
  [xmpp_names]: "QN_SEARCH_HANGOUT_ID = QName NS_SEARCH ''hangout-id''"

definition QN_SEARCH_EXTERNAL_ID :: qname where
  [xmpp_names]: "QN_SEARCH_EXTERNAL_ID = QName NS_SEARCH ''external-id''"

definition NS_CAPS :: string where
  [xmpp_names]: "NS_CAPS = ''http://jabber.org/protocol/caps''"

definition QN_CAPS_C :: qname where
  [xmpp_names]: "QN_CAPS_C = QName NS_CAPS ''c''"

definition QN_VER :: qname where
  [xmpp_names]: "QN_VER = QName [] ''ver''"

definition QN_EXT :: qname where
  [xmpp_names]: "QN_EXT = QName [] ''ext''"

definition kNSVCard :: string where
  [xmpp_names]: "kNSVCard = ''vcard-temp:x:update''"

definition kQnVCardX :: qname where
  [xmpp_names]: "kQnVCardX = QName kNSVCard ''x''"

definition kQnVCardPhoto :: qname where
  [xmpp_names]: "kQnVCardPhoto = QName kNSVCard ''photo''"

definition NS_NICKNAME :: string where
  [xmpp_names]: "NS_NICKNAME = ''http://jabber.org/protocol/nick''"

definition QN_NICKNAME :: qname where
  [xmpp_names]: "QN_NICKNAME = QName NS_NICKNAME ''nick''"

definition NS_CHATSTATE :: string where
  [xmpp_names]: "NS_CHATSTATE = ''http://jabber.org/protocol/chatstates''"

definition QN_CS_ACTIVE :: qname where
  [xmpp_names]: "QN_CS_ACTIVE = QName NS_CHATSTATE ''active''"

definition QN_CS_COMPOSING :: qname where
  [xmpp_names]: "QN_CS_COMPOSING = QName NS_CHATSTATE ''composing''"

definition QN_CS_PAUSED :: qname where
  [xmpp_names]: "QN_CS_PAUSED = QName NS_CHATSTATE ''paused''"

definition QN_CS_INACTIVE :: qname where
  [xmpp_names]: "QN_CS_INACTIVE = QName NS_CHATSTATE ''inactive''"

definition QN_CS_GONE :: qname where
  [xmpp_names]: "QN_CS_GONE = QName NS_CHATSTATE ''gone''"

definition kNSDelay :: string where
  [xmpp_names]: "kNSDelay = ''jabber:x:delay''"

definition kQnDelayX :: qname where
  [xmpp_names]: "kQnDelayX = QName kNSDelay ''x''"

definition kQnStamp :: qname where
  [xmpp_names]: "kQnStamp = QName [] ''stamp''"

definition kNSTimestamp :: string where
  [xmpp_names]: "kNSTimestamp = ''google:timestamp''"

definition kQnTime :: qname where
  [xmpp_names]: "kQnTime = QName kNSTimestamp ''time''"

definition kQnMilliseconds :: qname where
  [xmpp_names]: "kQnMilliseconds = QName [] ''ms''"

definition NS_JINGLE_INFO :: string where
  [xmpp_names]: "NS_JINGLE_INFO = ''google:jingleinfo''"

definition QN_JINGLE_INFO_QUERY :: qname where
  [xmpp_names]: "QN_JINGLE_INFO_QUERY = QName NS_JINGLE_INFO ''query''"

definition QN_JINGLE_INFO_STUN :: qname where
  [xmpp_names]: "QN_JINGLE_INFO_STUN = QName NS_JINGLE_INFO ''stun''"

definition QN_JINGLE_INFO_RELAY :: qname where
  [xmpp_names]: "QN_JINGLE_INFO_RELAY = QName NS_JINGLE_INFO ''relay''"

definition QN_JINGLE_INFO_SERVER :: qname where
  [xmpp_names]: "QN_JINGLE_INFO_SERVER = QName NS_JINGLE_INFO ''server''"

definition QN_JINGLE_INFO_TOKEN :: qname where
  [xmpp_names]: "QN_JINGLE_INFO_TOKEN = QName NS_JINGLE_INFO ''token''"

definition QN_JINGLE_INFO_HOST :: qname where
  [xmpp_names]: "QN_JINGLE_INFO_HOST = QName [] ''host''"

definition QN_JINGLE_INFO_TCP :: qname where
  [xmpp_names]: "QN_JINGLE_INFO_TCP = QName [] ''tcp''"

definition QN_JINGLE_INFO_UDP :: qname where
  [xmpp_names]: "QN_JINGLE_INFO_UDP = QName [] ''udp''"

definition QN_JINGLE_INFO_TCPSSL :: qname where
  [xmpp_names]: "QN_JINGLE_INFO_TCPSSL = QName [] ''tcpssl''"

definition NS_GOOGLE_CALLPERF_STATS :: string where
  [xmpp_names]: "NS_GOOGLE_CALLPERF_STATS = ''google:call-perf-stats''"

definition QN_CALLPERF_STATS :: qname where
  [xmpp_names]: "QN_CALLPERF_STATS = QName NS_GOOGLE_CALLPERF_STATS ''callPerfStats''"

definition QN_CALLPERF_SESSIONID :: qname where
  [xmpp_names]: "QN_CALLPERF_SESSIONID = QName [] ''sessionId''"

definition QN_CALLPERF_LOCALUSER :: qname where
  [xmpp_names]: "QN_CALLPERF_LOCALUSER = QName [] ''localUser''"

definition QN_CALLPERF_REMOTEUSER :: qname where
  [xmpp_names]: "QN_CALLPERF_REMOTEUSER = QName [] ''remoteUser''"

definition QN_CALLPERF_STARTTIME :: qname where
  [xmpp_names]: "QN_CALLPERF_STARTTIME = QName [] ''startTime''"

definition QN_CALLPERF_CALL_LENGTH :: qname where
  [xmpp_names]: "QN_CALLPERF_CALL_LENGTH = QName [] ''callLength''"

definition QN_CALLPERF_CALL_ACCEPTED :: qname where
  [xmpp_names]: "QN_CALLPERF_CALL_ACCEPTED = QName [] ''callAccepted''"

definition QN_CALLPERF_CALL_ERROR_CODE :: qname where
  [xmpp_names]: "QN_CALLPERF_CALL_ERROR_CODE = QName [] ''callErrorCode''"

definition QN_CALLPERF_TERMINATE_CODE :: qname where
  [xmpp_names]: "QN_CALLPERF_TERMINATE_CODE = QName [] ''terminateCode''"

definition QN_CALLPERF_DATAPOINT :: qname where
  [xmpp_names]: "QN_CALLPERF_DATAPOINT = QName NS_GOOGLE_CALLPERF_STATS ''dataPoint''"

definition QN_CALLPERF_DATAPOINT_TIME :: qname where
  [xmpp_names]: "QN_CALLPERF_DATAPOINT_TIME = QName [] ''timeStamp''"

definition QN_CALLPERF_DATAPOINT_FRACTION_LOST :: qname where
  [xmpp_names]: "QN_CALLPERF_DATAPOINT_FRACTION_LOST = QName [] ''fraction_lost''"

definition QN_CALLPERF_DATAPOINT_CUM_LOST :: qname where
  [xmpp_names]: "QN_CALLPERF_DATAPOINT_CUM_LOST = QName [] ''cum_lost''"

definition QN_CALLPERF_DATAPOINT_EXT_MAX :: qname where
  [xmpp_names]: "QN_CALLPERF_DATAPOINT_EXT_MAX = QName [] ''ext_max''"

definition QN_CALLPERF_DATAPOINT_JITTER :: qname where
  [xmpp_names]: "QN_CALLPERF_DATAPOINT_JITTER = QName [] ''jitter''"

definition QN_CALLPERF_DATAPOINT_RTT :: qname where
  [xmpp_names]: "QN_CALLPERF_DATAPOINT_RTT = QName [] ''RTT''"

definition QN_CALLPERF_DATAPOINT_BYTES_R :: qname where
  [xmpp_names]: "QN_CALLPERF_DATAPOINT_BYTES_R = QName [] ''bytesReceived''"

definition QN_CALLPERF_DATAPOINT_PACKETS_R :: qname where
  [xmpp_names]: "QN_CALLPERF_DATAPOINT_PACKETS_R = QName [] ''packetsReceived''"

definition QN_CALLPERF_DATAPOINT_BYTES_S :: qname where
  [xmpp_names]: "QN_CALLPERF_DATAPOINT_BYTES_S = QName [] ''bytesSent''"

definition QN_CALLPERF_DATAPOINT_PACKETS_S :: qname where
  [xmpp_names]: "QN_CALLPERF_DATAPOINT_PACKETS_S = QName [] ''packetsSent''"

definition QN_CALLPERF_DATAPOINT_PROCESS_CPU :: qname where
  [xmpp_names]: "QN_CALLPERF_DATAPOINT_PROCESS_CPU = QName [] ''processCpu''"

definition QN_CALLPERF_DATAPOINT_SYSTEM_CPU :: qname where
  [xmpp_names]: "QN_CALLPERF_DATAPOINT_SYSTEM_CPU = QName [] ''systemCpu''"

definition QN_CALLPERF_DATAPOINT_CPUS :: qname where
  [xmpp_names]: "QN_CALLPERF_DATAPOINT_CPUS = QName [] ''cpus''"

definition QN_CALLPERF_CONNECTION :: qname where
  [xmpp_names]: "QN_CALLPERF_CONNECTION = QName NS_GOOGLE_CALLPERF_STATS ''connection''"

definition QN_CALLPERF_CONNECTION_LOCAL_ADDRESS :: qname where
  [xmpp_names]: "QN_CALLPERF_CONNECTION_LOCAL_ADDRESS = QName [] ''localAddress''"

definition QN_CALLPERF_CONNECTION_REMOTE_ADDRESS :: qname where
  [xmpp_names]: "QN_CALLPERF_CONNECTION_REMOTE_ADDRESS = QName [] ''remoteAddress''"

definition QN_CALLPERF_CONNECTION_FLAGS :: qname where
  [xmpp_names]: "QN_CALLPERF_CONNECTION_FLAGS = QName [] ''flags''"

definition QN_CALLPERF_CONNECTION_RTT :: qname where
  [xmpp_names]: "QN_CALLPERF_CONNECTION_RTT = QName [] ''rtt''"

definition QN_CALLPERF_CONNECTION_TOTAL_BYTES_S :: qname where
  [xmpp_names]: "QN_CALLPERF_CONNECTION_TOTAL_BYTES_S = QName [] ''totalBytesSent''"

definition QN_CALLPERF_CONNECTION_BYTES_SECOND_S :: qname where
  [xmpp_names]: "QN_CALLPERF_CONNECTION_BYTES_SECOND_S = QName [] ''bytesSecondSent''"

definition QN_CALLPERF_CONNECTION_TOTAL_BYTES_R :: qname where
  [xmpp_names]: "QN_CALLPERF_CONNECTION_TOTAL_BYTES_R = QName [] ''totalBytesRecv''"

definition QN_CALLPERF_CONNECTION_BYTES_SECOND_R :: qname where
  [xmpp_names]: "QN_CALLPERF_CONNECTION_BYTES_SECOND_R = QName [] ''bytesSecondRecv''"

definition QN_CALLPERF_CANDIDATE :: qname where
  [xmpp_names]: "QN_CALLPERF_CANDIDATE = QName NS_GOOGLE_CALLPERF_STATS ''candidate''"

definition QN_CALLPERF_CANDIDATE_ENDPOINT :: qname where
  [xmpp_names]: "QN_CALLPERF_CANDIDATE_ENDPOINT = QName [] ''endpoint''"

definition QN_CALLPERF_CANDIDATE_PROTOCOL :: qname where
  [xmpp_names]: "QN_CALLPERF_CANDIDATE_PROTOCOL = QName [] ''protocol''"

definition QN_CALLPERF_CANDIDATE_ADDRESS :: qname where
  [xmpp_names]: "QN_CALLPERF_CANDIDATE_ADDRESS = QName [] ''address''"

definition QN_CALLPERF_MEDIA :: qname where
  [xmpp_names]: "QN_CALLPERF_MEDIA = QName NS_GOOGLE_CALLPERF_STATS ''media''"

definition QN_CALLPERF_MEDIA_DIRECTION :: qname where
  [xmpp_names]: "QN_CALLPERF_MEDIA_DIRECTION = QName [] ''direction''"

definition QN_CALLPERF_MEDIA_SSRC :: qname where
  [xmpp_names]: "QN_CALLPERF_MEDIA_SSRC = QName [] ''SSRC''"

definition QN_CALLPERF_MEDIA_ENERGY :: qname where
  [xmpp_names]: "QN_CALLPERF_MEDIA_ENERGY = QName [] ''energy''"

definition QN_CALLPERF_MEDIA_FIR :: qname where
  [xmpp_names]: "QN_CALLPERF_MEDIA_FIR = QName [] ''fir''"

definition QN_CALLPERF_MEDIA_NACK :: qname where
  [xmpp_names]: "QN_CALLPERF_MEDIA_NACK = QName [] ''nack''"

definition QN_CALLPERF_MEDIA_FPS :: qname where
  [xmpp_names]: "QN_CALLPERF_MEDIA_FPS = QName [] ''fps''"

definition QN_CALLPERF_MEDIA_FPS_NETWORK :: qname where
  [xmpp_names]: "QN_CALLPERF_MEDIA_FPS_NETWORK = QName [] ''fpsNetwork''"

definition QN_CALLPERF_MEDIA_FPS_DECODED :: qname where
  [xmpp_names]: "QN_CALLPERF_MEDIA_FPS_DECODED = QName [] ''fpsDecoded''"

definition QN_CALLPERF_MEDIA_JITTER_BUFFER_SIZE :: qname where
  [xmpp_names]: "QN_CALLPERF_MEDIA_JITTER_BUFFER_SIZE = QName [] ''jitterBufferSize''"

definition QN_CALLPERF_MEDIA_PREFERRED_JITTER_BUFFER_SIZE :: qname where
  [xmpp_names]: "QN_CALLPERF_MEDIA_PREFERRED_JITTER_BUFFER_SIZE = QName [] ''preferredJitterBufferSize''"

definition QN_CALLPERF_MEDIA_TOTAL_PLAYOUT_DELAY :: qname where
  [xmpp_names]: "QN_CALLPERF_MEDIA_TOTAL_PLAYOUT_DELAY = QName [] ''totalPlayoutDelay''"

definition QN_MUC_USER_INVITE :: qname where
  [xmpp_names]: "QN_MUC_USER_INVITE = QName NS_MUC_USER ''invite''"

definition NS_GOOGLE_MUC_USER :: string where
  [xmpp_names]: "NS_GOOGLE_MUC_USER = ''google:muc#user''"

definition QN_GOOGLE_MUC_USER_AVAILABLE_MEDIA :: qname where
  [xmpp_names]: "QN_GOOGLE_MUC_USER_AVAILABLE_MEDIA = QName NS_GOOGLE_MUC_USER ''available-media''"

definition QN_GOOGLE_MUC_USER_ENTRY :: qname where
  [xmpp_names]: "QN_GOOGLE_MUC_USER_ENTRY = QName NS_GOOGLE_MUC_USER ''entry''"

definition QN_GOOGLE_MUC_USER_MEDIA :: qname where
  [xmpp_names]: "QN_GOOGLE_MUC_USER_MEDIA = QName NS_GOOGLE_MUC_USER ''media''"

definition QN_GOOGLE_MUC_USER_TYPE :: qname where
  [xmpp_names]: "QN_GOOGLE_MUC_USER_TYPE = QName NS_GOOGLE_MUC_USER ''type''"

definition QN_GOOGLE_MUC_USER_SRC_ID :: qname where
  [xmpp_names]: "QN_GOOGLE_MUC_USER_SRC_ID = QName NS_GOOGLE_MUC_USER ''src-id''"

definition QN_GOOGLE_MUC_USER_STATUS :: qname where
  [xmpp_names]: "QN_GOOGLE_MUC_USER_STATUS = QName NS_GOOGLE_MUC_USER ''status''"

definition QN_CLIENT_VERSION :: qname where
  [xmpp_names]: "QN_CLIENT_VERSION = QName NS_GOOGLE_MUC_USER ''client-version''"

definition QN_LOCALE :: qname where
  [xmpp_names]: "QN_LOCALE = QName NS_GOOGLE_MUC_USER ''locale''"

definition QN_LABEL :: qname where
  [xmpp_names]: "QN_LABEL = QName [] ''label''"

definition NS_GOOGLE_MUC_MEDIA :: string where
  [xmpp_names]: "NS_GOOGLE_MUC_MEDIA = ''google:muc#media''"

definition QN_GOOGLE_MUC_AUDIO_MUTE :: qname where
  [xmpp_names]: "QN_GOOGLE_MUC_AUDIO_MUTE = QName NS_GOOGLE_MUC_MEDIA ''audio-mute''"

definition QN_GOOGLE_MUC_VIDEO_MUTE :: qname where
  [xmpp_names]: "QN_GOOGLE_MUC_VIDEO_MUTE = QName NS_GOOGLE_MUC_MEDIA ''video-mute''"

definition QN_GOOGLE_MUC_VIDEO_PAUSE :: qname where
  [xmpp_names]: "QN_GOOGLE_MUC_VIDEO_PAUSE = QName NS_GOOGLE_MUC_MEDIA ''video-pause''"

definition QN_GOOGLE_MUC_RECORDING :: qname where
  [xmpp_names]: "QN_GOOGLE_MUC_RECORDING = QName NS_GOOGLE_MUC_MEDIA ''recording''"

definition QN_GOOGLE_MUC_MEDIA_BLOCK :: qname where
  [xmpp_names]: "QN_GOOGLE_MUC_MEDIA_BLOCK = QName NS_GOOGLE_MUC_MEDIA ''block''"

definition QN_STATE_ATTR :: qname where
  [xmpp_names]: "QN_STATE_ATTR = QName [] ''state''"

definition AUTH_MECHANISM_GOOGLE_COOKIE :: string where
  [xmpp_names]: "AUTH_MECHANISM_GOOGLE_COOKIE = ''X-GOOGLE-COOKIE''"

definition AUTH_MECHANISM_GOOGLE_TOKEN :: string where
  [xmpp_names]: "AUTH_MECHANISM_GOOGLE_TOKEN = ''X-GOOGLE-TOKEN''"

definition AUTH_MECHANISM_OAUTH2 :: string where
  [xmpp_names]: "AUTH_MECHANISM_OAUTH2 = ''X-OAUTH2''"

definition AUTH_MECHANISM_PLAIN :: string where
  [xmpp_names]: "AUTH_MECHANISM_PLAIN = ''PLAIN''"

end
