(* ===== verification/StringNumbers.thy ===== *)
theory StringNumbers
  imports Prelude
begin

text \<open>
  \<open>ToString\<close> and \<open>FromString\<close> of \<open>talk/base/stringencode.h\<close> at the type \<open>int\<close> of 32 bits: the
  output operator of a string stream, and the input operator with its decimal base: white space, a
  sign, digits; what follows the digits is not looked at. No digits, or a value outside the type,
  is a failure.
\<close>

definition int_ToString :: "int \<Rightarrow> string" where
  "int_ToString n = (if n < 0 then CHR ''-'' # nat_to_dec (nat (- n)) else nat_to_dec (nat n))"

definition is_digit :: "char \<Rightarrow> bool" where
  "is_digit c \<longleftrightarrow> 48 \<le> byte_of c \<and> byte_of c \<le> 57"

definition int_FromString :: "string \<Rightarrow> int option" where
  "int_FromString s =
     (let s1 = dropWhile is_space s;
          neg = (s1 \<noteq> [] \<and> hd s1 = CHR ''-'');
          s2 = (if s1 \<noteq> [] \<and> hd s1 \<in> {CHR ''-'', CHR ''+''} then tl s1 else s1);
          digits = takeWhile is_digit s2;
          value = int (dec_to_nat digits 0) in
      if digits = [] then None
      else let n = (if neg then - value else value) in
        if - (2 ^ 31) \<le> n \<and> n < 2 ^ 31 then Some n else None)"

lemma dec_is_digits: "c \<in> set (nat_to_dec n) \<Longrightarrow> is_digit c"
  using nat_to_dec_digits by (auto simp: is_digit_def)

lemma digit_not_space: "is_digit c \<Longrightarrow> \<not> is_space c \<and> c \<noteq> CHR ''-'' \<and> c \<noteq> CHR ''+''"
  by (auto simp: is_digit_def is_space_def)

lemma dec_head: "is_digit (hd (nat_to_dec n))"
  using dec_is_digits [of "hd (nat_to_dec n)" n] by simp

lemma dropWhile_head: "xs \<noteq> [] \<Longrightarrow> \<not> P (hd xs) \<Longrightarrow> dropWhile P xs = xs"
  by (cases xs) simp_all

lemma int_string_roundtrip:
  assumes "- (2 ^ 31) \<le> n" "n < 2 ^ 31"
  shows "int_FromString (int_ToString n) = Some n"
proof (cases "n < 0")
  case True
  have "\<not> is_space CHR ''-''" by (simp add: is_space_def)
  moreover have d: "takeWhile is_digit (nat_to_dec m) = nat_to_dec m" for m
    by (simp add: dec_is_digits)
  ultimately show ?thesis
    using assms True by (simp add: int_FromString_def int_ToString_def dec_to_nat_of_dec Let_def d)
next
  case False
  have d: "dropWhile is_space (nat_to_dec m) = nat_to_dec m" "takeWhile is_digit (nat_to_dec m) = nat_to_dec m" for m
    using digit_not_space [OF dec_head [of m]] by (simp_all add: dec_is_digits dropWhile_head)
  show ?thesis
    using assms False digit_not_space [OF dec_head [of "nat n"]]
    by (simp add: int_FromString_def int_ToString_def dec_to_nat_of_dec Let_def d)
qed

lemma int_FromString_empty [simp]: "int_FromString [] = None"
  by (simp add: int_FromString_def)

text \<open>\<open>atoi\<close>: as above, but no digits are the value 0; overflow is not defined by C and not bounded here.\<close>

definition atoi :: "string \<Rightarrow> int" where
  "atoi s =
     (let s1 = dropWhile is_space s;
          s2 = (if s1 \<noteq> [] \<and> hd s1 \<in> {CHR ''-'', CHR ''+''} then tl s1 else s1);
          value = int (dec_to_nat (takeWhile is_digit s2) 0) in
      if s1 \<noteq> [] \<and> hd s1 = CHR ''-'' then - value else value)"

end
