(* ===== verification/Presence.thy ===== *)
theory Presence
  imports EngineCore XmppNames StringNumbers
begin

text \<open>
  Presence information, \<open>XmppPresenceImpl\<close> of \<open>talk/xmpp/rostermoduleimpl.cc\<close>. The object is its
  only member, \<open>raw_xml_\<close>: a presence stanza or the null pointer. Every field is read from the stanza
  and written into it. The setters return None for a null dereference, which the lemmas exclude.
\<close>

subsection \<open>Enumerations and their strings\<close>

datatype show_value = XMPP_PRESENCE_CHAT | XMPP_PRESENCE_DEFAULT | XMPP_PRESENCE_AWAY
  | XMPP_PRESENCE_XA | XMPP_PRESENCE_DND

datatype subscription_state = XMPP_SUBSCRIPTION_NONE | XMPP_SUBSCRIPTION_NONE_ASKED
  | XMPP_SUBSCRIPTION_TO | XMPP_SUBSCRIPTION_FROM | XMPP_SUBSCRIPTION_FROM_ASKED
  | XMPP_SUBSCRIPTION_BOTH

datatype subscription_request = XMPP_REQUEST_SUBSCRIBE | XMPP_REQUEST_UNSUBSCRIBE
  | XMPP_REQUEST_SUBSCRIBED | XMPP_REQUEST_UNSUBSCRIBED

datatype presence_available = XMPP_PRESENCE_UNAVAILABLE | XMPP_PRESENCE_AVAILABLE | XMPP_PRESENCE_ERROR

datatype connection_status = XMPP_CONNECTION_STATUS_UNKNOWN | XMPP_CONNECTION_STATUS_CONNECTING
  | XMPP_CONNECTION_STATUS_CONNECTED | XMPP_CONNECTION_STATUS_HANGUP

definition StringToPresenceShow :: "string \<Rightarrow> show_value option" where
  "StringToPresenceShow input =
     (if STR_SHOW_AWAY = input then Some XMPP_PRESENCE_AWAY
      else if STR_SHOW_DND = input then Some XMPP_PRESENCE_DND
      else if STR_SHOW_XA = input then Some XMPP_PRESENCE_XA
      else if STR_SHOW_CHAT = input then Some XMPP_PRESENCE_CHAT
      else if [] = input then Some XMPP_PRESENCE_DEFAULT
      else None)"

fun PresenceShowToString :: "show_value \<Rightarrow> string" where
  "PresenceShowToString XMPP_PRESENCE_AWAY = STR_SHOW_AWAY"
| "PresenceShowToString XMPP_PRESENCE_CHAT = STR_SHOW_CHAT"
| "PresenceShowToString XMPP_PRESENCE_XA = STR_SHOW_XA"
| "PresenceShowToString XMPP_PRESENCE_DND = STR_SHOW_DND"
| "PresenceShowToString XMPP_PRESENCE_DEFAULT = []"

definition StringToSubscriptionState :: "string \<Rightarrow> string \<Rightarrow> subscription_state option" where
  "StringToSubscriptionState subscription ask =
     (if ask = ''subscribe'' then
        (if subscription = ''none'' then Some XMPP_SUBSCRIPTION_NONE_ASKED
         else if subscription = ''from'' then Some XMPP_SUBSCRIPTION_FROM_ASKED
         else None)
      else if ask = [] then
        (if subscription = ''none'' then Some XMPP_SUBSCRIPTION_NONE
         else if subscription = ''from'' then Some XMPP_SUBSCRIPTION_FROM
         else if subscription = ''to'' then Some XMPP_SUBSCRIPTION_TO
         else if subscription = ''both'' then Some XMPP_SUBSCRIPTION_BOTH
         else None)
      else None)"

definition StringToSubscriptionRequestType :: "string \<Rightarrow> subscription_request option" where
  "StringToSubscriptionRequestType s =
     (if s = ''subscribe'' then Some XMPP_REQUEST_SUBSCRIBE
      else if s = ''unsubscribe'' then Some XMPP_REQUEST_UNSUBSCRIBE
      else if s = ''subscribed'' then Some XMPP_REQUEST_SUBSCRIBED
      else if s = ''unsubscribed'' then Some XMPP_REQUEST_UNSUBSCRIBED
      else None)"

subsection \<open>The fields\<close>

type_synonym presence = "xml_element option"

definition presence_skeleton :: "presence \<Rightarrow> xml_element" where
  "presence_skeleton p = (case p of None \<Rightarrow> new_element QN_PRESENCE | Some e \<Rightarrow> e)"

definition presence_jid :: "presence \<Rightarrow> jid" where
  "presence_jid p = (case p of None \<Rightarrow> Jid_empty | Some e \<Rightarrow> Jid_of_string (Attr e QN_FROM))"

definition available :: "presence \<Rightarrow> presence_available" where
  "available p =
     (case p of None \<Rightarrow> XMPP_PRESENCE_UNAVAILABLE
      | Some e \<Rightarrow>
          (if Attr e QN_TYPE = ''unavailable'' then XMPP_PRESENCE_UNAVAILABLE
           else if Attr e QN_TYPE = ''error'' then XMPP_PRESENCE_ERROR
           else XMPP_PRESENCE_AVAILABLE))"

definition set_available :: "presence_available \<Rightarrow> presence \<Rightarrow> return_status \<times> presence" where
  "set_available a p =
     (let e = presence_skeleton p in
      (XMPP_RETURN_OK,
       Some (case a of
               XMPP_PRESENCE_AVAILABLE \<Rightarrow> ClearAttr e QN_TYPE
             | XMPP_PRESENCE_UNAVAILABLE \<Rightarrow> SetAttr e QN_TYPE ''unavailable''
             | XMPP_PRESENCE_ERROR \<Rightarrow> SetAttr e QN_TYPE ''error'')))"

definition presence_show :: "presence \<Rightarrow> show_value" where
  "presence_show p =
     (case p of None \<Rightarrow> XMPP_PRESENCE_DEFAULT
      | Some e \<Rightarrow>
          (case StringToPresenceShow (TextNamed e QN_SHOW) of
             None \<Rightarrow> XMPP_PRESENCE_DEFAULT
           | Some s \<Rightarrow> s))"

definition set_presence_show :: "show_value \<Rightarrow> presence \<Rightarrow> (return_status \<times> presence) option" where
  "set_presence_show s p =
     (let show_string = PresenceShowToString s;
          e = ClearNamedChildren (presence_skeleton p) QN_SHOW in
      if s \<noteq> XMPP_PRESENCE_DEFAULT
      then map_option (\<lambda>e1. (XMPP_RETURN_OK, Some e1))
             (AddText_depth (AddElement e (Some (new_element QN_SHOW))) show_string 1)
      else Some (XMPP_RETURN_OK, Some e))"

definition priority :: "presence \<Rightarrow> int" where
  "priority p =
     (case p of None \<Rightarrow> 0
      | Some e \<Rightarrow>
          (let raw = (case int_FromString (TextNamed e QN_PRIORITY) of None \<Rightarrow> 0 | Some n \<Rightarrow> n);
               raw1 = (if raw < - 128 then - 128 else raw) in
           if raw1 > 127 then 127 else raw1))"

definition set_priority :: "int \<Rightarrow> presence \<Rightarrow> (return_status \<times> presence) option" where
  "set_priority n p =
     (let e = presence_skeleton p in
      if n < - 128 \<or> n > 127 then Some (XMPP_RETURN_BADARGUMENT, Some e)
      else let e1 = ClearNamedChildren e QN_PRIORITY in
        if 0 \<noteq> n
        then map_option (\<lambda>e2. (XMPP_RETURN_OK, Some e2))
               (AddText_depth (AddElement e1 (Some (new_element QN_PRIORITY))) (int_ToString n) 1)
        else Some (XMPP_RETURN_OK, Some e1))"

text \<open>The loop of \<open>status\<close> over the status elements.\<close>

fun status_loop :: "xml_element list \<Rightarrow> xml_element option" where
  "status_loop [] = None"
| "status_loop (element # rest) =
     (if \<not> HasAttr element QN_XML_LANG then Some element else status_loop rest)"

definition presence_status :: "presence \<Rightarrow> string" where
  "presence_status p =
     (case p of None \<Rightarrow> []
      | Some e \<Rightarrow>
          (case status_loop (named_elements QN_STATUS (elt_children e)) of
             Some element \<Rightarrow> BodyText element
           | None \<Rightarrow> (case FirstNamed e QN_STATUS of None \<Rightarrow> [] | Some element \<Rightarrow> BodyText element)))"

definition set_status :: "string \<Rightarrow> presence \<Rightarrow> (return_status \<times> presence) option" where
  "set_status s p =
     (let e = ClearNamedChildren (presence_skeleton p) QN_STATUS in
      if s \<noteq> []
      then map_option (\<lambda>e1. (XMPP_RETURN_OK, Some e1))
             (AddText_depth (AddElement e (Some (new_element QN_STATUS))) s 1)
      else Some (XMPP_RETURN_OK, Some e))"

definition presence_connection_status :: "presence \<Rightarrow> connection_status" where
  "presence_connection_status p =
     (case p of None \<Rightarrow> XMPP_CONNECTION_STATUS_UNKNOWN
      | Some e \<Rightarrow>
          (case FirstNamed e QN_GOOGLE_PSTN_CONFERENCE_STATUS of
             None \<Rightarrow> XMPP_CONNECTION_STATUS_CONNECTED
           | Some con \<Rightarrow>
               (let s = Attr con QN_ATTR_STATUS in
                if s = STR_PSTN_CONFERENCE_STATUS_CONNECTING then XMPP_CONNECTION_STATUS_CONNECTING
                else if s = STR_PSTN_CONFERENCE_STATUS_CONNECTED then XMPP_CONNECTION_STATUS_CONNECTED
                else if s = STR_PSTN_CONFERENCE_STATUS_HANGUP then XMPP_CONNECTION_STATUS_HANGUP
                else XMPP_CONNECTION_STATUS_CONNECTED)))"

definition google_user_id :: "presence \<Rightarrow> string" where
  "google_user_id p =
     (case p of None \<Rightarrow> []
      | Some e \<Rightarrow>
          (case FirstNamed e QN_MUC_USER_X of None \<Rightarrow> []
           | Some muc_user_x \<Rightarrow>
               (case FirstNamed muc_user_x QN_MUC_USER_ITEM of None \<Rightarrow> []
                | Some muc_user_item \<Rightarrow> Attr muc_user_item QN_GOOGLE_USER_ID)))"

definition presence_nickname :: "presence \<Rightarrow> string" where
  "presence_nickname p =
     (case p of None \<Rightarrow> []
      | Some e \<Rightarrow> (case FirstNamed e QN_NICKNAME of None \<Rightarrow> [] | Some n \<Rightarrow> BodyText n))"

text \<open>\<open>raw_xml\<close> creates the stanza when there is none.\<close>

definition presence_raw_xml :: "presence \<Rightarrow> xml_element \<times> presence" where
  "presence_raw_xml p = (let e = presence_skeleton p in (e, Some e))"

definition presence_set_raw_xml :: "xml_element option \<Rightarrow> presence \<Rightarrow> return_status \<times> presence" where
  "presence_set_raw_xml xml p =
     (case xml of None \<Rightarrow> (XMPP_RETURN_BADARGUMENT, p)
      | Some e \<Rightarrow>
          (if elt_name e \<noteq> QN_PRESENCE then (XMPP_RETURN_BADARGUMENT, p)
           else (XMPP_RETURN_OK, Some (copy_element e))))"

subsection \<open>A field kept in a child element\<close>

text \<open>All three setters of child elements put one text under a name.\<close>

definition put_text :: "qname \<Rightarrow> string \<Rightarrow> xml_element \<Rightarrow> xml_element" where
  "put_text n t e =
     (let e1 = ClearNamedChildren e n in
      if t = [] then e1 else AddElement e1 (Some (AddText (new_element n) t)))"

lemma put_text_depth:
  "t \<noteq> [] \<Longrightarrow> AddText_depth (AddElement (ClearNamedChildren e n) (Some (new_element n))) t 1 = Some (put_text n t e)"
  by (simp add: AddText_depth_def put_text_def Let_def AddElement_def with_children_def)

lemma put_text_attrs [simp]: "elt_attrs (put_text n t e) = elt_attrs e" "elt_name (put_text n t e) = elt_name e"
  "Attr (put_text n t e) a = Attr e a"
  by (simp_all add: put_text_def ClearNamedChildren_def Let_def Attr_def)

lemma put_text_elements:
  "named_elements m (elt_children (put_text n t e)) =
     (if m = n then (if t = [] then [] else [AddText (new_element n) t]) else named_elements m (elt_children e))"
proof -
  have *: "filter (\<lambda>c. elt_name c = m) (elements_of (filter (\<lambda>c. \<not> is_named n c) cs)) =
      (if m = n then [] else filter (\<lambda>c. elt_name c = m) (elements_of cs))" for cs
    by (induction cs rule: elements_of.induct) auto
  then show ?thesis
    by (simp add: named_elements_filter put_text_def Let_def ClearNamedChildren_def clear_named_loop_filter *
        elements_of_not_named)
qed

lemma FirstNamed_named: "FirstNamed e n = (case named_elements n (elt_children e) of [] \<Rightarrow> None | c # _ \<Rightarrow> Some c)"
  by (simp add: FirstNamed_filter named_elements_filter)

lemma put_text_First [simp]:
  "m \<noteq> n \<Longrightarrow> FirstNamed (put_text n t e) m = FirstNamed e m"
  by (simp add: FirstNamed_named put_text_elements)

lemma put_text_Text: "TextNamed (put_text n t e) m = (if m = n then t else TextNamed e m)"
  by (auto simp: TextNamed_def FirstNamed_named put_text_elements BodyText_def append_text_def)

lemma show_string: "StringToPresenceShow (PresenceShowToString s) = Some s"
  by (cases s) (simp_all add: StringToPresenceShow_def xmpp_names)

lemma show_string_empty: "PresenceShowToString s = [] \<longleftrightarrow> s = XMPP_PRESENCE_DEFAULT"
  by (cases s) (simp_all add: xmpp_names)

subsection \<open>Properties\<close>

text \<open>What a reader of the object sees.\<close>

record presence_view =
  pv_jid :: jid
  pv_available :: presence_available
  pv_show :: show_value
  pv_priority :: int
  pv_status :: string
  pv_connection :: connection_status
  pv_user_id :: string
  pv_nickname :: string

definition view_presence :: "presence \<Rightarrow> presence_view" where
  "view_presence p =
     \<lparr>pv_jid = presence_jid p, pv_available = available p, pv_show = presence_show p, pv_priority = priority p,
      pv_status = presence_status p, pv_connection = presence_connection_status p, pv_user_id = google_user_id p,
      pv_nickname = presence_nickname p\<rparr>"

lemmas presence_readers = view_presence_def presence_jid_def available_def presence_show_def priority_def
  presence_status_def presence_connection_status_def google_user_id_def presence_nickname_def

lemma put_text_status: "presence_status (Some (put_text n t e)) = (if n = QN_STATUS then t else presence_status (Some e))"
proof -
  have "\<not> HasAttr (AddText (new_element QN_STATUS) t) QN_XML_LANG" by (simp add: HasAttr_def)
  then show ?thesis
    by (auto simp: presence_status_def put_text_elements FirstNamed_named BodyText_def append_text_def
        split: option.split list.split)
qed

lemma presence_names:
  "QN_SHOW \<noteq> QN_PRIORITY" "QN_STATUS \<noteq> QN_SHOW" "QN_STATUS \<noteq> QN_PRIORITY" "QN_TYPE \<noteq> QN_FROM"
  "QN_MUC_USER_X \<noteq> QN_SHOW" "QN_MUC_USER_X \<noteq> QN_PRIORITY" "QN_MUC_USER_X \<noteq> QN_STATUS"
  "QN_NICKNAME \<noteq> QN_SHOW" "QN_NICKNAME \<noteq> QN_PRIORITY" "QN_NICKNAME \<noteq> QN_STATUS"
  "QN_GOOGLE_PSTN_CONFERENCE_STATUS \<noteq> QN_SHOW" "QN_GOOGLE_PSTN_CONFERENCE_STATUS \<noteq> QN_PRIORITY"
  "QN_GOOGLE_PSTN_CONFERENCE_STATUS \<noteq> QN_STATUS"
  by (simp_all add: xmpp_names qname_consts)

lemma Attr_ClearAttr:
  "distinct (map fst (elt_attrs e)) \<Longrightarrow> Attr (ClearAttr e n) m = (if n = m then [] else Attr e m)"
  by (simp add: Attr_def ClearAttr_def attrs.get_clear)

lemma put_text_view:
  "view_presence (Some (put_text QN_SHOW (PresenceShowToString s) e)) = (view_presence (Some e))\<lparr>pv_show := s\<rparr>"
  "view_presence (Some (put_text QN_STATUS t e)) = (view_presence (Some e))\<lparr>pv_status := t\<rparr>"
  "view_presence (Some (put_text QN_PRIORITY [] e)) = (view_presence (Some e))\<lparr>pv_priority := 0\<rparr>"
  "- 128 \<le> k \<Longrightarrow> k \<le> 127 \<Longrightarrow>
   view_presence (Some (put_text QN_PRIORITY (int_ToString k) e)) = (view_presence (Some e))\<lparr>pv_priority := k\<rparr>"
  using presence_names int_string_roundtrip [of k]
  by (simp_all add: view_presence_def put_text_status)
    (simp_all add: presence_jid_def available_def presence_show_def priority_def presence_connection_status_def
      google_user_id_def presence_nickname_def put_text_Text show_string)

text \<open>Each setter changes the field it is for and no other, on any object: a field that is
  set is read back as it was set, a priority outside the range is refused and changes nothing, and
  setting never fails otherwise. An object without a stanza counts as unavailable, but the first
  setter creates the empty stanza, which counts as available.\<close>

theorem presence_fields_independent:
  assumes "distinct (map fst (elt_attrs (presence_skeleton p)))"
  shows "(\<exists>p1. set_presence_show s p = Some (XMPP_RETURN_OK, p1) \<and>
       view_presence p1 = (view_presence (Some (presence_skeleton p)))\<lparr>pv_show := s\<rparr>)
   \<and> (\<exists>p1. set_status t p = Some (XMPP_RETURN_OK, p1) \<and>
       view_presence p1 = (view_presence (Some (presence_skeleton p)))\<lparr>pv_status := t\<rparr>)
   \<and> (\<exists>r p1. set_priority k p = Some (r, p1) \<and>
       (if -128 \<le> k \<and> k \<le> 127
        then r = XMPP_RETURN_OK \<and> view_presence p1 = (view_presence (Some (presence_skeleton p)))\<lparr>pv_priority := k\<rparr>
        else r = XMPP_RETURN_BADARGUMENT \<and> p1 = Some (presence_skeleton p)))
   \<and> (\<exists>p1. set_available a p = (XMPP_RETURN_OK, p1) \<and>
       view_presence p1 = (view_presence (Some (presence_skeleton p)))\<lparr>pv_available := a\<rparr>)"
proof -
  let ?e = "presence_skeleton p"
  have show_is: "set_presence_show s p = Some (XMPP_RETURN_OK, Some (put_text QN_SHOW (PresenceShowToString s) ?e))"
    using put_text_depth [of "PresenceShowToString s" ?e QN_SHOW] show_string_empty [of s]
    by (simp add: set_presence_show_def Let_def) (simp add: put_text_def)
  have status_is: "set_status t p = Some (XMPP_RETURN_OK, Some (put_text QN_STATUS t ?e))"
    using put_text_depth [of t ?e QN_STATUS]
    by (simp add: set_status_def Let_def) (simp add: put_text_def)
  have priority_is: "set_priority k p =
      Some (if k < -128 \<or> k > 127 then (XMPP_RETURN_BADARGUMENT, Some ?e)
            else (XMPP_RETURN_OK, Some (put_text QN_PRIORITY (if k = 0 then [] else int_ToString k) ?e)))"
    using put_text_depth [of "int_ToString k" ?e QN_PRIORITY]
    by (simp add: set_priority_def Let_def int_ToString_def) (simp add: put_text_def)
  have available_is: "view_presence (snd (set_available a p)) = (view_presence (Some ?e))\<lparr>pv_available := a\<rparr>"
    using assms presence_names
    by (cases a) (simp_all add: set_available_def view_presence_def presence_jid_def available_def presence_show_def
        priority_def presence_status_def presence_connection_status_def google_user_id_def presence_nickname_def
        Attr_SetAttr Attr_ClearAttr TextNamed_def FirstNamed_def split: option.split)
  show ?thesis
    using available_is put_text_view(1) [of s ?e] put_text_view(2) [of t ?e] put_text_view(3) [of ?e] put_text_view(4) [of k ?e]
    by (simp add: show_is status_is priority_is) (simp add: set_available_def Let_def)
qed

theorem presence_fields_independent_witness:
  "map_option (\<lambda>(r, p). (r, priority p, presence_show p)) (set_priority (-5) None) =
     Some (XMPP_RETURN_OK, -5, XMPP_PRESENCE_DEFAULT)"
proof -
  have "distinct (map fst (elt_attrs (presence_skeleton None)))" by (simp add: presence_skeleton_def)
  from presence_fields_independent [OF this, of XMPP_PRESENCE_AWAY "''gone''" "-5" XMPP_PRESENCE_AVAILABLE]
  obtain q where "set_priority (-5) None = Some (XMPP_RETURN_OK, q)"
    "view_presence q = (view_presence (Some (new_element QN_PRESENCE)))\<lparr>pv_priority := -5\<rparr>"
    by (auto simp: presence_skeleton_def)
  moreover have "presence_show (Some (new_element QN_PRESENCE)) = XMPP_PRESENCE_DEFAULT" by code_simp
  ultimately show ?thesis by (simp add: view_presence_def)
qed

end
