(* ===== verification/Contacts.thy ===== *)
theory Contacts
  imports Presence
begin

text \<open>
  A roster contact, \<open>XmppRosterContactImpl\<close> of \<open>talk/xmpp/rostermoduleimpl.cc\<close>: the roster item and
  a cache for walking its groups. The cached pointer \<open>group_returned_\<close> is the position of the
  group element among the children of the item, or None for null; a null dereference makes the
  result None. Assertions are compiled out, as in a release build.
\<close>

subsection \<open>The object\<close>

record contact =
  rc_group_count :: int
  rc_group_index :: int
  rc_group_returned :: "nat option"
  rc_xml :: "xml_element option"

definition ResetGroupCache :: "contact \<Rightarrow> contact" where
  "ResetGroupCache c = c\<lparr>rc_group_count := - 1, rc_group_index := - 1, rc_group_returned := None\<rparr>"

definition contact_init :: contact where
  "contact_init = \<lparr>rc_group_count = - 1, rc_group_index = - 1, rc_group_returned = None, rc_xml = None\<rparr>"

definition SetXmlFromWire :: "xml_element option \<Rightarrow> contact \<Rightarrow> contact" where
  "SetXmlFromWire xml c = (ResetGroupCache c)\<lparr>rc_xml := map_option copy_element xml\<rparr>"

definition contact_skeleton :: "contact \<Rightarrow> xml_element" where
  "contact_skeleton c = (case rc_xml c of None \<Rightarrow> new_element QN_ROSTER_ITEM | Some e \<Rightarrow> e)"

definition contact_jid :: "contact \<Rightarrow> jid option" where
  "contact_jid c = map_option (\<lambda>e. Jid_of_string (Attr e QN_JID)) (rc_xml c)"

definition set_jid :: "jid \<Rightarrow> contact \<Rightarrow> return_status \<times> contact" where
  "set_jid j c =
     (let e = contact_skeleton c in
      if \<not> Jid_IsValid j then (XMPP_RETURN_BADARGUMENT, c\<lparr>rc_xml := Some e\<rparr>)
      else (XMPP_RETURN_OK, c\<lparr>rc_xml := Some (SetAttr e QN_JID (Jid_Str j))\<rparr>))"

definition contact_name :: "contact \<Rightarrow> string option" where
  "contact_name c = map_option (\<lambda>e. Attr e QN_NAME) (rc_xml c)"

definition set_name :: "string \<Rightarrow> contact \<Rightarrow> return_status \<times> contact" where
  "set_name name c =
     (let e = contact_skeleton c in
      (XMPP_RETURN_OK,
       c\<lparr>rc_xml := Some (if name = [] then ClearAttr e QN_NAME else SetAttr e QN_NAME name)\<rparr>))"

definition contact_subscription_state :: "contact \<Rightarrow> subscription_state" where
  "contact_subscription_state c =
     (case rc_xml c of None \<Rightarrow> XMPP_SUBSCRIPTION_NONE
      | Some e \<Rightarrow>
          (case StringToSubscriptionState (Attr e QN_SUBSCRIPTION) (Attr e QN_ASK) of
             Some state \<Rightarrow> state
           | None \<Rightarrow> XMPP_SUBSCRIPTION_NONE))"

subsection \<open>Groups\<close>

text \<open>\<open>FirstNamed\<close> and \<open>NextNamed\<close> with the position of the element they find, from a position on.\<close>

definition named_at :: "qname \<Rightarrow> xml_child list \<Rightarrow> nat \<Rightarrow> nat option" where
  "named_at n cs i = find (\<lambda>k. is_named n (cs ! k)) [i..<length cs]"

definition child_text :: "xml_child list \<Rightarrow> nat \<Rightarrow> string" where
  "child_text cs i = (case AsElement (cs ! i) of None \<Rightarrow> [] | Some e \<Rightarrow> BodyText e)"

text \<open>The counting loop of \<open>GetGroupCount\<close>.\<close>

function count_groups :: "xml_child list \<Rightarrow> nat option \<Rightarrow> nat \<Rightarrow> nat" where
  "count_groups cs group_element group_count =
     (case group_element of None \<Rightarrow> group_count
      | Some i \<Rightarrow> count_groups cs (named_at QN_ROSTER_GROUP cs (i + 1)) (group_count + 1))"
  by pat_completeness auto

lemma named_at_Some:
  assumes "named_at n cs i = Some k"
  shows "i \<le> k" "k < length cs" "is_named n (cs ! k)" "\<forall>j. i \<le> j \<and> j < k \<longrightarrow> \<not> is_named n (cs ! j)"
proof -
  from assms obtain j where j: "j < length [i..<length cs]" "is_named n (cs ! ([i..<length cs] ! j))"
    "[i..<length cs] ! j = k" "\<forall>l<j. \<not> is_named n (cs ! ([i..<length cs] ! l))"
    unfolding named_at_def find_Some_iff by blast
  then show "i \<le> k" "k < length cs" "is_named n (cs ! k)" by auto
  show "\<forall>j. i \<le> j \<and> j < k \<longrightarrow> \<not> is_named n (cs ! j)"
  proof (intro allI impI)
    fix l assume l: "i \<le> l \<and> l < k"
    with j have "l - i < j" "[i..<length cs] ! (l - i) = l" by auto
    with j(4) show "\<not> is_named n (cs ! l)" by metis
  qed
qed

lemma named_at_next: "named_at n cs (Suc i) = Some k \<Longrightarrow> length cs - k < length cs - i"
  by (frule named_at_Some(1), drule named_at_Some(2), simp)

termination count_groups
  by (relation "measure (\<lambda>(cs, g, n). case g of None \<Rightarrow> 0 | Some i \<Rightarrow> Suc (length cs - i))")
    (auto split: option.split dest: named_at_next)

declare count_groups.simps [simp del]

definition GetGroupCount :: "contact \<Rightarrow> nat \<times> contact" where
  "GetGroupCount c =
     (case rc_xml c of None \<Rightarrow> (0, c)
      | Some e \<Rightarrow>
          (let c1 = (if - 1 = rc_group_count c
                     then c\<lparr>rc_group_count := int (count_groups (elt_children e) (named_at QN_ROSTER_GROUP (elt_children e) 0) 0)\<rparr>
                     else c) in
           (nat (rc_group_count c1), c1)))"

text \<open>The loop of \<open>GetGroup\<close> that walks to a group from the first.\<close>

fun walk_groups :: "xml_child list \<Rightarrow> nat \<Rightarrow> nat option \<Rightarrow> nat option option" where
  "walk_groups cs 0 group_element = Some group_element"
| "walk_groups cs (Suc n) group_element =
     (case group_element of None \<Rightarrow> None
      | Some i \<Rightarrow> walk_groups cs n (named_at QN_ROSTER_GROUP cs (i + 1)))"

definition GetGroup :: "nat \<Rightarrow> contact \<Rightarrow> (string \<times> contact) option" where
  "GetGroup index c0 =
     (let (count, c) = GetGroupCount c0 in
      if index \<ge> count then Some ([], c)
      else case rc_xml c of None \<Rightarrow> None
      | Some e \<Rightarrow>
        (let cs = elt_children e;
             next_cache =
               (if rc_group_index c \<ge> 0 \<and> int index = rc_group_index c + 1 then
                  (case rc_group_returned c of None \<Rightarrow> None
                   | Some i \<Rightarrow>
                       Some (c\<lparr>rc_group_returned := named_at QN_ROSTER_GROUP cs (i + 1),
                               rc_group_index := rc_group_index c + 1\<rparr>))
                else if rc_group_index c < 0 \<or> rc_group_index c \<noteq> int index then
                  (case walk_groups cs index (named_at QN_ROSTER_GROUP cs 0) of None \<Rightarrow> None
                   | Some g \<Rightarrow> Some (c\<lparr>rc_group_index := int index, rc_group_returned := g\<rparr>))
                else Some c) in
         case next_cache of None \<Rightarrow> None
         | Some c1 \<Rightarrow>
             (case rc_group_returned c1 of None \<Rightarrow> None | Some i \<Rightarrow> Some (child_text cs i, c1))))"

text \<open>\<open>FindGroup\<close>: the position of the group element and of the child before it.\<close>

fun find_group_loop :: "string \<Rightarrow> nat option \<Rightarrow> nat \<Rightarrow> xml_child list \<Rightarrow> (nat \<times> nat option) option" where
  "find_group_loop grp prev i [] = None"
| "find_group_loop grp prev i (child # rest) =
     (if is_named QN_ROSTER_GROUP child \<and>
         (case AsElement child of None \<Rightarrow> False | Some e \<Rightarrow> BodyText e = grp)
      then Some (i, prev)
      else find_group_loop grp (Some i) (i + 1) rest)"

definition FindGroup :: "string \<Rightarrow> xml_element \<Rightarrow> (nat \<times> nat option) option" where
  "FindGroup grp e = find_group_loop grp None 0 (elt_children e)"

definition AddGroup :: "string \<Rightarrow> contact \<Rightarrow> (return_status \<times> contact) option" where
  "AddGroup grp c =
     (if grp = [] then Some (XMPP_RETURN_BADARGUMENT, c)
      else let e = contact_skeleton c; c1 = c\<lparr>rc_xml := Some e\<rparr> in
        if FindGroup grp e \<noteq> None then Some (XMPP_RETURN_OK, c1)
        else map_option
               (\<lambda>e1. (XMPP_RETURN_OK, c1\<lparr>rc_xml := Some e1, rc_group_count := rc_group_count c + 1\<rparr>))
               (AddText_depth (AddElement e (Some (new_element QN_ROSTER_GROUP))) grp 1))"

definition RemoveGroup :: "string \<Rightarrow> contact \<Rightarrow> (return_status \<times> contact) option" where
  "RemoveGroup grp c =
     (if grp = [] then Some (XMPP_RETURN_BADARGUMENT, c)
      else case rc_xml c of None \<Rightarrow> Some (XMPP_RETURN_OK, c)
      | Some e \<Rightarrow>
          (case FindGroup grp e of None \<Rightarrow> Some (XMPP_RETURN_OK, c)
           | Some (i, child_before) \<Rightarrow>
               map_option (\<lambda>e1. (XMPP_RETURN_OK, ResetGroupCache (c\<lparr>rc_xml := Some e1\<rparr>)))
                 (RemoveChildAfter e child_before)))"

definition contact_raw_xml :: "contact \<Rightarrow> xml_element \<times> contact" where
  "contact_raw_xml c = (let e = contact_skeleton c in (e, c\<lparr>rc_xml := Some e\<rparr>))"

definition contact_set_raw_xml :: "xml_element option \<Rightarrow> contact \<Rightarrow> return_status \<times> contact" where
  "contact_set_raw_xml xml c =
     (case xml of None \<Rightarrow> (XMPP_RETURN_BADARGUMENT, c)
      | Some e \<Rightarrow>
          (if elt_name e \<noteq> QN_ROSTER_ITEM \<or> HasAttr e QN_SUBSCRIPTION \<or> HasAttr e QN_ASK
           then (XMPP_RETURN_BADARGUMENT, c)
           else (XMPP_RETURN_OK, (ResetGroupCache c)\<lparr>rc_xml := Some (copy_element e)\<rparr>)))"

subsection \<open>The groups of a contact\<close>

text \<open>The positions of the group elements, and their texts.\<close>

definition group_places :: "xml_child list \<Rightarrow> nat list" where
  "group_places cs = filter (\<lambda>k. is_named QN_ROSTER_GROUP (cs ! k)) [0..<length cs]"

definition groups_of :: "contact \<Rightarrow> string list" where
  "groups_of c = (case rc_xml c of None \<Rightarrow> []
     | Some e \<Rightarrow> map (child_text (elt_children e)) (group_places (elt_children e)))"

lemma find_filter: "find P xs = (case filter P xs of [] \<Rightarrow> None | x # _ \<Rightarrow> Some x)"
  by (induction xs) auto

lemma filter_from_split:
  assumes "filter P [i..<m] = k # ks"
  shows "filter P [Suc k..<m] = ks"
proof -
  from assms obtain us vs where s: "[i..<m] = us @ k # vs" "\<forall>u\<in>set us. \<not> P u" "P k" "ks = filter P vs"
    by (auto simp: filter_eq_Cons_iff)
  have "vs = drop (Suc (length us)) [i..<m]" using s(1) by simp
  also have "\<dots> = [i + Suc (length us)..<m]" by simp
  finally have "vs = [i + Suc (length us)..<m]" .
  moreover have "k = i + length us"
    using arg_cong [OF s(1), of "\<lambda>xs. xs ! length us"] arg_cong [OF s(1), of length]
    by (simp add: nth_upt)
  ultimately show ?thesis using s(4) by simp
qed

lemma named_at_places:
  "named_at QN_ROSTER_GROUP cs i =
     (case filter (\<lambda>k. is_named QN_ROSTER_GROUP (cs ! k)) [i..<length cs] of [] \<Rightarrow> None | k # _ \<Rightarrow> Some k)"
  by (simp add: named_at_def find_filter)

lemma named_at_first:
  "named_at QN_ROSTER_GROUP cs 0 = (if group_places cs = [] then None else Some (group_places cs ! 0))"
  by (simp add: named_at_places group_places_def split: list.split)

lemma filter_from_nth:
  assumes "i < length (filter P [a..<m])"
  shows "filter P [Suc (filter P [a..<m] ! i)..<m] = drop (Suc i) (filter P [a..<m])"
  using assms
proof (induction i arbitrary: a)
  case 0
  then obtain k ks where k: "filter P [a..<m] = k # ks" by (cases "filter P [a..<m]") auto
  from filter_from_split [OF k] k show ?case by simp
next
  case (Suc i)
  then obtain k ks where k: "filter P [a..<m] = k # ks" by (cases "filter P [a..<m]") auto
  note s = filter_from_split [OF k]
  with Suc.prems k have "i < length (filter P [Suc k..<m])" by simp
  from Suc.IH [OF this] show ?case by (simp add: k s)
qed

lemma named_at_place:
  assumes "i < length (group_places cs)"
  shows "named_at QN_ROSTER_GROUP cs (group_places cs ! i + 1) =
    (if Suc i < length (group_places cs) then Some (group_places cs ! Suc i) else None)"
proof -
  have "filter (\<lambda>k. is_named QN_ROSTER_GROUP (cs ! k)) [group_places cs ! i + 1..<length cs] = drop (Suc i) (group_places cs)"
    using assms filter_from_nth [of i "\<lambda>k. is_named QN_ROSTER_GROUP (cs ! k)" 0 "length cs"]
    by (simp add: group_places_def)
  then show ?thesis
    by (cases "Suc i < length (group_places cs)") (auto simp: named_at_places Cons_nth_drop_Suc [symmetric])
qed

lemma count_groups_places:
  assumes "i \<le> length (group_places cs)"
  shows "count_groups cs (if i < length (group_places cs) then Some (group_places cs ! i) else None) n
    = n + (length (group_places cs) - i)"
  using assms
proof (induction "length (group_places cs) - i" arbitrary: i n)
  case (Suc d)
  then have i: "i < length (group_places cs)" by simp
  have "d = length (group_places cs) - Suc i" "Suc i \<le> length (group_places cs)" using Suc.hyps(2) by simp_all
  note IH = Suc.hyps(1) [OF this, of "Suc n"]
  show ?case
    using IH i named_at_place [OF i] by (subst count_groups.simps) simp
qed (simp add: count_groups.simps)

lemma walk_groups_places:
  assumes "i + n < length (group_places cs)"
  shows "walk_groups cs n (Some (group_places cs ! i)) = Some (Some (group_places cs ! (i + n)))"
  using assms
proof (induction n arbitrary: i)
  case (Suc n)
  then have "walk_groups cs n (Some (group_places cs ! Suc i)) = Some (Some (group_places cs ! (Suc i + n)))" by simp
  with Suc.prems named_at_place [of i cs] show ?case by simp
qed simp

subsection \<open>The cache\<close>

definition cache_ok :: "contact \<Rightarrow> bool" where
  "cache_ok c \<longleftrightarrow>
     (rc_group_count c = - 1 \<or> rc_group_count c = int (length (groups_of c))) \<and>
     (rc_group_index c < 0 \<or>
      (case rc_xml c of None \<Rightarrow> False
       | Some e \<Rightarrow>
           nat (rc_group_index c) < length (group_places (elt_children e)) \<and>
           rc_group_returned c = Some (group_places (elt_children e) ! nat (rc_group_index c))))"

lemma cache_ok_reset: "rc_group_count c = - 1 \<Longrightarrow> rc_group_index c = - 1 \<Longrightarrow> cache_ok c"
  by (simp add: cache_ok_def)

lemma GetGroupCount_ok:
  assumes "cache_ok c"
  shows "GetGroupCount c = (length (groups_of c), snd (GetGroupCount c))"
    and "cache_ok (snd (GetGroupCount c)) \<and> groups_of (snd (GetGroupCount c)) = groups_of c"
    and "rc_xml (snd (GetGroupCount c)) = rc_xml c"
proof -
  have count: "count_groups cs (named_at QN_ROSTER_GROUP cs 0) 0 = length (group_places cs)" for cs
    using count_groups_places [of 0 cs 0] by (cases "group_places cs = []") (simp_all add: named_at_first)
  show "GetGroupCount c = (length (groups_of c), snd (GetGroupCount c))"
    using assms by (auto simp: GetGroupCount_def groups_of_def cache_ok_def count Let_def split: option.splits)
  show "cache_ok (snd (GetGroupCount c)) \<and> groups_of (snd (GetGroupCount c)) = groups_of c"
    "rc_xml (snd (GetGroupCount c)) = rc_xml c"
    using assms by (auto simp: GetGroupCount_def groups_of_def cache_ok_def count Let_def split: option.splits)
qed

lemma GetGroup_ok:
  assumes "cache_ok c"
  shows "\<exists>c'. GetGroup i c = Some (if i < length (groups_of c) then groups_of c ! i else [], c') \<and>
    cache_ok c' \<and> groups_of c' = groups_of c"
proof -
  define c1 where "c1 = snd (GetGroupCount c)"
  note count = GetGroupCount_ok [OF assms, folded c1_def]
  show ?thesis
  proof (cases "i < length (groups_of c)")
    case False
    with count show ?thesis by (simp add: GetGroup_def)
  next
    case True
    then obtain e where e: "rc_xml c1 = Some e" using count(3) by (auto simp: groups_of_def split: option.splits)
    let ?cs = "elt_children e"
    have i: "i < length (group_places ?cs)" and t: "groups_of c ! i = child_text ?cs (group_places ?cs ! i)"
      and len: "length (groups_of c) = length (group_places ?cs)"
      using True e count(3) by (auto simp: groups_of_def)
    have from_first: "walk_groups ?cs i (named_at QN_ROSTER_GROUP ?cs 0) = Some (Some (group_places ?cs ! i))"
      using i walk_groups_places [of 0 i ?cs] by (cases "group_places ?cs = []") (simp_all add: named_at_first)
    have returned: "rc_group_returned c1 = Some (group_places ?cs ! nat (rc_group_index c1))" if "0 \<le> rc_group_index c1"
      using count(2) that e by (simp add: cache_ok_def)
    have from_last: "named_at QN_ROSTER_GROUP ?cs (group_places ?cs ! nat (rc_group_index c1) + 1) = Some (group_places ?cs ! i)"
      if "0 \<le> rc_group_index c1" "int i = rc_group_index c1 + 1"
    proof -
      have "nat (rc_group_index c1) < length (group_places ?cs)" "Suc (nat (rc_group_index c1)) = i"
        using that i by linarith+
      with i named_at_place [of "nat (rc_group_index c1)" ?cs] show ?thesis by simp
    qed
    let ?c' = "c1\<lparr>rc_group_index := int i, rc_group_returned := Some (group_places ?cs ! i)\<rparr>"
    have "GetGroup i c = Some (groups_of c ! i, ?c')"
    proof -
      consider (onward) "0 \<le> rc_group_index c1" "int i = rc_group_index c1 + 1"
        | (same) "rc_group_index c1 = int i"
        | (first) "\<not> (0 \<le> rc_group_index c1 \<and> int i = rc_group_index c1 + 1)" "rc_group_index c1 \<noteq> int i"
        by linarith
      then show ?thesis
      proof cases
        case onward
        with True count(1) e returned from_last show ?thesis by (simp add: GetGroup_def t Let_def)
      next
        case same
        with True count(1) e returned show ?thesis by (simp add: GetGroup_def t Let_def)
      next
        case first
        with True count(1) e from_first show ?thesis by (auto simp: GetGroup_def t Let_def)
      qed
    qed
    moreover have "cache_ok ?c' \<and> groups_of ?c' = groups_of c"
    proof -
      have "rc_xml c = Some e" using e count(3) by simp
      with count(2) e i show ?thesis by (simp add: cache_ok_def groups_of_def)
    qed
    ultimately show ?thesis using True by auto
  qed
qed

subsection \<open>Adding and removing\<close>

fun text_of :: "xml_child \<Rightarrow> string" where
  "text_of (XmlText t) = []"
| "text_of (XmlElem e) = BodyText e"

lemma groups_filter:
  "groups_of c = (case rc_xml c of None \<Rightarrow> []
     | Some e \<Rightarrow> map text_of (filter (is_named QN_ROSTER_GROUP) (elt_children e)))"
proof -
  have "map (child_text cs) (group_places cs) = map text_of (filter (is_named QN_ROSTER_GROUP) cs)" for cs
  proof -
    have "child_text cs k = text_of (cs ! k)" for k
      by (cases "cs ! k") (simp_all add: child_text_def)
    then have "map (child_text cs) (group_places cs) =
        map text_of (map ((!) cs) (filter (is_named QN_ROSTER_GROUP \<circ> (!) cs) [0..<length cs]))"
      by (simp add: group_places_def comp_def)
    also have "\<dots> = map text_of (filter (is_named QN_ROSTER_GROUP) (map ((!) cs) [0..<length cs]))"
      by (simp only: filter_map)
    finally show ?thesis by (simp add: map_nth)
  qed
  then show ?thesis by (simp add: groups_of_def split: option.split)
qed

lemma find_group_match:
  "is_named QN_ROSTER_GROUP child \<and> (case AsElement child of None \<Rightarrow> False | Some e \<Rightarrow> BodyText e = g) \<longleftrightarrow>
   is_named QN_ROSTER_GROUP child \<and> text_of child = g"
  by (cases child) auto

lemma find_group_None:
  "find_group_loop g prev i cs = None \<longleftrightarrow> g \<notin> set (map text_of (filter (is_named QN_ROSTER_GROUP) cs))"
  by (induction cs arbitrary: prev i) (auto simp: find_group_match split: if_splits)

lemma find_group_Some:
  "find_group_loop g prev i cs = Some (k, p) \<Longrightarrow>
   \<exists>us c vs. cs = us @ c # vs \<and> k = i + length us \<and> p = (if us = [] then prev else Some (k - 1)) \<and>
     is_named QN_ROSTER_GROUP c \<and> text_of c = g \<and> g \<notin> set (map text_of (filter (is_named QN_ROSTER_GROUP) us))"
proof (induction cs arbitrary: prev i)
  case (Cons c cs)
  show ?case
  proof (cases "is_named QN_ROSTER_GROUP c \<and> text_of c = g")
    case True
    with Cons.prems have "k = i" "p = prev" by (cases c; simp)+
    with True show ?thesis by (intro exI [of _ "[]"] exI [of _ c] exI [of _ cs]) simp
  next
    case False
    with Cons.prems have "find_group_loop g (Some i) (i + 1) cs = Some (k, p)" by (cases c) auto
    from Cons.IH [OF this] obtain us c' vs where "cs = us @ c' # vs" "k = i + 1 + length us"
      "p = (if us = [] then Some i else Some (k - 1))" "is_named QN_ROSTER_GROUP c'" "text_of c' = g"
      "g \<notin> set (map text_of (filter (is_named QN_ROSTER_GROUP) us))" by auto
    with False show ?thesis by (intro exI [of _ "c # us"] exI [of _ c'] exI [of _ vs]) auto
  qed
qed simp

lemma group_places_snoc:
  "group_places (cs @ [x]) = group_places cs @ (if is_named QN_ROSTER_GROUP x then [length cs] else [])"
proof -
  have "filter (\<lambda>k. is_named QN_ROSTER_GROUP ((cs @ [x]) ! k)) [0..<length cs] = group_places cs"
    unfolding group_places_def by (rule filter_cong) (auto simp: nth_append)
  then show ?thesis by (simp add: group_places_def)
qed

lemma AddGroup_ok:
  assumes "g \<noteq> []" "cache_ok c"
  shows "\<exists>c'. AddGroup g c = Some (XMPP_RETURN_OK, c') \<and>
    groups_of c' = (if g \<in> set (groups_of c) then groups_of c else groups_of c @ [g]) \<and>
    rc_group_count c' = (if g \<in> set (groups_of c) then rc_group_count c else rc_group_count c + 1) \<and>
    (rc_group_count c \<noteq> - 1 \<or> g \<in> set (groups_of c) \<longrightarrow> cache_ok c')"
proof (cases "g \<in> set (groups_of c)")
  case True
  then obtain e where e: "rc_xml c = Some e" by (cases "rc_xml c") (simp_all add: groups_filter)
  then have "FindGroup g e \<noteq> None"
    using True by (simp only: FindGroup_def find_group_None groups_filter option.case simp_thms not_not)
  then have "AddGroup g c = Some (XMPP_RETURN_OK, c\<lparr>rc_xml := Some e\<rparr>)"
    using assms e by (auto simp: AddGroup_def contact_skeleton_def Let_def)
  moreover have same: "c\<lparr>rc_xml := Some e\<rparr> = c" using e by (cases c) simp
  ultimately have "AddGroup g c = Some (XMPP_RETURN_OK, c)" unfolding same by simp
  with True assms show ?thesis by auto
next
  case False
  let ?e = "contact_skeleton c"
  let ?new = "XmlElem (AddText (new_element QN_ROSTER_GROUP) g)"
  let ?e' = "with_children ?e (elt_children ?e @ [?new])"
  let ?c' = "c\<lparr>rc_xml := Some ?e', rc_group_count := rc_group_count c + 1\<rparr>"
  have g: "groups_of c = map text_of (filter (is_named QN_ROSTER_GROUP) (elt_children ?e))"
    by (simp add: groups_filter contact_skeleton_def split: option.split)
  with False have "FindGroup g ?e = None" by (simp add: FindGroup_def find_group_None)
  moreover have "AddText_depth (AddElement ?e (Some (new_element QN_ROSTER_GROUP))) g 1 = Some ?e'"
    by (simp add: AddText_depth_def AddElement_def with_children_def)
  ultimately have "AddGroup g c = Some (XMPP_RETURN_OK, ?c')"
    using assms by (simp add: AddGroup_def Let_def)
  moreover have groups: "groups_of ?c' = groups_of c @ [g]"
    using assms by (simp add: groups_filter [of ?c'] g BodyText_def append_text_def)
  moreover have "cache_ok ?c'" if "rc_group_count c \<noteq> - 1"
  proof -
    have "rc_group_count c = int (length (groups_of c))" using that assms(2) by (simp add: cache_ok_def)
    moreover have "length (groups_of ?c') = length (groups_of c) + 1" unfolding groups by simp
    ultimately have "rc_group_count ?c' = int (length (groups_of ?c'))" by (simp only: contact.simps) simp
    moreover have "rc_group_index c < 0 \<or> nat (rc_group_index c) < length (group_places (elt_children ?e)) \<and>
        rc_group_returned c = Some (group_places (elt_children ?e) ! nat (rc_group_index c))"
      using assms(2) by (auto simp: cache_ok_def contact_skeleton_def split: option.splits)
    ultimately show ?thesis by (auto simp: cache_ok_def group_places_snoc nth_append)
  qed
  ultimately show ?thesis using False by auto
qed

lemma RemoveGroup_ok:
  assumes "g \<noteq> []" "cache_ok c"
  shows "\<exists>c'. RemoveGroup g c = Some (XMPP_RETURN_OK, c') \<and> groups_of c' = remove1 g (groups_of c) \<and> cache_ok c'"
proof (cases "rc_xml c")
  case None
  with assms show ?thesis by (simp add: RemoveGroup_def groups_filter)
next
  case (Some e)
  show ?thesis
  proof (cases "FindGroup g e")
    case None
    then have "g \<notin> set (groups_of c)" using Some by (simp add: groups_filter FindGroup_def find_group_None)
    with assms Some None show ?thesis by (simp add: RemoveGroup_def remove1_idem)
  next
    case found: (Some kp)
    obtain k p where kp: "kp = (k, p)" by (cases kp)
    from find_group_Some [OF found [unfolded FindGroup_def kp]]
    obtain us ch vs where split: "elt_children e = us @ ch # vs" "k = length us"
      "p = (if us = [] then None else Some (length us - 1))"
      "is_named QN_ROSTER_GROUP ch" "text_of ch = g" "g \<notin> set (map text_of (filter (is_named QN_ROSTER_GROUP) us))"
      by auto
    let ?c' = "ResetGroupCache (c\<lparr>rc_xml := Some (with_children e (us @ vs))\<rparr>)"
    have "RemoveChildAfter e p = Some (with_children e (us @ vs))"
      using split by (auto simp: RemoveChildAfter_def)
    then have "RemoveGroup g c = Some (XMPP_RETURN_OK, ?c')"
      using assms Some found kp by (simp add: RemoveGroup_def)
    moreover have "groups_of ?c' = remove1 g (groups_of c)"
      using Some split by (auto simp: groups_filter ResetGroupCache_def remove1_append)
    moreover have "cache_ok ?c'" by (simp add: cache_ok_def ResetGroupCache_def)
    ultimately show ?thesis by blast
  qed
qed

subsection \<open>Properties\<close>

text \<open>C36: the cached walk through the groups is the list of groups. In every contact whose cache is in
  order, as it is after construction and after the item is set, \<open>GetGroupCount\<close> and \<open>GetGroup\<close>
  return the number of groups and the group at the index (nothing behind the last one), in any
  order of calls; \<open>RemoveGroup\<close> takes the group out; \<open>AddGroup\<close> puts a new group at the end and
  keeps the cache in order when the groups have been counted before. When they have not, the
  increment turns the mark -1 into the count 0: the contact then reports no groups.\<close>

theorem contact_groups_are_a_list:
  assumes "cache_ok c" "g \<noteq> []"
  shows "fst (GetGroupCount c) = length (groups_of c) \<and> cache_ok (snd (GetGroupCount c))
   \<and> (\<exists>c'. GetGroup i c = Some (if i < length (groups_of c) then groups_of c ! i else [], c') \<and>
         cache_ok c' \<and> groups_of c' = groups_of c)
   \<and> (\<exists>c'. RemoveGroup g c = Some (XMPP_RETURN_OK, c') \<and> groups_of c' = remove1 g (groups_of c) \<and> cache_ok c')
   \<and> (\<exists>c'. AddGroup g c = Some (XMPP_RETURN_OK, c') \<and>
         groups_of c' = (if g \<in> set (groups_of c) then groups_of c else groups_of c @ [g]) \<and>
         (if rc_group_count c \<noteq> -1 \<or> g \<in> set (groups_of c) then cache_ok c'
          else fst (GetGroupCount c') = 0 \<and> GetGroup i c' = Some ([], c')))"
proof -
  from AddGroup_ok [OF assms(2,1)] obtain c' where c': "AddGroup g c = Some (XMPP_RETURN_OK, c')"
    "groups_of c' = (if g \<in> set (groups_of c) then groups_of c else groups_of c @ [g])"
    "rc_group_count c' = (if g \<in> set (groups_of c) then rc_group_count c else rc_group_count c + 1)"
    "rc_group_count c \<noteq> - 1 \<or> g \<in> set (groups_of c) \<longrightarrow> cache_ok c'" by blast
  have "fst (GetGroupCount c') = 0 \<and> GetGroup i c' = Some ([], c')" if "rc_group_count c' = 0"
    using that by (auto simp: GetGroup_def GetGroupCount_def split: option.split)
  with c' have "if rc_group_count c \<noteq> -1 \<or> g \<in> set (groups_of c) then cache_ok c'
      else fst (GetGroupCount c') = 0 \<and> GetGroup i c' = Some ([], c')" by simp
  moreover have "fst (GetGroupCount c) = length (groups_of c)" using GetGroupCount_ok(1) [OF assms(1)] by (metis fst_conv)
  ultimately show ?thesis
    using c'(1,2) GetGroupCount_ok(2) [OF assms(1)] GetGroup_ok [OF assms(1), of i] RemoveGroup_ok [OF assms(2,1)] by blast
qed

theorem contact_groups_are_a_list_witness:
  "\<exists>c. AddGroup ''Friends'' contact_init = Some (XMPP_RETURN_OK, c) \<and> groups_of c = [''Friends''] \<and>
     GetGroup 0 c = Some ([], c)"
proof -
  have "cache_ok contact_init" "''Friends'' \<noteq> []" by (simp_all add: cache_ok_def contact_init_def)
  from contact_groups_are_a_list [OF this, of 0] show ?thesis
    by (auto simp: groups_filter contact_init_def)
qed

end
