(* ===== verification/Roster.thy ===== *)
theory Roster
  imports EngineInput Contacts
begin

text \<open>
  The roster module, \<open>XmppRosterModuleImpl\<close> of \<open>talk/xmpp/rostermoduleimpl.cc\<close>, with its base class
  \<open>XmppModuleImpl\<close> of \<open>talk/xmpp/moduleimpl.cc\<close>. The presence objects are shared by the vector of all
  presences and the vectors by bare Jid, so they live in a store and the vectors hold their
  addresses. The engine the module is registered with is passed to the operations that use it;
  \<open>self\<close> is the number under which the engine knows the module. The calls of the roster handler are
  a trace: the handler does not call back into the module.
\<close>

subsection \<open>State\<close>

datatype roster_call =
    SubscriptionRequest jid subscription_request xml_element
  | SubscriptionError jid xml_element
  | RosterError xml_element
  | IncomingPresenceChanged "presence option"
  | ContactChanged contact nat
  | ContactsAdded nat nat
  | ContactRemoved contact nat

record roster =
  ro_engine :: bool
  ro_handler :: bool
  ro_outgoing :: presence
  ro_presences :: "presence list"
  ro_map :: "jid \<Rightarrow> nat list option"
  ro_vector :: "nat list"
  ro_contacts :: "contact list"
  ro_calls :: "roster_call list"

definition roster_init :: roster where
  "roster_init =
     \<lparr>ro_engine = False, ro_handler = False, ro_outgoing = None, ro_presences = [], ro_map = (\<lambda>_. None),
      ro_vector = [], ro_contacts = [], ro_calls = []\<rparr>"

definition notify_roster :: "roster_call \<Rightarrow> roster \<Rightarrow> roster" where
  "notify_roster x r = (if ro_handler r then r\<lparr>ro_calls := ro_calls r @ [x]\<rparr> else r)"

text \<open>\<open>XmppModuleImpl\<close>: registering with an engine, and the destructor.\<close>

definition RegisterEngine :: "nat \<Rightarrow> engine option \<Rightarrow> roster \<Rightarrow> return_status \<times> roster \<times> engine option" where
  "RegisterEngine self eng r =
     (case eng of None \<Rightarrow> (XMPP_RETURN_BADARGUMENT, r, None)
      | Some e \<Rightarrow>
          (if ro_engine r then (XMPP_RETURN_BADARGUMENT, r, eng)
           else (XMPP_RETURN_OK, r\<lparr>ro_engine := True\<rparr>, Some (snd (AddStanzaHandler self HL_PEEK e)))))"

definition module_destructor :: "nat \<Rightarrow> roster \<Rightarrow> engine \<Rightarrow> roster \<times> engine" where
  "module_destructor self r e =
     (if ro_engine r then (r\<lparr>ro_engine := False\<rparr>, snd (RemoveStanzaHandler self e)) else (r, e))"

definition set_roster_handler :: "bool \<Rightarrow> roster \<Rightarrow> return_status \<times> roster" where
  "set_roster_handler handler r = (XMPP_RETURN_OK, r\<lparr>ro_handler := handler\<rparr>)"

subsection \<open>Outgoing presence\<close>

definition BroadcastPresence :: "roster \<Rightarrow> engine \<Rightarrow> return_status \<times> roster \<times> engine" where
  "BroadcastPresence r e =
     (let (element, out) = presence_raw_xml (ro_outgoing r); r1 = r\<lparr>ro_outgoing := out\<rparr> in
      if \<not> ro_engine r1 then (XMPP_RETURN_BADSTATE, r1, e)
      else let (st, e1) = SendStanza element e in (st, r1, e1))"

definition SendDirectedPresence :: "presence option \<Rightarrow> jid \<Rightarrow> roster \<Rightarrow> engine \<Rightarrow> return_status \<times> engine" where
  "SendDirectedPresence pres to_jid r e =
     (case pres of None \<Rightarrow> (XMPP_RETURN_BADARGUMENT, e)
      | Some p \<Rightarrow>
        (if \<not> ro_engine r then (XMPP_RETURN_BADSTATE, e)
         else let element = copy_element (fst (presence_raw_xml p)) in
           if elt_name element \<noteq> QN_PRESENCE \<or> HasAttr element QN_TO \<or> HasAttr element QN_FROM
           then (XMPP_RETURN_BADARGUMENT, e)
           else if HasAttr element QN_TYPE \<and> Attr element QN_TYPE \<noteq> [] \<and> Attr element QN_TYPE \<noteq> ''unavailable''
           then (XMPP_RETURN_BADARGUMENT, e)
           else SendStanza (SetAttr element QN_TO (Jid_Str to_jid)) e))"

subsection \<open>Incoming presence\<close>

definition GetIncomingPresenceCount :: "roster \<Rightarrow> nat" where
  "GetIncomingPresenceCount r = length (ro_vector r)"

definition GetIncomingPresence :: "nat \<Rightarrow> roster \<Rightarrow> presence option" where
  "GetIncomingPresence index r =
     (if index \<ge> length (ro_vector r) then None else Some (ro_presences r ! (ro_vector r ! index)))"

definition GetIncomingPresenceForJidCount :: "jid \<Rightarrow> roster \<Rightarrow> nat" where
  "GetIncomingPresenceForJidCount j r = (case ro_map r j of None \<Rightarrow> 0 | Some v \<Rightarrow> length v)"

definition GetIncomingPresenceForJid :: "jid \<Rightarrow> nat \<Rightarrow> roster \<Rightarrow> presence option" where
  "GetIncomingPresenceForJid j index r =
     (case ro_map r j of None \<Rightarrow> None
      | Some v \<Rightarrow> if index \<ge> length v then None else Some (ro_presences r ! (v ! index)))"

text \<open>\<open>InternalIncomingPresence\<close>: the bucket of the bare Jid is created when it is missing; in it the
  object of this Jid is updated, or a new one is added there and to the vector of all.\<close>

definition find_presence :: "jid \<Rightarrow> presence list \<Rightarrow> nat list \<Rightarrow> nat option" where
  "find_presence j objs v = find (\<lambda>a. presence_jid (objs ! a) = j) v"

definition InternalIncomingPresence :: "jid \<Rightarrow> xml_element \<Rightarrow> roster \<Rightarrow> roster" where
  "InternalIncomingPresence j stanza r =
     (let bare = BareJid j;
          bucket = (case ro_map r bare of None \<Rightarrow> [] | Some v \<Rightarrow> v);
          r1 = r\<lparr>ro_map := (ro_map r)(bare := Some bucket)\<rparr> in
      case find_presence j (ro_presences r) bucket of
        Some a \<Rightarrow>
          (let p = snd (presence_set_raw_xml (Some stanza) (ro_presences r ! a)) in
           notify_roster (IncomingPresenceChanged (Some p)) (r1\<lparr>ro_presences := (ro_presences r)[a := p]\<rparr>))
      | None \<Rightarrow>
          (let (st, p) = presence_set_raw_xml (Some stanza) None; a = length (ro_presences r) in
           if st = XMPP_RETURN_OK
           then notify_roster (IncomingPresenceChanged (Some p))
             (r1\<lparr>ro_presences := ro_presences r @ [p], ro_map := (ro_map r)(bare := Some (bucket @ [a])),
                 ro_vector := ro_vector r @ [a]\<rparr>)
           else notify_roster (IncomingPresenceChanged None) r1))"

subsection \<open>Requests\<close>

definition roster_query :: "string \<Rightarrow> engine \<Rightarrow> xml_element \<times> engine" where
  "roster_query typ e =
     (let iq = AddAttr (new_element QN_IQ) QN_TYPE typ; (iqId, e1) = NextId e in
      (AddElement (AddAttr iq QN_ID iqId) (Some (new_element_ns QN_ROSTER_QUERY True)), e1))"

definition send_iq :: "xml_element \<Rightarrow> nat \<Rightarrow> engine \<Rightarrow> return_status \<times> engine" where
  "send_iq iq self e = (let (st, cookie, e1) = SendIq (Some iq) (Some self) e in (st, e1))"

definition RequestRosterUpdate :: "nat \<Rightarrow> roster \<Rightarrow> engine \<Rightarrow> return_status \<times> engine" where
  "RequestRosterUpdate self r e =
     (if \<not> ro_engine r then (XMPP_RETURN_BADSTATE, e)
      else let (roster_get, e1) = roster_query ''get'' e in send_iq roster_get self e1)"

text \<open>Asking a contact without an item for its Jid is a null dereference.\<close>

definition RequestRosterChange :: "nat \<Rightarrow> contact option \<Rightarrow> roster \<Rightarrow> engine \<Rightarrow> (return_status \<times> engine) option" where
  "RequestRosterChange self contact r e =
     (case contact of None \<Rightarrow> Some (XMPP_RETURN_BADARGUMENT, e)
      | Some c \<Rightarrow>
        (case contact_jid c of None \<Rightarrow> None
         | Some j \<Rightarrow>
           (if \<not> Jid_IsValid j then Some (XMPP_RETURN_BADARGUMENT, e)
            else if \<not> ro_engine r then Some (XMPP_RETURN_BADSTATE, e)
            else let contact_xml = fst (contact_raw_xml c) in
              if elt_name contact_xml \<noteq> QN_ROSTER_ITEM \<or> HasAttr contact_xml QN_SUBSCRIPTION \<or> HasAttr contact_xml QN_ASK
              then Some (XMPP_RETURN_BADARGUMENT, e)
              else let (roster_add, e1) = roster_query ''set'' e in
                map_option (\<lambda>iq. send_iq iq self e1)
                  (AddElement_depth roster_add (Some (copy_element contact_xml)) 1))))"

definition RequestRosterRemove :: "nat \<Rightarrow> jid \<Rightarrow> roster \<Rightarrow> engine \<Rightarrow> (return_status \<times> engine) option" where
  "RequestRosterRemove self j r e =
     (if \<not> Jid_IsValid j then Some (XMPP_RETURN_BADARGUMENT, e)
      else if \<not> ro_engine r then Some (XMPP_RETURN_BADSTATE, e)
      else let (roster_add, e1) = roster_query ''set'' e in
        map_option (\<lambda>iq. send_iq iq self e1)
          (Option.bind (AddAttr_depth roster_add QN_JID (Jid_Str j) 1)
            (\<lambda>iq. AddAttr_depth iq QN_SUBSCRIPTION ''remove'' 1)))"

definition SendSubscriptionRequest :: "jid \<Rightarrow> string \<Rightarrow> roster \<Rightarrow> engine \<Rightarrow> return_status \<times> engine" where
  "SendSubscriptionRequest j typ r e =
     (if \<not> Jid_IsValid j then (XMPP_RETURN_BADARGUMENT, e)
      else if \<not> ro_engine r then (XMPP_RETURN_BADSTATE, e)
      else SendStanza (AddAttr (AddAttr (new_element QN_PRESENCE) QN_TO (Jid_Str j)) QN_TYPE typ) e)"

definition RequestSubscription :: "jid \<Rightarrow> roster \<Rightarrow> engine \<Rightarrow> return_status \<times> engine" where
  "RequestSubscription j r e = SendSubscriptionRequest j ''subscribe'' r e"

definition CancelSubscription :: "jid \<Rightarrow> roster \<Rightarrow> engine \<Rightarrow> return_status \<times> engine" where
  "CancelSubscription j r e = SendSubscriptionRequest j ''unsubscribe'' r e"

definition ApproveSubscriber :: "jid \<Rightarrow> roster \<Rightarrow> engine \<Rightarrow> return_status \<times> engine" where
  "ApproveSubscriber j r e = SendSubscriptionRequest j ''subscribed'' r e"

definition CancelSubscriber :: "jid \<Rightarrow> roster \<Rightarrow> engine \<Rightarrow> return_status \<times> engine" where
  "CancelSubscriber j r e = SendSubscriptionRequest j ''unsubscribed'' r e"

subsection \<open>Contacts\<close>

definition GetRosterContactCount :: "roster \<Rightarrow> nat" where
  "GetRosterContactCount r = length (ro_contacts r)"

definition GetRosterContact :: "nat \<Rightarrow> roster \<Rightarrow> contact option" where
  "GetRosterContact index r = (if index \<ge> length (ro_contacts r) then None else Some (ro_contacts r ! index))"

text \<open>\<open>find_if\<close> with the \<open>RosterPredicate\<close>: the position of the first contact with the Jid.\<close>

fun find_contact :: "jid \<Rightarrow> contact list \<Rightarrow> nat option option" where
  "find_contact j [] = Some None"
| "find_contact j (c # cs) =
     (case contact_jid c of None \<Rightarrow> None
      | Some k \<Rightarrow> if k = j then Some (Some 0) else map_option (map_option Suc) (find_contact j cs))"

definition FindRosterContact :: "jid \<Rightarrow> roster \<Rightarrow> contact option option" where
  "FindRosterContact j r = map_option (map_option (\<lambda>i. ro_contacts r ! i)) (find_contact j (ro_contacts r))"

definition wire_contact :: "xml_element \<Rightarrow> contact" where
  "wire_contact item = SetXmlFromWire (Some item) contact_init"

text \<open>One item of \<open>InternalRosterItems\<close>, then its loop. After \<open>erase\<close> the code takes the distance of the
  erased position, which is its old index.\<close>

definition roster_item_step :: "bool \<Rightarrow> xml_element \<Rightarrow> roster \<Rightarrow> roster option" where
  "roster_item_step all_new item r =
     (let j = Jid_of_string (Attr item QN_JID) in
      if \<not> Jid_IsValid j then Some r
      else case (if \<not> all_new then find_contact j (ro_contacts r) else Some None) of
        None \<Rightarrow> None
      | Some (Some pos) \<Rightarrow>
          (let old = ro_contacts r ! pos in
           if Attr item QN_SUBSCRIPTION = ''remove''
           then Some (notify_roster (ContactRemoved old pos)
                  (r\<lparr>ro_contacts := take pos (ro_contacts r) @ drop (Suc pos) (ro_contacts r)\<rparr>))
           else Some (notify_roster (ContactChanged old pos) (r\<lparr>ro_contacts := (ro_contacts r)[pos := wire_contact item]\<rparr>)))
      | Some None \<Rightarrow>
          (let r1 = r\<lparr>ro_contacts := ro_contacts r @ [wire_contact item]\<rparr> in
           Some (if \<not> all_new then notify_roster (ContactsAdded (length (ro_contacts r1) - 1) 1) r1 else r1)))"

fun roster_items_loop :: "bool \<Rightarrow> xml_element list \<Rightarrow> roster \<Rightarrow> roster option" where
  "roster_items_loop all_new [] r = Some r"
| "roster_items_loop all_new (item # items) r =
     Option.bind (roster_item_step all_new item r) (roster_items_loop all_new items)"

definition InternalRosterItems :: "xml_element \<Rightarrow> roster \<Rightarrow> roster option" where
  "InternalRosterItems stanza r =
     (case FirstNamed stanza QN_ROSTER_QUERY of None \<Rightarrow> Some r
      | Some result_data \<Rightarrow>
          (let all_new = (ro_contacts r = []) in
           map_option (\<lambda>r1. if all_new then notify_roster (ContactsAdded 0 (length (ro_contacts r1))) r1 else r1)
             (roster_items_loop all_new (named_elements QN_ROSTER_ITEM (elt_children result_data)) r)))"

subsection \<open>Incoming stanzas\<close>

definition roster_IqResponse :: "xml_element \<Rightarrow> roster \<Rightarrow> roster option" where
  "roster_IqResponse stanza r =
     (if Attr stanza QN_TYPE = ''error'' then Some (notify_roster (RosterError stanza) r)
      else InternalRosterItems stanza r)"

definition roster_HandleStanza :: "xml_element \<Rightarrow> roster \<Rightarrow> engine \<Rightarrow> (bool \<times> roster \<times> engine) option" where
  "roster_HandleStanza stanza r e =
     (if elt_name stanza = QN_PRESENCE then
        (let j = Jid_of_string (Attr stanza QN_FROM); typ = Attr stanza QN_TYPE in
         if \<not> Jid_IsValid j then Some (False, r, e)
         else case StringToSubscriptionRequestType typ of
             Some request \<Rightarrow> Some (True, notify_roster (SubscriptionRequest j request stanza) r, e)
           | None \<Rightarrow>
               (if typ = ''unavailable'' \<or> typ = [] then Some (True, InternalIncomingPresence j stanza r, e)
                else if typ = ''error'' then Some (True, notify_roster (SubscriptionError j stanza) r, e)
                else Some (False, r, e)))
      else if elt_name stanza = QN_IQ then
        (if FirstNamed stanza QN_ROSTER_QUERY = None \<or> Attr stanza QN_TYPE \<noteq> ''set'' then Some (False, r, e)
         else map_option
           (\<lambda>r1. let result = AddAttr (AddAttr (AddAttr (new_element QN_IQ) QN_TYPE ''result'')
                                QN_TO (Attr stanza QN_FROM)) QN_ID (Attr stanza QN_ID) in
                 (True, r1, snd (SendStanza result e)))
           (InternalRosterItems stanza r))
      else Some (False, r, e))"

definition DeleteIncomingPresence :: "roster \<Rightarrow> roster" where
  "DeleteIncomingPresence r = r\<lparr>ro_vector := [], ro_map := (\<lambda>_. None)\<rparr>"

definition DeleteContacts :: "roster \<Rightarrow> roster" where
  "DeleteContacts r = r\<lparr>ro_contacts := []\<rparr>"

subsection \<open>The roster as a map\<close>

definition item_jid :: "xml_element \<Rightarrow> jid" where
  "item_jid item = Jid_of_string (Attr item QN_JID)"

definition roster_ok :: "contact list \<Rightarrow> bool" where
  "roster_ok cs \<longleftrightarrow> (\<forall>c\<in>set cs. rc_xml c \<noteq> None) \<and> distinct (map contact_jid cs)"

definition roster_map :: "contact list \<Rightarrow> jid \<Rightarrow> xml_element option" where
  "roster_map cs j = (case find (\<lambda>c. contact_jid c = Some j) cs of None \<Rightarrow> None | Some c \<Rightarrow> rc_xml c)"

text \<open>What a push of the server means for the map: remove, replace or add.\<close>

definition push_item :: "xml_element \<Rightarrow> (jid \<Rightarrow> xml_element option) \<Rightarrow> jid \<Rightarrow> xml_element option" where
  "push_item item m =
     (if \<not> Jid_IsValid (item_jid item) then m
      else if m (item_jid item) \<noteq> None \<and> Attr item QN_SUBSCRIPTION = ''remove'' then m(item_jid item := None)
      else m(item_jid item \<mapsto> item))"

lemma wire_contact_sel [simp]: "rc_xml (wire_contact item) = Some item" "contact_jid (wire_contact item) = Some (item_jid item)"
  by (simp_all add: wire_contact_def SetXmlFromWire_def contact_jid_def item_jid_def copy_element_id)

lemma notify_roster_contacts [simp]: "ro_contacts (notify_roster x r) = ro_contacts r"
  by (simp add: notify_roster_def)

lemma find_contact_None:
  "roster_ok cs \<Longrightarrow> find_contact j cs = Some None \<longleftrightarrow> Some j \<notin> contact_jid ` set cs"
  by (induction cs) (auto simp: roster_ok_def contact_jid_def split: option.split)

lemma find_contact_cases:
  assumes "roster_ok cs"
  obtains (absent) "find_contact j cs = Some None" "Some j \<notin> contact_jid ` set cs"
  | (present) us c vs where "find_contact j cs = Some (Some (length us))" "cs = us @ c # vs" "contact_jid c = Some j"
      "Some j \<notin> contact_jid ` set us" "Some j \<notin> contact_jid ` set vs"
proof -
  have "find_contact j cs = Some None \<and> Some j \<notin> contact_jid ` set cs \<or>
    (\<exists>us c vs. find_contact j cs = Some (Some (length us)) \<and> cs = us @ c # vs \<and> contact_jid c = Some j \<and>
      Some j \<notin> contact_jid ` set us \<and> Some j \<notin> contact_jid ` set vs)"
    using assms
  proof (induction cs)
    case (Cons c cs)
    then have ok: "roster_ok cs" by (simp add: roster_ok_def)
    from Cons.prems obtain k where k: "contact_jid c = Some k" "Some k \<notin> contact_jid ` set cs"
      by (auto simp: roster_ok_def contact_jid_def)
    show ?case
    proof (cases "k = j")
      case True
      with k show ?thesis by (intro disjI2 exI [of _ "[]"] exI [of _ c] exI [of _ cs]) simp
    next
      case False
      from Cons.IH [OF ok] show ?thesis
      proof (elim disjE exE conjE)
        fix us d vs
        assume "find_contact j cs = Some (Some (length us))" "cs = us @ d # vs" "contact_jid d = Some j"
          "Some j \<notin> contact_jid ` set us" "Some j \<notin> contact_jid ` set vs"
        with k False show ?thesis by (intro disjI2 exI [of _ "c # us"] exI [of _ d] exI [of _ vs]) auto
      qed (use k False in auto)
    qed
  qed simp
  with that show thesis by blast
qed

lemma find_append: "find P (xs @ ys) = (case find P xs of None \<Rightarrow> find P ys | Some x \<Rightarrow> Some x)"
  by (induction xs) auto

lemma find_contact_jid: "find (\<lambda>c. contact_jid c = Some j) cs = None \<longleftrightarrow> Some j \<notin> contact_jid ` set cs"
  unfolding find_None_iff by (metis (mono_tags, lifting) image_iff)

lemma roster_map_append:
  "roster_map (us @ vs) j = (if Some j \<in> contact_jid ` set us then roster_map us j else roster_map vs j)"
proof (cases "find (\<lambda>c. contact_jid c = Some j) us")
  case None
  moreover from None have "Some j \<notin> contact_jid ` set us" by (rule iffD1 [OF find_contact_jid])
  ultimately show ?thesis by (simp add: roster_map_def find_append)
next
  case (Some c)
  then have "c \<in> set us \<and> contact_jid c = Some j" by (auto simp: find_Some_iff)
  then have "Some j \<in> contact_jid ` set us" by force
  with Some show ?thesis by (simp add: roster_map_def find_append)
qed

lemma roster_map_absent: "Some j \<notin> contact_jid ` set cs \<Longrightarrow> roster_map cs j = None"
  unfolding find_contact_jid [symmetric] by (simp add: roster_map_def)

lemma roster_map_Cons: "roster_map (c # cs) j = (if contact_jid c = Some j then rc_xml c else roster_map cs j)"
  by (simp add: roster_map_def)

lemma item_step_ok:
  assumes "roster_ok (ro_contacts r)"
  shows "\<exists>r'. roster_item_step False item r = Some r' \<and> roster_ok (ro_contacts r') \<and>
    roster_map (ro_contacts r') = push_item item (roster_map (ro_contacts r))"
proof (cases "Jid_IsValid (item_jid item)")
  case False
  with assms show ?thesis by (simp add: roster_item_step_def push_item_def item_jid_def [symmetric])
next
  case valid: True
  let ?j = "item_jid item"
  from assms show ?thesis
  proof (cases rule: find_contact_cases [where j = ?j])
    case absent
    then have "roster_map (ro_contacts r) ?j = None" by (simp add: roster_map_absent)
    with absent valid assms show ?thesis
      by (auto simp: roster_item_step_def push_item_def item_jid_def [symmetric] Let_def roster_ok_def fun_eq_iff
          roster_map_append roster_map_Cons roster_map_absent)
  next
    case (present us c vs)
    obtain x where x: "rc_xml c = Some x" using assms present(2) by (auto simp: roster_ok_def)
    have m: "roster_map (ro_contacts r) ?j = Some x"
      using present x by (simp add: roster_map_append roster_map_Cons)
    show ?thesis
      using present valid assms x m
      by (auto simp: roster_item_step_def push_item_def item_jid_def [symmetric] Let_def roster_ok_def fun_eq_iff
          roster_map_append roster_map_Cons roster_map_absent list_update_append)
  qed
qed

lemma items_loop_ok:
  assumes "roster_ok (ro_contacts r)"
  shows "\<exists>r'. roster_items_loop False items r = Some r' \<and> roster_ok (ro_contacts r') \<and>
    roster_map (ro_contacts r') = fold push_item items (roster_map (ro_contacts r))"
  using assms
proof (induction items arbitrary: r)
  case (Cons item items)
  from item_step_ok [OF Cons.prems, of item] obtain r1 where "roster_item_step False item r = Some r1"
    "roster_ok (ro_contacts r1)" "roster_map (ro_contacts r1) = push_item item (roster_map (ro_contacts r))" by blast
  with Cons.IH [of r1] show ?case by simp
qed simp

text \<open>The first load does not look for duplicates.\<close>

lemma items_loop_first:
  "\<exists>r'. roster_items_loop True items r = Some r' \<and>
    ro_contacts r' = ro_contacts r @ map wire_contact (filter (\<lambda>item. Jid_IsValid (item_jid item)) items)"
proof (induction items arbitrary: r)
  case (Cons item items)
  show ?case
  proof (cases "Jid_IsValid (item_jid item)")
    case True
    with Cons.IH [of "r\<lparr>ro_contacts := ro_contacts r @ [wire_contact item]\<rparr>"]
    show ?thesis by (auto simp: roster_item_step_def item_jid_def [symmetric] Let_def)
  qed (use Cons.IH [of r] in \<open>simp add: roster_item_step_def item_jid_def [symmetric]\<close>)
qed simp

lemma InternalRosterItems_ok:
  assumes "roster_ok (ro_contacts r)" "FirstNamed stanza QN_ROSTER_QUERY = Some q"
  shows "\<exists>r'. InternalRosterItems stanza r = Some r' \<and>
    (if ro_contacts r = []
     then ro_contacts r' = map wire_contact
       (filter (\<lambda>item. Jid_IsValid (item_jid item)) (named_elements QN_ROSTER_ITEM (elt_children q)))
     else roster_ok (ro_contacts r') \<and>
       roster_map (ro_contacts r') = fold push_item (named_elements QN_ROSTER_ITEM (elt_children q)) (roster_map (ro_contacts r)))"
  using assms items_loop_ok [of r "named_elements QN_ROSTER_ITEM (elt_children q)"]
    items_loop_first [of "named_elements QN_ROSTER_ITEM (elt_children q)" r]
  by (cases "ro_contacts r = []") (auto simp: InternalRosterItems_def)

lemma FindRosterContact_map:
  assumes "roster_ok (ro_contacts r)"
  shows "\<exists>c. FindRosterContact j r = Some c \<and> Option.bind c rc_xml = roster_map (ro_contacts r) j"
  using assms
  by (cases rule: find_contact_cases [where j = j])
    (auto simp: FindRosterContact_def roster_map_absent roster_map_append roster_map_Cons)

subsection \<open>The store of presences\<close>

text \<open>Every presence is in the vector once and in exactly one bucket, that of its bare Jid; no two are
  from the same Jid.\<close>

definition presences_ok :: "roster \<Rightarrow> bool" where
  "presences_ok r \<longleftrightarrow>
     (\<forall>a\<in>set (ro_vector r). a < length (ro_presences r)) \<and>
     distinct (map (\<lambda>a. presence_jid (ro_presences r ! a)) (ro_vector r)) \<and>
     (\<forall>j. set (case ro_map r j of None \<Rightarrow> [] | Some v \<Rightarrow> v) =
        {a \<in> set (ro_vector r). BareJid (presence_jid (ro_presences r ! a)) = j}) \<and>
     (\<forall>j v. ro_map r j = Some v \<longrightarrow> distinct v)"

definition presence_map :: "roster \<Rightarrow> jid \<Rightarrow> presence option" where
  "presence_map r j = map_option ((!) (ro_presences r)) (find_presence j (ro_presences r) (ro_vector r))"

lemma presences_ok_init: "presences_ok roster_init"
  by (simp add: presences_ok_def roster_init_def)

lemma find_presence_Some:
  assumes "presences_ok r" "a \<in> set (ro_vector r)" "presence_jid (ro_presences r ! a) = j"
  shows "find_presence j (ro_presences r) (ro_vector r) = Some a"
    and "find_presence j (ro_presences r) (case ro_map r (BareJid j) of None \<Rightarrow> [] | Some v \<Rightarrow> v) = Some a"
proof -
  have unique: "b = a" if "b \<in> set (ro_vector r)" "presence_jid (ro_presences r ! b) = j" for b
    using assms that by (auto simp: presences_ok_def distinct_map dest: inj_onD)
  have "find (\<lambda>a. presence_jid (ro_presences r ! a) = j) v = Some a" if "set v \<subseteq> set (ro_vector r)" "a \<in> set v" for v
    using that
  proof (induction v)
    case (Cons b v)
    then show ?case using unique [of b] assms(3) by auto
  qed simp
  moreover have "set (case ro_map r (BareJid j) of None \<Rightarrow> [] | Some v \<Rightarrow> v) =
      {a \<in> set (ro_vector r). BareJid (presence_jid (ro_presences r ! a)) = BareJid j}"
    using assms(1) unfolding presences_ok_def by blast
  ultimately show "find_presence j (ro_presences r) (ro_vector r) = Some a"
    "find_presence j (ro_presences r) (case ro_map r (BareJid j) of None \<Rightarrow> [] | Some v \<Rightarrow> v) = Some a"
    using assms by (auto simp: find_presence_def)
qed

lemma find_presence_None:
  assumes "presences_ok r" "\<forall>a\<in>set (ro_vector r). presence_jid (ro_presences r ! a) \<noteq> j"
  shows "find_presence j (ro_presences r) (ro_vector r) = None"
    and "find_presence j (ro_presences r) (case ro_map r (BareJid j) of None \<Rightarrow> [] | Some v \<Rightarrow> v) = None"
  using assms unfolding find_presence_def find_None_iff presences_ok_def by blast+

lemma notify_roster_sel [simp]:
  "ro_presences (notify_roster x r) = ro_presences r" "ro_vector (notify_roster x r) = ro_vector r"
  "ro_map (notify_roster x r) = ro_map r" "ro_handler (notify_roster x r) = ro_handler r"
  by (simp_all add: notify_roster_def)

lemma incoming_known:
  assumes ok: "presences_ok r" and a: "a \<in> set (ro_vector r)" "presence_jid (ro_presences r ! a) = presence_jid (Some stanza)"
    and r': "ro_presences r' = (ro_presences r)[a := Some stanza]" "ro_vector r' = ro_vector r"
      "ro_map r' = (ro_map r)(BareJid (presence_jid (Some stanza)) := Some (case ro_map r (BareJid (presence_jid (Some stanza))) of None \<Rightarrow> [] | Some v \<Rightarrow> v))"
  shows "presences_ok r'" and "presence_map r' = (presence_map r)(presence_jid (Some stanza) \<mapsto> Some stanza)"
proof -
  let ?j = "presence_jid (Some stanza)"
  have len: "a < length (ro_presences r)" using ok a(1) by (auto simp: presences_ok_def)
  have jid: "presence_jid (ro_presences r' ! b) = presence_jid (ro_presences r ! b)" for b
    using a(2) len by (cases "b = a") (simp_all add: r')
  have bucket: "(case ro_map r' k of None \<Rightarrow> [] | Some v \<Rightarrow> v) = (case ro_map r k of None \<Rightarrow> [] | Some v \<Rightarrow> v)" for k
    by (simp add: r')
  show "presences_ok r'"
    using ok unfolding presences_ok_def bucket jid by (auto simp: r' split: if_splits option.splits)
  have find: "find_presence k (ro_presences r') (ro_vector r') = find_presence k (ro_presences r) (ro_vector r)" for k
    by (simp add: find_presence_def jid r'(2))
  show "presence_map r' = (presence_map r)(?j \<mapsto> Some stanza)"
  proof
    fix k
    show "presence_map r' k = ((presence_map r)(?j \<mapsto> Some stanza)) k"
    proof (cases "k = ?j")
      case True
      with find_presence_Some(1) [OF ok a] len show ?thesis by (simp add: presence_map_def find) (simp add: r'(1))
    next
      case False
      have "b \<noteq> a" if "find_presence k (ro_presences r) (ro_vector r) = Some b" for b
        using that False a(2) by (auto simp: find_presence_def find_Some_iff)
      with False show ?thesis
        by (cases "find_presence k (ro_presences r) (ro_vector r)") (simp_all add: presence_map_def find, simp add: r'(1))
    qed
  qed
qed

lemma incoming_new:
  assumes ok: "presences_ok r" and fresh: "\<forall>a\<in>set (ro_vector r). presence_jid (ro_presences r ! a) \<noteq> presence_jid (Some stanza)"
    and r': "ro_presences r' = ro_presences r @ [Some stanza]" "ro_vector r' = ro_vector r @ [length (ro_presences r)]"
      "ro_map r' = (ro_map r)(BareJid (presence_jid (Some stanza)) :=
         Some ((case ro_map r (BareJid (presence_jid (Some stanza))) of None \<Rightarrow> [] | Some v \<Rightarrow> v) @ [length (ro_presences r)]))"
  shows "presences_ok r'" and "presence_map r' = (presence_map r)(presence_jid (Some stanza) \<mapsto> Some stanza)"
proof -
  let ?j = "presence_jid (Some stanza)" and ?n = "length (ro_presences r)"
  have old: "ro_presences r' ! b = ro_presences r ! b" if "b \<in> set (ro_vector r)" for b
    using ok that by (auto simp: presences_ok_def r' nth_append)
  have new: "ro_presences r' ! ?n = Some stanza" by (simp add: r')
  have less: "b < ?n" if "b \<in> set (ro_vector r)" for b using ok that by (auto simp: presences_ok_def)
  have bucket: "set (case ro_map r k of None \<Rightarrow> [] | Some v \<Rightarrow> v) = {a \<in> set (ro_vector r). BareJid (presence_jid (ro_presences r ! a)) = k}" for k
    using ok by (simp add: presences_ok_def)
  have jids: "map (\<lambda>a. presence_jid (ro_presences r' ! a)) (ro_vector r) = map (\<lambda>a. presence_jid (ro_presences r ! a)) (ro_vector r)"
    by (simp add: old)
  show "presences_ok r'"
    unfolding presences_ok_def
  proof (intro conjI allI impI)
    show "\<forall>a\<in>set (ro_vector r'). a < length (ro_presences r')" using less by (auto simp: r' less_SucI)
    show "distinct (map (\<lambda>a. presence_jid (ro_presences r' ! a)) (ro_vector r'))"
      using ok fresh by (auto simp: r'(2) jids new presences_ok_def image_iff)
    show "set (case ro_map r' k of None \<Rightarrow> [] | Some v \<Rightarrow> v) =
        {a \<in> set (ro_vector r'). BareJid (presence_jid (ro_presences r' ! a)) = k}"
      for k
    proof -
      have "set (case ro_map r' k of None \<Rightarrow> [] | Some v \<Rightarrow> v) =
          (if k = BareJid ?j then {?n} else {}) \<union> set (case ro_map r k of None \<Rightarrow> [] | Some v \<Rightarrow> v)"
        by (auto simp: r'(3))
      then show ?thesis unfolding bucket by (auto simp: r'(2) old new)
    qed
    show "distinct v" if "ro_map r' k = Some v" for k v
    proof (cases "k = BareJid ?j")
      case True
      have v: "v = (case ro_map r k of None \<Rightarrow> [] | Some v \<Rightarrow> v) @ [?n]" using True that by (simp add: r'(3))
      have "?n \<notin> set (case ro_map r k of None \<Rightarrow> [] | Some v \<Rightarrow> v)" unfolding bucket using less by blast
      moreover have "distinct (case ro_map r k of None \<Rightarrow> [] | Some v \<Rightarrow> v)"
        using ok by (auto simp: presences_ok_def split: option.split)
      ultimately show ?thesis unfolding v by simp
    next
      case False
      with that ok show ?thesis by (auto simp: r'(3) presences_ok_def)
    qed
  qed
  have find: "find_presence k (ro_presences r') (ro_vector r') =
      (case find_presence k (ro_presences r) (ro_vector r) of None \<Rightarrow> if ?j = k then Some ?n else None | Some b \<Rightarrow> Some b)" for k
  proof -
    have "find (\<lambda>a. presence_jid (ro_presences r' ! a) = k) (ro_vector r) = find (\<lambda>a. presence_jid (ro_presences r ! a) = k) (ro_vector r)"
      by (rule find_cong) (simp_all add: old)
    then show ?thesis by (simp add: find_presence_def r'(2) find_append new split: option.split)
  qed
  show "presence_map r' = (presence_map r)(?j \<mapsto> Some stanza)"
  proof
    fix k
    show "presence_map r' k = ((presence_map r)(?j \<mapsto> Some stanza)) k"
    proof (cases "find_presence k (ro_presences r) (ro_vector r)")
      case None
      then show ?thesis by (simp add: presence_map_def find new)
    next
      case (Some b)
      then have "b \<in> set (ro_vector r)" "presence_jid (ro_presences r ! b) = k"
        by (auto simp: find_presence_def find_Some_iff)
      with Some fresh old show ?thesis by (auto simp: presence_map_def find)
    qed
  qed
qed

lemma InternalIncomingPresence_ok:
  assumes ok: "presences_ok r" and stanza: "elt_name stanza = QN_PRESENCE" "Jid_of_string (Attr stanza QN_FROM) = j"
  shows "presences_ok (InternalIncomingPresence j stanza r)"
    and "presence_map (InternalIncomingPresence j stanza r) = (presence_map r)(j \<mapsto> Some stanza)"
proof -
  have j: "presence_jid (Some stanza) = j" using stanza by (simp add: presence_jid_def)
  have set_raw: "presence_set_raw_xml (Some stanza) p = (XMPP_RETURN_OK, Some stanza)" for p
    using stanza by (simp add: presence_set_raw_xml_def copy_element_id)
  let ?r' = "InternalIncomingPresence j stanza r"
  show "presences_ok ?r'" "presence_map ?r' = (presence_map r)(j \<mapsto> Some stanza)"
  proof (atomize (full), cases "\<exists>a\<in>set (ro_vector r). presence_jid (ro_presences r ! a) = j")
    case True
    then obtain a where a: "a \<in> set (ro_vector r)" "presence_jid (ro_presences r ! a) = j" by blast
    note found = find_presence_Some(2) [OF ok a]
    show "presences_ok ?r' \<and> presence_map ?r' = (presence_map r)(j \<mapsto> Some stanza)"
      using incoming_known [OF ok a(1), of stanza ?r'] a(2) found
      by (simp add: j InternalIncomingPresence_def Let_def set_raw)
  next
    case False
    then have f: "\<forall>a\<in>set (ro_vector r). presence_jid (ro_presences r ! a) \<noteq> j" by blast
    note none = find_presence_None(2) [OF ok f]
    show "presences_ok ?r' \<and> presence_map ?r' = (presence_map r)(j \<mapsto> Some stanza)"
      using incoming_new [OF ok, of stanza ?r'] f none
      by (simp add: j InternalIncomingPresence_def Let_def set_raw)
  qed
qed

subsection \<open>Properties\<close>

text \<open>The presence store keeps the last presence of every Jid. Handling an available or unavailable
  presence from a valid Jid consumes it, stores it as the presence of that Jid and of no other, and
  keeps the store in order: every presence is in the vector of all exactly once, in the bucket of
  its bare Jid exactly once and in no other bucket, and no Jid has two.\<close>

theorem presence_store_keeps_last:
  assumes "presences_ok r" "elt_name stanza = QN_PRESENCE" "Jid_IsValid (Jid_of_string (Attr stanza QN_FROM))"
    "Attr stanza QN_TYPE \<in> {[], ''unavailable''}"
  shows "\<exists>r'. roster_HandleStanza stanza r e = Some (True, r', e) \<and> presences_ok r' \<and>
    presence_map r' = (presence_map r)(Jid_of_string (Attr stanza QN_FROM) \<mapsto> Some stanza) \<and>
    ro_contacts r' = ro_contacts r"
proof -
  let ?j = "Jid_of_string (Attr stanza QN_FROM)"
  have "roster_HandleStanza stanza r e = Some (True, InternalIncomingPresence ?j stanza r, e)"
    using assms(2-4) by (auto simp: roster_HandleStanza_def StringToSubscriptionRequestType_def Let_def)
  moreover have "ro_contacts (InternalIncomingPresence ?j stanza r) = ro_contacts r"
    by (simp add: InternalIncomingPresence_def Let_def split: option.split prod.split)
  ultimately show ?thesis using InternalIncomingPresence_ok [OF assms(1,2) refl] by blast
qed

theorem presence_store_keeps_last_witness:
  "\<exists>r'. roster_HandleStanza (AddAttr (new_element QN_PRESENCE) QN_FROM ''a@b/c'') roster_init engine_init = Some (True, r', engine_init) \<and>
     presence_map r' (Jid_of_string ''a@b/c'') = Some (Some (AddAttr (new_element QN_PRESENCE) QN_FROM ''a@b/c''))"
proof -
  let ?s = "AddAttr (new_element QN_PRESENCE) QN_FROM ''a@b/c''"
  have "Jid_IsValid (Jid_of_string (Attr ?s QN_FROM))" by code_simp
  moreover have "Attr ?s QN_TYPE \<in> {[], ''unavailable''}" using presence_names(4) by simp
  ultimately show ?thesis
    using presence_store_keeps_last [OF presences_ok_init, of ?s engine_init] by auto
qed

text \<open>C21: the roster follows the pushes of the server. A push to a roster without duplicates is
  consumed and answered to its sender under its id; when the roster is not empty, the contacts as a
  map from Jids to items change as the items of the push say, in their order, and no duplicates
  arise; \<open>FindRosterContact\<close> reads that map. The first items that arrive in an empty roster are
  taken as they come. An item that removes an unknown contact adds it.\<close>

theorem roster_follows_pushes:
  assumes "roster_ok (ro_contacts r)" "elt_name stanza = QN_IQ" "Attr stanza QN_TYPE = ''set''"
    "FirstNamed stanza QN_ROSTER_QUERY = Some q"
  shows "\<exists>r'. roster_HandleStanza stanza r e =
      Some (True, r', snd (SendStanza
        (AddAttr (AddAttr (AddAttr (new_element QN_IQ) QN_TYPE ''result'') QN_TO (Attr stanza QN_FROM)) QN_ID (Attr stanza QN_ID)) e)) \<and>
    (if ro_contacts r = []
     then ro_contacts r' = map wire_contact
       (filter (\<lambda>item. Jid_IsValid (item_jid item)) (named_elements QN_ROSTER_ITEM (elt_children q)))
     else \<forall>j. \<exists>c. FindRosterContact j r' = Some c \<and> roster_ok (ro_contacts r') \<and>
       Option.bind c rc_xml =
         fold push_item (named_elements QN_ROSTER_ITEM (elt_children q)) (roster_map (ro_contacts r)) j)"
proof -
  from InternalRosterItems_ok [OF assms(1,4)] obtain r' where r': "InternalRosterItems stanza r = Some r'"
    "if ro_contacts r = []
     then ro_contacts r' = map wire_contact
       (filter (\<lambda>item. Jid_IsValid (item_jid item)) (named_elements QN_ROSTER_ITEM (elt_children q)))
     else roster_ok (ro_contacts r') \<and>
       roster_map (ro_contacts r') = fold push_item (named_elements QN_ROSTER_ITEM (elt_children q)) (roster_map (ro_contacts r))"
    by blast
  have "QN_IQ \<noteq> QN_PRESENCE" by (simp add: qname_consts)
  with r'(1) assms(2-4) have "roster_HandleStanza stanza r e =
      Some (True, r', snd (SendStanza
        (AddAttr (AddAttr (AddAttr (new_element QN_IQ) QN_TYPE ''result'') QN_TO (Attr stanza QN_FROM)) QN_ID (Attr stanza QN_ID)) e))"
    by (simp add: roster_HandleStanza_def)
  with r'(2) FindRosterContact_map [of r'] show ?thesis by (auto split: if_splits)
qed

theorem roster_follows_pushes_witness:
  "\<exists>r'. roster_HandleStanza
       (AddElement (AddAttr (new_element QN_IQ) QN_TYPE ''set'') (Some (AddElement (new_element QN_ROSTER_QUERY)
         (Some (AddAttr (new_element QN_ROSTER_ITEM) QN_JID ''c@d'')))))
       (roster_init\<lparr>ro_contacts := [wire_contact (AddAttr (new_element QN_ROSTER_ITEM) QN_JID ''a@b'')]\<rparr>) engine_init = Some r' \<and>
     (\<exists>c. FindRosterContact (Jid_of_string ''a@b'') (fst (snd r')) = Some (Some c))"
proof -
  let ?item = "\<lambda>j. AddAttr (new_element QN_ROSTER_ITEM) QN_JID j"
  let ?q = "AddElement (new_element QN_ROSTER_QUERY) (Some (?item ''c@d''))"
  let ?s = "AddElement (AddAttr (new_element QN_IQ) QN_TYPE ''set'') (Some ?q)"
  let ?r = "roster_init\<lparr>ro_contacts := [wire_contact (?item ''a@b'')]\<rparr>"
  have "roster_ok (ro_contacts ?r)" by (simp add: roster_ok_def)
  moreover have "elt_name ?s = QN_IQ" "Attr ?s QN_TYPE = ''set''" "FirstNamed ?s QN_ROSTER_QUERY = Some ?q"
    by (simp_all add: FirstNamed_def NextNamed_def)
  moreover have "named_elements QN_ROSTER_ITEM (elt_children ?q) = [?item ''c@d'']"
    by (simp add: named_elements_filter)
  moreover have "Jid_of_string ''a@b'' \<noteq> Jid_of_string ''c@d''" "Jid_IsValid (Jid_of_string ''c@d'')" by code_simp+
  ultimately show ?thesis
    using roster_follows_pushes [of ?r ?s ?q engine_init]
    by (fastforce simp: push_item_def roster_map_def item_jid_def Option.bind_eq_Some_conv dest!: spec [of _ "Jid_of_string ''a@b''"])
qed

end
