(* ===== verification/RosterPush.thy ===== *)
theory RosterPush
  imports Roster Replies
begin

text \<open>
  The roster module at work in the engine it is registered with: what becomes of a roster push.
\<close>

text \<open>The application answers the engine as the module does, when the module is in the state \<open>r\<close>: the
  calls it makes have the effect of the module's.\<close>

definition acts_as_roster :: "app \<Rightarrow> nat \<Rightarrow> roster \<Rightarrow> xml_element \<Rightarrow> bool" where
  "acts_as_roster A self r stanza \<longleftrightarrow>
     (\<forall>e. case roster_HandleStanza stanza r e of None \<Rightarrow> True
        | Some (handled, r', e') \<Rightarrow>
            (case app_stanza A self stanza e of (calls, h) \<Rightarrow> h = handled \<and> api_calls calls e = Some e'))"

definition push_result :: "xml_element \<Rightarrow> xml_element" where
  "push_result stanza =
     AddAttr (AddAttr (AddAttr (new_element QN_IQ) QN_TYPE ''result'') QN_TO (Attr stanza QN_FROM)) QN_ID (Attr stanza QN_ID)"

lemma SendStanza_inside:
  assumes "eng_state e = STATE_OPEN" "0 < eng_entered e"
  shows "eng_state (snd (SendStanza el e)) = STATE_OPEN" "eng_handlers (snd (SendStanza el e)) = eng_handlers e"
  using assms
  by (simp_all add: SendStanza_def within_def exit_engine_def enter_engine_def InternalSendStanza_def put_output_def
      Let_def split: option.split prod.split)

lemma no_handlers_left:
  "\<forall>l. l \<noteq> HL_PEEK \<longrightarrow> eng_handlers e l = [] \<Longrightarrow> level_loop A stanza [HL_SINGLE, HL_SENDER, HL_TYPE, HL_ALL] 0 e = Some (False, e)"
  by (simp add: level_loop.simps)

lemma one_peek:
  assumes "eng_handlers e HL_PEEK = [h]" "call_handler A h stanza e = Some (b, e')" "eng_handlers e' = eng_handlers e"
  shows "peek_loop A stanza 0 e = Some e'"
  using assms by (subst peek_loop.simps, simp) (subst peek_loop.simps, simp)

lemma error_reply_attrs:
  "\<exists>err. error_stanza el code [] = Some err \<and> Attr err QN_TO = Attr el QN_FROM \<and>
    (\<forall>n. n \<notin> {QN_TYPE, QN_TO, QN_FROM} \<longrightarrow> Attr err n = Attr el n)"
proof -
  define err0 where "err0 = error_children (elt_children el)
      (error_attrs (elt_attrs el) (AddAttr (new_element (elt_name el)) QN_TYPE ''error''))"
  have attrs: "elt_attrs err0 = (QN_TYPE, ''error'') # reply_attrs (elt_attrs el)" by (simp add: err0_def AddAttr_def)
  have "error_stanza el code [] = Some (with_children err0 (elt_children err0 @ [XmlElem (error_child code)]))"
    by (simp add: error_stanza_def AddErrorCode_child Let_def flip: err0_def)
  then show ?thesis by (auto simp: Attr_def attrs find_reply_attr)
qed

text \<open>C20: a roster push is answered twice. A module registers its handler with \<open>AddStanzaHandler\<close> at
  the default level, where a handler only peeks and what it returns is not looked at. The roster
  module takes the push and sends the result, but the engine goes on, finds no handler that took the
  stanza, and sends the error \<open>feature-not-implemented\<close> to the same sender under the same id.\<close>

theorem roster_push_answered_twice:
  assumes "RegisterEngine self (Some e0) r0 = (XMPP_RETURN_OK, r, Some e)" "eng_handlers e0 = (\<lambda>_. [])"
    and "eng_state e0 = STATE_OPEN" "0 < eng_entered e0" "eng_login e0 = None" "eng_error e0 = ERROR_NONE"
      "\<not> eng_raised_reset e0" "eng_iq_entries e0 = []"
    and "acts_as_roster A self r stanza" "roster_ok (ro_contacts r)"
    and "elt_name stanza = QN_IQ" "Attr stanza QN_TYPE = ''set''" "FirstNamed stanza QN_ROSTER_QUERY = Some q"
  shows "\<exists>err. error_stanza stanza XSE_FEATURE_NOT_IMPLEMENTED [] = Some err \<and>
    Attr err QN_TO = Attr (push_result stanza) QN_TO \<and> Attr err QN_ID = Attr (push_result stanza) QN_ID \<and>
    engine_IncomingStanza A (Some stanza) e =
      Some (snd (SendStanza err (snd (SendStanza (push_result stanza) (told stanza [self] e)))))"
proof -
  have e: "e = e0\<lparr>eng_handlers := (\<lambda>_. [])(HL_PEEK := [self])\<rparr>"
    using assms(1-3) by (auto simp: RegisterEngine_def AddStanzaHandler_def split: if_splits)
  let ?e1 = "told stanza [self] e"
  let ?e2 = "snd (SendStanza (push_result stanza) ?e1)"
  have open1: "eng_state ?e1 = STATE_OPEN" "0 < eng_entered ?e1" using assms(3,4) by (simp_all add: e told_def)
  note inside = SendStanza_inside [OF this, of "push_result stanza"]
  have handlers: "eng_handlers e = (\<lambda>_. [])(HL_PEEK := [self])" by (simp add: e)
  from InternalRosterItems_ok [OF assms(10,13)] obtain r' where "InternalRosterItems stanza r = Some r'" by blast
  then have "roster_HandleStanza stanza r ?e1 = Some (True, r', ?e2)"
    using assms(11-13) by (simp add: roster_HandleStanza_def push_result_def qname_consts)
  with assms(9) have "call_handler A self stanza e = Some (True, ?e2)"
    unfolding acts_as_roster_def call_handler_def Let_def
    by (auto split: option.splits prod.splits dest!: spec [of _ ?e1])
  then have peek: "peek_loop A stanza 0 e = Some ?e2"
    by (rule one_peek [rotated]) (simp_all add: inside handlers)
  have none: "level_loop A stanza [HL_SINGLE, HL_SENDER, HL_TYPE, HL_ALL] 0 ?e2 = Some (False, ?e2)"
    by (rule no_handlers_left) (simp add: inside handlers)
  obtain err where err: "error_stanza stanza XSE_FEATURE_NOT_IMPLEMENTED [] = Some err" "Attr err QN_TO = Attr stanza QN_FROM"
    "\<forall>n. n \<notin> {QN_TYPE, QN_TO, QN_FROM} \<longrightarrow> Attr err n = Attr stanza n"
    using error_reply_attrs by blast
  have "QN_ID \<notin> {QN_TYPE, QN_TO, QN_FROM}" "QN_IQ \<noteq> QN_STREAM_ERROR" by (simp_all add: qname_consts)
  moreover have "dispatch_stanza A stanza e = Some (snd (SendStanza err ?e2))"
    using assms(11,12) err(1) inside(1)
    by (simp add: dispatch_stanza_def peek none unhandled_stanza_def SendStanzaError_def)
  ultimately have "engine_IncomingStanza A (Some stanza) e = Some (snd (SendStanza err ?e2))"
    using assms(5-8,11) by (simp add: e engine_IncomingStanza_def HasError_def HandleIqResponse_def)
  with err \<open>QN_ID \<notin> {QN_TYPE, QN_TO, QN_FROM}\<close> show ?thesis
    by (auto simp: push_result_def)
qed

definition push_app :: "nat \<Rightarrow> roster \<Rightarrow> app" where
  "push_app self r =
     \<lparr>app_stanza = (\<lambda>h el e. if h = self then ([CallSendStanza (push_result el)], True) else ([], False)), app_iq = (\<lambda>h c el e. [])\<rparr>"

theorem roster_push_answered_twice_witness:
  "\<exists>err e'. error_stanza (AddElement (AddAttr (new_element QN_IQ) QN_TYPE ''set'') (Some (new_element QN_ROSTER_QUERY)))
       XSE_FEATURE_NOT_IMPLEMENTED [] = Some err \<and>
     engine_IncomingStanza (push_app 3 roster_init)
       (Some (AddElement (AddAttr (new_element QN_IQ) QN_TYPE ''set'') (Some (new_element QN_ROSTER_QUERY))))
       (engine_init\<lparr>eng_state := STATE_OPEN, eng_entered := 1, eng_login := None, eng_handlers := (\<lambda>_. [])(HL_PEEK := [3])\<rparr>)
     = Some (snd (SendStanza err e'))"
proof -
  let ?s = "AddElement (AddAttr (new_element QN_IQ) QN_TYPE ''set'') (Some (new_element QN_ROSTER_QUERY))"
  let ?e0 = "engine_init\<lparr>eng_state := STATE_OPEN, eng_entered := 1, eng_login := None\<rparr>"
  let ?r = "roster_init\<lparr>ro_engine := True\<rparr>"
  have "named_elements QN_ROSTER_ITEM [] = []" by (simp add: named_elements_filter)
  then have "InternalRosterItems ?s ?r = Some ?r"
    by (simp add: InternalRosterItems_def FirstNamed_def NextNamed_def roster_init_def notify_roster_def)
  moreover have "QN_IQ \<noteq> QN_PRESENCE" by (simp add: qname_consts)
  ultimately have "acts_as_roster (push_app 3 roster_init) 3 ?r ?s"
    by (simp add: acts_as_roster_def roster_HandleStanza_def push_app_def push_result_def FirstNamed_def NextNamed_def
        Option.bind_def)
  moreover have "RegisterEngine 3 (Some ?e0) roster_init = (XMPP_RETURN_OK, ?r,
      Some (?e0\<lparr>eng_handlers := (\<lambda>_. [])(HL_PEEK := [3])\<rparr>))"
    by (simp add: RegisterEngine_def AddStanzaHandler_def engine_init_def roster_init_def)
  moreover have "roster_ok (ro_contacts ?r)" by (simp add: roster_ok_def roster_init_def)
  ultimately show ?thesis
    using roster_push_answered_twice [of 3 ?e0 roster_init ?r _ "push_app 3 roster_init" ?s "new_element QN_ROSTER_QUERY"]
    by (simp add: engine_init_def FirstNamed_def NextNamed_def) blast
qed

end
