(* ===== verification/StdMaps.thy ===== *)
theory StdMaps
  imports Prelude
begin

text \<open>
  \<open>std::map\<close> as the list of its pairs in the order of the keys, which is the order of iteration: an
  iterator is a position, \<open>end()\<close> is the length. The interface \<open>ordered_map\<close> says what the users
  rely on.
\<close>

fun map_find :: "'k \<Rightarrow> ('k \<times> 'v) list \<Rightarrow> 'v option" where
  "map_find k [] = None"
| "map_find k ((l, v) # m) = (if k = l then Some v else map_find k m)"

text \<open>\<open>insert\<close> leaves a present key alone.\<close>

fun map_insert :: "'k::linorder \<Rightarrow> 'v \<Rightarrow> ('k \<times> 'v) list \<Rightarrow> ('k \<times> 'v) list" where
  "map_insert k v [] = [(k, v)]"
| "map_insert k v ((l, w) # m) =
     (if k < l then (k, v) # (l, w) # m else if k = l then (l, w) # m else (l, w) # map_insert k v m)"

text \<open>Writing through the iterator that \<open>find\<close> returned, and \<open>erase\<close>.\<close>

fun map_set :: "'k \<Rightarrow> 'v \<Rightarrow> ('k \<times> 'v) list \<Rightarrow> ('k \<times> 'v) list" where
  "map_set k v [] = []"
| "map_set k v ((l, w) # m) = (if k = l then (l, v) # m else (l, w) # map_set k v m)"

fun map_erase :: "'k \<Rightarrow> ('k \<times> 'v) list \<Rightarrow> ('k \<times> 'v) list" where
  "map_erase k [] = []"
| "map_erase k ((l, w) # m) = (if k = l then m else (l, w) # map_erase k m)"

definition map_ok :: "('k::linorder \<times> 'v) list \<Rightarrow> bool" where
  "map_ok m \<longleftrightarrow> sorted_wrt (<) (map fst m)"

locale ordered_map =
  fixes find :: "'k \<Rightarrow> 'm \<Rightarrow> 'v option" and ins :: "'k \<Rightarrow> 'v \<Rightarrow> 'm \<Rightarrow> 'm" and upd :: "'k \<Rightarrow> 'v \<Rightarrow> 'm \<Rightarrow> 'm"
    and del :: "'k \<Rightarrow> 'm \<Rightarrow> 'm" and ok :: "'m \<Rightarrow> bool"
  assumes find_ins: "ok m \<Longrightarrow> find j (ins k v m) = (if j = k \<and> find k m = None then Some v else find j m)"
    and find_upd: "ok m \<Longrightarrow> find j (upd k v m) = (if j = k \<and> find k m \<noteq> None then Some v else find j m)"
    and find_del: "ok m \<Longrightarrow> find j (del k m) = (if j = k then None else find j m)"
    and ok_ins: "ok m \<Longrightarrow> ok (ins k v m)" and ok_upd: "ok m \<Longrightarrow> ok (upd k v m)" and ok_del: "ok m \<Longrightarrow> ok (del k m)"
begin

definition keys :: "'m \<Rightarrow> 'k set" where
  "keys m = {k. find k m \<noteq> None}"

lemma keys_ins: "ok m \<Longrightarrow> keys (ins k v m) = insert k (keys m)"
  by (auto simp: keys_def find_ins split: if_splits)

lemma keys_upd: "ok m \<Longrightarrow> keys (upd k v m) = keys m"
  by (auto simp: keys_def find_upd)

lemma keys_del: "ok m \<Longrightarrow> keys (del k m) = keys m - {k}"
  by (auto simp: keys_def find_del split: if_splits)

lemma keys_find: "k \<in> keys m \<longleftrightarrow> find k m \<noteq> None"
  by (simp add: keys_def)

end

lemma map_find_None: "map_find k m = None \<longleftrightarrow> k \<notin> fst ` set m"
  by (induction m rule: map_find.induct [of _ k]) auto

lemma fst_map_insert: "fst ` set (map_insert k v m) = insert k (fst ` set m)"
  by (induction k v m rule: map_insert.induct) auto

lemma fst_map_set [simp]: "map fst (map_set k v m) = map fst m"
  by (induction k v m rule: map_set.induct) auto

lemma set_map_erase: "set (map_erase k m) \<subseteq> set m"
  by (induction k m rule: map_erase.induct) auto

lemma map_ok_Cons: "map_ok ((k, v) # m) \<longleftrightarrow> (\<forall>l\<in>fst ` set m. k < l) \<and> map_ok m"
  by (auto simp: map_ok_def)

lemma map_find_key: "map_find k m = Some v \<Longrightarrow> k \<in> fst ` set m"
  using map_find_None [of k m] by simp

lemma map_find_below: "\<forall>l\<in>fst ` set m. (k :: 'k::linorder) < l \<Longrightarrow> map_find k m = None"
  by (induction m rule: map_find.induct [of _ k]) auto

lemma map_insert_ok: "map_ok m \<Longrightarrow> map_ok (map_insert k v m)"
proof (induction k v m rule: map_insert.induct)
  case (2 k v l w m)
  have "\<forall>x\<in>fst ` set (map_insert k v m). l < x" if "l < k" "\<forall>x\<in>fst ` set m. l < x"
    unfolding fst_map_insert using that by blast
  with 2 show ?case by (fastforce simp: map_ok_Cons)
qed (simp add: map_ok_def)

lemma map_erase_ok: "map_ok m \<Longrightarrow> map_ok (map_erase k m)"
proof (induction k m rule: map_erase.induct)
  case (2 k l w m)
  then show ?case using set_map_erase [of k m] by (auto simp: map_ok_Cons)
qed simp

interpretation std: ordered_map map_find map_insert map_set map_erase map_ok
proof unfold_locales
  fix m :: "('a::linorder \<times> 'b) list" and j k :: 'a and v :: 'b
  assume ok: "map_ok m"
  show "map_find j (map_insert k v m) = (if j = k \<and> map_find k m = None then Some v else map_find j m)"
    using ok
  proof (induction k v m rule: map_insert.induct)
    case (2 k v l w m)
    show ?case
    proof (cases "k < l")
      case True
      with 2 have "\<forall>x\<in>fst ` set ((l, w) # m). k < x" by (auto simp: map_ok_Cons)
      then have "map_find k ((l, w) # m) = None" by (rule map_find_below)
      with True show ?thesis by simp
    next
      case False
      with 2 show ?thesis by (cases "k = l") (auto simp: map_ok_Cons split: if_splits)
    qed
  qed simp
  show "map_find j (map_set k v m) = (if j = k \<and> map_find k m \<noteq> None then Some v else map_find j m)"
    by (induction k v m rule: map_set.induct) auto
  show "map_find j (map_erase k m) = (if j = k then None else map_find j m)"
    using ok
  proof (induction k m rule: map_erase.induct)
    case (2 k l w m)
    then show ?case using map_find_below [of m l] by (auto simp: map_ok_Cons)
  qed simp
  show "map_ok (map_set k v m)" using ok by (simp add: map_ok_def)
qed (simp_all add: map_insert_ok map_erase_ok)

end
