(* ===== verification/ChatRoom.thy ===== *)
theory ChatRoom
  imports EngineInput Presence StdMaps
begin

text \<open>
  A chat room, \<open>XmppChatroomModuleImpl\<close> of \<open>talk/xmpp/chatroommoduleimpl.cc\<close>: the state machine of
  entering and leaving, the members and their enumerator. A member is its presence, the map of
  members is that of \<open>StdMaps\<close>. The engine is passed to the operations that use it; the calls of the
  chat room handler are a trace, the handler does not call back into the module. A null dereference
  is None. Assertions are compiled out.
\<close>

subsection \<open>State\<close>

datatype room_state = XMPP_CHATROOM_STATE_NOT_IN_ROOM | XMPP_CHATROOM_STATE_REQUESTED_ENTER
  | XMPP_CHATROOM_STATE_IN_ROOM | XMPP_CHATROOM_STATE_REQUESTED_EXIT

datatype entered_status = XMPP_CHATROOM_ENTERED_SUCCESS | XMPP_CHATROOM_ENTERED_FAILURE_NICKNAME_CONFLICT
  | XMPP_CHATROOM_ENTERED_FAILURE_PASSWORD_REQUIRED | XMPP_CHATROOM_ENTERED_FAILURE_PASSWORD_INCORRECT
  | XMPP_CHATROOM_ENTERED_FAILURE_NOT_A_MEMBER | XMPP_CHATROOM_ENTERED_FAILURE_MEMBER_BANNED
  | XMPP_CHATROOM_ENTERED_FAILURE_MAX_USERS | XMPP_CHATROOM_ENTERED_FAILURE_ROOM_LOCKED
  | XMPP_CHATROOM_ENTERED_FAILURE_MEMBER_BLOCKED | XMPP_CHATROOM_ENTERED_FAILURE_MEMBER_BLOCKING
  | XMPP_CHATROOM_ENTERED_FAILURE_OUTDATED_CLIENT | XMPP_CHATROOM_ENTERED_FAILURE_UNSPECIFIED

datatype exited_status = XMPP_CHATROOM_EXITED_REQUESTED | XMPP_CHATROOM_EXITED_BANNED
  | XMPP_CHATROOM_EXITED_KICKED | XMPP_CHATROOM_EXITED_NOT_A_MEMBER
  | XMPP_CHATROOM_EXITED_SYSTEM_SHUTDOWN | XMPP_CHATROOM_EXITED_UNSPECIFIED

datatype room_call =
    ChatroomEnteredStatus presence entered_status
  | ChatroomExitedStatus exited_status
  | MemberEntered presence
  | MemberExited presence
  | MemberChanged presence
  | MessageReceived xml_element

record chatroom =
  cr_engine :: bool
  cr_handler :: bool
  cr_jid :: jid
  cr_nickname :: string
  cr_state :: room_state
  cr_members :: "(jid \<times> presence) list"
  cr_version :: int
  cr_calls :: "room_call list"

definition chatroom_init :: chatroom where
  "chatroom_init =
     \<lparr>cr_engine = False, cr_handler = False, cr_jid = Jid_of_string [], cr_nickname = [],
      cr_state = XMPP_CHATROOM_STATE_NOT_IN_ROOM, cr_members = [], cr_version = 0, cr_calls = []\<rparr>"

definition fire :: "room_call \<Rightarrow> chatroom \<Rightarrow> chatroom" where
  "fire x r = (if cr_handler r then r\<lparr>cr_calls := cr_calls r @ [x]\<rparr> else r)"

definition set_chatroom_handler :: "bool \<Rightarrow> chatroom \<Rightarrow> return_status \<times> chatroom" where
  "set_chatroom_handler h r = (XMPP_RETURN_OK, r\<lparr>cr_handler := h\<rparr>)"

definition set_chatroom_jid :: "jid \<Rightarrow> chatroom \<Rightarrow> return_status \<times> chatroom" where
  "set_chatroom_jid j r =
     (if cr_state r \<noteq> XMPP_CHATROOM_STATE_NOT_IN_ROOM then (XMPP_RETURN_BADSTATE, r)
      else if j \<noteq> BareJid j then (XMPP_RETURN_BADARGUMENT, r)
      else (XMPP_RETURN_OK, r\<lparr>cr_jid := j\<rparr>))"

definition set_nickname :: "string \<Rightarrow> chatroom \<Rightarrow> return_status \<times> chatroom" where
  "set_nickname n r =
     (if cr_state r \<noteq> XMPP_CHATROOM_STATE_NOT_IN_ROOM then (XMPP_RETURN_BADSTATE, r)
      else (XMPP_RETURN_OK, r\<lparr>cr_nickname := n\<rparr>))"

definition member_jid :: "chatroom \<Rightarrow> jid" where
  "member_jid r = Jid_of_parts (node_name (cr_jid r)) (domain_name (cr_jid r)) (cr_nickname r)"

definition CheckEnterChatroomStateOk :: "chatroom \<Rightarrow> bool" where
  "CheckEnterChatroomStateOk r \<longleftrightarrow> Jid_IsValid (cr_jid r) \<and> cr_nickname r \<noteq> []"

subsection \<open>Members\<close>

text \<open>\<open>XmppChatroomMemberImpl\<close>: the member is given a copy of the presence.\<close>

definition member_SetPresence :: "presence \<Rightarrow> presence" where
  "member_SetPresence p = snd (presence_set_raw_xml (Some (fst (presence_raw_xml p))) None)"

definition member_full_jid :: "presence \<Rightarrow> jid" where
  "member_full_jid m = Jid_of_string []"

definition member_name :: "presence \<Rightarrow> string" where
  "member_name m = resource_name (presence_jid m)"

definition GetChatroomMemberCount :: "chatroom \<Rightarrow> nat" where
  "GetChatroomMemberCount r = length (cr_members r)"

definition ServerChangedOtherPresence :: "xml_element \<Rightarrow> chatroom \<Rightarrow> return_status \<times> chatroom" where
  "ServerChangedOtherPresence presence_element r =
     (let (st, p) = presence_set_raw_xml (Some presence_element) None in
      if st \<noteq> XMPP_RETURN_OK then (st, r)
      else (XMPP_RETURN_OK,
        case map_find (presence_jid p) (cr_members r) of
          None \<Rightarrow>
            (if available p = XMPP_PRESENCE_AVAILABLE then
               (let m = member_SetPresence p in
                fire (MemberEntered m)
                  (r\<lparr>cr_members := map_insert (presence_jid m) m (cr_members r), cr_version := cr_version r + 1\<rparr>))
             else r)
        | Some member \<Rightarrow>
            (if available p = XMPP_PRESENCE_AVAILABLE then
               (let m = member_SetPresence p in
                fire (MemberChanged m)
                  (r\<lparr>cr_members := map_set (presence_jid p) m (cr_members r), cr_version := cr_version r + 1\<rparr>))
             else if available p = XMPP_PRESENCE_UNAVAILABLE then
               fire (MemberExited member)
                 (r\<lparr>cr_members := map_erase (presence_jid p) (cr_members r), cr_version := cr_version r + 1\<rparr>)
             else r)))"

subsection \<open>Entering and leaving\<close>

datatype transition_type = TRANSITION_TYPE_NONE | TRANSITION_TYPE_ENTER_SUCCESS
  | TRANSITION_TYPE_ENTER_FAILURE | TRANSITION_TYPE_EXIT_VOLUNTARILY | TRANSITION_TYPE_EXIT_INVOLUNTARILY

text \<open>Old state, new state, valid from the server, valid from the client, type.\<close>

definition Transitions :: "(room_state \<times> room_state \<times> bool \<times> bool \<times> transition_type) list" where
  "Transitions =
     [(XMPP_CHATROOM_STATE_NOT_IN_ROOM, XMPP_CHATROOM_STATE_REQUESTED_ENTER, False, True, TRANSITION_TYPE_NONE),
      (XMPP_CHATROOM_STATE_NOT_IN_ROOM, XMPP_CHATROOM_STATE_IN_ROOM, False, False, TRANSITION_TYPE_ENTER_SUCCESS),
      (XMPP_CHATROOM_STATE_NOT_IN_ROOM, XMPP_CHATROOM_STATE_REQUESTED_EXIT, False, False, TRANSITION_TYPE_NONE),
      (XMPP_CHATROOM_STATE_REQUESTED_ENTER, XMPP_CHATROOM_STATE_NOT_IN_ROOM, True, False, TRANSITION_TYPE_ENTER_FAILURE),
      (XMPP_CHATROOM_STATE_REQUESTED_ENTER, XMPP_CHATROOM_STATE_IN_ROOM, True, False, TRANSITION_TYPE_ENTER_SUCCESS),
      (XMPP_CHATROOM_STATE_REQUESTED_ENTER, XMPP_CHATROOM_STATE_REQUESTED_EXIT, False, False, TRANSITION_TYPE_NONE),
      (XMPP_CHATROOM_STATE_IN_ROOM, XMPP_CHATROOM_STATE_NOT_IN_ROOM, True, False, TRANSITION_TYPE_EXIT_INVOLUNTARILY),
      (XMPP_CHATROOM_STATE_IN_ROOM, XMPP_CHATROOM_STATE_REQUESTED_ENTER, False, False, TRANSITION_TYPE_NONE),
      (XMPP_CHATROOM_STATE_IN_ROOM, XMPP_CHATROOM_STATE_REQUESTED_EXIT, False, True, TRANSITION_TYPE_NONE),
      (XMPP_CHATROOM_STATE_REQUESTED_EXIT, XMPP_CHATROOM_STATE_NOT_IN_ROOM, True, False, TRANSITION_TYPE_EXIT_VOLUNTARILY),
      (XMPP_CHATROOM_STATE_REQUESTED_EXIT, XMPP_CHATROOM_STATE_REQUESTED_ENTER, False, False, TRANSITION_TYPE_NONE),
      (XMPP_CHATROOM_STATE_REQUESTED_EXIT, XMPP_CHATROOM_STATE_IN_ROOM, False, False, TRANSITION_TYPE_NONE)]"

definition GetEnterFailureFromXml :: "xml_element \<Rightarrow> entered_status" where
  "GetEnterFailureFromXml p =
     (case FirstNamed p QN_ERROR of None \<Rightarrow> XMPP_CHATROOM_ENTERED_FAILURE_UNSPECIFIED
      | Some err \<Rightarrow>
          (if \<not> HasAttr err QN_CODE then XMPP_CHATROOM_ENTERED_FAILURE_UNSPECIFIED
           else let code = atoi (Attr err QN_CODE) in
             if code = 401 then XMPP_CHATROOM_ENTERED_FAILURE_PASSWORD_REQUIRED
             else if code = 403 then
               (if FirstNamed err QN_GOOGLE_SESSION_BLOCKED \<noteq> None then XMPP_CHATROOM_ENTERED_FAILURE_MEMBER_BLOCKED
                else if FirstNamed err QN_GOOGLE_SESSION_BLOCKING \<noteq> None then XMPP_CHATROOM_ENTERED_FAILURE_MEMBER_BLOCKING
                else XMPP_CHATROOM_ENTERED_FAILURE_MEMBER_BANNED)
             else if code = 405 then XMPP_CHATROOM_ENTERED_FAILURE_ROOM_LOCKED
             else if code = 406 then XMPP_CHATROOM_ENTERED_FAILURE_OUTDATED_CLIENT
             else if code = 407 then XMPP_CHATROOM_ENTERED_FAILURE_NOT_A_MEMBER
             else if code = 409 then XMPP_CHATROOM_ENTERED_FAILURE_NICKNAME_CONFLICT
             else if code = 503 then XMPP_CHATROOM_ENTERED_FAILURE_MAX_USERS
             else XMPP_CHATROOM_ENTERED_FAILURE_UNSPECIFIED))"

definition GetExitFailureFromXml :: "xml_element \<Rightarrow> exited_status" where
  "GetExitFailureFromXml p =
     (case FirstNamed p QN_MUC_USER_X of None \<Rightarrow> XMPP_CHATROOM_EXITED_UNSPECIFIED
      | Some muc_user \<Rightarrow>
          (case FirstNamed muc_user QN_MUC_USER_STATUS of None \<Rightarrow> XMPP_CHATROOM_EXITED_UNSPECIFIED
           | Some user_status \<Rightarrow>
               (if \<not> HasAttr user_status QN_CODE then XMPP_CHATROOM_EXITED_UNSPECIFIED
                else let code = atoi (Attr user_status QN_CODE) in
                  if code = 307 then XMPP_CHATROOM_EXITED_KICKED
                  else if code = 322 then XMPP_CHATROOM_EXITED_NOT_A_MEMBER
                  else if code = 332 then XMPP_CHATROOM_EXITED_SYSTEM_SHUTDOWN
                  else XMPP_CHATROOM_EXITED_UNSPECIFIED)))"

definition FireEnteredStatus :: "xml_element option \<Rightarrow> entered_status \<Rightarrow> chatroom \<Rightarrow> chatroom" where
  "FireEnteredStatus p st r = fire (ChatroomEnteredStatus (snd (presence_set_raw_xml p None)) st) r"

definition ChangePresence :: "room_state \<Rightarrow> xml_element option \<Rightarrow> bool \<Rightarrow> chatroom \<Rightarrow> (return_status \<times> chatroom) option" where
  "ChangePresence new_state p isServer r =
     (let old_state = cr_state r in
      if old_state = new_state then Some (XMPP_RETURN_OK, r)
      else case find (\<lambda>(o1, n1, _). o1 = old_state \<and> n1 = new_state) Transitions of
        None \<Rightarrow> Some (XMPP_RETURN_BADSTATE, r)
      | Some (_, _, server_ok, client_ok, typ) \<Rightarrow>
          (if isServer \<and> \<not> server_ok then Some (XMPP_RETURN_BADSTATE, r)
           else if \<not> isServer \<and> \<not> client_ok then Some (XMPP_RETURN_BADARGUMENT, r)
           else let r1 = r\<lparr>cr_state := new_state\<rparr> in
             map_option (\<lambda>r2. (XMPP_RETURN_OK, r2))
               (case typ of
                  TRANSITION_TYPE_ENTER_SUCCESS \<Rightarrow> Some (FireEnteredStatus p XMPP_CHATROOM_ENTERED_SUCCESS r1)
                | TRANSITION_TYPE_ENTER_FAILURE \<Rightarrow>
                    map_option (\<lambda>el. FireEnteredStatus p (GetEnterFailureFromXml el) r1) p
                | TRANSITION_TYPE_EXIT_INVOLUNTARILY \<Rightarrow>
                    map_option (\<lambda>el. fire (ChatroomExitedStatus (GetExitFailureFromXml el)) r1) p
                | TRANSITION_TYPE_EXIT_VOLUNTARILY \<Rightarrow> Some (fire (ChatroomExitedStatus XMPP_CHATROOM_EXITED_REQUESTED) r1)
                | TRANSITION_TYPE_NONE \<Rightarrow> Some r1)))"

definition ClientChangeMyPresence :: "room_state \<Rightarrow> chatroom \<Rightarrow> (return_status \<times> chatroom) option" where
  "ClientChangeMyPresence new_state r = ChangePresence new_state None False r"

definition ServerChangeMyPresence :: "xml_element \<Rightarrow> chatroom \<Rightarrow> (return_status \<times> chatroom) option" where
  "ServerChangeMyPresence p r =
     ChangePresence (if \<not> HasAttr p QN_TYPE then XMPP_CHATROOM_STATE_IN_ROOM else XMPP_CHATROOM_STATE_NOT_IN_ROOM)
       (Some p) True r"

subsection \<open>Requests\<close>

text \<open>What follows a stanza sent: when the engine takes it, the state changes.\<close>

definition send_and_change :: "xml_element \<Rightarrow> room_state \<Rightarrow> chatroom \<Rightarrow> engine \<Rightarrow> (return_status \<times> chatroom \<times> engine) option" where
  "send_and_change element new_state r e =
     (let (st, e1) = SendStanza element e in
      if st = XMPP_RETURN_OK then map_option (\<lambda>(st1, r1). (st1, r1, e1)) (ClientChangeMyPresence new_state r)
      else Some (st, r, e1))"

definition RequestEnterChatroom :: "string \<Rightarrow> string \<Rightarrow> chatroom \<Rightarrow> engine \<Rightarrow> (return_status \<times> chatroom \<times> engine) option" where
  "RequestEnterChatroom client_version locale r e =
     (if \<not> cr_engine r then Some (XMPP_RETURN_BADSTATE, r, e)
      else if cr_state r \<noteq> XMPP_CHATROOM_STATE_NOT_IN_ROOM then Some (XMPP_RETURN_BADSTATE, r, e)
      else if \<not> CheckEnterChatroomStateOk r then Some (XMPP_RETURN_BADSTATE, r, e)
      else let muc_x = new_element QN_MUC_X;
               muc_x1 = (if client_version \<noteq> [] then
                   AddElement muc_x (Some (SetBodyText (new_element_ns QN_CLIENT_VERSION False) client_version)) else muc_x);
               muc_x2 = (if locale \<noteq> [] then
                   AddElement muc_x1 (Some (SetBodyText (new_element_ns QN_LOCALE False) locale)) else muc_x1);
               element = AddElement (AddAttr (new_element QN_PRESENCE) QN_TO (Jid_Str (member_jid r))) (Some muc_x2) in
        send_and_change element XMPP_CHATROOM_STATE_REQUESTED_ENTER r e)"

definition RequestExitChatroom :: "chatroom \<Rightarrow> engine \<Rightarrow> (return_status \<times> chatroom \<times> engine) option" where
  "RequestExitChatroom r e =
     (if \<not> cr_engine r then Some (XMPP_RETURN_BADSTATE, r, e)
      else if cr_state r \<noteq> XMPP_CHATROOM_STATE_IN_ROOM then Some (XMPP_RETURN_BADSTATE, r, e)
      else send_and_change (AddAttr (AddAttr (new_element QN_PRESENCE) QN_TO (Jid_Str (member_jid r))) QN_TYPE ''unavailable'')
             XMPP_CHATROOM_STATE_REQUESTED_EXIT r e)"

fun GetAttrValueFor :: "connection_status \<Rightarrow> string" where
  "GetAttrValueFor XMPP_CONNECTION_STATUS_CONNECTING = STR_PSTN_CONFERENCE_STATUS_CONNECTING"
| "GetAttrValueFor XMPP_CONNECTION_STATUS_CONNECTED = STR_PSTN_CONFERENCE_STATUS_CONNECTED"
| "GetAttrValueFor _ = []"

definition connection_presence :: "connection_status \<Rightarrow> chatroom \<Rightarrow> xml_element" where
  "connection_presence c r =
     (let element = AddElement (AddAttr (new_element QN_PRESENCE) QN_TO (Jid_Str (member_jid r))) (Some (new_element QN_MUC_X)) in
      if c \<noteq> XMPP_CONNECTION_STATUS_UNKNOWN
      then AddElement element (Some (AddAttr (new_element QN_GOOGLE_PSTN_CONFERENCE_STATUS) QN_STATUS (GetAttrValueFor c)))
      else element)"

definition RequestConnectionStatusChange :: "connection_status \<Rightarrow> chatroom \<Rightarrow> engine \<Rightarrow> return_status \<times> engine" where
  "RequestConnectionStatusChange c r e =
     (if \<not> cr_engine r then (XMPP_RETURN_BADSTATE, e)
      else if cr_state r \<noteq> XMPP_CHATROOM_STATE_IN_ROOM then (XMPP_RETURN_BADSTATE, e)
      else if \<not> CheckEnterChatroomStateOk r then (XMPP_RETURN_BADSTATE, e)
      else SendStanza (connection_presence c r) e)"

text \<open>\<open>SendMessage\<close> uses the engine without looking whether there is one.\<close>

definition room_SendMessage :: "xml_element \<Rightarrow> chatroom \<Rightarrow> engine \<Rightarrow> (return_status \<times> engine) option" where
  "room_SendMessage message r e =
     (if cr_state r \<noteq> XMPP_CHATROOM_STATE_IN_ROOM then Some (XMPP_RETURN_BADSTATE, e)
      else if elt_name message \<noteq> QN_MESSAGE then Some (XMPP_RETURN_BADARGUMENT, e)
      else if Attr message QN_TYPE \<noteq> ''groupchat'' then Some (XMPP_RETURN_BADARGUMENT, e)
      else if HasAttr message QN_FROM then Some (XMPP_RETURN_BADARGUMENT, e)
      else if Attr message QN_TO \<noteq> Jid_Str (cr_jid r) then Some (XMPP_RETURN_BADARGUMENT, e)
      else if \<not> cr_engine r then None
      else Some (SendStanza message e))"

subsection \<open>Incoming stanzas\<close>

definition room_HandleStanza :: "xml_element \<Rightarrow> chatroom \<Rightarrow> (bool \<times> chatroom) option" where
  "room_HandleStanza stanza r =
     (let from_jid = Jid_of_string (Attr stanza QN_FROM) in
      if cr_jid r \<noteq> BareJid from_jid then Some (False, r)
      else map_option (\<lambda>r1. (True, r1))
        (if elt_name stanza = QN_PRESENCE then
           (if from_jid = member_jid r then map_option snd (ServerChangeMyPresence stanza r)
            else Some (snd (ServerChangedOtherPresence stanza r)))
         else if elt_name stanza = QN_MESSAGE then Some (fire (MessageReceived stanza) r)
         else Some r))"

subsection \<open>The enumerator\<close>

record enumerator =
  en_version_created :: int
  en_iterator :: nat
  en_before_beginning :: bool

definition CreateMemberEnumerator :: "chatroom \<Rightarrow> enumerator" where
  "CreateMemberEnumerator r = \<lparr>en_version_created = cr_version r, en_iterator = 0, en_before_beginning = True\<rparr>"

definition en_IsValid :: "chatroom \<Rightarrow> enumerator \<Rightarrow> bool" where
  "en_IsValid r en \<longleftrightarrow> en_version_created en = cr_version r"

definition en_IsAfterEnd :: "chatroom \<Rightarrow> enumerator \<Rightarrow> bool" where
  "en_IsAfterEnd r en \<longleftrightarrow> en_iterator en = length (cr_members r)"

definition en_current :: "chatroom \<Rightarrow> enumerator \<Rightarrow> presence option" where
  "en_current r en =
     (if \<not> en_IsValid r en then None
      else if en_before_beginning en \<or> en_IsAfterEnd r en then None
      else Some (snd (cr_members r ! en_iterator en)))"

definition en_Prev :: "chatroom \<Rightarrow> enumerator \<Rightarrow> bool \<times> enumerator" where
  "en_Prev r en =
     (if \<not> en_IsValid r en then (False, en)
      else if en_before_beginning en then (False, en)
      else if en_iterator en = 0 then (False, en\<lparr>en_before_beginning := True\<rparr>)
      else let en1 = en\<lparr>en_iterator := en_iterator en - 1\<rparr> in (en_current r en1 \<noteq> None, en1))"

definition en_Next :: "chatroom \<Rightarrow> enumerator \<Rightarrow> bool \<times> enumerator" where
  "en_Next r en =
     (if \<not> en_IsValid r en then (False, en)
      else if en_before_beginning en then
        (let en1 = en\<lparr>en_before_beginning := False, en_iterator := 0\<rparr> in (en_current r en1 \<noteq> None, en1))
      else if en_IsAfterEnd r en then (False, en)
      else let en1 = en\<lparr>en_iterator := en_iterator en + 1\<rparr> in (en_current r en1 \<noteq> None, en1))"

subsection \<open>What the handler is told\<close>

text \<open>The handler's view of its own presence: in the room or not, None for an impossible order.\<close>

fun room_log :: "room_call list \<Rightarrow> bool \<Rightarrow> bool option" where
  "room_log [] b = Some b"
| "room_log (ChatroomEnteredStatus p st # xs) b = (if b then None else room_log xs (st = XMPP_CHATROOM_ENTERED_SUCCESS))"
| "room_log (ChatroomExitedStatus st # xs) b = (if b then room_log xs False else None)"
| "room_log (_ # xs) b = room_log xs b"

text \<open>The handler's view of the members.\<close>

fun member_log :: "room_call list \<Rightarrow> jid set \<Rightarrow> jid set option" where
  "member_log [] S = Some S"
| "member_log (MemberEntered m # xs) S = (if presence_jid m \<in> S then None else member_log xs (insert (presence_jid m) S))"
| "member_log (MemberChanged m # xs) S = (if presence_jid m \<in> S then member_log xs S else None)"
| "member_log (MemberExited m # xs) S = (if presence_jid m \<in> S then member_log xs (S - {presence_jid m}) else None)"
| "member_log (_ # xs) S = member_log xs S"

lemma room_log_append: "room_log (xs @ ys) b = Option.bind (room_log xs b) (room_log ys)"
  by (induction xs b rule: room_log.induct) auto

lemma member_log_append: "member_log (xs @ ys) S = Option.bind (member_log xs S) (member_log ys)"
  by (induction xs S rule: member_log.induct) auto

definition in_room :: "chatroom \<Rightarrow> bool" where
  "in_room r \<longleftrightarrow> cr_state r = XMPP_CHATROOM_STATE_IN_ROOM \<or> cr_state r = XMPP_CHATROOM_STATE_REQUESTED_EXIT"

definition room_ok :: "chatroom \<Rightarrow> bool" where
  "room_ok r \<longleftrightarrow>
     cr_handler r \<and> room_log (cr_calls r) False = Some (in_room r) \<and>
     member_log (cr_calls r) {} = Some (std.keys (cr_members r)) \<and> map_ok (cr_members r) \<and>
     (\<forall>k m. map_find k (cr_members r) = Some m \<longrightarrow> presence_jid m = k)"

inductive room_step :: "chatroom \<Rightarrow> chatroom \<Rightarrow> bool" where
  registered: "room_step r (r\<lparr>cr_engine := True\<rparr>)"
| set_jid: "set_chatroom_jid j r = (st, r') \<Longrightarrow> room_step r r'"
| set_nick: "set_nickname n r = (st, r') \<Longrightarrow> room_step r r'"
| enter: "RequestEnterChatroom v l r e = Some (st, r', e') \<Longrightarrow> room_step r r'"
| leave: "RequestExitChatroom r e = Some (st, r', e') \<Longrightarrow> room_step r r'"
| stanza: "room_HandleStanza s r = Some (b, r') \<Longrightarrow> room_step r r'"

lemma room_ok_frame:
  assumes "room_ok r" "cr_handler r' = cr_handler r" "cr_calls r' = cr_calls r" "in_room r' = in_room r"
    "cr_members r' = cr_members r"
  shows "room_ok r'"
  using assms by (simp add: room_ok_def)

lemma transition_cases:
  assumes "find (\<lambda>(o1, n1, _). o1 = a \<and> n1 = b) Transitions = Some (a', b', sv, cl, t)"
  shows "a' = a \<and> b' = b \<and>
    (sv \<longrightarrow> (a, b, t) \<in> {(XMPP_CHATROOM_STATE_REQUESTED_ENTER, XMPP_CHATROOM_STATE_NOT_IN_ROOM, TRANSITION_TYPE_ENTER_FAILURE),
       (XMPP_CHATROOM_STATE_REQUESTED_ENTER, XMPP_CHATROOM_STATE_IN_ROOM, TRANSITION_TYPE_ENTER_SUCCESS),
       (XMPP_CHATROOM_STATE_IN_ROOM, XMPP_CHATROOM_STATE_NOT_IN_ROOM, TRANSITION_TYPE_EXIT_INVOLUNTARILY),
       (XMPP_CHATROOM_STATE_REQUESTED_EXIT, XMPP_CHATROOM_STATE_NOT_IN_ROOM, TRANSITION_TYPE_EXIT_VOLUNTARILY)}) \<and>
    (cl \<longrightarrow> t = TRANSITION_TYPE_NONE \<and> (a, b) \<in> {(XMPP_CHATROOM_STATE_NOT_IN_ROOM, XMPP_CHATROOM_STATE_REQUESTED_ENTER),
       (XMPP_CHATROOM_STATE_IN_ROOM, XMPP_CHATROOM_STATE_REQUESTED_EXIT)})"
  using assms by (cases a; cases b) (auto simp: Transitions_def)

lemma GetEnterFailureFromXml_fails: "GetEnterFailureFromXml p \<noteq> XMPP_CHATROOM_ENTERED_SUCCESS"
  by (simp add: GetEnterFailureFromXml_def Let_def split: option.split)

lemma room_ok_fire_state:
  assumes "room_ok r" "x = ChatroomEnteredStatus p st \<and> \<not> in_room r \<and> in_room r' = (st = XMPP_CHATROOM_ENTERED_SUCCESS) \<or>
      x = ChatroomExitedStatus xt \<and> in_room r \<and> \<not> in_room r'"
    "r' = fire x (r\<lparr>cr_state := s\<rparr>)"
  shows "room_ok r'"
  using assms by (auto simp: room_ok_def fire_def room_log_append member_log_append)

lemma ChangePresence_server:
  assumes "room_ok r"
  shows "\<exists>st r'. ChangePresence new_state (Some p) True r = Some (st, r') \<and> room_ok r'"
proof (cases "cr_state r = new_state")
  case True
  with assms show ?thesis by (simp add: ChangePresence_def)
next
  case False
  show ?thesis
  proof (cases "find (\<lambda>(o1, n1, _). o1 = cr_state r \<and> n1 = new_state) Transitions")
    case None
    with False assms show ?thesis by (simp add: ChangePresence_def)
  next
    case (Some tr)
    obtain a b sv cl t where tr: "tr = (a, b, sv, cl, t)" by (cases tr)
    note cases = transition_cases [OF Some [unfolded tr]]
    show ?thesis
    proof (cases sv)
      case False
      with \<open>cr_state r \<noteq> new_state\<close> Some tr assms show ?thesis by (simp add: ChangePresence_def)
    next
      case True
      have h: "cr_handler r" using assms by (simp add: room_ok_def)
      have step: "ChangePresence new_state (Some p) True r = Some (XMPP_RETURN_OK,
          fire (case t of TRANSITION_TYPE_ENTER_SUCCESS \<Rightarrow> ChatroomEnteredStatus (snd (presence_set_raw_xml (Some p) None)) XMPP_CHATROOM_ENTERED_SUCCESS
              | TRANSITION_TYPE_ENTER_FAILURE \<Rightarrow> ChatroomEnteredStatus (snd (presence_set_raw_xml (Some p) None)) (GetEnterFailureFromXml p)
              | TRANSITION_TYPE_EXIT_INVOLUNTARILY \<Rightarrow> ChatroomExitedStatus (GetExitFailureFromXml p)
              | _ \<Rightarrow> ChatroomExitedStatus XMPP_CHATROOM_EXITED_REQUESTED) (r\<lparr>cr_state := new_state\<rparr>))"
        using False Some tr True cases
        by (auto simp: ChangePresence_def FireEnteredStatus_def split: transition_type.split)
      have "room_ok (fire x (r\<lparr>cr_state := new_state\<rparr>))"
        if "x = ChatroomEnteredStatus q st \<and> \<not> in_room r \<and> (new_state = XMPP_CHATROOM_STATE_IN_ROOM) = (st = XMPP_CHATROOM_ENTERED_SUCCESS)
              \<and> new_state \<noteq> XMPP_CHATROOM_STATE_REQUESTED_EXIT \<or>
            x = ChatroomExitedStatus xt \<and> in_room r \<and> new_state = XMPP_CHATROOM_STATE_NOT_IN_ROOM" for x q st xt
        using that by (intro room_ok_fire_state [OF assms, of x q st _ xt]) (auto simp: in_room_def fire_def)
      then show ?thesis
        unfolding step using cases True GetEnterFailureFromXml_fails [of p] by (auto simp: in_room_def)
    qed
  qed
qed

lemma ChangePresence_client:
  assumes "room_ok r" "cr_state r = XMPP_CHATROOM_STATE_NOT_IN_ROOM \<and> s = XMPP_CHATROOM_STATE_REQUESTED_ENTER \<or>
    cr_state r = XMPP_CHATROOM_STATE_IN_ROOM \<and> s = XMPP_CHATROOM_STATE_REQUESTED_EXIT"
  shows "ClientChangeMyPresence s r = Some (XMPP_RETURN_OK, r\<lparr>cr_state := s\<rparr>)" and "room_ok (r\<lparr>cr_state := s\<rparr>)"
proof -
  show "ClientChangeMyPresence s r = Some (XMPP_RETURN_OK, r\<lparr>cr_state := s\<rparr>)"
    using assms(2) by (auto simp: ClientChangeMyPresence_def ChangePresence_def Transitions_def)
  show "room_ok (r\<lparr>cr_state := s\<rparr>)"
    using assms(2) by (intro room_ok_frame [OF assms(1)]) (auto simp: in_room_def)
qed

lemma send_and_change_ok:
  assumes "room_ok r" "cr_state r = XMPP_CHATROOM_STATE_NOT_IN_ROOM \<and> s = XMPP_CHATROOM_STATE_REQUESTED_ENTER \<or>
    cr_state r = XMPP_CHATROOM_STATE_IN_ROOM \<and> s = XMPP_CHATROOM_STATE_REQUESTED_EXIT"
  shows "\<exists>st r' e'. send_and_change el s r e = Some (st, r', e') \<and> room_ok r'"
  using assms(1) ChangePresence_client [OF assms] by (auto simp: send_and_change_def split: prod.split)

lemma send_and_change_step:
  assumes "send_and_change el s r e = Some (st, r', e')" "room_ok r"
    "cr_state r = XMPP_CHATROOM_STATE_NOT_IN_ROOM \<and> s = XMPP_CHATROOM_STATE_REQUESTED_ENTER \<or>
     cr_state r = XMPP_CHATROOM_STATE_IN_ROOM \<and> s = XMPP_CHATROOM_STATE_REQUESTED_EXIT"
  shows "room_ok r'"
  using send_and_change_ok [OF assms(2,3), of el e] assms(1) by simp

lemma presence_set_raw_presence:
  "elt_name s = QN_PRESENCE \<Longrightarrow> presence_set_raw_xml (Some s) p = (XMPP_RETURN_OK, Some s)"
  by (simp add: presence_set_raw_xml_def copy_element_id)

lemma member_SetPresence_id: "elt_name s = QN_PRESENCE \<Longrightarrow> member_SetPresence (Some s) = Some s"
  by (simp add: member_SetPresence_def presence_raw_xml_def presence_skeleton_def presence_set_raw_presence)

lemma room_ok_member:
  assumes ok: "room_ok r" and r': "r' = fire x (r\<lparr>cr_members := m, cr_version := v\<rparr>)"
    and m: "map_ok m" "\<forall>k q. map_find k m = Some q \<longrightarrow> presence_jid q = k"
    and x: "x = MemberEntered p \<and> presence_jid p \<notin> std.keys (cr_members r) \<and> std.keys m = insert (presence_jid p) (std.keys (cr_members r)) \<or>
      x = MemberChanged p \<and> presence_jid p \<in> std.keys (cr_members r) \<and> std.keys m = std.keys (cr_members r) \<or>
      x = MemberExited p \<and> presence_jid p \<in> std.keys (cr_members r) \<and> std.keys m = std.keys (cr_members r) - {presence_jid p}"
  shows "room_ok r'"
proof -
  have h: "cr_handler r" "member_log (cr_calls r) {} = Some (std.keys (cr_members r))" "room_log (cr_calls r) False = Some (in_room r)"
    using ok by (simp_all add: room_ok_def)
  then show ?thesis
    using m x by (auto simp: r' room_ok_def fire_def room_log_append member_log_append in_room_def)
qed

lemma other_presence_ok:
  assumes ok: "room_ok r" and s: "elt_name s = QN_PRESENCE"
  shows "room_ok (snd (ServerChangedOtherPresence s r))"
proof -
  let ?j = "presence_jid (Some s)"
  have mo: "map_ok (cr_members r)" and jids: "\<forall>k q. map_find k (cr_members r) = Some q \<longrightarrow> presence_jid q = k"
    using ok by (simp_all add: room_ok_def)
  note [simp] = presence_set_raw_presence [OF s] member_SetPresence_id [OF s]
  show ?thesis
  proof (cases "map_find ?j (cr_members r)")
    case None
    then have absent: "?j \<notin> std.keys (cr_members r)" by (simp add: std.keys_find)
    show ?thesis
    proof (cases "available (Some s) = XMPP_PRESENCE_AVAILABLE")
      case True
      have "room_ok (fire (MemberEntered (Some s)) (r\<lparr>cr_members := map_insert ?j (Some s) (cr_members r), cr_version := cr_version r + 1\<rparr>))"
        by (rule room_ok_member [OF ok refl])
          (use mo jids absent None in \<open>auto simp: std.ok_ins std.find_ins std.keys_ins split: if_splits\<close>)
      with None True show ?thesis by (simp add: ServerChangedOtherPresence_def Let_def)
    next
      case False
      with None ok show ?thesis by (simp add: ServerChangedOtherPresence_def)
    qed
  next
    case (Some m)
    then have present: "?j \<in> std.keys (cr_members r)" "presence_jid m = ?j" using jids by (auto simp: std.keys_find)
    have changed: "room_ok (fire (MemberChanged (Some s)) (r\<lparr>cr_members := map_set ?j (Some s) (cr_members r), cr_version := cr_version r + 1\<rparr>))"
      by (rule room_ok_member [OF ok refl])
        (use mo jids present in \<open>auto simp: std.ok_upd std.find_upd std.keys_upd split: if_splits\<close>)
    have exited: "room_ok (fire (MemberExited m) (r\<lparr>cr_members := map_erase ?j (cr_members r), cr_version := cr_version r + 1\<rparr>))"
      by (rule room_ok_member [OF ok refl, where p = m])
        (use mo jids present in \<open>auto simp: std.ok_del std.find_del std.keys_del split: if_splits\<close>)
    from Some changed exited ok show ?thesis by (simp add: ServerChangedOtherPresence_def Let_def)
  qed
qed

lemma room_HandleStanza_ok:
  assumes "room_ok r"
  shows "\<exists>b r'. room_HandleStanza s r = Some (b, r') \<and> room_ok r'"
proof (cases "cr_jid r = BareJid (Jid_of_string (Attr s QN_FROM))")
  case True
  have fired: "room_ok (fire (MessageReceived s) r)"
    using assms by (auto simp: room_ok_def fire_def room_log_append member_log_append in_room_def)
  show ?thesis
  proof (cases "elt_name s = QN_PRESENCE")
    case pres: True
    obtain st r' where "ServerChangeMyPresence s r = Some (st, r')" "room_ok r'"
      unfolding ServerChangeMyPresence_def using ChangePresence_server [OF assms] by blast
    with True pres other_presence_ok [OF assms pres] show ?thesis by (auto simp: room_HandleStanza_def)
  qed (use True assms fired in \<open>auto simp: room_HandleStanza_def\<close>)
qed (use assms in \<open>auto simp: room_HandleStanza_def\<close>)

lemma RequestEnterChatroom_cases:
  "RequestEnterChatroom v l r e = Some (st, r', e') \<Longrightarrow>
   r' = r \<or> cr_state r = XMPP_CHATROOM_STATE_NOT_IN_ROOM \<and>
     (\<exists>el. send_and_change el XMPP_CHATROOM_STATE_REQUESTED_ENTER r e = Some (st, r', e'))"
  unfolding RequestEnterChatroom_def Let_def by (simp only: option.inject prod.inject split: if_split_asm) blast+

lemma RequestExitChatroom_cases:
  "RequestExitChatroom r e = Some (st, r', e') \<Longrightarrow>
   r' = r \<or> cr_state r = XMPP_CHATROOM_STATE_IN_ROOM \<and>
     (\<exists>el. send_and_change el XMPP_CHATROOM_STATE_REQUESTED_EXIT r e = Some (st, r', e'))"
  unfolding RequestExitChatroom_def by (auto split: if_split_asm)

lemma room_step_ok: "room_step r r' \<Longrightarrow> room_ok r \<Longrightarrow> room_ok r'"
proof (induction rule: room_step.induct)
  case (registered r)
  then show ?case by (rule room_ok_frame) (simp_all add: in_room_def)
next
  case (set_jid j r st r')
  then show ?case
    by (auto simp: set_chatroom_jid_def in_room_def split: if_splits intro: room_ok_frame)
next
  case (set_nick n r st r')
  then show ?case by (auto simp: set_nickname_def in_room_def split: if_splits intro: room_ok_frame)
next
  case (enter v l r e st r' e')
  from RequestEnterChatroom_cases [OF enter.hyps] show ?case
    using enter.prems by (auto dest: send_and_change_step)
next
  case (leave r e st r' e')
  from RequestExitChatroom_cases [OF leave.hyps] show ?case
    using leave.prems by (auto dest: send_and_change_step)
next
  case (stanza s r b r')
  with room_HandleStanza_ok [of r s] show ?case by auto
qed

subsection \<open>Enumeration\<close>

text \<open>A client's loop \<open>while (e->Next()) use(e->current())\<close>, for at most \<open>n\<close> turns.\<close>

fun en_collect :: "nat \<Rightarrow> chatroom \<Rightarrow> enumerator \<Rightarrow> presence option list" where
  "en_collect 0 r en = []"
| "en_collect (Suc n) r en =
     (case en_Next r en of (True, en1) \<Rightarrow> en_current r en1 # en_collect n r en1 | (False, en1) \<Rightarrow> [])"

lemma en_collect_from:
  assumes "en_version_created en = cr_version r" "\<not> en_before_beginning en" "en_iterator en < length (cr_members r)"
    "length (cr_members r) - en_iterator en \<le> n"
  shows "en_collect n r en = map (\<lambda>x. Some (snd x)) (drop (Suc (en_iterator en)) (cr_members r))"
  using assms
proof (induction n arbitrary: en)
  case (Suc n)
  let ?i = "Suc (en_iterator en)"
  show ?case
  proof (cases "?i < length (cr_members r)")
    case True
    let ?en1 = "en\<lparr>en_iterator := ?i\<rparr>"
    have "en_Next r en = (True, ?en1)" "en_current r ?en1 = Some (snd (cr_members r ! ?i))"
      using Suc.prems True by (simp_all add: en_Next_def en_current_def en_IsValid_def en_IsAfterEnd_def Let_def)
    moreover have "en_collect n r ?en1 = map (\<lambda>x. Some (snd x)) (drop (Suc ?i) (cr_members r))"
      using Suc.IH [of ?en1] Suc.prems True by simp
    ultimately show ?thesis using True by (simp add: Cons_nth_drop_Suc [symmetric])
  next
    case False
    with Suc.prems show ?thesis
      by (simp add: en_Next_def en_current_def en_IsValid_def en_IsAfterEnd_def Let_def)
  qed
qed simp

lemma en_collect_new:
  assumes "length (cr_members r) < n"
  shows "en_collect n r (CreateMemberEnumerator r) = map (\<lambda>x. Some (snd x)) (cr_members r)"
proof (cases "cr_members r")
  case Nil
  with assms show ?thesis
    by (cases n) (simp_all add: CreateMemberEnumerator_def en_Next_def en_current_def en_IsValid_def en_IsAfterEnd_def Let_def)
next
  case (Cons x xs)
  obtain k where n: "n = Suc k" using assms by (cases n) auto
  let ?en = "\<lparr>en_version_created = cr_version r, en_iterator = 0, en_before_beginning = False\<rparr>"
  have "en_Next r (CreateMemberEnumerator r) = (True, ?en)" "en_current r ?en = Some (snd x)"
    using Cons by (simp_all add: CreateMemberEnumerator_def en_Next_def en_current_def en_IsValid_def en_IsAfterEnd_def Let_def)
  moreover have "en_collect k r ?en = map (\<lambda>x. Some (snd x)) xs"
    using en_collect_from [of ?en r k] assms Cons n by simp
  ultimately show ?thesis by (simp add: n Cons)
qed

lemma version_counts_changes:
  "snd (ServerChangedOtherPresence s r) = r \<or> cr_version (snd (ServerChangedOtherPresence s r)) = cr_version r + 1"
  by (auto simp: ServerChangedOtherPresence_def fire_def Let_def split: prod.split option.split)

subsection \<open>Properties\<close>

text \<open>C22: whatever the client does and the server sends, no stanza crashes the room, and the handler is
  told a possible story: it hears that the room was entered only while outside and that it was left
  only while inside, and at every moment what it heard last agrees with the state; members enter only
  when they are absent and change or leave only when they are present, and the members it has heard
  of are the members of the room. The map of members stays ordered, with every member under its Jid.\<close>

theorem room_tells_a_possible_story:
  assumes "room_step\<^sup>*\<^sup>* (chatroom_init\<lparr>cr_handler := True\<rparr>) r"
  shows "room_log (cr_calls r) False =
      Some (cr_state r \<in> {XMPP_CHATROOM_STATE_IN_ROOM, XMPP_CHATROOM_STATE_REQUESTED_EXIT}) \<and>
    member_log (cr_calls r) {} = Some {j. map_find j (cr_members r) \<noteq> None} \<and>
    map_ok (cr_members r) \<and> (\<forall>j m. map_find j (cr_members r) = Some m \<longrightarrow> presence_jid m = j) \<and>
    room_HandleStanza s r \<noteq> None"
proof -
  have "room_ok (chatroom_init\<lparr>cr_handler := True\<rparr>)"
    by (simp add: room_ok_def chatroom_init_def in_room_def map_ok_def std.keys_def)
  with assms have "room_ok r" by (induction rule: rtranclp_induct) (auto intro: room_step_ok)
  then show ?thesis
    using room_HandleStanza_ok [of r s] by (auto simp: room_ok_def in_room_def std.keys_def)
qed

definition bobs_presence :: xml_element where
  "bobs_presence = AddAttr (new_element QN_PRESENCE) QN_FROM ''room@host/bob''"

definition room_with_bob :: chatroom where
  "room_with_bob =
     (let (st, r1) = set_chatroom_jid (Jid_of_string ''room@host'') (chatroom_init\<lparr>cr_handler := True\<rparr>) in
      case room_HandleStanza bobs_presence r1 of None \<Rightarrow> r1 | Some (b, r2) \<Rightarrow> r2)"

theorem room_tells_a_possible_story_witness:
  "member_log (cr_calls room_with_bob) {} = Some {j. map_find j (cr_members room_with_bob) \<noteq> None} \<and>
   cr_calls room_with_bob = [MemberEntered (Some bobs_presence)]"
proof -
  let ?r0 = "chatroom_init\<lparr>cr_handler := True\<rparr>"
  obtain st r1 where r1: "set_chatroom_jid (Jid_of_string ''room@host'') ?r0 = (st, r1)" by force
  have "room_step\<^sup>*\<^sup>* ?r0 room_with_bob"
  proof (cases "room_HandleStanza bobs_presence r1")
    case None
    with r1 room_step.set_jid [OF r1] show ?thesis by (simp add: room_with_bob_def)
  next
    case (Some br)
    then obtain b r2 where "room_HandleStanza bobs_presence r1 = Some (b, r2)" by (cases br) auto
    with r1 room_step.set_jid [OF r1] room_step.stanza [OF this] show ?thesis
      by (auto simp: room_with_bob_def intro: rtranclp.rtrancl_into_rtrancl)
  qed
  moreover have "cr_calls room_with_bob = [MemberEntered (Some bobs_presence)]" by code_simp
  ultimately show ?thesis using room_tells_a_possible_story by blast
qed

text \<open>The enumerator visits every member once, in the order of the Jids, and stops; and from the
  moment a presence changes the members it is invalid: it does not move and shows no member.\<close>

theorem enumerator_visits_members:
  assumes "length (cr_members r) < n"
  shows "en_collect n r (CreateMemberEnumerator r) = map (\<lambda>(j, m). Some m) (cr_members r) \<and>
    (let r' = snd (ServerChangedOtherPresence s r) in
     r' = r \<or> en_collect n r' (CreateMemberEnumerator r) = [] \<and> en_current r' en = None \<or>
       en_version_created en \<noteq> cr_version r)"
proof -
  have "en_collect n r' (CreateMemberEnumerator r) = []" if "cr_version r' = cr_version r + 1" for r'
    using that by (cases n) (simp_all add: CreateMemberEnumerator_def en_Next_def en_IsValid_def)
  then show ?thesis
    using en_collect_new [OF assms] version_counts_changes [of s r]
    by (auto simp: Let_def case_prod_unfold en_current_def en_IsValid_def)
qed

theorem enumerator_visits_members_witness:
  "en_collect 5 room_with_bob (CreateMemberEnumerator room_with_bob) = map (\<lambda>(j, m). Some m) (cr_members room_with_bob)"
proof -
  have "length (cr_members room_with_bob) = 1" by code_simp
  then show ?thesis using enumerator_visits_members [of room_with_bob 5 bobs_presence] by simp
qed

text \<open>A connection status sent to a room cannot be read back: the module writes the status into the
  attribute \<open>QN_STATUS\<close> of the client namespace, the reader looks at \<open>QN_ATTR_STATUS\<close> without a
  namespace, so every status, also \<open>connecting\<close>, reads as connected.\<close>

theorem connection_status_reads_as_connected:
  "presence_connection_status (Some (connection_presence c r)) = XMPP_CONNECTION_STATUS_CONNECTED"
proof -
  have "QN_ATTR_STATUS \<noteq> QN_STATUS" "QN_MUC_X \<noteq> QN_GOOGLE_PSTN_CONFERENCE_STATUS" by (simp_all add: xmpp_names qname_consts)
  then show ?thesis
    by (cases "c = XMPP_CONNECTION_STATUS_UNKNOWN")
      (simp_all add: connection_presence_def presence_connection_status_def FirstNamed_named named_elements_filter
        xmpp_names)
qed

end
