(* ===== verification/Tasks.thy ===== *)
theory Tasks
  imports Prelude
begin

text \<open>
  The task framework: \<open>talk/base/task.cc\<close>, \<open>talk/base/taskparent.cc\<close> and
  \<open>talk/base/taskrunner.cc\<close>, with the members of the three classes as records.

  Tasks live in a heap. The address of a task is its place in the heap, new tasks are put at
  the end and a deleted task leaves \<open>None\<close> behind, so an address is never used twice and every
  use of a deleted task shows: it raises the flag \<open>dangling\<close>. Since one number is taken for each
  task that is built, the address also is its \<open>unique_id_\<close>.

  The virtual functions of the subclasses are a table (\<open>vtable\<close>) of programs: a program makes
  calls to the framework, one after the other, may look at the world after each, and ends with
  the state it returns. The members of the subclasses are the type parameter. \<open>WakeTasks\<close> and
  \<open>OnTimeoutChange\<close> are counted (the runner of the program, \<open>XmppPump\<close>, posts a message on
  \<open>WakeTasks\<close>). \<open>CurrentTime\<close> is the field \<open>clock\<close>, which the environment sets.

  A call that the framework does not support (on a deleted task, a second \<open>Start\<close>, a child for
  a task that is done, deleting a task that runs) has the effect of the code and raises the
  flag \<open>misused\<close>.
\<close>

subsection \<open>State\<close>

datatype task_state = TASK_BLOCKED | TASK_INIT | TASK_START | TASK_DONE | TASK_ERROR
  | TASK_RESPONSE | TASK_NEXT nat \<comment> \<open>\<open>STATE_NEXT + n\<close>\<close>

record task =
  tk_parent :: "nat option" \<comment> \<open>\<open>None\<close>: the runner\<close>
  tk_children :: "nat list" \<comment> \<open>the set, in the order of the addresses\<close>
  tk_child_error :: bool
  tk_state :: task_state
  tk_blocked :: bool
  tk_done :: bool
  tk_aborted :: bool
  tk_busy :: bool
  tk_error :: bool
  tk_start_time :: int
  tk_timeout_time :: int
  tk_timeout_seconds :: int
  tk_timeout_suspended :: bool

record 'u world =
  heap :: "task option list"
  root_children :: "nat list"
  root_child_error :: bool
  runner_tasks :: "nat list"
  next_timeout_task :: "nat option"
  tasks_running :: bool
  clock :: int
  wakes :: nat
  timeout_changes :: nat
  timeouts_signalled :: "nat list"
  dangling :: bool
  misused :: bool
  user :: 'u

definition runner_init :: "'u \<Rightarrow> 'u world" where
  "runner_init u =
     \<lparr>heap = [], root_children = [], root_child_error = False, runner_tasks = [],
      next_timeout_task = None, tasks_running = False, clock = 0, wakes = 0, timeout_changes = 0,
      timeouts_signalled = [], dangling = False, misused = False, user = u\<rparr>"

definition new_task :: "nat option \<Rightarrow> task" where
  "new_task parent =
     \<lparr>tk_parent = parent, tk_children = [], tk_child_error = False, tk_state = TASK_INIT,
      tk_blocked = False, tk_done = False, tk_aborted = False, tk_busy = False, tk_error = False,
      tk_start_time = 0, tk_timeout_time = 0, tk_timeout_seconds = 0, tk_timeout_suspended = False\<rparr>"

definition task_at :: "'u world \<Rightarrow> nat \<Rightarrow> task option" where
  "task_at w a = (if a < length (heap w) then heap w ! a else None)"

definition set_dangling :: "'u world \<Rightarrow> 'u world" where
  "set_dangling w = w\<lparr>dangling := True\<rparr>"

definition on_task :: "nat \<Rightarrow> (task \<Rightarrow> task) \<Rightarrow> 'u world \<Rightarrow> 'u world" where
  "on_task a f w =
     (case task_at w a of
        Some t \<Rightarrow> w\<lparr>heap := (heap w)[a := Some (f t)]\<rparr>
      | None \<Rightarrow> set_dangling w)"

text \<open>A pointer is followed: a deleted task is noticed.\<close>

definition touch :: "nat option \<Rightarrow> 'u world \<Rightarrow> 'u world" where
  "touch p w = (case p of Some a \<Rightarrow> if task_at w a = None then set_dangling w else w | None \<Rightarrow> w)"

definition WakeTasks :: "'u world \<Rightarrow> 'u world" where
  "WakeTasks w = w\<lparr>wakes := wakes w + 1\<rparr>"

definition OnTimeoutChange :: "'u world \<Rightarrow> 'u world" where
  "OnTimeoutChange w = w\<lparr>timeout_changes := timeout_changes w + 1\<rparr>"

subsection \<open>Timeouts of the runner\<close>

abbreviation kSecToMsec :: int where "kSecToMsec \<equiv> 1000"
abbreviation kMsecTo100ns :: int where "kMsecTo100ns \<equiv> 10000"

definition next_task_timeout :: "'u world \<Rightarrow> int" where
  "next_task_timeout w =
     (case next_timeout_task w of
        None \<Rightarrow> 0
      | Some a \<Rightarrow> (case task_at w a of Some t \<Rightarrow> tk_timeout_time t | None \<Rightarrow> 0))"

definition CheckForTimeoutChange :: "int \<Rightarrow> 'u world \<Rightarrow> 'u world" where
  "CheckForTimeoutChange previous w0 =
     (let w = touch (next_timeout_task w0) w0;
          next_timeout = next_task_timeout w in
      if (previous = 0 \<and> next_timeout \<noteq> 0) \<or> next_timeout < previous
         \<or> (previous \<le> clock w \<and> previous \<noteq> next_timeout)
      then OnTimeoutChange w else w)"

fun recalc_loop :: "'u world \<Rightarrow> nat option \<Rightarrow> nat list \<Rightarrow> int \<Rightarrow> nat option \<Rightarrow> nat option" where
  "recalc_loop w exclude [] next_time next_task = next_task"
| "recalc_loop w exclude (a # as) next_time next_task =
     (case task_at w a of
        None \<Rightarrow> recalc_loop w exclude as next_time next_task
      | Some t \<Rightarrow>
          if \<not> tk_done t \<and> tk_timeout_time t > 0 \<and> exclude \<noteq> Some a
             \<and> (next_time = 0 \<or> tk_timeout_time t \<le> next_time)
          then recalc_loop w exclude as (tk_timeout_time t) (Some a)
          else recalc_loop w exclude as next_time next_task)"

definition RecalcNextTimeout :: "nat option \<Rightarrow> 'u world \<Rightarrow> 'u world" where
  "RecalcNextTimeout exclude w =
     w\<lparr>next_timeout_task := recalc_loop w exclude (runner_tasks w) 0 None,
       dangling := dangling w \<or> list_ex (\<lambda>a. task_at w a = None) (runner_tasks w)\<rparr>"

definition UpdateTaskTimeout :: "nat \<Rightarrow> int \<Rightarrow> 'u world \<Rightarrow> 'u world" where
  "UpdateTaskTimeout a previous_task_time w0 =
     (case task_at w0 a of
        None \<Rightarrow> set_dangling w0
      | Some t \<Rightarrow>
          let w = touch (next_timeout_task w0) w0;
              is_timeout_task = (next_timeout_task w = Some a);
              previous = (if is_timeout_task then previous_task_time else next_task_timeout w);
              w1 = (if tk_timeout_time t \<noteq> 0 then
                      if next_timeout_task w = None \<or> tk_timeout_time t \<le> next_task_timeout w
                      then w\<lparr>next_timeout_task := Some a\<rparr> else w
                    else if is_timeout_task then RecalcNextTimeout (Some a) w
                    else w) in
          if tasks_running w1 then w1 else CheckForTimeoutChange previous w1)"

subsection \<open>Timeouts of a task\<close>

definition TimedOut :: "'u world \<Rightarrow> nat \<Rightarrow> bool" where
  "TimedOut w a \<longleftrightarrow>
     (case task_at w a of
        Some t \<Rightarrow> tk_timeout_seconds t \<noteq> 0 \<and> tk_timeout_time t \<noteq> 0 \<and> clock w \<ge> tk_timeout_time t
      | None \<Rightarrow> False)"

definition ResetTimeout :: "nat \<Rightarrow> 'u world \<Rightarrow> 'u world" where
  "ResetTimeout a w =
     (case task_at w a of
        None \<Rightarrow> set_dangling w
      | Some t \<Rightarrow>
          let timeout_allowed = (tk_state t \<noteq> TASK_INIT \<and> tk_state t \<noteq> TASK_DONE \<and> tk_state t \<noteq> TASK_ERROR);
              time = (if tk_timeout_seconds t \<noteq> 0 \<and> timeout_allowed \<and> \<not> tk_timeout_suspended t
                      then clock w + tk_timeout_seconds t * kSecToMsec * kMsecTo100ns else 0) in
          UpdateTaskTimeout a (tk_timeout_time t) (on_task a (\<lambda>t. t\<lparr>tk_timeout_time := time\<rparr>) w))"

definition ClearTimeout :: "nat \<Rightarrow> 'u world \<Rightarrow> 'u world" where
  "ClearTimeout a w =
     (case task_at w a of
        None \<Rightarrow> set_dangling w
      | Some t \<Rightarrow> UpdateTaskTimeout a (tk_timeout_time t) (on_task a (\<lambda>t. t\<lparr>tk_timeout_time := 0\<rparr>) w))"

definition set_timeout_seconds :: "nat \<Rightarrow> int \<Rightarrow> 'u world \<Rightarrow> 'u world" where
  "set_timeout_seconds a seconds w = ResetTimeout a (on_task a (\<lambda>t. t\<lparr>tk_timeout_seconds := seconds\<rparr>) w)"

definition SuspendTimeout :: "nat \<Rightarrow> 'u world \<Rightarrow> 'u world" where
  "SuspendTimeout a w =
     (case task_at w a of
        None \<Rightarrow> set_dangling w
      | Some t \<Rightarrow> if \<not> tk_timeout_suspended t
                  then ResetTimeout a (on_task a (\<lambda>t. t\<lparr>tk_timeout_suspended := True\<rparr>) w) else w)"

definition ResumeTimeout :: "nat \<Rightarrow> 'u world \<Rightarrow> 'u world" where
  "ResumeTimeout a w =
     (case task_at w a of
        None \<Rightarrow> set_dangling w
      | Some t \<Rightarrow> if tk_timeout_suspended t
                  then ResetTimeout a (on_task a (\<lambda>t. t\<lparr>tk_timeout_suspended := False\<rparr>) w) else w)"

subsection \<open>Waking, stopping and aborting\<close>

definition Wake :: "nat \<Rightarrow> 'u world \<Rightarrow> 'u world" where
  "Wake a w =
     (case task_at w a of
        None \<Rightarrow> set_dangling w
      | Some t \<Rightarrow>
          if tk_done t then w
          else if tk_blocked t then WakeTasks (on_task a (\<lambda>t. t\<lparr>tk_blocked := False\<rparr>) w)
          else w)"

text \<open>\<open>Task::Error\<close>: the task is to fail at its next step.\<close>

definition task_Error :: "nat \<Rightarrow> 'u world \<Rightarrow> 'u world" where
  "task_Error a w =
     (case task_at w a of
        None \<Rightarrow> set_dangling w
      | Some t \<Rightarrow>
          if tk_error t \<or> tk_done t then w else Wake a (on_task a (\<lambda>t. t\<lparr>tk_error := True\<rparr>) w))"

definition AddChild :: "nat option \<Rightarrow> nat \<Rightarrow> 'u world \<Rightarrow> 'u world" where
  "AddChild p c w =
     (case p of
        None \<Rightarrow> w\<lparr>root_children := List.insort_insert c (root_children w)\<rparr>
      | Some a \<Rightarrow> on_task a (\<lambda>t. t\<lparr>tk_children := List.insort_insert c (tk_children t)\<rparr>) w)"

text \<open>\<open>child_failed\<close> is \<open>child->HasError()\<close>.\<close>

definition OnChildStopped :: "nat option \<Rightarrow> nat \<Rightarrow> bool \<Rightarrow> 'u world \<Rightarrow> 'u world" where
  "OnChildStopped p c child_failed w =
     (case p of
        None \<Rightarrow> w\<lparr>root_child_error := root_child_error w \<or> child_failed,
                  root_children := remove1 c (root_children w)\<rparr>
      | Some a \<Rightarrow> on_task a (\<lambda>t. t\<lparr>tk_child_error := tk_child_error t \<or> child_failed,
                                    tk_children := remove1 c (tk_children t)\<rparr>) w)"

text \<open>\<open>OnStopped\<close>, \<open>abort\<close> being the abort of a child (a copy of the set is walked).\<close>

definition OnStopped :: "(nat \<Rightarrow> 'u world \<Rightarrow> 'u world) \<Rightarrow> nat \<Rightarrow> 'u world \<Rightarrow> 'u world" where
  "OnStopped abort a w =
     (case task_at w a of
        None \<Rightarrow> set_dangling w
      | Some t \<Rightarrow> OnChildStopped (tk_parent t) a (tk_state t = TASK_ERROR) (fold abort (tk_children t) w))"

text \<open>
  The virtual \<open>Stop\<close>: the subclass does its own part (\<open>stop_hook\<close>, on its members only) and
  calls \<open>Task::Stop\<close>.
\<close>

definition Stop :: "(nat \<Rightarrow> 'u \<Rightarrow> 'u) \<Rightarrow> (nat \<Rightarrow> 'u world \<Rightarrow> 'u world) \<Rightarrow> nat \<Rightarrow> 'u world \<Rightarrow> 'u world" where
  "Stop stop_hook abort a w = OnStopped abort a (w\<lparr>user := stop_hook a (user w)\<rparr>)"

text \<open>
  \<open>Abort(true)\<close>. The recursion follows the tree of children, which is no deeper than the heap is
  long (the last argument but two); running out of this bound would raise \<open>dangling\<close>.
\<close>

fun abort_tree :: "(nat \<Rightarrow> 'u \<Rightarrow> 'u) \<Rightarrow> nat \<Rightarrow> nat \<Rightarrow> 'u world \<Rightarrow> 'u world" where
  "abort_tree hook 0 a w = set_dangling w"
| "abort_tree hook (Suc depth) a w =
     (case task_at w a of
        None \<Rightarrow> set_dangling w
      | Some t \<Rightarrow>
          if tk_done t then w
          else if tk_busy t then on_task a (\<lambda>t. t\<lparr>tk_aborted := True\<rparr>) w
          else Stop hook (abort_tree hook depth) a
                 (on_task a (\<lambda>t. t\<lparr>tk_aborted := True, tk_done := True, tk_blocked := True, tk_error := True\<rparr>) w))"

definition Abort :: "(nat \<Rightarrow> 'u \<Rightarrow> 'u) \<Rightarrow> nat \<Rightarrow> bool \<Rightarrow> 'u world \<Rightarrow> 'u world" where
  "Abort hook a nowake w =
     (let w1 = abort_tree hook (length (heap w) + 1) a w in
      case task_at w a of
        Some t \<Rightarrow> if \<not> tk_done t \<and> \<not> tk_busy t \<and> \<not> nowake then WakeTasks w1 else w1
      | None \<Rightarrow> w1)"

definition stop_task :: "(nat \<Rightarrow> 'u \<Rightarrow> 'u) \<Rightarrow> nat \<Rightarrow> 'u world \<Rightarrow> 'u world" where
  "stop_task hook a w = Stop hook (abort_tree hook (length (heap w) + 1)) a w"

definition AbortAllChildren :: "(nat \<Rightarrow> 'u \<Rightarrow> 'u) \<Rightarrow> 'u world \<Rightarrow> 'u world" where
  "AbortAllChildren hook w = fold (abort_tree hook (length (heap w) + 1)) (root_children w) w"

subsection \<open>Construction, start and deletion\<close>

definition construct_task :: "nat option \<Rightarrow> 'u world \<Rightarrow> 'u world" where
  "construct_task p w = AddChild p (length (heap w)) (w\<lparr>heap := heap w @ [Some (new_task p)]\<rparr>)"

definition StartTask :: "nat \<Rightarrow> 'u world \<Rightarrow> 'u world" where
  "StartTask a w = WakeTasks (UpdateTaskTimeout a 0 (w\<lparr>runner_tasks := runner_tasks w @ [a]\<rparr>))"

definition Start :: "nat \<Rightarrow> 'u world \<Rightarrow> 'u world" where
  "Start a w =
     (case task_at w a of
        None \<Rightarrow> set_dangling w
      | Some t \<Rightarrow>
          if tk_state t \<noteq> TASK_INIT then w
          else StartTask a (on_task a (\<lambda>t. t\<lparr>tk_start_time := clock w\<rparr>) w))"

definition delete_task :: "(nat \<Rightarrow> 'u \<Rightarrow> 'u) \<Rightarrow> nat \<Rightarrow> 'u world \<Rightarrow> 'u world" where
  "delete_task hook a w =
     (case task_at w a of
        None \<Rightarrow> set_dangling w
      | Some t \<Rightarrow>
          let w1 = (if tk_done t then w\<lparr>user := hook a (user w)\<rparr> else stop_task hook a w) in
          w1\<lparr>heap := (heap w1)[a := None]\<rparr>)"

definition ElapsedTime :: "nat \<Rightarrow> 'u world \<Rightarrow> int" where
  "ElapsedTime a w = (case task_at w a of Some t \<Rightarrow> clock w - tk_start_time t | None \<Rightarrow> 0)"

definition children_done :: "nat list \<Rightarrow> 'u world \<Rightarrow> bool" where
  "children_done cs w \<longleftrightarrow> list_all (\<lambda>c. case task_at w c of Some t \<Rightarrow> tk_done t | None \<Rightarrow> True) cs"

definition AllChildrenDone :: "nat option \<Rightarrow> 'u world \<Rightarrow> bool" where
  "AllChildrenDone p w \<longleftrightarrow>
     (case p of None \<Rightarrow> children_done (root_children w) w
      | Some a \<Rightarrow> (case task_at w a of Some t \<Rightarrow> children_done (tk_children t) w | None \<Rightarrow> True))"

definition AnyChildError :: "nat option \<Rightarrow> 'u world \<Rightarrow> bool" where
  "AnyChildError p w \<longleftrightarrow>
     (case p of None \<Rightarrow> root_child_error w
      | Some a \<Rightarrow> (case task_at w a of Some t \<Rightarrow> tk_child_error t | None \<Rightarrow> False))"

definition PollTasks :: "'u world \<Rightarrow> 'u world" where
  "PollTasks w =
     (case next_timeout_task w of
        Some a \<Rightarrow> if TimedOut w a then WakeTasks (Wake a w) else touch (Some a) w
      | None \<Rightarrow> w)"

fun GetStateName :: "task_state \<Rightarrow> string" where
  "GetStateName TASK_BLOCKED = ''BLOCKED''"
| "GetStateName TASK_INIT = ''INIT''"
| "GetStateName TASK_START = ''START''"
| "GetStateName TASK_DONE = ''DONE''"
| "GetStateName TASK_ERROR = ''ERROR''"
| "GetStateName TASK_RESPONSE = ''RESPONSE''"
| "GetStateName (TASK_NEXT n) = ''??''"

subsection \<open>The programs of the subclasses\<close>

text \<open>The calls a program may make, on itself or on other tasks; \<open>PutUser\<close> assigns its members.\<close>

datatype 'u task_call =
    Construct "nat option"
  | CallStart nat
  | CallAbort nat bool
  | CallWake nat
  | CallError nat
  | CallSetTimeout nat int
  | CallSuspendTimeout nat
  | CallResumeTimeout nat
  | CallPollTasks
  | CallDelete nat
  | PutUser 'u

datatype 'u task_program =
    Return task_state
  | Call "'u task_call" "'u world \<Rightarrow> 'u task_program"

record 'u vtable =
  ProcessStart :: "nat \<Rightarrow> 'u world \<Rightarrow> 'u task_program"
  ProcessResponse :: "nat \<Rightarrow> 'u world \<Rightarrow> 'u task_program"
  OnTimeout :: "nat \<Rightarrow> 'u world \<Rightarrow> 'u task_program"
  ProcessOther :: "nat \<Rightarrow> task_state \<Rightarrow> ('u world \<Rightarrow> 'u task_program) option"
    \<comment> \<open>the states that an override of \<open>Process\<close> handles\<close>
  stop_hook :: "nat \<Rightarrow> 'u \<Rightarrow> 'u"

text \<open>What the framework asks of its callers.\<close>

fun legal_call :: "'u task_call \<Rightarrow> 'u world \<Rightarrow> bool" where
  "legal_call (Construct p) w \<longleftrightarrow>
     (case p of None \<Rightarrow> True
      | Some a \<Rightarrow> (case task_at w a of Some t \<Rightarrow> \<not> tk_done t | None \<Rightarrow> False))"
| "legal_call (CallStart a) w \<longleftrightarrow> task_at w a \<noteq> None \<and> a \<notin> set (runner_tasks w)"
| "legal_call (CallDelete a) w \<longleftrightarrow>
     a \<notin> set (runner_tasks w) \<and> (case task_at w a of Some t \<Rightarrow> tk_children t = [] | None \<Rightarrow> False)"
| "legal_call (CallAbort a b) w \<longleftrightarrow> task_at w a \<noteq> None"
| "legal_call (CallWake a) w \<longleftrightarrow> task_at w a \<noteq> None"
| "legal_call (CallError a) w \<longleftrightarrow> task_at w a \<noteq> None"
| "legal_call (CallSetTimeout a s) w \<longleftrightarrow> task_at w a \<noteq> None"
| "legal_call (CallSuspendTimeout a) w \<longleftrightarrow> task_at w a \<noteq> None"
| "legal_call (CallResumeTimeout a) w \<longleftrightarrow> task_at w a \<noteq> None"
| "legal_call CallPollTasks w \<longleftrightarrow> True"
| "legal_call (PutUser u) w \<longleftrightarrow> True"

fun perform :: "(nat \<Rightarrow> 'u \<Rightarrow> 'u) \<Rightarrow> 'u task_call \<Rightarrow> 'u world \<Rightarrow> 'u world" where
  "perform hook (Construct p) w = construct_task p w"
| "perform hook (CallStart a) w = Start a w"
| "perform hook (CallAbort a nowake) w = Abort hook a nowake w"
| "perform hook (CallWake a) w = Wake a w"
| "perform hook (CallError a) w = task_Error a w"
| "perform hook (CallSetTimeout a s) w = set_timeout_seconds a s w"
| "perform hook (CallSuspendTimeout a) w = SuspendTimeout a w"
| "perform hook (CallResumeTimeout a) w = ResumeTimeout a w"
| "perform hook CallPollTasks w = PollTasks w"
| "perform hook (CallDelete a) w = delete_task hook a w"
| "perform hook (PutUser u) w = w\<lparr>user := u\<rparr>"

definition call :: "(nat \<Rightarrow> 'u \<Rightarrow> 'u) \<Rightarrow> 'u task_call \<Rightarrow> 'u world \<Rightarrow> 'u world" where
  "call hook c w = perform hook c (if legal_call c w then w else w\<lparr>misused := True\<rparr>)"

primrec run_program :: "(nat \<Rightarrow> 'u \<Rightarrow> 'u) \<Rightarrow> 'u task_program \<Rightarrow> 'u world \<Rightarrow> 'u world \<times> task_state" where
  "run_program hook (Return s) = (\<lambda>w. (w, s))"
| "run_program hook (Call c k) = (\<lambda>w. let w' = call hook c w in run_program hook (k w') w')"

subsection \<open>One step of a task\<close>

definition Process :: "'u vtable \<Rightarrow> nat \<Rightarrow> task_state \<Rightarrow> 'u world \<Rightarrow> 'u world \<times> task_state" where
  "Process V a state w =
     (case ProcessOther V a state of
        Some program \<Rightarrow> run_program (stop_hook V) (program w) w
      | None \<Rightarrow>
          if TimedOut w a then
            let w1 = ClearTimeout a w;
                (w2, newstate) = run_program (stop_hook V) (OnTimeout V a w1) w1 in
            (w2\<lparr>timeouts_signalled := timeouts_signalled w2 @ [a]\<rparr>, newstate)
          else
            (case state of
               TASK_INIT \<Rightarrow> (w, TASK_START)
             | TASK_START \<Rightarrow> run_program (stop_hook V) (ProcessStart V a w) w
             | TASK_RESPONSE \<Rightarrow> run_program (stop_hook V) (ProcessResponse V a w) w
             | TASK_DONE \<Rightarrow> (w, TASK_BLOCKED)
             | TASK_ERROR \<Rightarrow> (w, TASK_BLOCKED)
             | _ \<Rightarrow> (w, TASK_ERROR)))"

text \<open>The part of \<open>Step\<close> after \<open>Process\<close>.\<close>

definition after_process :: "'u vtable \<Rightarrow> nat \<Rightarrow> task_state \<Rightarrow> 'u world \<Rightarrow> 'u world" where
  "after_process V a new_state w =
     (case task_at w a of
        None \<Rightarrow> set_dangling w
      | Some t \<Rightarrow>
          if tk_aborted t then Abort (stop_hook V) a True w
          else
            let w1 = (if new_state = TASK_BLOCKED then on_task a (\<lambda>t. t\<lparr>tk_blocked := True\<rparr>) w
                      else ResetTimeout a (on_task a (\<lambda>t. t\<lparr>tk_state := new_state, tk_blocked := False\<rparr>) w)) in
            if new_state = TASK_DONE then
              on_task a (\<lambda>t. t\<lparr>tk_blocked := True\<rparr>)
                (stop_task (stop_hook V) a (on_task a (\<lambda>t. t\<lparr>tk_done := True\<rparr>) w1))
            else if new_state = TASK_ERROR then
              on_task a (\<lambda>t. t\<lparr>tk_blocked := True\<rparr>)
                (stop_task (stop_hook V) a (on_task a (\<lambda>t. t\<lparr>tk_done := True, tk_error := True\<rparr>) w1))
            else w1)"

definition Step :: "'u vtable \<Rightarrow> nat \<Rightarrow> 'u world \<Rightarrow> 'u world" where
  "Step V a w =
     (case task_at w a of
        None \<Rightarrow> set_dangling w
      | Some t \<Rightarrow>
          if tk_done t then on_task a (\<lambda>t. t\<lparr>tk_blocked := True\<rparr>) w
          else if tk_error t then
            stop_task (stop_hook V) a
              (on_task a (\<lambda>t. t\<lparr>tk_done := True, tk_state := TASK_ERROR, tk_blocked := True\<rparr>) w)
          else
            let (w1, new_state) = Process V a (tk_state t) (on_task a (\<lambda>t. t\<lparr>tk_busy := True\<rparr>) w) in
            after_process V a new_state (on_task a (\<lambda>t. t\<lparr>tk_busy := False\<rparr>) w1))"

subsection \<open>Running the tasks\<close>

text \<open>
  The loops of \<open>InternalRunTasks\<close>: \<open>i\<close> is the index of the \<open>for\<close> loop and \<open>did_run\<close> the flag of the
  outer loop. Tasks that never block keep it running for ever: then there is no result.
\<close>

definition task_blocked :: "'u world \<Rightarrow> nat \<Rightarrow> bool" where
  "task_blocked w a \<longleftrightarrow> (case task_at w a of Some t \<Rightarrow> tk_blocked t | None \<Rightarrow> True)"

partial_function (option) run_loop :: "'u vtable \<Rightarrow> nat \<Rightarrow> bool \<Rightarrow> 'u world \<Rightarrow> 'u world option" where
  "run_loop V i did_run w =
     (if i < length (runner_tasks w) then
        let a = runner_tasks w ! i; w0 = touch (Some a) w in
        if \<not> task_blocked w a then run_loop V i True (Step V a w0)
        else run_loop V (i + 1) did_run w0
      else if did_run then run_loop V 0 False w
      else Some w)"

text \<open>
  Deleting the tasks that are done: the tasks that stay, and whether the next timeout has to be
  looked for.
\<close>

fun delete_loop :: "(nat \<Rightarrow> 'u \<Rightarrow> 'u) \<Rightarrow> nat list \<Rightarrow> bool \<Rightarrow> 'u world \<Rightarrow> 'u world \<times> nat list \<times> bool" where
  "delete_loop hook [] recalc w = (w, [], recalc)"
| "delete_loop hook (a # as) recalc w0 =
     (case task_at w0 a of
        Some t \<Rightarrow>
          if tk_done t then
            let w = touch (next_timeout_task w0) w0;
                hit = (next_timeout_task w = Some a);
                w1 = (if hit then w\<lparr>next_timeout_task := None\<rparr> else w) in
            delete_loop hook as (recalc \<or> hit) (delete_task hook a w1)
          else let (w1, left, r) = delete_loop hook as recalc w0 in (w1, a # left, r)
      | None \<Rightarrow> let (w1, left, r) = delete_loop hook as recalc (set_dangling w0) in (w1, a # left, r))"

definition finish_run :: "(nat \<Rightarrow> 'u \<Rightarrow> 'u) \<Rightarrow> bool \<Rightarrow> int \<Rightarrow> 'u world \<Rightarrow> 'u world" where
  "finish_run hook in_destructor previous w =
     (let (w1, left, recalc) = delete_loop hook (runner_tasks w) False w;
          w2 = w1\<lparr>runner_tasks := left\<rparr>;
          w3 = (if recalc then RecalcNextTimeout None w2 else w2);
          w4 = (if in_destructor then w3 else CheckForTimeoutChange previous w3) in
      w4\<lparr>tasks_running := False\<rparr>)"

definition InternalRunTasks :: "'u vtable \<Rightarrow> bool \<Rightarrow> 'u world \<Rightarrow> 'u world option" where
  "InternalRunTasks V in_destructor w =
     (if tasks_running w then Some w
      else map_option (finish_run (stop_hook V) in_destructor (next_task_timeout w))
             (run_loop V 0 False (w\<lparr>tasks_running := True\<rparr>)))"

definition RunTasks :: "'u vtable \<Rightarrow> 'u world \<Rightarrow> 'u world option" where
  "RunTasks V w = InternalRunTasks V False w"

text \<open>The destructor of the runner.\<close>

definition destroy_runner :: "'u vtable \<Rightarrow> 'u world \<Rightarrow> 'u world option" where
  "destroy_runner V w = InternalRunTasks V True (AbortAllChildren (stop_hook V) w)"

end
