(* ===== verification/TaskTree.thy ===== *)
theory TaskTree
  imports Tasks
begin

text \<open>
  The tree of tasks: the invariant of the heap, and the proofs that building, stopping, aborting
  and deleting a task, and the timeouts, keep it.
\<close>

subsection \<open>The heap\<close>

lemma task_at_on_task [simp]:
  "task_at (on_task a f w) b = (if b = a then map_option f (task_at w a) else task_at w b)"
  by (auto simp: on_task_def task_at_def set_dangling_def split: option.splits if_splits)

lemma length_heap_on_task [simp]: "length (heap (on_task a f w)) = length (heap w)"
  by (simp add: on_task_def set_dangling_def split: option.split)

lemma on_task_sel [simp]:
  "root_children (on_task a f w) = root_children w"
  "root_child_error (on_task a f w) = root_child_error w"
  "runner_tasks (on_task a f w) = runner_tasks w"
  "next_timeout_task (on_task a f w) = next_timeout_task w"
  "tasks_running (on_task a f w) = tasks_running w"
  "clock (on_task a f w) = clock w"
  "misused (on_task a f w) = misused w"
  "user (on_task a f w) = user w"
  "dangling (on_task a f w) \<longleftrightarrow> dangling w \<or> task_at w a = None"
  by (auto simp: on_task_def set_dangling_def split: option.split)

lemma task_at_heap_only [simp]:
  "task_at (w\<lparr>user := u\<rparr>) = task_at w" "task_at (w\<lparr>misused := m\<rparr>) = task_at w"
  "task_at (w\<lparr>root_children := cs\<rparr>) = task_at w" "task_at (w\<lparr>root_child_error := e\<rparr>) = task_at w"
  "task_at (w\<lparr>runner_tasks := ts\<rparr>) = task_at w" "task_at (w\<lparr>next_timeout_task := x\<rparr>) = task_at w"
  "task_at (w\<lparr>tasks_running := r\<rparr>) = task_at w" "task_at (w\<lparr>timeouts_signalled := ss\<rparr>) = task_at w"
  "task_at (w\<lparr>dangling := d\<rparr>) = task_at w" "task_at (w\<lparr>clock := k\<rparr>) = task_at w"
  by (auto simp: task_at_def fun_eq_iff)

lemma task_at_signals [simp]:
  "task_at (set_dangling w) = task_at w" "task_at (WakeTasks w) = task_at w"
  "task_at (OnTimeoutChange w) = task_at w"
  by (auto simp: task_at_def fun_eq_iff set_dangling_def WakeTasks_def OnTimeoutChange_def)

lemma task_at_touch [simp]: "task_at (touch p w) = task_at w"
  by (simp add: touch_def split: option.split)

lemma touch_alive: "p = None \<or> task_at w (the p) \<noteq> None \<Longrightarrow> touch p w = w"
  by (auto simp: touch_def split: option.split)

lemma task_at_less: "task_at w a = Some t \<Longrightarrow> a < length (heap w)"
  by (simp add: task_at_def split: if_splits)

lemma task_at_delete:
  "task_at (w\<lparr>heap := (heap w)[a := None]\<rparr>) b = (if b = a then None else task_at w b)"
  by (simp add: task_at_def nth_list_update)

lemma task_at_construct:
  "task_at (w\<lparr>heap := heap w @ [Some t]\<rparr>) b = (if b = length (heap w) then Some t else task_at w b)"
  by (simp add: task_at_def nth_append)

lemma signals_sel [simp]:
  "runner_tasks (set_dangling w) = runner_tasks w" "runner_tasks (WakeTasks w) = runner_tasks w"
  "runner_tasks (OnTimeoutChange w) = runner_tasks w"
  "root_children (set_dangling w) = root_children w" "root_children (WakeTasks w) = root_children w"
  "root_children (OnTimeoutChange w) = root_children w"
  "next_timeout_task (set_dangling w) = next_timeout_task w" "next_timeout_task (WakeTasks w) = next_timeout_task w"
  "next_timeout_task (OnTimeoutChange w) = next_timeout_task w"
  "tasks_running (set_dangling w) = tasks_running w" "tasks_running (WakeTasks w) = tasks_running w"
  "tasks_running (OnTimeoutChange w) = tasks_running w"
  "misused (set_dangling w) = misused w" "misused (WakeTasks w) = misused w"
  "misused (OnTimeoutChange w) = misused w"
  "dangling (WakeTasks w) = dangling w" "dangling (OnTimeoutChange w) = dangling w"
  "user (set_dangling w) = user w" "user (WakeTasks w) = user w" "user (OnTimeoutChange w) = user w"
  "length (heap (set_dangling w)) = length (heap w)" "length (heap (WakeTasks w)) = length (heap w)"
  "length (heap (OnTimeoutChange w)) = length (heap w)"
  by (simp_all add: set_dangling_def WakeTasks_def OnTimeoutChange_def)

lemma touch_sel [simp]:
  "runner_tasks (touch p w) = runner_tasks w" "root_children (touch p w) = root_children w"
  "next_timeout_task (touch p w) = next_timeout_task w" "tasks_running (touch p w) = tasks_running w"
  "misused (touch p w) = misused w" "user (touch p w) = user w"
  by (simp_all add: touch_def split: option.split)

subsection \<open>The tree of tasks\<close>

definition child_set_ok :: "nat set \<Rightarrow> 'u world \<Rightarrow> nat option \<Rightarrow> nat list \<Rightarrow> bool" where
  "child_set_ok S w p cs \<longleftrightarrow>
     sorted cs \<and> distinct cs
     \<and> (\<forall>c\<in>set cs. \<exists>ct. task_at w c = Some ct \<and> tk_parent ct = p \<and> (\<not> tk_done ct \<or> c \<in> S))"

definition linked :: "'u world \<Rightarrow> nat \<Rightarrow> task \<Rightarrow> bool" where
  "linked w a t \<longleftrightarrow>
     (case tk_parent t of
        None \<Rightarrow> a \<in> set (root_children w)
      | Some p \<Rightarrow> p < a \<and> (\<exists>pt. task_at w p = Some pt \<and> a \<in> set (tk_children pt)))"

text \<open>
  \<open>S\<close> is the set of the tasks that are just being stopped: they are done but still have children
  and still are children of their parents.
\<close>

definition node_ok :: "nat set \<Rightarrow> 'u world \<Rightarrow> nat \<Rightarrow> task \<Rightarrow> bool" where
  "node_ok S w a t \<longleftrightarrow>
     child_set_ok S w (Some a) (tk_children t)
     \<and> (\<forall>c\<in>set (tk_children t). a < c)
     \<and> (\<not> tk_done t \<or> a \<in> S \<longrightarrow> linked w a t)
     \<and> (\<forall>p pt. \<not> tk_done t \<and> tk_parent t = Some p \<and> task_at w p = Some pt \<and> tk_done pt \<and> p \<notin> S
          \<longrightarrow> tk_aborted t)
     \<and> (tk_busy t \<longrightarrow> \<not> tk_done t)"

definition forest :: "nat set \<Rightarrow> 'u world \<Rightarrow> bool" where
  "forest S w \<longleftrightarrow>
     child_set_ok S w None (root_children w) \<and> (\<forall>a t. task_at w a = Some t \<longrightarrow> node_ok S w a t)"

text \<open>Tasks that are done are blocked, and an abort is put off only while the task is busy.\<close>

definition calm :: "nat set \<Rightarrow> 'u world \<Rightarrow> bool" where
  "calm E w \<longleftrightarrow>
     (\<forall>a t. task_at w a = Some t \<and> a \<notin> E \<longrightarrow>
        (tk_done t \<longrightarrow> tk_blocked t) \<and> (tk_aborted t \<and> \<not> tk_done t \<longrightarrow> tk_busy t))"

definition shape :: "task \<Rightarrow> nat option \<times> nat list \<times> bool" where
  "shape t = (tk_parent t, tk_children t, tk_done t)"

definition flags_ok :: "task \<Rightarrow> task \<Rightarrow> bool" where
  "flags_ok t t' \<longleftrightarrow> (tk_aborted t \<longrightarrow> tk_aborted t') \<and> (tk_busy t' \<longrightarrow> tk_busy t \<or> \<not> tk_done t)"

lemma forest_node: "forest S w \<Longrightarrow> task_at w a = Some t \<Longrightarrow> node_ok S w a t"
  by (simp add: forest_def)

text \<open>The invariant looks at the tree, at \<open>done_\<close>, \<open>busy_\<close> and \<open>aborted_\<close> only.\<close>

lemma forest_shape:
  assumes shapes: "\<And>a. map_option shape (task_at w' a) = map_option shape (task_at w a)"
    and flags: "\<And>a t t'. task_at w a = Some t \<Longrightarrow> task_at w' a = Some t' \<Longrightarrow> flags_ok t t'"
    and root: "root_children w' = root_children w" and "forest S w"
  shows "forest S w'"
proof -
  have old: "\<exists>t. task_at w a = Some t \<and> tk_parent t = tk_parent t' \<and> tk_children t = tk_children t'
      \<and> tk_done t = tk_done t'"
    if "task_at w' a = Some t'" for a t'
    using shapes [of a] that by (cases "task_at w a") (auto simp: shape_def)
  have kept: "\<exists>t'. task_at w' a = Some t' \<and> tk_parent t' = tk_parent t \<and> tk_children t' = tk_children t
      \<and> tk_done t' = tk_done t"
    if "task_at w a = Some t" for a t
    using shapes [of a] that by (cases "task_at w' a") (auto simp: shape_def)
  have csok: "child_set_ok S w' p cs" if ok: "child_set_ok S w p cs" for p cs
  proof -
    have "\<exists>ct. task_at w' c = Some ct \<and> tk_parent ct = p \<and> (\<not> tk_done ct \<or> c \<in> S)" if "c \<in> set cs" for c
    proof -
      obtain ct where "task_at w c = Some ct" "tk_parent ct = p" "\<not> tk_done ct \<or> c \<in> S"
        using ok \<open>c \<in> set cs\<close> unfolding child_set_ok_def by blast
      then show ?thesis using kept [of c ct] by auto
    qed
    then show ?thesis using ok unfolding child_set_ok_def by blast
  qed
  have link: "linked w' a t'" if lk: "linked w a t" and pa: "tk_parent t = tk_parent t'" for a t t'
  proof (cases "tk_parent t")
    case None then show ?thesis using lk pa root by (simp add: linked_def)
  next
    case (Some p)
    then obtain pt where "p < a" "task_at w p = Some pt" "a \<in> set (tk_children pt)"
      using lk by (auto simp: linked_def)
    then show ?thesis using kept [of p pt] Some pa by (auto simp: linked_def)
  qed
  have "node_ok S w' a t'" if at: "task_at w' a = Some t'" for a t'
  proof -
    obtain t where t: "task_at w a = Some t" and same: "tk_parent t = tk_parent t'"
      "tk_children t = tk_children t'" "tk_done t = tk_done t'"
      using old [OF at] by blast
    note n = forest_node [OF \<open>forest S w\<close> t, unfolded node_ok_def same]
    have fl: "tk_aborted t \<longrightarrow> tk_aborted t'" "tk_busy t' \<longrightarrow> tk_busy t \<or> \<not> tk_done t'"
      using flags [OF t at] same by (auto simp: flags_ok_def)
    have four: "tk_aborted t'" if "\<not> tk_done t'" "tk_parent t' = Some p" and at': "task_at w' p = Some pt'"
      and d: "tk_done pt'" and "p \<notin> S" for p pt'
    proof -
      obtain pt where "task_at w p = Some pt" "tk_done pt" using old [OF at'] d by auto
      then show ?thesis using n fl that by blast
    qed
    show ?thesis
      unfolding node_ok_def using n fl csok link [OF _ same(1)] four by blast
  qed
  then show ?thesis
    using assms(4) csok [of None "root_children w"] by (auto simp: forest_def root)
qed

lemma forest_on_task:
  assumes "\<And>t. task_at w a = Some t \<Longrightarrow> shape (f t) = shape t \<and> flags_ok t (f t)" and "forest S w"
  shows "forest S (on_task a f w)"
proof (rule forest_shape [OF _ _ _ assms(2)])
  show "flags_ok t t'" if "task_at w b = Some t" "task_at (on_task a f w) b = Some t'" for b t t'
    using that assms(1) by (auto simp: flags_ok_def split: if_splits)
  show "map_option shape (task_at (on_task a f w) b) = map_option shape (task_at w b)" for b
    by (cases "task_at w a") (auto simp: assms(1))
qed simp

subsection \<open>What an abort leaves alone\<close>

text \<open>A task before and after: nothing is undone, no child is gained.\<close>

definition task_settles :: "task \<Rightarrow> task \<Rightarrow> bool" where
  "task_settles t t' \<longleftrightarrow>
     tk_parent t' = tk_parent t \<and> tk_state t' = tk_state t \<and> tk_busy t' = tk_busy t
     \<and> tk_timeout_time t' = tk_timeout_time t
     \<and> set (tk_children t') \<subseteq> set (tk_children t)
     \<and> (tk_done t \<longrightarrow> tk_done t') \<and> (tk_aborted t \<longrightarrow> tk_aborted t')"

definition settles :: "'u world \<Rightarrow> 'u world \<Rightarrow> bool" where
  "settles w w' \<longleftrightarrow>
     length (heap w') = length (heap w)
     \<and> (\<forall>a. rel_option task_settles (task_at w a) (task_at w' a))
     \<and> runner_tasks w' = runner_tasks w \<and> next_timeout_task w' = next_timeout_task w
     \<and> tasks_running w' = tasks_running w \<and> clock w' = clock w \<and> misused w' = misused w
     \<and> wakes w' = wakes w"

lemma settles_refl: "settles w w"
  by (auto simp: settles_def task_settles_def intro: option.rel_refl)

lemma settles_trans: "settles w w' \<Longrightarrow> settles w' w'' \<Longrightarrow> settles w w''"
proof -
  have t: "rel_option task_settles x z" if "rel_option task_settles x y" "rel_option task_settles y z" for x y z
    using that by (cases x; cases y; cases z) (auto simp: task_settles_def)
  assume "settles w w'" and "settles w' w''"
  then show ?thesis unfolding settles_def by (metis t)
qed

lemma settles_at:
  assumes "settles w w'" and "task_at w a = Some t"
  obtains t' where "task_at w' a = Some t'" and "task_settles t t'"
proof -
  from assms(1) have r: "rel_option task_settles (task_at w a) (task_at w' a)" by (simp add: settles_def)
  with assms(2) that show ?thesis by (cases "task_at w' a") auto
qed

lemma settles_alive: "settles w w' \<Longrightarrow> task_at w' a = None \<longleftrightarrow> task_at w a = None"
proof -
  assume "settles w w'"
  then have "rel_option task_settles (task_at w a) (task_at w' a)" by (simp add: settles_def)
  then show ?thesis by (cases "task_at w a"; cases "task_at w' a") simp_all
qed

lemma settles_on_task:
  "(\<And>t. task_at w a = Some t \<Longrightarrow> task_settles t (f t)) \<Longrightarrow> settles w (on_task a f w)"
  by (auto simp: settles_def on_task_def set_dangling_def task_at_def nth_list_update task_settles_def
    intro!: option.rel_refl split: option.split)

lemma settles_user: "settles w (w\<lparr>user := u\<rparr>)"
  by (auto simp: settles_def task_settles_def intro: option.rel_refl)

lemma settles_OnChildStopped: "settles w (OnChildStopped p a failed w)"
proof (cases p)
  case None
  then show ?thesis
    by (auto simp: OnChildStopped_def settles_def task_settles_def intro!: option.rel_refl)
next
  case (Some x)
  have "set (remove1 a cs) \<subseteq> set cs" for cs :: "nat list" by (rule set_remove1_subset)
  then show ?thesis unfolding Some OnChildStopped_def
    by (auto intro!: settles_on_task simp: task_settles_def)
qed

lemma forest_user: "forest S w \<Longrightarrow> forest S (w\<lparr>user := u\<rparr>)"
  by (erule forest_shape [rotated 3]) (simp_all add: flags_ok_def)

lemma calm_user: "calm E w \<Longrightarrow> calm E (w\<lparr>user := u\<rparr>)"
  by (simp add: calm_def)

subsection \<open>Stopping one task\<close>

lemma forest_mark:
  assumes ok: "forest S w" and at: "task_at w a = Some t" and live: "\<not> tk_done t" and idle: "\<not> tk_busy t"
    and f: "\<And>t. tk_parent (f t) = tk_parent t" "\<And>t. tk_children (f t) = tk_children t"
      "\<And>t. tk_busy (f t) = tk_busy t" "\<And>t. tk_done (f t)"
  shows "forest (insert a S) (on_task a f w)"
proof -
  let ?w = "on_task a f w"
  have csok: "child_set_ok (insert a S) ?w p cs" if ok: "child_set_ok S w p cs" for p cs
  proof -
    have "\<exists>ct. task_at ?w c = Some ct \<and> tk_parent ct = p \<and> (\<not> tk_done ct \<or> c \<in> insert a S)" if "c \<in> set cs" for c
    proof -
      obtain ct where "task_at w c = Some ct" "tk_parent ct = p" "\<not> tk_done ct \<or> c \<in> S"
        using ok \<open>c \<in> set cs\<close> unfolding child_set_ok_def by blast
      then show ?thesis by (auto simp: f)
    qed
    then show ?thesis using ok unfolding child_set_ok_def by blast
  qed
  have link: "linked ?w b u'" if lk: "linked w b u" and pa: "tk_parent u' = tk_parent u" for b u u'
    using lk pa by (auto simp: linked_def f split: option.splits)
  have "node_ok (insert a S) ?w b u'" if b: "task_at ?w b = Some u'" for b u'
  proof -
    obtain u where u: "task_at w b = Some u" and pa: "tk_parent u' = tk_parent u"
      and ch: "tk_children u' = tk_children u" and bu: "tk_busy u' = tk_busy u"
      and do: "b \<noteq> a \<Longrightarrow> u' = u"
      using b at by (auto simp: f split: if_splits)
    note n = forest_node [OF ok u, unfolded node_ok_def]
    have live': "\<not> tk_done u \<or> b \<in> S" if "\<not> tk_done u' \<or> b \<in> insert a S"
      using that do u at live by (cases "b = a") auto
    have four: "tk_aborted u'" if nd: "\<not> tk_done u'" and p: "tk_parent u' = Some p"
      and at': "task_at ?w p = Some pt'" and d: "tk_done pt'" and np: "p \<notin> insert a S" for p pt'
    proof -
      have "b \<noteq> a" using nd b at by (auto simp: f)
      then show ?thesis using do n nd p at' d np pa by auto
    qed
    have busy: "tk_busy u' \<longrightarrow> \<not> tk_done u'"
      using n bu do idle u at by (cases "b = a") auto
    show ?thesis
      unfolding node_ok_def using n csok [of "Some b" "tk_children u"] link [OF _ pa] live' four busy ch by auto
  qed
  moreover have "child_set_ok (insert a S) ?w None (root_children ?w)"
    using csok [of None "root_children w"] ok by (simp add: forest_def)
  ultimately show ?thesis by (simp add: forest_def)
qed

lemma task_at_OnChildStopped:
  "task_at (OnChildStopped p a failed w) b =
     (if p = Some b then map_option (\<lambda>t. t\<lparr>tk_child_error := tk_child_error t \<or> failed,
                                    tk_children := remove1 a (tk_children t)\<rparr>) (task_at w b)
      else task_at w b)"
  by (auto simp: OnChildStopped_def split: option.split)

lemma root_OnChildStopped:
  "root_children (OnChildStopped p a failed w) =
     (if p = None then remove1 a (root_children w) else root_children w)"
  by (simp add: OnChildStopped_def split: option.split)

lemma dangling_OnChildStopped:
  "dangling (OnChildStopped p a failed w) \<longleftrightarrow> dangling w \<or> (\<exists>x. p = Some x \<and> task_at w x = None)"
  by (simp add: OnChildStopped_def split: option.split)

lemma forest_unmark:
  assumes ok: "forest (insert a S) w" and new: "a \<notin> S" and at: "task_at w a = Some t" and "tk_done t"
    and left: "\<And>c ct. c \<in> set (tk_children t) \<Longrightarrow> task_at w c = Some ct \<Longrightarrow> tk_aborted ct"
  shows "forest S (OnChildStopped (tk_parent t) a failed w)"
    and "dangling (OnChildStopped (tk_parent t) a failed w) = dangling w"
proof -
  let ?w = "OnChildStopped (tk_parent t) a failed w"
  note na = forest_node [OF ok at, unfolded node_ok_def]
  have la: "linked w a t" using na by blast
  have owner: "p = tk_parent t" if "child_set_ok (insert a S) w p cs" "a \<in> set cs" for p cs
    using that at by (auto simp: child_set_ok_def)
  have csok: "child_set_ok S ?w p (if p = tk_parent t then remove1 a cs else cs)"
    if ok: "child_set_ok (insert a S) w p cs" for p cs
  proof -
    let ?cs = "if p = tk_parent t then remove1 a cs else cs"
    have sub: "set ?cs \<subseteq> set cs - {a}"
      using ok owner [OF ok] by (auto simp: child_set_ok_def)
    have "\<exists>ct. task_at ?w c = Some ct \<and> tk_parent ct = p \<and> (\<not> tk_done ct \<or> c \<in> S)" if "c \<in> set ?cs" for c
    proof -
      have c: "c \<in> set cs" "c \<noteq> a" using that sub by auto
      then obtain ct where "task_at w c = Some ct" "tk_parent ct = p" "\<not> tk_done ct \<or> c \<in> S"
        using ok unfolding child_set_ok_def by auto
      then show ?thesis by (auto simp: task_at_OnChildStopped)
    qed
    moreover have "sorted ?cs \<and> distinct ?cs"
      using ok by (auto simp: child_set_ok_def intro: sorted_remove1 distinct_remove1)
    ultimately show ?thesis unfolding child_set_ok_def by blast
  qed
  have "node_ok S ?w b u'" if b: "task_at ?w b = Some u'" for b u'
  proof -
    obtain u where u: "task_at w b = Some u" and pa: "tk_parent u' = tk_parent u" and bu: "tk_busy u' = tk_busy u"
      and dn: "tk_done u' = tk_done u" and ab: "tk_aborted u' = tk_aborted u"
      and ch: "tk_children u' = (if Some b = tk_parent t then remove1 a (tk_children u) else tk_children u)"
      using b by (auto simp: task_at_OnChildStopped split: if_splits)
    note n = forest_node [OF ok u, unfolded node_ok_def]
    have link: "linked ?w b u'" if "\<not> tk_done u' \<or> b \<in> S"
    proof -
      have "b \<noteq> a" using that new u at dn \<open>tk_done t\<close> by auto
      have "linked w b u" using n that dn by blast
      then show ?thesis
        using \<open>b \<noteq> a\<close> by (auto simp: linked_def pa task_at_OnChildStopped root_OnChildStopped split: option.splits)
    qed
    have four: "tk_aborted u'" if nd: "\<not> tk_done u'" and p: "tk_parent u' = Some p"
      and at': "task_at ?w p = Some pt'" and d: "tk_done pt'" and np: "p \<notin> S" for p pt'
    proof (cases "p = a")
      case True
      have "linked w b u" using n nd dn by blast
      then have "b \<in> set (tk_children t)" using p pa True at by (auto simp: linked_def)
      then show ?thesis using left [OF _ u] ab by simp
    next
      case False
      obtain pt where "task_at w p = Some pt" "tk_done pt"
        using at' d by (auto simp: task_at_OnChildStopped split: if_splits)
      then show ?thesis using n nd p np False pa dn ab by auto
    qed
    have "child_set_ok S ?w (Some b) (tk_children u')" unfolding ch using csok n by blast
    moreover have "set (tk_children u') \<subseteq> set (tk_children u)"
      unfolding ch by (auto dest: set_remove1_subset [THEN subsetD])
    ultimately show ?thesis
      unfolding node_ok_def using n link four dn bu by blast
  qed
  moreover have "child_set_ok S ?w None (root_children ?w)"
    using csok [of None "root_children w"] ok by (auto simp: forest_def root_OnChildStopped split: if_splits)
  ultimately show "forest S ?w" by (simp add: forest_def)
  show "dangling ?w = dangling w"
    using la by (auto simp: dangling_OnChildStopped linked_def split: option.splits)
qed

subsection \<open>Aborting\<close>

lemma settles_ended:
  "settles w w' \<Longrightarrow> \<exists>t. task_at w c = Some t \<and> (tk_done t \<or> tk_aborted t) \<Longrightarrow>
   \<exists>t. task_at w' c = Some t \<and> (tk_done t \<or> tk_aborted t)"
  by (auto simp: task_settles_def elim!: settles_at)

lemma fold_abort:
  assumes "\<And>c w. c \<in> set cs \<Longrightarrow> length (heap w) = n \<Longrightarrow> forest S w \<Longrightarrow> task_at w c \<noteq> None \<Longrightarrow>
        forest S (f c w) \<and> settles w (f c w) \<and> dangling (f c w) = dangling w
        \<and> (\<forall>E. calm E w \<longrightarrow> calm E (f c w))
        \<and> (\<exists>t. task_at (f c w) c = Some t \<and> (tk_done t \<or> tk_aborted t))"
    and "forest S w" and "length (heap w) = n" and "\<And>c. c \<in> set cs \<Longrightarrow> task_at w c \<noteq> None"
  shows "forest S (fold f cs w) \<and> settles w (fold f cs w) \<and> dangling (fold f cs w) = dangling w
     \<and> (\<forall>E. calm E w \<longrightarrow> calm E (fold f cs w))
     \<and> (\<forall>c\<in>set cs. \<exists>t. task_at (fold f cs w) c = Some t \<and> (tk_done t \<or> tk_aborted t))"
  using assms
proof (induction cs arbitrary: w)
  case Nil then show ?case by (simp add: settles_refl)
next
  case (Cons c cs)
  have one: "forest S (f c w) \<and> settles w (f c w) \<and> dangling (f c w) = dangling w
        \<and> (\<forall>E. calm E w \<longrightarrow> calm E (f c w))
        \<and> (\<exists>t. task_at (f c w) c = Some t \<and> (tk_done t \<or> tk_aborted t))"
    using Cons.prems by simp
  then have len: "length (heap (f c w)) = n" using Cons.prems(3) by (auto simp: settles_def)
  have alive: "task_at (f c w) d \<noteq> None" if "d \<in> set cs" for d
    using that Cons.prems(4) [of d] one settles_alive [of w "f c w" d] by simp
  have rest: "forest S (fold f cs (f c w)) \<and> settles (f c w) (fold f cs (f c w))
     \<and> dangling (fold f cs (f c w)) = dangling (f c w)
     \<and> (\<forall>E. calm E (f c w) \<longrightarrow> calm E (fold f cs (f c w)))
     \<and> (\<forall>d\<in>set cs. \<exists>t. task_at (fold f cs (f c w)) d = Some t \<and> (tk_done t \<or> tk_aborted t))"
    by (rule Cons.IH) (use Cons.prems(1) one len alive in auto)
  then show ?case
    using one settles_trans settles_ended [of "f c w" "fold f cs (f c w)" c] by auto
qed

lemma calm_OnChildStopped: "calm E w \<Longrightarrow> calm E (OnChildStopped p a failed w)"
  by (auto simp: calm_def task_at_OnChildStopped split: if_splits)

lemma calm_on_task:
  "calm E w \<Longrightarrow>
   (\<And>t. task_at w a = Some t \<Longrightarrow> a \<notin> E \<Longrightarrow>
      (tk_done (f t) \<longrightarrow> tk_blocked (f t)) \<and> (tk_aborted (f t) \<and> \<not> tk_done (f t) \<longrightarrow> tk_busy (f t))) \<Longrightarrow>
   calm E (on_task a f w)"
  by (auto simp: calm_def split: if_splits)

text \<open>The abort of a task does what its caller needs; \<open>Stop\<close> rests on this for the children.\<close>

definition aborted_ok :: "nat set \<Rightarrow> nat \<Rightarrow> 'u world \<Rightarrow> 'u world \<Rightarrow> bool" where
  "aborted_ok S a w w' \<longleftrightarrow>
     forest S w' \<and> settles w w' \<and> dangling w' = dangling w \<and> (\<forall>E. calm E w \<longrightarrow> calm E w')
     \<and> (\<exists>t. task_at w' a = Some t \<and> (tk_done t \<or> tk_aborted t))"

lemma Stop_ok:
  assumes ok: "forest (insert a S) w" and below: "\<forall>s\<in>S. s < a"
    and at: "task_at w a = Some t" and dn: "tk_done t"
    and kids: "\<And>c v. a < c \<Longrightarrow> length (heap v) = length (heap w) \<Longrightarrow> forest (insert a S) v \<Longrightarrow>
       task_at v c \<noteq> None \<Longrightarrow> aborted_ok (insert a S) c v (abort c v)"
  shows "aborted_ok S a w (Stop hook abort a w)"
proof -
  let ?w1 = "w\<lparr>user := hook a (user w)\<rparr>" let ?w2 = "fold abort (tk_children t) ?w1"
  note na = forest_node [OF ok at, unfolded node_ok_def]
  have c: "a < c \<and> task_at ?w1 c \<noteq> None" if "c \<in> set (tk_children t)" for c
    using na that by (auto simp: child_set_ok_def)
  have f: "forest (insert a S) ?w2 \<and> settles ?w1 ?w2 \<and> dangling ?w2 = dangling ?w1
     \<and> (\<forall>E. calm E ?w1 \<longrightarrow> calm E ?w2)
     \<and> (\<forall>c\<in>set (tk_children t). \<exists>t. task_at ?w2 c = Some t \<and> (tk_done t \<or> tk_aborted t))"
    by (rule fold_abort [where n = "length (heap w)"])
      (use kids c forest_user [OF ok] in \<open>auto simp: aborted_ok_def\<close>)
  then have "settles ?w1 ?w2" by blast
  moreover have "task_at ?w1 a = Some t" using at by simp
  ultimately obtain t2 where t2: "task_at ?w2 a = Some t2" and s2: "task_settles t t2"
    by (rule settles_at)
  have "tk_aborted ct" if "x \<in> set (tk_children t2)" "task_at ?w2 x = Some ct" for x ct
  proof -
    note n2 = forest_node [OF conjunct1 [OF f] t2, unfolded node_ok_def]
    have "x \<in> set (tk_children t)" "a < x" using that s2 n2 by (auto simp: task_settles_def)
    moreover have "\<not> tk_done ct \<or> x \<in> insert a S"
    proof -
      have "child_set_ok (insert a S) ?w2 (Some a) (tk_children t2)" using n2 by blast
      with that(1) have "\<exists>ct. task_at ?w2 x = Some ct \<and> (\<not> tk_done ct \<or> x \<in> insert a S)"
        unfolding child_set_ok_def by blast
      with that(2) show ?thesis by simp
    qed
    ultimately have "\<not> tk_done ct" using below by auto
    then show ?thesis using f \<open>x \<in> set (tk_children t)\<close> that by auto
  qed
  then have left: "\<And>x ct. x \<in> set (tk_children t2) \<Longrightarrow> task_at ?w2 x = Some ct \<Longrightarrow> tk_aborted ct" .
  have "a \<notin> S" using below by auto
  have p: "tk_parent t2 = tk_parent t" "tk_done t2" using s2 dn by (auto simp: task_settles_def)
  have u: "forest S (OnChildStopped (tk_parent t) a failed ?w2)"
    "dangling (OnChildStopped (tk_parent t) a failed ?w2) = dangling ?w2" for failed
    unfolding p(1) [symmetric]
    by (rule forest_unmark [OF conjunct1 [OF f] \<open>a \<notin> S\<close> t2 p(2)], erule (1) left)+
  have eq: "Stop hook abort a w = OnChildStopped (tk_parent t) a (tk_state t = TASK_ERROR) ?w2"
    using at by (simp add: Stop_def OnStopped_def)
  have "settles w (Stop hook abort a w)"
    unfolding eq by (rule settles_trans [OF settles_trans [OF settles_user \<open>settles ?w1 ?w2\<close>] settles_OnChildStopped])
  moreover have "\<exists>t. task_at (Stop hook abort a w) a = Some t \<and> (tk_done t \<or> tk_aborted t)"
    unfolding eq using t2 p by (auto simp: task_at_OnChildStopped)
  moreover have "calm E (Stop hook abort a w)" if "calm E w" for E
    unfolding eq by (rule calm_OnChildStopped) (use f calm_user [OF that] in blast)
  moreover have "dangling (Stop hook abort a w) = dangling w"
    unfolding eq using u(2) f by simp
  ultimately show ?thesis
    using u(1) unfolding aborted_ok_def eq by blast
qed

lemma abort_tree_ok:
  assumes "forest S w" and "task_at w a \<noteq> None" and "\<forall>s\<in>S. s < a" and "length (heap w) < a + depth"
  shows "aborted_ok S a w (abort_tree hook depth a w)"
  using assms
proof (induction depth arbitrary: S a w)
  case 0 then show ?case using task_at_less by fastforce
next
  case (Suc depth)
  obtain t where t: "task_at w a = Some t" using Suc.prems by auto
  show ?case
  proof (cases "tk_done t \<or> tk_busy t")
    case True
    let ?f = "\<lambda>t. t\<lparr>tk_aborted := True\<rparr>"
    have busy: "aborted_ok S a w (on_task a ?f w)" if "\<not> tk_done t" "tk_busy t"
    proof -
      have "forest S (on_task a ?f w)"
        by (rule forest_on_task [OF _ Suc.prems(1)]) (simp add: shape_def flags_ok_def)
      then show ?thesis using t that
        by (auto simp: aborted_ok_def task_settles_def intro!: settles_on_task calm_on_task)
    qed
    then show ?thesis using True t Suc.prems(1) by (auto simp: aborted_ok_def settles_refl)
  next
    case False
    let ?f = "\<lambda>t. t\<lparr>tk_aborted := True, tk_done := True, tk_blocked := True, tk_error := True\<rparr>"
    let ?w = "on_task a ?f w"
    have "forest (insert a S) ?w"
      by (rule forest_mark [OF Suc.prems(1) t]) (use False in auto)
    moreover have "aborted_ok (insert a S) c v (abort_tree hook depth c v)"
      if "a < c" "length (heap v) = length (heap ?w)" "forest (insert a S) v" "task_at v c \<noteq> None" for c v
      by (rule Suc.IH) (use that Suc.prems in auto)
    ultimately have "aborted_ok S a ?w (Stop hook (abort_tree hook depth) a ?w)"
      using Suc.prems(3) t by (intro Stop_ok [where t = "?f t"]) auto
    moreover have "settles w ?w" "\<forall>E. calm E w \<longrightarrow> calm E ?w"
      using t by (auto simp: task_settles_def intro!: settles_on_task calm_on_task)
    ultimately have "aborted_ok S a w (Stop hook (abort_tree hook depth) a ?w)"
      using t unfolding aborted_ok_def by (auto intro: settles_trans)
    then show ?thesis using t False by simp
  qed
qed

subsection \<open>The invariant\<close>

text \<open>
  The runner's list has no duplicates and no dead tasks; a task that has run or has a timeout is
  in it, and so is the task that is to time out next.
\<close>

definition queue_at :: "nat list \<Rightarrow> 'u world \<Rightarrow> bool" where
  "queue_at L w \<longleftrightarrow>
     distinct L
     \<and> (\<forall>a\<in>set L. task_at w a \<noteq> None)
     \<and> (\<forall>a. next_timeout_task w = Some a \<longrightarrow> a \<in> set L)
     \<and> (\<forall>a t. task_at w a = Some t \<and> (tk_state t \<noteq> TASK_INIT \<or> tk_busy t \<or> tk_timeout_time t \<noteq> 0)
          \<longrightarrow> a \<in> set L)"

abbreviation queue_ok :: "'u world \<Rightarrow> bool" where
  "queue_ok w \<equiv> queue_at (runner_tasks w) w"

definition tasks_inv :: "nat set \<Rightarrow> 'u world \<Rightarrow> bool" where
  "tasks_inv E w \<longleftrightarrow> forest {} w \<and> calm E w \<and> queue_ok w \<and> \<not> dangling w"

abbreviation tasks_ok :: "'u world \<Rightarrow> bool" where
  "tasks_ok w \<equiv> tasks_inv {} w"

lemma tasks_ok_init: "tasks_ok (runner_init u)"
  by (simp add: tasks_inv_def runner_init_def forest_def child_set_ok_def task_at_def calm_def queue_at_def)

lemma queue_settles:
  assumes "settles w w'" and "queue_ok w" shows "queue_ok w'"
proof -
  have f: "runner_tasks w' = runner_tasks w" "next_timeout_task w' = next_timeout_task w"
    using assms(1) by (auto simp: settles_def)
  have "\<exists>t. task_at w a = Some t \<and> task_settles t t'" if "task_at w' a = Some t'" for a t'
    using that settles_alive [OF assms(1), of a] settles_at [OF assms(1), of a]
    by (cases "task_at w a") auto
  then show ?thesis
    using assms(2) settles_alive [OF assms(1)] unfolding queue_at_def f task_settles_def by metis
qed

lemma tasks_inv_aborted:
  "tasks_inv E w \<Longrightarrow> aborted_ok {} a w w' \<Longrightarrow> tasks_inv E w'"
  using queue_settles by (auto simp: tasks_inv_def aborted_ok_def)

lemma tasks_inv_nextD:
  "tasks_inv E w \<Longrightarrow> next_timeout_task w = None \<or> the (next_timeout_task w) \<in> set (runner_tasks w)"
  by (cases "next_timeout_task w") (auto simp: tasks_inv_def queue_at_def)

lemma tasks_inv_alive:
  "tasks_inv E w \<Longrightarrow> next_timeout_task w = None \<or> task_at w (the (next_timeout_task w)) \<noteq> None"
  by (cases "next_timeout_task w") (auto simp: tasks_inv_def queue_at_def)

text \<open>Changes to the members that the invariant does not look at.\<close>

lemma tasks_inv_world:
  assumes "heap w' = heap w" "root_children w' = root_children w" "runner_tasks w' = runner_tasks w"
    and "next_timeout_task w' = None \<or> the (next_timeout_task w') \<in> set (runner_tasks w)"
    and "dangling w' = dangling w" and "tasks_inv E w"
  shows "tasks_inv E w'"
proof -
  have at: "task_at w' = task_at w" using assms(1) by (simp add: task_at_def fun_eq_iff)
  have "forest {} w'"
    by (rule forest_shape [of w' w]) (use assms at in \<open>auto simp: tasks_inv_def flags_ok_def\<close>)
  then show ?thesis
    using assms unfolding tasks_inv_def calm_def queue_at_def at by auto
qed

lemma tasks_inv_same:
  assumes ok: "tasks_inv E w" and "heap w' = heap w" "root_children w' = root_children w"
    "runner_tasks w' = runner_tasks w" "next_timeout_task w' = next_timeout_task w" "dangling w' = dangling w"
  shows "tasks_inv E w'"
  by (rule tasks_inv_world [OF _ _ _ _ _ ok]) (use assms tasks_inv_nextD [OF ok] in simp_all)

lemma tasks_inv_WakeTasks [simp]: "tasks_inv E w \<Longrightarrow> tasks_inv E (WakeTasks w)"
  by (erule tasks_inv_same) (simp_all add: WakeTasks_def)

lemma tasks_inv_OnTimeoutChange: "tasks_inv E w \<Longrightarrow> tasks_inv E (OnTimeoutChange w)"
  by (erule tasks_inv_same) (simp_all add: OnTimeoutChange_def)

lemma tasks_inv_free [simp]:
  "tasks_inv E w \<Longrightarrow> tasks_inv E (w\<lparr>user := u\<rparr>)" "tasks_inv E w \<Longrightarrow> tasks_inv E (w\<lparr>misused := m\<rparr>)"
  "tasks_inv E w \<Longrightarrow> tasks_inv E (w\<lparr>tasks_running := r\<rparr>)" "tasks_inv E w \<Longrightarrow> tasks_inv E (w\<lparr>clock := k\<rparr>)"
  "tasks_inv E w \<Longrightarrow> tasks_inv E (w\<lparr>timeouts_signalled := ss\<rparr>)"
  by (erule tasks_inv_same, simp_all)+

lemma tasks_inv_on_task:
  assumes "tasks_inv E w" and at: "task_at w a = Some t"
    and "shape (f t) = shape t" "flags_ok t (f t)"
    and "a \<notin> E \<Longrightarrow> (tk_done (f t) \<longrightarrow> tk_blocked (f t)) \<and> (tk_aborted (f t) \<and> \<not> tk_done (f t) \<longrightarrow> tk_busy (f t))"
    and "tk_state (f t) \<noteq> TASK_INIT \<or> tk_busy (f t) \<or> tk_timeout_time (f t) \<noteq> 0 \<Longrightarrow> a \<in> set (runner_tasks w)"
  shows "tasks_inv E (on_task a f w)"
proof -
  have "forest {} (on_task a f w)"
    by (rule forest_on_task) (use assms in \<open>auto simp: tasks_inv_def\<close>)
  moreover have "calm E (on_task a f w)"
    by (rule calm_on_task) (use assms in \<open>auto simp: tasks_inv_def\<close>)
  moreover have "queue_ok (on_task a f w)"
    using assms by (auto simp: tasks_inv_def queue_at_def split: if_splits)
  ultimately show ?thesis using assms by (simp add: tasks_inv_def)
qed

subsection \<open>Timeouts keep the invariant\<close>

lemma recalc_loop_in: "recalc_loop w x as n b = Some a \<Longrightarrow> a \<in> set as \<or> b = Some a"
  by (induction w x as n b rule: recalc_loop.induct) (fastforce split: option.splits if_splits)+

lemma tasks_inv_Recalc:
  assumes "tasks_inv E w" shows "tasks_inv E (RecalcNextTimeout x w)"
proof (rule tasks_inv_world [OF _ _ _ _ _ assms])
  show "next_timeout_task (RecalcNextTimeout x w) = None
      \<or> the (next_timeout_task (RecalcNextTimeout x w)) \<in> set (runner_tasks w)"
    using recalc_loop_in [of w x "runner_tasks w" 0 None]
    by (cases "recalc_loop w x (runner_tasks w) 0 None") (auto simp: RecalcNextTimeout_def)
  show "dangling (RecalcNextTimeout x w) = dangling w"
    using assms by (auto simp: RecalcNextTimeout_def tasks_inv_def queue_at_def list_ex_iff)
qed (simp_all add: RecalcNextTimeout_def)

lemma tasks_inv_Check: "tasks_inv E w \<Longrightarrow> tasks_inv E (CheckForTimeoutChange p w)"
  using tasks_inv_alive [of E w]
  by (simp add: CheckForTimeoutChange_def touch_alive tasks_inv_OnTimeoutChange Let_def)

lemma tasks_inv_next:
  "tasks_inv E w \<Longrightarrow> a \<in> set (runner_tasks w) \<Longrightarrow> tasks_inv E (w\<lparr>next_timeout_task := Some a\<rparr>)"
  by (erule tasks_inv_world [rotated 5]) auto

lemma tasks_inv_Update:
  assumes ok: "tasks_inv E w" and at: "task_at w a = Some t"
  shows "tasks_inv E (UpdateTaskTimeout a prev w)"
proof -
  have "a \<in> set (runner_tasks w)" if "tk_timeout_time t \<noteq> 0"
    using ok at that by (auto simp: tasks_inv_def queue_at_def)
  then show ?thesis
    using ok at tasks_inv_alive [OF ok]
    by (auto simp: UpdateTaskTimeout_def touch_alive Let_def tasks_inv_Check tasks_inv_Recalc tasks_inv_next)
qed

lemma tasks_inv_Reset:
  assumes ok: "tasks_inv E w" and at: "task_at w a = Some t"
  shows "tasks_inv E (ResetTimeout a w)"
proof -
  note q = ok [unfolded tasks_inv_def queue_at_def]
  have c: "a \<notin> E \<Longrightarrow> (tk_done t \<longrightarrow> tk_blocked t) \<and> (tk_aborted t \<and> \<not> tk_done t \<longrightarrow> tk_busy t)"
    using ok at by (auto simp: tasks_inv_def calm_def)
  have "tasks_inv E (on_task a (\<lambda>t. t\<lparr>tk_timeout_time := k\<rparr>) w)" if "k \<noteq> 0 \<Longrightarrow> tk_state t \<noteq> TASK_INIT" for k
    by (rule tasks_inv_on_task [OF ok at]) (use q c at that in \<open>auto simp: shape_def flags_ok_def\<close>)
  then show ?thesis
    using at by (auto simp: ResetTimeout_def Let_def intro!: tasks_inv_Update split: if_splits)
qed

lemma tasks_inv_Clear:
  assumes ok: "tasks_inv E w" and at: "task_at w a = Some t"
  shows "tasks_inv E (ClearTimeout a w)"
proof -
  have "tasks_inv E (on_task a (\<lambda>t. t\<lparr>tk_timeout_time := 0\<rparr>) w)"
    by (rule tasks_inv_on_task [OF ok at])
      (use ok at in \<open>auto simp: shape_def flags_ok_def tasks_inv_def queue_at_def calm_def\<close>)
  then show ?thesis using at by (auto simp: ClearTimeout_def intro!: tasks_inv_Update)
qed

text \<open>Setting members that neither the tree nor the runner's list depends on.\<close>

lemma tasks_inv_quiet:
  assumes ok: "tasks_inv E w" and at: "task_at w a = Some t"
    and f: "shape (f t) = shape t" "tk_aborted (f t) = tk_aborted t" "tk_busy (f t) = tk_busy t"
      "tk_state (f t) = tk_state t" "tk_timeout_time (f t) = tk_timeout_time t"
      "tk_done t \<Longrightarrow> tk_blocked t \<Longrightarrow> tk_blocked (f t)"
  shows "tasks_inv E (on_task a f w)"
proof (rule tasks_inv_on_task [OF ok at])
  have d: "tk_done (f t) = tk_done t" using f(1) by (simp add: shape_def)
  show "a \<notin> E \<Longrightarrow> (tk_done (f t) \<longrightarrow> tk_blocked (f t)) \<and> (tk_aborted (f t) \<and> \<not> tk_done (f t) \<longrightarrow> tk_busy (f t))"
    using ok at f d by (auto simp: tasks_inv_def calm_def)
  show "tk_state (f t) \<noteq> TASK_INIT \<or> tk_busy (f t) \<or> tk_timeout_time (f t) \<noteq> 0 \<Longrightarrow> a \<in> set (runner_tasks w)"
    using ok at f by (auto simp: tasks_inv_def queue_at_def)
qed (use f in \<open>simp_all add: flags_ok_def\<close>)

lemma tasks_inv_timeout_calls:
  assumes ok: "tasks_inv E w" and at: "task_at w a = Some t"
  shows "tasks_inv E (set_timeout_seconds a s w)" "tasks_inv E (SuspendTimeout a w)"
    "tasks_inv E (ResumeTimeout a w)"
  using at by (auto simp: set_timeout_seconds_def SuspendTimeout_def ResumeTimeout_def shape_def ok
    intro!: tasks_inv_Reset tasks_inv_quiet [OF ok at])

subsection \<open>The calls keep the invariant\<close>

lemma tasks_inv_Wake:
  assumes ok: "tasks_inv E w" and at: "task_at w a = Some t"
  shows "tasks_inv E (Wake a w)"
  using at by (auto simp: Wake_def ok shape_def intro!: tasks_inv_WakeTasks tasks_inv_quiet [OF ok at])

lemma tasks_inv_task_Error:
  assumes ok: "tasks_inv E w" and at: "task_at w a = Some t"
  shows "tasks_inv E (task_Error a w)"
  using at by (auto simp: task_Error_def ok shape_def intro!: tasks_inv_Wake tasks_inv_quiet [OF ok at])

lemma tasks_inv_Poll: "tasks_inv E w \<Longrightarrow> tasks_inv E (PollTasks w)"
  using tasks_inv_alive [of E w]
  by (auto simp: PollTasks_def touch_alive tasks_inv_Wake split: option.split)

lemma tasks_inv_Abort:
  assumes ok: "tasks_inv E w" and at: "task_at w a = Some t"
  shows "tasks_inv E (Abort hook a nowake w)"
proof -
  have "aborted_ok {} a w (abort_tree hook (length (heap w) + 1) a w)"
    by (rule abort_tree_ok) (use ok at in \<open>auto simp: tasks_inv_def\<close>)
  then have "tasks_inv E (abort_tree hook (length (heap w) + 1) a w)" by (rule tasks_inv_aborted [OF ok])
  then show ?thesis using at by (simp add: Abort_def Let_def del: abort_tree.simps)
qed

lemma queue_start:
  assumes ok: "tasks_inv E w" and at: "task_at w a \<noteq> None" and new: "a \<notin> set (runner_tasks w)"
  shows "tasks_inv E (w\<lparr>runner_tasks := runner_tasks w @ [a]\<rparr>)"
proof -
  have "forest {} (w\<lparr>runner_tasks := runner_tasks w @ [a]\<rparr>)"
    by (rule forest_shape [of _ w]) (use ok in \<open>auto simp: tasks_inv_def flags_ok_def\<close>)
  then show ?thesis using assms by (auto simp: tasks_inv_def calm_def queue_at_def)
qed

lemma tasks_inv_Start:
  assumes ok: "tasks_inv E w" and at: "task_at w a = Some t" and new: "a \<notin> set (runner_tasks w)"
  shows "tasks_inv E (Start a w)"
proof -
  let ?w = "on_task a (\<lambda>t. t\<lparr>tk_start_time := clock w\<rparr>) w"
  have "tasks_inv E ?w"
    using at by (auto simp: shape_def intro!: tasks_inv_quiet [OF ok at])
  then have "tasks_inv E (?w\<lparr>runner_tasks := runner_tasks ?w @ [a]\<rparr>)"
    by (rule queue_start) (use at new in auto)
  then have "tasks_inv E (UpdateTaskTimeout a 0 (?w\<lparr>runner_tasks := runner_tasks ?w @ [a]\<rparr>))"
    by (rule tasks_inv_Update) (use at in auto)
  then show ?thesis using at ok by (simp add: Start_def StartTask_def)
qed

lemma AddChild_sel:
  "task_at (AddChild p c w) b =
     (if p = Some b then map_option (\<lambda>t. t\<lparr>tk_children := List.insort_insert c (tk_children t)\<rparr>) (task_at w b)
      else task_at w b)"
  "root_children (AddChild p c w) = (if p = None then List.insort_insert c (root_children w) else root_children w)"
  "runner_tasks (AddChild p c w) = runner_tasks w"
  "next_timeout_task (AddChild p c w) = next_timeout_task w"
  "misused (AddChild p c w) = misused w"
  "dangling (AddChild p c w) \<longleftrightarrow> dangling w \<or> (\<exists>x. p = Some x \<and> task_at w x = None)"
  by (auto simp: AddChild_def split: option.split)

lemma tasks_inv_construct:
  assumes ok: "tasks_inv E w" and legal: "\<And>a. p = Some a \<Longrightarrow> \<exists>t. task_at w a = Some t \<and> \<not> tk_done t"
  shows "tasks_inv E (construct_task p w)"
proof -
  let ?c = "length (heap w)" let ?w = "construct_task p w"
  have fresh: "task_at w ?c = None" by (simp add: task_at_def)
  have "?c \<notin> set (runner_tasks w)" using ok fresh by (auto simp: tasks_inv_def queue_at_def)
  have at: "task_at ?w b =
      (if b = ?c then Some (new_task p)
       else if p = Some b then map_option (\<lambda>t. t\<lparr>tk_children := List.insort_insert ?c (tk_children t)\<rparr>) (task_at w b)
       else task_at w b)" for b
    using legal [of ?c] fresh by (auto simp: construct_task_def AddChild_sel task_at_construct)
  have sel: "root_children ?w = (if p = None then List.insort_insert ?c (root_children w) else root_children w)"
    "runner_tasks ?w = runner_tasks w" "next_timeout_task ?w = next_timeout_task w" "dangling ?w = dangling w"
    using legal by (auto simp: construct_task_def AddChild_sel task_at_construct)
  have old: "\<exists>t'. task_at ?w b = Some t' \<and> tk_parent t' = tk_parent t \<and> tk_done t' = tk_done t
      \<and> set (tk_children t) \<subseteq> set (tk_children t')"
    if "task_at w b = Some t" for b t
    using that fresh by (auto simp: at set_insort_insert)
  have csok: "child_set_ok {} ?w q (if p = q then List.insort_insert ?c cs else cs)" if c: "child_set_ok {} w q cs" for q cs
  proof -
    have "\<exists>ct. task_at ?w x = Some ct \<and> tk_parent ct = q \<and> (\<not> tk_done ct \<or> x \<in> {})"
      if "x \<in> set (if p = q then List.insort_insert ?c cs else cs)" for x
    proof (cases "x = ?c")
      case True
      then have "p = q" using that c fresh by (auto simp: child_set_ok_def split: if_splits)
      then show ?thesis unfolding True \<open>p = q\<close> [symmetric] at by (simp add: new_task_def)
    next
      case False
      then have "x \<in> set cs" using that by (auto simp: set_insort_insert split: if_splits)
      then obtain ct where "task_at w x = Some ct" "tk_parent ct = q" "\<not> tk_done ct"
        using c unfolding child_set_ok_def by blast
      then show ?thesis using old [of x ct] by auto
    qed
    then show ?thesis
      using c by (auto simp: child_set_ok_def sorted_insort_insert distinct_insort_insert)
  qed
  have "node_ok {} ?w b t'" if b: "task_at ?w b = Some t'" for b t'
  proof (cases "b = ?c")
    case True
    then have t': "t' = new_task p" using b by (simp add: at)
    have "linked ?w b t'"
    proof (cases p)
      case None then show ?thesis using True sel(1) by (simp add: linked_def t' new_task_def set_insort_insert)
    next
      case (Some x)
      obtain pt where "task_at w x = Some pt" using legal [OF Some] by blast
      then have "x < ?c" "\<exists>pt. task_at ?w x = Some pt \<and> ?c \<in> set (tk_children pt)"
        using at [of x] Some task_at_less by (auto simp: set_insort_insert)
      then show ?thesis using True Some by (simp add: linked_def t' new_task_def)
    qed
    moreover have False if "p = Some x" "task_at ?w x = Some pt" "tk_done pt" for x pt
      using legal [OF that(1)] that at [of x] task_at_less by (auto simp: new_task_def split: if_splits)
    ultimately show ?thesis by (auto simp: node_ok_def t' new_task_def child_set_ok_def)
  next
    case False
    then obtain t where t: "task_at w b = Some t" and pa: "tk_parent t' = tk_parent t" and dn: "tk_done t' = tk_done t"
      and bu: "tk_busy t' = tk_busy t" and ab: "tk_aborted t' = tk_aborted t"
      and ch: "tk_children t' = (if p = Some b then List.insort_insert ?c (tk_children t) else tk_children t)"
      using b by (auto simp: at split: if_splits)
    have "forest {} w" using ok by (simp add: tasks_inv_def)
    note n = forest_node [OF this t, unfolded node_ok_def]
    have link: "linked ?w b t'" if nd: "\<not> tk_done t'"
    proof (cases "tk_parent t")
      case None then show ?thesis using n nd by (auto simp: linked_def pa dn sel set_insort_insert)
    next
      case (Some x)
      then obtain pt where "x < b" "task_at w x = Some pt" "b \<in> set (tk_children pt)"
        using n nd by (auto simp: linked_def dn)
      then show ?thesis using old [of x pt] Some by (auto simp: linked_def pa)
    qed
    have four: "tk_aborted t'" if nd: "\<not> tk_done t'" and p: "tk_parent t' = Some x"
      and at': "task_at ?w x = Some pt'" and d: "tk_done pt'" for x pt'
    proof -
      obtain pt where "task_at w x = Some pt" "tk_done pt"
        using at' d by (auto simp: at new_task_def split: if_splits)
      then show ?thesis using n nd p pa dn ab by auto
    qed
    have "\<forall>c\<in>set (tk_children t'). b < c"
      using n task_at_less [OF t] by (auto simp: ch set_insort_insert)
    then show ?thesis
      unfolding node_ok_def using n csok [of "Some b" "tk_children t"] link four dn bu by (auto simp: ch)
  qed
  then have "forest {} ?w"
    using csok [of None "root_children w"] ok by (auto simp: forest_def tasks_inv_def sel)
  moreover have "calm E ?w"
    using ok by (auto simp: calm_def tasks_inv_def at new_task_def split: if_splits)
  moreover have "queue_ok ?w"
    using ok \<open>?c \<notin> set (runner_tasks w)\<close>
    by (auto simp: queue_at_def tasks_inv_def sel at new_task_def split: if_splits)
  ultimately show ?thesis using ok by (simp add: tasks_inv_def sel)
qed

subsection \<open>Deleting a task\<close>

text \<open>A task without children leaves the heap; the other tasks only lose it as a child.\<close>

lemma forest_drop:
  assumes ok: "forest {} w" and at: "task_at w a = Some t" and leaf: "tk_children t = []"
    and w': "\<And>b. task_at w' b = (if b = a then None else map_option (\<lambda>u. u\<lparr>tk_children := remove1 a (tk_children u), tk_child_error := e b u\<rparr>) (task_at w b))"
    and root: "root_children w' = remove1 a (root_children w)"
  shows "forest {} w'"
proof -
  have csok: "child_set_ok {} w' p (remove1 a cs)" if ok: "child_set_ok {} w p cs" for p cs
  proof -
    have "\<exists>ct. task_at w' c = Some ct \<and> tk_parent ct = p \<and> (\<not> tk_done ct \<or> c \<in> {})" if "c \<in> set (remove1 a cs)" for c
    proof -
      have "c \<in> set cs" "c \<noteq> a" using that ok by (auto simp: child_set_ok_def)
      then show ?thesis using ok by (auto simp: child_set_ok_def w')
    qed
    then show ?thesis using ok by (auto simp: child_set_ok_def intro: sorted_remove1)
  qed
  have "node_ok {} w' b u'" if b: "task_at w' b = Some u'" for b u'
  proof -
    obtain u where u: "task_at w b = Some u" and ba: "b \<noteq> a" and
      u': "u' = u\<lparr>tk_children := remove1 a (tk_children u), tk_child_error := e b u\<rparr>"
      using b by (auto simp: w' split: if_splits)
    note n = forest_node [OF ok u, unfolded node_ok_def]
    have link: "linked w' b u'" if nd: "\<not> tk_done u"
    proof (cases "tk_parent u")
      case None then show ?thesis using n nd ba by (auto simp: linked_def u' root)
    next
      case (Some x)
      then obtain pt where "x < b" "task_at w x = Some pt" "b \<in> set (tk_children pt)"
        using n nd by (auto simp: linked_def)
      moreover have "x \<noteq> a" using calculation at leaf by auto
      ultimately show ?thesis using ba Some by (auto simp: linked_def u' w')
    qed
    have "\<forall>c\<in>set (tk_children u'). b < c" using n by (auto simp: u' dest: notin_set_remove1)
    moreover have "tk_aborted u'" if "\<not> tk_done u'" "tk_parent u' = Some p" "task_at w' p = Some pt'" "tk_done pt'" for p pt'
      using that n by (auto simp: u' w' split: if_splits)
    ultimately show ?thesis
      unfolding node_ok_def using n csok [of "Some b" "tk_children u"] link by (auto simp: u')
  qed
  then show ?thesis
    using csok [of None "root_children w"] ok by (simp add: forest_def root)
qed

text \<open>A task that is done is no child any more.\<close>

lemma done_not_child:
  "forest {} w \<Longrightarrow> task_at w a = Some t \<Longrightarrow> tk_done t \<Longrightarrow>
   a \<notin> set (root_children w) \<and> (\<forall>b u. task_at w b = Some u \<longrightarrow> a \<notin> set (tk_children u))"
  by (fastforce simp: forest_def node_ok_def child_set_ok_def)

lemma remove1_absent: "a \<notin> set xs \<Longrightarrow> remove1 a xs = xs"
  by (rule remove1_idem)

definition same_flags :: "task \<Rightarrow> task \<Rightarrow> bool" where
  "same_flags u u' \<longleftrightarrow>
     tk_state u' = tk_state u \<and> tk_blocked u' = tk_blocked u \<and> tk_done u' = tk_done u
     \<and> tk_aborted u' = tk_aborted u \<and> tk_busy u' = tk_busy u \<and> tk_timeout_time u' = tk_timeout_time u"

lemma forest_delete:
  assumes ok: "forest {} w" and at: "task_at w a = Some t" and leaf: "tk_children t = []"
  shows "forest {} (delete_task hook a w)" and "dangling (delete_task hook a w) = dangling w"
    and "\<And>b. task_at (delete_task hook a w) b = None \<longleftrightarrow> b = a \<or> task_at w b = None"
    and "\<And>b u'. task_at (delete_task hook a w) b = Some u' \<Longrightarrow>
          \<exists>u. task_at w b = Some u \<and> b \<noteq> a \<and> same_flags u u'"
    and "runner_tasks (delete_task hook a w) = runner_tasks w"
    and "next_timeout_task (delete_task hook a w) = next_timeout_task w"
    and "misused (delete_task hook a w) = misused w"
    and "tasks_running (delete_task hook a w) = tasks_running w"
proof -
  let ?w1 = "w\<lparr>user := hook a (user w)\<rparr>"
  let ?v = "if tk_done t then ?w1 else OnChildStopped (tk_parent t) a (tk_state t = TASK_ERROR) ?w1"
  have eq: "delete_task hook a w = ?v\<lparr>heap := (heap ?v)[a := None]\<rparr>"
    using at leaf by (simp add: delete_task_def stop_task_def Stop_def OnStopped_def Let_def del: abort_tree.simps)
  have live: "linked w a t" if "\<not> tk_done t"
    using forest_node [OF ok at] that by (simp add: node_ok_def)
  have v: "task_at ?v b = map_option (\<lambda>u. u\<lparr>tk_children := remove1 a (tk_children u),
      tk_child_error := (if \<not> tk_done t \<and> tk_parent t = Some b then tk_child_error u \<or> tk_state t = TASK_ERROR else tk_child_error u)\<rparr>) (task_at w b)"
    if "b \<noteq> a" for b
  proof (cases "task_at w b")
    case None then show ?thesis by (simp add: task_at_OnChildStopped)
  next
    case (Some u)
    have "a \<notin> set (tk_children u)" if "tk_done t \<or> tk_parent t \<noteq> Some b"
      using that done_not_child [OF ok at] Some forest_node [OF ok Some] at
      by (auto simp: node_ok_def child_set_ok_def)
    then show ?thesis using Some by (auto simp: task_at_OnChildStopped remove1_absent)
  qed
  have "a \<notin> set (root_children w)" if "tk_done t \<or> tk_parent t \<noteq> None"
    using that done_not_child [OF ok at] ok at by (auto simp: forest_def child_set_ok_def)
  then have r: "root_children ?v = remove1 a (root_children w)"
    by (auto simp: root_OnChildStopped remove1_absent)
  show "forest {} (delete_task hook a w)"
    unfolding eq by (rule forest_drop [OF ok at leaf]) (use v r in \<open>auto simp: task_at_delete\<close>)
  show "dangling (delete_task hook a w) = dangling w"
    using live unfolding eq by (auto simp: dangling_OnChildStopped linked_def split: option.splits)
  show "task_at (delete_task hook a w) b = None \<longleftrightarrow> b = a \<or> task_at w b = None" for b
    unfolding eq using v [of b] by (auto simp: task_at_delete)
  show "\<exists>u. task_at w b = Some u \<and> b \<noteq> a \<and> same_flags u u'"
    if "task_at (delete_task hook a w) b = Some u'" for b u'
  proof -
    have "b \<noteq> a" "task_at ?v b = Some u'" using that unfolding eq by (auto simp: task_at_delete split: if_splits)
    then show ?thesis using v [of b] by (cases "task_at w b") (auto simp: same_flags_def)
  qed
  show "runner_tasks (delete_task hook a w) = runner_tasks w"
    "next_timeout_task (delete_task hook a w) = next_timeout_task w"
    "misused (delete_task hook a w) = misused w"
    "tasks_running (delete_task hook a w) = tasks_running w"
    unfolding eq by (auto simp: OnChildStopped_def split: option.split)
qed

lemma calm_delete: "forest {} w \<Longrightarrow> task_at w a = Some t \<Longrightarrow> tk_children t = [] \<Longrightarrow> calm E w \<Longrightarrow> calm E (delete_task hook a w)"
  unfolding calm_def by (fastforce dest!: forest_delete(4) [of w a t] simp: same_flags_def)

text \<open>\<open>L\<close> stands for the runner's list.\<close>

lemma queue_delete:
  assumes "forest {} w" "task_at w a = Some t" "tk_children t = []"
    and "queue_at L w" and "next_timeout_task w \<noteq> Some a"
  shows "queue_at (remove1 a L) (delete_task hook a w)"
proof -
  note d = forest_delete [OF assms(1-3), of hook]
  have "x \<in> set L \<and> x \<noteq> a" if at': "task_at (delete_task hook a w) x = Some u"
    and st: "tk_state u \<noteq> TASK_INIT \<or> tk_busy u \<or> tk_timeout_time u \<noteq> 0" for x u
  proof -
    obtain u0 where "task_at w x = Some u0" "x \<noteq> a" "same_flags u0 u" using d(4) [OF at'] by blast
    then show ?thesis using st assms(4) by (auto simp: queue_at_def same_flags_def)
  qed
  moreover have "x \<in> set L \<and> x \<noteq> a" if "next_timeout_task w = Some x" for x
    using that assms(4,5) by (auto simp: queue_at_def)
  ultimately show ?thesis
    using assms(4) unfolding queue_at_def d(3,6) by auto
qed

end
