(* ===== verification/TaskLaws.thy ===== *)
theory TaskLaws
  imports TaskTree
begin

text \<open>
  Every call to the framework, every step of a task and every run of the runner keeps the
  invariant of the theory \<open>TaskTree\<close>: no deleted task is used, a task that is done has no running
  descendants, and the loops of the runner leave only blocked tasks behind.
\<close>

subsection \<open>The calls and the programs\<close>

lemma tasks_inv_perform:
  assumes ok: "tasks_inv E w" and legal: "legal_call c w"
  shows "tasks_inv E (perform hook c w)"
proof (cases c)
  case (Construct p)
  then show ?thesis using legal by (auto intro!: tasks_inv_construct [OF ok] split: option.splits)
next
  case (CallDelete a)
  then obtain t where t: "task_at w a = Some t" "tk_children t = []" "a \<notin> set (runner_tasks w)"
    using legal by (auto split: option.splits)
  have "next_timeout_task w \<noteq> Some a" using ok t by (auto simp: tasks_inv_def queue_at_def)
  then show ?thesis
    using CallDelete t ok forest_delete [of w a t hook] calm_delete [of w a t E hook]
      queue_delete [of w a t "runner_tasks w" hook]
    by (simp add: tasks_inv_def remove1_absent)
qed (use ok legal in \<open>auto simp: tasks_inv_Start tasks_inv_Abort tasks_inv_Wake tasks_inv_task_Error
  tasks_inv_timeout_calls tasks_inv_Poll\<close>)

text \<open>The flag \<open>misused\<close> is set by the callers only, and never cleared.\<close>

lemma misused_basic [simp]:
  "misused (CheckForTimeoutChange p w) = misused w"
  "misused (RecalcNextTimeout x w) = misused w"
  "misused (OnChildStopped q a b w) = misused w"
  "misused (AddChild q a w) = misused w"
  by (simp_all add: CheckForTimeoutChange_def Let_def RecalcNextTimeout_def OnChildStopped_def AddChild_def
      split: option.split)

lemma misused_timeouts [simp]:
  "misused (UpdateTaskTimeout a p w) = misused w"
  "misused (ResetTimeout a w) = misused w"
  "misused (ClearTimeout a w) = misused w"
  "misused (Wake a w) = misused w"
  by (simp_all add: UpdateTaskTimeout_def ResetTimeout_def ClearTimeout_def Wake_def Let_def split: option.split)

lemma misused_fold: "(\<And>c w. misused (f c w) = misused w) \<Longrightarrow> misused (fold f cs w) = misused w"
  by (induction cs arbitrary: w) simp_all

lemma misused_Stop: "(\<And>c w. misused (f c w) = misused w) \<Longrightarrow> misused (Stop hook f a w) = misused w"
  by (simp add: Stop_def OnStopped_def misused_fold split: option.split)

lemma misused_abort_tree [simp]: "misused (abort_tree hook d a w) = misused w"
  by (induction d arbitrary: a w) (simp_all add: misused_Stop split: option.split)

lemma misused_stop [simp]: "misused (stop_task hook a w) = misused w" "misused (Abort hook a b w) = misused w"
  by (simp_all add: stop_task_def Abort_def misused_Stop Let_def del: abort_tree.simps split: option.split)

lemma misused_perform [simp]: "misused (perform hook c w) = misused w"
  by (cases c) (simp_all add: construct_task_def Start_def StartTask_def task_Error_def set_timeout_seconds_def
      SuspendTimeout_def ResumeTimeout_def PollTasks_def delete_task_def Let_def split: option.split)

lemma misused_program: "misused w \<Longrightarrow> misused (fst (run_program hook p w))"
  by (induction p arbitrary: w) (auto simp: call_def Let_def)

text \<open>What a program leaves alone: the tasks that are busy, and the tasks in the runner's list.\<close>

definition busy_tasks :: "'u world \<Rightarrow> nat set" where
  "busy_tasks w = {a. \<exists>t. task_at w a = Some t \<and> tk_busy t}"

definition keeps :: "'u world \<Rightarrow> 'u world \<Rightarrow> bool" where
  "keeps w w' \<longleftrightarrow>
     busy_tasks w' = busy_tasks w \<and> (\<exists>new. runner_tasks w' = runner_tasks w @ new)
     \<and> tasks_running w' = tasks_running w"

lemma keeps_refl: "keeps w w"
  by (simp add: keeps_def)

lemma keeps_trans: "keeps w w' \<Longrightarrow> keeps w' w'' \<Longrightarrow> keeps w w''"
  by (auto simp: keeps_def)

lemma keeps_settles:
  assumes "settles w w'" shows "keeps w w'"
proof -
  have "a \<in> busy_tasks w' \<longleftrightarrow> a \<in> busy_tasks w" for a
    using settles_alive [OF assms, of a] settles_at [OF assms, of a]
    by (cases "task_at w a"; cases "task_at w' a") (auto simp: busy_tasks_def task_settles_def)
  then show ?thesis using assms by (auto simp: keeps_def settles_def)
qed

lemma keeps_on_task: "(\<And>t. task_at w a = Some t \<Longrightarrow> tk_busy (f t) = tk_busy t) \<Longrightarrow> keeps w (on_task a f w)"
  by (auto simp: keeps_def busy_tasks_def)

lemma keeps_same:
  "heap w' = heap w \<Longrightarrow> runner_tasks w' = runner_tasks w \<Longrightarrow> tasks_running w' = tasks_running w \<Longrightarrow> keeps w w'"
  by (simp add: keeps_def busy_tasks_def task_at_def)

lemma kept_simple [simp]:
  "heap (set_dangling w) = heap w" "heap (WakeTasks w) = heap w" "heap (OnTimeoutChange w) = heap w"
  "heap (touch q w) = heap w" "heap (RecalcNextTimeout x w) = heap w"
  "runner_tasks (RecalcNextTimeout x w) = runner_tasks w" "tasks_running (RecalcNextTimeout x w) = tasks_running w"
  by (simp_all add: set_dangling_def WakeTasks_def OnTimeoutChange_def touch_def RecalcNextTimeout_def
      split: option.split)

lemma kept_Check [simp]:
  "heap (CheckForTimeoutChange p w) = heap w" "runner_tasks (CheckForTimeoutChange p w) = runner_tasks w"
  "tasks_running (CheckForTimeoutChange p w) = tasks_running w"
  by (simp_all add: CheckForTimeoutChange_def Let_def)

lemma kept_Update [simp]:
  "heap (UpdateTaskTimeout a p w) = heap w" "runner_tasks (UpdateTaskTimeout a p w) = runner_tasks w"
  "tasks_running (UpdateTaskTimeout a p w) = tasks_running w"
  by (simp_all add: UpdateTaskTimeout_def Let_def split: option.split)

lemma keeps_Update: "keeps w (UpdateTaskTimeout a p w)"
  by (rule keeps_same) simp_all

lemma keeps_WakeTasks: "keeps w (WakeTasks w)"
  by (rule keeps_same) simp_all

lemma keeps_noted: "keeps w (set_dangling w)" "keeps w (touch q w)"
  by (rule keeps_same, simp_all)+

lemma keeps_set_then:
  "(\<And>t. tk_busy (f t) = tk_busy t) \<Longrightarrow> (\<And>v. keeps v (g v)) \<Longrightarrow> keeps w (g (on_task a f w))"
  by (rule keeps_trans [of w "on_task a f w"]) (simp_all add: keeps_on_task)

lemma keeps_timeouts:
  "keeps w (ResetTimeout a w)" "keeps w (ClearTimeout a w)" "keeps w (Wake a w)"
  by (auto simp: ResetTimeout_def ClearTimeout_def Wake_def Let_def keeps_noted keeps_refl split: option.split
      intro!: keeps_set_then keeps_Update keeps_WakeTasks)

lemma keeps_timeout_calls:
  "keeps w (set_timeout_seconds a s w)" "keeps w (SuspendTimeout a w)" "keeps w (ResumeTimeout a w)"
  "keeps w (task_Error a w)" "keeps w (PollTasks w)"
  by (auto simp: set_timeout_seconds_def SuspendTimeout_def ResumeTimeout_def task_Error_def PollTasks_def
      keeps_noted keeps_refl split: option.split
      intro!: keeps_set_then keeps_timeouts keeps_trans [OF keeps_timeouts(3) keeps_WakeTasks])

lemma keeps_Abort:
  assumes ok: "tasks_inv E w" and at: "task_at w a = Some t"
  shows "keeps w (Abort hook a nowake w)"
proof -
  have "aborted_ok {} a w (abort_tree hook (length (heap w) + 1) a w)"
    by (rule abort_tree_ok) (use ok at in \<open>auto simp: tasks_inv_def\<close>)
  then have "keeps w (abort_tree hook (length (heap w) + 1) a w)"
    by (intro keeps_settles) (simp add: aborted_ok_def)
  then show ?thesis
    using at by (auto simp: Abort_def Let_def keeps_trans [OF _ keeps_WakeTasks] simp del: abort_tree.simps)
qed

lemma keeps_construct: "keeps w (construct_task p w)"
proof -
  have "keeps w (w\<lparr>heap := heap w @ [Some (new_task p)]\<rparr>)"
    using task_at_less [of w "length (heap w)"]
    by (auto simp: keeps_def busy_tasks_def task_at_construct new_task_def)
  moreover have "keeps v (AddChild p c v)" for v :: "'a world" and c
    by (cases p) (auto simp: AddChild_def intro: keeps_on_task keeps_same)
  ultimately show ?thesis unfolding construct_task_def by (rule keeps_trans)
qed

lemma keeps_Start: "keeps w (Start a w)"
proof -
  have st: "keeps v (StartTask a v)" for v :: "'a world"
  proof -
    have "keeps v (v\<lparr>runner_tasks := runner_tasks v @ [a]\<rparr>)" by (simp add: keeps_def busy_tasks_def)
    then show ?thesis unfolding StartTask_def
      by (rule keeps_trans [OF keeps_trans [OF _ keeps_Update] keeps_WakeTasks])
  qed
  have "keeps w (StartTask a (on_task a (\<lambda>t. t\<lparr>tk_start_time := clock w\<rparr>) w))"
    by (rule keeps_trans [OF keeps_on_task st]) simp
  then show ?thesis
    by (cases "task_at w a") (simp_all add: Start_def keeps_noted keeps_refl)
qed

lemma keeps_perform:
  assumes ok: "tasks_inv E w" and legal: "legal_call c w"
  shows "keeps w (perform hook c w)"
proof (cases c)
  case (CallDelete a)
  then obtain t where t: "task_at w a = Some t" "tk_children t = []" "a \<notin> set (runner_tasks w)"
    using legal by (auto split: option.splits)
  have fo: "forest {} w" and idle: "\<not> tk_busy t" using ok t by (auto simp: tasks_inv_def queue_at_def)
  note d = forest_delete [OF fo t(1,2), of hook]
  have "b \<in> busy_tasks (delete_task hook a w) \<longleftrightarrow> b \<in> busy_tasks w" for b
    using d(3) [of b] d(4) [of b] t(1) idle
    by (cases "task_at w b"; cases "task_at (delete_task hook a w) b") (auto simp: busy_tasks_def same_flags_def)
  then show ?thesis unfolding CallDelete keeps_def perform.simps d(5,8) by blast
qed (use ok legal in \<open>auto simp: keeps_construct keeps_Start keeps_timeouts keeps_timeout_calls
  intro!: keeps_Abort keeps_same\<close>)

lemma program_ok:
  assumes "tasks_inv E w"
  shows "misused (fst (run_program hook p w))
     \<or> tasks_inv E (fst (run_program hook p w)) \<and> keeps w (fst (run_program hook p w))"
  using assms
proof (induction p arbitrary: w)
  case (Return s) then show ?case by (simp add: keeps_refl)
next
  case (Call c k)
  show ?case
  proof (cases "legal_call c w")
    case True
    then have eq: "call hook c w = perform hook c w" by (simp add: call_def)
    have "tasks_inv E (call hook c w)" "keeps w (call hook c w)"
      unfolding eq by (simp_all add: tasks_inv_perform keeps_perform [of E] True Call.prems)
    then show ?thesis using Call.IH [OF _ \<open>tasks_inv E (call hook c w)\<close>] by (auto simp: Let_def intro: keeps_trans)
  next
    case False
    then have "misused (call hook c w)" by (simp add: call_def)
    then show ?thesis by (simp add: Let_def misused_program)
  qed
qed

subsection \<open>A step keeps the invariant\<close>

lemma Process_ok:
  assumes ok: "tasks_inv E w" and at: "task_at w a = Some t"
  shows "misused (fst (Process V a s w)) \<or> tasks_inv E (fst (Process V a s w)) \<and> keeps w (fst (Process V a s w))"
proof -
  note p = program_ok [OF ok, of "stop_hook V"]
  have c: "tasks_inv E (ClearTimeout a w)" by (rule tasks_inv_Clear [OF ok at])
  note q = program_ok [OF c, of "stop_hook V" "OnTimeout V a (ClearTimeout a w)"]
  have "keeps v (v\<lparr>timeouts_signalled := ss\<rparr>)" for v :: "'a world" and ss
    by (rule keeps_same) simp_all
  then have k: "keeps (ClearTimeout a w) v \<Longrightarrow> keeps w (v\<lparr>timeouts_signalled := ss\<rparr>)" for v ss
    using keeps_trans keeps_timeouts(2) by blast
  show ?thesis
    using p q ok k
    by (auto simp: Process_def Let_def case_prod_unfold keeps_refl split: option.split task_state.split)
qed

text \<open>A task that is not done and not busy is marked as done and stopped.\<close>

lemma stop_marked:
  assumes ok: "tasks_inv E w" and at: "task_at w a = Some t" "\<not> tk_done t" "\<not> tk_busy t"
    and run: "a \<in> set (runner_tasks w)"
    and f: "\<And>t. tk_parent (f t) = tk_parent t" "\<And>t. tk_children (f t) = tk_children t"
      "\<And>t. tk_busy (f t) = tk_busy t" "\<And>t. tk_done (f t)"
    and calm: "calm F (on_task a f w)"
  shows "tasks_inv F (stop_task hook a (on_task a f w))" (is "tasks_inv F ?w'")
    and "settles (on_task a f w) (stop_task hook a (on_task a f w))"
proof -
  have "forest {a} (on_task a f w)"
    by (rule forest_mark) (use ok at f in \<open>auto simp: tasks_inv_def\<close>)
  then have ab: "aborted_ok {} a (on_task a f w) ?w'"
    unfolding stop_task_def
    by (intro Stop_ok [where t = "f t"]) (use at f in \<open>auto intro!: abort_tree_ok simp del: abort_tree.simps\<close>)
  then show "settles (on_task a f w) ?w'" by (simp add: aborted_ok_def)
  have "queue_ok (on_task a f w)"
    using ok run by (auto simp: tasks_inv_def queue_at_def split: if_splits)
  then have "queue_ok ?w'"
    by (rule queue_settles [rotated]) (use ab in \<open>simp add: aborted_ok_def\<close>)
  then show "tasks_inv F ?w'" using ab calm ok at by (simp add: tasks_inv_def aborted_ok_def)
qed

text \<open>A task may only run when its turn comes: nothing is busy between the steps.\<close>

definition at_rest_tasks :: "'u world \<Rightarrow> bool" where
  "at_rest_tasks w \<longleftrightarrow> tasks_ok w \<and> busy_tasks w = {}"

definition same_queue :: "'u world \<Rightarrow> 'u world \<Rightarrow> bool" where
  "same_queue w w' \<longleftrightarrow>
     busy_tasks w' = busy_tasks w \<and> runner_tasks w' = runner_tasks w \<and> tasks_running w' = tasks_running w"

lemma same_queue_trans: "same_queue u v \<Longrightarrow> same_queue v w \<Longrightarrow> same_queue u w"
  by (simp add: same_queue_def)

lemma same_queue_settles: "settles w w' \<Longrightarrow> same_queue w w'"
  using keeps_settles [of w w'] by (auto simp: same_queue_def keeps_def settles_def)

lemma same_queue_on_task: "(\<And>t. tk_busy (f t) = tk_busy t) \<Longrightarrow> same_queue w (on_task a f w)"
  by (auto simp: same_queue_def busy_tasks_def)

lemma same_queue_Reset: "same_queue w (ResetTimeout a w)"
  using keeps_timeouts(1) [of w a] by (auto simp: same_queue_def keeps_def ResetTimeout_def Let_def split: option.split)

lemma task_at_Reset:
  "task_at w a = Some t \<Longrightarrow> \<exists>k. task_at (ResetTimeout a w) a = Some (t\<lparr>tk_timeout_time := k\<rparr>)"
proof -
  assume at: "task_at w a = Some t"
  have "task_at (UpdateTaskTimeout a p v) = task_at v" for p and v :: "'a world"
    by (simp add: task_at_def fun_eq_iff)
  with at show ?thesis by (auto simp: ResetTimeout_def Let_def)
qed

text \<open>The end of a step that finishes the task.\<close>

lemma finish_task:
  assumes ok: "tasks_ok w" and at: "task_at w a = Some t" "\<not> tk_done t" "\<not> tk_busy t"
    and run: "a \<in> set (runner_tasks w)"
    and f: "\<And>t. tk_parent (f t) = tk_parent t" "\<And>t. tk_children (f t) = tk_children t"
      "\<And>t. tk_busy (f t) = tk_busy t" "\<And>t. tk_done (f t)"
  shows "tasks_ok (on_task a (\<lambda>t. t\<lparr>tk_blocked := True\<rparr>) (stop_task hook a (on_task a f w)))" (is "tasks_ok (on_task a ?b ?w)")
    and "same_queue w (on_task a (\<lambda>t. t\<lparr>tk_blocked := True\<rparr>) (stop_task hook a (on_task a f w)))"
proof -
  have c: "calm {a} (on_task a f w)" using ok by (auto simp: tasks_inv_def calm_def)
  note st = stop_marked [OF ok at run f c, of hook]
  have "task_at (on_task a f w) a = Some (f t)" using at by simp
  then obtain t2 where t2: "task_at ?w a = Some t2" and "task_settles (f t) t2"
    by (rule settles_at [OF st(2)])
  then have d2: "tk_done t2" using f(4) by (simp add: task_settles_def)
  have "forest {} (on_task a ?b ?w)"
    by (rule forest_on_task) (use st in \<open>auto simp: tasks_inv_def shape_def flags_ok_def\<close>)
  moreover have "calm {} (on_task a ?b ?w)"
    using st t2 d2 by (auto simp: tasks_inv_def calm_def)
  moreover have "queue_ok (on_task a ?b ?w)"
    using st by (auto simp: tasks_inv_def queue_at_def split: if_splits)
  ultimately show "tasks_ok (on_task a ?b ?w)" using st t2 by (simp add: tasks_inv_def)
  show "same_queue w (on_task a ?b ?w)"
    by (rule same_queue_trans [OF same_queue_trans [OF same_queue_on_task [of f w a] same_queue_settles [OF st(2)]]
          same_queue_on_task [of ?b]]) (simp_all add: f)
qed

text \<open>The abort that was put off while the task was busy.\<close>

lemma late_abort:
  assumes ok: "tasks_inv {a} w" and at: "task_at w a = Some t" "\<not> tk_done t" "\<not> tk_busy t"
    and run: "a \<in> set (runner_tasks w)"
  shows "tasks_ok (Abort hook a True w) \<and> same_queue w (Abort hook a True w)"
proof -
  let ?f = "\<lambda>t. t\<lparr>tk_aborted := True, tk_done := True, tk_blocked := True, tk_error := True\<rparr>"
  let ?w = "Stop hook (abort_tree hook (length (heap w))) a (on_task a ?f w)"
  have eq: "Abort hook a True w = ?w" using at by (simp add: Abort_def)
  have "forest {a} (on_task a ?f w)"
    by (rule forest_mark) (use ok at in \<open>auto simp: tasks_inv_def\<close>)
  then have ab: "aborted_ok {} a (on_task a ?f w) ?w"
    by (intro Stop_ok [where t = "?f t"]) (use at in \<open>auto intro!: abort_tree_ok\<close>)
  have "calm {} (on_task a ?f w)" using ok by (auto simp: tasks_inv_def calm_def)
  moreover have "queue_ok (on_task a ?f w)"
    using ok run by (auto simp: tasks_inv_def queue_at_def split: if_splits)
  then have "queue_ok ?w" by (rule queue_settles [rotated]) (use ab in \<open>simp add: aborted_ok_def\<close>)
  ultimately have "tasks_ok ?w" using ab ok at by (simp add: tasks_inv_def aborted_ok_def)
  moreover have "same_queue w ?w"
    by (rule same_queue_trans [OF same_queue_on_task [of ?f w a] same_queue_settles])
      (use ab in \<open>simp_all add: aborted_ok_def\<close>)
  ultimately show ?thesis unfolding eq by blast
qed

lemma after_process_ok:
  assumes ok: "tasks_inv {a} w" and run: "a \<in> set (runner_tasks w)"
    and at: "task_at w a = Some t" "\<not> tk_done t" "\<not> tk_busy t"
  shows "tasks_ok (after_process V a s w) \<and> same_queue w (after_process V a s w)"
proof (cases "tk_aborted t")
  case True
  then show ?thesis using late_abort [OF ok at run] at by (simp add: after_process_def)
next
  case False
  have "calm {} w"
    unfolding calm_def
  proof (intro allI impI)
    fix b u assume b: "task_at w b = Some u \<and> b \<notin> {}"
    show "(tk_done u \<longrightarrow> tk_blocked u) \<and> (tk_aborted u \<and> \<not> tk_done u \<longrightarrow> tk_busy u)"
      using ok at False b by (cases "b = a") (auto simp: tasks_inv_def calm_def)
  qed
  then have ok': "tasks_ok w" using ok by (simp add: tasks_inv_def)
  let ?w0 = "on_task a (\<lambda>t. t\<lparr>tk_state := s, tk_blocked := False\<rparr>) w"
  have w0: "tasks_ok ?w0"
    by (rule tasks_inv_on_task [OF ok' at(1)]) (use at False run in \<open>auto simp: shape_def flags_ok_def\<close>)
  have t0: "task_at ?w0 a = Some (t\<lparr>tk_state := s, tk_blocked := False\<rparr>)" using at by simp
  have w1: "tasks_ok (ResetTimeout a ?w0)" by (rule tasks_inv_Reset [OF w0 t0])
  obtain k where t1: "task_at (ResetTimeout a ?w0) a = Some (t\<lparr>tk_state := s, tk_blocked := False, tk_timeout_time := k\<rparr>)"
    using task_at_Reset [OF t0] by auto
  have q1: "same_queue w (ResetTimeout a ?w0)"
    by (rule same_queue_trans [OF same_queue_on_task [of "\<lambda>t. t\<lparr>tk_state := s, tk_blocked := False\<rparr>" w a]
          same_queue_Reset]) simp
  have run1: "a \<in> set (runner_tasks (ResetTimeout a ?w0))" using q1 run by (simp add: same_queue_def)
  note fin = finish_task [OF w1 t1 _ _ run1, of _ "stop_hook V"]
  have "tasks_ok (on_task a (\<lambda>t. t\<lparr>tk_blocked := True\<rparr>) w)"
    by (rule tasks_inv_quiet [OF ok' at(1)]) (auto simp: shape_def)
  then show ?thesis
    using at False w1 q1 fin [of "\<lambda>t. t\<lparr>tk_done := True\<rparr>"] fin [of "\<lambda>t. t\<lparr>tk_done := True, tk_error := True\<rparr>"]
    by (auto simp: after_process_def Let_def intro: same_queue_trans same_queue_on_task)
qed

lemma misused_Step: "misused w \<Longrightarrow> misused (Step V a w)"
proof -
  have p: "misused (fst (Process V a s v))" if "misused v" for s and v :: "'a world"
    using that misused_program
    by (auto simp: Process_def Let_def case_prod_unfold split: option.split task_state.split)
  have q: "misused (after_process V a s v) = misused v" for s and v :: "'a world"
    by (simp add: after_process_def Let_def split: option.split)
  assume "misused w"
  then show ?thesis
    using p [of "on_task a (\<lambda>t. t\<lparr>tk_busy := True\<rparr>) w"]
    by (auto simp: Step_def Let_def case_prod_unfold q split: option.split)
qed

text \<open>A step of a task that is done or that has to fail.\<close>

lemma Step_over:
  assumes rest: "at_rest_tasks w" and run: "a \<in> set (runner_tasks w)"
    and at: "task_at w a = Some t" "tk_done t \<or> tk_error t"
  shows "at_rest_tasks (Step V a w) \<and> same_queue w (Step V a w)"
proof -
  let ?f = "\<lambda>t. t\<lparr>tk_done := True, tk_state := TASK_ERROR, tk_blocked := True\<rparr>"
  let ?b = "\<lambda>t. t\<lparr>tk_blocked := True\<rparr>"
  have ok: "tasks_ok w" and idle: "busy_tasks w = {}" using rest by (auto simp: at_rest_tasks_def)
  have nb: "\<not> tk_busy t" using idle at unfolding busy_tasks_def by blast
  have "tasks_ok (on_task a ?b w)" "same_queue w (on_task a ?b w)"
    by (rule tasks_inv_quiet [OF ok at(1)], auto simp: shape_def intro: same_queue_on_task)
  moreover have "tasks_ok (stop_task (stop_hook V) a (on_task a ?f w))"
    "same_queue w (stop_task (stop_hook V) a (on_task a ?f w))" if "\<not> tk_done t"
  proof -
    have c: "calm {} (on_task a ?f w)" using ok by (auto simp: tasks_inv_def calm_def)
    note st = stop_marked [OF ok at(1) that nb run, of ?f, OF _ _ _ _ c, of "stop_hook V", simplified]
    show "tasks_ok (stop_task (stop_hook V) a (on_task a ?f w))" by (rule st)
    show "same_queue w (stop_task (stop_hook V) a (on_task a ?f w))"
      by (rule same_queue_trans [OF same_queue_on_task [of ?f] same_queue_settles [OF st(2)]]) simp
  qed
  ultimately show ?thesis
    using at idle by (auto simp: Step_def at_rest_tasks_def same_queue_def)
qed

lemma Step_ok:
  assumes rest: "at_rest_tasks w" and run: "a \<in> set (runner_tasks w)"
  shows "misused (Step V a w) \<or> at_rest_tasks (Step V a w) \<and> keeps w (Step V a w)"
proof -
  have ok: "tasks_ok w" and idle: "busy_tasks w = {}" using rest by (auto simp: at_rest_tasks_def)
  obtain t where at: "task_at w a = Some t" using ok run by (auto simp: tasks_inv_def queue_at_def)
  show ?thesis
  proof (cases "tk_done t \<or> tk_error t")
    case True
    then show ?thesis using Step_over [OF rest run at] by (auto simp: keeps_def same_queue_def)
  next
    case False
    let ?w0 = "on_task a (\<lambda>t. t\<lparr>tk_busy := True\<rparr>) w"
    let ?r = "Process V a (tk_state t) ?w0"
    let ?w2 = "on_task a (\<lambda>t. t\<lparr>tk_busy := False\<rparr>) (fst ?r)"
    have w0: "tasks_ok ?w0"
      by (rule tasks_inv_on_task [OF ok at]) (use False run ok at in \<open>auto simp: shape_def flags_ok_def\<close>)
    have at0: "task_at ?w0 a = Some (t\<lparr>tk_busy := True\<rparr>)" using at by simp
    have eq: "Step V a w = after_process V a (snd ?r) ?w2"
      using at False by (simp add: Step_def case_prod_unfold Let_def)
    consider "misused (fst ?r)" | "tasks_ok (fst ?r)" "keeps ?w0 (fst ?r)" using Process_ok [OF w0 at0] by blast
    then show ?thesis
    proof cases
      case 1
      then have "misused (after_process V a (snd ?r) ?w2)"
        by (simp add: after_process_def Let_def split: option.split)
      then show ?thesis by (simp add: eq)
    next
      case 2
      have busy: "busy_tasks (fst ?r) = {a}" using 2(2) idle at by (auto simp: keeps_def busy_tasks_def split: if_splits)
      then obtain t1 where t1: "task_at (fst ?r) a = Some t1" "tk_busy t1" unfolding busy_tasks_def by blast
      have nd: "\<not> tk_done t1" using 2(1) t1 by (auto simp: tasks_inv_def forest_def node_ok_def)
      have "tasks_inv {a} (fst ?r)" using 2(1) by (auto simp: tasks_inv_def calm_def)
      then have ok2: "tasks_inv {a} ?w2"
        by (rule tasks_inv_on_task [OF _ t1(1)]) (use run 2(2) in \<open>auto simp: shape_def flags_ok_def keeps_def\<close>)
      have "tasks_ok (Step V a w) \<and> same_queue ?w2 (Step V a w)"
        unfolding eq by (rule after_process_ok [OF ok2, where t = "t1\<lparr>tk_busy := False\<rparr>"]) (use t1 nd 2(2) run in \<open>auto simp: keeps_def\<close>)
      moreover have "busy_tasks ?w2 = {}" using busy by (auto simp: busy_tasks_def)
      ultimately show ?thesis
        using 2(2) idle by (auto simp: at_rest_tasks_def same_queue_def keeps_def)
    qed
  qed
qed

subsection \<open>The loops of the runner\<close>

definition loop_result :: "nat \<Rightarrow> bool \<Rightarrow> 'u world \<Rightarrow> 'u world \<Rightarrow> bool" where
  "loop_result i did_run w r \<longleftrightarrow>
     (misused w \<longrightarrow> misused r)
     \<and> (at_rest_tasks w
         \<and> (did_run \<or> (\<forall>j<i. j < length (runner_tasks w) \<longrightarrow> task_blocked w (runner_tasks w ! j)))
         \<longrightarrow> misused r \<or> at_rest_tasks r \<and> keeps w r \<and> (\<forall>a\<in>set (runner_tasks r). task_blocked r a))"

lemma loop_result_step:
  assumes len: "i < length (runner_tasks w)"
    and here: "\<not> task_blocked w (runner_tasks w ! i)"
    and rest: "loop_result i True (Step V (runner_tasks w ! i) (touch (Some (runner_tasks w ! i)) w)) r"
  shows "loop_result i did_run w r"
proof -
  let ?a = "runner_tasks w ! i"
  have t: "touch (Some ?a) w = w" using here by (intro touch_alive) (auto simp: task_blocked_def split: option.splits)
  have "misused (Step V ?a w) \<or> at_rest_tasks (Step V ?a w) \<and> keeps w (Step V ?a w)" if "at_rest_tasks w"
    using Step_ok [OF that, of ?a] len by simp
  then show ?thesis
    using rest misused_Step [of w V ?a] unfolding loop_result_def t by (auto intro: keeps_trans)
qed

lemma loop_result_skip:
  assumes len: "i < length (runner_tasks w)"
    and here: "task_blocked w (runner_tasks w ! i)"
    and rest: "loop_result (i + 1) did_run (touch (Some (runner_tasks w ! i)) w) r"
  shows "loop_result i did_run w r"
proof -
  have "touch (Some (runner_tasks w ! i)) w = w" if "at_rest_tasks w"
    using that len by (intro touch_alive) (auto simp: at_rest_tasks_def tasks_inv_def queue_at_def)
  then show ?thesis
    using rest here unfolding loop_result_def by (auto simp: less_Suc_eq)
qed

lemma run_loop_result:
  assumes "run_loop V i did_run w = Some r" shows "loop_result i did_run w r"
proof (rule run_loop.raw_induct [where P = "\<lambda>V i did_run w r. loop_result i did_run w r", OF _ assms])
  fix run and V :: "'a vtable" and i did_run w r
  assume IH: "\<And>V i did_run w r. run V i did_run w = Some r \<Longrightarrow> loop_result i did_run w r"
    and eq: "(if i < length (runner_tasks w)
        then let a = runner_tasks w ! i; w0 = touch (Some a) w
             in if \<not> task_blocked w a then run V i True (Step V a w0) else run V (i + 1) did_run w0
        else if did_run then run V 0 False w else Some w) = Some r"
  from eq consider "i < length (runner_tasks w)" "\<not> task_blocked w (runner_tasks w ! i)"
      "run V i True (Step V (runner_tasks w ! i) (touch (Some (runner_tasks w ! i)) w)) = Some r"
    | "i < length (runner_tasks w)" "task_blocked w (runner_tasks w ! i)"
      "run V (i + 1) did_run (touch (Some (runner_tasks w ! i)) w) = Some r"
    | "\<not> i < length (runner_tasks w)" "did_run" "run V 0 False w = Some r"
    | "\<not> i < length (runner_tasks w)" "\<not> did_run" "r = w"
    by (auto simp: Let_def split: if_splits)
  then show "loop_result i did_run w r"
  proof cases
    case 1 then show ?thesis by (intro loop_result_step [OF 1(1,2)]) (rule IH)
  next
    case 2 then show ?thesis by (intro loop_result_skip [OF 2(1,2)]) (rule IH)
  next
    case 3 then show ?thesis using IH [OF 3(3)] by (simp add: loop_result_def)
  next
    case 4 then show ?thesis by (auto simp: loop_result_def keeps_refl in_set_conv_nth)
  qed
qed


subsection \<open>Deleting the tasks that are done\<close>

text \<open>A task that is done has no children once nothing is busy.\<close>

lemma done_is_leaf:
  assumes "forest {} w" "calm {} w" "busy_tasks w = {}" "task_at w a = Some t" "tk_done t"
  shows "tk_children t = []"
proof (rule ccontr)
  assume "tk_children t \<noteq> []"
  then obtain c where c: "c \<in> set (tk_children t)" by (cases "tk_children t") auto
  note n = forest_node [OF assms(1,4), unfolded node_ok_def]
  obtain ct where ct: "task_at w c = Some ct" "tk_parent ct = Some a" "\<not> tk_done ct"
    using n c unfolding child_set_ok_def by blast
  then have "tk_aborted ct" using forest_node [OF assms(1) ct(1)] assms(4,5) by (auto simp: node_ok_def)
  then have "tk_busy ct" using assms(2) ct by (auto simp: calm_def)
  then show False using assms(3) ct unfolding busy_tasks_def by blast
qed

definition loop_inv :: "nat list \<Rightarrow> 'u world \<Rightarrow> bool" where
  "loop_inv L w \<longleftrightarrow> forest {} w \<and> calm {} w \<and> queue_at L w \<and> \<not> dangling w \<and> busy_tasks w = {}"

lemma at_rest_loop_inv: "at_rest_tasks w \<longleftrightarrow> loop_inv (runner_tasks w) w"
  by (auto simp: at_rest_tasks_def loop_inv_def tasks_inv_def)

lemma busy_delete:
  assumes "forest {} w" "task_at w a = Some t" "tk_children t = []" "busy_tasks w = {}"
  shows "busy_tasks (delete_task hook a w) = {}"
  using assms(4) forest_delete(4) [OF assms(1-3), of hook] unfolding busy_tasks_def same_flags_def by blast

lemma loop_inv_delete:
  assumes ok: "loop_inv L w" and at: "task_at w a = Some t" "tk_done t" and "next_timeout_task w \<noteq> Some a"
  shows "loop_inv (remove1 a L) (delete_task hook a w)"
proof -
  have leaf: "tk_children t = []" using ok at by (auto simp: loop_inv_def intro: done_is_leaf)
  show ?thesis
    using assms leaf forest_delete [of w a t hook] calm_delete [of w a t "{}" hook] queue_delete [of w a t L hook]
      busy_delete [of w a t hook]
    by (simp add: loop_inv_def)
qed

lemma loop_inv_next: "loop_inv L w \<Longrightarrow> loop_inv L (w\<lparr>next_timeout_task := None\<rparr>)"
  by (auto simp: loop_inv_def queue_at_def calm_def busy_tasks_def flags_ok_def elim!: forest_shape [rotated 3])

lemma loop_inv_touch: "loop_inv L w \<Longrightarrow> touch (next_timeout_task w) w = w"
  by (intro touch_alive; cases "next_timeout_task w") (auto simp: loop_inv_def queue_at_def)

lemma delete_loop_ok:
  assumes "loop_inv (P @ as) w" and "delete_loop hook as recalc w = (w', left, r)"
  shows "loop_inv (P @ left) w' \<and> (\<forall>a\<in>set left. \<exists>t. task_at w' a = Some t \<and> \<not> tk_done t)
     \<and> (\<forall>a t'. task_at w' a = Some t' \<longrightarrow> (\<exists>t. task_at w a = Some t \<and> same_flags t t'))
     \<and> (\<forall>a t. task_at w a = Some t \<and> \<not> tk_done t \<longrightarrow> task_at w' a \<noteq> None)
     \<and> set left \<subseteq> set as \<and> misused w' = misused w \<and> runner_tasks w' = runner_tasks w"
  using assms
proof (induction as arbitrary: P w recalc left)
  case Nil then show ?case by (auto simp: same_flags_def)
next
  case (Cons a as)
  obtain t where t: "task_at w a = Some t" using Cons.prems(1) by (auto simp: loop_inv_def queue_at_def)
  show ?case
  proof (cases "tk_done t")
    case True
    let ?w1 = "if next_timeout_task w = Some a then w\<lparr>next_timeout_task := None\<rparr> else w"
    have w1: "loop_inv (P @ a # as) ?w1" "task_at ?w1 a = Some t" "next_timeout_task ?w1 \<noteq> Some a"
      using Cons.prems(1) t by (auto simp: loop_inv_next)
    have "distinct (P @ a # as)" using Cons.prems(1) by (auto simp: loop_inv_def queue_at_def)
    then have "remove1 a (P @ a # as) = P @ as" by (simp add: remove1_append)
    then have w2: "loop_inv (P @ as) (delete_task hook a ?w1)"
      using loop_inv_delete [OF w1(1,2) True w1(3), of hook] by simp
    have leaf: "tk_children t = []" and fo: "forest {} ?w1"
      using w1 True by (auto simp: loop_inv_def intro: done_is_leaf [of ?w1 a])
    note d = forest_delete [OF fo w1(2) leaf, of hook]
    have "delete_loop hook as (recalc \<or> next_timeout_task w = Some a) (delete_task hook a ?w1) = (w', left, r)"
      using Cons.prems t True loop_inv_touch [OF Cons.prems(1)] by (simp add: Let_def)
    note IH = Cons.IH [OF w2 this]
    have "\<exists>u. task_at w b = Some u \<and> same_flags u t'" if "task_at w' b = Some t'" for b t'
    proof -
      obtain u' where u': "task_at (delete_task hook a ?w1) b = Some u'" "same_flags u' t'" using IH \<open>task_at w' b = Some t'\<close> by blast
      obtain u where "task_at ?w1 b = Some u" "same_flags u u'" using d(4) [OF u'(1)] by blast
      then show ?thesis using u'(2) by (auto simp: same_flags_def split: if_splits)
    qed
    moreover have "task_at w' b \<noteq> None" if b: "task_at w b = Some u" "\<not> tk_done u" for b u
    proof -
      have "task_at ?w1 b = Some u" "b \<noteq> a" using b True t by auto
      then obtain u' where u': "task_at (delete_task hook a ?w1) b = Some u'" using d(3) [of b] by auto
      then have "\<not> tk_done u'" using d(4) [OF u'] \<open>task_at ?w1 b = Some u\<close> b(2) by (auto simp: same_flags_def)
      then show ?thesis using IH u' by blast
    qed
    ultimately show ?thesis using IH d(5,7) by auto
  next
    case False
    obtain left' where rec: "delete_loop hook as recalc w = (w', left', r)" and left: "left = a # left'"
      using Cons.prems(2) t False by (auto split: prod.splits)
    have "loop_inv ((P @ [a]) @ as) w" using Cons.prems(1) by simp
    note IH = Cons.IH [OF this rec]
    have "\<exists>t'. task_at w' a = Some t' \<and> \<not> tk_done t'" using IH t False unfolding same_flags_def by fastforce
    then show ?thesis using IH by (auto simp: left)
  qed
qed


subsection \<open>A whole run\<close>

lemma finish_run_ok:
  assumes rest: "at_rest_tasks w"
  shows "at_rest_tasks (finish_run hook d p w) \<and> \<not> tasks_running (finish_run hook d p w)
     \<and> misused (finish_run hook d p w) = misused w
     \<and> set (runner_tasks (finish_run hook d p w)) \<subseteq> set (runner_tasks w)
     \<and> (\<forall>a\<in>set (runner_tasks (finish_run hook d p w)). \<exists>t. task_at (finish_run hook d p w) a = Some t \<and> \<not> tk_done t)
     \<and> (\<forall>a t'. task_at (finish_run hook d p w) a = Some t' \<longrightarrow> (\<exists>t. task_at w a = Some t \<and> same_flags t t'))
     \<and> (\<forall>a t. task_at w a = Some t \<and> \<not> tk_done t \<longrightarrow> task_at (finish_run hook d p w) a \<noteq> None)"
proof -
  obtain w1 left r where dl: "delete_loop hook (runner_tasks w) False w = (w1, left, r)" by (metis prod_cases3)
  have "loop_inv ([] @ runner_tasks w) w" using rest by (simp add: at_rest_loop_inv)
  note d = delete_loop_ok [OF this dl]
  let ?w2 = "w1\<lparr>runner_tasks := left\<rparr>"
  let ?w3 = "if r then RecalcNextTimeout None ?w2 else ?w2"
  let ?w4 = "if d then ?w3 else CheckForTimeoutChange p ?w3"
  have "loop_inv left ?w2"
    using d by (auto simp: loop_inv_def queue_at_def calm_def busy_tasks_def flags_ok_def elim!: forest_shape [rotated 3])
  then have "tasks_ok ?w2" by (auto simp: loop_inv_def tasks_inv_def)
  then have ok: "tasks_ok ?w4" by (simp add: tasks_inv_Recalc tasks_inv_Check)
  have heap: "heap ?w4 = heap w1" "runner_tasks ?w4 = left" "misused ?w4 = misused w1" by simp_all
  have at: "task_at (?w4\<lparr>tasks_running := False\<rparr>) = task_at w1"
    using heap(1) by (simp add: task_at_def fun_eq_iff)
  have eq: "finish_run hook d p w = ?w4\<lparr>tasks_running := False\<rparr>"
    by (simp add: finish_run_def dl Let_def)
  have "tasks_ok (?w4\<lparr>tasks_running := False\<rparr>)" using ok by (rule tasks_inv_free)
  moreover have "busy_tasks (?w4\<lparr>tasks_running := False\<rparr>) = {}"
    using d unfolding busy_tasks_def at by (simp add: loop_inv_def busy_tasks_def)
  ultimately show ?thesis
    unfolding eq at_rest_tasks_def at using d heap by (auto simp del: task_at_heap_only)
qed

lemma misused_finish: "misused (finish_run hook d p w) = misused w"
proof -
  have m: "misused (delete_task h a u) = misused u" for h a and u :: "'a world"
    using misused_perform [of h "CallDelete a" u] by simp
  have "misused (fst (delete_loop h as b u)) = misused u" for h as b and u :: "'a world"
    by (induction h as b u rule: delete_loop.induct)
      (auto simp: Let_def m touch_def set_dangling_def case_prod_unfold split: option.split)
  then show ?thesis by (simp add: finish_run_def Let_def case_prod_unfold)
qed

lemma RunTasks_misused: "RunTasks V w = Some r \<Longrightarrow> misused w \<Longrightarrow> misused r"
  using run_loop_result [of V 0 False "w\<lparr>tasks_running := True\<rparr>"]
  by (auto simp: RunTasks_def InternalRunTasks_def misused_finish loop_result_def split: if_splits)

text \<open>
  When \<open>RunTasks\<close> returns, every task that is left is blocked and none of them is done; the
  tree is in order.
\<close>

lemma RunTasks_ok:
  assumes rest: "at_rest_tasks w" and idle: "\<not> tasks_running w" and run: "RunTasks V w = Some r"
  shows "misused r \<or> at_rest_tasks r \<and> \<not> tasks_running r
     \<and> (\<forall>a\<in>set (runner_tasks r). \<exists>t. task_at r a = Some t \<and> tk_blocked t \<and> \<not> tk_done t)"
proof -
  let ?w = "w\<lparr>tasks_running := True\<rparr>"
  obtain v where v: "run_loop V 0 False ?w = Some v"
    and r: "r = finish_run (stop_hook V) False (next_task_timeout w) v"
    using run idle by (auto simp: RunTasks_def InternalRunTasks_def)
  have "at_rest_tasks ?w" using rest by (simp add: at_rest_tasks_def busy_tasks_def)
  then consider "misused v" | "at_rest_tasks v" "\<forall>a\<in>set (runner_tasks v). task_blocked v a"
    using run_loop_result [OF v] by (auto simp: loop_result_def)
  then show ?thesis
  proof cases
    case 1
    then have "misused r" unfolding r by (simp add: misused_finish)
    then show ?thesis by blast
  next
    case 2
    note f = finish_run_ok [OF 2(1), of "stop_hook V" False "next_task_timeout w", folded r]
    have "tk_blocked t" if "a \<in> set (runner_tasks r)" "task_at r a = Some t" for a t
      using f that 2(2) by (fastforce simp: same_flags_def task_blocked_def)
    then show ?thesis using f by blast
  qed
qed

subsection \<open>The life of a runner\<close>

text \<open>The code around the runner makes calls, runs the tasks when it was woken, and time passes.\<close>

inductive runner_life :: "'u vtable \<Rightarrow> 'u world \<Rightarrow> bool" for V where
  life_init: "runner_life V (runner_init u)"
| life_call: "runner_life V w \<Longrightarrow> runner_life V (call (stop_hook V) c w)"
| life_run: "runner_life V w \<Longrightarrow> RunTasks V w = Some r \<Longrightarrow> runner_life V r"
| life_clock: "runner_life V w \<Longrightarrow> runner_life V (w\<lparr>clock := now\<rparr>)"

lemma life_ok: "runner_life V w \<Longrightarrow> misused w \<or> at_rest_tasks w \<and> \<not> tasks_running w"
proof (induction rule: runner_life.induct)
  case (life_init u)
  then show ?case
    by (auto simp: at_rest_tasks_def tasks_ok_init busy_tasks_def task_at_def) (simp_all add: runner_init_def)
next
  case (life_call w c)
  show ?case
  proof (cases "misused w \<or> \<not> legal_call c w")
    case True then show ?thesis by (auto simp: call_def)
  next
    case False
    then have "tasks_ok w" "busy_tasks w = {}" "\<not> tasks_running w" "call (stop_hook V) c w = perform (stop_hook V) c w"
      using life_call.IH by (auto simp: at_rest_tasks_def call_def)
    then show ?thesis
      using tasks_inv_perform [of "{}" w c "stop_hook V"] keeps_perform [of "{}" w c "stop_hook V"] False
      by (auto simp: at_rest_tasks_def keeps_def)
  qed
next
  case (life_run w r)
  then show ?case using RunTasks_ok [of w V r] RunTasks_misused [of V w r] by blast
next
  case (life_clock w now)
  then show ?case by (auto simp: at_rest_tasks_def busy_tasks_def)
qed

subsection \<open>When a run ends\<close>

text \<open>
  The loops end when every step of a task that is not blocked lowers a number: \<open>I\<close> is an invariant
  of the program that runs.
\<close>

lemma run_loop_ends:
  fixes R :: "'u world \<Rightarrow> nat"
  assumes step: "\<And>w a. I w \<Longrightarrow> a \<in> set (runner_tasks w) \<Longrightarrow> \<not> task_blocked w a \<Longrightarrow> I (Step V a w) \<and> R (Step V a w) < R w"
    and alive: "\<And>w a. I w \<Longrightarrow> a \<in> set (runner_tasks w) \<Longrightarrow> task_at w a \<noteq> None"
    and "I w"
  shows "\<exists>r. run_loop V i did_run w = Some r \<and> I r"
  using \<open>I w\<close>
proof (induction "(R w, if did_run then 1 else 0 :: nat, length (runner_tasks w) - i)" arbitrary: w i did_run
    rule: wf_induct_rule [OF wf_lex_prod [OF wf_less_than wf_lex_prod [OF wf_less_than wf_less_than]]])
  case 1
  note IH = 1(1) [rule_format]
  show ?case
  proof (cases "i < length (runner_tasks w)")
    case True
    let ?a = "runner_tasks w ! i"
    have a: "?a \<in> set (runner_tasks w)" using True by simp
    have t: "touch (Some ?a) w = w" using alive [OF 1(2) a] by (simp add: touch_alive)
    show ?thesis
    proof (cases "task_blocked w ?a")
      case b: True
      have "\<exists>r. run_loop V (i + 1) did_run w = Some r \<and> I r"
        by (rule IH [OF _ 1(2)]) (use True in auto)
      then show ?thesis using True b t by (simp add: run_loop.simps [of V i did_run w])
    next
      case nb: False
      have "\<exists>r. run_loop V i True (Step V ?a w) = Some r \<and> I r"
        by (rule IH) (use step [OF 1(2) a nb] in auto)
      then show ?thesis using True nb t by (simp add: run_loop.simps [of V i did_run w])
    qed
  next
    case False
    show ?thesis
    proof (cases did_run)
      case d: True
      have "\<exists>r. run_loop V 0 False w = Some r \<and> I r" by (rule IH [OF _ 1(2)]) (use d in auto)
      then show ?thesis using False d by (simp add: run_loop.simps [of V i True w])
    next
      case d: False
      then show ?thesis using False d 1(2) by (simp add: run_loop.simps [of V i False w])
    qed
  qed
qed

subsection \<open>Properties of the framework\<close>

inductive descends :: "'u world \<Rightarrow> nat \<Rightarrow> nat \<Rightarrow> bool" for w where
  child: "task_at w c = Some t \<Longrightarrow> tk_parent t = Some a \<Longrightarrow> descends w c a"
| further: "task_at w c = Some t \<Longrightarrow> tk_parent t = Some p \<Longrightarrow> descends w p a \<Longrightarrow> descends w c a"

lemma unfinished_parent:
  assumes rest: "at_rest_tasks w" and at: "task_at w c = Some ct" "\<not> tk_done ct" "tk_parent ct = Some p"
  shows "\<exists>pt. task_at w p = Some pt \<and> \<not> tk_done pt"
proof -
  have fo: "forest {} w" and ca: "calm {} w" using rest by (auto simp: at_rest_tasks_def tasks_inv_def)
  note n = forest_node [OF fo at(1), unfolded node_ok_def]
  obtain pt where pt: "task_at w p = Some pt" using n at by (auto simp: linked_def)
  have "\<not> tk_done pt"
  proof
    assume "tk_done pt"
    then have "tk_aborted ct" using n at pt by blast
    then have "tk_busy ct" using ca at by (auto simp: calm_def)
    then show False using rest at(1) unfolding at_rest_tasks_def busy_tasks_def by blast
  qed
  then show ?thesis using pt by blast
qed

lemma descendants_done:
  "descends w c a \<Longrightarrow> at_rest_tasks w \<Longrightarrow> task_at w a = Some t \<Longrightarrow> tk_done t \<Longrightarrow>
   task_at w c = Some ct \<Longrightarrow> tk_done ct"
proof (induction c a arbitrary: ct rule: descends.induct)
  case (child c u a)
  then show ?case using unfinished_parent [of w c ct a] by auto
next
  case (further c u p a)
  then show ?case using unfinished_parent [of w c ct p] by auto
qed

definition sample_tasks :: "unit vtable" where
  "sample_tasks =
     \<lparr>ProcessStart = (\<lambda>a w. if a = 0 \<and> length (heap w) = 1
        then Call (Construct (Some 0)) (\<lambda>_. Call (CallStart 1) (\<lambda>_. Return TASK_BLOCKED))
        else Return TASK_BLOCKED),
      ProcessResponse = (\<lambda>a w. Return TASK_DONE), OnTimeout = (\<lambda>a w. Return TASK_DONE),
      ProcessOther = (\<lambda>a s. None), stop_hook = (\<lambda>a u. u)\<rparr>"

definition sample_world :: "unit world" where
  "sample_world = call (stop_hook sample_tasks) (CallStart 0)
     (call (stop_hook sample_tasks) (Construct None) (runner_init ()))"

declare run_loop.simps [code]

lemma sample_tasks_run: "RunTasks sample_tasks sample_world \<noteq> None"
  by code_simp

text \<open>C27: Whatever the subclasses do and in whatever order the calls come, as long as no call breaks
  the contract of the framework (no call on a deleted task, no second \<open>Start\<close>, no child for a task
  that is done) the runner never follows a pointer to a deleted task, and once a task is done all
  its descendants are done.\<close>

theorem task_tree_safe:
  assumes "runner_life V w" and "\<not> misused w"
  shows "\<not> dangling w
    \<and> (\<forall>a t c ct. task_at w a = Some t \<and> tk_done t \<and> descends w c a \<and> task_at w c = Some ct \<longrightarrow> tk_done ct)"
proof -
  have rest: "at_rest_tasks w" using life_ok assms by blast
  then have "\<not> dangling w" by (simp add: at_rest_tasks_def tasks_inv_def)
  then show ?thesis using descendants_done [OF _ rest] by blast
qed

text \<open>C28: Aborting a task from outside ends it and all tasks below it at once, whatever tree of
  tasks there is (only a task that is running right now would be put off to the end of its step).\<close>

theorem abort_ends_subtree:
  assumes "runner_life V w" and "\<not> misused w" and "task_at w a = Some t"
  shows "\<exists>t'. task_at (call (stop_hook V) (CallAbort a nowake) w) a = Some t' \<and> tk_done t'
    \<and> (\<forall>c ct. descends (call (stop_hook V) (CallAbort a nowake) w) c a
         \<and> task_at (call (stop_hook V) (CallAbort a nowake) w) c = Some ct \<longrightarrow> tk_done ct)"
proof -
  let ?w = "call (stop_hook V) (CallAbort a nowake) w"
  have rest: "at_rest_tasks w" using life_ok assms by blast
  have eq: "?w = Abort (stop_hook V) a nowake w" using assms by (simp add: call_def)
  have "aborted_ok {} a w (abort_tree (stop_hook V) (length (heap w) + 1) a w)"
    by (rule abort_tree_ok) (use rest assms in \<open>auto simp: at_rest_tasks_def tasks_inv_def\<close>)
  moreover have "task_at ?w = task_at (abort_tree (stop_hook V) (length (heap w) + 1) a w)"
    unfolding eq by (simp add: Abort_def Let_def del: abort_tree.simps split: option.split)
  ultimately obtain t' where t': "task_at ?w a = Some t'" "tk_done t' \<or> tk_aborted t'"
    unfolding aborted_ok_def by metis
  have "misused ?w = misused w" unfolding eq by simp
  then have rest': "at_rest_tasks ?w" using life_ok [OF life_call [OF assms(1)]] assms(2) by blast
  have "tk_done t'"
  proof (rule ccontr)
    assume "\<not> tk_done t'"
    then have "tk_busy t'" using t' rest' by (auto simp: at_rest_tasks_def tasks_inv_def calm_def)
    then show False using t' rest' unfolding at_rest_tasks_def busy_tasks_def by blast
  qed
  then show ?thesis using t' descendants_done [OF _ rest' t'(1)] by blast
qed

text \<open>C29: When \<open>RunTasks\<close> returns, every task that the runner still holds is blocked and unfinished,
  so that nothing is left to be done before the next wake-up.\<close>

theorem run_leaves_blocked_tasks:
  assumes "runner_life V w" and "RunTasks V w = Some r" and "\<not> misused r"
  shows "\<forall>a\<in>set (runner_tasks r). \<exists>t. task_at r a = Some t \<and> tk_blocked t \<and> \<not> tk_done t"
  using assms life_ok [OF assms(1)] RunTasks_misused RunTasks_ok [of w V r] by blast

lemma sample_life: "runner_life sample_tasks sample_world"
  unfolding sample_world_def by (intro life_call life_init)

definition sample_run :: "unit world" where
  "sample_run = the (RunTasks sample_tasks sample_world)"

lemma sample_run: "RunTasks sample_tasks sample_world = Some sample_run" "runner_life sample_tasks sample_run"
  using sample_tasks_run life_run [OF sample_life] by (auto simp: sample_run_def)

lemma sample_state: "\<not> misused sample_run" "runner_tasks sample_run = [0, 1]" "task_at sample_run 0 \<noteq> None"
  by code_simp+

lemma task_tree_safe_witness: "\<not> dangling sample_run"
  using task_tree_safe [OF sample_run(2) sample_state(1)] by blast


lemma abort_ends_subtree_witness:
  "\<exists>t. task_at (call (stop_hook sample_tasks) (CallAbort 0 False) sample_run) 0 = Some t \<and> tk_done t"
  using abort_ends_subtree [OF sample_run(2) sample_state(1), of 0 "the (task_at sample_run 0)" False]
    sample_state(3) by auto

lemma run_leaves_blocked_tasks_witness:
  "(\<exists>t. task_at sample_run 0 = Some t \<and> tk_blocked t \<and> \<not> tk_done t)
   \<and> (\<exists>t. task_at sample_run 1 = Some t \<and> tk_blocked t \<and> \<not> tk_done t)"
  using run_leaves_blocked_tasks [OF sample_life sample_run(1) sample_state(1)] sample_state(2) by simp

end
