(* ===== verification/TaskTimeouts.thy ===== *)
theory TaskTimeouts
  imports TaskLaws "HOL-Library.Word"
begin

text \<open>
  The timeouts of the tasks: looking for the next timeout finds the earliest one, but a timeout
  that is put off may stay the next one (\<open>expired_timeout_is_missed\<close>); and with the clock of
  \<open>XmppPump\<close> (\<open>talk/xmpp/xmpppump.cc\<close>), which counts milliseconds where the tasks count in units of
  100 ns, every timeout lasts ten thousand times too long.
\<close>

subsection \<open>The earliest timeout\<close>

text \<open>The tasks that may time out, with their times.\<close>

definition waiting :: "'u world \<Rightarrow> nat option \<Rightarrow> nat list \<Rightarrow> (nat \<times> int) set" where
  "waiting w exclude as =
     {(a, time). a \<in> set as \<and> exclude \<noteq> Some a
        \<and> (\<exists>t. task_at w a = Some t \<and> \<not> tk_done t \<and> tk_timeout_time t = time \<and> time > 0)}"

definition earliest :: "(nat \<times> int) set \<Rightarrow> int \<Rightarrow> nat option \<Rightarrow> bool" where
  "earliest E n b \<longleftrightarrow>
     (case b of None \<Rightarrow> n = 0 \<and> E = {} | Some x \<Rightarrow> 0 < n \<and> (x, n) \<in> E \<and> (\<forall>(y, m)\<in>E. n \<le> m))"

lemma earliest_insert:
  "earliest E n b \<Longrightarrow> 0 < m \<Longrightarrow>
   earliest (insert (a, m) E) (if n = 0 \<or> m \<le> n then m else n) (if n = 0 \<or> m \<le> n then Some a else b)"
  by (force simp: earliest_def split: option.splits)

lemma waiting_Cons:
  "waiting w x (a # as) =
     (case task_at w a of
        Some t \<Rightarrow> if \<not> tk_done t \<and> tk_timeout_time t > 0 \<and> x \<noteq> Some a
                  then insert (a, tk_timeout_time t) (waiting w x as) else waiting w x as
      | None \<Rightarrow> waiting w x as)"
  by (auto simp: waiting_def split: option.split)

lemma recalc_loop_earliest:
  "earliest E n b \<Longrightarrow> \<exists>n'. earliest (E \<union> waiting w x as) n' (recalc_loop w x as n b)"
proof (induction as arbitrary: E n b)
  case Nil then show ?case by (auto simp: waiting_def)
next
  case (Cons a as)
  show ?case
  proof (cases "task_at w a")
    case None then show ?thesis using Cons by (simp add: waiting_Cons)
  next
    case (Some t)
    let ?m = "tk_timeout_time t"
    show ?thesis
    proof (cases "\<not> tk_done t \<and> ?m > 0 \<and> x \<noteq> Some a")
      case True
      note e = earliest_insert [OF Cons.prems, of ?m a]
      show ?thesis
        using Cons.IH [of "insert (a, ?m) E" "if n = 0 \<or> ?m \<le> n then ?m else n" "if n = 0 \<or> ?m \<le> n then Some a else b"]
          e True Some by (auto simp: waiting_Cons)
    next
      case False then show ?thesis using Cons Some by (auto simp: waiting_Cons)
    qed
  qed
qed

text \<open>Looking for the next timeout finds a task with the earliest timeout of all the unfinished
  tasks in the runner's list, and finds none only if no task has a timeout.\<close>

theorem recalculated_timeout_is_earliest:
  "\<exists>time. earliest (waiting w exclude (runner_tasks w)) time (next_timeout_task (RecalcNextTimeout exclude w))"
  using recalc_loop_earliest [of "{}" 0 None w exclude "runner_tasks w"]
  by (simp add: RecalcNextTimeout_def earliest_def)

subsection \<open>A timeout that is put off\<close>

text \<open>
  Two tasks with timeouts of 10 and of 15 seconds. After 8 seconds the first goes on to its next
  state, which puts its timeout off to 18 seconds; it stays the next task to time out.
\<close>

definition two_tasks :: "unit vtable" where
  "two_tasks =
     \<lparr>ProcessStart = (\<lambda>a w. Return (if clock w = 0 then TASK_BLOCKED else TASK_RESPONSE)),
      ProcessResponse = (\<lambda>a w. Return TASK_BLOCKED), OnTimeout = (\<lambda>a w. Return TASK_DONE),
      ProcessOther = (\<lambda>a s. None), stop_hook = (\<lambda>a u. u)\<rparr>"

definition perform_all :: "unit task_call list \<Rightarrow> unit world \<Rightarrow> unit world" where
  "perform_all cs w = fold (call (stop_hook two_tasks)) cs w"

lemma life_calls: "runner_life two_tasks w \<Longrightarrow> runner_life two_tasks (perform_all cs w)"
  unfolding perform_all_def by (induction cs arbitrary: w) (auto intro: life_call)

definition started_pair :: "unit world" where
  "started_pair = perform_all [Construct None, Construct None, CallSetTimeout 0 10, CallSetTimeout 1 15,
     CallStart 0, CallStart 1] (runner_init ())"

definition seconds :: "int \<Rightarrow> int" where
  "seconds s = s * kSecToMsec * kMsecTo100ns"

definition first_went_on :: "unit world option" where
  "first_went_on =
     Option.bind (RunTasks two_tasks started_pair) (\<lambda>w.
       RunTasks two_tasks (perform_all [CallWake 0] (w\<lparr>clock := seconds 8\<rparr>)))"

definition sixteen_seconds :: "unit world" where
  "sixteen_seconds = (the first_went_on)\<lparr>clock := seconds 16\<rparr>"

lemma first_went_on: "first_went_on \<noteq> None"
  by code_simp

lemma sixteen_seconds_life: "runner_life two_tasks sixteen_seconds"
proof -
  obtain w r where w: "RunTasks two_tasks started_pair = Some w"
    and r: "RunTasks two_tasks (perform_all [CallWake 0] (w\<lparr>clock := seconds 8\<rparr>)) = Some r"
    and eq: "first_went_on = Some r"
    using first_went_on by (auto simp: first_went_on_def split: Option.bind_splits)
  have "runner_life two_tasks started_pair"
    unfolding started_pair_def by (rule life_calls [OF life_init])
  then have "runner_life two_tasks r"
    by (rule life_run [OF life_calls [OF life_clock [OF life_run [OF _ w]]] r])
  then show ?thesis unfolding sixteen_seconds_def eq by (simp add: life_clock)
qed

lemma sixteen_seconds_state:
  "\<not> misused sixteen_seconds" "TimedOut sixteen_seconds 1" "PollTasks sixteen_seconds = sixteen_seconds"
  "next_task_timeout sixteen_seconds = seconds 18"
  by code_simp+

text \<open>A task whose timeout is over may be missed: with proper use of the framework there is a
  moment when a task has timed out, and \<open>PollTasks\<close> wakes no task, because the runner waits for the
  later timeout of a task that was put off.\<close>

theorem expired_timeout_is_missed:
  "\<exists>w. runner_life two_tasks w \<and> \<not> misused w \<and> TimedOut w 1 \<and> PollTasks w = w
     \<and> next_task_timeout w > clock w"
  using sixteen_seconds_life sixteen_seconds_state
  by (intro exI [of _ sixteen_seconds]) (simp add: sixteen_seconds_def seconds_def)

subsection \<open>The clock of the pump\<close>

text \<open>\<open>XmppPump::CurrentTime\<close> returns \<open>talk_base::Time()\<close>, the milliseconds in a \<open>uint32\<close>.\<close>

definition XmppPump_CurrentTime :: "32 word \<Rightarrow> int" where
  "XmppPump_CurrentTime ms = uint ms"

text \<open>Under \<open>XmppPump\<close> a timeout of \<open>s\<close> seconds is over only after \<open>s\<close> times ten million
  milliseconds, ten thousand times later than asked for: the runner expects units of 100 ns and the
  pump counts milliseconds.\<close>

theorem pump_timeouts_last_too_long:
  assumes "task_at w a = Some t" and "tk_timeout_seconds t \<noteq> 0" and "\<not> tk_timeout_suspended t"
    and "tk_state t \<notin> {TASK_INIT, TASK_DONE, TASK_ERROR}"
    and "XmppPump_CurrentTime now + tk_timeout_seconds t * 10000000 \<noteq> 0"
  shows "TimedOut ((ResetTimeout a (w\<lparr>clock := XmppPump_CurrentTime now\<rparr>))\<lparr>clock := XmppPump_CurrentTime later\<rparr>) a
     \<longleftrightarrow> uint later \<ge> uint now + tk_timeout_seconds t * 10000000"
proof -
  have u: "task_at (UpdateTaskTimeout b p v) = task_at v" for b p and v :: "'a world"
    by (simp add: task_at_def fun_eq_iff)
  show ?thesis
    using assms by (simp add: TimedOut_def ResetTimeout_def Let_def u XmppPump_CurrentTime_def mult.commute)
qed

definition pump_task_world :: "unit world" where
  "pump_task_world = on_task 0 (\<lambda>t. t\<lparr>tk_state := TASK_START, tk_timeout_seconds := 15\<rparr>)
     (construct_task None (runner_init ()))"

lemma pump_timeouts_last_too_long_witness:
  "\<not> TimedOut ((ResetTimeout 0 (pump_task_world\<lparr>clock := XmppPump_CurrentTime 1000\<rparr>))
        \<lparr>clock := XmppPump_CurrentTime 149000000\<rparr>) 0"
proof -
  let ?t = "(new_task None)\<lparr>tk_state := TASK_START, tk_timeout_seconds := 15\<rparr>"
  have t: "task_at pump_task_world 0 = Some ?t" by code_simp
  show ?thesis
    by (subst pump_timeouts_last_too_long [OF t])
      (simp_all add: new_task_def XmppPump_CurrentTime_def)
qed

end
