(* ===== verification/PresenceStatus.thy ===== *)
theory PresenceStatus
  imports Jids XmlElements XmppNames StringNumbers StringCodes
begin

text \<open>
  The status of a contact, \<open>talk/xmpp/presencestatus.h\<close> and \<open>presencestatus.cc\<close>, the stanza that
  announces it (\<open>TranslateStatus\<close>, \<open>talk/xmpp/presenceouttask.cc\<close>) and the reader of such stanzas
  (\<open>DecodeStatus\<close>, \<open>talk/xmpp/presencereceivetask.cc\<close>). The time stamp, which comes from the
  functions \<open>time\<close>, \<open>gmtime\<close> and \<open>strftime\<close> of the C library, is an argument.
\<close>

subsection \<open>The status\<close>

datatype status_show = SHOW_NONE | SHOW_OFFLINE | SHOW_XA | SHOW_AWAY | SHOW_DND | SHOW_ONLINE | SHOW_CHAT

record user_status =
  ps_jid :: jid
  ps_priority :: int
  ps_show :: status_show
  ps_status :: string
  ps_nick :: string
  ps_available :: bool
  ps_error_code :: int
  ps_error_string :: string
  ps_feedback_probation :: bool
  ps_know_capabilities :: bool
  ps_voice_capability :: bool
  ps_pmuc_capability :: bool
  ps_video_capability :: bool
  ps_camera_capability :: bool
  ps_caps_node :: string
  ps_version :: string
  ps_sent_time :: string

definition status_init :: user_status where
  "status_init =
     \<lparr>ps_jid = Jid_empty, ps_priority = 0, ps_show = SHOW_NONE, ps_status = [], ps_nick = [],
      ps_available = False, ps_error_code = 0, ps_error_string = [], ps_feedback_probation = False,
      ps_know_capabilities = False, ps_voice_capability = False, ps_pmuc_capability = False,
      ps_video_capability = False, ps_camera_capability = False, ps_caps_node = [], ps_version = [],
      ps_sent_time = []\<rparr>"

definition UpdateWith :: "user_status \<Rightarrow> user_status \<Rightarrow> user_status" where
  "UpdateWith new_value s =
     (if \<not> ps_know_capabilities new_value then
        new_value\<lparr>ps_know_capabilities := ps_know_capabilities s, ps_caps_node := ps_caps_node s,
          ps_voice_capability := ps_voice_capability s, ps_version := ps_version s\<rparr>
      else new_value)"

subsection \<open>The status line\<close>

text \<open>\<open>s.find(t) != npos\<close>.\<close>

fun has_substring :: "string \<Rightarrow> string \<Rightarrow> bool" where
  "has_substring t [] \<longleftrightarrow> t = []"
| "has_substring t (c # s) \<longleftrightarrow> take (length t) (c # s) = t \<or> has_substring t s"

text \<open>\<open>s[i] <= ' ' && s[i] >= 0\<close>, the characters being signed.\<close>

definition trim_space :: "char \<Rightarrow> bool" where
  "trim_space c \<longleftrightarrow> byte_of c \<le> 32"

text \<open>
  The loop of \<open>TrimStatus\<close>: the string is overwritten from its start, \<open>out\<close> being the first \<open>j\<close>
  characters.
\<close>

fun trim_loop :: "string \<Rightarrow> bool \<Rightarrow> string \<Rightarrow> string" where
  "trim_loop [] collapsing out = (if collapsing \<and> out \<noteq> [] then butlast out else out)"
| "trim_loop (c # s) collapsing out =
     (if trim_space c then
        if collapsing then trim_loop s collapsing out else trim_loop s True (out @ '' '')
      else trim_loop s False (out @ [c]))"

definition TrimStatus :: "string \<Rightarrow> string" where
  "TrimStatus st = trim_loop st True []"

definition QuietStatus :: "user_status \<Rightarrow> string" where
  "QuietStatus s =
     (if has_substring ''Psi'' (resource_name (ps_jid s))
         \<and> (ps_status s = ''Online'' \<or> has_substring ''Auto Status'' (ps_status s)) then []
      else if has_substring ''Gaim'' (resource_name (ps_jid s)) \<and> ps_status s = ''Sorry, I ran out for a bit!'' then []
      else TrimStatus (ps_status s))"

definition HasQuietStatus :: "user_status \<Rightarrow> bool" where
  "HasQuietStatus s \<longleftrightarrow> ps_status s \<noteq> [] \<and> QuietStatus s \<noteq> []"

definition ShowStatus :: "user_status \<Rightarrow> string" where
  "ShowStatus s =
     (if \<not> ps_available s then ''Offline''
      else case ps_show s of
          SHOW_AWAY \<Rightarrow> ''Idle'' | SHOW_XA \<Rightarrow> ''Idle''
        | SHOW_DND \<Rightarrow> ''Busy'' | SHOW_CHAT \<Rightarrow> ''Chatty'' | _ \<Rightarrow> ''Available'')"

definition ExplicitStatus :: "user_status \<Rightarrow> string" where
  "ExplicitStatus s = (if QuietStatus s = [] then ShowStatus s else QuietStatus s)"

subsection \<open>The stanza that announces a status\<close>

definition add_text_child :: "qname \<Rightarrow> string \<Rightarrow> xml_element \<Rightarrow> xml_element option" where
  "add_text_child name txt e = AddText_depth (AddElement e (Some (new_element name))) txt 1"

definition caps_ext :: "user_status \<Rightarrow> string" where
  "caps_ext s =
     (if ps_voice_capability s then ''voice-v1'' else []) @ (if ps_pmuc_capability s then '' pmuc-v1'' else [])
     @ (if ps_video_capability s then '' video-v1'' else []) @ (if ps_camera_capability s then '' camera-v1'' else [])"

definition add_caps :: "user_status \<Rightarrow> xml_element \<Rightarrow> xml_element option" where
  "add_caps s e =
     (if ps_know_capabilities s then
        Option.bind (AddAttr_depth (AddElement e (Some (new_element_ns QN_CAPS_C True))) QN_NODE (ps_caps_node s) 1) (\<lambda>e1.
          Option.bind (AddAttr_depth e1 QN_VER (ps_version s) 1) (\<lambda>e2.
            AddAttr_depth e2 QN_EXT (caps_ext s) 1))
      else Some e)"

definition show_text :: "status_show \<Rightarrow> string" where
  "show_text s =
     (case s of SHOW_XA \<Rightarrow> STR_SHOW_XA | SHOW_DND \<Rightarrow> STR_SHOW_DND | SHOW_CHAT \<Rightarrow> STR_SHOW_CHAT | _ \<Rightarrow> STR_SHOW_AWAY)"

definition TranslateStatus :: "string \<Rightarrow> user_status \<Rightarrow> xml_element option" where
  "TranslateStatus stamp s =
     (let result = new_element QN_PRESENCE in
      if \<not> ps_available s then Some (AddAttr result QN_TYPE STR_UNAVAILABLE)
      else
        Option.bind (if ps_show s \<noteq> SHOW_ONLINE \<and> ps_show s \<noteq> SHOW_OFFLINE
                     then add_text_child QN_SHOW (show_text (ps_show s)) result else Some result) (\<lambda>e1.
        Option.bind (add_text_child QN_STATUS (ps_status s) e1) (\<lambda>e2.
        Option.bind (if ps_nick s \<noteq> [] then add_text_child QN_NICKNAME (ps_nick s) e2 else Some e2) (\<lambda>e3.
        Option.bind (add_text_child QN_PRIORITY (int_ToString (ps_priority s)) e3) (\<lambda>e4.
        Option.bind (add_caps s e4) (\<lambda>e5.
          AddAttr_depth (AddElement e5 (Some (new_element_ns kQnDelayX True))) kQnStamp stamp 1))))))"

subsection \<open>Reading a status\<close>

text \<open>\<open>IsUtf8FirstByte\<close>, at the value of a signed character.\<close>

definition IsUtf8FirstByte :: "char \<Rightarrow> bool" where
  "IsUtf8FirstByte c \<longleftrightarrow> byte_of c < 128 \<or> (byte_of c + 64) mod 256 < 62"

text \<open>The loop that steps back to the start of a character; \<open>s\<close> is longer than \<open>len\<close>.\<close>

fun utf8_boundary :: "string \<Rightarrow> nat \<Rightarrow> nat" where
  "utf8_boundary s 0 = 0"
| "utf8_boundary s (Suc len) = (if \<not> IsUtf8FirstByte (s ! Suc len) then utf8_boundary s len else Suc len)"

definition truncate_status :: "string \<Rightarrow> string" where
  "truncate_status s = (if length s > 300 then take (utf8_boundary s 300) s else s)"

definition decode_show :: "xml_element \<Rightarrow> status_show" where
  "decode_show stanza =
     (case FirstNamed stanza QN_SHOW of
        None \<Rightarrow> SHOW_ONLINE
      | Some e \<Rightarrow>
          if elt_children e = [] then SHOW_ONLINE
          else if BodyText e = ''away'' then SHOW_AWAY
          else if BodyText e = ''xa'' then SHOW_XA
          else if BodyText e = ''dnd'' then SHOW_DND
          else if BodyText e = ''chat'' then SHOW_CHAT
          else SHOW_ONLINE)"

definition decode_caps :: "xml_element \<Rightarrow> user_status \<Rightarrow> user_status" where
  "decode_caps stanza s =
     (case FirstNamed stanza QN_CAPS_C of
        None \<Rightarrow> s
      | Some caps \<Rightarrow>
          s\<lparr>ps_know_capabilities := True, ps_caps_node := Attr caps QN_NODE, ps_version := Attr caps QN_VER\<rparr>)"

definition DecodeStatus :: "jid \<Rightarrow> xml_element \<Rightarrow> user_status \<Rightarrow> user_status" where
  "DecodeStatus from stanza s0 =
     (let s = s0\<lparr>ps_jid := from\<rparr> in
      if Attr stanza QN_TYPE = STR_UNAVAILABLE then s\<lparr>ps_available := False\<rparr>
      else
        let s1 = s\<lparr>ps_available := True\<rparr>;
            s2 = (case FirstNamed stanza QN_STATUS of
                    None \<Rightarrow> s1 | Some e \<Rightarrow> s1\<lparr>ps_status := truncate_status (BodyText e)\<rparr>);
            s3 = (case FirstNamed stanza QN_PRIORITY of
                    None \<Rightarrow> s2
                  | Some e \<Rightarrow> (case int_FromString (BodyText e) of None \<Rightarrow> s2 | Some pri \<Rightarrow> s2\<lparr>ps_priority := pri\<rparr>));
            s4 = s3\<lparr>ps_show := decode_show stanza\<rparr>;
            s5 = decode_caps stanza s4;
            s6 = (case FirstNamed stanza kQnDelayX of None \<Rightarrow> s5 | Some e \<Rightarrow> s5\<lparr>ps_sent_time := Attr e kQnStamp\<rparr>) in
        (case FirstNamed stanza QN_NICKNAME of None \<Rightarrow> s6 | Some e \<Rightarrow> s6\<lparr>ps_nick := BodyText e\<rparr>))"

text \<open>\<open>HandlePresence\<close>: the status that is passed on, if any.\<close>

definition HandlePresence :: "jid \<Rightarrow> xml_element \<Rightarrow> user_status option" where
  "HandlePresence from stanza =
     (if Attr stanza QN_TYPE = ''error'' then None else Some (DecodeStatus from stanza status_init))"

subsection \<open>Trimming keeps the words\<close>

text \<open>The words of a string, and the words with one blank between them.\<close>

function str_words :: "string \<Rightarrow> string list" where
  "str_words s =
     (case dropWhile trim_space s of
        [] \<Rightarrow> []
      | c # r \<Rightarrow> (c # takeWhile (\<lambda>x. \<not> trim_space x) r) # str_words (dropWhile (\<lambda>x. \<not> trim_space x) r))"
  by auto
termination
proof (relation "measure length")
  fix s :: string and c r assume "dropWhile trim_space s = c # r"
  then have "length (c # r) \<le> length s" by (metis length_dropWhile_le)
  moreover have "length (dropWhile (\<lambda>x. \<not> trim_space x) r) \<le> length r" by (rule length_dropWhile_le)
  ultimately show "(dropWhile (\<lambda>x. \<not> trim_space x) r, s) \<in> measure length" by simp
qed simp

declare str_words.simps [simp del]

fun unwords :: "string list \<Rightarrow> string" where
  "unwords [] = []"
| "unwords [w] = w"
| "unwords (w # ws) = w @ '' '' @ unwords ws"

lemma str_words_Nil [simp]: "str_words [] = []"
  by (simp add: str_words.simps)

lemma str_words_space [simp]: "trim_space c \<Longrightarrow> str_words (c # s) = str_words s"
  by (simp add: str_words.simps [of "c # s"] str_words.simps [of s])

text \<open>The first word goes on, with \<open>w\<close> of it read.\<close>

definition words_from :: "string \<Rightarrow> string \<Rightarrow> string list" where
  "words_from w s =
     (w @ takeWhile (\<lambda>x. \<not> trim_space x) s) # str_words (dropWhile (\<lambda>x. \<not> trim_space x) s)"

lemma str_words_letter: "\<not> trim_space c \<Longrightarrow> str_words (c # s) = words_from [c] s"
  by (simp add: str_words.simps [of "c # s"] words_from_def)

lemma words_from_letter: "\<not> trim_space c \<Longrightarrow> words_from w (c # s) = words_from (w @ [c]) s"
  by (simp add: words_from_def)

lemma words_from_space: "trim_space c \<Longrightarrow> words_from w (c # s) = w # str_words s"
  by (simp add: words_from_def)

lemma unwords_Cons: "unwords (w # ws) = w @ (if ws = [] then [] else '' '' @ unwords ws)"
  by (cases ws) simp_all

lemma unwords_start: "unwords ((u @ v) # ws) = u @ unwords (v # ws)"
  by (cases ws) simp_all

lemma trim_loop_words:
  "trim_loop s False out = out @ unwords (words_from [] s)"
  "trim_loop s True out =
     (if str_words s = [] then (if out \<noteq> [] then butlast out else []) else out @ unwords (str_words s))"
proof (induction s arbitrary: out)
  case Nil
  { case 1 show ?case by (simp add: words_from_def) }
  { case 2 show ?case by simp }
next
  case (Cons c s)
  have start: "unwords (words_from [c] s) = c # unwords (words_from [] s)"
    using unwords_start [of "[c]"] by (simp add: words_from_def)
  { case 1 show ?case
      using Cons.IH [of "out @ '' ''"] Cons.IH [of "out @ [c]"] start
      by (cases "trim_space c")
        (simp_all add: words_from_space words_from_letter unwords_Cons) }
  { case 2 show ?case
      using Cons.IH [of out] Cons.IH [of "out @ [c]"] start
      by (cases "trim_space c") (simp_all add: str_words_letter words_from_def) }
qed

lemma TrimStatus_words: "TrimStatus s = unwords (str_words s)"
  by (simp add: TrimStatus_def trim_loop_words)

subsection \<open>The announced status is read back\<close>

lemma at_depth_last:
  "at_depth 1 f (AddElement e (Some c)) = Some (AddElement e (Some (f c)))"
  by (simp add: AddElement_def with_children_def)

definition attrs_child :: "qname \<Rightarrow> bool \<Rightarrow> (qname \<times> string) list \<Rightarrow> xml_element" where
  "attrs_child n x as = fold (\<lambda>(a, v) e. AddAttr e a v) as (new_element_ns n x)"

text \<open>The children of the stanza, in order.\<close>

definition status_children :: "string \<Rightarrow> user_status \<Rightarrow> xml_element list" where
  "status_children stamp s =
     (if ps_show s \<noteq> SHOW_ONLINE \<and> ps_show s \<noteq> SHOW_OFFLINE
      then [AddText (new_element QN_SHOW) (show_text (ps_show s))] else [])
     @ [AddText (new_element QN_STATUS) (ps_status s)]
     @ (if ps_nick s \<noteq> [] then [AddText (new_element QN_NICKNAME) (ps_nick s)] else [])
     @ [AddText (new_element QN_PRIORITY) (int_ToString (ps_priority s))]
     @ (if ps_know_capabilities s
        then [attrs_child QN_CAPS_C True [(QN_NODE, ps_caps_node s), (QN_VER, ps_version s), (QN_EXT, caps_ext s)]]
        else [])
     @ [attrs_child kQnDelayX True [(kQnStamp, stamp)]]"

definition with_elements :: "xml_element \<Rightarrow> xml_element list \<Rightarrow> xml_element" where
  "with_elements e cs = fold (\<lambda>c e. AddElement e (Some c)) cs e"

lemma with_elements_append: "with_elements e (cs @ ds) = with_elements (with_elements e cs) ds"
  by (simp add: with_elements_def)

lemma with_elements_children: "elt_children (with_elements e cs) = elt_children e @ map XmlElem cs"
  by (induction cs arbitrary: e) (simp_all add: with_elements_def AddElement_def)

lemma with_elements_attrs: "elt_attrs (with_elements e cs) = elt_attrs e"
  by (induction cs arbitrary: e) (simp_all add: with_elements_def)

lemma add_text_child_is: "add_text_child n t e = Some (with_elements e [AddText (new_element n) t])"
  by (simp only: add_text_child_def AddText_depth_def at_depth_last with_elements_def fold.simps comp_def id_apply)

lemma add_caps_is:
  "add_caps s e = Some (with_elements e (if ps_know_capabilities s
     then [attrs_child QN_CAPS_C True [(QN_NODE, ps_caps_node s), (QN_VER, ps_version s), (QN_EXT, caps_ext s)]] else []))"
  by (simp add: add_caps_def AddAttr_depth_def at_depth_last [unfolded One_nat_def] with_elements_def attrs_child_def
      del: at_depth.simps)

lemma TranslateStatus_children:
  "ps_available s \<Longrightarrow>
   TranslateStatus stamp s = Some (with_elements (new_element QN_PRESENCE) (status_children stamp s))"
  by (auto simp: TranslateStatus_def Let_def add_text_child_is add_caps_is AddAttr_depth_def
      at_depth_last [unfolded One_nat_def] status_children_def with_elements_append attrs_child_def
      simp del: at_depth.simps)
    (simp_all add: with_elements_def)

lemma FirstNamed_children:
  "elt_children e = map XmlElem cs \<Longrightarrow> FirstNamed e n = find (\<lambda>c. elt_name c = n) cs"
proof -
  have "map_option fst (next_where (\<lambda>c. elt_name c = n) (map XmlElem cs)) = find (\<lambda>c. elt_name c = n) cs"
    by (induction cs) simp_all
  then show "elt_children e = map XmlElem cs \<Longrightarrow> ?thesis" by (simp add: FirstNamed_def NextNamed_def)
qed

lemma find_appended: "find P (xs @ ys) = (case find P xs of None \<Rightarrow> find P ys | Some x \<Rightarrow> Some x)"
  by (induction xs) simp_all

lemma attrs_child_name: "elt_name (attrs_child n x as) = n"
  unfolding attrs_child_def
  by (rule fold_invariant [where Q = "\<lambda>_. True"]) (auto simp: new_element_ns_def)

lemma status_names:
  "QN_SHOW \<noteq> QN_STATUS" "QN_SHOW \<noteq> QN_NICKNAME" "QN_SHOW \<noteq> QN_PRIORITY" "QN_SHOW \<noteq> QN_CAPS_C" "QN_SHOW \<noteq> kQnDelayX"
  "QN_STATUS \<noteq> QN_NICKNAME" "QN_STATUS \<noteq> QN_PRIORITY" "QN_STATUS \<noteq> QN_CAPS_C" "QN_STATUS \<noteq> kQnDelayX"
  "QN_NICKNAME \<noteq> QN_PRIORITY" "QN_NICKNAME \<noteq> QN_CAPS_C" "QN_NICKNAME \<noteq> kQnDelayX"
  "QN_PRIORITY \<noteq> QN_CAPS_C" "QN_PRIORITY \<noteq> kQnDelayX" "QN_CAPS_C \<noteq> kQnDelayX"
  by (simp_all add: xmpp_names qname_consts)

lemma BodyText_AddText: "BodyText (AddText (new_element n) t) = t"
  by (simp add: BodyText_def append_text_def split: list.split)

lemma child_names: "elt_name (AddText (new_element n) t) = n"
  by simp

lemmas stanza_lookup = find_appended child_names attrs_child_name status_names
  status_names [symmetric] status_children_def BodyText_AddText

lemma attrs_child_reads: "a \<noteq> QN_XMLNS \<Longrightarrow> a \<noteq> b \<Longrightarrow> a \<noteq> c \<Longrightarrow> Attr (attrs_child n True [(a, v), (b, w), (c, u)]) a = v"
  "b \<noteq> QN_XMLNS \<Longrightarrow> a \<noteq> b \<Longrightarrow> b \<noteq> c \<Longrightarrow> Attr (attrs_child n True [(a, v), (b, w), (c, u)]) b = w"
  "a \<noteq> QN_XMLNS \<Longrightarrow> Attr (attrs_child n True [(a, v)]) a = v"
  by (auto simp: attrs_child_def new_element_ns_def Attr_def HasAttr_def)

text \<open>What the receiver makes of an announced status.\<close>

definition announced :: "string \<Rightarrow> jid \<Rightarrow> user_status \<Rightarrow> user_status" where
  "announced stamp from s =
     status_init\<lparr>ps_jid := from, ps_available := True, ps_status := truncate_status (ps_status s),
       ps_priority := ps_priority s,
       ps_show := (case ps_show s of SHOW_NONE \<Rightarrow> SHOW_AWAY | SHOW_OFFLINE \<Rightarrow> SHOW_ONLINE | x \<Rightarrow> x),
       ps_know_capabilities := ps_know_capabilities s,
       ps_caps_node := (if ps_know_capabilities s then ps_caps_node s else []),
       ps_version := (if ps_know_capabilities s then ps_version s else []),
       ps_sent_time := stamp, ps_nick := ps_nick s\<rparr>"

lemma status_lookups:
  assumes "elt_children e = map XmlElem (status_children stamp s)"
  shows "FirstNamed e QN_SHOW =
      (if ps_show s \<noteq> SHOW_ONLINE \<and> ps_show s \<noteq> SHOW_OFFLINE then Some (AddText (new_element QN_SHOW) (show_text (ps_show s))) else None)"
    "FirstNamed e QN_STATUS = Some (AddText (new_element QN_STATUS) (ps_status s))"
    "FirstNamed e QN_NICKNAME = (if ps_nick s \<noteq> [] then Some (AddText (new_element QN_NICKNAME) (ps_nick s)) else None)"
    "FirstNamed e QN_PRIORITY = Some (AddText (new_element QN_PRIORITY) (int_ToString (ps_priority s)))"
    "FirstNamed e QN_CAPS_C = (if ps_know_capabilities s
       then Some (attrs_child QN_CAPS_C True [(QN_NODE, ps_caps_node s), (QN_VER, ps_version s), (QN_EXT, caps_ext s)]) else None)"
    "FirstNamed e kQnDelayX = Some (attrs_child kQnDelayX True [(kQnStamp, stamp)])"
  by (simp_all add: FirstNamed_children [OF assms] stanza_lookup del: map_append)

lemma show_round:
  "elt_children e = map XmlElem (status_children stamp s) \<Longrightarrow>
   decode_show e = (case ps_show s of SHOW_NONE \<Rightarrow> SHOW_AWAY | SHOW_OFFLINE \<Rightarrow> SHOW_ONLINE | x \<Rightarrow> x)"
  by (cases "ps_show s") (simp_all add: decode_show_def status_lookups BodyText_AddText show_text_def append_text_def
      STR_SHOW_AWAY_def STR_SHOW_XA_def STR_SHOW_DND_def STR_SHOW_CHAT_def)

lemma caps_names: "QN_NODE \<noteq> QN_XMLNS" "QN_VER \<noteq> QN_XMLNS" "QN_NODE \<noteq> QN_VER" "QN_NODE \<noteq> QN_EXT" "QN_VER \<noteq> QN_EXT" "kQnStamp \<noteq> QN_XMLNS"
  by (simp_all add: xmpp_names qname_consts)

lemma presence_type_round: "Attr (with_elements (new_element QN_PRESENCE) cs) QN_TYPE = []"
  by (simp add: Attr_def with_elements_attrs)

text \<open>
  Presence is read as it was announced: for a status whose priority is a 32-bit integer, the
  stanza of \<open>TranslateStatus\<close>, handled as the presence of \<open>from\<close>, passes on that jid, the status line cut
  as the reader cuts it, the priority, the nickname, what is known of the capabilities and the time
  stamp; the show, except that \<open>SHOW_NONE\<close> arrives as away and \<open>SHOW_OFFLINE\<close> as online. The presence
  of an unavailable client carries nothing but that.
\<close>

theorem presence_status_roundtrip:
  assumes "- (2 ^ 31) \<le> ps_priority s" "ps_priority s < 2 ^ 31"
  shows "map_option (HandlePresence from) (TranslateStatus stamp s) =
     Some (Some (if ps_available s then announced stamp from s else status_init\<lparr>ps_jid := from\<rparr>))"
proof (cases "ps_available s")
  case True
  obtain e where e: "TranslateStatus stamp s = Some e" and cs: "elt_children e = map XmlElem (status_children stamp s)"
    and ty: "Attr e QN_TYPE = []"
    using True by (simp add: TranslateStatus_children with_elements_children presence_type_round)
  have "HandlePresence from e = Some (announced stamp from s)"
    using ty assms by (auto simp: HandlePresence_def DecodeStatus_def Let_def show_round [OF cs] status_lookups [OF cs] BodyText_AddText
      int_string_roundtrip decode_caps_def attrs_child_reads caps_names announced_def status_init_def STR_UNAVAILABLE_def)
  then show ?thesis using e True by simp
next
  case False
  then show ?thesis
    by (simp add: TranslateStatus_def HandlePresence_def DecodeStatus_def Let_def xmpp_names status_init_def qname_consts)
qed

theorem presence_status_roundtrip_witness:
  "map_option (HandlePresence Jid_empty) (TranslateStatus ''now''
      (status_init\<lparr>ps_available := True, ps_priority := - 5, ps_show := SHOW_DND, ps_status := ''in a call''\<rparr>)) =
   Some (Some (announced ''now'' Jid_empty
      (status_init\<lparr>ps_available := True, ps_priority := - 5, ps_show := SHOW_DND, ps_status := ''in a call''\<rparr>)))"
  using presence_status_roundtrip [of
      "status_init\<lparr>ps_available := True, ps_priority := - 5, ps_show := SHOW_DND, ps_status := ''in a call''\<rparr>"
      Jid_empty "''now''"]
  by simp

subsection \<open>Where a status line is cut\<close>

lemma utf8_boundary_le: "utf8_boundary s len \<le> len"
  by (induction len) simp_all

lemma utf8_boundary_start: "utf8_boundary s len = 0 \<or> IsUtf8FirstByte (s ! utf8_boundary s len)"
  by (induction len) simp_all

lemma utf8_boundary_last: "utf8_boundary s len < k \<Longrightarrow> k \<le> len \<Longrightarrow> \<not> IsUtf8FirstByte (s ! k)"
  by (induction len) (auto split: if_splits simp: le_Suc_eq)

text \<open>
  A status line is cut at 300 bytes, and never inside a character: what is left is a prefix; when
  something is cut it ends where a UTF-8 character starts, and no later place up to the limit would do.
\<close>

theorem truncated_at_character:
  "(let t = truncate_status s; n = length t in
      t = take n s \<and> n \<le> 300
      \<and> (n = length s \<or> 300 < length s \<and> (n = 0 \<or> IsUtf8FirstByte (s ! n))
           \<and> list_all (\<lambda>k. \<not> IsUtf8FirstByte (s ! k)) [Suc n..<301]))"
  using utf8_boundary_le [of s 300] utf8_boundary_start [of s 300] utf8_boundary_last [of s 300]
  by (auto simp: truncate_status_def Let_def list_all_iff min_def)

subsection \<open>What trimming gives\<close>

lemma str_words_no_blank: "w \<in> set (str_words s) \<Longrightarrow> w \<noteq> [] \<and> list_all (\<lambda>c. \<not> trim_space c) w"
proof (induction s rule: str_words.induct)
  case (1 s)
  show ?case
  proof (cases "dropWhile trim_space s")
    case Nil
    have "str_words s = []" unfolding str_words.simps [of s] Nil by simp
    then show ?thesis using 1 by simp
  next
    case (Cons c r)
    have "\<not> trim_space c" using Cons by (metis hd_dropWhile list.sel(1) list.distinct(1))
    then have word: "list_all (\<lambda>c. \<not> trim_space c) (c # takeWhile (\<lambda>x. \<not> trim_space x) r)"
      by (auto simp: list_all_iff dest: set_takeWhileD)
    have "str_words s = (c # takeWhile (\<lambda>x. \<not> trim_space x) r) # str_words (dropWhile (\<lambda>x. \<not> trim_space x) r)"
      unfolding str_words.simps [of s] Cons by simp
    then consider "w = c # takeWhile (\<lambda>x. \<not> trim_space x) r" | "w \<in> set (str_words (dropWhile (\<lambda>x. \<not> trim_space x) r))"
      using 1(2) by auto
    then show ?thesis
    proof cases
      case 1 then show ?thesis using word by simp
    next
      case 2 then show ?thesis by (rule "1.IH" [OF Cons])
    qed
  qed
qed

lemma str_words_append_word:
  "w \<noteq> [] \<Longrightarrow> list_all (\<lambda>c. \<not> trim_space c) w \<Longrightarrow> str_words (w @ s) = words_from w s"
proof (induction w arbitrary: s rule: rev_induct)
  case (snoc c w)
  then show ?case
    by (cases "w = []") (simp_all add: str_words_letter words_from_letter)
qed simp

lemma str_words_unwords:
  "list_all (\<lambda>w. w \<noteq> [] \<and> list_all (\<lambda>c. \<not> trim_space c) w) ws \<Longrightarrow> str_words (unwords ws) = ws"
proof (induction ws rule: unwords.induct)
  case (2 w) then show ?case using str_words_append_word [of w "[]"] by (simp add: words_from_def)
next
  case (3 w v ws)
  have "trim_space CHR '' ''" by (simp add: trim_space_def)
  then show ?case using 3 str_words_append_word [of w "'' '' @ unwords (v # ws)"]
    by (simp add: words_from_space)
qed simp

text \<open>
  \<open>TrimStatus\<close> normalises: the words of the line are kept, in order, trimming again changes nothing,
  and the line never grows.
\<close>

theorem TrimStatus_normal:
  "str_words (TrimStatus s) = str_words s \<and> TrimStatus (TrimStatus s) = TrimStatus s
   \<and> length (TrimStatus s) \<le> length s"
proof -
  have w: "str_words (unwords (str_words s)) = str_words s"
    by (rule str_words_unwords) (auto simp: list_all_iff dest!: str_words_no_blank)
  have "length (trim_loop s c out) \<le> length s + length out" for c out
  proof (induction s arbitrary: c out)
    case (Cons a s)
    show ?case using Cons.IH [of True out] Cons.IH [of True "out @ '' ''"] Cons.IH [of False "out @ [a]"] by simp
  qed simp
  from this [of True "[]"] have "length (TrimStatus s) \<le> length s" by (simp add: TrimStatus_def)
  then show ?thesis using w by (simp add: TrimStatus_words)
qed

end
