(* ===== verification/XmppAuths.thy ===== *)
theory XmppAuths
  imports Sasl XmppNames
begin

text \<open>
  \<open>XmppAuth\<close>, \<open>talk/xmpp/xmppauth.cc\<close>: the authentication that \<open>XmppThread\<close> gives its client. It is a
  \<open>PreXmppAuth\<close> (\<open>prexmppauth.h\<close>), done at once and always authorised, and the SASL handler that the
  engine asks afterwards.
\<close>

subsection \<open>State and operations\<close>

record captcha_challenge =
  captcha_needed :: bool
  captcha_token :: string
  captcha_image_url :: string

definition no_captcha :: captcha_challenge where
  "no_captcha = \<lparr>captcha_needed = False, captcha_token = [], captcha_image_url = []\<rparr>"

definition captcha_of :: "string \<Rightarrow> string \<Rightarrow> captcha_challenge" where
  "captcha_of token url = \<lparr>captcha_needed = True, captcha_token = token, captcha_image_url = url\<rparr>"

record xmpp_auth =
  xa_jid :: jid
  xa_passwd :: string
  xa_mechanism :: string
  xa_token :: string
  xa_done :: bool

definition xmpp_auth_init :: xmpp_auth where
  "xmpp_auth_init = \<lparr>xa_jid = Jid_empty, xa_passwd = [], xa_mechanism = [], xa_token = [], xa_done = False\<rparr>"

definition auth_StartPreXmppAuth :: "jid \<Rightarrow> string \<Rightarrow> string \<Rightarrow> string \<Rightarrow> xmpp_auth \<Rightarrow> xmpp_auth" where
  "auth_StartPreXmppAuth j pass auth_mechanism auth_token a =
     a\<lparr>xa_jid := j, xa_passwd := pass, xa_mechanism := auth_mechanism, xa_token := auth_token, xa_done := True\<rparr>"

definition auth_ChooseBestSaslMechanism :: "xmpp_auth \<Rightarrow> string list \<Rightarrow> bool \<Rightarrow> string" where
  "auth_ChooseBestSaslMechanism a mechanisms encrypted =
     (if xa_mechanism a = AUTH_MECHANISM_OAUTH2 \<and> AUTH_MECHANISM_OAUTH2 \<in> set mechanisms
      then AUTH_MECHANISM_OAUTH2
      else if xa_mechanism a = AUTH_MECHANISM_GOOGLE_TOKEN \<and> AUTH_MECHANISM_GOOGLE_TOKEN \<in> set mechanisms
      then AUTH_MECHANISM_GOOGLE_TOKEN
      else if xa_mechanism a = AUTH_MECHANISM_GOOGLE_COOKIE \<and> AUTH_MECHANISM_GOOGLE_COOKIE \<in> set mechanisms
      then AUTH_MECHANISM_GOOGLE_COOKIE
      else if AUTH_MECHANISM_PLAIN \<in> set mechanisms then AUTH_MECHANISM_PLAIN
      else [])"

definition auth_CreateSaslMechanism :: "xmpp_auth \<Rightarrow> string \<Rightarrow> sasl_mechanism option" where
  "auth_CreateSaslMechanism a mechanism =
     (if mechanism = AUTH_MECHANISM_OAUTH2
      then Some (SaslCookieMechanism mechanism (Jid_Str (xa_jid a)) (xa_token a) ''oauth2'')
      else if mechanism = AUTH_MECHANISM_GOOGLE_TOKEN
      then Some (SaslCookieMechanism mechanism (Jid_Str (xa_jid a)) (xa_token a) [])
      else if mechanism = AUTH_MECHANISM_PLAIN then Some (SaslPlainMechanism (xa_jid a) (xa_passwd a))
      else None)"

text \<open>The object as the engine sees it, when it has become its SASL handler.\<close>

definition auth_handler :: "xmpp_auth \<Rightarrow> sasl_handler" where
  "auth_handler a = CustomSaslHandler (auth_ChooseBestSaslMechanism a) (auth_CreateSaslMechanism a)"

subsection \<open>The contract of a SASL handler\<close>

definition auth_usable :: "xmpp_auth \<Rightarrow> bool" where
  "auth_usable a \<longleftrightarrow> xa_mechanism a \<noteq> AUTH_MECHANISM_GOOGLE_COOKIE"

lemmas auth_ops = auth_ChooseBestSaslMechanism_def auth_CreateSaslMechanism_def
  AUTH_MECHANISM_OAUTH2_def AUTH_MECHANISM_GOOGLE_TOKEN_def AUTH_MECHANISM_GOOGLE_COOKIE_def AUTH_MECHANISM_PLAIN_def

interpretation xmpp_auth: sasl_provider auth_ChooseBestSaslMechanism auth_CreateSaslMechanism auth_usable
  by unfold_locales (auto simp: auth_ops auth_usable_def Let_def split: if_splits)

text \<open>
  The login can go on with what \<open>XmppAuth\<close> picks, except with a Google cookie: for every other
  kind of credential a mechanism that is picked was offered, and the SASL mechanism of that name can
  be created and started; with a Google cookie, when the server offers that mechanism, it is picked
  and none can be created, whatever else is offered.
\<close>

theorem xmpp_auth_contract:
  "(let c = auth_ChooseBestSaslMechanism a ms encrypted in
    if xa_mechanism a = ''X-GOOGLE-COOKIE'' \<and> ''X-GOOGLE-COOKIE'' \<in> set ms
    then c = ''X-GOOGLE-COOKIE'' \<and> auth_CreateSaslMechanism a c = None
    else c = [] \<and> ''PLAIN'' \<notin> set ms
      \<or> c \<in> set ms \<and> (\<exists>m. auth_CreateSaslMechanism a c = Some m \<and> GetMechanismName m = c \<and> StartSaslAuth m \<noteq> None))"
  by (auto simp: auth_ops Let_def)

text \<open>
  A password goes out whether or not the connection is encrypted: when the server offers PLAIN
  and no stronger mechanism applies, \<open>XmppAuth\<close> picks it and sends the password, with and without
  encryption.
\<close>

theorem xmpp_auth_plain_in_the_clear:
  "auth_ChooseBestSaslMechanism (auth_StartPreXmppAuth j pass [] token a) [''PLAIN''] False = ''PLAIN''
   \<and> auth_CreateSaslMechanism (auth_StartPreXmppAuth j pass [] token a) ''PLAIN'' = Some (SaslPlainMechanism j pass)"
  by (simp add: auth_ops auth_StartPreXmppAuth_def)

end
