(* ===== verification/XmppTasks.thy ===== *)
theory XmppTasks
  imports Replies PresenceStatus StringCodes XmppAuths Tasks
begin

text \<open>
  The tasks of a client: \<open>talk/xmpp/xmpptask.cc\<close> and the task classes \<open>iqtask.cc\<close>, \<open>receivetask.cc\<close>,
  \<open>presenceouttask.cc\<close>, \<open>presencereceivetask.cc\<close> and \<open>pingtask.cc\<close>: which stanzas a task wants, the
  stanzas it makes, and its members. The client and what the tasks do in it are in \<open>Client\<close>.
\<close>

subsection \<open>Members of a task\<close>

text \<open>
  The classes with their own members: \<open>IqTask\<close> (verb, recipient, and the element of the request),
  \<open>ReceiveTask\<close> (\<open>WantsStanza\<close>, which may ask for the jid of the client), \<open>PresenceOutTask\<close>,
  \<open>PresenceReceiveTask\<close>, and \<open>PingTask\<close> (period, timeout, next ping, deadline; \<open>uint32\<close> milliseconds).
\<close>

datatype task_kind =
    IqKind string jid xml_element
  | ReceiveKind "jid \<Rightarrow> xml_element \<Rightarrow> bool"
  | PresenceOutKind
  | PresenceReceiveKind
  | PingKind "32 word" "32 word" "32 word" "32 word"

record xmpp_task =
  xt_kind :: task_kind
  xt_stopped :: bool
  xt_queue :: "xml_element list"
  xt_id :: string

definition new_xmpp_task :: "task_kind \<Rightarrow> string \<Rightarrow> xmpp_task" where
  "new_xmpp_task kind iqid = \<lparr>xt_kind = kind, xt_stopped = False, xt_queue = [], xt_id = iqid\<rparr>"

text \<open>The level at which the constructor registers the task.\<close>

fun kind_level :: "task_kind \<Rightarrow> handler_level" where
  "kind_level (IqKind verb to el) = HL_SINGLE"
| "kind_level (ReceiveKind wants) = HL_TYPE"
| "kind_level PresenceOutKind = HL_NONE"
| "kind_level PresenceReceiveKind = HL_TYPE"
| "kind_level (PingKind period timeout next_ping deadline) = HL_SINGLE"

text \<open>\<open>NextStanza\<close>: the stanza, and the task after it.\<close>

definition task_NextStanza :: "xmpp_task \<Rightarrow> xml_element option \<times> xmpp_task" where
  "task_NextStanza x =
     (case xt_queue x of [] \<Rightarrow> (None, x) | s # q \<Rightarrow> (Some s, x\<lparr>xt_queue := q\<rparr>))"

subsection \<open>Stanzas\<close>

definition MakeIq :: "string \<Rightarrow> jid \<Rightarrow> string \<Rightarrow> xml_element" where
  "MakeIq type to iqid =
     (let r0 = new_element QN_IQ;
          r1 = (if type \<noteq> [] then AddAttr r0 QN_TYPE type else r0);
          r2 = (if \<not> Jid_IsEmpty to then AddAttr r1 QN_TO (Jid_Str to) else r1) in
      if iqid \<noteq> [] then AddAttr r2 QN_ID iqid else r2)"

definition MakeIqResult :: "xml_element \<Rightarrow> xml_element" where
  "MakeIqResult query =
     (let r0 = AddAttr (new_element QN_IQ) QN_TYPE STR_RESULT;
          r1 = (if HasAttr query QN_FROM then AddAttr r0 QN_TO (Attr query QN_FROM) else r0) in
      AddAttr r1 QN_ID (Attr query QN_ID))"

text \<open>\<open>me\<close> is the jid of the client.\<close>

definition MatchStanzaFrom :: "jid \<Rightarrow> xml_element \<Rightarrow> jid \<Rightarrow> bool" where
  "MatchStanzaFrom me stanza to =
     (let from = Jid_of_string (Attr stanza QN_FROM) in
      if from = to then True
      else if \<not> Jid_IsEmpty to then False
      else from = Jid_of_string (domain_name me) \<or> from = BareJid me)"

definition MatchResponseIq :: "jid \<Rightarrow> xml_element \<Rightarrow> jid \<Rightarrow> string \<Rightarrow> bool" where
  "MatchResponseIq me stanza to iqid =
     (if elt_name stanza \<noteq> QN_IQ then False
      else if Attr stanza QN_ID \<noteq> iqid then False
      else MatchStanzaFrom me stanza to)"

definition MatchRequestIq :: "xml_element \<Rightarrow> string \<Rightarrow> qname \<Rightarrow> bool" where
  "MatchRequestIq stanza type qn =
     (if elt_name stanza \<noteq> QN_IQ then False
      else if Attr stanza QN_TYPE \<noteq> type then False
      else if FirstNamed stanza qn = None then False
      else True)"

text \<open>The request of an \<open>IqTask\<close>, made by its constructor.\<close>

definition iq_request :: "string \<Rightarrow> jid \<Rightarrow> xml_element \<Rightarrow> string \<Rightarrow> xml_element" where
  "iq_request verb to el iqid = AddElement (MakeIq verb to iqid) (Some el)"

definition ping_request :: "string \<Rightarrow> xml_element" where
  "ping_request iqid = AddElement (MakeIq STR_GET (Jid_of_string []) iqid) (Some (new_element QN_PING))"

definition answer_type :: "xml_element \<Rightarrow> bool" where
  "answer_type stanza \<longleftrightarrow> Attr stanza QN_TYPE = STR_RESULT \<or> Attr stanza QN_TYPE = STR_ERROR"

text \<open>\<open>HandleStanza\<close>: whether the task takes the stanza, which it then queues.\<close>

definition wants_stanza :: "jid \<Rightarrow> xmpp_task \<Rightarrow> xml_element \<Rightarrow> bool" where
  "wants_stanza me x stanza =
     (case xt_kind x of
        IqKind verb to el \<Rightarrow> MatchResponseIq me stanza to (xt_id x) \<and> answer_type stanza
      | ReceiveKind wants \<Rightarrow> wants me stanza
      | PresenceOutKind \<Rightarrow> False
      | PresenceReceiveKind \<Rightarrow> elt_name stanza = QN_PRESENCE
      | PingKind period timeout next_ping deadline \<Rightarrow>
          MatchResponseIq me stanza (Jid_of_string []) (xt_id x) \<and> answer_type stanza)"

text \<open>The stanzas that \<open>PresenceOutTask\<close> queues on itself.\<close>

definition directed_presence :: "jid \<Rightarrow> string \<Rightarrow> user_status \<Rightarrow> xml_element option" where
  "directed_presence j stamp s = map_option (\<lambda>e. AddAttr e QN_TO (Jid_Str j)) (TranslateStatus stamp s)"

definition probe_presence :: "jid \<Rightarrow> xml_element" where
  "probe_presence j = AddAttr (AddAttr (new_element QN_PRESENCE) QN_TO (Jid_Str j)) QN_TYPE ''probe''"

subsection \<open>An answer matches its request\<close>

lemma MakeIq_attrs:
  "elt_name (MakeIq type to iqid) = QN_IQ"
  "Attr (MakeIq type to iqid) QN_ID = iqid" "Attr (MakeIq type to iqid) QN_TYPE = type"
  "Attr (MakeIq type to iqid) QN_TO = (if Jid_IsEmpty to then [] else Jid_Str to)"
  by (auto simp: MakeIq_def Let_def Attr_def HasAttr_def qname_consts)

text \<open>
  C31: A reply made for a request is taken by the task that sent the request, and by no other: the
  reply of \<open>MakeIqResult\<close> to the request \<open>i\<close>, when it comes back from \<open>peer\<close>, is wanted by an \<open>IqTask\<close> with the
  number \<open>j\<close> exactly when the numbers are the same and \<open>peer\<close> is whom the request went to; a request
  without a recipient may be answered by the client's server or its own account.
\<close>

theorem iq_reply_taken:
  "wants_stanza me (new_xmpp_task (IqKind verb to el) j)
      (SetAttr (MakeIqResult (SetAttr (iq_request verb' to' el' i) QN_FROM from)) QN_FROM peer) \<longleftrightarrow>
    i = j \<and> (Jid_of_string peer = to
      \<or> Jid_IsEmpty to \<and> Jid_of_string peer \<in> {Jid_of_string (domain_name me), BareJid me})"
proof -
  have q: "QN_FROM \<noteq> QN_ID" "QN_FROM \<noteq> QN_TYPE" "QN_TYPE \<noteq> QN_ID" "QN_TO \<noteq> QN_ID" "QN_TO \<noteq> QN_TYPE"
    by (simp_all add: qname_consts)
  let ?q = "SetAttr (iq_request verb' to' el' i) QN_FROM from"
  have i: "Attr ?q QN_ID = i"
    by (simp add: Attr_SetAttr q iq_request_def MakeIq_attrs)
  have r: "elt_name (MakeIqResult ?q) = QN_IQ" "Attr (MakeIqResult ?q) QN_ID = i" "Attr (MakeIqResult ?q) QN_TYPE = STR_RESULT"
    unfolding MakeIqResult_def i using q by (auto simp: Let_def)
  show ?thesis
    using r q by (auto simp: wants_stanza_def new_xmpp_task_def MatchResponseIq_def MatchStanzaFrom_def Attr_SetAttr
        Let_def answer_type_def)
qed

end
