(* ===== verification/Client.thy ===== *)
theory Client
  imports XmppTasks
begin

text \<open>
  The client: \<open>XmppClient\<close> and its \<open>Private\<close> (\<open>talk/xmpp/xmppclient.cc\<close>), the settings
  (\<open>xmppclientsettings.h\<close>), the pump that runs its tasks (\<open>xmpppump.cc\<close>) and what the tasks do in it
  (\<open>xmpptask.cc\<close>, \<open>iqtask.cc\<close>, \<open>receivetask.cc\<close>, \<open>presenceouttask.cc\<close>, \<open>presencereceivetask.cc\<close>,
  \<open>pingtask.cc\<close>), on the task framework of \<open>Tasks\<close> and the engine of \<open>EngineInput\<close>.

  The record \<open>client\<close> holds the members of all these objects; it is the \<open>user\<close> part of the world of
  tasks. Everything that happens, from outside (\<open>client_op\<close>) and in the steps of the tasks, is a
  program of calls to the framework. After every call to the engine the calls that the engine made
  meanwhile are carried out in their order (\<open>drain\<close>): output goes to the socket, a state change to the
  listeners, a stanza to the task that it was offered to.

  Outside are the socket (the results it gives are arguments, the calls made to it are events), expat
  (\<open>env_feed\<close>), and the application, which hears the events and may answer the signals of the tasks
  with more operations (\<open>env_react\<close>). A null pointer that is followed raises \<open>cl_crashed\<close>.
\<close>

subsection \<open>State\<close>

record client_settings =
  cs_user :: string
  cs_host :: string
  cs_pass :: string
  cs_auth_mechanism :: string
  cs_auth_token :: string
  cs_resource :: string
  cs_use_tls :: tls_option
  cs_allow_plain :: bool
  cs_test_server_domain :: string
  cs_server :: string \<comment> \<open>\<open>HostAsURIString\<close>\<close>
  cs_server_port :: int
  cs_proxy_host :: string
  cs_proxy_port :: int

text \<open>A \<open>PreXmppAuth\<close>: what its operations say at the moment.\<close>

record pre_auth =
  pa_done :: bool
  pa_authorized :: bool
  pa_had_error :: bool
  pa_error :: int
  pa_captcha :: captcha_challenge
  pa_mechanism :: string
  pa_token :: string
  pa_sasl :: sasl_handler

datatype client_event =
    SocketConnect string int
  | SocketWrite string
  | SocketStartTls string
  | SocketClose
  | LogInput string
  | LogOutput string
  | PreAuthStarted jid string int string string string
  | StateChanged engine_state
  | PumpNotified engine_state
  | IqResult nat xml_element
  | IqError nat "xml_element option"
  | StanzaReceived nat xml_element
  | PresenceUpdate nat user_status
  | PingTimeout nat
  | PostDelayed nat "32 word"

record 'x client =
  cl_conn :: "'x connection option"
  cl_socket :: bool
  cl_socket_ok :: bool \<comment> \<open>what \<open>Connect\<close> of the socket returns\<close>
  cl_ssl :: bool \<comment> \<open>\<open>FEATURE_ENABLE_SSL\<close>\<close>
  cl_pre_auth :: "pre_auth option"
  cl_pass :: string
  cl_auth_mechanism :: string
  cl_auth_token :: string
  cl_server :: string
  cl_server_port :: int
  cl_proxy_host :: string
  cl_proxy_port :: int
  cl_pre_engine_error :: engine_error
  cl_pre_engine_subcode :: int
  cl_captcha :: captcha_challenge
  cl_signal_closed :: bool
  cl_allow_plain :: bool
  cl_delivering_signal :: bool
  cl_members :: "nat \<Rightarrow> xmpp_task option"
  cl_events :: "client_event list"
  cl_crashed :: bool
  pump_state :: engine_state
  pump_listens :: bool

text \<open>The pump builds its client first, so as a task it has the first address.\<close>

abbreviation (input) client_task :: nat where "client_task \<equiv> 0"

definition client_init :: "bool \<Rightarrow> 'x client" where
  "client_init ssl =
     \<lparr>cl_conn = None, cl_socket = False, cl_socket_ok = True, cl_ssl = ssl, cl_pre_auth = None,
      cl_pass = [], cl_auth_mechanism = [], cl_auth_token = [], cl_server = [], cl_server_port = 0,
      cl_proxy_host = [], cl_proxy_port = 0, cl_pre_engine_error = ERROR_NONE, cl_pre_engine_subcode = 0,
      cl_captcha = no_captcha, cl_signal_closed = False, cl_allow_plain = False,
      cl_delivering_signal = False, cl_members = (\<lambda>_. None), cl_events = [], cl_crashed = False,
      pump_state = STATE_NONE, pump_listens = False\<rparr>"

definition cl_engine :: "'x client \<Rightarrow> engine option" where
  "cl_engine u = map_option conn_engine (cl_conn u)"

definition note_event :: "client_event \<Rightarrow> 'x client \<Rightarrow> 'x client" where
  "note_event ev u = u\<lparr>cl_events := cl_events u @ [ev]\<rparr>"

definition crash :: "'x client \<Rightarrow> 'x client" where
  "crash u = u\<lparr>cl_crashed := True\<rparr>"

definition GetState :: "'x client \<Rightarrow> engine_state" where
  "GetState u = (case cl_engine u of None \<Rightarrow> STATE_NONE | Some e \<Rightarrow> eng_state e)"

definition client_GetError :: "'x client \<Rightarrow> engine_error \<times> int" where
  "client_GetError u =
     (case cl_engine u of
        None \<Rightarrow> (ERROR_NONE, 0)
      | Some e \<Rightarrow>
          if cl_pre_engine_error u \<noteq> ERROR_NONE then (cl_pre_engine_error u, cl_pre_engine_subcode u)
          else (eng_error e, eng_subcode e))"

definition client_GetStreamError :: "'x client \<Rightarrow> xml_element option" where
  "client_GetStreamError u = (case cl_engine u of None \<Rightarrow> None | Some e \<Rightarrow> eng_stream_error e)"

definition client_GetCaptchaChallenge :: "'x client \<Rightarrow> captcha_challenge" where
  "client_GetCaptchaChallenge u = (case cl_engine u of None \<Rightarrow> no_captcha | Some e \<Rightarrow> cl_captcha u)"

definition client_GetAuthMechanism :: "'x client \<Rightarrow> string" where
  "client_GetAuthMechanism u = (case cl_engine u of None \<Rightarrow> [] | Some e \<Rightarrow> cl_auth_mechanism u)"

definition client_GetAuthToken :: "'x client \<Rightarrow> string" where
  "client_GetAuthToken u = (case cl_engine u of None \<Rightarrow> [] | Some e \<Rightarrow> cl_auth_token u)"

subsection \<open>Signals\<close>

definition pump_OnStateChange :: "engine_state \<Rightarrow> 'x client \<Rightarrow> 'x client" where
  "pump_OnStateChange state u =
     (if pump_state u = state then u else note_event (PumpNotified state) (u\<lparr>pump_state := state\<rparr>))"

definition SignalStateChange :: "engine_state \<Rightarrow> 'x client \<Rightarrow> 'x client" where
  "SignalStateChange state u =
     (let u1 = note_event (StateChanged state) u in if pump_listens u1 then pump_OnStateChange state u1 else u1)"

definition EnsureClosed :: "'x client \<Rightarrow> 'x client" where
  "EnsureClosed u =
     (if \<not> cl_signal_closed u then
        (SignalStateChange STATE_CLOSED (u\<lparr>cl_signal_closed := True, cl_delivering_signal := True\<rparr>))
          \<lparr>cl_delivering_signal := False\<rparr>
      else u)"

subsection \<open>Calls of the engine\<close>

definition queue_on :: "nat \<Rightarrow> xml_element \<Rightarrow> 'x client \<Rightarrow> 'x client" where
  "queue_on a stanza u =
     (case cl_members u a of
        None \<Rightarrow> u
      | Some x \<Rightarrow> u\<lparr>cl_members := (cl_members u)(a \<mapsto> x\<lparr>xt_queue := xt_queue x @ [copy_element stanza]\<rparr>)\<rparr>)"

definition task_wants :: "'x client \<Rightarrow> jid \<Rightarrow> nat \<Rightarrow> xml_element \<Rightarrow> bool" where
  "task_wants u me a stanza =
     (case cl_members u a of None \<Rightarrow> False | Some x \<Rightarrow> wants_stanza me x stanza)"

definition client_jid :: "'x client \<Rightarrow> jid" where
  "client_jid u = (case cl_engine u of None \<Rightarrow> Jid_empty | Some e \<Rightarrow> eng_bound_jid e)"

text \<open>One call: the client after it, and the task that is woken.\<close>

fun on_call :: "engine_call \<Rightarrow> 'x client \<Rightarrow> 'x client \<times> nat list" where
  "on_call (WriteOutput bytes) u =
     ((if cl_socket u then note_event (SocketWrite bytes) (note_event (LogOutput bytes) u)
       else crash (note_event (LogOutput bytes) u)), [])"
| "on_call (OutputStartTls domain) u =
     ((if \<not> cl_ssl u then u else if cl_socket u then note_event (SocketStartTls domain) u else crash u), [])"
| "on_call CloseConnection u = ((if cl_socket u then note_event SocketClose u else crash u), [])"
| "on_call (OnStateChange state) u =
     ((if state = STATE_CLOSED then EnsureClosed u else SignalStateChange state u), [client_task])"
| "on_call (HandleStanza a stanza) u =
     (if task_wants u (client_jid u) a stanza then (queue_on a stanza u, [a]) else (u, []))"
| "on_call (IqResponse h cookie stanza) u = (u, [])"

fun drain :: "engine_call list \<Rightarrow> 'x client \<Rightarrow> 'x client \<times> nat list" where
  "drain [] u = (u, [])"
| "drain (c # cs) u = (let (u1, ws) = on_call c u; (u2, ws') = drain cs u1 in (u2, ws @ ws'))"

text \<open>A call to the engine, and what follows from it.\<close>

definition on_engine :: "('x connection \<Rightarrow> 'x connection option) \<Rightarrow> 'x client \<Rightarrow> 'x client \<times> nat list" where
  "on_engine f u =
     (case cl_conn u of
        None \<Rightarrow> (crash u, [])
      | Some c \<Rightarrow>
          (case f c of
             None \<Rightarrow> (crash u, [])
           | Some c' \<Rightarrow>
               drain (drop (length (eng_trace (conn_engine c))) (eng_trace (conn_engine c'))) (u\<lparr>cl_conn := Some c'\<rparr>)))"

text \<open>The handlers in the engine, as it sees them while a stanza is offered around.\<close>

definition client_app :: "'x client \<Rightarrow> app" where
  "client_app u =
     \<lparr>app_stanza = (\<lambda>a stanza e. ([], task_wants u (eng_bound_jid e) a stanza)), app_iq = (\<lambda>_ _ _ _. [])\<rparr>"

subsection \<open>Programs\<close>

text \<open>
  The application and the libraries: expat, and the operations with which the application answers a
  signal of a task, at once.
\<close>

datatype client_op =
    NewTask nat task_kind
  | StartOp nat
  | AbortOp nat
  | SetTimeoutOp nat int
  | SendPresence nat string user_status
  | SendDirectedPresence nat jid string user_status
  | SendProbe nat jid
  | PumpSendStanza xml_element
  | SendRawOp string
  | DoLogin client_settings "bool option" "pre_auth option"
  | DoDisconnect
  | PreAuthChanged pre_auth
  | OnAuthDone
  | OnSocketConnected
  | OnSocketRead "string list"
  | OnSocketClosed int
  | PingMessage nat
  | PollOp \<comment> \<open>\<open>PollTasks\<close> of the pump\<close>

record 'x client_env =
  env_feed :: "'x expat_feed"
  env_start :: 'x
  env_react :: "client_event \<Rightarrow> 'x client world \<Rightarrow> client_op list"

type_synonym 'x client_world = "'x client world"
type_synonym 'x client_program = "'x client task_program"

fun wake_all :: "nat list \<Rightarrow> ('x client_world \<Rightarrow> 'x client_program) \<Rightarrow> 'x client_world \<Rightarrow> 'x client_program" where
  "wake_all [] k w = k w"
| "wake_all (a # as) k w = Call (CallWake a) (wake_all as k)"

text \<open>The members become \<open>fst r\<close> and the tasks \<open>snd r\<close> are woken.\<close>

definition put :: "'x client \<times> nat list \<Rightarrow> ('x client_world \<Rightarrow> 'x client_program) \<Rightarrow> 'x client_program" where
  "put r k = Call (PutUser (fst r)) (wake_all (snd r) k)"

definition engine_api :: "'x client_env \<Rightarrow> api_call \<Rightarrow> 'x client \<Rightarrow> 'x client \<times> nat list" where
  "engine_api E c u = on_engine (conn_api (env_start E) c) u"

subsection \<open>The operations of the tasks\<close>

text \<open>The constructor of \<open>XmppTask\<close> and of its subclasses; the new task is the last of the heap.\<close>

definition new_task_prog ::
  "'x client_env \<Rightarrow> nat \<Rightarrow> task_kind \<Rightarrow> ('x client_world \<Rightarrow> 'x client_program) \<Rightarrow> 'x client_program" where
  "new_task_prog E parent kind k =
     Call (Construct (Some parent)) (\<lambda>w.
       let a = length (heap w) - 1; u = user w in
       case cl_engine u of
         None \<Rightarrow> put (crash u, []) k
       | Some e \<Rightarrow>
           let (u1, ws1) = engine_api E CallNextId u;
               u2 = u1\<lparr>cl_members := (cl_members u1)(a \<mapsto> new_xmpp_task kind (fst (NextId e)))\<rparr>;
               (u3, ws3) = engine_api E (CallAddStanzaHandler a (kind_level kind)) u2 in
           put (u3, ws1 @ ws3)
             (case kind of IqKind verb to el \<Rightarrow> (\<lambda>_. Call (CallSetTimeout a 15) k) | _ \<Rightarrow> k))"

definition QueueStanza :: "nat \<Rightarrow> xml_element \<Rightarrow> ('x client_world \<Rightarrow> 'x client_program) \<Rightarrow> 'x client_world \<Rightarrow> 'x client_program" where
  "QueueStanza a stanza k w = put (queue_on a stanza (user w), [a]) k"

definition task_SendStanza :: "'x client_env \<Rightarrow> nat \<Rightarrow> xml_element \<Rightarrow> 'x client \<Rightarrow> return_status \<times> 'x client \<times> nat list" where
  "task_SendStanza E a stanza u =
     (case cl_members u a of
        None \<Rightarrow> (XMPP_RETURN_BADSTATE, u, [])
      | Some x \<Rightarrow>
          if xt_stopped x then (XMPP_RETURN_BADSTATE, u, [])
          else (case cl_engine u of
              None \<Rightarrow> (XMPP_RETURN_BADSTATE, crash u, [])
            | Some e \<Rightarrow> (fst (SendStanza stanza e), engine_api E (CallSendStanza stanza) u)))"

definition task_SendStanzaError ::
  "'x client_env \<Rightarrow> nat \<Rightarrow> xml_element \<Rightarrow> stanza_error \<Rightarrow> string \<Rightarrow> 'x client \<Rightarrow> return_status \<times> 'x client \<times> nat list" where
  "task_SendStanzaError E a original code txt u =
     (case cl_members u a of
        None \<Rightarrow> (XMPP_RETURN_BADSTATE, u, [])
      | Some x \<Rightarrow>
          if xt_stopped x then (XMPP_RETURN_BADSTATE, u, [])
          else (case cl_engine u of
              None \<Rightarrow> (XMPP_RETURN_BADSTATE, crash u, [])
            | Some e \<Rightarrow>
                (case SendStanzaError original code txt e of
                   None \<Rightarrow> (XMPP_RETURN_BADSTATE, crash u, [])
                 | Some (status, e') \<Rightarrow> (status, engine_api E (CallSendStanzaError original code txt) u))))"

text \<open>\<open>StopImpl\<close>: what a task does when it is stopped, and again when it is deleted.\<close>

definition StopImpl :: "nat \<Rightarrow> 'x client \<Rightarrow> 'x client" where
  "StopImpl a u =
     (case cl_members u a of
        None \<Rightarrow> u
      | Some x \<Rightarrow>
          let u1 = (if xt_stopped x then u
                    else (case cl_conn u of
                        None \<Rightarrow> crash u
                      | Some c \<Rightarrow> u\<lparr>cl_conn := Some (with_engine (snd (RemoveStanzaHandler a (conn_engine c))) c)\<rparr>)) in
          u1\<lparr>cl_members := (cl_members u1)(a \<mapsto> x\<lparr>xt_queue := [], xt_stopped := True\<rparr>)\<rparr>)"

text \<open>\<open>Send\<close>, \<open>SendDirected\<close> and \<open>SendProbe\<close> of a \<open>PresenceOutTask\<close>; other tasks do not have them.\<close>

definition is_presence_out :: "'x client \<Rightarrow> nat \<Rightarrow> bool" where
  "is_presence_out u a = (case cl_members u a of None \<Rightarrow> False | Some x \<Rightarrow> (case xt_kind x of PresenceOutKind \<Rightarrow> True | _ \<Rightarrow> False))"

definition presence_op ::
  "nat \<Rightarrow> xml_element option \<Rightarrow> ('x client_world \<Rightarrow> 'x client_program) \<Rightarrow> 'x client_world \<Rightarrow> 'x client_program" where
  "presence_op a presence k w =
     (if \<not> is_presence_out (user w) a then k w
      else case task_at w a of
          None \<Rightarrow> Call (CallWake a) k
        | Some t \<Rightarrow>
            if tk_state t \<noteq> TASK_INIT \<and> tk_state t \<noteq> TASK_START then k w
            else (case presence of None \<Rightarrow> put (crash (user w), []) k | Some e \<Rightarrow> QueueStanza a e k w))"

subsection \<open>The operations of the client and the pump\<close>

definition IsTestServer :: "string \<Rightarrow> string \<Rightarrow> bool" where
  "IsTestServer server_name test_server_domain \<longleftrightarrow>
     test_server_domain \<noteq> [] \<and> ends_with server_name test_server_domain"

definition connect_calls :: "client_settings \<Rightarrow> string \<Rightarrow> api_call list" where
  "connect_calls cs lang =
     [CallSetSessionHandler True, CallSetOutputHandler True]
     @ (if cs_resource cs \<noteq> [] then [CallSetRequestedResource (cs_resource cs)] else [])
     @ [CallSetTls (cs_use_tls cs)]
     @ (if (cs_server cs \<in> {STR_TALK_GOOGLE_COM, STR_TALKX_L_GOOGLE_COM, STR_XMPP_GOOGLE_COM, STR_XMPPX_L_GOOGLE_COM}
            \<or> IsTestServer (cs_server cs) (cs_test_server_domain cs))
           \<and> cs_host cs \<noteq> STR_GMAIL_COM \<and> cs_host cs \<noteq> STR_GOOGLEMAIL_COM
        then [CallSetTlsServer [] STR_TALK_GOOGLE_COM] else [])
     @ [CallSetLanguage lang, CallSetUser (Jid_of_parts (cs_user cs) (cs_host cs) [])]"

fun conn_calls :: "'x \<Rightarrow> api_call list \<Rightarrow> 'x connection \<Rightarrow> 'x connection option" where
  "conn_calls x0 [] c = Some c"
| "conn_calls x0 (a # as) c = Option.bind (conn_api x0 a c) (conn_calls x0 as)"

text \<open>
  \<open>XmppClient::Connect\<close>; of the socket, which may be missing, counts what its \<open>Connect\<close> will return.
\<close>

definition client_Connect ::
  "'x client_env \<Rightarrow> client_settings \<Rightarrow> string \<Rightarrow> bool option \<Rightarrow> pre_auth option \<Rightarrow> 'x client \<Rightarrow> return_status \<times> 'x client" where
  "client_Connect E cs lang socket auth u =
     (case socket of
        None \<Rightarrow> (XMPP_RETURN_BADARGUMENT, u)
      | Some socket_ok \<Rightarrow>
          if cl_socket u then (XMPP_RETURN_BADSTATE, u)
          else
            (case conn_calls (env_start E) (connect_calls cs lang) (connection_init (env_start E)) of
               None \<Rightarrow> (XMPP_RETURN_BADSTATE, crash u)
             | Some c \<Rightarrow>
                 (XMPP_RETURN_OK,
                  u\<lparr>cl_socket := True, cl_socket_ok := socket_ok, cl_conn := Some c,
                    cl_pass := cs_pass cs, cl_auth_mechanism := cs_auth_mechanism cs, cl_auth_token := cs_auth_token cs,
                    cl_server := cs_server cs, cl_server_port := cs_server_port cs,
                    cl_proxy_host := cs_proxy_host cs, cl_proxy_port := cs_proxy_port cs,
                    cl_allow_plain := cs_allow_plain cs, cl_pre_auth := auth\<rparr>)))"

text \<open>The loop of \<open>OnSocketRead\<close>: the byte strings that the reads give; an empty one is the end.\<close>

fun read_loop ::
  "'x client_env \<Rightarrow> string list \<Rightarrow> ('x client_world \<Rightarrow> 'x client_program) \<Rightarrow> 'x client_world \<Rightarrow> 'x client_program" where
  "read_loop E [] k w = k w"
| "read_loop E (bytes # rest) k w =
     (if \<not> cl_socket (user w) \<or> bytes = [] then k w
      else
        let u = note_event (LogInput bytes) (user w) in
        put (on_engine (\<lambda>c. map_option snd (HandleInput (env_feed E) (env_start E) (client_app u) bytes c)) u)
          (read_loop E rest k))"

definition client_Disconnect :: "'x client_env \<Rightarrow> ('x client_world \<Rightarrow> 'x client_program) \<Rightarrow> 'x client_world \<Rightarrow> 'x client_program" where
  "client_Disconnect E k w =
     (if \<not> cl_socket (user w) then k w
      else Call (CallAbort client_task False) (\<lambda>w1.
        put (engine_api E CallDisconnect (user w1)) (\<lambda>w2.
          put ((user w2)\<lparr>cl_socket := False\<rparr>, []) k)))"

text \<open>
  One operation. The pump asks \<open>AllChildrenDone\<close> before it uses its client; a socket that is gone
  gives no signals.
\<close>

definition op_prog ::
  "'x client_env \<Rightarrow> client_op \<Rightarrow> ('x client_world \<Rightarrow> 'x client_program) \<Rightarrow> 'x client_world \<Rightarrow> 'x client_program" where
  "op_prog E ev k w =
     (let u = user w; me = client_task in
      case ev of
        NewTask parent kind \<Rightarrow> new_task_prog E parent kind k
      | StartOp a \<Rightarrow> Call (CallStart a) k
      | AbortOp a \<Rightarrow> Call (CallAbort a False) k
      | SetTimeoutOp a seconds \<Rightarrow> Call (CallSetTimeout a seconds) k
      | SendPresence a stamp s \<Rightarrow> presence_op a (TranslateStatus stamp s) k w
      | SendDirectedPresence a j stamp s \<Rightarrow> presence_op a (directed_presence j stamp s) k w
      | SendProbe a j \<Rightarrow> presence_op a (Some (probe_presence j)) k w
      | PumpSendStanza stanza \<Rightarrow>
          if AllChildrenDone None w then k w else put (engine_api E (CallSendStanza stanza) u) k
      | SendRawOp txt \<Rightarrow> if AllChildrenDone None w then k w else put (engine_api E (CallSendRaw txt) u) k
      | DoLogin cs socket auth \<Rightarrow>
          put (pump_OnStateChange STATE_START u, []) (\<lambda>w1.
            if AllChildrenDone None w1 then k w1
            else put (snd (client_Connect E cs [] socket auth ((user w1)\<lparr>pump_listens := True\<rparr>)), []) (\<lambda>_.
              Call (CallStart me) k))
      | DoDisconnect \<Rightarrow>
          (if AllChildrenDone None w then (\<lambda>k. k w) else (\<lambda>k. client_Disconnect E k w)) (\<lambda>w1.
            put (pump_OnStateChange STATE_CLOSED (user w1), []) k)
      | PreAuthChanged pa \<Rightarrow> put (if cl_pre_auth u = None then u else u\<lparr>cl_pre_auth := Some pa\<rparr>, []) k
      | OnAuthDone \<Rightarrow> if cl_pre_auth u = None \<or> task_at w me = None then k w else Call (CallWake me) k
      | OnSocketConnected \<Rightarrow>
          if \<not> cl_socket u \<or> task_at w me = None then k w else put (engine_api E CallConnect u) k
      | OnSocketRead reads \<Rightarrow> if \<not> cl_socket u \<or> task_at w me = None then k w else read_loop E reads k w
      | OnSocketClosed code \<Rightarrow>
          if \<not> cl_socket u \<or> task_at w me = None then k w else put (engine_api E (CallConnectionClosed code) u) k
      | PingMessage a \<Rightarrow> Call (CallWake a) k
      | PollOp \<Rightarrow> Call CallPollTasks k)"

fun op_progs ::
  "'x client_env \<Rightarrow> client_op list \<Rightarrow> ('x client_world \<Rightarrow> 'x client_program) \<Rightarrow> 'x client_world \<Rightarrow> 'x client_program" where
  "op_progs E [] k w = k w"
| "op_progs E (ev # evs) k w = op_prog E ev (op_progs E evs k) w"

text \<open>A signal of a task: the application hears it and answers.\<close>

definition emit ::
  "'x client_env \<Rightarrow> client_event \<Rightarrow> 'x client \<Rightarrow> ('x client_world \<Rightarrow> 'x client_program) \<Rightarrow> 'x client_program" where
  "emit E ev u k = put (note_event ev u, []) (\<lambda>w. op_progs E (env_react E ev w) k w)"

subsection \<open>The steps of the client\<close>

definition client_ProcessStart :: "'x client_env \<Rightarrow> 'x client_world \<Rightarrow> 'x client_program" where
  "client_ProcessStart E w =
     (let u = user w in
      if \<not> cl_socket u then Return TASK_DONE
      else case cl_engine u of
          None \<Rightarrow> put (crash u, []) (\<lambda>_. Return TASK_DONE)
        | Some e \<Rightarrow>
            (case cl_pre_auth u of
               Some pa \<Rightarrow>
                 emit E (PreAuthStarted (eng_user_jid e) (cl_server u) (cl_server_port u) (cl_pass u)
                     (cl_auth_mechanism u) (cl_auth_token u)) u
                   (\<lambda>w1. put ((user w1)\<lparr>cl_pass := []\<rparr>, []) (\<lambda>_. Return (TASK_NEXT 0)))
             | None \<Rightarrow>
                 put (engine_api E (CallSetSaslHandler (Some (PlainSaslHandler (eng_user_jid e) (cl_pass u) (cl_allow_plain u)))) u)
                   (\<lambda>w1. put ((user w1)\<lparr>cl_pass := []\<rparr>, []) (\<lambda>_. Return (TASK_NEXT 1)))))"

definition client_ProcessTokenLogin :: "'x client_env \<Rightarrow> 'x client_world \<Rightarrow> 'x client_program" where
  "client_ProcessTokenLogin E w =
     (let u = user w in
      if \<not> cl_socket u then Return TASK_DONE
      else case cl_pre_auth u of
          None \<Rightarrow> put (EnsureClosed (u\<lparr>cl_pre_engine_error := ERROR_AUTH\<rparr>), []) (\<lambda>_. Return TASK_ERROR)
        | Some pa \<Rightarrow>
            if \<not> pa_done pa then Return TASK_BLOCKED
            else if \<not> pa_authorized pa then
              put (EnsureClosed
                    ((if pa_had_error pa
                      then u\<lparr>cl_pre_engine_error := ERROR_AUTH, cl_pre_engine_subcode := pa_error pa\<rparr>
                      else u\<lparr>cl_pre_engine_error := ERROR_UNAUTHORIZED, cl_pre_engine_subcode := 0,
                             cl_captcha := pa_captcha pa\<rparr>)\<lparr>cl_pre_auth := None\<rparr>), [])
                (\<lambda>_. Return TASK_ERROR)
            else
              put (engine_api E (CallSetSaslHandler (Some (pa_sasl pa)))
                    (u\<lparr>cl_auth_mechanism := pa_mechanism pa, cl_auth_token := pa_token pa, cl_pre_auth := None\<rparr>))
                (\<lambda>_. Return (TASK_NEXT 1)))"

definition client_ProcessStartXmppLogin :: "'x client_world \<Rightarrow> 'x client_program" where
  "client_ProcessStartXmppLogin w =
     (let u = user w in
      if \<not> cl_socket u then Return TASK_DONE
      else let u1 = note_event (SocketConnect (cl_server u) (cl_server_port u)) u in
        if \<not> cl_socket_ok u1 then put (EnsureClosed u1, []) (\<lambda>_. Return TASK_ERROR)
        else put (u1, []) (\<lambda>_. Return TASK_RESPONSE))"

definition client_ProcessResponse :: "'x client_world \<Rightarrow> 'x client_program" where
  "client_ProcessResponse w =
     (let u = user w in
      if \<not> cl_delivering_signal u \<and> (cl_engine u = None \<or> GetState u = STATE_CLOSED) then Return TASK_DONE
      else Return TASK_BLOCKED)"

definition client_GetStateName :: "task_state \<Rightarrow> string" where
  "client_GetStateName s =
     (case s of TASK_NEXT 0 \<Rightarrow> ''PRE_XMPP_LOGIN'' | TASK_NEXT (Suc 0) \<Rightarrow> ''START_XMPP_LOGIN'' | _ \<Rightarrow> GetStateName s)"

subsection \<open>The steps of the other tasks\<close>

definition next_stanza :: "nat \<Rightarrow> 'x client \<Rightarrow> xml_element option \<times> 'x client" where
  "next_stanza a u =
     (case cl_members u a of
        None \<Rightarrow> (None, u)
      | Some x \<Rightarrow> let (s, x') = task_NextStanza x in (s, u\<lparr>cl_members := (cl_members u)(a \<mapsto> x')\<rparr>))"

definition set_kind :: "nat \<Rightarrow> task_kind \<Rightarrow> 'x client \<Rightarrow> 'x client" where
  "set_kind a kind u =
     (case cl_members u a of None \<Rightarrow> u | Some x \<Rightarrow> u\<lparr>cl_members := (cl_members u)(a \<mapsto> x\<lparr>xt_kind := kind\<rparr>)\<rparr>)"

definition ping_ProcessStart ::
  "'x client_env \<Rightarrow> nat \<Rightarrow> string \<Rightarrow> 32 word \<Rightarrow> 32 word \<Rightarrow> 32 word \<Rightarrow> 32 word \<Rightarrow> 'x client_world \<Rightarrow> 'x client_program" where
  "ping_ProcessStart E a iqid period timeout next_ping deadline0 w =
     (if period < timeout then Return TASK_ERROR
      else
        let (stanza, u1) = next_stanza a (user w);
            deadline = (if stanza \<noteq> None then 0 else deadline0);
            now = word_of_int (clock w) :: 32 word;
            u2 = set_kind a (PingKind period timeout next_ping deadline) u1 in
        if deadline \<noteq> 0 \<and> now \<ge> deadline then emit E (PingTimeout a) u2 (\<lambda>_. Return TASK_ERROR)
        else if now \<ge> next_ping then
          let (status, u3, ws) = task_SendStanza E a (ping_request iqid) u2 in
          put (note_event (PostDelayed a period) (note_event (PostDelayed a timeout)
                 (set_kind a (PingKind period timeout (now + period) (now + timeout)) u3)), ws)
            (\<lambda>_. Return TASK_BLOCKED)
        else put (u2, []) (\<lambda>_. Return TASK_BLOCKED))"

definition task_ProcessStart :: "'x client_env \<Rightarrow> nat \<Rightarrow> 'x client_world \<Rightarrow> 'x client_program" where
  "task_ProcessStart E a w =
     (let u = user w in
      case cl_members u a of
        None \<Rightarrow> Return TASK_DONE
      | Some x \<Rightarrow>
          (case xt_kind x of
             IqKind verb to el \<Rightarrow>
               let (status, r) = task_SendStanza E a (iq_request verb to el (xt_id x)) u in
               put r (\<lambda>_. Return (if status = XMPP_RETURN_OK then TASK_RESPONSE else TASK_ERROR))
           | ReceiveKind wants \<Rightarrow>
               (case next_stanza a u of
                  (None, u1) \<Rightarrow> Return TASK_BLOCKED
                | (Some stanza, u1) \<Rightarrow> emit E (StanzaReceived a stanza) u1 (\<lambda>_. Return TASK_START))
           | PresenceOutKind \<Rightarrow>
               (case next_stanza a u of
                  (None, u1) \<Rightarrow> Return TASK_BLOCKED
                | (Some stanza, u1) \<Rightarrow>
                    let (status, r) = task_SendStanza E a stanza u1 in
                    put r (\<lambda>_. Return (if status \<noteq> XMPP_RETURN_OK then TASK_ERROR else TASK_START)))
           | PresenceReceiveKind \<Rightarrow>
               (case next_stanza a u of
                  (None, u1) \<Rightarrow> Return TASK_BLOCKED
                | (Some stanza, u1) \<Rightarrow>
                    (case HandlePresence (Jid_of_string (Attr stanza QN_FROM)) stanza of
                       None \<Rightarrow> put (u1, []) (\<lambda>_. Return TASK_START)
                     | Some status \<Rightarrow> emit E (PresenceUpdate a status) u1 (\<lambda>_. Return TASK_START)))
           | PingKind period timeout next_ping deadline \<Rightarrow>
               ping_ProcessStart E a (xt_id x) period timeout next_ping deadline w))"

definition iq_ProcessResponse :: "'x client_env \<Rightarrow> nat \<Rightarrow> 'x client_world \<Rightarrow> 'x client_program" where
  "iq_ProcessResponse E a w =
     (case next_stanza a (user w) of
        (None, u1) \<Rightarrow> Return TASK_BLOCKED
      | (Some stanza, u1) \<Rightarrow>
          if Attr stanza QN_TYPE = STR_RESULT then emit E (IqResult a stanza) u1 (\<lambda>_. Return TASK_DONE)
          else emit E (IqError a (FirstNamed stanza QN_ERROR)) u1 (\<lambda>_. Return TASK_DONE))"

definition is_iq_task :: "nat \<Rightarrow> 'x client \<Rightarrow> bool" where
  "is_iq_task a u =
     (case cl_members u a of Some x \<Rightarrow> (case xt_kind x of IqKind verb to el \<Rightarrow> True | _ \<Rightarrow> False) | None \<Rightarrow> False)"

text \<open>The virtual functions of all the classes; what is not overridden is that of \<open>Task\<close>.\<close>

definition client_vtable :: "'x client_env \<Rightarrow> 'x client vtable" where
  "client_vtable E =
     \<lparr>ProcessStart = (\<lambda>a w. if a = client_task then client_ProcessStart E w else task_ProcessStart E a w),
      ProcessResponse = (\<lambda>a w.
        if a = client_task then client_ProcessResponse w
        else if is_iq_task a (user w) then iq_ProcessResponse E a w else Return TASK_DONE),
      OnTimeout = (\<lambda>a w.
        if a \<noteq> client_task \<and> is_iq_task a (user w) then emit E (IqError a None) (user w) (\<lambda>_. Return TASK_DONE)
        else Return TASK_DONE),
      ProcessOther = (\<lambda>a s.
        if a = client_task \<and> s = TASK_NEXT 0 then Some (client_ProcessTokenLogin E)
        else if a = client_task \<and> s = TASK_NEXT 1 then Some client_ProcessStartXmppLogin
        else None),
      stop_hook = StopImpl\<rparr>"

subsection \<open>The life of a client\<close>

text \<open>
  The destructor of \<open>PresenceReceiveTask\<close> calls \<open>Stop\<close> once more before those of its base classes run.
  The runner of the framework deletes every task with \<open>delete_task\<close>, which are the destructors of the
  base classes; this one is kept apart, because it may follow a pointer to a parent that is gone
  (\<open>receive_task_outlives_client\<close> in \<open>ClientSafety\<close>).
\<close>

definition delete_presence_receive :: "nat \<Rightarrow> 'x client_world \<Rightarrow> 'x client_world" where
  "delete_presence_receive a w = delete_task StopImpl a (stop_task StopImpl a w)"

text \<open>The pump with its client, new; one operation from outside; and the pump's message.\<close>

definition pump_init :: "bool \<Rightarrow> 'x client_world" where
  "pump_init ssl = construct_task None (runner_init (client_init ssl))"

definition client_do :: "'x client_env \<Rightarrow> client_op \<Rightarrow> 'x client_world \<Rightarrow> 'x client_world" where
  "client_do E ev w = fst (run_program StopImpl (op_prog E ev (\<lambda>_. Return TASK_BLOCKED) w) w)"

definition pump_OnMessage :: "'x client_env \<Rightarrow> 'x client_world \<Rightarrow> 'x client_world option" where
  "pump_OnMessage E w = RunTasks (client_vtable E) w"

inductive client_life :: "'x client_env \<Rightarrow> 'x client_world \<Rightarrow> bool" for E where
  born: "client_life E (pump_init ssl)"
| happens: "client_life E w \<Longrightarrow> client_life E (client_do E ev w)"
| runs: "client_life E w \<Longrightarrow> pump_OnMessage E w = Some w' \<Longrightarrow> client_life E w'"
| passes: "client_life E w \<Longrightarrow> client_life E (w\<lparr>clock := now\<rparr>)"

end
