(* ===== verification/ClientEngine.thy ===== *)
theory ClientEngine
  imports Client Connection
begin

text \<open>
  The engine below a client: which handlers are registered in it and which of them a stanza was
  offered to, over every call the client makes to it and every input from the network.
\<close>

subsection \<open>Who was offered a stanza\<close>

fun heard :: "engine_call list \<Rightarrow> nat list" where
  "heard [] = []"
| "heard (HandleStanza h el # tr) = h # heard tr"
| "heard (c # tr) = heard tr"

lemma heard_append [simp]: "heard (xs @ ys) = heard xs @ heard ys"
  by (induction xs rule: heard.induct) simp_all

definition registered :: "engine \<Rightarrow> nat set" where
  "registered e = {h. \<exists>level. h \<in> set (eng_handlers e level)}"

text \<open>What no operation of the engine itself touches.\<close>

definition post :: "engine \<Rightarrow> (handler_level \<Rightarrow> nat list) \<times> nat list" where
  "post e = (eng_handlers e, heard (eng_trace e))"

lemma post_frames [simp]:
  "post (e\<lparr>eng_login := a\<rparr>) = post e" "post (e\<lparr>eng_state := st\<rparr>) = post e"
  "post (e\<lparr>eng_tls_option := t\<rparr>) = post e" "post (e\<lparr>eng_output := o'\<rparr>) = post e"
  "post (e\<lparr>eng_encrypted := b\<rparr>) = post e" "post (e\<lparr>eng_xmlns := x\<rparr>) = post e"
  "post (e\<lparr>eng_next_id := n\<rparr>) = post e" "post (e\<lparr>eng_raised_reset := b\<rparr>) = post e"
  "post (e\<lparr>eng_parser_reset := b\<rparr>) = post e" "post (e\<lparr>eng_entered := k\<rparr>) = post e"
  "post (e\<lparr>eng_stream_error := s\<rparr>) = post e" "post (e\<lparr>eng_session_handler := b\<rparr>) = post e"
  "post (e\<lparr>eng_tls_server_hostname := h1\<rparr>) = post e" "post (e\<lparr>eng_tls_server_domain := h1\<rparr>) = post e"
  "post (e\<lparr>eng_user_jid := j\<rparr>) = post e" "post (e\<lparr>eng_sasl_handler := sh\<rparr>) = post e"
  "post (e\<lparr>eng_requested_resource := h1\<rparr>) = post e" "post (e\<lparr>eng_lang := h1\<rparr>) = post e"
  "post (e\<lparr>eng_bound_jid := j\<rparr>) = post e" "post (e\<lparr>eng_error := er\<rparr>) = post e"
  "post (e\<lparr>eng_subcode := i\<rparr>) = post e" "post (e\<lparr>eng_output_handler := b\<rparr>) = post e"
  "post (e\<lparr>eng_iq_entries := q\<rparr>) = post e" "post (e\<lparr>eng_next_cookie := k\<rparr>) = post e"
  by (simp_all add: post_def)

lemma post_call_out [simp]: "\<forall>h el. c \<noteq> HandleStanza h el \<Longrightarrow> post (call_out c e) = post e"
  by (cases c) (simp_all add: post_def call_out_def)

lemma post_InternalSendStanza [simp]: "post (InternalSendStanza s e) = post e"
  by (simp add: InternalSendStanza_def put_output_def split: option.split prod.split)

lemma post_sends [simp]:
  "post (InternalSendStart t e) = post e" "post (put_output t e) = post e"
  "post (RaiseReset e) = post e" "post (fold InternalSendStanza ss e) = post e"
  "post (SignalError c n e) = post e" "post (SignalStreamError el e) = post e"
  "post (SignalBound j e) = post e" "post (engine_StartTls d e) = post e" "post (enter_engine e) = post e"
  subgoal by (simp add: InternalSendStart_def Let_def put_output_def)
  subgoal by (simp add: put_output_def)
  subgoal by (simp add: RaiseReset_def)
  subgoal by (induction ss arbitrary: e) simp_all
  subgoal by (simp add: SignalError_def)
  subgoal by (simp add: SignalStreamError_def SignalError_def)
  subgoal by (simp add: SignalBound_def)
  subgoal by (simp add: engine_StartTls_def)
  subgoal by (simp add: enter_engine_def)
  done

lemma login_step_post:
  "login_step lt e = Continue lt' e' \<Longrightarrow> post e' = post e"
  "login_step lt e = advance_result.Return b lt' e' \<Longrightarrow> post e' = post e"
  by (cases "lt_state lt"; auto simp: login_cases split: option.splits if_splits prod.splits)+

interpretation login_post: login_invariant "\<lambda>lt e. post e = b" for b
  by unfold_locales (auto dest: login_step_post)

lemma post_login_input: "login_input el start lt e = Some e' \<Longrightarrow> post e' = post e"
  by (auto simp: login_input_def dest: login_post.IncomingStanza_keeps [where b = "post e"]
      split: option.splits)

lemma post_exit [simp]: "post (exit_engine saved e) = post e"
  by (simp add: exit_engine_def flush_output_def Let_def)

lemma post_within: "(\<And>x. post (f x) = post x) \<Longrightarrow> post (within f e) = post e"
  by (simp add: within_def)

lemma post_SendStanza [simp]: "post (snd (SendStanza el e)) = post e"
  by (simp add: SendStanza_def post_within split: option.split)

lemma post_SendIq [simp]: "post (snd (snd (SendIq el h e))) = post e"
  by (simp add: SendIq_def Let_def case_prod_unfold split: option.split)

lemma post_Connect: "Connect e = Some (st, e') \<Longrightarrow> post e' = post e"
  by (auto simp: Connect_def Let_def dest!: post_login_input split: if_splits option.splits)

lemma post_api:
  assumes "api c e = Some e'" "\<forall>h level. c \<noteq> CallAddStanzaHandler h level" "\<forall>h. c \<noteq> CallRemoveStanzaHandler h"
  shows "post e' = post e"
  using assms
  by (cases c)
    (auto simp: SetOutputHandler_def SetSessionHandler_def SetTls_def SetTlsServer_def SetUser_def SetSaslHandler_def
      SetRequestedResource_def SetLanguage_def NextId_def SendRaw_def Disconnect_def ConnectionClosed_def
      RemoveIqHandler_def SendStanzaError_def DeleteIqCookies_def Let_def post_within
      split: if_splits option.splits prod.splits intro: post_Connect)

subsection \<open>Input from the network\<close>

text \<open>The handlers stay as they are, and a stanza is offered to registered handlers only.\<close>

definition offers :: "engine \<Rightarrow> engine \<Rightarrow> bool" where
  "offers e e' \<longleftrightarrow>
     eng_handlers e' = eng_handlers e
     \<and> (\<exists>new. heard (eng_trace e') = heard (eng_trace e) @ new \<and> set new \<subseteq> registered e)"

lemma offers_post: "post e' = post e \<Longrightarrow> offers e e'"
  by (simp add: offers_def post_def)

lemma offers_trans: "offers a b \<Longrightarrow> offers b c \<Longrightarrow> offers a c"
  by (fastforce simp: offers_def registered_def)

lemma offers_handler:
  assumes "i < length (eng_handlers e level)" "call_handler (client_app u) (eng_handlers e level ! i) stanza e = Some (handled, e')"
  shows "offers e e'"
proof -
  have "eng_handlers e level ! i \<in> registered e" using nth_mem [OF assms(1)] by (auto simp: registered_def)
  then show ?thesis
    using assms(2) by (auto simp: call_handler_def client_app_def offers_def call_out_def)
qed

lemma offers_response: "HandleIqResponse (client_app u) el e = Some (handled, e') \<Longrightarrow> offers e e'"
  by (auto simp: HandleIqResponse_def client_app_def Let_def offers_def call_out_def split: if_splits option.splits prod.splits)

lemma offers_unhandled: "unhandled_stanza stanza e = Some e' \<Longrightarrow> offers e e'"
  using post_api [of "CallSendStanzaError stanza XSE_FEATURE_NOT_IMPLEMENTED []" e]
  by (auto simp: unhandled_stanza_def Let_def offers_post split: if_splits intro!: offers_post)

interpretation offering: app_relation offers "client_app u" for u
  by unfold_locales
    (auto intro: offers_post offers_trans offers_handler offers_response offers_unhandled post_login_input)

lemma input_offers:
  assumes run: "HandleInput feed x0 (client_app u) bytes c = Some (status, c')"
  shows "eng_handlers (conn_engine c') = eng_handlers (conn_engine c)
     \<and> (\<exists>new. eng_trace (conn_engine c') = eng_trace (conn_engine c) @ new \<and> set (heard new) \<subseteq> registered (conn_engine c))"
proof (cases "status = XMPP_RETURN_BADSTATE")
  case True then show ?thesis using HandleInput_BADSTATE run by fastforce
next
  case False
  let ?e = "conn_engine c"
  obtain e1 where o: "offers (enter_engine ?e) e1" and c': "conn_engine c' = (exit_engine (eng_state ?e) e1)\<lparr>eng_parser_reset := False\<rparr>"
    using offering.HandleInput_rel [OF run False] by blast
  obtain e2 where r: "refines (enter_engine ?e) e2" and c2: "conn_engine c' = (exit_engine (eng_state ?e) e2)\<lparr>eng_parser_reset := False\<rparr>"
    using refinement.HandleInput_rel [OF run False] by blast
  have p: "post (conn_engine c') = post e1" "post (enter_engine ?e) = post ?e" by (simp_all add: c')
  have "refines ?e (enter_engine ?e)" by (rule refines_frame) simp
  also note r
  also have "refines e2 (exit_engine (eng_state ?e) e2)" by (rule refines_exit)
  also have "refines (exit_engine (eng_state ?e) e2) (conn_engine c')" unfolding c2 by (rule refines_frame) simp
  finally obtain new where new: "eng_trace (conn_engine c') = eng_trace ?e @ new"
    using session_steps(3) by (fastforce simp: refines_def)
  have "registered (enter_engine ?e) = registered ?e" using p(2) by (simp add: registered_def post_def)
  then show ?thesis
    using o p new by (auto simp: offers_def post_def)
qed

subsection \<open>Calls from the client\<close>

lemma api_extends: "api c e = Some e' \<Longrightarrow> \<exists>new. eng_trace e' = eng_trace e @ new"
  using refinement.api_eng session_steps(3) by (fastforce simp: refines_def)

lemma conn_api_quiet:
  assumes "conn_api x0 k c = Some c'" "\<forall>h level. k \<noteq> CallAddStanzaHandler h level" "\<forall>h. k \<noteq> CallRemoveStanzaHandler h"
  shows "eng_handlers (conn_engine c') = eng_handlers (conn_engine c)
     \<and> (\<exists>new. eng_trace (conn_engine c') = eng_trace (conn_engine c) @ new \<and> heard new = [])"
proof -
  obtain e1 where e1: "api k (conn_engine c) = Some e1" "conn_engine c' = e1\<lparr>eng_parser_reset := False\<rparr>"
    using assms(1) by (rule conn_api_engine)
  obtain new where "eng_trace e1 = eng_trace (conn_engine c) @ new" using api_extends [OF e1(1)] by blast
  then show ?thesis using post_api [OF e1(1) assms(2,3)] e1(2) by (simp add: post_def)
qed

lemma conn_add_handler:
  assumes "conn_api x0 (CallAddStanzaHandler h level) c = Some c'"
  shows "eng_trace (conn_engine c') = eng_trace (conn_engine c) \<and> registered (conn_engine c') \<subseteq> insert h (registered (conn_engine c))"
  using assms by (rule conn_api_engine) (auto simp: AddStanzaHandler_def registered_def split: if_splits)

lemma remove_handler:
  "registered (snd (RemoveStanzaHandler h e)) = registered e - {h}" "eng_trace (snd (RemoveStanzaHandler h e)) = eng_trace e"
  by (auto simp: RemoveStanzaHandler_def registered_def Let_def)

lemma conn_calls_quiet:
  assumes "conn_calls x0 cs c = Some c'"
    "\<forall>k\<in>set cs. (\<forall>h level. k \<noteq> CallAddStanzaHandler h level) \<and> (\<forall>h. k \<noteq> CallRemoveStanzaHandler h)"
  shows "eng_handlers (conn_engine c') = eng_handlers (conn_engine c)"
  using assms
  by (induction cs arbitrary: c) (auto simp: bind_eq_Some_conv dest: conn_api_quiet)

lemma connected_registered:
  "conn_calls x0 (connect_calls cs lang) (connection_init x0) = Some c \<Longrightarrow> registered (conn_engine c) = {}"
  by (frule conn_calls_quiet) (auto simp: connect_calls_def registered_def engine_init_def split: if_splits)

end
