(* ===== verification/TaskInvariants.thy ===== *)
theory TaskInvariants
  imports TaskLaws
begin

text \<open>
  Invariants of programs on the task framework, stated once as locales: a predicate on worlds that
  the bookkeeping of the framework cannot break (\<open>evolves\<close>), that the overridden \<open>Stop\<close> keeps
  (\<open>stop_closed\<close>), that survives the deletion of a task that was stopped (\<open>stop_invariant\<close>), and that
  each step of a task keeps (\<open>step_invariant\<close>), holds as long as the runner lives.
\<close>

subsection \<open>What the bookkeeping may change\<close>

text \<open>
  A task that is done stays so; one that is not done neither becomes blocked nor gets a final state;
  new tasks appear at the end of the heap; the members of the subclasses stay.
\<close>

definition task_grows :: "task \<Rightarrow> task \<Rightarrow> bool" where
  "task_grows t t' \<longleftrightarrow>
     (tk_done t \<longrightarrow> tk_done t')
     \<and> (\<not> tk_done t' \<longrightarrow> (tk_blocked t' \<longrightarrow> tk_blocked t)
          \<and> (tk_state t' \<in> {TASK_DONE, TASK_ERROR} \<longrightarrow> tk_state t \<in> {TASK_DONE, TASK_ERROR}))"

definition fresh :: "task \<Rightarrow> bool" where
  "fresh t \<longleftrightarrow> tk_done t \<or> \<not> tk_blocked t \<and> tk_state t \<notin> {TASK_DONE, TASK_ERROR}"

definition evolves :: "'u world \<Rightarrow> 'u world \<Rightarrow> bool" where
  "evolves w w' \<longleftrightarrow>
     user w' = user w \<and> length (heap w) \<le> length (heap w')
     \<and> (\<forall>b<length (heap w). rel_option task_grows (task_at w b) (task_at w' b))
     \<and> (\<forall>b t'. length (heap w) \<le> b \<longrightarrow> task_at w' b = Some t' \<longrightarrow> fresh t')"

lemma task_grows_refl [simp]: "task_grows t t"
  by (simp add: task_grows_def)

lemma task_grows_trans: "task_grows a b \<Longrightarrow> task_grows b c \<Longrightarrow> task_grows a c"
  by (auto simp: task_grows_def)

lemma task_at_beyond: "length (heap w) \<le> b \<Longrightarrow> task_at w b = None"
  by (simp add: task_at_def)

lemma evolves_refl [simp]: "evolves w w"
  by (simp add: evolves_def task_at_beyond option.rel_refl)

lemma rel_task_grows_trans:
  "rel_option task_grows x y \<Longrightarrow> rel_option task_grows y z \<Longrightarrow> rel_option task_grows x z"
  by (cases x; cases y; cases z) (auto intro: task_grows_trans)

lemma evolves_trans:
  assumes "evolves u v" "evolves v w" shows "evolves u w"
proof -
  have "rel_option task_grows (task_at u b) (task_at w b)" if "b < length (heap u)" for b
  proof -
    have "rel_option task_grows (task_at u b) (task_at v b)" "b < length (heap v)"
      using assms(1) that by (simp_all add: evolves_def)
    moreover have "rel_option task_grows (task_at v b) (task_at w b)"
      using assms(2) calculation(2) by (simp add: evolves_def)
    ultimately show ?thesis using rel_task_grows_trans by blast
  qed
  moreover have "fresh t'" if beyond: "length (heap u) \<le> b" and at: "task_at w b = Some t'" for b t'
  proof (cases "b < length (heap v)")
    case True
    then have "rel_option task_grows (task_at v b) (task_at w b)" using assms by (simp add: evolves_def)
    then obtain t where t: "task_at v b = Some t" "task_grows t t'"
      using at by (cases "task_at v b") auto
    then have "fresh t" using assms(1) beyond by (simp add: evolves_def)
    then show ?thesis using t(2) by (auto simp: fresh_def task_grows_def)
  next
    case False
    then have "length (heap v) \<le> b" by simp
    then show ?thesis using assms(2) at unfolding evolves_def by blast
  qed
  ultimately show ?thesis using assms by (simp add: evolves_def)
qed

lemma evolves_at:
  assumes "evolves w w'" "task_at w' b = Some t'"
  shows "length (heap w) \<le> b \<and> fresh t' \<or> (\<exists>t. task_at w b = Some t \<and> task_grows t t')"
proof (cases "b < length (heap w)")
  case True
  then have "rel_option task_grows (task_at w b) (task_at w' b)" using assms(1) by (simp add: evolves_def)
  then show ?thesis using assms(2) by (cases "task_at w b") auto
next
  case False
  then have "length (heap w) \<le> b" by simp
  then show ?thesis using assms unfolding evolves_def by blast
qed

lemma evolves_gone:
  assumes "evolves w w'" "b < length (heap w)"
  shows "task_at w' b = None \<longleftrightarrow> task_at w b = None"
proof -
  have "rel_option task_grows (task_at w b) (task_at w' b)" using assms by (simp add: evolves_def)
  then show ?thesis by (cases "task_at w b"; cases "task_at w' b") simp_all
qed

lemma evolves_same: "heap w' = heap w \<Longrightarrow> user w' = user w \<Longrightarrow> evolves w w'"
  by (simp add: evolves_def task_at_def option.rel_refl)

lemma evolves_on_task: "(\<And>t. task_at w a = Some t \<Longrightarrow> task_grows t (f t)) \<Longrightarrow> evolves w (on_task a f w)"
  by (cases "task_at w a") (auto simp: evolves_def task_at_beyond option.rel_refl)

lemma evolves_step: "evolves u v \<Longrightarrow> (\<And>w. evolves w (f w)) \<Longrightarrow> evolves u (f v)"
  using evolves_trans by blast

lemma user_Recalc [simp]: "user (RecalcNextTimeout x w) = user w"
  by (simp add: RecalcNextTimeout_def)

lemma user_Check [simp]: "user (CheckForTimeoutChange p w) = user w"
  by (simp add: CheckForTimeoutChange_def Let_def)

lemma user_Update [simp]: "user (UpdateTaskTimeout a p w) = user w"
  by (simp add: UpdateTaskTimeout_def Let_def split: option.split)

lemma evolves_notes:
  "evolves w (set_dangling w)" "evolves w (touch q w)" "evolves w (WakeTasks w)" "evolves w (OnTimeoutChange w)"
  "evolves w (RecalcNextTimeout x w)" "evolves w (CheckForTimeoutChange p w)" "evolves w (UpdateTaskTimeout a p w)"
  by (rule evolves_same, simp_all)+

lemma evolves_set_then:
  "(\<And>t. task_grows t (f t)) \<Longrightarrow> (\<And>v. evolves v (g v)) \<Longrightarrow> evolves w (g (on_task a f w))"
  by (rule evolves_step [OF evolves_on_task]) simp_all

lemma grows_fields [simp]:
  "task_grows t (t\<lparr>tk_timeout_time := x\<rparr>)" "task_grows t (t\<lparr>tk_timeout_seconds := x\<rparr>)"
  "task_grows t (t\<lparr>tk_timeout_suspended := b\<rparr>)" "task_grows t (t\<lparr>tk_error := b\<rparr>)"
  "task_grows t (t\<lparr>tk_blocked := False\<rparr>)" "task_grows t (t\<lparr>tk_busy := b\<rparr>)"
  "task_grows t (t\<lparr>tk_start_time := x\<rparr>)" "task_grows t (t\<lparr>tk_children := cs\<rparr>)"
  "task_grows t (t\<lparr>tk_child_error := b, tk_children := cs\<rparr>)" "task_grows t (t\<lparr>tk_aborted := b\<rparr>)"
  "task_grows t (t\<lparr>tk_aborted := b, tk_done := True, tk_blocked := c, tk_error := d\<rparr>)"
  "task_grows t (t\<lparr>tk_done := True\<rparr>)" "task_grows t (t\<lparr>tk_done := True, tk_error := b\<rparr>)"
  "task_grows t (t\<lparr>tk_done := True, tk_state := st, tk_blocked := b\<rparr>)"
  by (simp_all add: task_grows_def)

lemma evolves_Wake: "evolves w (Wake a w)"
  using evolves_set_then [of "\<lambda>t. t\<lparr>tk_blocked := False\<rparr>" WakeTasks w a]
  by (simp add: Wake_def evolves_notes split: option.split)

lemma evolves_Reset: "evolves w (ResetTimeout a w)"
  unfolding ResetTimeout_def Let_def
  by (cases "task_at w a") (simp_all add: evolves_notes evolves_set_then [of _ "UpdateTaskTimeout a p" for p])

lemma evolves_Clear: "evolves w (ClearTimeout a w)"
  unfolding ClearTimeout_def
  by (cases "task_at w a") (simp_all add: evolves_notes evolves_set_then [of _ "UpdateTaskTimeout a p" for p])

lemma evolves_timeout_calls:
  "evolves w (set_timeout_seconds a s w)" "evolves w (SuspendTimeout a w)" "evolves w (ResumeTimeout a w)"
  unfolding set_timeout_seconds_def SuspendTimeout_def ResumeTimeout_def
  by (simp_all add: evolves_notes evolves_set_then [of _ "ResetTimeout a"] evolves_Reset split: option.split)

lemma evolves_task_Error: "evolves w (task_Error a w)"
  by (simp add: task_Error_def evolves_notes evolves_set_then [of _ "Wake a"] evolves_Wake split: option.split)

lemma evolves_Poll: "evolves w (PollTasks w)"
  by (simp add: PollTasks_def evolves_notes evolves_step [OF evolves_Wake evolves_notes(3)] split: option.split)

lemma evolves_AddChild: "evolves w (AddChild p c w)"
  by (cases p) (auto simp: AddChild_def task_grows_def intro: evolves_same evolves_on_task)

lemma evolves_construct: "evolves w (construct_task p w)"
proof -
  have "evolves w (w\<lparr>heap := heap w @ [Some (new_task p)]\<rparr>)"
    by (auto simp: evolves_def task_at_construct option.rel_refl fresh_def new_task_def task_at_beyond split: if_splits)
  then show ?thesis unfolding construct_task_def using evolves_AddChild by (rule evolves_step)
qed

lemma evolves_Start: "evolves w (Start a w)"
proof -
  have "evolves v (StartTask a v)" for v :: "'a world" by (rule evolves_same) (simp_all add: StartTask_def)
  then show ?thesis
    by (simp add: Start_def evolves_notes evolves_set_then [of _ "StartTask a"] split: option.split)
qed

lemma evolves_OnChildStopped: "evolves w (OnChildStopped p c failed w)"
  by (cases p) (auto simp: OnChildStopped_def task_grows_def intro: evolves_same evolves_on_task)

subsection \<open>Stopping\<close>

locale stop_closed =
  fixes hook :: "nat \<Rightarrow> 'u \<Rightarrow> 'u" and P :: "'u world \<Rightarrow> bool"
  assumes grows: "P w \<Longrightarrow> evolves w w' \<Longrightarrow> P w'"
    and hooked: "P w \<Longrightarrow> P (w\<lparr>user := hook a (user w)\<rparr>)"
begin

lemma same_keeps: "P w \<Longrightarrow> heap w' = heap w \<Longrightarrow> user w' = user w \<Longrightarrow> P w'"
  using grows evolves_same by blast

lemma fold_keeps: "(\<And>a w. P w \<Longrightarrow> P (f a w)) \<Longrightarrow> P w \<Longrightarrow> P (fold f as w)"
  by (induction as arbitrary: w) simp_all

lemma Stop_keeps:
  assumes "\<And>a w. P w \<Longrightarrow> P (f a w)" "P w" shows "P (Stop hook f a w)"
proof -
  have "P (w\<lparr>user := hook a (user w)\<rparr>)" using assms(2) by (rule hooked)
  then show ?thesis
    by (auto simp: Stop_def OnStopped_def split: option.split
        intro: grows [OF _ evolves_notes(1)] grows [OF fold_keeps [OF assms(1)] evolves_OnChildStopped])
qed

lemma abort_tree_keeps: "P w \<Longrightarrow> P (abort_tree hook depth a w)"
proof (induction depth arbitrary: a w)
  case 0 then show ?case by (auto intro: grows [OF _ evolves_notes(1)])
next
  case (Suc depth)
  have on: "P (on_task a f w)" if "\<And>t. task_grows t (f t)" for f
    using Suc.prems that by (auto intro: grows evolves_on_task)
  show ?case
    using Suc.prems on by (auto split: option.split intro!: grows [OF _ evolves_notes(1)] Stop_keeps Suc.IH)
qed

lemma stop_task_keeps: "P w \<Longrightarrow> P (stop_task hook a w)"
  unfolding stop_task_def by (intro Stop_keeps abort_tree_keeps)

lemma Abort_keeps: "P w \<Longrightarrow> P (Abort hook a nowake w)"
  by (auto simp: Abort_def Let_def simp del: abort_tree.simps split: option.split
      intro: abort_tree_keeps grows [OF abort_tree_keeps evolves_notes(3)])

end

locale stop_invariant = stop_closed hook J
  for hook :: "nat \<Rightarrow> 'u \<Rightarrow> 'u" and J :: "'u world \<Rightarrow> bool" +
  fixes gone :: "nat \<Rightarrow> 'u \<Rightarrow> bool"
  assumes hook_goes: "J w \<Longrightarrow> gone a (hook a (user w))"
    and stays_gone: "gone a u \<Longrightarrow> gone a (hook b u)"
    and deleted: "J w \<Longrightarrow> gone a (user w) \<Longrightarrow> J (w\<lparr>heap := (heap w)[a := None]\<rparr>)"
begin

lemma gone_closed: "stop_closed hook (\<lambda>w. gone a (user w))"
  by unfold_locales (auto simp: evolves_def intro: stays_gone)

lemma stop_task_goes: "J w \<Longrightarrow> gone a (user (stop_task hook a w)) \<or> task_at w a = None"
proof (cases "task_at w a")
  case (Some t)
  let ?w = "w\<lparr>user := hook a (user w)\<rparr>"
  assume "J w"
  then have "gone a (user ?w)" by (simp add: hook_goes)
  then have "gone a (user (fold (abort_tree hook (length (heap w) + 1)) cs ?w))" for cs
    by (intro stop_closed.fold_keeps [OF gone_closed] stop_closed.abort_tree_keeps [OF gone_closed])
  then have "gone a (user (OnChildStopped p a failed (fold (abort_tree hook (length (heap w) + 1)) cs ?w)))" for p failed cs
    using evolves_OnChildStopped unfolding evolves_def by metis
  then show ?thesis using Some by (simp add: stop_task_def Stop_def OnStopped_def)
qed simp

lemma delete_task_keeps: "J w \<Longrightarrow> J (delete_task hook a w)"
proof (cases "task_at w a")
  case (Some t)
  assume J: "J w"
  show ?thesis
  proof (cases "tk_done t")
    case True
    have "J ((w\<lparr>user := hook a (user w)\<rparr>)\<lparr>heap := (heap (w\<lparr>user := hook a (user w)\<rparr>))[a := None]\<rparr>)"
      by (rule deleted) (simp_all add: J hooked hook_goes)
    then show ?thesis using Some True by (simp add: delete_task_def)
  next
    case False
    then show ?thesis
      using Some J stop_task_goes [OF J, of a] by (simp add: delete_task_def Let_def deleted stop_task_keeps)
  qed
qed (auto simp: delete_task_def intro: grows evolves_notes)

text \<open>Every call but the assignment of members.\<close>

lemma perform_keeps: "J w \<Longrightarrow> (\<And>u. c \<noteq> PutUser u) \<Longrightarrow> J (perform hook c w)"
  by (cases c) (auto intro: Abort_keeps delete_task_keeps
      grows evolves_construct evolves_Start evolves_Wake evolves_task_Error evolves_timeout_calls evolves_Poll)

lemma call_keeps: "J w \<Longrightarrow> (\<And>u. c \<noteq> PutUser u) \<Longrightarrow> J (call hook c w)"
  using same_keeps [of w "w\<lparr>misused := True\<rparr>"] by (simp add: call_def perform_keeps)

lemma delete_loop_keeps: "J w \<Longrightarrow> delete_loop hook as recalc w = (w', left, r) \<Longrightarrow> J w'"
proof (induction as arbitrary: recalc w left r)
  case (Cons a as)
  have forget: "J (v\<lparr>next_timeout_task := q\<rparr>)" if "J v" for v q using that by (rule grows) (simp add: evolves_same)
  have noted: "J (set_dangling w)" "J (touch q w)" for q
    using Cons.prems(1) by (auto intro: grows evolves_notes)
  show ?case
  proof (cases "\<exists>t. task_at w a = Some t \<and> tk_done t")
    case True
    let ?w = "touch (next_timeout_task w) w"
    let ?w1 = "if next_timeout_task ?w = Some a then ?w\<lparr>next_timeout_task := None\<rparr> else ?w"
    have "J (delete_task hook a ?w1)" using noted forget by (intro delete_task_keeps) simp
    then show ?thesis using Cons.prems(2) True Cons.IH by (auto simp: Let_def)
  next
    case False
    then show ?thesis
      using Cons.prems noted Cons.IH [of w] Cons.IH [of "set_dangling w"]
      by (auto simp: Let_def split: option.splits prod.splits)
  qed
qed simp

lemma finish_run_keeps: "J w \<Longrightarrow> J (finish_run hook d p w)"
proof -
  assume J: "J w"
  obtain w1 left r where loop: "delete_loop hook (runner_tasks w) False w = (w1, left, r)"
    by (cases "delete_loop hook (runner_tasks w) False w")
  then have "J w1" by (rule delete_loop_keeps [OF J])
  then have w2: "J (w1\<lparr>runner_tasks := left\<rparr>)" by (rule grows) (simp add: evolves_same)
  then have w3: "J (if r then RecalcNextTimeout None (w1\<lparr>runner_tasks := left\<rparr>) else w1\<lparr>runner_tasks := left\<rparr>)"
    by (auto intro: grows evolves_notes)
  then have "J (CheckForTimeoutChange p (if r then RecalcNextTimeout None (w1\<lparr>runner_tasks := left\<rparr>) else w1\<lparr>runner_tasks := left\<rparr>))"
    by (rule grows [OF _ evolves_notes(6)])
  then show ?thesis
    using w3 same_keeps [where w' = "v\<lparr>tasks_running := False\<rparr>" and w = v for v]
    by (simp add: finish_run_def loop Let_def)
qed

end

subsection \<open>Final states\<close>

text \<open>A task that is not done is in no final state.\<close>

definition states_ok :: "'u world \<Rightarrow> bool" where
  "states_ok w \<longleftrightarrow> (\<forall>b t. task_at w b = Some t \<longrightarrow> \<not> tk_done t \<longrightarrow> tk_state t \<notin> {TASK_DONE, TASK_ERROR})"

lemma states_ok_evolves: "states_ok w \<Longrightarrow> evolves w w' \<Longrightarrow> states_ok w'"
  unfolding states_ok_def
proof (intro allI impI)
  fix b t'
  assume ok: "\<forall>b t. task_at w b = Some t \<longrightarrow> \<not> tk_done t \<longrightarrow> tk_state t \<notin> {TASK_DONE, TASK_ERROR}"
    and ev: "evolves w w'" and at: "task_at w' b = Some t'" and nd: "\<not> tk_done t'"
  from evolves_at [OF ev at] show "tk_state t' \<notin> {TASK_DONE, TASK_ERROR}"
    using ok nd by (auto simp: fresh_def task_grows_def)
qed

lemma states_ok_stop: "stop_invariant hook states_ok (\<lambda>_ _. True)"
proof unfold_locales
  show "states_ok w \<Longrightarrow> evolves w w' \<Longrightarrow> states_ok w'" for w w' by (rule states_ok_evolves)
qed (auto simp: states_ok_def task_at_delete split: if_splits)

lemma states_ok_program: "states_ok w \<Longrightarrow> states_ok (fst (run_program hook p w))"
proof (induction p arbitrary: w)
  case (Call c k)
  have "states_ok (call hook c w)"
  proof (cases "\<exists>u. c = PutUser u")
    case True then show ?thesis using Call.prems by (auto simp: call_def states_ok_def)
  next
    case False then show ?thesis by (intro stop_invariant.call_keeps [OF states_ok_stop]) (use Call.prems in auto)
  qed
  then show ?case using Call.IH by (simp add: Let_def)
qed simp

lemma states_ok_Process: "states_ok w \<Longrightarrow> states_ok (fst (Process V a s w))"
proof -
  assume ok: "states_ok w"
  note p = states_ok_program [OF ok, of "stop_hook V"]
  note q = states_ok_program [OF states_ok_evolves [OF ok evolves_Clear], of "stop_hook V" "OnTimeout V a (ClearTimeout a w)" a]
  have r: "states_ok (v\<lparr>timeouts_signalled := ss\<rparr>) = states_ok v" for v :: "'a world" and ss
    by (simp add: states_ok_def)
  show ?thesis
    using p q ok by (simp add: Process_def Let_def case_prod_unfold r split: option.split task_state.split)
qed

subsection \<open>Steps and runs\<close>

text \<open>The mark that a step leaves on its task, by the state that \<open>Process\<close> returned.\<close>

definition mark_result :: "nat \<Rightarrow> task_state \<Rightarrow> 'u world \<Rightarrow> 'u world" where
  "mark_result a s w =
     (if s = TASK_DONE \<or> s = TASK_ERROR then on_task a (\<lambda>t. t\<lparr>tk_done := True\<rparr>) w
      else if s = TASK_BLOCKED then on_task a (\<lambda>t. t\<lparr>tk_blocked := True\<rparr>) w else w)"

text \<open>
  Whatever else the step does to its task \<open>a\<close> in the state \<open>t\<close> can only follow that mark: the other
  tasks grow, and \<open>a\<close> is left done, or neither blocked anew nor in a final state.
\<close>

lemma evolves_marked:
  assumes t: "task_at w a = Some t" and t': "task_at v a = Some t'"
    and g: "task_grows (if s = TASK_DONE \<or> s = TASK_ERROR then t\<lparr>tk_done := True\<rparr>
      else if s = TASK_BLOCKED then t\<lparr>tk_blocked := True\<rparr> else t) t'"
    and v: "user v = user w" "length (heap v) = length (heap w)" "\<And>b. b \<noteq> a \<Longrightarrow> task_at v b = task_at w b"
  shows "evolves (mark_result a s w) v"
proof -
  have "rel_option task_grows (task_at (mark_result a s w) b) (task_at v b)" for b
    using t t' g v(3) [of b] by (cases "b = a") (auto simp: mark_result_def option.rel_refl)
  moreover have "task_at v b = None" if "length (heap w) \<le> b" for b
    using that v(2) by (simp add: task_at_beyond)
  ultimately show ?thesis
    unfolding evolves_def by (auto simp: mark_result_def v)
qed

lemma done_closed: "stop_closed hook (\<lambda>w. a < length (heap w) \<and> (\<forall>t. task_at w a = Some t \<longrightarrow> tk_done t))"
proof unfold_locales
  fix w w' :: "'a world"
  assume d: "a < length (heap w) \<and> (\<forall>t. task_at w a = Some t \<longrightarrow> tk_done t)" and ev: "evolves w w'"
  have "length (heap w) \<le> length (heap w')" using ev by (simp add: evolves_def)
  moreover have "tk_done t'" if "task_at w' a = Some t'" for t'
    using evolves_at [OF ev that] d by (auto simp: task_grows_def)
  ultimately show "a < length (heap w') \<and> (\<forall>t. task_at w' a = Some t \<longrightarrow> tk_done t)" using d by simp
qed simp

lemma Reset_others: "b \<noteq> a \<Longrightarrow> task_at (ResetTimeout a w) b = task_at w b"
  "length (heap (ResetTimeout a w)) = length (heap w)" "user (ResetTimeout a w) = user w"
proof -
  have "task_at (UpdateTaskTimeout a p v) = task_at v" for p and v :: "'a world"
    by (simp add: task_at_def fun_eq_iff)
  then show "b \<noteq> a \<Longrightarrow> task_at (ResetTimeout a w) b = task_at w b"
    by (simp add: ResetTimeout_def Let_def split: option.split)
qed (simp_all add: ResetTimeout_def Let_def split: option.split)

locale step_invariant = stop_invariant "stop_hook V" J gone
  for V :: "'u vtable" and J :: "'u world \<Rightarrow> bool" and gone :: "nat \<Rightarrow> 'u \<Rightarrow> bool" +
  assumes processed: "J w \<Longrightarrow> task_at w a = Some t \<Longrightarrow> \<not> tk_done t \<Longrightarrow> tk_state t \<notin> {TASK_DONE, TASK_ERROR} \<Longrightarrow>
    Process V a (tk_state t) w = (w', s) \<Longrightarrow> J (mark_result a s w')"
begin

lemma after_process_keeps:
  assumes J: "J (mark_result a s w)"
  shows "J (after_process V a s (on_task a (\<lambda>t. t\<lparr>tk_busy := False\<rparr>) w))"
proof (cases "task_at w a")
  case None
  then have m: "heap (mark_result a s w) = heap w" "user (mark_result a s w) = user w"
    by (auto simp: mark_result_def on_task_def)
  have "J w" by (rule same_keeps [OF J]) (simp_all add: m)
  then have "J (set_dangling w)" by (rule grows) (rule evolves_notes)
  then have "J (set_dangling (set_dangling w))" by (rule grows) (rule evolves_notes)
  then show ?thesis using None by (simp add: after_process_def on_task_def)
next
  case (Some t)
  let ?w = "on_task a (\<lambda>t. t\<lparr>tk_busy := False\<rparr>) w"
  have w: "task_at ?w a = Some (t\<lparr>tk_busy := False\<rparr>)" using Some by simp
  note marked = grows [OF J evolves_marked [OF Some]]
  show ?thesis
  proof (cases "tk_aborted t")
    case True
    let ?f = "\<lambda>t. t\<lparr>tk_aborted := True, tk_done := True, tk_blocked := True, tk_error := True\<rparr>"
    have "J ?w" if "tk_done t"
      by (rule marked) (use w that in \<open>auto simp: task_grows_def\<close>)
    moreover have "J (on_task a ?f ?w)"
      by (rule marked) (use w in \<open>auto simp: task_grows_def\<close>)
    moreover have "J (Stop (stop_hook V) (abort_tree (stop_hook V) (length (heap ?w))) a (on_task a ?f ?w))"
      using calculation(2) by (intro Stop_keeps abort_tree_keeps)
    ultimately have "J (abort_tree (stop_hook V) (length (heap ?w) + 1) a ?w)"
      by (simp add: Some)
    then show ?thesis using w True by (auto simp: after_process_def Abort_def Let_def simp del: abort_tree.simps)
  next
    case False
    let ?w1 = "ResetTimeout a (on_task a (\<lambda>t. t\<lparr>tk_state := s, tk_blocked := False\<rparr>) ?w)"
    obtain k where w1: "task_at ?w1 a = Some (t\<lparr>tk_busy := False, tk_state := s, tk_blocked := False, tk_timeout_time := k\<rparr>)"
      using task_at_Reset [of "on_task a (\<lambda>t. t\<lparr>tk_state := s, tk_blocked := False\<rparr>) ?w" a] w by auto
    have finished: "J (on_task a (\<lambda>t. t\<lparr>tk_blocked := True\<rparr>) (stop_task (stop_hook V) a (on_task a f ?w1)))"
      if s: "s = TASK_DONE \<or> s = TASK_ERROR" and f: "\<And>t. tk_done (f t)" for f
    proof -
      let ?v = "on_task a f ?w1"
      have "J ?v"
        by (rule marked) (use w1 s f in \<open>auto simp: task_grows_def Reset_others\<close>)
      then have J: "J (stop_task (stop_hook V) a ?v)" by (rule stop_task_keeps)
      have "a < length (heap ?v) \<and> (\<forall>t. task_at ?v a = Some t \<longrightarrow> tk_done t)"
        using task_at_less [OF w1] w1 f by simp
      then have "\<forall>t. task_at (stop_task (stop_hook V) a ?v) a = Some t \<longrightarrow> tk_done t"
        using stop_closed.stop_task_keeps [OF done_closed] by blast
      then show ?thesis
        by (intro grows [OF J evolves_on_task]) (simp add: task_grows_def)
    qed
    have "J (on_task a (\<lambda>t. t\<lparr>tk_blocked := True\<rparr>) ?w)" if "s = TASK_BLOCKED"
      by (rule marked) (use w that in \<open>auto simp: task_grows_def\<close>)
    moreover have "J ?w1" if "s \<noteq> TASK_BLOCKED" "s \<noteq> TASK_DONE" "s \<noteq> TASK_ERROR"
      by (rule marked) (use w1 that in \<open>auto simp: task_grows_def Reset_others\<close>)
    ultimately show ?thesis
      using w False finished [of "\<lambda>t. t\<lparr>tk_done := True\<rparr>"] finished [of "\<lambda>t. t\<lparr>tk_done := True, tk_error := True\<rparr>"]
      by (auto simp: after_process_def Let_def)
  qed
qed

lemma Step_keeps:
  assumes J: "J w" and st: "states_ok w" shows "J (Step V a w)"
proof (cases "task_at w a")
  case None then show ?thesis using J by (auto simp: Step_def intro: grows evolves_notes)
next
  case (Some t)
  let ?w = "on_task a (\<lambda>t. t\<lparr>tk_busy := True\<rparr>) w"
  obtain w1 s where p: "Process V a (tk_state t) ?w = (w1, s)" by (cases "Process V a (tk_state t) ?w")
  have over: "J (on_task a f w)" if "task_grows t (f t)" for f
    using Some that by (auto intro!: grows [OF J evolves_on_task])
  have grown: "J (on_task a f w)" if "\<And>t. task_grows t (f t)" for f
    using that by (auto intro!: grows [OF J evolves_on_task])
  have "J (mark_result a s w1)" if nd: "\<not> tk_done t"
  proof (rule processed)
    show "J ?w" by (rule grown) simp
    show "task_at ?w a = Some (t\<lparr>tk_busy := True\<rparr>)" using Some by simp
    show "Process V a (tk_state (t\<lparr>tk_busy := True\<rparr>)) ?w = (w1, s)" using p by simp
    show "tk_state (t\<lparr>tk_busy := True\<rparr>) \<notin> {TASK_DONE, TASK_ERROR}" using st Some nd by (auto simp: states_ok_def)
  qed (use nd in simp)
  then show ?thesis
    using Some p after_process_keeps [of a s w1] over [of "\<lambda>t. t\<lparr>tk_blocked := True\<rparr>"]
    by (auto simp: Step_def task_grows_def intro!: stop_task_keeps grown)
qed

end

lemma states_ok_steps: "step_invariant V states_ok (\<lambda>_ _. True)"
proof (rule step_invariant.intro [OF states_ok_stop], unfold_locales)
  fix w w' :: "'a world" and a s and t :: task
  assume "states_ok w" "Process V a (tk_state t) w = (w', s)"
  then have "states_ok w'" using states_ok_Process [of w V a "tk_state t"] by simp
  then show "states_ok (mark_result a s w')" by (auto simp: states_ok_def mark_result_def split: if_splits)
qed

text \<open>The invariant holds through a run, and as long as the runner lives.\<close>

context step_invariant
begin

lemma run_loop_keeps:
  assumes "run_loop V i did_run w = Some r" "J w" "states_ok w"
  shows "J r \<and> states_ok r"
proof -
  have "V' = V \<longrightarrow> J w \<longrightarrow> states_ok w \<longrightarrow> J r \<and> states_ok r" if "run_loop V' i did_run w = Some r" for V'
  proof (rule run_loop.raw_induct [where P = "\<lambda>V' i did_run w r. V' = V \<longrightarrow> J w \<longrightarrow> states_ok w \<longrightarrow> J r \<and> states_ok r", OF _ that])
    fix run and V' :: "'u vtable" and i did_run w r
    assume IH: "\<And>V' i did_run w r. run V' i did_run w = Some r \<Longrightarrow> V' = V \<longrightarrow> J w \<longrightarrow> states_ok w \<longrightarrow> J r \<and> states_ok r"
      and eq: "(if i < length (runner_tasks w)
          then let a = runner_tasks w ! i; w0 = touch (Some a) w
               in if \<not> task_blocked w a then run V' i True (Step V' a w0) else run V' (i + 1) did_run w0
          else if did_run then run V' 0 False w else Some w) = Some r"
    show "V' = V \<longrightarrow> J w \<longrightarrow> states_ok w \<longrightarrow> J r \<and> states_ok r"
    proof (intro impI)
      assume V: "V' = V" and J: "J w" and st: "states_ok w"
      have t: "J (touch q w) \<and> states_ok (touch q w)" for q
        using grows [OF J evolves_notes(2)] states_ok_evolves [OF st evolves_notes(2)] by blast
      have "J (Step V a (touch q w)) \<and> states_ok (Step V a (touch q w))" for a q
        using t [of q] Step_keeps step_invariant.Step_keeps [OF states_ok_steps, of "touch q w" V a] by blast
      then show "J r \<and> states_ok r"
        using eq V J st t IH by (auto simp: Let_def split: if_splits)
    qed
  qed
  then show ?thesis using assms by blast
qed

lemma RunTasks_keeps:
  assumes run: "RunTasks V w = Some r" and J: "J w" and st: "states_ok w"
  shows "J r \<and> states_ok r"
proof (cases "tasks_running w")
  case True then show ?thesis using assms by (simp add: RunTasks_def InternalRunTasks_def)
next
  case False
  let ?w = "w\<lparr>tasks_running := True\<rparr>"
  obtain v where v: "run_loop V 0 False ?w = Some v" and r: "r = finish_run (stop_hook V) False (next_task_timeout w) v"
    using run False by (auto simp: RunTasks_def InternalRunTasks_def)
  have "J ?w" "states_ok ?w" using J st same_keeps by (auto simp: states_ok_def)
  then have "J v \<and> states_ok v" using run_loop_keeps [OF v] by blast
  then show ?thesis
    unfolding r using finish_run_keeps stop_invariant.finish_run_keeps [OF states_ok_stop] by blast
qed

end

end
