(* ===== verification/ClientLaws.thy ===== *)
theory ClientLaws
  imports ClientEngine TaskInvariants
begin

text \<open>
  What holds of a client as long as it lives: the handlers registered in the engine are live tasks
  that were not stopped; a task only queues stanzas it asked for and is awake while any are left; an
  \<open>IqTask\<close> signals one outcome at most, and a result only for an answer to its request. The invariant
  \<open>client_inv\<close> is kept by every operation, as programs, and by the framework (\<open>TaskInvariants\<close>).
\<close>

subsection \<open>The invariant\<close>

fun is_iq_event :: "client_event \<Rightarrow> bool" where
  "is_iq_event (IqResult a s) = True"
| "is_iq_event (IqError a e) = True"
| "is_iq_event _ = False"

fun event_task :: "client_event \<Rightarrow> nat" where
  "event_task (IqResult a s) = a"
| "event_task (IqError a e) = a"
| "event_task _ = 0"

definition iq_events :: "'x client \<Rightarrow> client_event list" where
  "iq_events u = filter is_iq_event (cl_events u)"

text \<open>The outcomes that a task has signalled.\<close>

definition outcomes :: "nat \<Rightarrow> 'x client \<Rightarrow> client_event list" where
  "outcomes a u = filter (\<lambda>ev. event_task ev = a) (iq_events u)"

text \<open>An answer to the request of a task, as far as the stanza itself tells.\<close>

definition answers_request :: "xmpp_task \<Rightarrow> xml_element \<Rightarrow> bool" where
  "answers_request x stanza \<longleftrightarrow>
     (case xt_kind x of
        IqKind verb to el \<Rightarrow>
          elt_name stanza = QN_IQ \<and> Attr stanza QN_ID = xt_id x \<and> answer_type stanza
          \<and> (Jid_IsEmpty to \<or> Jid_of_string (Attr stanza QN_FROM) = to)
      | _ \<Rightarrow> True)"

definition handler_set :: "'x client \<Rightarrow> nat set" where
  "handler_set u = (case cl_conn u of None \<Rightarrow> {} | Some c \<Rightarrow> registered (conn_engine c))"

definition task_over :: "'x client_world \<Rightarrow> nat \<Rightarrow> bool" where
  "task_over w a \<longleftrightarrow> (case task_at w a of None \<Rightarrow> True | Some t \<Rightarrow> tk_done t)"

definition sleeps :: "'x client_world \<Rightarrow> nat \<Rightarrow> bool" where
  "sleeps w a \<longleftrightarrow> (case task_at w a of None \<Rightarrow> False | Some t \<Rightarrow> tk_blocked t \<and> \<not> tk_done t)"

definition is_ping :: "xmpp_task \<Rightarrow> bool" where
  "is_ping x = (case xt_kind x of PingKind p t n d \<Rightarrow> True | _ \<Rightarrow> False)"

definition is_iq :: "xmpp_task \<Rightarrow> bool" where
  "is_iq x = (case xt_kind x of IqKind verb to el \<Rightarrow> True | _ \<Rightarrow> False)"

lemma task_updates [simp]:
  "answers_request (x\<lparr>xt_queue := q\<rparr>) = answers_request x" "answers_request (x\<lparr>xt_stopped := b\<rparr>) = answers_request x"
  "is_iq (x\<lparr>xt_queue := q\<rparr>) = is_iq x" "is_iq (x\<lparr>xt_stopped := b\<rparr>) = is_iq x"
  "is_ping (x\<lparr>xt_queue := q\<rparr>) = is_ping x" "is_ping (x\<lparr>xt_stopped := b\<rparr>) = is_ping x"
  by (simp_all add: answers_request_def is_iq_def is_ping_def fun_eq_iff split: task_kind.split)

text \<open>\<open>F\<close> are the tasks whose outcome is out and that are about to end, \<open>E\<close> those about to be woken.\<close>

definition member_ok :: "nat set \<Rightarrow> nat set \<Rightarrow> 'x client_world \<Rightarrow> 'x client \<Rightarrow> nat \<Rightarrow> xmpp_task \<Rightarrow> bool" where
  "member_ok E F w u a x \<longleftrightarrow>
     a < length (heap w)
     \<and> (\<forall>s\<in>set (xt_queue x). answers_request x s)
     \<and> (\<forall>s. IqResult a s \<in> set (iq_events u) \<longrightarrow> answers_request x s \<and> Attr s QN_TYPE = STR_RESULT)
     \<and> length (outcomes a u) \<le> 1
     \<and> (outcomes a u \<noteq> [] \<longrightarrow> is_iq x \<and> (a \<in> F \<or> task_over w a))
     \<and> (a \<notin> E \<longrightarrow> \<not> is_ping x \<longrightarrow> sleeps w a \<longrightarrow> xt_queue x = [])"

definition client_inv :: "nat set \<Rightarrow> nat set \<Rightarrow> 'x client_world \<Rightarrow> 'x client \<Rightarrow> bool" where
  "client_inv E F w u \<longleftrightarrow>
     0 < length (heap w) \<and> cl_members u client_task = None
     \<and> (\<forall>a\<in>handler_set u. task_at w a \<noteq> None \<and> (\<exists>x. cl_members u a = Some x \<and> \<not> xt_stopped x))
     \<and> (\<forall>a. cl_members u a = None \<longrightarrow> outcomes a u = [])
     \<and> (\<forall>a x. cl_members u a = Some x \<longrightarrow> member_ok E F w u a x)"

subsection \<open>Changes that do not matter\<close>

definition calmly :: "'x client \<Rightarrow> 'x client \<Rightarrow> bool" where
  "calmly u u' \<longleftrightarrow>
     cl_members u' = cl_members u \<and> handler_set u' \<subseteq> handler_set u \<and> iq_events u' = iq_events u"

lemma calmly_refl [simp]: "calmly u u"
  by (simp add: calmly_def)

lemma calmly_trans: "calmly u v \<Longrightarrow> calmly v w \<Longrightarrow> calmly u w"
  by (auto simp: calmly_def)

lemma inv_calmly: "client_inv E F w u \<Longrightarrow> calmly u u' \<Longrightarrow> client_inv E F w u'"
  by (simp add: client_inv_def calmly_def outcomes_def member_ok_def subset_iff)

lemma inv_mono: "client_inv E F w u \<Longrightarrow> E \<subseteq> E' \<Longrightarrow> client_inv E' F w u"
  unfolding client_inv_def member_ok_def by blast

lemma inv_evolves:
  assumes inv: "client_inv E F w u" and ev: "evolves w w'"
  shows "client_inv E F w' u"
proof -
  have len: "length (heap w) \<le> length (heap w')" using ev by (simp add: evolves_def)
  have alive: "task_at w' a \<noteq> None" if "task_at w a \<noteq> None" for a
    using evolves_gone [OF ev, of a] task_at_less that by blast
  have over: "task_over w' a" if "task_over w a" "a < length (heap w)" for a
    using that evolves_at [OF ev, of a] by (auto simp: task_over_def task_grows_def split: option.splits)
  have sleep: "sleeps w a" if "sleeps w' a" "a < length (heap w)" for a
    using that evolves_at [OF ev, of a] by (auto simp: sleeps_def task_grows_def split: option.splits)
  have "member_ok E F w' u a x" if "member_ok E F w u a x" for a x
    using that over [of a] sleep [of a] len unfolding member_ok_def by auto
  then show ?thesis
    using inv alive len unfolding client_inv_def by auto
qed

lemma inv_deleted:
  assumes inv: "client_inv E F w u" and gone: "a \<notin> handler_set u"
  shows "client_inv E F (w\<lparr>heap := (heap w)[a := None]\<rparr>) u"
proof -
  let ?w = "w\<lparr>heap := (heap w)[a := None]\<rparr>"
  have over: "task_over ?w b" if "task_over w b" for b
    using that by (simp add: task_over_def task_at_delete)
  have sleep: "sleeps w b" if "sleeps ?w b" for b
    using that by (simp add: sleeps_def task_at_delete split: if_splits)
  have "member_ok E F ?w u b x" if "member_ok E F w u b x" for b x
    using that over sleep unfolding member_ok_def by auto
  then show ?thesis
    using inv gone unfolding client_inv_def by (auto simp: task_at_delete)
qed

subsection \<open>Stopping a task\<close>

lemma handler_set_with [simp]: "cl_conn u = Some c \<Longrightarrow> handler_set (u\<lparr>cl_conn := Some c'\<rparr>) = registered (conn_engine c')"
  by (simp add: handler_set_def)

lemma StopImpl_members:
  "cl_members (StopImpl a u) = (case cl_members u a of None \<Rightarrow> cl_members u
     | Some x \<Rightarrow> (cl_members u)(a \<mapsto> x\<lparr>xt_queue := [], xt_stopped := True\<rparr>))"
  by (simp add: StopImpl_def Let_def crash_def split: option.split)

lemma StopImpl_handlers:
  "handler_set (StopImpl a u) =
     (case cl_members u a of Some x \<Rightarrow> if xt_stopped x then handler_set u else handler_set u - {a} | None \<Rightarrow> handler_set u)"
  by (simp add: StopImpl_def Let_def crash_def handler_set_def remove_handler split: option.split)

lemma StopImpl_iq_events [simp]: "iq_events (StopImpl a u) = iq_events u"
  by (simp add: StopImpl_def Let_def crash_def iq_events_def split: option.split)

lemma inv_StopImpl:
  assumes inv: "client_inv E F w u" shows "client_inv E F w (StopImpl a u)"
proof -
  have stopped: "member_ok E F w (StopImpl a u) b (x\<lparr>xt_queue := [], xt_stopped := True\<rparr>)" if "member_ok E F w u b x" for b x
    using that
    by (simp add: member_ok_def outcomes_def)
  have same: "member_ok E F w (StopImpl a u) b x = member_ok E F w u b x" for b x
    by (simp add: member_ok_def outcomes_def)
  show ?thesis
  proof (cases "cl_members u a")
    case None
    then show ?thesis
      using inv by (simp add: client_inv_def StopImpl_members StopImpl_handlers same) (simp add: outcomes_def)
  next
    case (Some x)
    moreover have "0 < a" using inv Some by (cases a) (auto simp: client_inv_def)
    ultimately show ?thesis
      using inv stopped
      by (auto simp: client_inv_def StopImpl_members StopImpl_handlers same outcomes_def split: if_splits)
  qed
qed

lemma stop_goes: "client_inv E F w u \<Longrightarrow> a \<notin> handler_set (StopImpl a u)"
  by (cases "cl_members u a") (auto simp: StopImpl_handlers client_inv_def)

lemma client_stops: "stop_invariant StopImpl (\<lambda>w. client_inv E F w (user w)) (\<lambda>a u. a \<notin> handler_set u)"
proof unfold_locales
  fix w w' :: "'a client_world" and a b :: nat and u :: "'a client"
  show "client_inv E F w (user w) \<Longrightarrow> evolves w w' \<Longrightarrow> client_inv E F w' (user w')"
    by (metis inv_evolves evolves_def)
  have same: "client_inv E F (w\<lparr>user := v\<rparr>) v' = client_inv E F w v'" for v v'
    by (simp add: client_inv_def member_ok_def task_over_def sleeps_def)
  show "client_inv E F w (user w) \<Longrightarrow> client_inv E F (w\<lparr>user := StopImpl a (user w)\<rparr>) (user (w\<lparr>user := StopImpl a (user w)\<rparr>))"
    by (simp add: same inv_StopImpl)
  show "client_inv E F w (user w) \<Longrightarrow> a \<notin> handler_set (StopImpl a (user w))" by (rule stop_goes)
  show "a \<notin> handler_set u \<Longrightarrow> a \<notin> handler_set (StopImpl b u)"
    by (auto simp: StopImpl_handlers split: option.splits if_splits)
  show "client_inv E F w (user w) \<Longrightarrow> a \<notin> handler_set (user w)
     \<Longrightarrow> client_inv E F (w\<lparr>heap := (heap w)[a := None]\<rparr>) (user (w\<lparr>heap := (heap w)[a := None]\<rparr>))"
    by (simp add: inv_deleted)
qed

lemma inv_heap: "heap w' = heap w \<Longrightarrow> client_inv E F w' u = client_inv E F w u"
  by (simp add: client_inv_def member_ok_def task_over_def sleeps_def task_at_def)

subsection \<open>Calls of the engine\<close>

lemma calmly_note [simp]: "\<not> is_iq_event ev \<Longrightarrow> calmly u (note_event ev u)"
  by (simp add: calmly_def note_event_def iq_events_def handler_set_def)

lemma calmly_fields [simp]:
  "calmly u (u\<lparr>cl_crashed := b\<rparr>)" "calmly u (u\<lparr>cl_socket := b\<rparr>)" "calmly u (u\<lparr>cl_pass := s\<rparr>)"
  "calmly u (u\<lparr>cl_signal_closed := b\<rparr>)" "calmly u (u\<lparr>cl_delivering_signal := b\<rparr>)"
  "calmly u (u\<lparr>pump_state := st\<rparr>)" "calmly u (u\<lparr>pump_listens := b\<rparr>)" "calmly u (u\<lparr>cl_pre_auth := pa\<rparr>)"
  "calmly u (u\<lparr>cl_pre_engine_error := er\<rparr>)" "calmly u (u\<lparr>cl_pre_engine_subcode := i\<rparr>)"
  "calmly u (u\<lparr>cl_captcha := ca\<rparr>)" "calmly u (u\<lparr>cl_auth_mechanism := s\<rparr>)" "calmly u (u\<lparr>cl_auth_token := s\<rparr>)"
  "calmly u (crash u)"
  by (simp_all add: calmly_def iq_events_def handler_set_def crash_def)

lemma calmly_pump [simp]: "calmly u (pump_OnStateChange state u)"
  by (auto simp: pump_OnStateChange_def intro: calmly_trans [OF calmly_fields(6) calmly_note])

lemma calmly_SignalStateChange [simp]: "calmly u (SignalStateChange state u)"
  by (auto simp: SignalStateChange_def Let_def intro: calmly_trans [OF calmly_note calmly_pump])

lemma calmly_EnsureClosed [simp]: "calmly u (EnsureClosed u)"
proof -
  let ?u = "u\<lparr>cl_signal_closed := True, cl_delivering_signal := True\<rparr>"
  have "calmly u ?u" by (rule calmly_trans [OF calmly_fields(4) [of _ True] calmly_fields(5) [of _ True]])
  then have "calmly u ((SignalStateChange STATE_CLOSED ?u)\<lparr>cl_delivering_signal := False\<rparr>)"
    using calmly_trans calmly_SignalStateChange calmly_fields(5) by blast
  then show ?thesis by (simp add: EnsureClosed_def)
qed

lemma wants_answers: "wants_stanza me x stanza \<Longrightarrow> answers_request x stanza"
  by (cases "xt_kind x") (auto simp: wants_stanza_def answers_request_def MatchResponseIq_def MatchStanzaFrom_def Let_def split: if_splits)

lemma inv_queue:
  assumes inv: "client_inv E F w u" and wanted: "\<And>x. cl_members u a = Some x \<Longrightarrow> answers_request x stanza"
  shows "client_inv (insert a E) F w (queue_on a stanza u)"
proof (cases "cl_members u a")
  case None then show ?thesis using inv by (simp add: queue_on_def inv_mono subset_insertI)
next
  case (Some x)
  let ?x = "x\<lparr>xt_queue := xt_queue x @ [copy_element stanza]\<rparr>"
  have m: "member_ok (insert a E) F w u b y" if "member_ok E F w u b y" for b y
    using that by (auto simp: member_ok_def)
  have same: "member_ok E' F w (queue_on a stanza u) b y = member_ok E' F w u b y" for E' b y
    using Some by (simp add: member_ok_def outcomes_def queue_on_def iq_events_def)
  have "member_ok E F w u a x" using inv Some by (simp add: client_inv_def)
  then have "member_ok (insert a E) F w u a ?x"
    using wanted [OF Some] by (auto simp: member_ok_def copy_element_id)
  moreover have "0 < a" using inv Some by (cases a) (auto simp: client_inv_def)
  ultimately show ?thesis
    using inv m unfolding client_inv_def same
    using Some by (auto simp: queue_on_def outcomes_def iq_events_def handler_set_def)
qed

lemma inv_on_call:
  assumes inv: "client_inv E F w u" and r: "on_call c u = (u', ws)"
  shows "client_inv (E \<union> set ws) F w u'"
proof (cases c)
  case (HandleStanza a stanza)
  show ?thesis
  proof (cases "task_wants u (client_jid u) a stanza")
    case True
    then have "client_inv (insert a E) F w (queue_on a stanza u)"
      by (intro inv_queue [OF inv]) (auto simp: task_wants_def intro: wants_answers)
    then show ?thesis using r HandleStanza True by auto
  qed (use r HandleStanza inv in simp)
next
  case (WriteOutput bytes)
  have "calmly u (note_event (SocketWrite bytes) (note_event (LogOutput bytes) u))"
    "calmly u (crash (note_event (LogOutput bytes) u))"
    by (rule calmly_trans [where v = "note_event (LogOutput bytes) u"]; simp)+
  then show ?thesis using r WriteOutput inv_calmly [OF inv] by (auto split: if_splits)
qed (use r in \<open>auto simp: inv_calmly [OF inv] inv_mono [OF inv] subset_insertI split: if_splits
  intro: inv_calmly [OF inv_mono [OF inv]] inv_calmly [OF inv]\<close>)

lemma inv_drain:
  "client_inv E F w u \<Longrightarrow> drain cs u = (u', ws) \<Longrightarrow> client_inv (E \<union> set ws) F w u'"
proof (induction cs arbitrary: E u u' ws)
  case (Cons c cs)
  obtain u1 ws1 where 1: "on_call c u = (u1, ws1)" by (cases "on_call c u")
  obtain u2 ws2 where 2: "drain cs u1 = (u2, ws2)" by (cases "drain cs u1")
  have "client_inv (E \<union> set ws1 \<union> set ws2) F w u2"
    by (rule Cons.IH [OF inv_on_call [OF Cons.prems(1) 1] 2])
  then show ?case using Cons.prems(2) 1 2 by (auto simp: Un_assoc)
qed simp

lemma calmly_conn: "cl_conn u = Some c \<Longrightarrow> registered (conn_engine c') \<subseteq> registered (conn_engine c) \<Longrightarrow>
    calmly u (u\<lparr>cl_conn := Some c'\<rparr>)"
  by (auto simp: calmly_def handler_set_def iq_events_def)

lemma inv_on_engine:
  assumes inv: "client_inv E F w u" and r: "on_engine f u = (u', ws)"
    and f: "\<And>c c'. cl_conn u = Some c \<Longrightarrow> f c = Some c' \<Longrightarrow> registered (conn_engine c') \<subseteq> registered (conn_engine c)"
  shows "client_inv (E \<union> set ws) F w u'"
proof (cases "cl_conn u")
  case None then show ?thesis using inv r by (auto simp: on_engine_def intro: inv_calmly)
next
  case (Some c)
  show ?thesis
  proof (cases "f c")
    case None then show ?thesis using inv r Some by (auto simp: on_engine_def intro: inv_calmly)
  next
    case (Some c')
    have "client_inv E F w (u\<lparr>cl_conn := Some c'\<rparr>)"
      by (rule inv_calmly [OF inv calmly_conn]) (use \<open>cl_conn u = Some c\<close> f Some in auto)
    then show ?thesis using r \<open>cl_conn u = Some c\<close> Some by (auto simp: on_engine_def intro: inv_drain)
  qed
qed

text \<open>The calls that leave the handlers alone.\<close>

fun quiet_call :: "api_call \<Rightarrow> bool" where
  "quiet_call (CallAddStanzaHandler h level) = False"
| "quiet_call (CallRemoveStanzaHandler h) = False"
| "quiet_call _ = True"

lemma quiet_callD: "quiet_call k \<Longrightarrow> (\<forall>h level. k \<noteq> CallAddStanzaHandler h level) \<and> (\<forall>h. k \<noteq> CallRemoveStanzaHandler h)"
  by (cases k) simp_all

lemma conn_quiet:
  "quiet_call k \<Longrightarrow> conn_api x0 k c = Some c' \<Longrightarrow>
    registered (conn_engine c') = registered (conn_engine c)
    \<and> (\<exists>new. eng_trace (conn_engine c') = eng_trace (conn_engine c) @ new \<and> heard new = [])"
  using conn_api_quiet [of x0 k c c'] quiet_callD [of k] by (auto simp: registered_def)

lemma inv_engine_api:
  "client_inv E F w u \<Longrightarrow> quiet_call k \<Longrightarrow> engine_api En k u = (u', ws) \<Longrightarrow> client_inv (E \<union> set ws) F w u'"
  unfolding engine_api_def by (erule inv_on_engine) (auto dest: conn_quiet)

subsection \<open>Programs\<close>

text \<open>
  Each rule goes through the first part of a program; \<open>Q\<close> is what is to be shown of the world and the
  state at its end.
\<close>

abbreviation run :: "'x client_program \<Rightarrow> 'x client_world \<Rightarrow> 'x client_world \<times> task_state" where
  "run p w \<equiv> run_program StopImpl p w"

abbreviation world_inv :: "nat set \<Rightarrow> 'x client_world \<Rightarrow> bool" where
  "world_inv F w \<equiv> client_inv {} F w (user w)"

lemma run_call:
  assumes "client_inv E F w (user w)" "\<And>u. c \<noteq> PutUser u"
    and "\<And>w'. client_inv E F w' (user w') \<Longrightarrow> w' = call StopImpl c w \<Longrightarrow> Q (run (k w') w')"
  shows "Q (run (Call c k) w)"
proof -
  have "client_inv E F (call StopImpl c w) (user (call StopImpl c w))"
    using stop_invariant.call_keeps [OF client_stops] assms(1,2) by blast
  then show ?thesis using assms(3) by (simp add: Let_def)
qed

lemma user_call_Wake [simp]: "user (call StopImpl (CallWake a) w) = user w"
  using evolves_Wake [of "if legal_call (CallWake a) w then w else w\<lparr>misused := True\<rparr>" a]
  by (simp add: call_def evolves_def split: if_splits)

lemma woken: "\<not> sleeps (call StopImpl (CallWake a) w) a"
  by (cases "task_at w a") (auto simp: call_def Wake_def sleeps_def)

lemma inv_awake: "client_inv (insert a E) F w u \<Longrightarrow> \<not> sleeps w a \<Longrightarrow> client_inv E F w u"
  unfolding client_inv_def member_ok_def by auto

lemma run_wake_all:
  assumes "client_inv E F w (user w)" "E \<subseteq> set ws"
    and "\<And>w'. world_inv F w' \<Longrightarrow> user w' = user w \<Longrightarrow> heap_size = length (heap w) \<Longrightarrow> Q (run (k w') w')"
  shows "heap_size = length (heap w) \<Longrightarrow> Q (run (wake_all ws k w) w)"
  using assms
proof (induction ws arbitrary: E w)
  case (Cons a ws)
  let ?w = "call StopImpl (CallWake a) w"
  have "client_inv (insert a (E - {a})) F w (user w)"
    by (rule inv_mono [OF Cons.prems(2)]) auto
  then have i: "client_inv (insert a (E - {a})) F ?w (user ?w)"
    using stop_invariant.call_keeps [OF client_stops] by blast
  have heap: "length (heap ?w) = length (heap w)"
    by (auto simp: call_def Wake_def split: option.split)
  have "Q (run (wake_all ws k ?w) ?w)"
    by (rule Cons.IH [OF _ inv_awake [OF i woken]]) (use Cons.prems heap in auto)
  then show ?case by (simp add: Let_def)
qed (auto intro: inv_mono)

lemma run_put:
  assumes "client_inv (E \<union> set ws) F w u" "E = {}"
    and "\<And>w'. world_inv F w' \<Longrightarrow> user w' = u \<Longrightarrow> Q (run (k w') w')"
  shows "Q (run (put (u, ws) k) w)"
proof -
  let ?w = "call StopImpl (PutUser u) w"
  have w: "?w = w\<lparr>user := u\<rparr>" by (simp add: call_def)
  have "Q (run (wake_all ws k ?w) ?w)"
    by (rule run_wake_all [of "set ws" F ?w ws "length (heap ?w)"])
      (use assms in \<open>simp_all add: w inv_heap [of "w\<lparr>user := u\<rparr>" w]\<close>)
  then show ?thesis by (simp add: put_def Let_def)
qed

lemma run_put_calmly:
  assumes "world_inv F w" "calmly (user w) u"
    and "\<And>w'. world_inv F w' \<Longrightarrow> user w' = u \<Longrightarrow> Q (run (k w') w')"
  shows "Q (run (put (u, []) k) w)"
  by (rule run_put [of "{}" "[]" F]) (use assms in \<open>auto intro: inv_calmly\<close>)

lemma run_put_engine:
  assumes "world_inv F w" "calmly (user w) u" "quiet_call c"
    and "\<And>w'. world_inv F w' \<Longrightarrow> Q (run (k w') w')"
  shows "Q (run (put (engine_api En c u) k) w)"
proof -
  obtain u' ws where r: "engine_api En c u = (u', ws)" by (cases "engine_api En c u")
  have "client_inv ({} \<union> set ws) F w u'"
    by (rule inv_engine_api [OF inv_calmly [OF assms(1,2)] assms(3) r])
  then show ?thesis unfolding r by (rule run_put) (use assms(4) in auto)
qed

lemma run_QueueStanza:
  assumes "world_inv F w" "\<And>x. cl_members (user w) a = Some x \<Longrightarrow> answers_request x stanza"
    and "\<And>w'. world_inv F w' \<Longrightarrow> Q (run (k w') w')"
  shows "Q (run (QueueStanza a stanza k w) w)"
  unfolding QueueStanza_def
  by (rule run_put [of "{}" "[a]" F]) (use assms inv_queue [OF assms(1,2)] in auto)

subsection \<open>The operations\<close>

lemma run_presence:
  assumes inv: "world_inv F w" and k: "\<And>w'. world_inv F w' \<Longrightarrow> Q (run (k w') w')"
  shows "Q (run (presence_op a presence k w) w)"
proof -
  have "Q (run (QueueStanza a e k w) w)" if "is_presence_out (user w) a" for e
    by (rule run_QueueStanza [where Q = Q, OF inv])
      (use that k in \<open>auto simp: is_presence_out_def answers_request_def split: task_kind.splits option.splits\<close>)
  moreover have "Q (run (put (crash (user w), []) k) w)"
    by (rule run_put_calmly [where Q = Q, OF inv]) (use k in simp_all)
  moreover have "Q (run (Call (CallWake a) k) w)"
    by (rule run_call [where Q = Q, OF inv]) (use k in simp_all)
  ultimately show ?thesis
    using k [OF inv] by (simp add: presence_op_def split: option.split)
qed

text \<open>A task that was just built, with its number, becomes a member and a handler.\<close>

lemma inv_new_member:
  assumes inv: "client_inv E F w u" and a: "task_at w a \<noteq> None" "cl_members u a = None" "0 < a"
    and u': "cl_members u' = (cl_members u)(a \<mapsto> new_xmpp_task kind i)" "handler_set u' \<subseteq> insert a (handler_set u)"
      "iq_events u' = iq_events u"
  shows "client_inv E F w u'"
proof -
  have len: "a < length (heap w)" using a(1) task_at_less by blast
  have none: "outcomes a u = []" using inv a by (simp add: client_inv_def)
  then have "IqResult a s \<notin> set (iq_events u)" for s by (auto simp: outcomes_def filter_empty_conv)
  then have new: "member_ok E F w u' a (new_xmpp_task kind i)"
    using none len u'(3) by (auto simp: member_ok_def new_xmpp_task_def outcomes_def)
  have old: "member_ok E F w u' b x = member_ok E F w u b x" for b x
    by (simp add: member_ok_def outcomes_def u'(3))
  have "b \<noteq> a \<Longrightarrow> b \<in> handler_set u' \<Longrightarrow> b \<in> handler_set u" for b using u'(2) by auto
  then show ?thesis
    using inv new old a unfolding client_inv_def by (auto simp: u'(1) outcomes_def u'(3) new_xmpp_task_def)
qed

lemma engine_api_silent:
  assumes "\<And>c c'. cl_conn u = Some c \<Longrightarrow> conn_api (env_start En) k c = Some c' \<Longrightarrow> eng_trace (conn_engine c') = eng_trace (conn_engine c)"
  obtains c' where "engine_api En k u = (u\<lparr>cl_conn := c'\<rparr>, [])"
      "\<And>d'. c' = Some d' \<Longrightarrow> \<exists>d. cl_conn u = Some d \<and> conn_api (env_start En) k d = Some d'"
    | "engine_api En k u = (crash u, [])"
proof (cases "\<exists>c c'. cl_conn u = Some c \<and> conn_api (env_start En) k c = Some c'")
  case True
  then obtain c c' where c: "cl_conn u = Some c" "conn_api (env_start En) k c = Some c'" by blast
  then have "engine_api En k u = (u\<lparr>cl_conn := Some c'\<rparr>, [])"
    using assms [OF c] by (simp add: engine_api_def on_engine_def)
  then show ?thesis using that(1) c by blast
next
  case False
  then have "engine_api En k u = (crash u, [])"
    by (auto simp: engine_api_def on_engine_def split: option.split)
  then show ?thesis by (rule that(2))
qed

lemma next_id_silent: "conn_api x0 CallNextId c = Some c' \<Longrightarrow> eng_trace (conn_engine c') = eng_trace (conn_engine c)"
  by (erule conn_api_engine) (auto simp: NextId_def)

lemma next_id_calmly: "\<exists>u'. engine_api En CallNextId u = (u', []) \<and> calmly u u'"
proof (rule engine_api_silent [of u En CallNextId])
  fix c' assume r: "engine_api En CallNextId u = (u\<lparr>cl_conn := c'\<rparr>, [])"
    and c: "\<And>d'. c' = Some d' \<Longrightarrow> \<exists>d. cl_conn u = Some d \<and> conn_api (env_start En) CallNextId d = Some d'"
  have "handler_set (u\<lparr>cl_conn := c'\<rparr>) \<subseteq> handler_set u"
    using c conn_quiet [of CallNextId] by (cases c') (fastforce simp: handler_set_def)+
  then show ?thesis using r by (auto simp: calmly_def iq_events_def)
qed (auto intro: next_id_silent)

lemma add_handler_effect:
  "\<exists>u'. engine_api En (CallAddStanzaHandler a level) u = (u', [])
     \<and> cl_members u' = cl_members u \<and> iq_events u' = iq_events u \<and> handler_set u' \<subseteq> insert a (handler_set u)"
proof (rule engine_api_silent [of u En "CallAddStanzaHandler a level"])
  fix c' assume r: "engine_api En (CallAddStanzaHandler a level) u = (u\<lparr>cl_conn := c'\<rparr>, [])"
    and c: "\<And>d'. c' = Some d' \<Longrightarrow> \<exists>d. cl_conn u = Some d \<and> conn_api (env_start En) (CallAddStanzaHandler a level) d = Some d'"
  have "handler_set (u\<lparr>cl_conn := c'\<rparr>) \<subseteq> insert a (handler_set u)"
    using c conn_add_handler [of "env_start En" a level] by (cases c') (fastforce simp: handler_set_def)+
  then show ?thesis using r by (auto simp: iq_events_def)
next
  fix c c' assume "conn_api (env_start En) (CallAddStanzaHandler a level) c = Some c'"
  then show "eng_trace (conn_engine c') = eng_trace (conn_engine c)" using conn_add_handler [of "env_start En" a level c c'] by simp
qed (auto simp: iq_events_def crash_def handler_set_def)

lemma constructed:
  "length (heap (call StopImpl (Construct p) w)) = Suc (length (heap w))"
  "task_at (call StopImpl (Construct p) w) (length (heap w)) \<noteq> None"
  "user (call StopImpl (Construct p) w) = user w"
proof -
  have *: "length (heap (construct_task p v)) = Suc (length (heap v))"
    "task_at (construct_task p v) (length (heap v)) \<noteq> None" "user (construct_task p v) = user v" for v :: "'a client_world"
    using evolves_construct [of v p]
    by (auto simp: construct_task_def AddChild_def AddChild_sel task_at_construct evolves_def split: option.split)
  show "length (heap (call StopImpl (Construct p) w)) = Suc (length (heap w))"
    "user (call StopImpl (Construct p) w) = user w"
    by (simp_all add: call_def *)
  show "task_at (call StopImpl (Construct p) w) (length (heap w)) \<noteq> None"
    using *(2) [of w] *(2) [of "w\<lparr>misused := True\<rparr>"] by (simp add: call_def)
qed

lemma run_new_task:
  assumes inv: "world_inv F w" and k: "\<And>w'. world_inv F w' \<Longrightarrow> Q (run (k w') w')"
  shows "Q (run (new_task_prog En parent kind k) w)"
  unfolding new_task_prog_def
proof (rule run_call [where Q = Q, OF inv], simp)
  fix w1 assume i1: "world_inv F w1" and w1: "w1 = call StopImpl (Construct (Some parent)) w"
  let ?a = "length (heap w1) - 1"
  have a: "?a = length (heap w)" "task_at w1 ?a \<noteq> None" and u: "user w1 = user w"
    using constructed [of "Some parent" w] by (simp_all add: w1)
  have free: "cl_members (user w1) ?a = None" "0 < ?a"
    using inv u a(1) by (fastforce simp: client_inv_def member_ok_def)+
  obtain u1 where u1: "engine_api En CallNextId (user w1) = (u1, [])" "calmly (user w1) u1"
    using next_id_calmly by blast
  let ?k = "case kind of IqKind verb to el \<Rightarrow> (\<lambda>_. Call (CallSetTimeout ?a 15) k) | _ \<Rightarrow> k"
  have fin: "Q (run (?k w') w')" if i: "world_inv F w'" for w'
  proof (cases kind)
    case (IqKind verb to el)
    have "Q (run (Call (CallSetTimeout ?a 15) k) w')"
      by (rule run_call [where Q = Q, OF i]) (use k in auto)
    then show ?thesis using IqKind by simp
  qed (use k i in auto)
  have crashed: "Q (run (put (crash (user w1), []) k) w1)"
    by (rule run_put_calmly [where Q = Q, OF i1]) (use k in auto)
  have "Q (run (let (u1, ws1) = engine_api En CallNextId (user w1);
         u2 = u1\<lparr>cl_members := (cl_members u1)(?a \<mapsto> new_xmpp_task kind (fst (NextId e)))\<rparr>;
         (u3, ws3) = engine_api En (CallAddStanzaHandler ?a (kind_level kind)) u2 in put (u3, ws1 @ ws3) ?k) w1)" for e
  proof -
    let ?u2 = "u1\<lparr>cl_members := (cl_members u1)(?a \<mapsto> new_xmpp_task kind (fst (NextId e)))\<rparr>"
    obtain u3 where u3: "engine_api En (CallAddStanzaHandler ?a (kind_level kind)) ?u2 = (u3, [])"
      "cl_members u3 = cl_members ?u2" "iq_events u3 = iq_events ?u2" "handler_set u3 \<subseteq> insert ?a (handler_set ?u2)"
      using add_handler_effect by blast
    have "client_inv {} F w1 u3"
    proof (rule inv_new_member [OF i1 a(2) free])
      show "cl_members u3 = (cl_members (user w1))(?a \<mapsto> new_xmpp_task kind (fst (NextId e)))"
        "handler_set u3 \<subseteq> insert ?a (handler_set (user w1))" "iq_events u3 = iq_events (user w1)"
        using u3 u1(2) by (auto simp: calmly_def iq_events_def handler_set_def)
    qed
    then have "Q (run (put (u3, []) ?k) w1)"
      by (intro run_put [where Q = Q and E = "{}" and F = F]) (use fin in auto)
    then show ?thesis by (simp only: u1(1) u3(1) Let_def prod.case append_Nil)
  qed
  then show "Q (run (let a = length (heap w1) - 1; u = user w1
      in case cl_engine u of
           None \<Rightarrow> put (crash u, []) k
         | Some e \<Rightarrow> let (u1, ws1) = engine_api En CallNextId u;
               u2 = u1\<lparr>cl_members := (cl_members u1)(a \<mapsto> new_xmpp_task kind (fst (NextId e)))\<rparr>;
               (u3, ws3) = engine_api En (CallAddStanzaHandler a (kind_level kind)) u2
             in put (u3, ws1 @ ws3)
                 (case kind of IqKind verb to el \<Rightarrow> (\<lambda>_. Call (CallSetTimeout a 15) k) | _ \<Rightarrow> k)) w1)"
    using crashed by (cases "cl_engine (user w1)") (simp_all only: Let_def option.case)
qed

lemma run_Disconnect:
  fixes w :: "'x client_world"
  assumes inv: "world_inv F w" and k: "\<And>w'. world_inv F w' \<Longrightarrow> Q (run (k w') w')"
  shows "Q (run (client_Disconnect En k w) w)"
proof (cases "cl_socket (user w)")
  case True
  have "Q (run (Call (CallAbort 0 False) (\<lambda>w1. put (engine_api En CallDisconnect (user w1))
      (\<lambda>w2. put (user w2\<lparr>cl_socket := False\<rparr>, []) k))) w)"
  proof (rule run_call [where Q = Q, OF inv])
    fix w1 :: "'x client_world" assume i1: "world_inv F w1"
    show "Q (run (put (engine_api En CallDisconnect (user w1)) (\<lambda>w2. put (user w2\<lparr>cl_socket := False\<rparr>, []) k)) w1)"
    proof (rule run_put_engine [where Q = Q, OF i1])
      fix w2 :: "'x client_world" assume i2: "world_inv F w2"
      show "Q (run (put (user w2\<lparr>cl_socket := False\<rparr>, []) k) w2)"
        by (rule run_put_calmly [where Q = Q, OF i2]) (use k in auto)
    qed simp_all
  qed simp
  then show ?thesis using True by (simp only: client_Disconnect_def not_True_eq_False if_False)
qed (use k [OF inv] in \<open>simp add: client_Disconnect_def\<close>)

lemma run_read_loop:
  assumes inv: "world_inv F w" and k: "\<And>w'. world_inv F w' \<Longrightarrow> Q (run (k w') w')"
  shows "Q (run (read_loop En reads k w) w)"
  using inv
proof (induction reads arbitrary: w)
  case Nil then show ?case by (simp add: k)
next
  case (Cons bytes rest)
  let ?u = "note_event (LogInput bytes) (user w)"
  let ?f = "\<lambda>c. map_option snd (HandleInput (env_feed En) (env_start En) (client_app ?u) bytes c)"
  obtain u' ws where r: "on_engine ?f ?u = (u', ws)" by (cases "on_engine ?f ?u")
  have "client_inv ({} \<union> set ws) F w u'"
    by (rule inv_on_engine [OF inv_calmly [OF Cons.prems] r]) (use input_offers in \<open>fastforce simp: registered_def\<close>)+
  then have "Q (run (put (u', ws) (read_loop En rest k)) w)"
    by (rule run_put [where Q = Q]) (use Cons.IH in auto)
  then show ?case using r k [OF Cons.prems] by (simp add: Let_def)
qed

lemma handler_set_connected:
  "handler_set (snd (client_Connect En cs lang socket auth u)) \<subseteq> handler_set u"
  by (auto simp: client_Connect_def crash_def handler_set_def connected_registered split: option.splits)

lemma calmly_Connect: "calmly u (snd (client_Connect En cs lang socket auth u))"
  using handler_set_connected [of En cs lang socket auth u]
  by (auto simp: calmly_def client_Connect_def crash_def iq_events_def split: option.split)

lemma run_op:
  fixes w :: "'x client_world"
  assumes inv: "world_inv F w" and k: "\<And>w'. world_inv F w' \<Longrightarrow> Q (run (k w') w')"
  shows "Q (run (op_prog En ev k w) w)"
proof -
  have call: "Q (run (Call c k) w)" if "\<And>u. c \<noteq> PutUser u" for c
    by (rule run_call [where Q = Q, OF inv that]) (use k in auto)
  have engine: "Q (run (put (engine_api En c (user w)) k) w)" if "quiet_call c" for c
    by (rule run_put_engine [where Q = Q, OF inv]) (use that k in auto)
  have pump: "Q (run (put (pump_OnStateChange st (user v), []) k) v)" if "world_inv F v" for v st
    by (rule run_put_calmly [where Q = Q, OF that]) (use k in auto)
  have login: "Q (run (put (pump_OnStateChange STATE_START (user w), []) (\<lambda>w1.
            if AllChildrenDone None w1 then k w1
            else put (snd (client_Connect En cs [] socket auth ((user w1)\<lparr>pump_listens := True\<rparr>)), []) (\<lambda>_.
              Call (CallStart client_task) k))) w)" for cs socket auth
  proof (rule run_put_calmly [where Q = Q, OF inv], simp)
    fix w1 :: "'x client_world" assume i1: "world_inv F w1"
    let ?u = "(user w1)\<lparr>pump_listens := True\<rparr>"
    have "Q (run (put (snd (client_Connect En cs [] socket auth ?u), []) (\<lambda>_. Call (CallStart client_task) k)) w1)"
    proof (rule run_put_calmly [where Q = Q, OF i1])
      show "calmly (user w1) (snd (client_Connect En cs [] socket auth ?u))"
        by (rule calmly_trans [OF calmly_fields(7) calmly_Connect])
      fix w2 :: "'x client_world" assume i2: "world_inv F w2"
      show "Q (run (Call (CallStart client_task) k) w2)"
        by (rule run_call [where Q = Q, OF i2]) (use k in auto)
    qed
    then show "Q (run (if AllChildrenDone None w1 then k w1
        else put (snd (client_Connect En cs [] socket auth ?u), []) (\<lambda>_. Call (CallStart client_task) k)) w1)"
      using k [OF i1] by simp
  qed
  have auth: "Q (run (put (if cl_pre_auth (user w) = None then user w else (user w)\<lparr>cl_pre_auth := Some pa\<rparr>, []) k) w)" for pa
    by (rule run_put_calmly [where Q = Q, OF inv]) (use k in auto)
  have logout: "Q (run (client_Disconnect En (\<lambda>w1. put (pump_OnStateChange STATE_CLOSED (user w1), []) k) w) w)"
    by (rule run_Disconnect [where Q = Q, OF inv]) (use pump in auto)
  show ?thesis
    using call engine pump [OF inv] login auth logout k [OF inv]
      run_new_task [where Q = Q, OF inv k] run_presence [where Q = Q, OF inv k] run_read_loop [where Q = Q, OF inv k]
    by (cases ev) (simp_all add: op_prog_def Let_def)
qed

lemma run_ops:
  fixes w :: "'x client_world"
  assumes "world_inv F w" "\<And>w'. world_inv F w' \<Longrightarrow> Q (run (k w') w')"
  shows "Q (run (op_progs En evs k w) w)"
  using assms
proof (induction evs arbitrary: w)
  case (Cons ev evs)
  have "Q (run (op_prog En ev (op_progs En evs k) w) w)"
    by (rule run_op [where Q = Q, OF Cons.prems(1)]) (use Cons in auto)
  then show ?case by simp
qed simp

subsection \<open>Signals\<close>

lemma run_emit:
  fixes w :: "'x client_world"
  assumes inv: "client_inv {} F w (note_event ev u)"
    and k: "\<And>w'. world_inv F w' \<Longrightarrow> Q (run (k w') w')"
  shows "Q (run (emit En ev u k) w)"
  unfolding emit_def
  by (rule run_put [where Q = Q and E = "{}" and F = F]) (use inv run_ops [where Q = Q, OF _ k] in auto)

text \<open>The outcome of an iq task is out: the task has to end.\<close>

lemma inv_outcome:
  assumes inv: "client_inv E F w u" and x: "cl_members u a = Some x" "is_iq x" and first: "outcomes a u = []"
    and ev: "is_iq_event ev" "event_task ev = a"
    and answer: "\<And>s. ev = IqResult a s \<Longrightarrow> answers_request x s \<and> Attr s QN_TYPE = STR_RESULT"
  shows "client_inv E (insert a F) w (note_event ev u)"
proof -
  have n: "iq_events (note_event ev u) = iq_events u @ [ev]" "cl_members (note_event ev u) = cl_members u"
    "handler_set (note_event ev u) = handler_set u"
    using ev by (simp_all add: iq_events_def note_event_def handler_set_def)
  have o: "outcomes b (note_event ev u) = outcomes b u @ (if b = a then [ev] else [])" for b
    using ev by (auto simp: outcomes_def n)
  have "member_ok E (insert a F) w (note_event ev u) b y" if "member_ok E F w u b y" "cl_members u b = Some y" for b y
    using that x first answer ev(2) unfolding member_ok_def n o by auto
  then show ?thesis
    using inv x unfolding client_inv_def n o by auto
qed

text \<open>What the step leaves behind: a task that is done, or one that waits with an empty queue.\<close>

lemma inv_done:
  assumes "client_inv E F w (user w)" "F \<subseteq> {a}"
  shows "client_inv E {} (on_task a (\<lambda>t. t\<lparr>tk_done := True\<rparr>) w) (user w)"
proof -
  let ?w = "on_task a (\<lambda>t. t\<lparr>tk_done := True\<rparr>) w"
  have i: "client_inv E F ?w (user w)"
    by (rule inv_evolves [OF assms(1) evolves_on_task]) simp
  have "task_over ?w a" by (cases "task_at w a") (simp_all add: task_over_def)
  then show ?thesis using i assms(2) unfolding client_inv_def member_ok_def by blast
qed

lemma inv_blocked:
  assumes inv: "client_inv E {} w u" and empty: "\<And>x. cl_members u a = Some x \<Longrightarrow> is_ping x \<or> xt_queue x = []"
  shows "client_inv E {} (on_task a (\<lambda>t. t\<lparr>tk_blocked := True\<rparr>) w) u"
proof -
  let ?w = "on_task a (\<lambda>t. t\<lparr>tk_blocked := True\<rparr>) w"
  have over: "task_over ?w b = task_over w b" for b
    by (cases "task_at w b") (auto simp: task_over_def)
  have sleep: "sleeps ?w b \<longleftrightarrow> sleeps w b" if "b \<noteq> a" for b using that by (simp add: sleeps_def)
  have "member_ok E {} ?w u b x" if "member_ok E {} w u b x" "cl_members u b = Some x" for b x
    using that empty [of x] sleep [of b] by (cases "b = a") (auto simp: member_ok_def over)
  then show ?thesis using inv unfolding client_inv_def by auto
qed

definition step_result :: "nat \<Rightarrow> 'x client_world \<times> task_state \<Rightarrow> bool" where
  "step_result a r \<longleftrightarrow> world_inv {} (mark_result a (snd r) (fst r))"

lemma step_result_going:
  "world_inv {} w \<Longrightarrow> s \<noteq> TASK_BLOCKED \<Longrightarrow> step_result a (w, s)"
  using inv_done [of "{}" "{}" w a] by (simp add: step_result_def mark_result_def)

lemma step_result_done:
  "world_inv F w \<Longrightarrow> F \<subseteq> {a} \<Longrightarrow> s = TASK_DONE \<or> s = TASK_ERROR \<Longrightarrow> step_result a (w, s)"
  using inv_done [of "{}" F w a] by (auto simp: step_result_def mark_result_def)

lemma step_result_blocked:
  "world_inv {} w \<Longrightarrow> (\<And>x. cl_members (user w) a = Some x \<Longrightarrow> is_ping x \<or> xt_queue x = []) \<Longrightarrow>
   step_result a (w, TASK_BLOCKED)"
  using inv_blocked [of "{}" w "user w" a] by (simp add: step_result_def mark_result_def)

subsection \<open>The steps of the tasks\<close>

lemma inv_member_update:
  assumes inv: "client_inv E F w u" and x: "cl_members u a = Some x"
    and y: "set (xt_queue y) \<subseteq> set (xt_queue x)" "answers_request y = answers_request x" "is_iq y = is_iq x" "is_ping y = is_ping x"
      "xt_stopped y = xt_stopped x"
  shows "client_inv E F w (u\<lparr>cl_members := (cl_members u)(a \<mapsto> y)\<rparr>)"
proof -
  have same: "member_ok E F w (u\<lparr>cl_members := m\<rparr>) b z = member_ok E F w u b z" for m b z
    by (simp add: member_ok_def outcomes_def iq_events_def)
  have m: "member_ok E F w u a x" using inv x by (simp add: client_inv_def)
  have "xt_queue x = [] \<Longrightarrow> xt_queue y = []" using y(1) by (cases "xt_queue y") auto
  then have new: "member_ok E F w u a y" using m y by (auto simp: member_ok_def)
  have "0 < a" using inv x by (cases a) (auto simp: client_inv_def)
  then show ?thesis
    using inv new x y(5) unfolding client_inv_def same by (auto simp: outcomes_def iq_events_def handler_set_def)
qed

lemma next_stanza_inv:
  assumes inv: "client_inv E F w u" and r: "next_stanza a u = (s, u1)"
  shows "client_inv E F w u1" and "iq_events u1 = iq_events u"
    and "cl_members u a = Some x \<Longrightarrow> \<exists>q. cl_members u1 a = Some (x\<lparr>xt_queue := q\<rparr>)"
    and "s = Some stanza \<Longrightarrow> cl_members u a = Some x \<Longrightarrow> answers_request x stanza"
    and "s = None \<Longrightarrow> cl_members u a = Some x \<Longrightarrow> xt_queue x = []"
proof -
  have all: "client_inv E F w u1 \<and> iq_events u1 = iq_events u \<and> (\<forall>x. cl_members u a = Some x \<longrightarrow>
      (\<exists>q. cl_members u1 a = Some (x\<lparr>xt_queue := q\<rparr>)) \<and> (case s of None \<Rightarrow> xt_queue x = [] | Some st \<Rightarrow> answers_request x st))"
  proof (cases "cl_members u a")
    case None then show ?thesis using inv r by (simp add: next_stanza_def)
  next
    case (Some x)
    have ok: "\<forall>s\<in>set (xt_queue x). answers_request x s" using inv Some by (simp add: client_inv_def member_ok_def)
    show ?thesis
    proof (cases "xt_queue x")
      case Nil
      then have u1: "s = None" "u1 = u\<lparr>cl_members := (cl_members u)(a \<mapsto> x)\<rparr>"
        using r Some by (auto simp: next_stanza_def task_NextStanza_def)
      have "x\<lparr>xt_queue := []\<rparr> = x" using Nil by (cases x) simp
      moreover have "client_inv E F w u1" unfolding u1(2) by (rule inv_member_update [OF inv Some]) simp_all
      ultimately show ?thesis using Some Nil u1 by (auto simp: iq_events_def intro: exI [of _ "[]"])
    next
      case (Cons st q)
      then have u1: "s = Some st" "u1 = u\<lparr>cl_members := (cl_members u)(a \<mapsto> x\<lparr>xt_queue := q\<rparr>)\<rparr>"
        using r Some by (auto simp: next_stanza_def task_NextStanza_def)
      have "client_inv E F w u1"
        unfolding u1(2) by (rule inv_member_update [OF inv Some]) (use Cons in auto)
      then show ?thesis using Some Cons u1 ok by (auto simp: iq_events_def)
    qed
  qed
  show "client_inv E F w u1" and "iq_events u1 = iq_events u"
    and "cl_members u a = Some x \<Longrightarrow> \<exists>q. cl_members u1 a = Some (x\<lparr>xt_queue := q\<rparr>)"
    and "s = Some stanza \<Longrightarrow> cl_members u a = Some x \<Longrightarrow> answers_request x stanza"
    and "s = None \<Longrightarrow> cl_members u a = Some x \<Longrightarrow> xt_queue x = []"
    using all by auto
qed

lemma send_inv:
  assumes inv: "client_inv E F w u" and r: "task_SendStanza En a stanza u = (st, u', ws)"
  shows "client_inv (E \<union> set ws) F w u'"
proof -
  have "client_inv (E \<union> set ws) F w u'" if "engine_api En (CallSendStanza stanza) u = (u', ws)"
    by (rule inv_engine_api [OF inv _ that]) simp
  then show ?thesis
    using inv r by (auto simp: task_SendStanza_def split: option.splits if_splits intro: inv_calmly)
qed

lemma run_send:
  assumes "client_inv {} F w u"
    and "\<And>st w'. world_inv F w' \<Longrightarrow> Q (run (k st w') w')"
  shows "Q (run (let (status, r) = task_SendStanza En a stanza u in put r (k status)) w)"
proof -
  obtain st u' ws where r: "task_SendStanza En a stanza u = (st, u', ws)" by (cases "task_SendStanza En a stanza u") auto
  have "Q (run (put (u', ws) (k st)) w)"
    by (rule run_put [where Q = Q and E = "{}" and F = F]) (use send_inv [OF assms(1) r] assms(2) in auto)
  then show ?thesis using r by simp
qed

lemma inv_set_ping:
  assumes inv: "client_inv E F w u" and x: "\<And>x. cl_members u a = Some x \<Longrightarrow> is_ping x"
  shows "client_inv E F w (set_kind a (PingKind p t n d) u)"
proof (cases "cl_members u a")
  case (Some y)
  have "is_ping y" using x Some by simp
  then show ?thesis
    unfolding set_kind_def Some option.case
    by (intro inv_member_update [OF inv Some])
      (auto simp: is_ping_def is_iq_def answers_request_def fun_eq_iff split: task_kind.splits)
qed (use inv in \<open>simp add: set_kind_def\<close>)

lemma set_kind_member: "cl_members (set_kind a (PingKind p t n d) u) a = Some x \<Longrightarrow> is_ping x"
  by (auto simp: set_kind_def is_ping_def split: option.splits)

text \<open>A call to the engine keeps the classes of the tasks.\<close>

definition kinds :: "'x client \<Rightarrow> nat \<Rightarrow> task_kind option" where
  "kinds u a = map_option xt_kind (cl_members u a)"

lemma kinds_on_call: "kinds (fst (on_call c u)) = kinds u"
proof (cases c)
  case (OnStateChange st)
  have "cl_members (EnsureClosed u) = cl_members u" "cl_members (SignalStateChange st u) = cl_members u"
    using calmly_EnsureClosed calmly_SignalStateChange by (auto simp: calmly_def)
  then show ?thesis using OnStateChange by (simp add: kinds_def fun_eq_iff)
qed (auto simp: kinds_def fun_eq_iff note_event_def crash_def queue_on_def split: option.split)

lemma kinds_drain: "kinds (fst (drain cs u)) = kinds u"
proof (induction cs arbitrary: u)
  case (Cons c cs)
  show ?case using Cons [of "fst (on_call c u)"] kinds_on_call [of c u] by (simp add: case_prod_unfold Let_def)
qed simp

lemma kinds_on_engine: "kinds (fst (on_engine f u)) = kinds u"
proof -
  have "kinds (u\<lparr>cl_conn := c\<rparr>) = kinds u" for c by (simp add: kinds_def fun_eq_iff)
  then show ?thesis
    by (simp add: on_engine_def kinds_drain crash_def split: option.split) (simp add: kinds_def fun_eq_iff)
qed

lemma kinds_send: "task_SendStanza En a stanza u = (st, u', ws) \<Longrightarrow> kinds u' = kinds u"
  using kinds_on_engine [of "conn_api (env_start En) (CallSendStanza stanza)" u]
  by (auto simp: task_SendStanza_def engine_api_def crash_def kinds_def fun_eq_iff split: option.splits if_splits)

lemma ping_step:
  assumes inv: "world_inv {} w" and x: "\<And>x. cl_members (user w) a = Some x \<Longrightarrow> is_ping x"
  shows "step_result a (run (ping_ProcessStart En a i period timeout next_ping deadline0 w) w)"
proof (cases "period < timeout")
  case True
  then show ?thesis using step_result_done [of "{}" w a TASK_ERROR] inv by (simp add: ping_ProcessStart_def)
next
  case False
  obtain s u1 where 1: "next_stanza a (user w) = (s, u1)" by (cases "next_stanza a (user w)")
  let ?deadline = "if s \<noteq> None then 0 else deadline0"
  let ?u2 = "set_kind a (PingKind period timeout next_ping ?deadline) u1"
  let ?now = "word_of_int (clock w) :: 32 word"
  have p1: "is_ping y" if "cl_members u1 a = Some y" for y
  proof (cases "cl_members (user w) a")
    case None then show ?thesis using that 1 by (simp add: next_stanza_def)
  next
    case (Some z)
    then obtain q where "cl_members u1 a = Some (z\<lparr>xt_queue := q\<rparr>)" using next_stanza_inv(3) [OF inv 1 Some] by blast
    then show ?thesis using that x [OF Some] by auto
  qed
  have i2: "client_inv {} {} w ?u2" by (rule inv_set_ping [OF next_stanza_inv(1) [OF inv 1] p1])
  have late: "step_result a (run (emit En (PingTimeout a) ?u2 (\<lambda>_. Return TASK_ERROR)) w)"
    by (rule run_emit [where F = "{}"])
      (use i2 step_result_done [of "{}"] in \<open>auto intro: inv_calmly\<close>)
  have wait: "step_result a (run (put (?u2, []) (\<lambda>_. Return TASK_BLOCKED)) w)"
    by (rule run_put [where E = "{}" and F = "{}"])
      (use i2 set_kind_member in \<open>auto intro!: step_result_blocked\<close>)
  have send: "step_result a (run (let (status, u3, ws) = task_SendStanza En a (ping_request i) ?u2 in
      put (note_event (PostDelayed a period) (note_event (PostDelayed a timeout)
             (set_kind a (PingKind period timeout (?now + period) (?now + timeout)) u3)), ws)
        (\<lambda>_. Return TASK_BLOCKED)) w)"
  proof -
    obtain st u3 ws where r: "task_SendStanza En a (ping_request i) ?u2 = (st, u3, ws)"
      by (cases "task_SendStanza En a (ping_request i) ?u2") auto
    let ?u4 = "set_kind a (PingKind period timeout (?now + period) (?now + timeout)) u3"
    let ?u5 = "note_event (PostDelayed a period) (note_event (PostDelayed a timeout) ?u4)"
    have "is_ping y" if "cl_members u3 a = Some y" for y
    proof -
      have "kinds ?u2 a = Some (xt_kind y)" using kinds_send [OF r] that by (metis kinds_def option.simps(9))
      then obtain z where z: "cl_members ?u2 a = Some z" "xt_kind z = xt_kind y" by (auto simp: kinds_def)
      have "is_ping z" by (rule set_kind_member [OF z(1)])
      then show ?thesis using z(2) by (simp add: is_ping_def)
    qed
    then have "client_inv ({} \<union> set ws) {} w ?u4" by (intro inv_set_ping send_inv [OF i2 r])
    then have i5: "client_inv ({} \<union> set ws) {} w ?u5"
      by (rule inv_calmly) (auto intro: calmly_trans [OF calmly_note calmly_note])
    have "step_result a (run (put (?u5, ws) (\<lambda>_. Return TASK_BLOCKED)) w)"
    proof (rule run_put [OF i5])
      fix w' assume w': "world_inv {} w'" "user w' = ?u5"
      then show "step_result a (run (Return TASK_BLOCKED) w')"
        using set_kind_member [of a] by (auto intro!: step_result_blocked simp: note_event_def)
    qed simp
    then show ?thesis by (simp only: r Let_def prod.case)
  qed
  have "ping_ProcessStart En a i period timeout next_ping deadline0 w =
      (if ?deadline \<noteq> 0 \<and> ?now \<ge> ?deadline then emit En (PingTimeout a) ?u2 (\<lambda>_. Return TASK_ERROR)
       else if ?now \<ge> next_ping then
         (let (status, u3, ws) = task_SendStanza En a (ping_request i) ?u2 in
          put (note_event (PostDelayed a period) (note_event (PostDelayed a timeout)
                 (set_kind a (PingKind period timeout (?now + period) (?now + timeout)) u3)), ws)
            (\<lambda>_. Return TASK_BLOCKED))
       else put (?u2, []) (\<lambda>_. Return TASK_BLOCKED))"
    using False by (simp only: ping_ProcessStart_def 1 Let_def prod.case if_False)
  then show ?thesis using late wait send by (simp only: split: if_split) blast
qed

lemma task_step:
  assumes inv: "world_inv {} w" shows "step_result a (run (task_ProcessStart En a w) w)"
proof (cases "cl_members (user w) a")
  case None then show ?thesis using step_result_done [OF inv, of a TASK_DONE] by (simp add: task_ProcessStart_def)
next
  case x: (Some x)
  obtain s u1 where 1: "next_stanza a (user w) = (s, u1)" by (cases "next_stanza a (user w)")
  note n = next_stanza_inv [OF inv 1]
  have sleep: "step_result a (w, TASK_BLOCKED)" if "s = None"
    using step_result_blocked [OF inv] n(5) [OF that] by blast
  have go: "step_result a (run (emit En ev u1 (\<lambda>_. Return TASK_START)) w)" if "\<not> is_iq_event ev" for ev
    by (rule run_emit [where F = "{}"])
      (use that in \<open>auto intro: inv_calmly [OF n(1)] step_result_going\<close>)
  have silent: "step_result a (run (put (u1, []) (\<lambda>_. Return TASK_START)) w)"
    by (rule run_put [where E = "{}" and F = "{}"]) (use n(1) in \<open>auto intro: step_result_going\<close>)
  have request: "step_result a (run (let (status, r) = task_SendStanza En a st (user w) in
      put r (\<lambda>_. Return (if status = XMPP_RETURN_OK then TASK_RESPONSE else TASK_ERROR))) w)" for st
    by (rule run_send [where Q = "step_result a" and k = "\<lambda>status _. Return (if status = XMPP_RETURN_OK then TASK_RESPONSE else TASK_ERROR)", OF inv])
      (auto intro: step_result_going)
  have out: "step_result a (run (let (status, r) = task_SendStanza En a st u1 in
      put r (\<lambda>_. Return (if status \<noteq> XMPP_RETURN_OK then TASK_ERROR else TASK_START))) w)" for st
    by (rule run_send [where Q = "step_result a" and k = "\<lambda>status _. Return (if status \<noteq> XMPP_RETURN_OK then TASK_ERROR else TASK_START)", OF n(1)])
      (auto intro: step_result_going)
  show ?thesis
  proof (cases "xt_kind x")
    case (PingKind p t nx d)
    then show ?thesis
      using ping_step [OF inv, of a] x by (simp add: task_ProcessStart_def is_ping_def)
  qed (use x 1 sleep go silent request out in \<open>auto simp: task_ProcessStart_def split: option.split\<close>)
qed

lemma no_outcome_yet:
  assumes "world_inv {} w" "task_at w a = Some t" "\<not> tk_done t"
  shows "outcomes a (user w) = []"
proof (cases "cl_members (user w) a")
  case (Some x)
  then have "member_ok {} {} w (user w) a x" using assms(1) by (simp add: client_inv_def)
  then show ?thesis using assms(2,3) by (auto simp: member_ok_def task_over_def)
qed (use assms(1) in \<open>simp add: client_inv_def\<close>)

lemma iq_task_member: "is_iq_task a u \<Longrightarrow> \<exists>x. cl_members u a = Some x \<and> is_iq x"
  by (auto simp: is_iq_task_def is_iq_def split: option.splits)

lemma response_step:
  assumes inv: "world_inv {} w" and t: "task_at w a = Some t" "\<not> tk_done t" and iq: "is_iq_task a (user w)"
  shows "step_result a (run (iq_ProcessResponse En a w) w)"
proof -
  obtain s u1 where 1: "next_stanza a (user w) = (s, u1)" by (cases "next_stanza a (user w)")
  obtain x where x: "cl_members (user w) a = Some x" "is_iq x" using iq_task_member [OF iq] by blast
  note n = next_stanza_inv [OF inv 1]
  obtain q where q: "cl_members u1 a = Some (x\<lparr>xt_queue := q\<rparr>)" using n(3) [OF x(1)] by blast
  have first: "outcomes a u1 = []" using no_outcome_yet [OF inv t] n(2) by (simp add: outcomes_def)
  have signal: "step_result a (run (emit En ev u1 (\<lambda>_. Return TASK_DONE)) w)"
    if "is_iq_event ev" "event_task ev = a" "\<And>st. ev = IqResult a st \<Longrightarrow> answers_request x st \<and> Attr st QN_TYPE = STR_RESULT" for ev
  proof (rule run_emit [where F = "insert a {}"])
    show "client_inv {} (insert a {}) w (note_event ev u1)"
      by (rule inv_outcome [OF n(1) q]) (use x(2) first that in auto)
  qed (auto intro: step_result_done)
  show ?thesis
  proof (cases s)
    case None
    then show ?thesis using step_result_blocked [OF inv] n(5) [OF None] by (simp add: iq_ProcessResponse_def 1)
  next
    case (Some st)
    have "answers_request x st" by (rule n(4) [OF Some x(1)])
    then have "Attr st QN_TYPE = STR_RESULT \<Longrightarrow> step_result a (run (emit En (IqResult a st) u1 (\<lambda>_. Return TASK_DONE)) w)"
      and "step_result a (run (emit En (IqError a (FirstNamed st QN_ERROR)) u1 (\<lambda>_. Return TASK_DONE)) w)"
      by (auto intro!: signal)
    then show ?thesis using Some by (simp add: iq_ProcessResponse_def 1)
  qed
qed

lemma timeout_step:
  assumes inv: "world_inv {} w" and t: "task_at w a = Some t" "\<not> tk_done t" and iq: "is_iq_task a (user w)"
  shows "step_result a (run (emit En (IqError a None) (user w) (\<lambda>_. Return TASK_DONE)) w)"
proof (rule run_emit [where F = "insert a {}"])
  obtain x where x: "cl_members (user w) a = Some x" "is_iq x" using iq_task_member [OF iq] by blast
  show "client_inv {} (insert a {}) w (note_event (IqError a None) (user w))"
    by (rule inv_outcome [OF inv x no_outcome_yet [OF inv t]]) simp_all
qed (auto intro: step_result_done)

subsection \<open>The steps of the client\<close>

lemma client_member: "world_inv F w \<Longrightarrow> cl_members (user w) 0 = None"
  by (simp add: client_inv_def)

lemma client_waits:
  assumes inv: "world_inv {} w" shows "step_result 0 (w, TASK_BLOCKED)"
  by (rule step_result_blocked [OF inv]) (use client_member [OF inv] in simp)

lemma client_start_step:
  fixes w :: "'x client_world"
  assumes inv: "world_inv {} w" shows "step_result 0 (run (client_ProcessStart En w) w)"
proof -
  have clear: "step_result 0 (run (put ((user w1)\<lparr>cl_pass := []\<rparr>, []) (\<lambda>_. Return (TASK_NEXT n))) w1)"
    if "world_inv {} w1" for w1 :: "'x client_world" and n
    by (rule run_put_calmly [OF that]) (auto intro: step_result_going)
  have "step_result 0 (run (put (engine_api En (CallSetSaslHandler h) (user w))
      (\<lambda>w1. put ((user w1)\<lparr>cl_pass := []\<rparr>, []) (\<lambda>_. Return (TASK_NEXT 1)))) w)" for h
    by (rule run_put_engine [OF inv]) (auto intro: clear)
  moreover have "step_result 0 (run (emit En (PreAuthStarted j sv po pw me tk) (user w)
      (\<lambda>w1. put ((user w1)\<lparr>cl_pass := []\<rparr>, []) (\<lambda>_. Return (TASK_NEXT 0)))) w)" for j sv po pw me tk
    by (rule run_emit [where F = "{}"]) (auto intro: clear inv_calmly [OF inv])
  moreover have "step_result 0 (run (put (crash (user w), []) (\<lambda>_. Return TASK_DONE)) w)"
    by (rule run_put_calmly [OF inv]) (auto intro: step_result_done)
  moreover have "step_result 0 (w, TASK_DONE)" by (rule step_result_done [OF inv]) auto
  ultimately show ?thesis by (simp add: client_ProcessStart_def Let_def split: option.split)
qed

lemma closed_step:
  fixes w :: "'x client_world"
  assumes "world_inv {} w" "calmly (user w) u" "s = TASK_DONE \<or> s = TASK_ERROR"
  shows "step_result 0 (run (put (EnsureClosed u, []) (\<lambda>_. Return s)) w)"
  by (rule run_put_calmly [OF assms(1) calmly_trans [OF assms(2) calmly_EnsureClosed]])
    (use assms(3) in \<open>auto intro: step_result_done\<close>)

lemma client_token_step:
  assumes inv: "world_inv {} w" shows "step_result 0 (run (client_ProcessTokenLogin En w) w)"
proof -
  have "calmly (user w) ((user w)\<lparr>cl_pre_engine_error := er, cl_pre_engine_subcode := i, cl_pre_auth := pa\<rparr>)" for er i pa
    by (simp add: calmly_def iq_events_def handler_set_def)
  moreover have "calmly (user w) ((user w)\<lparr>cl_pre_engine_error := er, cl_pre_engine_subcode := i, cl_captcha := ca, cl_pre_auth := pa\<rparr>)" for er i ca pa
    by (simp add: calmly_def iq_events_def handler_set_def)
  moreover have "step_result 0 (run (put (engine_api En (CallSetSaslHandler h)
      ((user w)\<lparr>cl_auth_mechanism := m, cl_auth_token := tk, cl_pre_auth := pa\<rparr>)) (\<lambda>_. Return (TASK_NEXT 1))) w)" for h m tk pa
    by (rule run_put_engine [OF inv]) (auto intro: step_result_going simp: calmly_def iq_events_def handler_set_def)
  moreover have "step_result 0 (w, TASK_DONE)" by (rule step_result_done [OF inv]) auto
  ultimately show ?thesis
    using closed_step [OF inv] client_waits [OF inv]
    by (simp add: client_ProcessTokenLogin_def Let_def split: option.split)
qed

lemma client_login_step:
  assumes inv: "world_inv {} w" shows "step_result 0 (run (client_ProcessStartXmppLogin w) w)"
proof -
  have "step_result 0 (run (put (note_event (SocketConnect sv po) (user w), []) (\<lambda>_. Return TASK_RESPONSE)) w)" for sv po
    by (rule run_put_calmly [OF inv]) (auto intro: step_result_going)
  moreover have "step_result 0 (w, TASK_DONE)" by (rule step_result_done [OF inv]) auto
  ultimately show ?thesis
    using closed_step [OF inv, of "note_event (SocketConnect (cl_server (user w)) (cl_server_port (user w))) (user w)" TASK_ERROR]
    by (simp add: client_ProcessStartXmppLogin_def Let_def)
qed

lemma client_response_step:
  assumes inv: "world_inv {} w" shows "step_result 0 (run (client_ProcessResponse w) w)"
  using client_waits [OF inv] step_result_done [OF inv, of 0 TASK_DONE] by (simp add: client_ProcessResponse_def Let_def)

subsection \<open>The framework keeps the invariant\<close>

lemma inv_Process:
  fixes w :: "'x client_world"
  assumes inv: "world_inv {} w" and t: "task_at w a = Some t" "\<not> tk_done t"
    and s: "tk_state t \<notin> {TASK_DONE, TASK_ERROR}"
  shows "step_result a (Process (client_vtable En) a (tk_state t) w)"
proof -
  let ?V = "client_vtable En"
  have hook: "stop_hook ?V = StopImpl" by (simp add: client_vtable_def)
  let ?w = "ClearTimeout a w"
  have ci: "world_inv {} ?w" using inv_evolves [OF inv evolves_Clear] evolves_Clear [of w a] by (simp add: evolves_def)
  have upd: "task_at (UpdateTaskTimeout a p v) = task_at v" for p and v :: "'x client_world"
    by (simp add: task_at_def fun_eq_iff)
  obtain t' where t': "task_at ?w a = Some t'" "\<not> tk_done t'"
    using t by (auto simp: ClearTimeout_def upd)
  have signalled: "step_result a (v\<lparr>timeouts_signalled := ss\<rparr>, st)" if "step_result a (v, st)" for v :: "'x client_world" and ss st
  proof -
    have "mark_result a st (v\<lparr>timeouts_signalled := ss\<rparr>) = (mark_result a st v)\<lparr>timeouts_signalled := ss\<rparr>"
      by (auto simp: mark_result_def on_task_def set_dangling_def split: option.split)
    then show ?thesis
      using that inv_heap [of "(mark_result a st v)\<lparr>timeouts_signalled := ss\<rparr>" "mark_result a st v"] by (simp add: step_result_def)
  qed
  have late: "step_result a (run (OnTimeout ?V a ?w) ?w)"
    using timeout_step [OF ci t', of En] step_result_done [OF ci, of a TASK_DONE]
    by (simp add: client_vtable_def)
  have start: "step_result a (run (ProcessStart ?V a w) w)"
    using client_start_step [OF inv, of En] task_step [OF inv, of a En] by (simp add: client_vtable_def)
  have response: "step_result a (run (ProcessResponse ?V a w) w)"
    using client_response_step [OF inv] response_step [OF inv t, of En] step_result_done [OF inv, of a TASK_DONE]
    by (simp add: client_vtable_def)
  have other: "step_result a (run (p w) w)" if "ProcessOther ?V a (tk_state t) = Some p" for p
    using that client_token_step [OF inv, of En] client_login_step [OF inv]
    by (auto simp: client_vtable_def split: if_splits)
  have default: "step_result a (w, st)" if "st \<noteq> TASK_BLOCKED" for st
    by (rule step_result_going [OF inv that])
  have timed: "step_result a (fst (run (OnTimeout ?V a ?w) ?w)\<lparr>timeouts_signalled := ss\<rparr>, snd (run (OnTimeout ?V a ?w) ?w))" for ss
    using late by (intro signalled) simp
  show ?thesis
    using s other timed start response default
    by (cases "tk_state t")
      (auto simp: Process_def Let_def hook case_prod_unfold split: option.split)
qed

lemma client_steps:
  "step_invariant (client_vtable En) (\<lambda>w. client_inv {} {} w (user w)) (\<lambda>a u. a \<notin> handler_set u)"
proof (rule step_invariant.intro)
  show "stop_invariant (stop_hook (client_vtable En)) (\<lambda>w. client_inv {} {} w (user w)) (\<lambda>a u. a \<notin> handler_set u)"
    using client_stops by (simp add: client_vtable_def)
  show "step_invariant_axioms (client_vtable En) (\<lambda>w. client_inv {} {} w (user w))"
  proof unfold_locales
    fix w w' :: "'a client_world" and a t s
    assume "client_inv {} {} w (user w)" "task_at w a = Some t" "\<not> tk_done t" "tk_state t \<notin> {TASK_DONE, TASK_ERROR}"
      "Process (client_vtable En) a (tk_state t) w = (w', s)"
    then show "client_inv {} {} (mark_result a s w') (user (mark_result a s w'))"
      using inv_Process [of w a t En] by (simp add: step_result_def)
  qed
qed

interpretation client: step_invariant "client_vtable En" "\<lambda>w. client_inv {} {} w (user w)" "\<lambda>a u. a \<notin> handler_set u" for En
  by (rule client_steps)

lemma life_inv: "client_life En w \<Longrightarrow> world_inv {} w \<and> states_ok w"
proof (induction rule: client_life.induct)
  case (born ssl)
  have "world_inv {} (pump_init ssl)"
    by (auto simp: pump_init_def construct_task_def AddChild_def runner_init_def client_init_def client_inv_def
        handler_set_def outcomes_def iq_events_def)
  moreover have "states_ok (pump_init ssl)"
    by (auto simp: pump_init_def construct_task_def AddChild_def runner_init_def states_ok_def task_at_def new_task_def)
  ultimately show ?case by blast
next
  case (happens w ev)
  have "world_inv {} (fst (run (op_prog En ev (\<lambda>_. Return TASK_BLOCKED) w) w))"
    by (rule run_op [where Q = "\<lambda>r. world_inv {} (fst r)"]) (use happens in auto)
  moreover have "states_ok (client_do En ev w)"
    unfolding client_do_def by (rule states_ok_program) (use happens in blast)
  ultimately show ?case by (simp add: client_do_def)
next
  case (runs w w')
  then show ?case using client.RunTasks_keeps [of En w w'] by (auto simp: pump_OnMessage_def)
next
  case (passes w now)
  then show ?case using inv_heap [of "w\<lparr>clock := now\<rparr>" w] by (simp add: states_ok_def)
qed

interpretation client_stopping: stop_invariant StopImpl "\<lambda>w. client_inv E F w (user w)" "\<lambda>a u. a \<notin> handler_set u" for E F
  by (rule client_stops)

end
