(* ===== verification/ClientSafety.thy ===== *)
theory ClientSafety
  imports ClientLaws
begin

text \<open>
  The guarantees of a whole client, over everything that happens to it: operations from outside,
  input from the network, runs of its tasks, and the passing of time.
\<close>

subsection \<open>A client is a runner\<close>

lemma program_life: "runner_life V w \<Longrightarrow> runner_life V (fst (run_program (stop_hook V) p w))"
  by (induction p arbitrary: w) (simp_all add: Let_def life_call)

lemma client_is_runner: "client_life En w \<Longrightarrow> runner_life (client_vtable En) w"
proof (induction rule: client_life.induct)
  case (born ssl)
  have "runner_life (client_vtable En) (call (stop_hook (client_vtable En)) (Construct None) (runner_init (client_init ssl)))"
    by (intro life_call life_init)
  then show ?case by (simp add: call_def pump_init_def)
next
  case (happens w ev)
  then show ?case using program_life [of "client_vtable En" w] by (simp add: client_do_def client_vtable_def)
next
  case (runs w w')
  then show ?case by (auto simp: pump_OnMessage_def intro: life_run)
qed (rule life_clock)

subsection \<open>Input wakes only tasks that are there\<close>

lemma drain_wakes: "set (snd (drain cs u)) \<subseteq> insert 0 (set (heard cs))"
proof (induction cs arbitrary: u)
  case (Cons c cs)
  have "set (snd (on_call c u)) \<subseteq> insert 0 (set (heard [c]))" by (cases c) auto
  then show ?case using Cons [of "fst (on_call c u)"] by (cases c) (auto simp: case_prod_unfold Let_def)
qed simp

text \<open>A program that goes on from a world in which the client is there and nothing was misused.\<close>

definition proper :: "'x client_world \<Rightarrow> bool" where
  "proper w \<longleftrightarrow> world_inv {} w \<and> task_at w 0 \<noteq> None \<and> \<not> misused w"

lemma wake_proper:
  assumes "\<not> misused w" "task_at w a \<noteq> None"
  shows "\<not> misused (call StopImpl (CallWake a) w) \<and> (\<forall>b. task_at w b \<noteq> None \<longrightarrow> task_at (call StopImpl (CallWake a) w) b \<noteq> None)"
  using assms by (auto simp: call_def Wake_def split: option.split)

lemma wake_all_proper:
  assumes "\<not> misused w" "\<forall>a\<in>set ws. task_at w a \<noteq> None" "client_inv E {} w (user w)" "E \<subseteq> set ws" "task_at w 0 \<noteq> None"
    and "\<And>w'. proper w' \<Longrightarrow> Q (run (k w') w')"
  shows "Q (run (wake_all ws k w) w)"
  using assms
proof (induction ws arbitrary: E w)
  case Nil then show ?case by (simp add: proper_def)
next
  case (Cons a ws)
  let ?w = "call StopImpl (CallWake a) w"
  have "client_inv (insert a (E - {a})) {} w (user w)"
    by (rule inv_mono [OF Cons.prems(3)]) auto
  then have i: "client_inv (insert a (E - {a})) {} ?w (user ?w)"
    using client_stopping.call_keeps by blast
  have p: "\<not> misused ?w" "\<forall>b. task_at w b \<noteq> None \<longrightarrow> task_at ?w b \<noteq> None"
    using wake_proper [of w a] Cons.prems by auto
  have "Q (run (wake_all ws k ?w) ?w)"
    by (rule Cons.IH [OF _ _ inv_awake [OF i woken]]) (use Cons.prems p in auto)
  then show ?case by (simp add: Let_def)
qed

lemma put_engine_proper:
  assumes w: "proper w" and u: "client_inv {} {} w u" and live: "\<forall>a\<in>handler_set u. task_at w a \<noteq> None"
    and f: "\<And>c c'. cl_conn u = Some c \<Longrightarrow> f c = Some c' \<Longrightarrow>
      registered (conn_engine c') \<subseteq> registered (conn_engine c)
      \<and> (\<exists>new. eng_trace (conn_engine c') = eng_trace (conn_engine c) @ new \<and> set (heard new) \<subseteq> registered (conn_engine c))"
    and k: "\<And>w'. proper w' \<Longrightarrow> Q (run (k w') w')"
  shows "Q (run (put (on_engine f u) k) w)"
proof -
  obtain u' ws where r: "on_engine f u = (u', ws)" by (cases "on_engine f u")
  have inv: "client_inv ({} \<union> set ws) {} w u'"
    by (rule inv_on_engine [OF u r]) (use f in blast)
  have ws: "\<forall>a\<in>set ws. task_at w a \<noteq> None"
  proof (cases "cl_conn u")
    case None then show ?thesis using r by (simp add: on_engine_def)
  next
    case c: (Some c)
    show ?thesis
    proof (cases "f c")
      case None then show ?thesis using r c by (simp add: on_engine_def)
    next
      case (Some c')
      obtain new where new: "eng_trace (conn_engine c') = eng_trace (conn_engine c) @ new" "set (heard new) \<subseteq> registered (conn_engine c)"
        using f [OF c Some] by blast
      have "ws = snd (drain new (u\<lparr>cl_conn := Some c'\<rparr>))" using r c Some new(1) by (simp add: on_engine_def)
      then have "set ws \<subseteq> insert 0 (handler_set u)" using drain_wakes [of new "u\<lparr>cl_conn := Some c'\<rparr>"] new(2) c by (auto simp: handler_set_def)
      then show ?thesis using live w by (auto simp: proper_def)
    qed
  qed
  let ?w = "call StopImpl (PutUser u') w"
  have eq: "?w = w\<lparr>user := u'\<rparr>" by (simp add: call_def)
  have "Q (run (wake_all ws k ?w) ?w)"
    by (rule wake_all_proper [of _ _ "set ws"])
      (use w ws inv k in \<open>simp_all add: eq proper_def inv_heap [of "w\<lparr>user := u'\<rparr>" w]\<close>)
  then show ?thesis by (simp add: r put_def Let_def)
qed

lemma read_proper: "proper w \<Longrightarrow> (\<And>w'. proper w' \<Longrightarrow> Q (run (k w') w')) \<Longrightarrow> Q (run (read_loop En reads k w) w)"
proof (induction reads arbitrary: w)
  case (Cons bytes rest)
  let ?u = "note_event (LogInput bytes) (user w)"
  have u: "client_inv {} {} w ?u" using Cons.prems(1) by (auto simp: proper_def intro: inv_calmly)
  have "Q (run (put (on_engine (\<lambda>c. map_option snd (HandleInput (env_feed En) (env_start En) (client_app ?u) bytes c)) ?u) (read_loop En rest k)) w)"
  proof (rule put_engine_proper [OF Cons.prems(1) u])
    show "\<forall>a\<in>handler_set ?u. task_at w a \<noteq> None" using u by (simp add: client_inv_def)
    fix c c' assume "map_option snd (HandleInput (env_feed En) (env_start En) (client_app ?u) bytes c) = Some c'"
    then obtain st where "HandleInput (env_feed En) (env_start En) (client_app ?u) bytes c = Some (st, c')" by auto
    from input_offers [OF this] show "registered (conn_engine c') \<subseteq> registered (conn_engine c)
      \<and> (\<exists>new. eng_trace (conn_engine c') = eng_trace (conn_engine c) @ new \<and> set (heard new) \<subseteq> registered (conn_engine c))"
      by (auto simp: registered_def)
  qed (use Cons in auto)
  then show ?case using Cons.prems by (simp add: Let_def)
qed simp

lemma api_proper:
  assumes "proper w" "quiet_call c" "\<And>w'. proper w' \<Longrightarrow> Q (run (k w') w')"
  shows "Q (run (put (engine_api En c (user w)) k) w)"
  unfolding engine_api_def
proof (rule put_engine_proper [OF assms(1)])
  show "client_inv {} {} w (user w)" "\<forall>a\<in>handler_set (user w). task_at w a \<noteq> None"
    using assms(1) by (simp_all add: proper_def client_inv_def)
qed (use conn_quiet [OF assms(2)] assms(3) in fastforce)+

text \<open>C23: However a client has been driven so far, input from the network, a connection that comes up
  and one that breaks only ever reach tasks that exist: as long as the application itself has not
  misused the tasks (used a deleted one, started one twice), no stanza is handed to a deleted task,
  none is woken after its deletion, and no pointer to one is followed (the destructor of
  \<open>PresenceReceiveTask\<close> is not counted here, see the last property).\<close>

theorem network_touches_no_dead_task:
  assumes "client_life En w" and "\<not> misused w"
    and "ev = OnSocketConnected \<or> ev = OnSocketRead reads \<or> ev = OnSocketClosed code"
  shows "\<not> misused (client_do En ev w) \<and> \<not> dangling (client_do En ev w)"
proof -
  let ?Q = "\<lambda>r :: 'a client_world \<times> task_state. \<not> misused (fst r)"
  have p: "proper w" if "task_at w 0 \<noteq> None"
    using life_inv [OF assms(1)] assms(2) that by (simp add: proper_def)
  have k: "?Q (run (Return TASK_BLOCKED) w')" if "proper w'" for w' :: "'a client_world"
    using that by (simp add: proper_def)
  have k': "?Q (run ((\<lambda>_. Return TASK_BLOCKED) w') w')" if "proper w'" for w' :: "'a client_world"
    using that by (simp add: proper_def)
  have stay: "?Q (run (Return TASK_BLOCKED) w)" using assms(2) by simp
  have "?Q (run (op_prog En ev (\<lambda>_. Return TASK_BLOCKED) w) w)"
    using assms(3)
  proof (elim disjE)
    assume "ev = OnSocketRead reads"
    then show ?thesis using stay read_proper [OF p, where Q = ?Q and k = "\<lambda>_. Return TASK_BLOCKED"] k'
      by (simp add: op_prog_def Let_def)
  qed (use stay api_proper [OF p, where Q = ?Q and k = "\<lambda>_. Return TASK_BLOCKED"] k' in \<open>simp_all add: op_prog_def Let_def\<close>)
  then have "\<not> misused (client_do En ev w)" by (simp add: client_do_def)
  moreover have "runner_life (client_vtable En) (client_do En ev w)"
    by (rule client_is_runner [OF happens [OF assms(1)]])
  ultimately show ?thesis using life_ok by (auto simp: at_rest_tasks_def tasks_inv_def)
qed

text \<open>C25: Every handler that is registered in the engine of a client is a task that exists, that was
  built as a task of that client, and that has not been stopped: a stopped task leaves no handler
  behind.\<close>

theorem handlers_are_live:
  assumes "client_life En w"
  shows "\<forall>a\<in>handler_set (user w). \<exists>t x. task_at w a = Some t \<and> cl_members (user w) a = Some x \<and> \<not> xt_stopped x"
  using life_inv [OF assms] unfolding client_inv_def by fast

text \<open>C24: A task signals the outcome of an iq at most once, whatever the server sends and however the
  time-outs fall. Only an \<open>IqTask\<close> does, and once it has it is over; the result that it passes on is a
  stanza of type \<open>result\<close> which carries the id of the request and comes from the entity that
  was asked.\<close>

theorem iq_outcome_once:
  assumes "client_life En w" and "cl_members (user w) a = Some x"
  shows "length (outcomes a (user w)) \<le> 1
    \<and> (outcomes a (user w) \<noteq> [] \<longrightarrow> is_iq x \<and> task_over w a)
    \<and> (\<forall>s. IqResult a s \<in> set (iq_events (user w)) \<longrightarrow> answers_request x s \<and> Attr s QN_TYPE = STR_RESULT)"
proof -
  have "member_ok {} {} w (user w) a x" using life_inv [OF assms(1)] assms(2) unfolding client_inv_def by blast
  then show ?thesis unfolding member_ok_def by blast
qed


subsection \<open>A client that logs in and asks for something\<close>

declare peek_loop.simps [code]
declare level_loop.simps [code]

text \<open>
  The login is begun, a presence receiver and an iq task are started, and time passes before the pump
  runs, so that the iq runs into its time-out.
\<close>

definition login_env :: "unit client_env" where
  "login_env = \<lparr>env_feed = (\<lambda>x bytes final. (x, [], 0, (0, 0, 0))), env_start = (), env_react = (\<lambda>_ _. [])\<rparr>"

definition login_settings :: client_settings where
  "login_settings =
     \<lparr>cs_user = ''a'', cs_host = ''b'', cs_pass = ''p'', cs_auth_mechanism = [], cs_auth_token = [], cs_resource = [],
      cs_use_tls = TLS_DISABLED, cs_allow_plain = True, cs_test_server_domain = [], cs_server = ''s'',
      cs_server_port = 5222, cs_proxy_host = [], cs_proxy_port = 0\<rparr>"

definition login_ops :: "client_op list" where
  "login_ops =
     [DoLogin login_settings (Some True) None, NewTask 0 (IqKind ''get'' Jid_empty (new_element QN_PING)),
      NewTask 0 PresenceReceiveKind, StartOp 1, StartOp 2]"

definition login_client :: "unit client_world" where
  "login_client = fold (client_do login_env) login_ops (pump_init False)"

definition login_waits :: "unit client_world" where
  "login_waits = the (pump_OnMessage login_env login_client)"

definition login_late :: "unit client_world" where
  "login_late = client_do login_env PollOp (login_waits\<lparr>clock := 1000000000000\<rparr>)"

definition login_ran :: "unit client_world" where
  "login_ran = the (pump_OnMessage login_env login_late)"

lemma life_ops: "client_life En w \<Longrightarrow> client_life En (fold (client_do En) evs w)"
  by (induction evs arbitrary: w) (auto intro: happens)

lemma login_life: "client_life login_env login_client"
  unfolding login_client_def by (intro life_ops born)

lemma login_runs:
  "pump_OnMessage login_env login_client = Some login_waits" "pump_OnMessage login_env login_late = Some login_ran"
proof -
  have "pump_OnMessage login_env login_client \<noteq> None" "pump_OnMessage login_env login_late \<noteq> None" by code_simp+
  then show "pump_OnMessage login_env login_client = Some login_waits" "pump_OnMessage login_env login_late = Some login_ran"
    by (auto simp: login_waits_def login_ran_def)
qed

lemma login_late_life: "client_life login_env login_late"
  unfolding login_late_def by (intro happens passes runs [OF login_life login_runs(1)])

lemma login_ran_life: "client_life login_env login_ran"
  by (rule runs [OF login_late_life login_runs(2)])

lemma login_client_state: "\<not> misused login_client" "1 \<in> handler_set (user login_client)"
proof -
  have "case cl_conn (user login_client) of Some c \<Rightarrow> 1 \<in> set (eng_handlers (conn_engine c) HL_SINGLE) | None \<Rightarrow> False"
    by code_simp
  then show "1 \<in> handler_set (user login_client)" by (auto simp: handler_set_def registered_def split: option.splits)
  show "\<not> misused login_client" by code_simp
qed

lemma login_ran_state:
  "\<not> misused login_ran" "runner_tasks login_ran = [0, 2]"
  "case outcomes 1 (user login_ran) of [IqError a e] \<Rightarrow> a = 1 \<and> e = None | _ \<Rightarrow> False"
  "case cl_members (user login_ran) 1 of Some x \<Rightarrow> is_iq x | None \<Rightarrow> False"
  "case cl_members (user login_ran) 2 of Some x \<Rightarrow> \<not> is_ping x | None \<Rightarrow> False"
  by code_simp+

lemma network_touches_no_dead_task_witness:
  "\<not> dangling (client_do login_env (OnSocketRead [''x'', ''y'']) login_client)"
  using network_touches_no_dead_task [OF login_life login_client_state(1), of "OnSocketRead [''x'', ''y'']" "[''x'', ''y'']" 0]
  by simp

lemma handlers_are_live_witness: "task_at login_client 1 \<noteq> None"
  using handlers_are_live [OF login_life] login_client_state(2) by auto

lemma iq_outcome_once_witness: "task_over login_ran 1"
proof -
  obtain x where "cl_members (user login_ran) 1 = Some x" using login_ran_state(4) by (auto split: option.splits)
  from iq_outcome_once [OF login_ran_life this] login_ran_state(3) show ?thesis by auto
qed


subsection \<open>A destructor that comes too late\<close>

text \<open>C30: The destructor of \<open>PresenceReceiveTask\<close> uses its parent after the parent is deleted. When a
  receiver is deleted after its parent (as in \<open>login_gone\<close>, where the client is disconnected and the
  pump deletes the tasks in the order in which they were started) the call of \<open>Stop\<close> in this destructor
  follows the dangling pointer, while deleting it without that call would not.\<close>

theorem receive_task_outlives_client:
  assumes "task_at w a = Some t" and "tk_done t" and "tk_children t = []" and "tk_parent t = Some p" and "task_at w p = None"
    and "\<not> dangling w"
  shows "dangling (delete_presence_receive a w) \<and> \<not> dangling (delete_task StopImpl a w)"
proof -
  have t: "task_at (w\<lparr>user := u\<rparr>) = task_at w" "task_at (set_dangling w) = task_at w" for w :: "'a client_world" and u
    by (simp_all add: task_at_def set_dangling_def fun_eq_iff)
  have "stop_task StopImpl a w = set_dangling (w\<lparr>user := StopImpl a (user w)\<rparr>)"
    using assms by (simp add: stop_task_def Stop_def OnStopped_def OnChildStopped_def on_task_def t)
  then show ?thesis
    using assms by (simp add: delete_presence_receive_def delete_task_def t) (simp add: set_dangling_def)
qed

definition login_gone :: "unit client_world" where
  "login_gone = fst (delete_loop StopImpl [0] False (client_do login_env DoDisconnect login_waits))"

lemma login_gone_state:
  "case task_at login_gone 2 of Some t \<Rightarrow> tk_done t \<and> tk_children t = [] \<and> tk_parent t = Some 0 | None \<Rightarrow> False"
  "task_at login_gone 0 = None" "\<not> dangling login_gone"
  by code_simp+

lemma receive_task_outlives_client_witness: "dangling (delete_presence_receive 2 login_gone)"
proof -
  obtain t where "task_at login_gone 2 = Some t" "tk_done t" "tk_children t = []" "tk_parent t = Some 0"
    using login_gone_state(1) by (auto split: option.splits)
  from receive_task_outlives_client [OF this login_gone_state(2,3)] show ?thesis by blast
qed

end
