(* ===== verification/TimeUtils.thy ===== *)
theory TimeUtils
  imports Prelude "HOL-Library.Word"
begin

text \<open>
  Time stamps: \<open>talk/base/timeutils.h\<close> and \<open>timeutils.cc\<close>. A stamp is a \<open>uint32\<close> of milliseconds that
  wraps around every 49.7 days; \<open>int32\<close> results are the signed reading of the same 32 bits. What the
  clock shows (\<open>clock_gettime\<close> in the POSIX build) is an argument. The comparisons exist twice in the
  code, as \<open>EFFICIENT_IMPLEMENTATION\<close> and as a longer form by \<open>TimeIsBetween\<close>, which is not compiled; the
  second is modelled as the reference (\<open>..._reference\<close>) and compared with the first.
\<close>

subsection \<open>The clock\<close>

abbreviation kNumMillisecsPerSec :: int where "kNumMillisecsPerSec \<equiv> 1000"
abbreviation kNumNanosecsPerSec :: int where "kNumNanosecsPerSec \<equiv> 1000000000"
abbreviation kNumNanosecsPerMillisec :: int where "kNumNanosecsPerMillisec \<equiv> 1000000"
abbreviation kJan1970AsNtpMillisecs :: int where "kJan1970AsNtpMillisecs \<equiv> 2208988800000"

abbreviation TIME_LAST :: "32 word" where "TIME_LAST \<equiv> 0xFFFFFFFF"
abbreviation TIME_HALF :: "32 word" where "TIME_HALF \<equiv> 0x80000000"

text \<open>\<open>sec\<close> and \<open>nsec\<close> are those of the monotonic clock.\<close>

definition TimeNanos :: "int \<Rightarrow> int \<Rightarrow> 64 word" where
  "TimeNanos sec nsec = word_of_int (kNumNanosecsPerSec * sec + nsec)"

definition Time :: "64 word \<Rightarrow> 32 word" where
  "Time nanos = ucast (nanos div word_of_int kNumNanosecsPerMillisec)"

definition UnixTimestampNanosecsToNtpMillisecs :: "int \<Rightarrow> int" where
  "UnixTimestampNanosecsToNtpMillisecs unix_ts_ns =
     sgn unix_ts_ns * (\<bar>unix_ts_ns\<bar> div kNumNanosecsPerMillisec) + kJan1970AsNtpMillisecs"

subsection \<open>Comparing stamps\<close>

definition TimeAfter :: "32 word \<Rightarrow> int \<Rightarrow> 32 word" where
  "TimeAfter now elapsed = now + word_of_int elapsed"

definition TimeIsBetween :: "32 word \<Rightarrow> 32 word \<Rightarrow> 32 word \<Rightarrow> bool" where
  "TimeIsBetween earlier middle later =
     (if earlier \<le> later then earlier \<le> middle \<and> middle \<le> later
      else \<not> (later < middle \<and> middle < earlier))"

definition TimeIsLaterOrEqual :: "32 word \<Rightarrow> 32 word \<Rightarrow> bool" where
  "TimeIsLaterOrEqual earlier later =
     (let diff = sint (later - earlier) in diff \<ge> 0 \<and> (word_of_int diff :: 32 word) < TIME_HALF)"

definition TimeIsLater :: "32 word \<Rightarrow> 32 word \<Rightarrow> bool" where
  "TimeIsLater earlier later =
     (let diff = sint (later - earlier) in diff > 0 \<and> (word_of_int diff :: 32 word) < TIME_HALF)"

definition TimeDiff :: "32 word \<Rightarrow> 32 word \<Rightarrow> int" where
  "TimeDiff later earlier = sint (later - earlier)"

definition TimeMax :: "32 word \<Rightarrow> 32 word \<Rightarrow> 32 word" where
  "TimeMax ts1 ts2 = (if TimeIsLaterOrEqual ts1 ts2 then ts2 else ts1)"

definition TimeMin :: "32 word \<Rightarrow> 32 word \<Rightarrow> 32 word" where
  "TimeMin ts1 ts2 = (if TimeIsLaterOrEqual ts1 ts2 then ts1 else ts2)"

definition TimeSince :: "32 word \<Rightarrow> 32 word \<Rightarrow> int" where
  "TimeSince now earlier = TimeDiff now earlier"

definition TimeUntil :: "32 word \<Rightarrow> 32 word \<Rightarrow> int" where
  "TimeUntil now later = TimeDiff later now"

subsection \<open>The longer forms\<close>

definition TimeIsLaterOrEqual_reference :: "32 word \<Rightarrow> 32 word \<Rightarrow> bool" where
  "TimeIsLaterOrEqual_reference earlier later = TimeIsBetween earlier later (earlier + TIME_HALF)"

definition TimeIsLater_reference :: "32 word \<Rightarrow> 32 word \<Rightarrow> bool" where
  "TimeIsLater_reference earlier later = (\<not> TimeIsBetween later earlier (later + TIME_HALF))"

text \<open>The differences are \<open>long\<close>, of 64 bits; the result is cut to an \<open>int32\<close>.\<close>

definition TimeDiff_reference :: "32 word \<Rightarrow> 32 word \<Rightarrow> int" where
  "TimeDiff_reference later earlier =
     signed_take_bit 31
       (if TimeIsBetween earlier later (earlier + TIME_HALF) then
          if earlier \<le> later then uint (later - earlier) else uint (later + (TIME_LAST - earlier) + 1)
        else
          if later \<le> earlier then - uint (earlier - later) else - uint (earlier + (TIME_LAST - later) + 1))"

subsection \<open>Stamps around the circle\<close>

lemma uint_bound: "0 \<le> uint d \<and> uint d < 4294967296" for d :: "32 word"
  using uint_lt2p [of d] by simp

lemma sint_cases: "sint d = (if uint d < 2147483648 then uint d else uint d - 4294967296)" for d :: "32 word"
proof -
  have "(x + 2147483648) mod 4294967296 - 2147483648 = (if x < 2147483648 then x else x - 4294967296)"
    if "0 \<le> x \<and> x < 4294967296" for x :: int
  proof (cases "x < 2147483648")
    case True then show ?thesis using that by simp
  next
    case False
    then show ?thesis using minus_mod_self2 [of "x + 2147483648" 4294967296] that by simp
  qed
  from this [OF uint_bound [of d]] show ?thesis
    by (simp add: sint_uint signed_take_bit_eq_take_bit_shift take_bit_eq_mod)
qed

lemma wrap_cases:
  fixes x y :: int assumes "0 \<le> x \<and> x < 4294967296" "0 \<le> y \<and> y < 4294967296"
  shows "(x - y) mod 4294967296 = (if y \<le> x then x - y else x - y + 4294967296)"
    and "(x + y) mod 4294967296 = (if x + y < 4294967296 then x + y else x + y - 4294967296)"
proof -
  show "(x - y) mod 4294967296 = (if y \<le> x then x - y else x - y + 4294967296)"
  proof (cases "y \<le> x")
    case False
    have "(x - y) mod 4294967296 = (x - y + 4294967296) mod 4294967296" by (rule mod_add_self2 [symmetric])
    also have "\<dots> = x - y + 4294967296" using assms False by (intro mod_pos_pos_trivial) simp_all
    finally show ?thesis using False by simp
  qed (use assms in simp)
  show "(x + y) mod 4294967296 = (if x + y < 4294967296 then x + y else x + y - 4294967296)"
  proof (cases "x + y < 4294967296")
    case False
    have "(x + y) mod 4294967296 = (x + y - 4294967296) mod 4294967296" by (rule minus_mod_self2 [symmetric])
    also have "\<dots> = x + y - 4294967296" using assms False by (intro mod_pos_pos_trivial) simp_all
    finally show ?thesis using False by simp
  qed (use assms in simp)
qed

lemma uint_diff: "uint (a - b) = (if uint b \<le> uint a then uint a - uint b else uint a - uint b + 4294967296)"
  and uint_sum: "uint (a + b) = (if uint a + uint b < 4294967296 then uint a + uint b else uint a + uint b - 4294967296)"
  for a b :: "32 word"
  using wrap_cases [OF uint_bound [of a] uint_bound [of b]] by (simp_all add: uint_word_ariths)

lemma TimeDiff_cases:
  "TimeDiff later earlier = (if uint (later - earlier) < 2147483648 then uint (later - earlier) else uint (later - earlier) - 4294967296)"
  by (simp add: TimeDiff_def sint_cases)

text \<open>A stamp is later than another if it lies less than half a circle ahead.\<close>

lemma TimeIsLater_ahead: "TimeIsLater earlier later \<longleftrightarrow> 0 < uint (later - earlier) \<and> uint (later - earlier) < 2147483648"
  and TimeIsLaterOrEqual_ahead: "TimeIsLaterOrEqual earlier later \<longleftrightarrow> uint (later - earlier) < 2147483648"
  using uint_bound [of "later - earlier"]
  by (auto simp: TimeIsLater_def TimeIsLaterOrEqual_def Let_def sint_cases word_less_def uint_word_of_int)

subsection \<open>The two forms of the comparisons\<close>

text \<open>The short comparisons of stamps are those of the longer reference code for all stamps, also
  around the wrap of the clock; only for two stamps exactly half a circle apart they differ, where the
  reference calls the second one later or equal and the compiled code does not.\<close>

theorem time_comparisons_agree:
  "TimeDiff later earlier = TimeDiff_reference later earlier
   \<and> TimeIsLater earlier later = TimeIsLater_reference earlier later
   \<and> TimeIsLaterOrEqual_reference earlier later = (TimeIsLaterOrEqual earlier later \<or> later = earlier + TIME_HALF)"
proof -
  note b = uint_bound [of earlier] uint_bound [of later]
  have between: "TimeIsBetween a c (a + TIME_HALF) \<longleftrightarrow> uint (c - a) \<le> 2147483648" for a c
    by (auto simp: TimeIsBetween_def word_le_def word_less_def uint_sum uint_diff split: if_splits)
      (use uint_bound [of a] uint_bound [of c] in linarith)+
  have eq: "later = earlier + TIME_HALF \<longleftrightarrow> uint (later - earlier) = 2147483648"
    by (auto simp: word_uint_eq_iff uint_sum uint_diff split: if_splits) (use b in linarith)+
  have wrap: "later + (TIME_LAST - earlier) + 1 = later - earlier" "earlier + (TIME_LAST - later) + 1 = earlier - later"
    by simp_all
  have behind: "- uint (earlier - later) = uint (later - earlier) - 4294967296" if "uint (later - earlier) > 2147483648"
    using that b by (auto simp: uint_diff split: if_splits)
  have "TimeDiff later earlier = TimeDiff_reference later earlier"
  proof (cases "uint (later - earlier) \<le> 2147483648")
    case True
    have "signed_take_bit 31 (uint (later - earlier)) = TimeDiff later earlier"
    proof (cases "uint (later - earlier) = 2147483648")
      case False
      then have "signed_take_bit 31 (uint (later - earlier)) = uint (later - earlier)"
        using True by (intro signed_take_bit_int_eq_self order_trans [OF _ uint_ge_0]) simp_all
      then show ?thesis using True False by (simp add: TimeDiff_cases)
    qed (simp add: TimeDiff_cases)
    then show ?thesis using True by (simp add: TimeDiff_reference_def between wrap)
  next
    case False
    then have "signed_take_bit 31 (uint (later - earlier) - 4294967296) = uint (later - earlier) - 4294967296"
      using uint_bound [of "later - earlier"] by (intro signed_take_bit_int_eq_self) simp_all
    then show ?thesis using False behind by (simp add: TimeDiff_reference_def TimeDiff_cases between wrap)
  qed
  then show ?thesis
    by (auto simp: TimeIsLater_reference_def TimeIsLaterOrEqual_reference_def between eq TimeIsLater_ahead
        TimeIsLaterOrEqual_ahead uint_diff split: if_splits) (use b in linarith)+
qed

end
