(* ===== verification/MessageQueues.thy ===== *)
theory MessageQueues
  imports TimeUtils "HOL-Library.Multiset"
begin

text \<open>
  The message queue of a thread, \<open>talk/base/messagequeue.h\<close> and \<open>messagequeue.cc\<close>: messages posted for
  now and for later, and the loop of \<open>Get\<close> which waits for them.

  The lock makes every operation one step; \<open>Get\<close> is cut where it lets go of the lock to wait: one turn
  of its loop is \<open>get_pass\<close>, and other threads act in between. The times, and what \<open>Wait\<close> of the
  socket server returns, come from outside. A message handler is its address, null is \<open>None\<close>; the data
  of a message is a pointer that the queue only passes on. \<open>std::priority_queue\<close> is the list of its
  elements with the top first; among equals the one pushed first.
\<close>

subsection \<open>Messages\<close>

abbreviation kForever :: int where "kForever \<equiv> -1"
abbreviation kMaxMsgLatency :: "32 word" where "kMaxMsgLatency \<equiv> 150"
abbreviation MQID_ANY :: "32 word" where "MQID_ANY \<equiv> 0xFFFFFFFF"
abbreviation MQID_DISPOSE :: "32 word" where "MQID_DISPOSE \<equiv> 0xFFFFFFFE"

record message =
  m_handler :: "nat option"
  m_id :: "32 word"
  m_data :: "nat option"
  m_sensitive :: "32 word"

definition message_init :: message where
  "message_init = \<lparr>m_handler = None, m_id = 0, m_data = None, m_sensitive = 0\<rparr>"

definition Match :: "nat option \<Rightarrow> 32 word \<Rightarrow> message \<Rightarrow> bool" where
  "Match handler mid m \<longleftrightarrow> (handler = None \<or> handler = m_handler m) \<and> (mid = MQID_ANY \<or> mid = m_id m)"

record delayed_message =
  dm_delay :: int
  dm_trigger :: "32 word"
  dm_num :: "32 word"
  dm_msg :: message

text \<open>\<open>operator<\<close>: the smaller message comes later.\<close>

definition dm_less :: "delayed_message \<Rightarrow> delayed_message \<Rightarrow> bool" where
  "dm_less a b \<longleftrightarrow> dm_trigger b < dm_trigger a \<or> dm_trigger b = dm_trigger a \<and> dm_num b < dm_num a"

fun dm_push :: "delayed_message \<Rightarrow> delayed_message list \<Rightarrow> delayed_message list" where
  "dm_push d [] = [d]"
| "dm_push d (e # es) = (if dm_less e d then d # e # es else e # dm_push d es)"

subsection \<open>The queue\<close>

record message_queue =
  mq_stop :: bool
  mq_peek_keep :: bool
  mq_peek :: message
  mq_active :: bool
  mq_msgs :: "message list"
  mq_delayed :: "delayed_message list"
  mq_next_num :: "32 word"

definition mq_init :: message_queue where
  "mq_init = \<lparr>mq_stop = False, mq_peek_keep = False, mq_peek = message_init, mq_active = False,
     mq_msgs = [], mq_delayed = [], mq_next_num = 0\<rparr>"

definition mq_Quit :: "message_queue \<Rightarrow> message_queue" where
  "mq_Quit q = q\<lparr>mq_stop := True\<rparr>"

definition mq_IsQuitting :: "message_queue \<Rightarrow> bool" where
  "mq_IsQuitting q = mq_stop q"

definition mq_Restart :: "message_queue \<Rightarrow> message_queue" where
  "mq_Restart q = q\<lparr>mq_stop := False\<rparr>"

definition mq_EnsureActive :: "message_queue \<Rightarrow> message_queue" where
  "mq_EnsureActive q = (if \<not> mq_active q then q\<lparr>mq_active := True\<rparr> else q)"

definition mq_Post :: "32 word \<Rightarrow> nat option \<Rightarrow> 32 word \<Rightarrow> nat option \<Rightarrow> bool \<Rightarrow> message_queue \<Rightarrow> message_queue" where
  "mq_Post now handler mid pdata time_sensitive q0 =
     (if mq_stop q0 then q0
      else
        let q = mq_EnsureActive q0;
            m0 = \<lparr>m_handler = handler, m_id = mid, m_data = pdata, m_sensitive = 0\<rparr>;
            m = (if time_sensitive then m0\<lparr>m_sensitive := now + kMaxMsgLatency\<rparr> else m0) in
        q\<lparr>mq_msgs := mq_msgs q @ [m]\<rparr>)"

definition mq_DoDelayPost :: "int \<Rightarrow> 32 word \<Rightarrow> nat option \<Rightarrow> 32 word \<Rightarrow> nat option \<Rightarrow> message_queue \<Rightarrow> message_queue" where
  "mq_DoDelayPost cmsDelay tstamp handler mid pdata q0 =
     (if mq_stop q0 then q0
      else
        let q = mq_EnsureActive q0;
            m = \<lparr>m_handler = handler, m_id = mid, m_data = pdata, m_sensitive = 0\<rparr>;
            d = \<lparr>dm_delay = cmsDelay, dm_trigger = tstamp, dm_num = mq_next_num q, dm_msg = m\<rparr> in
        q\<lparr>mq_delayed := dm_push d (mq_delayed q), mq_next_num := mq_next_num q + 1\<rparr>)"

definition mq_PostDelayed :: "32 word \<Rightarrow> int \<Rightarrow> nat option \<Rightarrow> 32 word \<Rightarrow> nat option \<Rightarrow> message_queue \<Rightarrow> message_queue" where
  "mq_PostDelayed now cmsDelay = mq_DoDelayPost cmsDelay (TimeAfter now cmsDelay)"

definition mq_PostAt :: "32 word \<Rightarrow> 32 word \<Rightarrow> nat option \<Rightarrow> 32 word \<Rightarrow> nat option \<Rightarrow> message_queue \<Rightarrow> message_queue" where
  "mq_PostAt now tstamp = mq_DoDelayPost (TimeUntil now tstamp) tstamp"

text \<open>\<open>Dispose\<close> of the object with the address \<open>doomed\<close>.\<close>

definition mq_Dispose :: "32 word \<Rightarrow> nat option \<Rightarrow> message_queue \<Rightarrow> message_queue" where
  "mq_Dispose now doomed q = (if doomed \<noteq> None then mq_Post now None MQID_DISPOSE doomed False q else q)"

definition mq_GetDelay :: "32 word \<Rightarrow> message_queue \<Rightarrow> int" where
  "mq_GetDelay now q =
     (if mq_msgs q \<noteq> [] then 0
      else case mq_delayed q of
          d # ds \<Rightarrow> (let delay = TimeUntil now (dm_trigger d) in if delay < 0 then 0 else delay)
        | [] \<Rightarrow> kForever)"

definition mq_size :: "message_queue \<Rightarrow> nat" where
  "mq_size q = length (mq_msgs q) + length (mq_delayed q) + (if mq_peek_keep q then 1 else 0)"

definition mq_empty :: "message_queue \<Rightarrow> bool" where
  "mq_empty q \<longleftrightarrow> mq_size q = 0"

text \<open>\<open>Clear\<close>: the messages that are taken out (to be deleted, or for the caller's list), and the queue.\<close>

definition mq_Clear :: "nat option \<Rightarrow> 32 word \<Rightarrow> message_queue \<Rightarrow> message list \<times> message_queue" where
  "mq_Clear handler mid q =
     (let hit = mq_peek_keep q \<and> Match handler mid (mq_peek q) in
      ((if hit then [mq_peek q] else []) @ filter (Match handler mid) (mq_msgs q)
         @ map dm_msg (filter (\<lambda>d. Match handler mid (dm_msg d)) (mq_delayed q)),
       q\<lparr>mq_peek_keep := (if hit then False else mq_peek_keep q),
         mq_msgs := filter (\<lambda>m. \<not> Match handler mid m) (mq_msgs q),
         mq_delayed := filter (\<lambda>d. \<not> Match handler mid (dm_msg d)) (mq_delayed q)\<rparr>))"

subsection \<open>Waiting for a message\<close>

text \<open>
  The first pass under the lock: delayed messages that are due go to the end of the queue; the time
  until the first that is not due.
\<close>

fun take_due :: "32 word \<Rightarrow> delayed_message list \<Rightarrow> message list \<Rightarrow> message list \<times> delayed_message list \<times> int" where
  "take_due now [] ms = (ms, [], kForever)"
| "take_due now (d # ds) ms =
     (if TimeIsLater now (dm_trigger d) then (ms, d # ds, TimeDiff (dm_trigger d) now)
      else take_due now ds (ms @ [dm_msg d]))"

text \<open>Taking a message from the queue; dispose messages are skipped (the last component).\<close>

fun pull :: "message list \<Rightarrow> message option \<times> message list \<times> message list" where
  "pull [] = (None, [], [])"
| "pull (m # ms) =
     (if m_id m = MQID_DISPOSE then let (r, rest, skipped) = pull ms in (r, rest, m # skipped)
      else (Some m, ms, []))"

datatype get_result = Got message | NoMessage | WaitFor int

definition cms_next :: "int \<Rightarrow> int \<Rightarrow> int \<Rightarrow> int" where
  "cms_next cmsWait cmsElapsed cmsDelayNext =
     (if cmsWait = kForever then cmsDelayNext
      else let cmsNext = max 0 (cmsWait - cmsElapsed) in
        if cmsDelayNext \<noteq> kForever \<and> cmsDelayNext < cmsNext then cmsDelayNext else cmsNext)"

text \<open>One turn of the loop up to \<open>Wait\<close>, with the messages that were skipped.\<close>

definition get_pass :: "int \<Rightarrow> 32 word \<Rightarrow> 32 word \<Rightarrow> message_queue \<Rightarrow> get_result \<times> message list \<times> message_queue" where
  "get_pass cmsWait msStart msCurrent q =
     (let (ms, ds, cmsDelayNext) = take_due msCurrent (mq_delayed q) (mq_msgs q);
          (m, rest, skipped) = pull ms;
          q1 = q\<lparr>mq_msgs := rest, mq_delayed := ds\<rparr> in
      case m of
        Some msg \<Rightarrow> (Got msg, skipped, q1)
      | None \<Rightarrow>
          if mq_stop q1 then (NoMessage, skipped, q1)
          else (WaitFor (cms_next cmsWait (TimeDiff msCurrent msStart) cmsDelayNext), skipped, q1))"

text \<open>What is left of the loop after \<open>Wait\<close>: whether it returns false.\<close>

definition gives_up :: "int \<Rightarrow> 32 word \<Rightarrow> bool \<Rightarrow> 32 word \<Rightarrow> bool" where
  "gives_up cmsWait msStart wait_ok msCurrent \<longleftrightarrow>
     \<not> wait_ok \<or> (cmsWait \<noteq> kForever \<and> TimeDiff msCurrent msStart \<ge> cmsWait)"

subsection \<open>A queue in use\<close>

text \<open>
  The operations of all threads, and the thread that owns the queue in \<open>Get\<close> or \<open>Peek\<close>. The call that
  waits is \<open>qr_waiting\<close>: the time asked for, the start, and whether it is a \<open>Peek\<close>. The other
  fields tell what has happened to the messages; \<open>qr_returned\<close> is what the calls returned.
\<close>

datatype queue_op =
    OpPost "nat option" "32 word" "nat option" bool
  | OpPostDelayed int "nat option" "32 word" "nat option"
  | OpPostAt "32 word" "nat option" "32 word" "nat option"
  | OpDispose "nat option"
  | OpClear "nat option" "32 word"
  | OpQuit
  | OpRestart

datatype queue_event = Do queue_op | CallGet int | CallPeek int | WaitOver bool

record queue_run =
  qr_queue :: message_queue
  qr_waiting :: "(int \<times> 32 word \<times> bool) option"
  qr_returned :: "message option list"
  qr_posted :: "message list"
  qr_delivered :: "message list"
  qr_cleared :: "message list"
  qr_disposed :: "message list"

definition mq_run_start :: queue_run where
  "mq_run_start = \<lparr>qr_queue = mq_init, qr_waiting = None, qr_returned = [], qr_posted = [], qr_delivered = [],
     qr_cleared = [], qr_disposed = []\<rparr>"

fun mq_op :: "32 word \<Rightarrow> queue_op \<Rightarrow> message_queue \<Rightarrow> message list \<times> message_queue" where
  "mq_op now (OpPost h mid p s) q = ([], mq_Post now h mid p s q)"
| "mq_op now (OpPostDelayed ms h mid p) q = ([], mq_PostDelayed now ms h mid p q)"
| "mq_op now (OpPostAt t h mid p) q = ([], mq_PostAt now t h mid p q)"
| "mq_op now (OpDispose p) q = ([], mq_Dispose now p q)"
| "mq_op now (OpClear h mid) q = mq_Clear h mid q"
| "mq_op now OpQuit q = ([], mq_Quit q)"
| "mq_op now OpRestart q = ([], mq_Restart q)"

text \<open>The message that an operation posts, if the queue takes it.\<close>

definition new_message :: "32 word \<Rightarrow> queue_op \<Rightarrow> message_queue \<Rightarrow> message list" where
  "new_message now op q =
     (if mq_stop q then []
      else case op of
          OpPost h mid p s \<Rightarrow> [\<lparr>m_handler = h, m_id = mid, m_data = p, m_sensitive = if s then now + kMaxMsgLatency else 0\<rparr>]
        | OpPostDelayed ms h mid p \<Rightarrow> [\<lparr>m_handler = h, m_id = mid, m_data = p, m_sensitive = 0\<rparr>]
        | OpPostAt t h mid p \<Rightarrow> [\<lparr>m_handler = h, m_id = mid, m_data = p, m_sensitive = 0\<rparr>]
        | OpDispose p \<Rightarrow> if p \<noteq> None then [\<lparr>m_handler = None, m_id = MQID_DISPOSE, m_data = p, m_sensitive = 0\<rparr>] else []
        | _ \<Rightarrow> [])"

definition turn :: "int \<Rightarrow> 32 word \<Rightarrow> bool \<Rightarrow> 32 word \<Rightarrow> queue_run \<Rightarrow> queue_run" where
  "turn cmsWait msStart peeking now r =
     (let (result, skipped, q) = get_pass cmsWait msStart now (qr_queue r);
          r1 = r\<lparr>qr_disposed := qr_disposed r @ skipped\<rparr> in
      case result of
        Got m \<Rightarrow>
          (if peeking then r1\<lparr>qr_queue := q\<lparr>mq_peek := m, mq_peek_keep := True\<rparr>\<rparr>
           else r1\<lparr>qr_queue := q, qr_delivered := qr_delivered r1 @ [m]\<rparr>)
            \<lparr>qr_waiting := None, qr_returned := qr_returned r1 @ [Some m]\<rparr>
      | NoMessage \<Rightarrow> r1\<lparr>qr_queue := q, qr_waiting := None, qr_returned := qr_returned r1 @ [None]\<rparr>
      | WaitFor n \<Rightarrow> r1\<lparr>qr_queue := q, qr_waiting := Some (cmsWait, msStart, peeking)\<rparr>)"

fun queue_step :: "32 word \<times> queue_event \<Rightarrow> queue_run \<Rightarrow> queue_run" where
  "queue_step (now, Do op) r =
     (let (cleared, q) = mq_op now op (qr_queue r) in
      r\<lparr>qr_queue := q, qr_cleared := qr_cleared r @ cleared, qr_posted := qr_posted r @ new_message now op (qr_queue r)\<rparr>)"
| "queue_step (now, CallGet ms) r =
     (let q = qr_queue r in
      if qr_waiting r \<noteq> None then r
      else if mq_peek_keep q then
        r\<lparr>qr_queue := q\<lparr>mq_peek_keep := False\<rparr>, qr_delivered := qr_delivered r @ [mq_peek q],
          qr_returned := qr_returned r @ [Some (mq_peek q)]\<rparr>
      else turn ms now False now r)"
| "queue_step (now, CallPeek ms) r =
     (let q = qr_queue r in
      if qr_waiting r \<noteq> None then r
      else if mq_peek_keep q then r\<lparr>qr_returned := qr_returned r @ [Some (mq_peek q)]\<rparr>
      else turn ms now True now r)"
| "queue_step (now, WaitOver ok) r =
     (case qr_waiting r of
        None \<Rightarrow> r
      | Some (ms, start, peeking) \<Rightarrow>
          if gives_up ms start ok now then r\<lparr>qr_waiting := None, qr_returned := qr_returned r @ [None]\<rparr>
          else turn ms start peeking now r)"

definition queue_runs :: "(32 word \<times> queue_event) list \<Rightarrow> queue_run \<Rightarrow> queue_run" where
  "queue_runs evs r = fold queue_step evs r"

subsection \<open>The manager of the queues\<close>

text \<open>
  \<open>MessageQueueManager\<close>: the active queues, by their addresses, in a list without an owner; it is
  deleted with its last queue. \<open>Clear\<close> clears a handler in all of them.
\<close>

definition manager_Add :: "nat \<Rightarrow> nat list option \<Rightarrow> nat list option" where
  "manager_Add a manager = Some ((case manager of None \<Rightarrow> [] | Some queues \<Rightarrow> queues) @ [a])"

definition manager_Remove :: "nat \<Rightarrow> nat list option \<Rightarrow> nat list option" where
  "manager_Remove a manager =
     (let queues = remove1 a (case manager of None \<Rightarrow> [] | Some queues \<Rightarrow> queues) in
      if queues = [] then None else Some queues)"

definition manager_Clear :: "nat option \<Rightarrow> nat list \<Rightarrow> (nat \<Rightarrow> message_queue) \<Rightarrow> nat \<Rightarrow> message_queue" where
  "manager_Clear handler queues store = fold (\<lambda>a s. s(a := snd (mq_Clear handler MQID_ANY (s a)))) queues store"

end
