(* ===== verification/MessageQueueLaws.thy ===== *)
theory MessageQueueLaws
  imports MessageQueues
begin

text \<open>
  What a message queue keeps, under any order of the operations of all threads: every message posted is
  accounted for, delayed messages come in the order of their times as long as the stamps do not wrap, and
  a handler that was cleared gets nothing more. The steps are taken apart once, in a locale.
\<close>

subsection \<open>Invariants of a queue in use\<close>

lemma queue_update_order: "q\<lparr>mq_delayed := ds, mq_msgs := ms\<rparr> = q\<lparr>mq_msgs := ms, mq_delayed := ds\<rparr>" for q :: message_queue
  by simp

lemma run_update_order:
  "r\<lparr>qr_queue := q, qr_disposed := d\<rparr> = r\<lparr>qr_disposed := d, qr_queue := q\<rparr>"
  "r\<lparr>qr_delivered := d', qr_waiting := x, qr_returned := y\<rparr> = r\<lparr>qr_waiting := x, qr_returned := y, qr_delivered := d'\<rparr>"
  for r :: queue_run
  by simp_all

text \<open>No message is kept for a later call while a call waits.\<close>

definition wait_ok :: "queue_run \<Rightarrow> bool" where
  "wait_ok r \<longleftrightarrow> qr_waiting r = None \<or> \<not> mq_peek_keep (qr_queue r)"

lemma mq_op_keep: "mq_op now op q = (cleared, q') \<Longrightarrow> mq_peek_keep q' \<longrightarrow> mq_peek_keep q"
  by (cases op) (auto simp: mq_Quit_def mq_Restart_def mq_Clear_def Let_def mq_Post_def mq_PostDelayed_def
      mq_PostAt_def mq_DoDelayPost_def mq_Dispose_def mq_EnsureActive_def split: if_splits)

lemma wait_ok_turn: "\<not> mq_peek_keep (qr_queue r) \<Longrightarrow> wait_ok (turn ms start peeking now r)"
  by (auto simp: wait_ok_def turn_def get_pass_def Let_def split: prod.splits option.splits get_result.splits)

lemma wait_ok_step: "wait_ok r \<Longrightarrow> wait_ok (queue_step e r)"
proof (induction e r rule: queue_step.induct)
  case (1 now op r)
  then show ?case using mq_op_keep [of now op "qr_queue r"] by (auto simp: wait_ok_def split: prod.split)
next
  case (4 now ok r)
  then show ?case using wait_ok_turn [of r] by (auto simp: wait_ok_def [of r] split: option.split) (simp add: wait_ok_def)
qed (auto simp: Let_def wait_ok_turn, simp_all add: wait_ok_def)

locale queue_invariant =
  fixes I :: "queue_run \<Rightarrow> bool" and allowed :: "queue_op \<Rightarrow> bool"
  assumes quiet: "I r \<Longrightarrow> I (r\<lparr>qr_waiting := x, qr_returned := y\<rparr>)"
    and operation: "I r \<Longrightarrow> allowed op \<Longrightarrow> mq_op now op (qr_queue r) = (cleared, q) \<Longrightarrow>
      I (r\<lparr>qr_queue := q, qr_cleared := qr_cleared r @ cleared, qr_posted := qr_posted r @ new_message now op (qr_queue r)\<rparr>)"
    and peeked: "I r \<Longrightarrow> mq_peek_keep (qr_queue r) \<Longrightarrow>
      I (r\<lparr>qr_queue := (qr_queue r)\<lparr>mq_peek_keep := False\<rparr>, qr_delivered := qr_delivered r @ [mq_peek (qr_queue r)]\<rparr>)"
    and due: "I r \<Longrightarrow> take_due now (mq_delayed (qr_queue r)) (mq_msgs (qr_queue r)) = (ms, ds, n) \<Longrightarrow>
      I (r\<lparr>qr_queue := (qr_queue r)\<lparr>mq_msgs := ms, mq_delayed := ds\<rparr>\<rparr>)"
    and dispose: "I r \<Longrightarrow> mq_msgs (qr_queue r) = skipped @ rest \<Longrightarrow>
      I (r\<lparr>qr_queue := (qr_queue r)\<lparr>mq_msgs := rest\<rparr>, qr_disposed := qr_disposed r @ skipped\<rparr>)"
    and get_one: "I r \<Longrightarrow> mq_msgs (qr_queue r) = m # rest \<Longrightarrow>
      I (r\<lparr>qr_queue := (qr_queue r)\<lparr>mq_msgs := rest\<rparr>, qr_delivered := qr_delivered r @ [m]\<rparr>)"
    and peek_one: "I r \<Longrightarrow> \<not> mq_peek_keep (qr_queue r) \<Longrightarrow> mq_msgs (qr_queue r) = m # rest \<Longrightarrow>
      I (r\<lparr>qr_queue := (qr_queue r)\<lparr>mq_msgs := rest, mq_peek := m, mq_peek_keep := True\<rparr>\<rparr>)"
begin

lemma pull_parts: "pull ms = (m, rest, skipped) \<Longrightarrow> ms = skipped @ (case m of None \<Rightarrow> [] | Some x \<Rightarrow> [x]) @ rest \<and> (m = None \<longrightarrow> rest = [])"
  by (induction ms arbitrary: m rest skipped rule: pull.induct) (auto split: if_splits prod.splits)

lemma returned: "I r \<Longrightarrow> I (r\<lparr>qr_returned := y\<rparr>)"
  using quiet [where r = r and x = "qr_waiting r" and y = y] by simp

lemma waits: "I r \<Longrightarrow> I (r\<lparr>qr_waiting := x\<rparr>)"
  using quiet [where r = r and x = x and y = "qr_returned r"] by simp

lemma turn_keeps:
  assumes r: "I r" "\<not> mq_peek_keep (qr_queue r)"
  shows "I (turn ms start peeking now r)"
proof -
  let ?q = "qr_queue r"
  obtain ds n m rest skipped ms' where t: "take_due now (mq_delayed ?q) (mq_msgs ?q) = (ms', ds, n)"
    and p: "pull ms' = (m, rest, skipped)" by (metis prod_cases3)
  note parts = pull_parts [OF p]
  have 1: "I (r\<lparr>qr_queue := ?q\<lparr>mq_msgs := ms', mq_delayed := ds\<rparr>\<rparr>)" by (rule due [OF r(1) t])
  have 2: "I (r\<lparr>qr_queue := ?q\<lparr>mq_msgs := (case m of None \<Rightarrow> [] | Some x \<Rightarrow> [x]) @ rest, mq_delayed := ds\<rparr>,
      qr_disposed := qr_disposed r @ skipped\<rparr>)"
    using dispose [OF 1, of skipped "(case m of None \<Rightarrow> [] | Some x \<Rightarrow> [x]) @ rest"] parts
    by (simp add: queue_update_order)
  show ?thesis
  proof (cases m)
    case None
    then show ?thesis using quiet [OF 2] waits [OF 2] parts t p
      by (simp add: turn_def get_pass_def Let_def run_update_order)
  next
    case (Some x)
    have "I (r\<lparr>qr_disposed := qr_disposed r @ skipped, qr_queue := ?q\<lparr>mq_msgs := rest, mq_delayed := ds, mq_peek := x, mq_peek_keep := True\<rparr>\<rparr>)"
      using peek_one [OF 2, of x rest] r(2) Some by (simp add: run_update_order queue_update_order)
    note peek = quiet [OF this]
    have "I (r\<lparr>qr_disposed := qr_disposed r @ skipped, qr_queue := ?q\<lparr>mq_msgs := rest, mq_delayed := ds\<rparr>,
        qr_delivered := qr_delivered r @ [x]\<rparr>)"
      using get_one [OF 2, of x rest] Some by (simp add: run_update_order queue_update_order)
    note get = quiet [OF this]
    show ?thesis using t p Some peek get by (simp add: turn_def get_pass_def Let_def)
  qed
qed

lemma step_keeps:
  assumes "I r" "wait_ok r" "\<And>op. snd e = Do op \<Longrightarrow> allowed op"
  shows "I (queue_step e r)"
proof (cases "(e, r)" rule: queue_step.cases)
  case (1 now op r)
  obtain c q where "mq_op now op (qr_queue r) = (c, q)" by (cases "mq_op now op (qr_queue r)")
  then show ?thesis using operation [of r op now c q] assms 1 by simp
next
  case (2 now ms r)
  then show ?thesis using assms turn_keeps [of r] returned [OF peeked [of r]] by (simp add: Let_def)
next
  case (3 now ms r)
  then show ?thesis using assms turn_keeps [of r] returned [of r] by (simp add: Let_def)
next
  case (4 now ok r)
  then show ?thesis using assms turn_keeps [of r] returned [OF waits [of r]] by (auto simp: wait_ok_def split: option.split)
qed

lemma runs_keep:
  "I r \<Longrightarrow> wait_ok r \<Longrightarrow> list_all (\<lambda>(now, e). case e of Do op \<Rightarrow> allowed op | _ \<Rightarrow> True) evs \<Longrightarrow> I (queue_runs evs r)"
proof (induction evs arbitrary: r)
  case (Cons e evs)
  have "I (queue_step e r)" using Cons.prems by (intro step_keeps) auto
  then show ?case using Cons wait_ok_step by (simp add: queue_runs_def)
qed (simp add: queue_runs_def)

end

subsection \<open>No message is lost or made up\<close>

definition contents :: "message_queue \<Rightarrow> message multiset" where
  "contents q = mset (mq_msgs q) + image_mset dm_msg (mset (mq_delayed q)) + (if mq_peek_keep q then {#mq_peek q#} else {#})"

definition accounted :: "queue_run \<Rightarrow> bool" where
  "accounted r \<longleftrightarrow>
     mset (qr_posted r) = mset (qr_delivered r) + mset (qr_cleared r) + mset (qr_disposed r) + contents (qr_queue r)"

lemma mset_dm_push [simp]: "mset (dm_push d ds) = add_mset d (mset ds)"
  by (induction ds) simp_all

lemma take_due_mset:
  "take_due now ds ms = (ms', ds', n) \<Longrightarrow>
   mset ms' + image_mset dm_msg (mset ds') = mset ms + image_mset dm_msg (mset ds)"
  by (induction now ds ms rule: take_due.induct) (auto split: if_splits)

lemma contents_posted:
  "contents (mq_Post now h mid p s q) = contents q + mset (new_message now (OpPost h mid p s) q)"
  "contents (mq_PostDelayed now ms h mid p q) = contents q + mset (new_message now (OpPostDelayed ms h mid p) q)"
  "contents (mq_PostAt now t h mid p q) = contents q + mset (new_message now (OpPostAt t h mid p) q)"
  "contents (mq_Dispose now p q) = contents q + mset (new_message now (OpDispose p) q)"
  by (auto simp: contents_def new_message_def mq_Post_def mq_PostDelayed_def mq_PostAt_def mq_DoDelayPost_def
      mq_Dispose_def mq_EnsureActive_def Let_def)

lemma mset_parts:
  "mset ms = mset (filter P ms) + mset (filter (\<lambda>x. \<not> P x) ms)"
  "image_mset f (mset ds) = mset (map f (filter Q ds)) + image_mset f (mset (filter (\<lambda>x. \<not> Q x) ds))"
  by (induction ms; simp) (induction ds; simp)

lemma add_parts: "a = b + c \<Longrightarrow> d = e + f \<Longrightarrow> k = k1 + k2 \<Longrightarrow> a + d + k = k1 + b + e + (c + f + k2)"
  for a :: "'a multiset"
  by (simp add: ac_simps)

lemma contents_cleared:
  assumes "mq_Clear h mid q = (out, q')" shows "contents q = mset out + contents q'"
proof -
  let ?hit = "mq_peek_keep q \<and> Match h mid (mq_peek q)"
  have "contents q = mset (if ?hit then [mq_peek q] else []) + mset (filter (Match h mid) (mq_msgs q))
      + mset (map dm_msg (filter (\<lambda>d. Match h mid (dm_msg d)) (mq_delayed q)))
      + (mset (filter (\<lambda>m. \<not> Match h mid m) (mq_msgs q)) + image_mset dm_msg (mset (filter (\<lambda>d. \<not> Match h mid (dm_msg d)) (mq_delayed q)))
         + (if \<not> ?hit \<and> mq_peek_keep q then {#mq_peek q#} else {#}))"
    unfolding contents_def by (intro add_parts mset_parts) auto
  then show ?thesis
    using assms by (cases ?hit) (auto simp: mq_Clear_def Let_def contents_def add.assoc simp del: mset_filter)
qed

lemma contents_others:
  "contents (mq_Quit q) = contents q" "contents (mq_Restart q) = contents q"
  "new_message now OpQuit q = []" "new_message now OpRestart q = []" "new_message now (OpClear h mid) q = []"
  by (simp_all add: contents_def mq_Quit_def mq_Restart_def new_message_def)

lemma accounted_op:
  assumes "accounted r" "mq_op now op (qr_queue r) = (cleared, q)"
  shows "accounted (r\<lparr>qr_queue := q, qr_cleared := qr_cleared r @ cleared, qr_posted := qr_posted r @ new_message now op (qr_queue r)\<rparr>)"
proof -
  let ?q = "qr_queue r"
  have "contents ?q + mset (new_message now op ?q) = mset cleared + contents q"
    using assms(2) by (cases op) (auto simp: contents_posted contents_others contents_cleared)
  then show ?thesis using assms(1) by (auto simp: accounted_def ac_simps)
qed

interpretation accounts: queue_invariant accounted "\<lambda>op. True"
proof
  fix r cleared q op now
  assume "accounted r" "mq_op now op (qr_queue r) = (cleared, q)"
  then show "accounted (r\<lparr>qr_queue := q, qr_cleared := qr_cleared r @ cleared, qr_posted := qr_posted r @ new_message now op (qr_queue r)\<rparr>)"
    by (rule accounted_op)
next
  fix r now ms ds n
  assume "accounted r" "take_due now (mq_delayed (qr_queue r)) (mq_msgs (qr_queue r)) = (ms, ds, n)"
  then show "accounted (r\<lparr>qr_queue := (qr_queue r)\<lparr>mq_msgs := ms, mq_delayed := ds\<rparr>\<rparr>)"
    using take_due_mset by (fastforce simp: accounted_def contents_def)
qed (auto simp: accounted_def contents_def)


subsection \<open>Delayed messages come in time order\<close>

definition in_order :: "delayed_message list \<Rightarrow> bool" where
  "in_order ds \<longleftrightarrow> sorted_wrt (\<lambda>a b. \<not> dm_less a b) ds"

lemma dm_less_trans: "\<not> dm_less a b \<Longrightarrow> \<not> dm_less b c \<Longrightarrow> \<not> dm_less a c"
  and dm_less_total: "dm_less a b \<Longrightarrow> \<not> dm_less b a"
  by (auto simp: dm_less_def)

lemma set_dm_push: "set (dm_push d ds) = insert d (set ds)"
  by (induction ds) auto

lemma in_order_push: "in_order ds \<Longrightarrow> in_order (dm_push d ds)"
  unfolding in_order_def
  by (induction ds) (auto simp: set_dm_push dest: dm_less_total dm_less_trans)

lemma in_order_filter: "in_order ds \<Longrightarrow> in_order (filter P ds)"
  by (simp add: in_order_def sorted_wrt_filter)

lemma take_due_drops: "take_due now ds ms = (ms', ds', n) \<Longrightarrow> \<exists>k. ds' = drop k ds"
proof (induction now ds ms arbitrary: ms' ds' n rule: take_due.induct)
  case (2 now d ds ms)
  then show ?case by (auto split: if_splits intro: exI [of _ 0] exI [of _ "Suc _"])
qed simp

lemma in_order_op:
  assumes "in_order (mq_delayed q)" "mq_op now op q = (cleared, q')" shows "in_order (mq_delayed q')"
  using assms
  by (cases op) (auto simp: mq_Quit_def mq_Restart_def mq_Clear_def Let_def mq_Post_def mq_PostDelayed_def
      mq_PostAt_def mq_DoDelayPost_def mq_Dispose_def mq_EnsureActive_def in_order_push in_order_filter
      split: if_splits)

interpretation ordered: queue_invariant "\<lambda>r. in_order (mq_delayed (qr_queue r))" "\<lambda>op. True"
proof
  fix r now ms ds n
  assume "in_order (mq_delayed (qr_queue r))" "take_due now (mq_delayed (qr_queue r)) (mq_msgs (qr_queue r)) = (ms, ds, n)"
  then show "in_order (mq_delayed (qr_queue (r\<lparr>qr_queue := (qr_queue r)\<lparr>mq_msgs := ms, mq_delayed := ds\<rparr>\<rparr>)))"
    using take_due_drops by (fastforce simp: in_order_def intro: sorted_wrt_drop)
qed (simp_all add: in_order_op)

text \<open>While the stamps do not wrap, those that are due are those that come first.\<close>

lemma take_due_splits:
  assumes "in_order ds" "list_all (\<lambda>d. TimeIsLater now (dm_trigger d) \<longleftrightarrow> now < dm_trigger d) ds"
    and "take_due now ds ms = (ms', ds', n)"
  shows "ms' = ms @ map dm_msg (filter (\<lambda>d. dm_trigger d \<le> now) ds) \<and> ds' = filter (\<lambda>d. now < dm_trigger d) ds"
  using assms
proof (induction now ds ms arbitrary: ms' ds' n rule: take_due.induct)
  case (2 now d ds ms)
  show ?case
  proof (cases "now < dm_trigger d")
    case True
    have "\<forall>e\<in>set ds. now < dm_trigger e" using 2(2) True by (auto simp: in_order_def dm_less_def not_less)
    then show ?thesis using 2(3,4) True by (auto simp: filter_id_conv filter_empty_conv dest: leD)
  next
    case False then show ?thesis using 2 by (auto simp: in_order_def)
  qed
qed simp

lemma queue_in_order: "in_order (mq_delayed (qr_queue (queue_runs evs mq_run_start)))"
  by (rule ordered.runs_keep)
    (auto simp: in_order_def wait_ok_def mq_run_start_def mq_init_def list_all_iff split: queue_event.split)


definition sample_queue :: message_queue where
  "sample_queue = qr_queue (queue_runs
     [(100, Do (OpPostDelayed 50 (Some 1) 7 None)), (110, Do (OpPostDelayed 20 (Some 2) 8 None)),
      (120, Do (OpPost (Some 3) 9 None False))] mq_run_start)"

lemma sample_queue_state:
  "list_all (\<lambda>d. TimeIsLater 140 (dm_trigger d) \<longleftrightarrow> 140 < dm_trigger d) (mq_delayed sample_queue)"
  "map (\<lambda>d. m_handler (dm_msg d)) (filter (\<lambda>d. dm_trigger d \<le> 140) (mq_delayed sample_queue)) = [Some 2]"
  "map m_handler (mq_msgs sample_queue) = [Some 3]" "map m_id (mq_msgs sample_queue) = [9]"
  by code_simp+


subsection \<open>Stamps beyond the wrap\<close>

text \<open>
  Two messages are posted shortly before the clock wraps, the first for after the wrap; then the owner
  waits for a message, when the second is due.
\<close>

definition at_the_wrap :: "(32 word \<times> queue_event) list" where
  "at_the_wrap =
     [(0xFFFFFC00, Do (OpPostDelayed 2000 (Some 1) 0 None)), (0xFFFFFC00, Do (OpPostDelayed 10 (Some 2) 0 None)),
      (0xFFFFFE00, CallGet kForever)]"

text \<open>Around the wrap of the clock a message that is due can be held up: the delayed messages are ordered
  by their stamps as plain numbers, so one for after the wrap comes before one whose time has come, and
  \<open>Get\<close> goes on waiting with a message in the queue that is due (here for half a second already).\<close>

theorem due_message_is_held_up:
  "\<exists>evs now d. (let r = queue_runs (evs @ [(now, CallGet kForever)]) mq_run_start in
     d \<in> set (mq_delayed (qr_queue r)) \<and> TimeDiff now (dm_trigger d) = 502
     \<and> qr_waiting r = Some (kForever, now, False) \<and> qr_delivered r = [])"
proof -
  let ?r = "queue_runs at_the_wrap mq_run_start"
  have d: "list_ex (\<lambda>d. TimeDiff 0xFFFFFE00 (dm_trigger d) = 502) (mq_delayed (qr_queue ?r))"
    and r: "qr_waiting ?r = Some (kForever, 0xFFFFFE00, False)" "qr_delivered ?r = []"
    by code_simp+
  from d obtain d where "d \<in> set (mq_delayed (qr_queue ?r))" "TimeDiff 0xFFFFFE00 (dm_trigger d) = 502"
    by (auto simp: list_ex_iff)
  moreover have "at_the_wrap = butlast at_the_wrap @ [(0xFFFFFE00, CallGet kForever)]" by (simp add: at_the_wrap_def)
  ultimately show ?thesis using r
    by (intro exI [of _ "butlast at_the_wrap"] exI [of _ "0xFFFFFE00"] exI [of _ d]) (simp only: Let_def simp_thms)
qed

subsection \<open>A handler that was cleared\<close>

fun posts_to :: "nat \<Rightarrow> queue_op \<Rightarrow> bool" where
  "posts_to h (OpPost h' mid p s) = (h' = Some h)"
| "posts_to h (OpPostDelayed ms h' mid p) = (h' = Some h)"
| "posts_to h (OpPostAt t h' mid p) = (h' = Some h)"
| "posts_to h _ = False"

definition no_more :: "nat \<Rightarrow> message list \<Rightarrow> queue_run \<Rightarrow> bool" where
  "no_more h before r \<longleftrightarrow>
     (\<forall>m\<in>set (mq_msgs (qr_queue r)) \<union> dm_msg ` set (mq_delayed (qr_queue r)). m_handler m \<noteq> Some h)
     \<and> (mq_peek_keep (qr_queue r) \<longrightarrow> m_handler (mq_peek (qr_queue r)) \<noteq> Some h)
     \<and> (\<exists>new. qr_delivered r = before @ new \<and> (\<forall>m\<in>set new. m_handler m \<noteq> Some h))"

lemma no_more_op:
  assumes "no_more h before r" "\<not> posts_to h op" "mq_op now op (qr_queue r) = (cleared, q)"
  shows "no_more h before (r\<lparr>qr_queue := q, qr_cleared := c, qr_posted := p\<rparr>)"
  using assms
  by (cases op) (auto simp: no_more_def mq_Quit_def mq_Restart_def mq_Clear_def Let_def mq_Post_def mq_PostDelayed_def
      mq_PostAt_def mq_DoDelayPost_def mq_Dispose_def mq_EnsureActive_def set_dm_push split: if_splits)

lemma no_more_due:
  "take_due now ds ms = (ms', ds', n) \<Longrightarrow> set ms' \<union> dm_msg ` set ds' = set ms \<union> dm_msg ` set ds"
  by (induction now ds ms arbitrary: ms' ds' n rule: take_due.induct) (auto split: if_splits)

interpretation cleared: queue_invariant "no_more h before" "\<lambda>op. \<not> posts_to h op" for h before
proof
  fix r now ms ds n
  assume r: "no_more h before r" and t: "take_due now (mq_delayed (qr_queue r)) (mq_msgs (qr_queue r)) = (ms, ds, n)"
  show "no_more h before (r\<lparr>qr_queue := (qr_queue r)\<lparr>mq_msgs := ms, mq_delayed := ds\<rparr>\<rparr>)"
    using r no_more_due [OF t] by (simp add: no_more_def)
qed (auto simp: no_more_op, auto simp: no_more_def)

text \<open>C34: After a handler was cleared no call of \<open>Get\<close> returns a message for it any more, neither one
  that was ready, nor a delayed one, nor one that was only peeked at, until somebody posts to it
  again.\<close>

theorem cleared_handler_gets_nothing:
  assumes "wait_ok r" and "list_all (\<lambda>(now, e). case e of Do op \<Rightarrow> \<not> posts_to h op | _ \<Rightarrow> True) evs"
  shows "list_all (\<lambda>m. m_handler m \<noteq> Some h)
    (drop (length (qr_delivered r))
      (qr_delivered (queue_runs evs (queue_step (now, Do (OpClear (Some h) MQID_ANY)) r))))"
proof -
  let ?r = "queue_step (now, Do (OpClear (Some h) MQID_ANY)) r"
  have "no_more h (qr_delivered r) ?r"
    by (auto simp: no_more_def mq_Clear_def Let_def Match_def split: if_splits)
  then have "no_more h (qr_delivered r) (queue_runs evs ?r)"
    using wait_ok_step [OF assms(1)] assms(2) by (rule cleared.runs_keep)
  then show ?thesis by (auto simp: no_more_def list_all_iff)
qed

lemma cleared_handler_gets_nothing_witness:
  "list_all (\<lambda>m. m_handler m \<noteq> Some 2)
    (drop 0 (qr_delivered (queue_runs [(0xFFFFFE00, CallGet kForever), (1500, WaitOver True)]
      (queue_step (0xFFFFFD00, Do (OpClear (Some 2) MQID_ANY)) (queue_runs (butlast at_the_wrap) mq_run_start)))))"
proof -
  have "wait_ok (queue_runs (butlast at_the_wrap) mq_run_start)"
    "length (qr_delivered (queue_runs (butlast at_the_wrap) mq_run_start)) = 0" by code_simp+
  then show ?thesis
    using cleared_handler_gets_nothing [of "queue_runs (butlast at_the_wrap) mq_run_start" 2
        "[(0xFFFFFE00, CallGet kForever), (1500, WaitOver True)]" "0xFFFFFD00"] by simp
qed

end
