(* ===== verification/RoomTasks.thy ===== *)
theory RoomTasks
  imports XmppTasks
begin

text \<open>
  The tasks around chat rooms and service discovery: \<open>talk/xmpp/mucroomlookuptask.cc\<close>,
  \<open>mucroomconfigtask.cc\<close>, \<open>mucroomdiscoverytask.cc\<close>, \<open>mucroomuniquehangoutidtask.cc\<close> and
  \<open>discoitemsquerytask.cc\<close>. Each is an \<open>IqTask\<close>: the task is the \<open>task_kind\<close> that its constructor gives, and
  \<open>HandleResult\<close> is the signal it makes of the stanza of type result (\<open>IqResult\<close> in \<open>Client\<close>). A null
  pointer that is followed is \<open>None\<close>.
\<close>

subsection \<open>Looking up a room\<close>

record muc_room_info =
  mr_jid :: jid
  mr_name :: string
  mr_domain :: string
  mr_hangout_id :: string

definition mr_full_name :: "muc_room_info \<Rightarrow> string" where
  "mr_full_name room = mr_name room @ ''@'' @ mr_domain room"

datatype lookup_signal = LookupResult muc_room_info | LookupError xml_element

definition MakeNameQuery :: "string \<Rightarrow> string \<Rightarrow> xml_element" where
  "MakeNameQuery room_name room_domain =
     AddElement
       (AddElement (new_element_ns QN_SEARCH_QUERY True)
         (Some (SetBodyText (new_element_ns QN_SEARCH_ROOM_NAME False) room_name)))
       (Some (SetBodyText (new_element_ns QN_SEARCH_ROOM_DOMAIN False) room_domain))"

definition MakeJidQuery :: "jid \<Rightarrow> xml_element" where
  "MakeJidQuery room_jid =
     AddElement (new_element QN_SEARCH_QUERY) (Some (SetBodyText (new_element QN_SEARCH_ROOM_JID) (Jid_Str room_jid)))"

definition MakeExternalIdQuery :: "string \<Rightarrow> string \<Rightarrow> xml_element" where
  "MakeExternalIdQuery external_id type =
     AddElement (new_element QN_SEARCH_QUERY)
       (Some (SetBodyText (SetAttr (new_element QN_SEARCH_EXTERNAL_ID) QN_TYPE type) external_id))"

definition MakeHangoutIdQuery :: "string \<Rightarrow> xml_element" where
  "MakeHangoutIdQuery hangout_id =
     AddElement (new_element_ns QN_SEARCH_QUERY True)
       (Some (SetBodyText (new_element_ns QN_SEARCH_HANGOUT_ID False) hangout_id))"

definition MucRoomLookupTask :: "jid \<Rightarrow> xml_element \<Rightarrow> task_kind" where
  "MucRoomLookupTask lookup_server_jid query = IqKind STR_SET lookup_server_jid query"

definition CreateLookupTaskForRoomName :: "jid \<Rightarrow> string \<Rightarrow> string \<Rightarrow> task_kind" where
  "CreateLookupTaskForRoomName server room_name room_domain =
     MucRoomLookupTask server (MakeNameQuery room_name room_domain)"

definition CreateLookupTaskForRoomJid :: "jid \<Rightarrow> jid \<Rightarrow> task_kind" where
  "CreateLookupTaskForRoomJid server room_jid = MucRoomLookupTask server (MakeJidQuery room_jid)"

definition CreateLookupTaskForHangoutId :: "jid \<Rightarrow> string \<Rightarrow> task_kind" where
  "CreateLookupTaskForHangoutId server hangout_id = MucRoomLookupTask server (MakeHangoutIdQuery hangout_id)"

definition CreateLookupTaskForExternalId :: "jid \<Rightarrow> string \<Rightarrow> string \<Rightarrow> task_kind" where
  "CreateLookupTaskForExternalId server external_id type =
     MucRoomLookupTask server (MakeExternalIdQuery external_id type)"

text \<open>The text of a child element, if it is there.\<close>

definition child_body :: "xml_element \<Rightarrow> qname \<Rightarrow> string" where
  "child_body e n = (case FirstNamed e n of None \<Rightarrow> [] | Some c \<Rightarrow> BodyText c)"

definition lookup_HandleResult :: "xml_element \<Rightarrow> lookup_signal" where
  "lookup_HandleResult stanza =
     (case FirstNamed stanza QN_SEARCH_QUERY of
        None \<Rightarrow> LookupError stanza
      | Some query_elem \<Rightarrow>
          (case FirstNamed query_elem QN_SEARCH_ITEM of
             None \<Rightarrow> LookupError stanza
           | Some item_elem \<Rightarrow>
               let room_jid = Jid_of_string (Attr item_elem QN_JID) in
               if \<not> Jid_IsValid room_jid then LookupError stanza
               else LookupResult
                 \<lparr>mr_jid = room_jid, mr_name = child_body item_elem QN_SEARCH_ROOM_NAME,
                  mr_domain = child_body item_elem QN_SEARCH_ROOM_DOMAIN,
                  mr_hangout_id = child_body item_elem QN_SEARCH_HANGOUT_ID\<rparr>))"

subsection \<open>Configuring a room\<close>

definition form_field :: "string \<Rightarrow> string \<Rightarrow> string list \<Rightarrow> xml_element" where
  "form_field var type values =
     fold (\<lambda>v e. AddElement e (Some (SetBodyText (new_element_ns QN_XDATA_VALUE False) v))) values
       (SetAttr (SetAttr (new_element_ns QN_XDATA_FIELD False) QN_VAR var) QN_TYPE type)"

definition config_MakeRequest :: "string \<Rightarrow> string list \<Rightarrow> xml_element" where
  "config_MakeRequest room_name room_features =
     (let x_form = SetAttr (new_element_ns QN_XDATA_X True) QN_TYPE STR_FORM;
          x1 = AddElement x_form (Some (form_field STR_MUC_ROOMCONFIG_ROOMNAME STR_TEXT_SINGLE [room_name]));
          x2 = AddElement x1 (Some (form_field STR_MUC_ROOMCONFIG_FEATURES STR_LIST_MULTI room_features)) in
      AddElement (new_element_ns QN_MUC_OWNER_QUERY True) (Some x2))"

definition MucRoomConfigTask :: "jid \<Rightarrow> string \<Rightarrow> string list \<Rightarrow> task_kind" where
  "MucRoomConfigTask room_jid room_name room_features = IqKind STR_SET room_jid (config_MakeRequest room_name room_features)"

subsection \<open>Asking a room for its features\<close>

text \<open>
  The result: whether the room exists, its name, its features and the extended information; the set and
  the map are those of the standard library.
\<close>

datatype discovery_signal =
    DiscoveryResult bool string "string set" "string \<Rightarrow> string option"
  | DiscoveryError

definition MucRoomDiscoveryTask :: "jid \<Rightarrow> task_kind" where
  "MucRoomDiscoveryTask room_jid = IqKind STR_GET room_jid (new_element QN_DISCO_INFO_QUERY)"

definition discovery_features :: "xml_element \<Rightarrow> string set" where
  "discovery_features query = set (map (\<lambda>f. Attr f QN_VAR) (named_elements QN_DISCO_FEATURE (elt_children query)))"

definition discovery_info :: "xml_element \<Rightarrow> string \<Rightarrow> string option" where
  "discovery_info query =
     (case FirstNamed query QN_XDATA_X of
        None \<Rightarrow> Map.empty
      | Some data_x \<Rightarrow>
          fold (\<lambda>field m. m(Attr field QN_VAR \<mapsto> Attr field QN_XDATA_VALUE))
            (named_elements QN_XDATA_FIELD (elt_children data_x)) Map.empty)"

definition discovery_HandleResult :: "xml_element \<Rightarrow> discovery_signal" where
  "discovery_HandleResult stanza =
     (case FirstNamed stanza QN_DISCO_INFO_QUERY of
        None \<Rightarrow> DiscoveryError
      | Some query \<Rightarrow>
          (case FirstNamed query QN_DISCO_IDENTITY of
             None \<Rightarrow> DiscoveryResult False [] {} Map.empty
           | Some identity \<Rightarrow>
               if \<not> HasAttr identity QN_NAME then DiscoveryResult False [] {} Map.empty
               else DiscoveryResult True (Attr identity QN_NAME) (discovery_features query) (discovery_info query)))"

subsection \<open>A unique id for a hangout\<close>

datatype unique_signal = UniqueResult string | UniqueError xml_element

definition MakeUniqueRequestXml :: xml_element where
  "MakeUniqueRequestXml = SetAttr (new_element_ns QN_MUC_UNIQUE_QUERY False) QN_HANGOUT_ID STR_TRUE"

definition MucRoomUniqueHangoutIdTask :: "jid \<Rightarrow> task_kind" where
  "MucRoomUniqueHangoutIdTask lookup_server_jid = IqKind STR_GET lookup_server_jid MakeUniqueRequestXml"

definition unique_HandleResult :: "xml_element \<Rightarrow> unique_signal" where
  "unique_HandleResult stanza =
     (case FirstNamed stanza QN_MUC_UNIQUE_QUERY of
        None \<Rightarrow> UniqueError stanza
      | Some unique_elem \<Rightarrow>
          if \<not> HasAttr unique_elem QN_HANGOUT_ID then UniqueError stanza
          else UniqueResult (Attr unique_elem QN_HANGOUT_ID))"

subsection \<open>The items of a service\<close>

record disco_item =
  di_jid :: string
  di_node :: string
  di_name :: string

datatype disco_signal = DiscoResult "disco_item list" | DiscoError

definition disco_MakeRequest :: "string \<Rightarrow> xml_element" where
  "disco_MakeRequest node =
     (let e = new_element_ns QN_DISCO_ITEMS_QUERY True in if node \<noteq> [] then AddAttr e QN_NODE node else e)"

definition DiscoItemsQueryTask :: "jid \<Rightarrow> string \<Rightarrow> task_kind" where
  "DiscoItemsQueryTask to node = IqKind STR_GET to (disco_MakeRequest node)"

definition disco_ParseItem :: "xml_element \<Rightarrow> disco_item option" where
  "disco_ParseItem e =
     (if HasAttr e QN_JID then None
      else Some \<lparr>di_jid = Attr e QN_JID, di_node = Attr e QN_NODE, di_name = Attr e QN_NAME\<rparr>)"

text \<open>The loop over the children; a text has no element.\<close>

fun disco_loop :: "xml_child list \<Rightarrow> disco_item list \<Rightarrow> disco_item list option" where
  "disco_loop [] items = Some items"
| "disco_loop (child # rest) items =
     (case AsElement child of
        None \<Rightarrow> None
      | Some e \<Rightarrow> disco_loop rest (case disco_ParseItem e of None \<Rightarrow> items | Some item \<Rightarrow> items @ [item]))"

definition disco_HandleResult :: "xml_element \<Rightarrow> disco_signal option" where
  "disco_HandleResult stanza =
     (case FirstNamed stanza QN_DISCO_ITEMS_QUERY of
        None \<Rightarrow> Some DiscoError
      | Some query \<Rightarrow> map_option DiscoResult (disco_loop (elt_children query) []))"

subsection \<open>What is not read\<close>

lemma disco_loop_items:
  "disco_loop cs items = Some out \<Longrightarrow>
   \<exists>new. out = items @ new \<and> (\<forall>i\<in>set new. di_jid i = []) \<and> length new = length (filter (\<lambda>e. \<not> HasAttr e QN_JID) (elements_of cs))"
proof (induction cs arbitrary: items)
  case (Cons c cs)
  obtain e where c: "c = XmlElem e" using Cons.prems by (cases c) auto
  show ?case
  proof (cases "HasAttr e QN_JID")
    case True
    then show ?thesis using Cons.IH [of items] Cons.prems c by (simp add: disco_ParseItem_def)
  next
    case False
    let ?i = "\<lparr>di_jid = Attr e QN_JID, di_node = Attr e QN_NODE, di_name = Attr e QN_NAME\<rparr>"
    have "disco_loop cs (items @ [?i]) = Some out" using Cons.prems c False by (simp add: disco_ParseItem_def)
    from Cons.IH [OF this] obtain new where "out = (items @ [?i]) @ new" "\<forall>i\<in>set new. di_jid i = []"
      "length new = length (filter (\<lambda>e. \<not> HasAttr e QN_JID) (elements_of cs))" by blast
    then show ?thesis using c False by (intro exI [of _ "?i # new"]) (simp add: Attr_absent)
  qed
qed simp

text \<open>The items of a service never arrive: the test for the \<open>jid\<close> attribute is the wrong way round, so
  of the items that a service lists those with a jid are dropped, and each item in the result (one
  for every element without that attribute) has the empty jid.\<close>

theorem disco_items_lose_their_jid:
  assumes "disco_HandleResult stanza = Some (DiscoResult items)"
  shows "list_all (\<lambda>i. di_jid i = []) items
    \<and> (\<exists>query. FirstNamed stanza QN_DISCO_ITEMS_QUERY = Some query
         \<and> length items = length (filter (\<lambda>e. \<not> HasAttr e QN_JID) (elements_of (elt_children query))))"
  using assms disco_loop_items [of _ "[]" items]
  by (auto simp: disco_HandleResult_def list_all_iff split: option.splits)

definition sample_service :: xml_element where
  "sample_service =
     AddElement (new_element QN_IQ) (Some (AddElement
       (AddElement (new_element QN_DISCO_ITEMS_QUERY) (Some (AddAttr (new_element QN_DISCO_ITEM) QN_JID ''room@b'')))
       (Some (AddAttr (new_element QN_DISCO_ITEM) QN_NAME ''no jid''))))"

lemma sample_service_result:
  "disco_HandleResult sample_service = Some (DiscoResult [\<lparr>di_jid = [], di_node = [], di_name = ''no jid''\<rparr>])"
  by code_simp

lemma disco_items_lose_their_jid_witness:
  "list_all (\<lambda>i. di_jid i = []) [\<lparr>di_jid = [], di_node = [], di_name = ''no jid''\<rparr>]"
  using disco_items_lose_their_jid [OF sample_service_result] by blast

end
