(* ===== verification/PubSubs.thy ===== *)
theory PubSubs
  imports XmppTasks Client
begin

text \<open>
  Publish-subscribe: the tasks of \<open>talk/xmpp/pubsubtasks.cc\<close>, the client on top of them
  (\<open>pubsubclient.cc\<close>), and the base class \<open>PubsubTask\<close> (\<open>pubsub_task.cc\<close>). The tasks are the \<open>task_kind\<close>s
  that their constructors give and run in \<open>Client\<close>; an operation of the client is the list of operations
  that it does there, and its slots turn what the tasks signal into the signals of the client.
\<close>

subsection \<open>Elements\<close>

definition IsPubSubEventItemsElem :: "xml_element \<Rightarrow> string \<Rightarrow> bool" where
  "IsPubSubEventItemsElem stanza expected_node =
     (if elt_name stanza \<noteq> QN_MESSAGE then False
      else case FirstNamed stanza QN_PUBSUB_EVENT of
        None \<Rightarrow> False
      | Some event_elem \<Rightarrow>
          (case FirstNamed event_elem QN_PUBSUB_EVENT_ITEMS of
             None \<Rightarrow> False
           | Some items_elem \<Rightarrow> Attr items_elem QN_NODE = expected_node))"

definition CreatePubSubItemsElem :: "string \<Rightarrow> xml_element" where
  "CreatePubSubItemsElem node =
     AddElement (new_element_ns QN_PUBSUB False)
       (Some (AddAttr (new_element_ns QN_PUBSUB_ITEMS False) QN_NODE node))"

text \<open>The \<open>item\<close> of a publication.\<close>

definition publish_item :: "string \<Rightarrow> xml_element list \<Rightarrow> xml_element" where
  "publish_item itemid children =
     fold (\<lambda>child e. AddElement e (Some child)) children (AddAttr (new_element_ns QN_PUBSUB_ITEM False) QN_ID itemid)"

definition CreatePubSubPublishItemElem :: "string \<Rightarrow> string \<Rightarrow> xml_element list \<Rightarrow> xml_element" where
  "CreatePubSubPublishItemElem node itemid children =
     AddElement (new_element_ns QN_PUBSUB True)
       (Some (AddElement (AddAttr (new_element_ns QN_PUBSUB_PUBLISH False) QN_NODE node)
         (Some (publish_item itemid children))))"

definition CreatePubSubRetractItemElem :: "string \<Rightarrow> string \<Rightarrow> xml_element" where
  "CreatePubSubRetractItemElem node itemid =
     AddElement (new_element_ns QN_PUBSUB True)
       (Some (AddElement (AddAttr (AddAttr (new_element_ns QN_PUBSUB_RETRACT False) QN_NODE node) QN_NOTIFY ''true'')
         (Some (AddAttr (new_element_ns QN_PUBSUB_ITEM False) QN_ID itemid))))"

record pubsub_item =
  pi_itemid :: string
  pi_elem :: xml_element

definition pubsub_ParseItem :: "xml_element \<Rightarrow> pubsub_item" where
  "pubsub_ParseItem item_elem = \<lparr>pi_itemid = Attr item_elem QN_ID, pi_elem = item_elem\<rparr>"

definition ParseRetract :: "xml_element \<Rightarrow> pubsub_item" where
  "ParseRetract retract_elem = pubsub_ParseItem retract_elem"

definition ParseEventItemsElem :: "xml_element \<Rightarrow> pubsub_item list" where
  "ParseEventItemsElem stanza =
     (case FirstNamed stanza QN_PUBSUB_EVENT of
        None \<Rightarrow> []
      | Some event_elem \<Rightarrow>
          (case FirstNamed event_elem QN_PUBSUB_EVENT_ITEMS of
             None \<Rightarrow> []
           | Some items_elem \<Rightarrow>
               map pubsub_ParseItem (named_elements QN_PUBSUB_EVENT_ITEM (elt_children items_elem))
               @ map ParseRetract (named_elements QN_PUBSUB_EVENT_RETRACT (elt_children items_elem))))"

definition ParsePubSubItemsElem :: "xml_element \<Rightarrow> pubsub_item list" where
  "ParsePubSubItemsElem stanza =
     (case FirstNamed stanza QN_PUBSUB of
        None \<Rightarrow> []
      | Some pubsub_elem \<Rightarrow>
          (case FirstNamed pubsub_elem QN_PUBSUB_ITEMS of
             None \<Rightarrow> []
           | Some items_elem \<Rightarrow> map pubsub_ParseItem (named_elements QN_PUBSUB_ITEM (elt_children items_elem))))"

subsection \<open>The tasks\<close>

definition PubSubRequestTask :: "jid \<Rightarrow> string \<Rightarrow> task_kind" where
  "PubSubRequestTask pubsubjid node = IqKind STR_GET pubsubjid (CreatePubSubItemsElem node)"

definition PubSubReceiveTask :: "jid \<Rightarrow> string \<Rightarrow> task_kind" where
  "PubSubReceiveTask pubsubjid node =
     ReceiveKind (\<lambda>me stanza. MatchStanzaFrom me stanza pubsubjid \<and> IsPubSubEventItemsElem stanza node)"

definition PubSubPublishTask :: "jid \<Rightarrow> string \<Rightarrow> string \<Rightarrow> xml_element list \<Rightarrow> task_kind" where
  "PubSubPublishTask pubsubjid node itemid children =
     IqKind STR_SET pubsubjid (CreatePubSubPublishItemElem node itemid children)"

definition PubSubRetractTask :: "jid \<Rightarrow> string \<Rightarrow> string \<Rightarrow> task_kind" where
  "PubSubRetractTask pubsubjid node itemid = IqKind STR_SET pubsubjid (CreatePubSubRetractItemElem node itemid)"

subsection \<open>The client\<close>

record pubsub_client =
  ps_parent :: nat
  ps_pubsubjid :: jid
  ps_node :: string

text \<open>The operations; \<open>a\<close> and \<open>b\<close> are the addresses of the tasks that are made, in the order in which they are.\<close>

definition RequestItems :: "pubsub_client \<Rightarrow> nat \<Rightarrow> nat \<Rightarrow> client_op list" where
  "RequestItems p a b =
     [NewTask (ps_parent p) (PubSubRequestTask (ps_pubsubjid p) (ps_node p)),
      NewTask (ps_parent p) (PubSubReceiveTask (ps_pubsubjid p) (ps_node p)), StartOp b, StartOp a]"

definition PublishItem :: "pubsub_client \<Rightarrow> string \<Rightarrow> xml_element list \<Rightarrow> nat \<Rightarrow> client_op list" where
  "PublishItem p itemid children a =
     [NewTask (ps_parent p) (PubSubPublishTask (ps_pubsubjid p) (ps_node p) itemid children), StartOp a]"

definition PublishItem_payload :: "pubsub_client \<Rightarrow> string \<Rightarrow> xml_element \<Rightarrow> nat \<Rightarrow> client_op list" where
  "PublishItem_payload p itemid payload = PublishItem p itemid [payload]"

definition RetractItem :: "pubsub_client \<Rightarrow> string \<Rightarrow> nat \<Rightarrow> client_op list" where
  "RetractItem p itemid a =
     [NewTask (ps_parent p) (PubSubRetractTask (ps_pubsubjid p) (ps_node p) itemid), StartOp a]"

definition GetItemFromStanza :: "xml_element option \<Rightarrow> xml_element option" where
  "GetItemFromStanza stanza =
     (case stanza of
        None \<Rightarrow> None
      | Some s \<Rightarrow>
          (case FirstNamed s QN_PUBSUB of
             None \<Rightarrow> None
           | Some pubsub \<Rightarrow>
               (case FirstNamed pubsub QN_PUBSUB_PUBLISH of
                  None \<Rightarrow> None
                | Some publish \<Rightarrow> FirstNamed publish QN_PUBSUB_ITEM)))"

datatype pubsub_signal =
    SignalItems "pubsub_item list"
  | SignalItemsError "xml_element option" \<comment> \<open>\<open>SignalRequestError\<close>\<close>
  | SignalPublishResult string "xml_element option"
  | SignalPublishError string "xml_element option" "xml_element option"
  | SignalRetractResult string
  | SignalRetractError string "xml_element option"

definition OnRequestResult :: "pubsub_item list \<Rightarrow> pubsub_signal" where
  "OnRequestResult items = SignalItems items"

definition OnRequestError :: "xml_element option \<Rightarrow> pubsub_signal" where
  "OnRequestError stanza = SignalItemsError stanza"

definition OnReceiveUpdate :: "pubsub_item list \<Rightarrow> pubsub_signal" where
  "OnReceiveUpdate items = SignalItems items"

text \<open>The slots of a publication and of a retraction get the task: its id and the stanza that it sent.\<close>

definition OnPublishResult :: "string \<Rightarrow> xml_element \<Rightarrow> pubsub_signal" where
  "OnPublishResult task_id stanza = SignalPublishResult task_id (GetItemFromStanza (Some stanza))"

definition OnPublishError :: "string \<Rightarrow> xml_element \<Rightarrow> xml_element option \<Rightarrow> pubsub_signal" where
  "OnPublishError task_id stanza err = SignalPublishError task_id (GetItemFromStanza (Some stanza)) err"

definition OnRetractResult :: "string \<Rightarrow> pubsub_signal" where
  "OnRetractResult task_id = SignalRetractResult task_id"

definition OnRetractError :: "string \<Rightarrow> xml_element option \<Rightarrow> pubsub_signal" where
  "OnRetractError task_id stanza = SignalRetractError task_id stanza"

text \<open>
  Which slot hears which task: what the client signals when its task of the given class, with id
  \<open>iqid\<close> and request \<open>sent\<close>, makes the event. The \<open>HandleResult\<close> and \<open>ReceiveStanza\<close> of the classes are
  in here: they parse the items and signal.
\<close>

datatype pubsub_class = RequestClass | ReceiveClass | PublishClass | RetractClass

definition RequestTask_HandleResult :: "xml_element \<Rightarrow> pubsub_signal" where
  "RequestTask_HandleResult stanza = OnRequestResult (ParsePubSubItemsElem stanza)"

definition ReceiveTask_ReceiveStanza :: "xml_element \<Rightarrow> pubsub_signal" where
  "ReceiveTask_ReceiveStanza stanza = OnReceiveUpdate (ParseEventItemsElem stanza)"

fun pubsub_slot :: "pubsub_class \<Rightarrow> string \<Rightarrow> xml_element \<Rightarrow> client_event \<Rightarrow> pubsub_signal list" where
  "pubsub_slot RequestClass iqid sent (IqResult a stanza) = [RequestTask_HandleResult stanza]"
| "pubsub_slot RequestClass iqid sent (IqError a err) = [OnRequestError err]"
| "pubsub_slot ReceiveClass iqid sent (StanzaReceived a stanza) = [ReceiveTask_ReceiveStanza stanza]"
| "pubsub_slot PublishClass iqid sent (IqResult a stanza) = [OnPublishResult iqid sent]"
| "pubsub_slot PublishClass iqid sent (IqError a err) = [OnPublishError iqid sent err]"
| "pubsub_slot RetractClass iqid sent (IqResult a stanza) = [OnRetractResult iqid]"
| "pubsub_slot RetractClass iqid sent (IqError a err) = [OnRetractError iqid err]"
| "pubsub_slot cl iqid sent ev = []"

subsection \<open>The base class PubsubTask\<close>

text \<open>
  \<open>pubsub_task.cc\<close>: \<open>HandleStanza\<close> queues an inner element of a stanza it wants. A handler of a derived class is
  a value of type \<open>'h\<close>; what it does to the subscriptions comes as a later operation.
\<close>

type_synonym 'h subscriptions = "string \<Rightarrow> 'h option"

definition PubsubTask_HandleStanza :: "jid \<Rightarrow> jid \<Rightarrow> string \<Rightarrow> xml_element \<Rightarrow> xml_element option" where
  "PubsubTask_HandleStanza me node_jid iqid stanza =
     (if elt_name stanza = QN_MESSAGE then
        if MatchStanzaFrom me stanza node_jid then FirstNamed stanza QN_PUBSUB_EVENT else None
      else if elt_name stanza = QN_IQ then
        if MatchResponseIq me stanza node_jid iqid then FirstNamed stanza QN_PUBSUB else None
      else None)"

text \<open>The request of \<open>SubscribeToNode\<close>, and the operation, given whether the stanza could be sent.\<close>

definition subscribe_request :: "jid \<Rightarrow> string \<Rightarrow> string \<Rightarrow> xml_element" where
  "subscribe_request node_jid iqid node =
     AddElement (MakeIq STR_GET node_jid iqid)
       (Some (AddElement (new_element_ns QN_PUBSUB True)
         (Some (AddAttr (new_element_ns QN_PUBSUB_ITEMS True) QN_NODE node))))"

definition SubscribeToNode :: "string \<Rightarrow> 'h \<Rightarrow> bool \<Rightarrow> 'h subscriptions \<Rightarrow> bool \<times> 'h subscriptions" where
  "SubscribeToNode node handler sent subs = (sent, subs(node \<mapsto> handler))"

definition UnsubscribeFromNode :: "string \<Rightarrow> 'h subscriptions \<Rightarrow> 'h subscriptions" where
  "UnsubscribeFromNode node subs = subs(node := None)"

text \<open>
  The loop over the items: at an element of another name it continues with the same element. \<open>None\<close> is
  the loop that does not end.
\<close>

definition foreign_item :: "xml_element \<Rightarrow> bool" where
  "foreign_item item \<longleftrightarrow> elt_name item \<noteq> QN_PUBSUB_EVENT_ITEM \<and> elt_name item \<noteq> QN_PUBSUB_EVENT_RETRACT
     \<and> elt_name item \<noteq> QN_PUBSUB_ITEM"

partial_function (option) items_loop ::
  "'h \<Rightarrow> (xml_element \<times> xml_child list) option \<Rightarrow> ('h \<times> xml_element) list \<Rightarrow> ('h \<times> xml_element) list option" where
  "items_loop handler cur calls =
     (case cur of
        None \<Rightarrow> Some calls
      | Some (item, rest) \<Rightarrow>
          if foreign_item item then items_loop handler cur calls
          else items_loop handler (NextElement rest) (calls @ [(handler, item)]))"

definition HandlePubsubItems ::
  "'h subscriptions \<Rightarrow> xml_element \<Rightarrow> ('h \<times> xml_element) list \<Rightarrow> ('h \<times> xml_element) list option" where
  "HandlePubsubItems subs items calls =
     (case subs (Attr items QN_NODE) of
        None \<Rightarrow> Some calls
      | Some handler \<Rightarrow> items_loop handler (NextElement (elt_children items)) calls)"

text \<open>How the handling of one stanza ends: with the calls made, or at a null pointer (a text child).\<close>

datatype 'h handled = Called "('h \<times> xml_element) list" | NullFollowed

fun items_children ::
  "'h subscriptions \<Rightarrow> qname \<Rightarrow> xml_child list \<Rightarrow> ('h \<times> xml_element) list \<Rightarrow> 'h handled option" where
  "items_children subs name [] calls = Some (Called calls)"
| "items_children subs name (child # rest) calls =
     (case AsElement child of
        None \<Rightarrow> Some NullFollowed
      | Some e \<Rightarrow>
          if elt_name e = name then
            (case HandlePubsubItems subs e calls of
               None \<Rightarrow> None
             | Some calls' \<Rightarrow> items_children subs name rest calls')
          else items_children subs name rest calls)"

definition HandlePubsubEventMessage :: "'h subscriptions \<Rightarrow> xml_element \<Rightarrow> 'h handled option" where
  "HandlePubsubEventMessage subs pubsub_event =
     items_children subs QN_PUBSUB_EVENT_ITEMS (elt_children pubsub_event) []"

definition HandlePubsubIqGetResponse :: "'h subscriptions \<Rightarrow> xml_element \<Rightarrow> 'h handled option" where
  "HandlePubsubIqGetResponse subs pubsub_iq_response =
     items_children subs QN_PUBSUB_ITEMS (elt_children pubsub_iq_response) []"

text \<open>\<open>ProcessResponse\<close> on the stanza from the queue: an error goes to \<open>OnPubsubError\<close>.\<close>

datatype 'h pubsub_step = StepBlocked | StepError "xml_element option" | StepHandled "'h handled"

definition PubsubTask_ProcessResponse :: "'h subscriptions \<Rightarrow> xml_element option \<Rightarrow> 'h pubsub_step option" where
  "PubsubTask_ProcessResponse subs queued =
     (case queued of
        None \<Rightarrow> Some StepBlocked
      | Some stanza \<Rightarrow>
          if Attr stanza QN_TYPE = STR_ERROR then Some (StepError (FirstNamed stanza QN_ERROR))
          else if elt_name stanza = QN_PUBSUB_EVENT then map_option StepHandled (HandlePubsubEventMessage subs stanza)
          else if elt_name stanza = QN_PUBSUB then map_option StepHandled (HandlePubsubIqGetResponse subs stanza)
          else Some (StepHandled (Called [])))"

subsection \<open>When the loop ends\<close>

lemma NextElement_elements:
  "(case NextElement cs of None \<Rightarrow> elements_of cs = [] | Some (e, rest) \<Rightarrow> elements_of cs = e # elements_of rest)"
  using next_where_elements [of "\<lambda>_. True" cs]
  by (auto simp: NextElement_def split: option.splits prod.splits)

lemma items_loop_ends:
  assumes "items_loop (handler :: 'h) cur calls = Some out"
  shows "case cur of None \<Rightarrow> out = calls
    | Some (item, rest) \<Rightarrow> list_all (\<lambda>e. \<not> foreign_item e) (item # elements_of rest)
        \<and> out = calls @ map (Pair handler) (item # elements_of rest)"
proof (rule items_loop.raw_induct [rotated, OF assms, where P = "\<lambda>handler cur calls out. case cur of
    None \<Rightarrow> out = calls
  | Some (item, rest) \<Rightarrow> list_all (\<lambda>e. \<not> foreign_item e) (item # elements_of rest)
      \<and> out = calls @ map (Pair handler) (item # elements_of rest)"], goal_cases)
  case (1 loop handler cur calls out)
  show ?case
  proof (cases cur)
    case (Some p)
    obtain item rest where p: "p = (item, rest)" by (cases p)
    have "\<not> foreign_item item"
      using 1(1) [of handler cur calls out] 1(2) Some p by (auto split: if_splits)
    then show ?thesis
      using 1(1) [of handler "NextElement rest" "calls @ [(handler, item)]" out] 1(2) Some p NextElement_elements [of rest]
      by (auto split: option.splits prod.splits)
  qed (use 1 in simp)
qed

lemma items_loop_runs:
  "list_all (\<lambda>e. \<not> foreign_item e) (elements_of cs) \<Longrightarrow>
   items_loop handler (NextElement cs) calls = Some (calls @ map (Pair handler) (elements_of cs))"
proof (induction "elements_of cs" arbitrary: cs calls)
  case Nil
  then show ?case using NextElement_elements [of cs] by (subst items_loop.simps) (auto split: option.splits)
next
  case (Cons e es)
  then obtain rest where n: "NextElement cs = Some (e, rest)" and es: "elements_of rest = es"
    using NextElement_elements [of cs] by (auto split: option.splits)
  have "items_loop handler (NextElement rest) (calls @ [(handler, e)])
      = Some ((calls @ [(handler, e)]) @ map (Pair handler) (elements_of rest))"
    using Cons.hyps Cons.prems es by (metis list.pred_inject(2))
  moreover have "\<not> foreign_item e" using Cons.prems unfolding Cons.hyps(2) [symmetric] by simp
  ultimately show ?case using n es unfolding Cons.hyps(2) [symmetric] by (subst items_loop.simps) auto
qed

text \<open>
  C35: The handling of published items returns exactly when every element in the list is an item or a
  retraction, or nobody subscribed to the node; then the handler was called once for every element, in
  their order. At any other element the loop stays where it is for ever.
\<close>

theorem pubsub_items_return_iff:
  "HandlePubsubItems subs items calls =
     (case subs (Attr items QN_NODE) of
        None \<Rightarrow> Some calls
      | Some handler \<Rightarrow>
          if list_all (\<lambda>e. \<not> foreign_item e) (elements_of (elt_children items))
          then Some (calls @ map (Pair handler) (elements_of (elt_children items))) else None)"
proof (cases "subs (Attr items QN_NODE)")
  case (Some handler)
  show ?thesis
  proof (cases "list_all (\<lambda>e. \<not> foreign_item e) (elements_of (elt_children items))")
    case False
    have "items_loop handler (NextElement (elt_children items)) calls \<noteq> Some out" for out
      using False items_loop_ends [of handler "NextElement (elt_children items)" calls out]
        NextElement_elements [of "elt_children items"]
      by (auto split: option.splits)
    then have "items_loop handler (NextElement (elt_children items)) calls = None" by (meson not_Some_eq)
    then show ?thesis using False Some by (simp add: HandlePubsubItems_def)
  qed (use Some in \<open>simp add: HandlePubsubItems_def items_loop_runs\<close>)
qed (simp add: HandlePubsubItems_def)

subsection \<open>What was published is what is signalled\<close>

lemma publish_item_parts:
  "elt_name (publish_item itemid children) = QN_PUBSUB_ITEM" "Attr (publish_item itemid children) QN_ID = itemid"
  "elements_of (elt_children (publish_item itemid children)) = children"
proof -
  have f: "elt_name (fold (\<lambda>c e. AddElement e (Some c)) cs e) = elt_name e
      \<and> Attr (fold (\<lambda>c e. AddElement e (Some c)) cs e) n = Attr e n
      \<and> elements_of (elt_children (fold (\<lambda>c e. AddElement e (Some c)) cs e)) = elements_of (elt_children e) @ cs" for cs e n
    by (induction cs arbitrary: e) (simp_all add: Attr_def)
  show "elt_name (publish_item itemid children) = QN_PUBSUB_ITEM" "Attr (publish_item itemid children) QN_ID = itemid"
    "elements_of (elt_children (publish_item itemid children)) = children"
    unfolding publish_item_def f [THEN conjunct1] f [THEN conjunct2, THEN conjunct1] f [THEN conjunct2, THEN conjunct2]
    by (simp_all add: new_element_ns_def Attr_def HasAttr_def)
qed

lemma GetItemFromStanza_publish:
  "GetItemFromStanza (Some (iq_request verb to (CreatePubSubPublishItemElem node itemid children) iqid))
     = Some (publish_item itemid children)"
proof -
  have "elt_children (MakeIq verb to iqid) = []" by (simp add: MakeIq_def Let_def)
  then show ?thesis
    by (simp add: GetItemFromStanza_def iq_request_def CreatePubSubPublishItemElem_def FirstNamed_filter
        new_element_ns_def publish_item_parts)
qed

end
