(* ===== verification/Hangouts.thy ===== *)
theory Hangouts
  imports PubSubs
begin

text \<open>
  The state of a hangout: \<open>talk/xmpp/hangoutpubsubclient.cc\<close> and \<open>hangoutpubsubclient.h\<close>. A
  \<open>PubSubStateClient\<close> keeps one kind of state (\<open>state_client\<close>; the template is only used for \<open>bool\<close>, and the derived
  \<open>PresenterStateClient\<close> is the class \<open>PresenterState\<close>); \<open>HangoutPubSubClient\<close> (\<open>hangout\<close>) has six of them on two nodes.
\<close>

subsection \<open>A state client\<close>

definition kPresenting :: string where "kPresenting = ''s''"
definition kNotPresenting :: string where "kNotPresenting = ''o''"

definition GetPublisherNickFromPubSubItem :: "xml_element \<Rightarrow> string" where
  "GetPublisherNickFromPubSubItem item_elem = resource_name (Jid_of_string (Attr item_elem QN_ATTR_PUBLISHER))"

datatype key_serializer = PublishedNickKey | PublisherAndPublishedNicksKey

fun GetKey :: "key_serializer \<Rightarrow> string \<Rightarrow> string \<Rightarrow> string" where
  "GetKey PublishedNickKey publisher_nick published_nick = published_nick"
| "GetKey PublisherAndPublishedNicksKey publisher_nick published_nick = publisher_nick @ '':'' @ published_nick"

text \<open>\<open>BoolStateSerializer\<close>: the state is whether the element is there.\<close>

definition BoolState_Write :: "qname \<Rightarrow> bool \<Rightarrow> xml_element option" where
  "BoolState_Write state_name state = (if \<not> state then None else Some (new_element_ns state_name True))"

definition BoolState_Parse :: "xml_element option \<Rightarrow> bool" where
  "BoolState_Parse state_elem \<longleftrightarrow> state_elem \<noteq> None"

record item_info =
  info_published_nick :: string
  info_publisher_nick :: string

record state_change =
  ch_publisher_nick :: string
  ch_published_nick :: string
  ch_old_state :: bool
  ch_new_state :: bool

datatype state_class = PlainState | PresenterState

record state_client =
  sc_class :: state_class
  sc_publisher_nick :: string
  sc_state_name :: qname
  sc_default_state :: bool
  sc_key_serializer :: key_serializer
  sc_state_by_key :: "string \<Rightarrow> bool option"
  sc_info_by_itemid :: "string \<Rightarrow> item_info option"

definition PubSubStateClient :: "string \<Rightarrow> qname \<Rightarrow> bool \<Rightarrow> key_serializer \<Rightarrow> state_client" where
  "PubSubStateClient publisher_nick state_name default_state key_serializer =
     \<lparr>sc_class = PlainState, sc_publisher_nick = publisher_nick, sc_state_name = state_name,
      sc_default_state = default_state, sc_key_serializer = key_serializer, sc_state_by_key = Map.empty,
      sc_info_by_itemid = Map.empty\<rparr>"

definition PresenterStateClient :: "string \<Rightarrow> qname \<Rightarrow> bool \<Rightarrow> state_client" where
  "PresenterStateClient publisher_nick state_name default_state =
     (PubSubStateClient publisher_nick state_name default_state PublishedNickKey)\<lparr>sc_class := PresenterState\<rparr>"

definition StatesEqual :: "state_client \<Rightarrow> bool \<Rightarrow> bool \<Rightarrow> bool" where
  "StatesEqual c state1 state2 = (case sc_class c of PlainState \<Rightarrow> state1 = state2 | PresenterState \<Rightarrow> False)"

text \<open>What \<open>Publish\<close> asks of the pubsub client; \<open>None\<close> follows the null pointer of \<open>Write\<close>.\<close>

datatype pubsub_call = PublishCall string "xml_element list" | RetractCall string

definition presenter_Publish :: "string \<Rightarrow> bool \<Rightarrow> pubsub_call" where
  "presenter_Publish published_nick state =
     PublishCall published_nick
       [AddAttr (new_element_ns QN_PRESENTER_PRESENTER True) QN_NICK published_nick,
        AddAttr (new_element_ns QN_PRESENTER_PRESENTATION_ITEM False) QN_PRESENTER_PRESENTATION_TYPE
          (if state then kPresenting else kNotPresenting)]"

definition state_itemid :: "state_client \<Rightarrow> string \<Rightarrow> string" where
  "state_itemid c published_nick =
     LocalPart (sc_state_name c) @ '':'' @ GetKey (sc_key_serializer c) (sc_publisher_nick c) published_nick"

definition state_Publish :: "state_client \<Rightarrow> string \<Rightarrow> bool \<Rightarrow> pubsub_call option" where
  "state_Publish c published_nick state =
     (case sc_class c of
        PresenterState \<Rightarrow> Some (presenter_Publish published_nick state)
      | PlainState \<Rightarrow>
          if StatesEqual c state (sc_default_state c) then Some (RetractCall (state_itemid c published_nick))
          else map_option (\<lambda>e. PublishCall (state_itemid c published_nick) [AddAttr e QN_NICK published_nick])
                 (BoolState_Write (sc_state_name c) state))"

definition presenter_ParseStateItem :: "pubsub_item \<Rightarrow> (item_info \<times> bool) option" where
  "presenter_ParseStateItem item =
     (case (FirstNamed (pi_elem item) QN_PRESENTER_PRESENTER, FirstNamed (pi_elem item) QN_PRESENTER_PRESENTATION_ITEM) of
        (Some presenter_elem, Some presentation_item_elem) \<Rightarrow>
          Some (\<lparr>info_published_nick = Attr presenter_elem QN_NICK,
                 info_publisher_nick = GetPublisherNickFromPubSubItem (pi_elem item)\<rparr>,
                Attr presentation_item_elem QN_PRESENTER_PRESENTATION_TYPE \<noteq> kNotPresenting)
      | _ \<Rightarrow> None)"

text \<open>\<open>None\<close>: a retracted item.\<close>

definition ParseStateItem :: "state_client \<Rightarrow> pubsub_item \<Rightarrow> (item_info \<times> bool) option" where
  "ParseStateItem c item =
     (case sc_class c of
        PresenterState \<Rightarrow> presenter_ParseStateItem item
      | PlainState \<Rightarrow>
          map_option (\<lambda>state_elem.
              (\<lparr>info_published_nick = Attr state_elem QN_NICK,
                info_publisher_nick = GetPublisherNickFromPubSubItem (pi_elem item)\<rparr>,
               BoolState_Parse (Some state_elem)))
            (FirstNamed (pi_elem item) (sc_state_name c)))"

text \<open>The second half of \<open>OnItem\<close>: the state moves, and the change is signalled.\<close>

definition note_state :: "bool \<Rightarrow> item_info \<Rightarrow> bool \<Rightarrow> state_client \<Rightarrow> state_change list \<times> state_client" where
  "note_state retracted info new_state c =
     (let key = GetKey (sc_key_serializer c) (info_publisher_nick info) (info_published_nick info);
          has_old_state = sc_state_by_key c key \<noteq> None;
          old_state = (case sc_state_by_key c key of Some s \<Rightarrow> s | None \<Rightarrow> sc_default_state c) in
      if (retracted \<and> \<not> has_old_state) \<or> StatesEqual c new_state old_state then ([], c)
      else
        ([\<lparr>ch_publisher_nick = info_publisher_nick info, ch_published_nick = info_published_nick info,
           ch_old_state = old_state, ch_new_state = new_state\<rparr>],
         c\<lparr>sc_state_by_key :=
            (if retracted \<or> StatesEqual c new_state (sc_default_state c) then (sc_state_by_key c)(key := None)
             else (sc_state_by_key c)(key \<mapsto> new_state))\<rparr>))"

definition OnItem :: "pubsub_item \<Rightarrow> state_client \<Rightarrow> state_change list \<times> state_client" where
  "OnItem item c =
     (case ParseStateItem c item of
        None \<Rightarrow>
          (case sc_info_by_itemid c (pi_itemid item) of
             None \<Rightarrow> ([], c)
           | Some info \<Rightarrow>
               note_state True info (sc_default_state c)
                 (c\<lparr>sc_info_by_itemid := (sc_info_by_itemid c)(pi_itemid item := None)\<rparr>))
      | Some (info, new_state) \<Rightarrow>
          note_state False info new_state (c\<lparr>sc_info_by_itemid := (sc_info_by_itemid c)(pi_itemid item \<mapsto> info)\<rparr>))"

fun OnItems :: "pubsub_item list \<Rightarrow> state_client \<Rightarrow> state_change list \<times> state_client" where
  "OnItems [] c = ([], c)"
| "OnItems (item # items) c =
     (let (ch1, c1) = OnItem item c; (ch2, c2) = OnItems items c1 in (ch1 @ ch2, c2))"

text \<open>The other slots: what is signalled as the result (task id, item) or the error (task id, item, stanza).\<close>

datatype state_result =
    NoResult
  | StateResult string "xml_element option"
  | StateError string "xml_element option" "xml_element option"

fun state_result_of :: "pubsub_signal \<Rightarrow> state_result" where
  "state_result_of (SignalPublishResult task_id item) = StateResult task_id item"
| "state_result_of (SignalPublishError task_id item stanza) = StateError task_id item stanza"
| "state_result_of (SignalRetractResult task_id) = StateResult task_id None"
| "state_result_of (SignalRetractError task_id stanza) = StateError task_id None stanza"
| "state_result_of (SignalItems items) = NoResult"
| "state_result_of (SignalItemsError stanza) = NoResult"

subsection \<open>The hangout\<close>

record hangout =
  ho_nick :: string
  ho_presenter_pubsub :: pubsub_client
  ho_media_pubsub :: pubsub_client
  ho_presenter :: state_client
  ho_audio_mute :: state_client
  ho_video_mute :: state_client
  ho_video_pause :: state_client
  ho_recording :: state_client
  ho_media_block :: state_client

definition HangoutPubSubClient :: "nat \<Rightarrow> jid \<Rightarrow> string \<Rightarrow> hangout" where
  "HangoutPubSubClient parent mucjid nick =
     \<lparr>ho_nick = nick,
      ho_presenter_pubsub = \<lparr>ps_parent = parent, ps_pubsubjid = mucjid, ps_node = NS_PRESENTER\<rparr>,
      ho_media_pubsub = \<lparr>ps_parent = parent, ps_pubsubjid = mucjid, ps_node = NS_GOOGLE_MUC_MEDIA\<rparr>,
      ho_presenter = PresenterStateClient nick QN_PRESENTER_PRESENTER False,
      ho_audio_mute = PubSubStateClient nick QN_GOOGLE_MUC_AUDIO_MUTE False PublishedNickKey,
      ho_video_mute = PubSubStateClient nick QN_GOOGLE_MUC_VIDEO_MUTE False PublishedNickKey,
      ho_video_pause = PubSubStateClient nick QN_GOOGLE_MUC_VIDEO_PAUSE False PublishedNickKey,
      ho_recording = PubSubStateClient nick QN_GOOGLE_MUC_RECORDING False PublishedNickKey,
      ho_media_block = PubSubStateClient nick QN_GOOGLE_MUC_MEDIA_BLOCK False PublisherAndPublishedNicksKey\<rparr>"

text \<open>\<open>a\<close> to \<open>d\<close> are the addresses of the four new tasks.\<close>

definition RequestAll :: "hangout \<Rightarrow> nat \<Rightarrow> nat \<Rightarrow> nat \<Rightarrow> nat \<Rightarrow> client_op list" where
  "RequestAll h a b c d = RequestItems (ho_presenter_pubsub h) a b @ RequestItems (ho_media_pubsub h) c d"

definition pubsub_call_ops :: "pubsub_client \<Rightarrow> pubsub_call \<Rightarrow> nat \<Rightarrow> client_op list" where
  "pubsub_call_ops p ca a =
     (case ca of
        PublishCall itemid children \<Rightarrow> PublishItem p itemid children a
      | RetractCall itemid \<Rightarrow> RetractItem p itemid a)"

definition PublishPresenterState :: "hangout \<Rightarrow> bool \<Rightarrow> pubsub_call option" where
  "PublishPresenterState h presenting = state_Publish (ho_presenter h) (ho_nick h) presenting"

definition PublishAudioMuteState :: "hangout \<Rightarrow> bool \<Rightarrow> pubsub_call option" where
  "PublishAudioMuteState h muted = state_Publish (ho_audio_mute h) (ho_nick h) muted"

definition PublishVideoMuteState :: "hangout \<Rightarrow> bool \<Rightarrow> pubsub_call option" where
  "PublishVideoMuteState h muted = state_Publish (ho_video_mute h) (ho_nick h) muted"

definition PublishVideoPauseState :: "hangout \<Rightarrow> bool \<Rightarrow> pubsub_call option" where
  "PublishVideoPauseState h paused = state_Publish (ho_video_pause h) (ho_nick h) paused"

definition PublishRecordingState :: "hangout \<Rightarrow> bool \<Rightarrow> pubsub_call option" where
  "PublishRecordingState h recording = state_Publish (ho_recording h) (ho_nick h) recording"

definition RemoteMute :: "hangout \<Rightarrow> string \<Rightarrow> pubsub_call option" where
  "RemoteMute h mutee_nick = state_Publish (ho_audio_mute h) mutee_nick True"

definition BlockMedia :: "hangout \<Rightarrow> string \<Rightarrow> pubsub_call option" where
  "BlockMedia h blockee_nick = state_Publish (ho_media_block h) blockee_nick True"

datatype hangout_signal =
    SignalPresenterStateChange string bool bool
  | SignalAudioMuteStateChange string bool bool
  | SignalVideoMuteStateChange string bool bool
  | SignalVideoPauseStateChange string bool bool
  | SignalRecordingStateChange string bool bool
  | SignalRemoteMute string string bool
  | SignalMediaBlock string string
  | SignalRequestError string "xml_element option"
  | SignalPublishPresenterResult string
  | SignalPublishAudioMuteResult string
  | SignalPublishVideoMuteResult string
  | SignalPublishVideoPauseResult string
  | SignalPublishRecordingResult string
  | SignalRemoteMuteResult string string
  | SignalMediaBlockResult string string
  | SignalPublishPresenterError string "xml_element option"
  | SignalPublishAudioMuteError string "xml_element option"
  | SignalPublishVideoMuteError string "xml_element option"
  | SignalPublishVideoPauseError string "xml_element option"
  | SignalPublishRecordingError string "xml_element option"
  | SignalRemoteMuteError string string "xml_element option"
  | SignalMediaBlockError string string "xml_element option"

subsection \<open>The slots of the hangout\<close>

definition OnPresenterStateChange :: "state_change \<Rightarrow> hangout_signal list" where
  "OnPresenterStateChange ch = [SignalPresenterStateChange (ch_published_nick ch) (ch_old_state ch) (ch_new_state ch)]"

definition OnAudioMuteStateChange :: "string \<Rightarrow> state_change \<Rightarrow> hangout_signal list" where
  "OnAudioMuteStateChange nick ch =
     (let remote_action = ch_publisher_nick ch \<noteq> [] \<and> ch_publisher_nick ch \<noteq> ch_published_nick ch in
      if remote_action then
        if \<not> ch_new_state ch then []
        else [SignalRemoteMute (ch_published_nick ch) (ch_publisher_nick ch) (ch_published_nick ch = nick)]
      else [SignalAudioMuteStateChange (ch_published_nick ch) (ch_old_state ch) (ch_new_state ch)])"

definition OnVideoMuteStateChange :: "state_change \<Rightarrow> hangout_signal list" where
  "OnVideoMuteStateChange ch = [SignalVideoMuteStateChange (ch_published_nick ch) (ch_old_state ch) (ch_new_state ch)]"

definition OnVideoPauseStateChange :: "state_change \<Rightarrow> hangout_signal list" where
  "OnVideoPauseStateChange ch = [SignalVideoPauseStateChange (ch_published_nick ch) (ch_old_state ch) (ch_new_state ch)]"

definition OnRecordingStateChange :: "state_change \<Rightarrow> hangout_signal list" where
  "OnRecordingStateChange ch = [SignalRecordingStateChange (ch_published_nick ch) (ch_old_state ch) (ch_new_state ch)]"

definition OnMediaBlockStateChange :: "state_change \<Rightarrow> hangout_signal list" where
  "OnMediaBlockStateChange ch =
     (if \<not> ch_old_state ch \<and> ch_new_state ch then [SignalMediaBlock (ch_published_nick ch) (ch_publisher_nick ch)] else [])"

definition nick_in_item :: "qname \<Rightarrow> xml_element option \<Rightarrow> string" where
  "nick_in_item name item =
     (case item of
        None \<Rightarrow> []
      | Some e \<Rightarrow> (case FirstNamed e name of None \<Rightarrow> [] | Some state \<Rightarrow> Attr state QN_NICK))"

definition GetAudioMuteNickFromItem :: "xml_element option \<Rightarrow> string" where
  "GetAudioMuteNickFromItem item = nick_in_item QN_GOOGLE_MUC_AUDIO_MUTE item"

definition GetBlockeeNickFromItem :: "xml_element option \<Rightarrow> string" where
  "GetBlockeeNickFromItem item = nick_in_item QN_GOOGLE_MUC_MEDIA_BLOCK item"

definition OnPresenterPublishResult :: "string \<Rightarrow> hangout_signal" where
  "OnPresenterPublishResult task_id = SignalPublishPresenterResult task_id"

definition OnAudioMutePublishResult :: "string \<Rightarrow> string \<Rightarrow> xml_element option \<Rightarrow> hangout_signal" where
  "OnAudioMutePublishResult nick task_id item =
     (let mutee_nick = GetAudioMuteNickFromItem item in
      if mutee_nick \<noteq> nick then SignalRemoteMuteResult task_id mutee_nick else SignalPublishAudioMuteResult task_id)"

definition OnMediaBlockPublishResult :: "string \<Rightarrow> xml_element option \<Rightarrow> hangout_signal" where
  "OnMediaBlockPublishResult task_id item = SignalMediaBlockResult task_id (GetBlockeeNickFromItem item)"

definition OnPresenterPublishError :: "string \<Rightarrow> xml_element option \<Rightarrow> hangout_signal" where
  "OnPresenterPublishError task_id stanza = SignalPublishPresenterError task_id stanza"

definition OnAudioMutePublishError ::
  "string \<Rightarrow> string \<Rightarrow> xml_element option \<Rightarrow> xml_element option \<Rightarrow> hangout_signal" where
  "OnAudioMutePublishError nick task_id item stanza =
     (let mutee_nick = GetAudioMuteNickFromItem item in
      if mutee_nick \<noteq> nick then SignalRemoteMuteError task_id mutee_nick stanza
      else SignalPublishAudioMuteError task_id stanza)"

definition OnMediaBlockPublishError :: "string \<Rightarrow> xml_element option \<Rightarrow> xml_element option \<Rightarrow> hangout_signal" where
  "OnMediaBlockPublishError task_id item stanza =
     SignalMediaBlockError task_id (GetBlockeeNickFromItem item) stanza"

subsection \<open>The signals of the two nodes\<close>

text \<open>The state clients of a node hear its pubsub client in the order in which they were made.\<close>

definition presenter_heard :: "pubsub_signal \<Rightarrow> hangout \<Rightarrow> hangout_signal list \<times> hangout" where
  "presenter_heard sig h =
     (case sig of
        SignalItems items \<Rightarrow>
          let (ch, c) = OnItems items (ho_presenter h) in (concat (map OnPresenterStateChange ch), h\<lparr>ho_presenter := c\<rparr>)
      | SignalItemsError stanza \<Rightarrow> ([SignalRequestError (ps_node (ho_presenter_pubsub h)) stanza], h)
      | _ \<Rightarrow>
          ((case state_result_of sig of
              StateResult task_id item \<Rightarrow> [OnPresenterPublishResult task_id]
            | StateError task_id item stanza \<Rightarrow> [OnPresenterPublishError task_id stanza]
            | NoResult \<Rightarrow> []), h))"

definition media_items :: "pubsub_item list \<Rightarrow> hangout \<Rightarrow> hangout_signal list \<times> hangout" where
  "media_items items h =
     (let (ch1, c1) = OnItems items (ho_audio_mute h);
          (ch2, c2) = OnItems items (ho_video_mute h);
          (ch3, c3) = OnItems items (ho_video_pause h);
          (ch4, c4) = OnItems items (ho_recording h);
          (ch5, c5) = OnItems items (ho_media_block h) in
      (concat (map (OnAudioMuteStateChange (ho_nick h)) ch1) @ concat (map OnVideoMuteStateChange ch2)
         @ concat (map OnVideoPauseStateChange ch3) @ concat (map OnRecordingStateChange ch4)
         @ concat (map OnMediaBlockStateChange ch5),
       h\<lparr>ho_audio_mute := c1, ho_video_mute := c2, ho_video_pause := c3, ho_recording := c4, ho_media_block := c5\<rparr>))"

definition media_results :: "string \<Rightarrow> state_result \<Rightarrow> hangout_signal list" where
  "media_results nick r =
     (case r of
        NoResult \<Rightarrow> []
      | StateResult task_id item \<Rightarrow>
          [OnAudioMutePublishResult nick task_id item, SignalPublishVideoMuteResult task_id,
           SignalPublishVideoPauseResult task_id, SignalPublishRecordingResult task_id,
           OnMediaBlockPublishResult task_id item]
      | StateError task_id item stanza \<Rightarrow>
          [OnAudioMutePublishError nick task_id item stanza, SignalPublishVideoMuteError task_id stanza,
           SignalPublishVideoPauseError task_id stanza, SignalPublishRecordingError task_id stanza,
           OnMediaBlockPublishError task_id item stanza])"

definition media_heard :: "pubsub_signal \<Rightarrow> hangout \<Rightarrow> hangout_signal list \<times> hangout" where
  "media_heard sig h =
     (case sig of
        SignalItems items \<Rightarrow> media_items items h
      | SignalItemsError stanza \<Rightarrow> ([SignalRequestError (ps_node (ho_media_pubsub h)) stanza], h)
      | _ \<Rightarrow> (media_results (ho_nick h) (state_result_of sig), h))"

subsection \<open>The changes tell the state\<close>

text \<open>The state of every key, and what a listener makes of it who hears the changes.\<close>

definition abs_state :: "state_client \<Rightarrow> string \<Rightarrow> bool" where
  "abs_state c key = (case sc_state_by_key c key of Some s \<Rightarrow> s | None \<Rightarrow> sc_default_state c)"

definition change_key :: "key_serializer \<Rightarrow> state_change \<Rightarrow> string" where
  "change_key ks ch = GetKey ks (ch_publisher_nick ch) (ch_published_nick ch)"

definition hear_change :: "key_serializer \<Rightarrow> state_change \<Rightarrow> (string \<Rightarrow> bool) \<Rightarrow> string \<Rightarrow> bool" where
  "hear_change ks ch st = st(change_key ks ch := ch_new_state ch)"

fun changes_fit :: "key_serializer \<Rightarrow> (string \<Rightarrow> bool) \<Rightarrow> state_change list \<Rightarrow> bool" where
  "changes_fit ks st [] = True"
| "changes_fit ks st (ch # chs) = (ch_old_state ch = st (change_key ks ch) \<and> changes_fit ks (hear_change ks ch st) chs)"

lemma changes_fit_append:
  "changes_fit ks st (xs @ ys) = (changes_fit ks st xs \<and> changes_fit ks (fold (hear_change ks) xs st) ys)"
  by (induction xs arbitrary: st) auto

lemma note_state_told:
  assumes "note_state retracted info new_state c = (chs, c')" "retracted \<Longrightarrow> new_state = sc_default_state c"
  shows "abs_state c' = fold (hear_change (sc_key_serializer c)) chs (abs_state c)"
    "changes_fit (sc_key_serializer c) (abs_state c) chs" "sc_key_serializer c' = sc_key_serializer c"
    "sc_class c' = sc_class c" "sc_class c = PlainState \<Longrightarrow> list_all (\<lambda>ch. ch_old_state ch \<noteq> ch_new_state ch) chs"
  using assms
  by (auto simp: note_state_def Let_def StatesEqual_def abs_state_def change_key_def hear_change_def fun_eq_iff
      split: if_splits option.splits state_class.splits)

lemma OnItem_told:
  assumes "OnItem item c = (chs, c')"
  shows "abs_state c' = fold (hear_change (sc_key_serializer c)) chs (abs_state c)
    \<and> changes_fit (sc_key_serializer c) (abs_state c) chs \<and> sc_key_serializer c' = sc_key_serializer c
    \<and> sc_class c' = sc_class c \<and> (sc_class c = PlainState \<longrightarrow> list_all (\<lambda>ch. ch_old_state ch \<noteq> ch_new_state ch) chs)"
proof -
  define c0 where "c0 f = c\<lparr>sc_info_by_itemid := f\<rparr>" for f
  have keep: "abs_state (c0 f) = abs_state c" "sc_key_serializer (c0 f) = sc_key_serializer c"
    "sc_class (c0 f) = sc_class c" "sc_default_state (c0 f) = sc_default_state c" for f
    by (auto simp: c0_def abs_state_def fun_eq_iff split: option.splits)
  have told: ?thesis if "note_state r info s (c0 f) = (chs, c')" "r \<longrightarrow> s = sc_default_state c" for r info s f
    using note_state_told [of r info s "c0 f" chs c'] that by (auto simp: keep)
  show ?thesis
  proof (cases "ParseStateItem c item")
    case None
    show ?thesis
    proof (cases "sc_info_by_itemid c (pi_itemid item)")
      case (Some info)
      have "note_state True info (sc_default_state c) (c0 ((sc_info_by_itemid c)(pi_itemid item := None))) = (chs, c')"
        using assms None Some by (simp add: OnItem_def c0_def)
      then show ?thesis by (rule told) simp
    qed (use assms None in \<open>simp add: OnItem_def\<close>)
  next
    case (Some p)
    obtain info s where p: "p = (info, s)" by (cases p)
    have "note_state False info s (c0 ((sc_info_by_itemid c)(pi_itemid item \<mapsto> info))) = (chs, c')"
      using assms Some p by (simp add: OnItem_def c0_def)
    then show ?thesis by (rule told) simp
  qed
qed

text \<open>
  C36: The signals of a state client tell exactly what its state is: a listener who starts with the
  state and applies the changes as they are signalled has the state after any items, published or
  retracted, the old state of each change is what the listener has at that moment, and (presenters
  apart) a change always changes something.
\<close>

theorem state_changes_tell_the_state:
  "case OnItems items c of (chs, c') \<Rightarrow>
     abs_state c' = fold (hear_change (sc_key_serializer c)) chs (abs_state c)
     \<and> changes_fit (sc_key_serializer c) (abs_state c) chs
     \<and> (sc_class c = PresenterState \<or> list_all (\<lambda>ch. ch_old_state ch \<noteq> ch_new_state ch) chs)"
proof -
  have "abs_state c' = fold (hear_change (sc_key_serializer c)) chs (abs_state c)
      \<and> changes_fit (sc_key_serializer c) (abs_state c) chs
      \<and> (sc_class c = PlainState \<longrightarrow> list_all (\<lambda>ch. ch_old_state ch \<noteq> ch_new_state ch) chs)"
    if "OnItems items c = (chs, c')" for chs c'
    using that
  proof (induction items c arbitrary: chs c' rule: OnItems.induct)
    case (2 item items c)
    obtain ch1 c1 where 1: "OnItem item c = (ch1, c1)" by fastforce
    obtain ch2 c2 where "OnItems items c1 = (ch2, c2)" by fastforce
    then show ?case using 2 1 OnItem_told [OF 1] by (auto simp: changes_fit_append)
  qed simp
  then show ?thesis by (cases "sc_class c") (auto split: prod.splits)
qed

subsection \<open>What is published is read back\<close>

text \<open>The item that the service sends to the subscribers for a call made by \<open>publisher\<close> (the service is not in the repository).\<close>

definition reflected :: "string \<Rightarrow> pubsub_call \<Rightarrow> pubsub_item" where
  "reflected publisher ca =
     (case ca of
        PublishCall itemid children \<Rightarrow>
          pubsub_ParseItem (fold (\<lambda>child e. AddElement e (Some child)) children
            (AddAttr (AddAttr (new_element QN_PUBSUB_EVENT_ITEM) QN_ID itemid) QN_ATTR_PUBLISHER publisher))
      | RetractCall itemid \<Rightarrow> ParseRetract (AddAttr (new_element QN_PUBSUB_EVENT_RETRACT) QN_ID itemid))"

lemma fold_AddElement:
  "Attr (fold (\<lambda>c e. AddElement e (Some c)) cs e) n = Attr e n"
  "elements_of (elt_children (fold (\<lambda>c e. AddElement e (Some c)) cs e)) = elements_of (elt_children e) @ cs"
  by (induction cs arbitrary: e) (simp_all add: Attr_def HasAttr_def)

lemma reflected_parts:
  "pi_itemid (reflected publisher (PublishCall itemid children)) = itemid"
  "pi_itemid (reflected publisher (RetractCall itemid)) = itemid"
  "GetPublisherNickFromPubSubItem (pi_elem (reflected publisher (PublishCall itemid children)))
     = resource_name (Jid_of_string publisher)"
  "elements_of (elt_children (pi_elem (reflected publisher (PublishCall itemid children)))) = children"
  "elements_of (elt_children (pi_elem (reflected publisher (RetractCall itemid)))) = []"
proof -
  have q: "QN_ID \<noteq> QN_ATTR_PUBLISHER" by (simp add: qname_consts xmpp_names)
  show "pi_itemid (reflected publisher (PublishCall itemid children)) = itemid"
    "pi_itemid (reflected publisher (RetractCall itemid)) = itemid"
    "GetPublisherNickFromPubSubItem (pi_elem (reflected publisher (PublishCall itemid children)))
       = resource_name (Jid_of_string publisher)"
    "elements_of (elt_children (pi_elem (reflected publisher (PublishCall itemid children)))) = children"
    "elements_of (elt_children (pi_elem (reflected publisher (RetractCall itemid)))) = []"
    using q by (simp_all add: reflected_def pubsub_ParseItem_def ParseRetract_def fold_AddElement
        GetPublisherNickFromPubSubItem_def HasAttr_def)
qed

lemma state_elem_parts:
  "elt_name (AddAttr (new_element_ns name ns) n v) = name"
  "Attr (AddAttr (new_element_ns name ns) QN_NICK v) QN_NICK = v"
  "\<not> HasAttr (new_element_ns name ns) QN_NICK"
proof -
  have "QN_XMLNS \<noteq> QN_NICK" by (simp add: qname_consts xmpp_names)
  then show "elt_name (AddAttr (new_element_ns name ns) n v) = name"
    "Attr (AddAttr (new_element_ns name ns) QN_NICK v) QN_NICK = v" "\<not> HasAttr (new_element_ns name ns) QN_NICK"
    by (simp_all add: new_element_ns_def Attr_def HasAttr_def)
qed

text \<open>The parse of a reflected publication.\<close>

definition pub_info :: "string \<Rightarrow> string \<Rightarrow> item_info" where
  "pub_info publisher published_nick =
     \<lparr>info_published_nick = published_nick, info_publisher_nick = resource_name (Jid_of_string publisher)\<rparr>"

lemma ParseStateItem_publish:
  assumes "state_Publish sender nick s = Some (PublishCall itemid children)" "sc_default_state sender = False"
    "sc_class c = sc_class sender" "sc_state_name c = sc_state_name sender"
  shows "ParseStateItem c (reflected publisher (PublishCall itemid children)) = Some (pub_info publisher nick, s)"
proof (cases "sc_class sender")
  case PlainState
  then have "s" "children = [AddAttr (new_element_ns (sc_state_name sender) True) QN_NICK nick]"
    using assms by (auto simp: state_Publish_def StatesEqual_def BoolState_Write_def split: if_splits)
  then show ?thesis using assms PlainState
    by (simp add: ParseStateItem_def FirstNamed_filter reflected_parts state_elem_parts BoolState_Parse_def pub_info_def)
next
  case PresenterState
  have q: "QN_PRESENTER_PRESENTER \<noteq> QN_PRESENTER_PRESENTATION_ITEM" by (simp add: xmpp_names)
  have c: "children = [AddAttr (new_element_ns QN_PRESENTER_PRESENTER True) QN_NICK nick,
      AddAttr (new_element_ns QN_PRESENTER_PRESENTATION_ITEM False) QN_PRESENTER_PRESENTATION_TYPE
        (if s then kPresenting else kNotPresenting)]"
    using assms PresenterState by (auto simp: state_Publish_def presenter_Publish_def)
  show ?thesis using assms(3) PresenterState q unfolding c
    by (simp add: ParseStateItem_def presenter_ParseStateItem_def FirstNamed_filter reflected_parts state_elem_parts
        pub_info_def) (simp add: new_element_ns_def Attr_def HasAttr_def kPresenting_def kNotPresenting_def)
qed

text \<open>A state client that has heard the publications of one nick for another so far.\<close>

definition has_heard :: "state_client \<Rightarrow> string \<Rightarrow> string \<Rightarrow> string \<Rightarrow> bool \<Rightarrow> state_client \<Rightarrow> bool" where
  "has_heard sender publisher nick itemid s c \<longleftrightarrow>
     sc_class c = sc_class sender \<and> sc_state_name c = sc_state_name sender \<and> \<not> sc_default_state c
     \<and> sc_key_serializer c = sc_key_serializer sender
     \<and> abs_state c (GetKey (sc_key_serializer c) (resource_name (Jid_of_string publisher)) nick) = s
     \<and> (sc_info_by_itemid c itemid = Some (pub_info publisher nick) \<or> sc_info_by_itemid c itemid = None \<and> \<not> s)"

lemma note_state_keeps:
  "sc_class (snd (note_state r info s c)) = sc_class c" "sc_state_name (snd (note_state r info s c)) = sc_state_name c"
  "sc_default_state (snd (note_state r info s c)) = sc_default_state c"
  "sc_key_serializer (snd (note_state r info s c)) = sc_key_serializer c"
  "sc_info_by_itemid (snd (note_state r info s c)) = sc_info_by_itemid c"
  by (simp_all add: note_state_def Let_def)

lemma note_state_sets:
  assumes "r \<Longrightarrow> s = sc_default_state c"
  shows "abs_state (snd (note_state r info s c)) (GetKey (sc_key_serializer c) (info_publisher_nick info) (info_published_nick info)) = s"
  using assms
  by (auto simp: note_state_def Let_def StatesEqual_def abs_state_def split: if_splits option.splits state_class.splits)

definition call_itemid :: "state_client \<Rightarrow> string \<Rightarrow> string" where
  "call_itemid c nick = (case sc_class c of PresenterState \<Rightarrow> nick | PlainState \<Rightarrow> state_itemid c nick)"

lemma state_Publish_cases:
  assumes "\<not> sc_default_state sender"
  shows "(\<exists>children. state_Publish sender nick s = Some (PublishCall (call_itemid sender nick) children))
    \<or> \<not> s \<and> state_Publish sender nick s = Some (RetractCall (call_itemid sender nick))"
  using assms
  by (cases "sc_class sender"; cases s)
     (simp_all add: state_Publish_def presenter_Publish_def call_itemid_def StatesEqual_def BoolState_Write_def)

lemma OnItem_heard:
  assumes "has_heard sender publisher nick (call_itemid sender nick) s0 c" "\<not> sc_default_state sender"
    "state_Publish sender nick s = Some ca"
  shows "has_heard sender publisher nick (call_itemid sender nick) s (snd (OnItem (reflected publisher ca) c))"
  using state_Publish_cases [OF assms(2), of nick s]
proof (elim disjE exE conjE)
  fix children assume p: "state_Publish sender nick s = Some (PublishCall (call_itemid sender nick) children)"
  then have ca: "ca = PublishCall (call_itemid sender nick) children" using assms(3) by simp
  have parse: "ParseStateItem c (reflected publisher ca) = Some (pub_info publisher nick, s)"
    unfolding ca by (rule ParseStateItem_publish [OF p]) (use assms in \<open>simp_all add: has_heard_def\<close>)
  let ?c = "c\<lparr>sc_info_by_itemid := (sc_info_by_itemid c)(call_itemid sender nick \<mapsto> pub_info publisher nick)\<rparr>"
  have "snd (OnItem (reflected publisher ca) c) = snd (note_state False (pub_info publisher nick) s ?c)"
    using parse by (simp add: OnItem_def ca reflected_parts)
  then show ?thesis
    using assms(1) note_state_sets [of False s ?c "pub_info publisher nick"]
    by (simp add: has_heard_def note_state_keeps) (simp add: pub_info_def)
next
  assume s: "\<not> s" and p: "state_Publish sender nick s = Some (RetractCall (call_itemid sender nick))"
  then have ca: "ca = RetractCall (call_itemid sender nick)" using assms(3) by simp
  have "sc_class sender = PlainState" using p by (simp add: state_Publish_def presenter_Publish_def split: state_class.splits)
  then have parse: "ParseStateItem c (reflected publisher ca) = None"
    using assms(1) by (simp add: has_heard_def ParseStateItem_def FirstNamed_filter ca reflected_parts)
  show ?thesis
  proof (cases "sc_info_by_itemid c (call_itemid sender nick)")
    case None
    then have "OnItem (reflected publisher ca) c = ([], c)" "\<not> s0"
      using assms(1) parse by (simp_all add: OnItem_def ca reflected_parts has_heard_def)
    then show ?thesis using assms(1) s by simp
  next
    case (Some info)
    then have info: "info = pub_info publisher nick" using assms(1) by (simp add: has_heard_def)
    let ?c = "c\<lparr>sc_info_by_itemid := (sc_info_by_itemid c)(call_itemid sender nick := None)\<rparr>"
    have "snd (OnItem (reflected publisher ca) c) = snd (note_state True (pub_info publisher nick) (sc_default_state c) ?c)"
      using parse Some info by (simp add: OnItem_def ca reflected_parts)
    then show ?thesis
      using assms(1) s note_state_sets [of True False ?c "pub_info publisher nick"]
      by (simp add: has_heard_def note_state_keeps) (simp add: pub_info_def)
  qed
qed

lemma OnItems_snd: "snd (OnItems (item # items) c) = snd (OnItems items (snd (OnItem item c)))"
  by (simp split: prod.splits)

text \<open>The items that come to the subscribers when a client publishes the states \<open>ss\<close> of \<open>nick\<close> one after the other.\<close>

definition publications :: "string \<Rightarrow> state_client \<Rightarrow> string \<Rightarrow> bool list \<Rightarrow> pubsub_item list" where
  "publications publisher sender nick ss =
     map (reflected publisher) (concat (map (\<lambda>s. case state_Publish sender nick s of None \<Rightarrow> [] | Some ca \<Rightarrow> [ca]) ss))"

lemma publications_heard:
  "has_heard sender publisher nick (call_itemid sender nick) s0 c \<Longrightarrow> \<not> sc_default_state sender \<Longrightarrow>
   has_heard sender publisher nick (call_itemid sender nick) (last (s0 # ss)) (snd (OnItems (publications publisher sender nick ss) c))"
proof (induction ss arbitrary: c s0)
  case (Cons s ss)
  obtain ca where ca: "state_Publish sender nick s = Some ca"
    using state_Publish_cases [OF Cons.prems(2)] by blast
  have "publications publisher sender nick (s # ss) = reflected publisher ca # publications publisher sender nick ss"
    using ca by (simp add: publications_def)
  then show ?case
    using Cons.IH [OF OnItem_heard [OF Cons.prems ca] Cons.prems(2)] by (simp only: OnItems_snd) simp
qed (simp add: publications_def)


subsection \<open>Results and remote mutes\<close>

text \<open>What the pubsub client signals when the task of a call has its result.\<close>

definition publication_result :: "pubsub_client \<Rightarrow> pubsub_call \<Rightarrow> string \<Rightarrow> pubsub_signal" where
  "publication_result p ca iqid =
     (case ca of
        PublishCall itemid children \<Rightarrow>
          OnPublishResult iqid
            (iq_request STR_SET (ps_pubsubjid p) (CreatePubSubPublishItemElem (ps_node p) itemid children) iqid)
      | RetractCall itemid \<Rightarrow> OnRetractResult iqid)"

definition told_result :: "hangout \<Rightarrow> (hangout \<Rightarrow> pubsub_call option) \<Rightarrow> string \<Rightarrow> hangout_signal list" where
  "told_result h op iqid =
     (case op h of None \<Rightarrow> [] | Some ca \<Rightarrow> fst (media_heard (publication_result (ho_media_pubsub h) ca iqid) h))"

lemma nick_in_item_publish:
  "nick_in_item name (Some (publish_item itemid [AddAttr (new_element_ns name' True) QN_NICK nick])) =
     (if name = name' then nick else [])"
  by (simp add: nick_in_item_def FirstNamed_filter publish_item_parts state_elem_parts)

lemmas media_names = QN_GOOGLE_MUC_AUDIO_MUTE_def QN_GOOGLE_MUC_VIDEO_MUTE_def QN_GOOGLE_MUC_VIDEO_PAUSE_def
  QN_GOOGLE_MUC_RECORDING_def QN_GOOGLE_MUC_MEDIA_BLOCK_def

lemmas hangout_calls = PublishAudioMuteState_def PublishVideoMuteState_def PublishVideoPauseState_def
  PublishRecordingState_def state_Publish_def StatesEqual_def BoolState_Write_def HangoutPubSubClient_def PubSubStateClient_def

lemma told_result_cases:
  "told_result h op iqid =
     (case op h of
        None \<Rightarrow> []
      | Some (PublishCall itemid children) \<Rightarrow> media_results (ho_nick h) (StateResult iqid (Some (publish_item itemid children)))
      | Some (RetractCall itemid) \<Rightarrow> media_results (ho_nick h) (StateResult iqid None))"
  by (simp add: told_result_def publication_result_def media_heard_def OnPublishResult_def OnRetractResult_def
      GetItemFromStanza_publish split: option.split pubsub_call.split)

text \<open>
  Every publication on the media node is reported as five: the result of publishing the own video,
  pause or recording state, and that of un-muting the own audio, is signalled as the result of a
  remote mute of nobody, of each of the three states, and of blocking nobody; \<open>SignalPublishAudioMuteResult\<close> is
  not among them.
\<close>

theorem media_result_is_signalled_five_times:
  "list_all (\<lambda>op. told_result (HangoutPubSubClient parent mucjid (c # nick)) op iqid =
       [SignalRemoteMuteResult iqid [], SignalPublishVideoMuteResult iqid, SignalPublishVideoPauseResult iqid,
        SignalPublishRecordingResult iqid, SignalMediaBlockResult iqid []])
     [\<lambda>h. PublishAudioMuteState h False, \<lambda>h. PublishVideoMuteState h b, \<lambda>h. PublishVideoPauseState h b,
      \<lambda>h. PublishRecordingState h b]"
  by (simp add: told_result_cases hangout_calls media_results_def OnAudioMutePublishResult_def OnMediaBlockPublishResult_def
      GetAudioMuteNickFromItem_def GetBlockeeNickFromItem_def nick_in_item_publish media_names)
     (simp add: nick_in_item_def)

text \<open>The items of other states do not concern a state client.\<close>

lemma OnItems_foreign:
  assumes "sc_class c = PlainState" "FirstNamed (pi_elem item) (sc_state_name c) = None" "sc_info_by_itemid c (pi_itemid item) = None"
  shows "OnItems [item] c = ([], c)"
  using assms by (simp add: OnItem_def ParseStateItem_def)

text \<open>
  C38: After a remote mute the end of the muting is not signalled: when \<open>muter\<close> mutes \<open>mutee\<close> in a new hangout, every
  client signals the remote mute; when the item is then retracted the state is unmuted again, but the
  change still names the muter as its publisher, is taken for a remote action and nothing is signalled.
\<close>

theorem unmute_after_remote_mute_is_silent:
  assumes "resource_name (Jid_of_string publisher) = muter" "muter \<noteq> []" "muter \<noteq> mutee"
    and "RemoteMute sender mutee = Some ca" "sender = HangoutPubSubClient parent mucjid muter"
  shows "case media_items [reflected publisher ca] (HangoutPubSubClient parent' mucjid' nick) of (signals, h) \<Rightarrow>
    signals = [SignalRemoteMute mutee muter (mutee = nick)] \<and> abs_state (ho_audio_mute h) mutee
    \<and> (case media_items [reflected any (RetractCall (call_itemid (ho_audio_mute sender) mutee))] h of (signals', h') \<Rightarrow>
         signals' = [] \<and> \<not> abs_state (ho_audio_mute h') mutee)"
proof -
  let ?a = "ho_audio_mute sender"
  let ?item = "reflected publisher ca" and ?out = "reflected any (RetractCall (call_itemid ?a mutee))"
  let ?e = "AddAttr (new_element_ns QN_GOOGLE_MUC_AUDIO_MUTE True) QN_NICK mutee"
  have ca: "ca = PublishCall (call_itemid ?a mutee) [?e]"
    using assms(4) unfolding assms(5)
    by (simp add: RemoteMute_def hangout_calls call_itemid_def state_itemid_def)
  have item: "pi_itemid ?item = call_itemid ?a mutee" "elements_of (elt_children (pi_elem ?item)) = [?e]"
    "GetPublisherNickFromPubSubItem (pi_elem ?item) = muter"
    by (simp_all add: ca reflected_parts assms(1))
  have out: "pi_itemid ?out = call_itemid ?a mutee" "elements_of (elt_children (pi_elem ?out)) = []"
    by (simp_all add: reflected_parts)
  show ?thesis
    using assms(2,3)
    by (simp add: media_items_def HangoutPubSubClient_def PubSubStateClient_def OnItem_def ParseStateItem_def FirstNamed_filter
        item out state_elem_parts media_names BoolState_Parse_def note_state_def Let_def StatesEqual_def abs_state_def
        OnAudioMuteStateChange_def) blast
qed

lemma unmute_after_remote_mute_is_silent_witness:
  "fst (media_items [reflected ''room@conf/m'' (PublishCall ''audio-mute:u'' [AddAttr (new_element_ns QN_GOOGLE_MUC_AUDIO_MUTE True) QN_NICK ''u''])]
     (HangoutPubSubClient 0 Jid_empty ''u'')) = [SignalRemoteMute ''u'' ''m'' True]"
proof -
  have j: "resource_name (Jid_of_string ''room@conf/m'') = ''m''" by code_simp
  have c: "RemoteMute (HangoutPubSubClient 0 Jid_empty ''m'') ''u''
      = Some (PublishCall ''audio-mute:u'' [AddAttr (new_element_ns QN_GOOGLE_MUC_AUDIO_MUTE True) QN_NICK ''u''])"
    by (simp add: RemoteMute_def hangout_calls state_itemid_def media_names)
  from unmute_after_remote_mute_is_silent [OF j _ _ c refl, where parent' = 0 and mucjid' = Jid_empty and nick = "''u''" and any = "[]"]
  show ?thesis by (simp add: case_prod_beta)
qed

end
