(* ===== verification/XmlChain.thy ===== *)
theory XmlChain
  imports Prelude
begin

text \<open>
  The child list of an element at the level of its pointers, \<open>talk/xmllite/xmlelement.cc\<close>: \<open>first_child_\<close>,
  \<open>last_child_\<close> and the \<open>next_child_\<close> of every child. The children are numbers (addresses). The list of
  theory \<open>XmlElements\<close> is what the links spell; the operations refine those on lists, as long as nobody
  inserts after the last child.
\<close>

record child_chain =
  first_child :: "nat option"
  last_child :: "nat option"
  next_child :: "nat \<Rightarrow> nat option"

definition chain_init :: child_chain where
  "chain_init = \<lparr>first_child = None, last_child = None, next_child = (\<lambda>_. None)\<rparr>"

definition chain_AddElement :: "nat \<Rightarrow> child_chain \<Rightarrow> child_chain" where
  "chain_AddElement child c =
     (case last_child c of
        None \<Rightarrow> c\<lparr>first_child := Some child, last_child := Some child, next_child := (next_child c)(child := None)\<rparr>
      | Some l \<Rightarrow> c\<lparr>last_child := Some child, next_child := (next_child c)(l := Some child, child := None)\<rparr>)"

definition chain_InsertChildAfter :: "nat option \<Rightarrow> nat \<Rightarrow> child_chain \<Rightarrow> child_chain" where
  "chain_InsertChildAfter predecessor new c =
     (case predecessor of
        None \<Rightarrow> c\<lparr>first_child := Some new, next_child := (next_child c)(new := first_child c)\<rparr>
      | Some p \<Rightarrow> c\<lparr>next_child := (next_child c)(new := next_child c p, p := Some new)\<rparr>)"

text \<open>\<open>None\<close>: there is no child after the predecessor, and a null pointer is followed. The child is deleted.\<close>

definition chain_RemoveChildAfter :: "nat option \<Rightarrow> child_chain \<Rightarrow> (nat \<times> child_chain) option" where
  "chain_RemoveChildAfter predecessor c =
     (case (case predecessor of None \<Rightarrow> first_child c | Some p \<Rightarrow> next_child c p) of
        None \<Rightarrow> None
      | Some x \<Rightarrow>
          let c1 = (case predecessor of
                      None \<Rightarrow> c\<lparr>first_child := next_child c x\<rparr>
                    | Some p \<Rightarrow> c\<lparr>next_child := (next_child c)(p := next_child c x)\<rparr>) in
          Some (x, if last_child c1 = Some x then c1\<lparr>last_child := predecessor\<rparr> else c1))"

definition chain_ClearChildren :: "child_chain \<Rightarrow> child_chain" where
  "chain_ClearChildren c = c\<lparr>first_child := None, last_child := None\<rparr>"

subsection \<open>What the links spell\<close>

fun spells :: "(nat \<Rightarrow> nat option) \<Rightarrow> nat option \<Rightarrow> nat list \<Rightarrow> bool" where
  "spells nx p [] \<longleftrightarrow> p = None"
| "spells nx p (x # xs) \<longleftrightarrow> p = Some x \<and> spells nx (nx x) xs"

definition well_linked :: "child_chain \<Rightarrow> nat list \<Rightarrow> bool" where
  "well_linked c xs \<longleftrightarrow> spells (next_child c) (first_child c) xs \<and> distinct xs
     \<and> last_child c = (if xs = [] then None else Some (last xs))"

lemma spells_unchanged: "x \<notin> set xs \<Longrightarrow> spells (nx(x := q)) p xs = spells nx p xs"
  by (induction xs arbitrary: p) auto

lemma spells_cut: "spells nx p (xs @ ys) \<Longrightarrow> \<exists>q. spells nx q ys \<and> (xs \<noteq> [] \<longrightarrow> nx (last xs) = q) \<and> (xs = [] \<longrightarrow> p = q)"
  by (induction xs arbitrary: p) auto

lemma spells_relink:
  "spells nx p (xs @ a # ys) \<Longrightarrow> a \<notin> set xs \<Longrightarrow> a \<notin> set zs \<Longrightarrow> spells nx q zs \<Longrightarrow> spells (nx(a := q)) p (xs @ a # zs)"
proof (induction xs arbitrary: p)
  case Nil
  then show ?case using spells_unchanged [of a zs nx q q] by (simp only: append_Nil spells.simps fun_upd_same simp_thms)
qed auto

lemma well_linked_AddElement:
  assumes "well_linked c xs" "child \<notin> set xs"
  shows "well_linked (chain_AddElement child c) (xs @ [child])"
proof (cases xs rule: rev_cases)
  case (snoc as l)
  have s: "spells (next_child c) (first_child c) (as @ l # [])" "l \<notin> set as" "child \<noteq> l" "child \<notin> set as"
    using assms snoc by (auto simp: well_linked_def)
  have "spells ((next_child c)(child := None)) (first_child c) (as @ l # [])"
    using s by (simp add: spells_unchanged)
  from spells_relink [OF this s(2), of "[child]" "Some child"]
  have "spells ((next_child c)(child := None, l := Some child)) (first_child c) (as @ l # [child])"
    using s by simp
  then have "spells ((next_child c)(l := Some child, child := None)) (first_child c) (as @ l # [child])"
    using s(3) by (simp add: fun_upd_twist)
  then show ?thesis using assms snoc by (simp add: well_linked_def chain_AddElement_def)
qed (use assms in \<open>simp add: well_linked_def chain_AddElement_def\<close>)

lemma well_linked_InsertChildAfter:
  assumes "well_linked c xs" "new \<notin> set xs"
  shows "xs \<noteq> [] \<Longrightarrow> well_linked (chain_InsertChildAfter None new c) (new # xs)"
    "xs = as @ p # bs \<Longrightarrow> bs \<noteq> [] \<Longrightarrow> well_linked (chain_InsertChildAfter (Some p) new c) (as @ p # new # bs)"
proof -
  show "xs \<noteq> [] \<Longrightarrow> well_linked (chain_InsertChildAfter None new c) (new # xs)"
    using assms by (auto simp: well_linked_def chain_InsertChildAfter_def spells_unchanged)
  assume xs: "xs = as @ p # bs" and bs: "bs \<noteq> []"
  have s: "spells (next_child c) (first_child c) (as @ p # bs)" "p \<notin> set as" "p \<notin> set bs" "new \<noteq> p"
      "new \<notin> set as" "new \<notin> set bs"
    using assms xs by (auto simp: well_linked_def)
  from spells_cut [OF s(1)] have "spells (next_child c) (next_child c p) bs" by auto
  then have "spells ((next_child c)(new := next_child c p)) (Some new) (new # bs)"
    using s by (simp add: spells_unchanged)
  moreover have "spells ((next_child c)(new := next_child c p)) (first_child c) (as @ p # bs)"
    using s by (simp add: spells_unchanged)
  ultimately have "spells ((next_child c)(new := next_child c p, p := Some new)) (first_child c) (as @ p # new # bs)"
    using spells_relink [where a = p and zs = "new # bs" and q = "Some new"] s by auto
  then show "well_linked (chain_InsertChildAfter (Some p) new c) (as @ p # new # bs)"
    using assms xs bs by (auto simp: well_linked_def chain_InsertChildAfter_def)
qed

lemma well_linked_RemoveChildAfter:
  assumes "well_linked c xs"
  shows "xs = x # bs \<Longrightarrow> \<exists>c'. chain_RemoveChildAfter None c = Some (x, c') \<and> well_linked c' bs"
    "xs = as @ p # x # bs \<Longrightarrow> \<exists>c'. chain_RemoveChildAfter (Some p) c = Some (x, c') \<and> well_linked c' (as @ p # bs)"
    "xs = as @ [p] \<Longrightarrow> chain_RemoveChildAfter (Some p) c = None"
    "xs = [] \<Longrightarrow> chain_RemoveChildAfter None c = None"
proof -
  show "xs = x # bs \<Longrightarrow> \<exists>c'. chain_RemoveChildAfter None c = Some (x, c') \<and> well_linked c' bs"
    using assms by (cases bs rule: rev_cases) (auto simp: well_linked_def chain_RemoveChildAfter_def)
  show "xs = [] \<Longrightarrow> chain_RemoveChildAfter None c = None"
    using assms by (simp add: well_linked_def chain_RemoveChildAfter_def)
  show "xs = as @ [p] \<Longrightarrow> chain_RemoveChildAfter (Some p) c = None"
    using assms spells_cut [of "next_child c" "first_child c" as "[p]"]
    by (auto simp: well_linked_def chain_RemoveChildAfter_def)
  assume xs: "xs = as @ p # x # bs"
  have s: "spells (next_child c) (first_child c) (as @ p # x # bs)" "p \<notin> set as" "p \<notin> set bs" "p \<noteq> x" "x \<notin> set bs"
    using assms xs by (auto simp: well_linked_def)
  from spells_cut [OF s(1)] have n: "next_child c p = Some x" "spells (next_child c) (next_child c x) bs" by auto
  have l: "spells ((next_child c)(p := next_child c x)) (first_child c) (as @ p # bs)"
    by (rule spells_relink [OF s(1,2,3) n(2)])
  show "\<exists>c'. chain_RemoveChildAfter (Some p) c = Some (x, c') \<and> well_linked c' (as @ p # bs)"
    using assms xs n l s by (cases bs rule: rev_cases) (auto simp: well_linked_def chain_RemoveChildAfter_def)
qed

text \<open>
  A child that is inserted after the last one is lost: \<open>InsertChildAfter\<close> leaves \<open>last_child_\<close> where it is, and
  although the new child is in the list, the next \<open>AddElement\<close> hangs its child on the old last one, so
  that the links spell the old children and the new last one, without the inserted child.
\<close>

theorem child_inserted_last_is_lost:
  assumes "well_linked c (as @ [p])" and "new \<notin> set (as @ [p])" and "child \<notin> set (as @ [p])" and "child \<noteq> new"
  shows "spells (next_child (chain_InsertChildAfter (Some p) new c)) (first_child (chain_InsertChildAfter (Some p) new c)) (as @ [p, new])
    \<and> well_linked (chain_AddElement child (chain_InsertChildAfter (Some p) new c)) (as @ [p, child])"
proof -
  have s: "spells (next_child c) (first_child c) (as @ p # [])" "p \<notin> set as" "new \<noteq> p" "new \<notin> set as"
      "child \<noteq> p" "child \<notin> set as" "distinct as" "last_child c = Some p"
    using assms by (auto simp: well_linked_def)
  from spells_cut [OF s(1)] have n: "next_child c p = None" by auto
  let ?nx = "(next_child c)(new := None)"
  have "spells ?nx (first_child c) (as @ p # [])" using s by (simp add: spells_unchanged)
  then have 1: "spells (?nx(p := Some new)) (first_child c) (as @ p # [new])"
    using spells_relink [where a = p and zs = "[new]" and q = "Some new" and nx = ?nx] s by simp
  let ?my = "(next_child c)(new := None, child := None)"
  have "spells ?my (first_child c) (as @ p # [])" using s by (simp add: spells_unchanged)
  then have "spells (?my(p := Some child)) (first_child c) (as @ p # [child])"
    using spells_relink [where a = p and zs = "[child]" and q = "Some child" and nx = ?my] s by simp
  moreover have "?my(p := Some child) = (next_child c)(new := None, p := Some child, child := None)"
    using s(5) by (simp add: fun_upd_twist)
  ultimately have 2: "spells ((next_child c)(new := None, p := Some child, child := None)) (first_child c) (as @ p # [child])"
    by simp
  show ?thesis using 1 2 s n by (simp add: chain_InsertChildAfter_def chain_AddElement_def well_linked_def)
qed

lemma child_inserted_last_is_lost_witness:
  "well_linked (chain_AddElement 3 (chain_InsertChildAfter (Some 1) 2 (chain_AddElement 1 chain_init))) [1, 3]"
proof -
  have "well_linked (chain_AddElement 1 chain_init) ([] @ [1])" by (simp add: well_linked_def chain_AddElement_def chain_init_def)
  from child_inserted_last_is_lost [OF this, of 2 3] show ?thesis by simp
qed

text \<open>
  The links implement a list: after any operation on a list of children the links spell the result of
  the operation on the list and \<open>last_child_\<close> is its last element; the insertion after the last child
  (see above) is the only exception.
\<close>

theorem chain_implements_list:
  assumes "well_linked c xs"
  shows "(child \<notin> set xs \<longrightarrow> well_linked (chain_AddElement child c) (xs @ [child]))
    \<and> (\<forall>as p bs. xs = as @ p # bs \<and> bs \<noteq> [] \<and> child \<notin> set xs \<longrightarrow>
         well_linked (chain_InsertChildAfter (Some p) child c) (as @ p # child # bs))
    \<and> (xs \<noteq> [] \<and> child \<notin> set xs \<longrightarrow> well_linked (chain_InsertChildAfter None child c) (child # xs))
    \<and> map_option fst (chain_RemoveChildAfter None c) = (case xs of [] \<Rightarrow> None | x # _ \<Rightarrow> Some x)
    \<and> (\<forall>as p x bs. xs = as @ p # x # bs \<longrightarrow>
         (case chain_RemoveChildAfter (Some p) c of None \<Rightarrow> False | Some (y, c') \<Rightarrow> y = x \<and> well_linked c' (as @ p # bs)))
    \<and> well_linked (chain_ClearChildren c) []"
proof (intro conjI allI impI)
  show "child \<notin> set xs \<Longrightarrow> well_linked (chain_AddElement child c) (xs @ [child])"
    by (rule well_linked_AddElement [OF assms])
  show "well_linked (chain_InsertChildAfter (Some p) child c) (as @ p # child # bs)"
    if "xs = as @ p # bs \<and> bs \<noteq> [] \<and> child \<notin> set xs" for as p bs
    using well_linked_InsertChildAfter(2) [OF assms] that by blast
  show "well_linked (chain_InsertChildAfter None child c) (child # xs)" if "xs \<noteq> [] \<and> child \<notin> set xs"
    using well_linked_InsertChildAfter(1) [OF assms] that by blast
  show "map_option fst (chain_RemoveChildAfter None c) = (case xs of [] \<Rightarrow> None | x # _ \<Rightarrow> Some x)"
    using well_linked_RemoveChildAfter(1,4) [OF assms] by (cases xs) fastforce+
  show "case chain_RemoveChildAfter (Some p) c of None \<Rightarrow> False | Some (y, c') \<Rightarrow> y = x \<and> well_linked c' (as @ p # bs)"
    if "xs = as @ p # x # bs" for as p x bs
    using well_linked_RemoveChildAfter(2) [OF assms that] by auto
  show "well_linked (chain_ClearChildren c) []" by (simp add: well_linked_def chain_ClearChildren_def)
qed

lemma chain_implements_list_witness:
  "well_linked (chain_AddElement 2 (chain_AddElement 1 chain_init)) [1, 2]"
proof -
  have "well_linked (chain_AddElement 1 chain_init) [1]" by (simp add: well_linked_def chain_AddElement_def chain_init_def)
  from chain_implements_list [OF this, of 2] show ?thesis by simp
qed

end
