(* ===== verification/FifoBuffers.thy ===== *)
theory FifoBuffers
  imports Prelude
begin

text \<open>
  \<open>FifoBuffer\<close> of \<open>talk/base/stream.cc\<close>: a ring of bytes with a read position and a number of readable
  bytes. Every operation runs under the lock of the object, so it is one step. The events that are posted to
  the owner's thread are part of the result. A division by zero (an empty ring) is \<open>None\<close>; \<open>size_t\<close> is
  unbounded, the fresh part of a new block has arbitrary contents (\<open>junk\<close>).
\<close>

datatype stream_result = SR_ERROR | SR_SUCCESS | SR_BLOCK | SR_EOS
datatype stream_event = SE_OPEN | SE_READ | SE_WRITE | SE_CLOSE

record fifo_buffer =
  ff_closed :: bool
  ff_buffer :: "char list"
  ff_data_length :: nat
  ff_read_position :: nat

text \<open>\<open>buffer_length_\<close> is the length of the block.\<close>

abbreviation ff_length :: "fifo_buffer \<Rightarrow> nat" where "ff_length f \<equiv> length (ff_buffer f)"

definition FifoBuffer :: "char list \<Rightarrow> fifo_buffer" where
  "FifoBuffer junk = \<lparr>ff_closed = False, ff_buffer = junk, ff_data_length = 0, ff_read_position = 0\<rparr>"

definition copy_in :: "char list \<Rightarrow> nat \<Rightarrow> char list \<Rightarrow> char list" where
  "copy_in buf pos data = take pos buf @ data @ drop (pos + length data) buf"

definition ff_GetBuffered :: "fifo_buffer \<Rightarrow> nat" where
  "ff_GetBuffered f = ff_data_length f"

definition ff_GetWriteRemaining :: "fifo_buffer \<Rightarrow> nat" where
  "ff_GetWriteRemaining f = ff_length f - ff_data_length f"

text \<open>The two copies out of the ring: up to the end of the block, and from its start.\<close>

definition copy_out :: "fifo_buffer \<Rightarrow> nat \<Rightarrow> nat \<Rightarrow> char list" where
  "copy_out f pos copy =
     (let tail_copy = min copy (ff_length f - pos) in
      take tail_copy (drop pos (ff_buffer f)) @ take (copy - tail_copy) (ff_buffer f))"

definition ff_SetCapacity :: "char list \<Rightarrow> fifo_buffer \<Rightarrow> bool \<times> fifo_buffer" where
  "ff_SetCapacity junk f =
     (if ff_data_length f > length junk then (False, f)
      else if length junk \<noteq> ff_length f then
        (True, f\<lparr>ff_buffer := copy_in junk 0 (copy_out f (ff_read_position f) (ff_data_length f)), ff_read_position := 0\<rparr>)
      else (True, f))"

definition ff_GetState :: "fifo_buffer \<Rightarrow> bool" where
  "ff_GetState f = (\<not> ff_closed f)"

definition ff_Close :: "fifo_buffer \<Rightarrow> fifo_buffer" where
  "ff_Close f = f\<lparr>ff_closed := True\<rparr>"

definition ff_ReadOffset :: "nat \<Rightarrow> nat \<Rightarrow> fifo_buffer \<Rightarrow> stream_result \<times> char list" where
  "ff_ReadOffset bytes offset f =
     (if offset \<ge> ff_data_length f then (if \<not> ff_closed f then SR_BLOCK else SR_EOS, [])
      else
        let available = ff_data_length f - offset;
            read_position = (ff_read_position f + offset) mod ff_length f in
        (SR_SUCCESS, copy_out f read_position (min bytes available)))"

text \<open>The number of bytes written, and the buffer with them.\<close>

definition ff_WriteOffset :: "char list \<Rightarrow> nat \<Rightarrow> fifo_buffer \<Rightarrow> stream_result \<times> nat \<times> fifo_buffer" where
  "ff_WriteOffset data offset f =
     (if ff_closed f then (SR_EOS, 0, f)
      else if ff_data_length f + offset \<ge> ff_length f then (SR_BLOCK, 0, f)
      else
        let available = ff_length f - ff_data_length f - offset;
            write_position = (ff_read_position f + ff_data_length f + offset) mod ff_length f;
            copy = min (length data) available;
            tail_copy = min copy (ff_length f - write_position) in
        (SR_SUCCESS, copy,
         f\<lparr>ff_buffer := copy_in (copy_in (ff_buffer f) write_position (take tail_copy data)) 0
                        (take (copy - tail_copy) (drop tail_copy data))\<rparr>))"

definition ff_Read :: "nat \<Rightarrow> fifo_buffer \<Rightarrow> stream_result \<times> char list \<times> stream_event list \<times> fifo_buffer" where
  "ff_Read bytes f =
     (let was_writable = ff_data_length f < ff_length f;
          (result, out) = ff_ReadOffset bytes 0 f in
      if result = SR_SUCCESS then
        (result, out, if \<not> was_writable \<and> length out > 0 then [SE_WRITE] else [],
         f\<lparr>ff_read_position := (ff_read_position f + length out) mod ff_length f,
           ff_data_length := ff_data_length f - length out\<rparr>)
      else (result, [], [], f))"

definition ff_Write :: "char list \<Rightarrow> fifo_buffer \<Rightarrow> stream_result \<times> nat \<times> stream_event list \<times> fifo_buffer" where
  "ff_Write data f =
     (let was_readable = ff_data_length f > 0;
          (result, copy, f1) = ff_WriteOffset data 0 f in
      if result = SR_SUCCESS then
        (result, copy, if \<not> was_readable \<and> copy > 0 then [SE_READ] else [],
         f1\<lparr>ff_data_length := ff_data_length f1 + copy\<rparr>)
      else (result, 0, [], f1))"

text \<open>What \<open>GetReadData\<close> points to, and the bytes there.\<close>

definition ff_GetReadData :: "fifo_buffer \<Rightarrow> nat \<times> char list" where
  "ff_GetReadData f =
     (let n = (if ff_read_position f + ff_data_length f \<le> ff_length f then ff_data_length f
               else ff_length f - ff_read_position f) in
      (n, take n (drop (ff_read_position f) (ff_buffer f))))"

definition ff_ConsumeReadData :: "nat \<Rightarrow> fifo_buffer \<Rightarrow> (stream_event list \<times> fifo_buffer) option" where
  "ff_ConsumeReadData n f =
     (if ff_length f = 0 then None
      else Some (if \<not> ff_data_length f < ff_length f \<and> n > 0 then [SE_WRITE] else [],
        f\<lparr>ff_read_position := (ff_read_position f + n) mod ff_length f, ff_data_length := ff_data_length f - n\<rparr>))"

text \<open>\<open>GetWriteBuffer\<close>: the position and the room there; a closed buffer has none.\<close>

definition ff_GetWriteBuffer :: "fifo_buffer \<Rightarrow> ((nat \<times> nat) option \<times> fifo_buffer) option" where
  "ff_GetWriteBuffer f =
     (if ff_closed f then Some (None, f)
      else if ff_length f = 0 then None
      else
        let f1 = (if ff_data_length f = 0 then f\<lparr>ff_read_position := 0\<rparr> else f);
            write_position = (ff_read_position f1 + ff_data_length f1) mod ff_length f1 in
        Some (Some (write_position,
          if write_position > ff_read_position f1 \<or> ff_data_length f1 = 0 then ff_length f1 - write_position
          else ff_read_position f1 - write_position), f1))"

definition ff_ConsumeWriteBuffer :: "nat \<Rightarrow> fifo_buffer \<Rightarrow> stream_event list \<times> fifo_buffer" where
  "ff_ConsumeWriteBuffer n f =
     (if \<not> ff_data_length f > 0 \<and> n > 0 then [SE_READ] else [], f\<lparr>ff_data_length := ff_data_length f + n\<rparr>)"

subsection \<open>The loops of the base class\<close>

text \<open>
  \<open>StreamInterface::WriteAll\<close>, \<open>ReadAll\<close> and \<open>ReadLine\<close> over any \<open>Write\<close> and \<open>Read\<close>: they go on as long as these
  succeed, so a \<open>Write\<close> that succeeds with nothing would keep them for ever (\<open>None\<close>).
\<close>

partial_function (option) write_all_loop ::
  "(char list \<Rightarrow> 's \<Rightarrow> stream_result \<times> nat \<times> 's) \<Rightarrow> char list \<Rightarrow> nat \<Rightarrow> stream_result \<Rightarrow> 's
    \<Rightarrow> (stream_result \<times> nat \<times> 's) option" where
  "write_all_loop write data total_written result s =
     (if total_written < length data then
        case write (drop total_written data) s of (r, current_written, s1) \<Rightarrow>
          if r \<noteq> SR_SUCCESS then Some (r, total_written, s1)
          else write_all_loop write data (total_written + current_written) r s1
      else Some (result, total_written, s))"

definition WriteAll :: "(char list \<Rightarrow> 's \<Rightarrow> stream_result \<times> nat \<times> 's) \<Rightarrow> char list \<Rightarrow> 's \<Rightarrow> (stream_result \<times> nat \<times> 's) option" where
  "WriteAll write data s = write_all_loop write data 0 SR_SUCCESS s"

partial_function (option) read_all_loop ::
  "(nat \<Rightarrow> 's \<Rightarrow> stream_result \<times> char list \<times> 's) \<Rightarrow> nat \<Rightarrow> char list \<Rightarrow> stream_result \<Rightarrow> 's
    \<Rightarrow> (stream_result \<times> char list \<times> 's) option" where
  "read_all_loop read buffer_len out result s =
     (if length out < buffer_len then
        case read (buffer_len - length out) s of (r, bytes, s1) \<Rightarrow>
          if r \<noteq> SR_SUCCESS then Some (r, out, s1) else read_all_loop read buffer_len (out @ bytes) r s1
      else Some (result, out, s))"

definition ReadAll :: "(nat \<Rightarrow> 's \<Rightarrow> stream_result \<times> char list \<times> 's) \<Rightarrow> nat \<Rightarrow> 's \<Rightarrow> (stream_result \<times> char list \<times> 's) option" where
  "ReadAll read buffer_len s = read_all_loop read buffer_len [] SR_SUCCESS s"

partial_function (option) read_line_loop ::
  "(nat \<Rightarrow> 's \<Rightarrow> stream_result \<times> char list \<times> 's) \<Rightarrow> char list \<Rightarrow> 's \<Rightarrow> (stream_result \<times> char list \<times> 's) option" where
  "read_line_loop read line s =
     (case read 1 s of (r, bytes, s1) \<Rightarrow>
        if r \<noteq> SR_SUCCESS then Some (r, line, s1)
        else if hd bytes = CHR 0x0A then Some (r, line, s1)
        else read_line_loop read (line @ [hd bytes]) s1)"

definition ReadLine :: "(nat \<Rightarrow> 's \<Rightarrow> stream_result \<times> char list \<times> 's) \<Rightarrow> 's \<Rightarrow> (stream_result \<times> char list \<times> 's) option" where
  "ReadLine read s =
     map_option (\<lambda>(r, line, s1). (if line \<noteq> [] then SR_SUCCESS else r, line, s1)) (read_line_loop read [] s)"

definition fifo_write :: "char list \<Rightarrow> fifo_buffer \<Rightarrow> stream_result \<times> nat \<times> fifo_buffer" where
  "fifo_write data f = (case ff_Write data f of (r, n, evs, f') \<Rightarrow> (r, n, f'))"

definition fifo_read :: "nat \<Rightarrow> fifo_buffer \<Rightarrow> stream_result \<times> char list \<times> fifo_buffer" where
  "fifo_read n f = (case ff_Read n f of (r, out, evs, f') \<Rightarrow> (r, out, f'))"

end
