(* ===== verification/FifoLaws.thy ===== *)
theory FifoLaws
  imports FifoBuffers
begin

text \<open>
  What a \<open>FifoBuffer\<close> promises: it is a bounded pipe. The block rotated by the read position is the data
  followed by the room, and every operation is one on these two lists; a locale carries this from one
  operation to all sequences. The loops of the stream interface return on it.
\<close>

subsection \<open>What the ring holds\<close>

text \<open>
  The block read from the read position on: first the readable bytes, then the free ones (which may hold
  bytes that \<open>WriteOffset\<close> put there).
\<close>

definition ring :: "fifo_buffer \<Rightarrow> char list" where
  "ring f = rotate (ff_read_position f) (ff_buffer f)"

definition held_bytes :: "fifo_buffer \<Rightarrow> char list" where
  "held_bytes f = take (ff_data_length f) (ring f)"

definition free_bytes :: "fifo_buffer \<Rightarrow> char list" where
  "free_bytes f = drop (ff_data_length f) (ring f)"

definition fifo_ok :: "fifo_buffer \<Rightarrow> bool" where
  "fifo_ok f \<longleftrightarrow> ff_data_length f \<le> ff_length f \<and> (ff_read_position f < ff_length f \<or> ff_read_position f = 0)"

lemma ring_parts: "ring f = held_bytes f @ free_bytes f"
  by (simp add: held_bytes_def free_bytes_def)

lemma length_ring [simp]: "length (ring f) = ff_length f"
  by (simp add: ring_def)

lemma length_held_bytes [simp]: "fifo_ok f \<Longrightarrow> length (held_bytes f) = ff_data_length f"
  by (simp add: held_bytes_def fifo_ok_def)

lemma length_free_bytes [simp]: "length (free_bytes f) = ff_length f - ff_data_length f"
  by (simp add: free_bytes_def)

subsection \<open>The copies are copies of the rotated block\<close>

lemma rotate_split: "k < length xs \<Longrightarrow> rotate k xs = drop k xs @ take k xs"
  by (simp add: rotate_drop_take)

lemma rotate_mod: "rotate ((a + b) mod length xs) xs = rotate b (rotate a xs)"
  by (metis add.commute rotate_conv_mod rotate_rotate)

lemma rotate_inject:
  assumes "rotate k xs = rotate k ys" "length xs = length ys"
  shows "xs = ys"
proof -
  have "drop (k mod length xs) xs @ take (k mod length xs) xs = drop (k mod length xs) ys @ take (k mod length xs) ys"
    using assms by (simp add: rotate_drop_take)
  then show ?thesis using assms(2) by (metis append_eq_append_conv append_take_drop_id length_drop)
qed

lemma copy_out_rotate:
  assumes "pos < ff_length f" "copy \<le> ff_length f"
  shows "copy_out f pos copy = take copy (rotate pos (ff_buffer f))"
  using assms by (auto simp: copy_out_def Let_def rotate_split min_def)

lemma copy_in_rotate:
  assumes "pos < length buf" "c \<le> length buf" "c \<le> length data" "t = min c (length buf - pos)"
  shows "rotate pos (copy_in (copy_in buf pos (take t data)) 0 (take (c - t) (drop t data)))
    = take c data @ drop c (rotate pos buf)"
proof (cases "c \<le> length buf - pos")
  case True
  then have "t = c" using assms by simp
  then have "copy_in (copy_in buf pos (take t data)) 0 (take (c - t) (drop t data)) = take pos buf @ take c data @ drop (pos + c) buf"
    using assms by (simp add: copy_in_def)
  moreover have "length (take pos buf) = pos" using assms by simp
  moreover have "drop c (rotate pos buf) = drop (pos + c) buf @ take pos buf"
    using assms True by (simp add: rotate_split add.commute)
  ultimately show ?thesis using assms True by (simp add: rotate_split)
next
  case False
  then have t: "t = length buf - pos" using assms by simp
  let ?d1 = "take t data" and ?d2 = "take (c - t) (drop t data)"
  have l: "length ?d1 = length buf - pos" "length ?d2 = c - t" "c - t \<le> pos" using assms False t by simp_all
  have "copy_in buf pos ?d1 = take pos buf @ ?d1" using l assms(1) by (simp add: copy_in_def)
  then have "copy_in (copy_in buf pos ?d1) 0 ?d2 = (?d2 @ drop (c - t) (take pos buf)) @ ?d1"
    using l assms(1) by (simp add: copy_in_def)
  moreover have "length (?d2 @ drop (c - t) (take pos buf)) = pos" using l assms(1) by simp
  ultimately have "rotate pos (copy_in (copy_in buf pos ?d1) 0 ?d2) = ?d1 @ ?d2 @ drop (c - t) (take pos buf)"
    by (metis append.assoc rotate_append)
  moreover have "?d1 @ ?d2 = take c data" using False t by (simp add: take_add [symmetric])
  moreover have "drop c (rotate pos buf) = drop (c - t) (take pos buf)"
    using False t assms(1) by (simp add: rotate_split)
  ultimately show ?thesis by simp
qed

text \<open>A position in the ring, counted from the read position.\<close>

lemma ring_at:
  "rotate ((ff_read_position f + k) mod ff_length f) (ff_buffer f) = rotate k (ring f)"
  by (simp add: ring_def rotate_mod)

lemma read_at:
  assumes "k + copy \<le> ff_length f" "0 < copy"
  shows "copy_out f ((ff_read_position f + k) mod ff_length f) copy = take copy (drop k (ring f))"
proof -
  have "k < ff_length f" using assms by simp
  then have "rotate k (ring f) = drop k (ring f) @ take k (ring f)" by (simp add: rotate_split)
  moreover have "(ff_read_position f + k) mod ff_length f < ff_length f" using \<open>k < ff_length f\<close> by (intro mod_less_divisor) linarith
  ultimately show ?thesis using assms by (simp add: copy_out_rotate ring_at)
qed

lemma write_at:
  assumes "k + c \<le> ff_length f" "k < ff_length f" "c \<le> length data"
    "wp = (ff_read_position f + k) mod ff_length f" "t = min c (ff_length f - wp)"
  shows "ring (f\<lparr>ff_buffer := copy_in (copy_in (ff_buffer f) wp (take t data)) 0 (take (c - t) (drop t data))\<rparr>)
    = take k (ring f) @ take c data @ drop (k + c) (ring f)"
proof -
  define buf where "buf = copy_in (copy_in (ff_buffer f) wp (take t data)) 0 (take (c - t) (drop t data))"
  have wp: "wp < ff_length f" unfolding assms(4) using assms(2) by (intro mod_less_divisor) linarith
  have r: "rotate wp buf = take c data @ drop c (rotate k (ring f))"
    unfolding buf_def ring_at [symmetric] assms(4) [symmetric]
    by (rule copy_in_rotate) (use assms wp in simp_all)
  then have "length (rotate wp buf) = length (take c data @ drop c (rotate k (ring f)))" by simp
  then have len: "length buf = ff_length f" using assms by simp
  have "rotate k (rotate (ff_read_position f) buf) = rotate wp buf"
    using rotate_mod [of "ff_read_position f" k buf] assms(4) len by simp
  also have "\<dots> = take c data @ drop (k + c) (ring f) @ take k (ring f)"
    using r assms(1,2) by (simp add: rotate_split add.commute)
  also have "\<dots> = rotate k (take k (ring f) @ take c data @ drop (k + c) (ring f))"
    using assms(2) rotate_append [of "take k (ring f)" "take c data @ drop (k + c) (ring f)"] by simp
  finally have "rotate (ff_read_position f) buf = take k (ring f) @ take c data @ drop (k + c) (ring f)"
    by (rule rotate_inject) (use assms len in simp)
  then show ?thesis by (simp add: ring_def buf_def)
qed

lemma ring_consumed:
  assumes "n \<le> ff_length f" "0 < ff_length f"
  shows "ring (f\<lparr>ff_read_position := (ff_read_position f + n) mod ff_length f, ff_data_length := d\<rparr>) = drop n (ring f) @ take n (ring f)"
proof -
  have "ring (f\<lparr>ff_read_position := (ff_read_position f + n) mod ff_length f, ff_data_length := d\<rparr>) = rotate n (ring f)"
    using rotate_mod [of "ff_read_position f" n "ff_buffer f"] by (simp add: ring_def)
  moreover have "rotate n (ring f) = drop n (ring f) @ take n (ring f)"
    using assms by (cases "n = ff_length f") (simp_all add: rotate_split rotate_drop_take)
  ultimately show ?thesis by simp
qed

subsection \<open>The pipe that a buffer promises to be\<close>

text \<open>
  The bytes written and not yet read, the room behind them (with what was put there ahead of its
  turn), and whether the pipe was closed.
\<close>

record pipe =
  pp_data :: "char list"
  pp_room :: "char list"
  pp_closed :: bool

datatype fifo_op =
    OpRead nat
  | OpReadOffset nat nat
  | OpConsumeRead nat
  | OpWrite "char list"
  | OpWriteOffset "char list" nat
  | OpConsumeWrite nat
  | OpSetCapacity "char list"
  | OpClose

datatype fifo_out = Out stream_result "char list" nat "stream_event list" | Crashed

text \<open>What is read, or how many bytes were written; \<open>SetCapacity\<close> answers success or error.\<close>

fun ff_do :: "fifo_op \<Rightarrow> fifo_buffer \<Rightarrow> fifo_out \<times> fifo_buffer" where
  "ff_do (OpRead n) f = (case ff_Read n f of (r, out, evs, f') \<Rightarrow> (Out r out (length out) evs, f'))"
| "ff_do (OpReadOffset n offset) f = (case ff_ReadOffset n offset f of (r, out) \<Rightarrow> (Out r out (length out) [], f))"
| "ff_do (OpConsumeRead n) f =
     (case ff_ConsumeReadData n f of None \<Rightarrow> (Crashed, f) | Some (evs, f') \<Rightarrow> (Out SR_SUCCESS [] n evs, f'))"
| "ff_do (OpWrite data) f = (case ff_Write data f of (r, n, evs, f') \<Rightarrow> (Out r [] n evs, f'))"
| "ff_do (OpWriteOffset data offset) f = (case ff_WriteOffset data offset f of (r, n, f') \<Rightarrow> (Out r [] n [], f'))"
| "ff_do (OpConsumeWrite n) f = (case ff_ConsumeWriteBuffer n f of (evs, f') \<Rightarrow> (Out SR_SUCCESS [] n evs, f'))"
| "ff_do (OpSetCapacity junk) f =
     (case ff_SetCapacity junk f of (ok, f') \<Rightarrow> (Out (if ok then SR_SUCCESS else SR_ERROR) [] 0 [], f'))"
| "ff_do OpClose f = (Out SR_SUCCESS [] 0 [], ff_Close f)"

fun pipe_do :: "fifo_op \<Rightarrow> pipe \<Rightarrow> fifo_out \<times> pipe" where
  "pipe_do (OpRead n) p =
     (if pp_data p = [] then (Out (if pp_closed p then SR_EOS else SR_BLOCK) [] 0 [], p)
      else (Out SR_SUCCESS (take n (pp_data p)) (min n (length (pp_data p))) (if pp_room p = [] \<and> n > 0 then [SE_WRITE] else []),
            p\<lparr>pp_data := drop n (pp_data p), pp_room := pp_room p @ take n (pp_data p)\<rparr>))"
| "pipe_do (OpReadOffset n offset) p =
     (if offset \<ge> length (pp_data p) then (Out (if pp_closed p then SR_EOS else SR_BLOCK) [] 0 [], p)
      else (Out SR_SUCCESS (take n (drop offset (pp_data p))) (min n (length (pp_data p) - offset)) [], p))"
| "pipe_do (OpConsumeRead n) p =
     (if pp_data p = [] \<and> pp_room p = [] then (Crashed, p)
      else (Out SR_SUCCESS [] n (if pp_room p = [] \<and> n > 0 then [SE_WRITE] else []),
            p\<lparr>pp_data := drop n (pp_data p), pp_room := pp_room p @ take n (pp_data p)\<rparr>))"
| "pipe_do (OpWrite data) p =
     (if pp_closed p then (Out SR_EOS [] 0 [], p)
      else if pp_room p = [] then (Out SR_BLOCK [] 0 [], p)
      else (let n = min (length data) (length (pp_room p)) in
        (Out SR_SUCCESS [] n (if pp_data p = [] \<and> n > 0 then [SE_READ] else []),
         p\<lparr>pp_data := pp_data p @ take n data, pp_room := drop n (pp_room p)\<rparr>)))"
| "pipe_do (OpWriteOffset data offset) p =
     (if pp_closed p then (Out SR_EOS [] 0 [], p)
      else if offset \<ge> length (pp_room p) then (Out SR_BLOCK [] 0 [], p)
      else (let n = min (length data) (length (pp_room p) - offset) in
        (Out SR_SUCCESS [] n [],
         p\<lparr>pp_room := take offset (pp_room p) @ take n data @ drop (offset + n) (pp_room p)\<rparr>)))"
| "pipe_do (OpConsumeWrite n) p =
     (Out SR_SUCCESS [] n (if pp_data p = [] \<and> n > 0 then [SE_READ] else []),
      p\<lparr>pp_data := pp_data p @ take n (pp_room p), pp_room := drop n (pp_room p)\<rparr>)"
| "pipe_do (OpSetCapacity junk) p =
     (if length (pp_data p) > length junk then (Out SR_ERROR [] 0 [], p)
      else if length junk = length (pp_data p) + length (pp_room p) then (Out SR_SUCCESS [] 0 [], p)
      else (Out SR_SUCCESS [] 0 [], p\<lparr>pp_room := drop (length (pp_data p)) junk\<rparr>))"
| "pipe_do OpClose p = (Out SR_SUCCESS [] 0 [], p\<lparr>pp_closed := True\<rparr>)"

text \<open>The contract of the operations (their ASSERTs).\<close>

fun pipe_allows :: "fifo_op \<Rightarrow> pipe \<Rightarrow> bool" where
  "pipe_allows (OpConsumeRead n) p \<longleftrightarrow> n \<le> length (pp_data p)"
| "pipe_allows (OpConsumeWrite n) p \<longleftrightarrow> n \<le> length (pp_room p)"
| "pipe_allows op p \<longleftrightarrow> True"

definition fifo_pipe :: "fifo_buffer \<Rightarrow> pipe" where
  "fifo_pipe f = \<lparr>pp_data = held_bytes f, pp_room = free_bytes f, pp_closed = ff_closed f\<rparr>"

subsection \<open>Simulation\<close>

text \<open>
  An implementation of a step machine: the abstraction commutes with every operation that the contract
  allows, so it does with every sequence of them, and the results are the same.
\<close>

fun steps :: "('op \<Rightarrow> 's \<Rightarrow> 'out \<times> 's) \<Rightarrow> 'op list \<Rightarrow> 's \<Rightarrow> 'out list \<times> 's" where
  "steps do [] s = ([], s)"
| "steps do (op # ops) s = (let (out, s1) = do op s; (outs, s2) = steps do ops s1 in (out # outs, s2))"

fun all_allowed :: "('op \<Rightarrow> 's \<Rightarrow> bool) \<Rightarrow> ('op \<Rightarrow> 's \<Rightarrow> 'out \<times> 's) \<Rightarrow> 'op list \<Rightarrow> 's \<Rightarrow> bool" where
  "all_allowed allows do [] s \<longleftrightarrow> True"
| "all_allowed allows do (op # ops) s \<longleftrightarrow> allows op s \<and> all_allowed allows do ops (snd (do op s))"

locale simulation =
  fixes abs :: "'c \<Rightarrow> 'a" and inv :: "'c \<Rightarrow> bool"
    and conc :: "'op \<Rightarrow> 'c \<Rightarrow> 'out \<times> 'c" and spec :: "'op \<Rightarrow> 'a \<Rightarrow> 'out \<times> 'a" and allows :: "'op \<Rightarrow> 'a \<Rightarrow> bool"
  assumes simulates: "inv c \<Longrightarrow> allows op (abs c) \<Longrightarrow>
    inv (snd (conc op c)) \<and> spec op (abs c) = (fst (conc op c), abs (snd (conc op c)))"
begin

lemma steps_simulated:
  "inv c \<Longrightarrow> all_allowed allows spec ops (abs c) \<Longrightarrow>
   inv (snd (steps conc ops c)) \<and> steps spec ops (abs c) = (fst (steps conc ops c), abs (snd (steps conc ops c)))"
proof (induction ops arbitrary: c)
  case (Cons op ops)
  have "inv (snd (conc op c))" "spec op (abs c) = (fst (conc op c), abs (snd (conc op c)))"
    using simulates Cons.prems by auto
  then show ?case using Cons.IH [of "snd (conc op c)"] Cons.prems by (simp add: case_prod_beta)
qed simp

end

subsection \<open>The operations one by one\<close>

lemma fifo_pipe_sel [simp]:
  "pp_data (fifo_pipe f) = held_bytes f" "pp_room (fifo_pipe f) = free_bytes f" "pp_closed (fifo_pipe f) = ff_closed f"
  by (simp_all add: fifo_pipe_def)

lemma pipe_eqI:
  assumes "ring f' = d @ r" "ff_data_length f' = length d" "ff_closed f' = cl"
  shows "fifo_pipe f' = \<lparr>pp_data = d, pp_room = r, pp_closed = cl\<rparr>"
  using assms by (simp add: fifo_pipe_def held_bytes_def free_bytes_def)

lemma held_bytes_Nil: "fifo_ok f \<Longrightarrow> held_bytes f = [] \<longleftrightarrow> ff_data_length f = 0"
  by (metis length_held_bytes length_0_conv)

lemma free_bytes_Nil: "free_bytes f = [] \<longleftrightarrow> ff_length f \<le> ff_data_length f"
  using length_free_bytes [of f] by (metis diff_is_0_eq length_0_conv)

text \<open>Consuming, as \<open>Read\<close> and \<open>ConsumeReadData\<close> do it.\<close>

lemma consumed:
  assumes "fifo_ok f" "n \<le> ff_data_length f" "0 < ff_length f"
    and "f' = f\<lparr>ff_read_position := (ff_read_position f + n) mod ff_length f, ff_data_length := ff_data_length f - n\<rparr>"
  shows "fifo_ok f'" "fifo_pipe f' = (fifo_pipe f)\<lparr>pp_data := drop n (held_bytes f), pp_room := free_bytes f @ take n (held_bytes f)\<rparr>"
proof -
  have "ff_data_length f - n \<le> ff_length f" using assms(1) unfolding fifo_ok_def by linarith
  then show "fifo_ok f'" using assms(3,4) by (simp add: fifo_ok_def)
  have "ring f' = drop n (ring f) @ take n (ring f)"
    unfolding assms(4) by (rule ring_consumed) (use assms in \<open>simp_all add: fifo_ok_def\<close>)
  then have "ring f' = drop n (held_bytes f) @ (free_bytes f @ take n (held_bytes f))"
    using assms(1,2) by (simp add: ring_parts)
  from pipe_eqI [OF this] show "fifo_pipe f' = (fifo_pipe f)\<lparr>pp_data := drop n (held_bytes f), pp_room := free_bytes f @ take n (held_bytes f)\<rparr>"
    using assms by (simp add: fifo_pipe_def)
qed

lemma ReadOffset_held:
  assumes "fifo_ok f"
  shows "ff_ReadOffset n offset f =
     (if offset \<ge> ff_data_length f then (if ff_closed f then SR_EOS else SR_BLOCK, [])
      else (SR_SUCCESS, take n (drop offset (held_bytes f))))"
proof (cases "offset \<ge> ff_data_length f")
  case False
  let ?c = "min n (ff_data_length f - offset)"
  have le: "ff_data_length f \<le> ff_length f" using assms by (simp add: fifo_ok_def)
  have "copy_out f ((ff_read_position f + offset) mod ff_length f) ?c = take ?c (drop offset (ring f))"
  proof (cases "?c = 0")
    case True
    then show ?thesis by (simp add: copy_out_def)
  qed (use read_at [of offset ?c f] le False in simp)
  also have "\<dots> = take n (drop offset (held_bytes f))"
    by (simp add: held_bytes_def drop_take min.commute)
  finally show ?thesis using False by (simp add: ff_ReadOffset_def)
qed (simp add: ff_ReadOffset_def)

lemma WriteOffset_room:
  assumes "fifo_ok f" "ff_WriteOffset data offset f = (r, n, f')"
  shows "ff_closed f \<Longrightarrow> r = SR_EOS \<and> n = 0 \<and> f' = f"
    "\<not> ff_closed f \<Longrightarrow> offset \<ge> length (free_bytes f) \<Longrightarrow> r = SR_BLOCK \<and> n = 0 \<and> f' = f"
    "\<not> ff_closed f \<Longrightarrow> offset < length (free_bytes f) \<Longrightarrow>
       r = SR_SUCCESS \<and> n = min (length data) (length (free_bytes f) - offset) \<and> fifo_ok f'
       \<and> ff_data_length f' = ff_data_length f \<and> ff_length f' = ff_length f \<and> ff_closed f' = ff_closed f
       \<and> held_bytes f' = held_bytes f
       \<and> free_bytes f' = take offset (free_bytes f) @ take n data @ drop (offset + n) (free_bytes f)"
proof -
  have le: "ff_data_length f \<le> ff_length f" using assms by (simp add: fifo_ok_def)
  show "ff_closed f \<Longrightarrow> r = SR_EOS \<and> n = 0 \<and> f' = f" using assms(2) by (simp add: ff_WriteOffset_def)
  show "\<not> ff_closed f \<Longrightarrow> offset \<ge> length (free_bytes f) \<Longrightarrow> r = SR_BLOCK \<and> n = 0 \<and> f' = f"
  proof -
    assume o: "\<not> ff_closed f" "offset \<ge> length (free_bytes f)"
    then have "ff_length f \<le> ff_data_length f + offset" using le by simp
    then show "r = SR_BLOCK \<and> n = 0 \<and> f' = f" using assms(2) o(1) by (simp add: ff_WriteOffset_def)
  qed
  assume o: "\<not> ff_closed f" "offset < length (free_bytes f)"
  let ?k = "ff_data_length f + offset"
  let ?wp = "(ff_read_position f + ?k) mod ff_length f"
  let ?c = "min (length data) (ff_length f - ff_data_length f - offset)"
  let ?t = "min ?c (ff_length f - ?wp)"
  have k: "?k < ff_length f" using o by simp
  have f': "r = SR_SUCCESS" "n = ?c"
      "f' = f\<lparr>ff_buffer := copy_in (copy_in (ff_buffer f) ?wp (take ?t data)) 0 (take (?c - ?t) (drop ?t data))\<rparr>"
    using assms(2) o k by (auto simp: ff_WriteOffset_def Let_def add.assoc)
  have ring: "ring f' = take ?k (ring f) @ take ?c data @ drop (?k + ?c) (ring f)"
    unfolding f' by (rule write_at) (use k in auto)
  then have "length (ring f') = ff_length f" using k by simp
  then have len: "ff_length f' = ff_length f" by simp
  have dl: "ff_data_length f' = ff_data_length f" "ff_closed f' = ff_closed f" "ff_read_position f' = ff_read_position f"
    by (simp_all add: f')
  have "ring f' = held_bytes f @ (take offset (free_bytes f) @ take n data @ drop (offset + n) (free_bytes f))"
    using ring assms(1) f'(2) by (simp add: ring_parts add.assoc)
  then have "held_bytes f' = held_bytes f" "free_bytes f' = take offset (free_bytes f) @ take n data @ drop (offset + n) (free_bytes f)"
    using assms(1) dl by (simp_all add: held_bytes_def [of f'] free_bytes_def [of f'])
  then show "r = SR_SUCCESS \<and> n = min (length data) (length (free_bytes f) - offset) \<and> fifo_ok f'
       \<and> ff_data_length f' = ff_data_length f \<and> ff_length f' = ff_length f \<and> ff_closed f' = ff_closed f
       \<and> held_bytes f' = held_bytes f
       \<and> free_bytes f' = take offset (free_bytes f) @ take n data @ drop (offset + n) (free_bytes f)"
    using f'(1,2) dl len assms(1) by (simp add: fifo_ok_def)
qed

lemma Write_room:
  assumes "fifo_ok f" "ff_Write data f = (r, n, evs, f')"
  shows "ff_closed f \<Longrightarrow> r = SR_EOS \<and> n = 0 \<and> evs = [] \<and> f' = f"
    "\<not> ff_closed f \<Longrightarrow> free_bytes f = [] \<Longrightarrow> r = SR_BLOCK \<and> n = 0 \<and> evs = [] \<and> f' = f"
    "\<not> ff_closed f \<Longrightarrow> free_bytes f \<noteq> [] \<Longrightarrow>
       r = SR_SUCCESS \<and> n = min (length data) (length (free_bytes f)) \<and> fifo_ok f'
       \<and> evs = (if held_bytes f = [] \<and> n > 0 then [SE_READ] else [])
       \<and> fifo_pipe f' = \<lparr>pp_data = held_bytes f @ take n data, pp_room = drop n (free_bytes f), pp_closed = False\<rparr>"
proof -
  obtain r1 n1 f1 where w: "ff_WriteOffset data 0 f = (r1, n1, f1)" by (cases "ff_WriteOffset data 0 f") auto
  note W = WriteOffset_room [OF assms(1) w]
  show "ff_closed f \<Longrightarrow> r = SR_EOS \<and> n = 0 \<and> evs = [] \<and> f' = f"
    using W(1) assms(2) w by (auto simp: ff_Write_def)
  show "\<not> ff_closed f \<Longrightarrow> free_bytes f = [] \<Longrightarrow> r = SR_BLOCK \<and> n = 0 \<and> evs = [] \<and> f' = f"
    using W(2) assms(2) w by (auto simp: ff_Write_def)
  assume open_room: "\<not> ff_closed f" "free_bytes f \<noteq> []"
  then have f1: "r1 = SR_SUCCESS" "n1 = min (length data) (length (free_bytes f))" "fifo_ok f1"
      "ff_data_length f1 = ff_data_length f" "ff_length f1 = ff_length f" "ff_closed f1 = ff_closed f"
      "held_bytes f1 = held_bytes f" "free_bytes f1 = take n1 data @ drop n1 (free_bytes f)"
    using W(3) by (simp_all del: length_free_bytes)
  have res: "r = SR_SUCCESS" "n = n1" "evs = (if held_bytes f = [] \<and> n > 0 then [SE_READ] else [])"
    and f': "f' = f1\<lparr>ff_data_length := ff_data_length f + n1\<rparr>"
    using assms w f1(1,4) by (auto simp: ff_Write_def held_bytes_Nil)
  have "n1 \<le> ff_length f - ff_data_length f" using f1(2) by simp
  then have le: "ff_data_length f + n1 \<le> ff_length f" using assms(1) unfolding fifo_ok_def by linarith
  then have "fifo_ok f'" using f1(3,5) by (simp add: f' fifo_ok_def)
  moreover have "fifo_pipe f' = \<lparr>pp_data = held_bytes f @ take n1 data, pp_room = drop n1 (free_bytes f), pp_closed = False\<rparr>"
  proof (rule pipe_eqI)
    have "ring f' = ring f1" by (simp add: f' ring_def)
    then show "ring f' = (held_bytes f @ take n1 data) @ drop n1 (free_bytes f)" using f1(7,8) by (simp add: ring_parts)
    show "ff_data_length f' = length (held_bytes f @ take n1 data)" using f1(2) assms(1) by (simp add: f')
    show "ff_closed f' = False" using open_room f1(6) by (simp add: f')
  qed
  ultimately show "r = SR_SUCCESS \<and> n = min (length data) (length (free_bytes f)) \<and> fifo_ok f'
       \<and> evs = (if held_bytes f = [] \<and> n > 0 then [SE_READ] else [])
       \<and> fifo_pipe f' = \<lparr>pp_data = held_bytes f @ take n data, pp_room = drop n (free_bytes f), pp_closed = False\<rparr>"
    using res f1(2) by simp
qed

lemma Read_held:
  assumes "fifo_ok f" "held_bytes f \<noteq> []"
  shows "\<exists>f'. ff_Read n f = (SR_SUCCESS, take n (held_bytes f), if free_bytes f = [] \<and> n > 0 then [SE_WRITE] else [], f')
    \<and> fifo_ok f' \<and> fifo_pipe f' = (fifo_pipe f)\<lparr>pp_data := drop n (held_bytes f), pp_room := free_bytes f @ take n (held_bytes f)\<rparr>"
proof -
  let ?out = "take n (held_bytes f)"
  have dl: "0 < ff_data_length f" "ff_data_length f \<le> ff_length f"
    using assms held_bytes_Nil [of f] by (simp_all add: fifo_ok_def)
  let ?f' = "f\<lparr>ff_read_position := (ff_read_position f + length ?out) mod ff_length f, ff_data_length := ff_data_length f - length ?out\<rparr>"
  have "ff_Read n f = (SR_SUCCESS, ?out, if free_bytes f = [] \<and> n > 0 then [SE_WRITE] else [], ?f')"
    using dl assms(2) ReadOffset_held [OF assms(1), of n 0] by (auto simp: ff_Read_def free_bytes_Nil)
  moreover have "fifo_ok ?f'" "fifo_pipe ?f' = (fifo_pipe f)\<lparr>pp_data := drop n (held_bytes f), pp_room := free_bytes f @ take n (held_bytes f)\<rparr>"
  proof -
    have n: "length ?out \<le> ff_data_length f" using assms(1) by simp
    have pos: "0 < ff_length f" using dl by linarith
    have t: "take (length ?out) (held_bytes f) = ?out" "drop (length ?out) (held_bytes f) = drop n (held_bytes f)"
      using assms(1) by (simp_all add: min_def)
    show "fifo_ok ?f'" "fifo_pipe ?f' = (fifo_pipe f)\<lparr>pp_data := drop n (held_bytes f), pp_room := free_bytes f @ take n (held_bytes f)\<rparr>"
      using consumed [OF assms(1) n pos refl] unfolding t by blast+
  qed
  ultimately show ?thesis by blast
qed

lemma SetCapacity_pipe:
  assumes "fifo_ok f" "length junk \<ge> ff_data_length f" "length junk \<noteq> ff_length f"
  shows "\<exists>f'. ff_SetCapacity junk f = (True, f') \<and> fifo_ok f'
    \<and> fifo_pipe f' = (fifo_pipe f)\<lparr>pp_room := drop (ff_data_length f) junk\<rparr>"
proof -
  have le: "ff_data_length f \<le> ff_length f" using assms by (simp add: fifo_ok_def)
  have c: "copy_out f (ff_read_position f) (ff_data_length f) = held_bytes f"
  proof (cases "ff_data_length f = 0")
    case True
    then show ?thesis by (simp add: copy_out_def held_bytes_def)
  next
    case False
    then have "ff_read_position f < ff_length f" using assms(1) le by (auto simp: fifo_ok_def)
    then show ?thesis using copy_out_rotate [OF _ le] by (simp add: held_bytes_def ring_def)
  qed
  let ?f' = "f\<lparr>ff_buffer := held_bytes f @ drop (ff_data_length f) junk, ff_read_position := 0\<rparr>"
  have "ff_SetCapacity junk f = (True, ?f')"
    using assms by (simp add: ff_SetCapacity_def c copy_in_def)
  moreover have "fifo_ok ?f'" using assms by (simp add: fifo_ok_def)
  moreover have "fifo_pipe ?f' = \<lparr>pp_data = held_bytes f, pp_room = drop (ff_data_length f) junk, pp_closed = ff_closed f\<rparr>"
    by (rule pipe_eqI) (use assms in \<open>simp_all add: ring_def\<close>)
  ultimately show ?thesis by (simp add: fifo_pipe_def)
qed

lemma ff_do_simulates:
  assumes "fifo_ok f" "pipe_allows op (fifo_pipe f)"
  shows "fifo_ok (snd (ff_do op f)) \<and> pipe_do op (fifo_pipe f) = (fst (ff_do op f), fifo_pipe (snd (ff_do op f)))"
proof (cases op)
  case (OpRead n)
  show ?thesis
  proof (cases "held_bytes f = []")
    case True
    then show ?thesis using OpRead assms(1) ReadOffset_held [OF assms(1), of n 0]
      by (simp add: ff_Read_def held_bytes_Nil Let_def)
  next
    case False
    then show ?thesis using OpRead Read_held [OF assms(1) False, of n] assms(1) by (auto simp: min.commute)
  qed
next
  case (OpReadOffset n offset)
  then show ?thesis using assms(1) by (auto simp: ReadOffset_held min.commute)
next
  case (OpConsumeRead n)
  show ?thesis
  proof (cases "ff_length f = 0")
    case True
    then have "held_bytes f = []" "free_bytes f = []" by (simp_all add: held_bytes_def free_bytes_def ring_def)
    then show ?thesis using OpConsumeRead assms(1) True by (simp add: ff_ConsumeReadData_def)
  next
    case False
    then have ne: "\<not> (held_bytes f = [] \<and> free_bytes f = [])"
      by (metis append_Nil length_0_conv length_ring ring_parts)
    show ?thesis
      using OpConsumeRead assms False ne consumed [OF assms(1), of n]
      by (auto simp: ff_ConsumeReadData_def free_bytes_Nil)
  qed
next
  case (OpWrite data)
  obtain r n evs f' where w: "ff_Write data f = (r, n, evs, f')" by (cases "ff_Write data f") auto
  note W = Write_room [OF assms(1) w]
  have do: "ff_do op f = (Out r [] n evs, f')" using OpWrite w by simp
  consider "ff_closed f" | "\<not> ff_closed f" "free_bytes f = []" | "\<not> ff_closed f" "free_bytes f \<noteq> []" by blast
  then show ?thesis
  proof cases
    case 1
    then show ?thesis using W(1) assms(1) unfolding do by (simp add: OpWrite)
  next
    case 2
    then show ?thesis using W(2) assms(1) unfolding do by (simp add: OpWrite)
  next
    case 3
    from W(3) [OF 3] show ?thesis using 3 unfolding do
      by (simp add: OpWrite fifo_pipe_def [of f] Let_def del: length_free_bytes)
  qed
next
  case (OpWriteOffset data offset)
  obtain r n f' where w: "ff_WriteOffset data offset f = (r, n, f')" by (cases "ff_WriteOffset data offset f") auto
  show ?thesis
  proof (cases "\<not> ff_closed f \<and> offset < length (free_bytes f)")
    case True
    then show ?thesis using OpWriteOffset w WriteOffset_room(3) [OF assms(1) w]
      by (simp add: fifo_pipe_def Let_def del: length_free_bytes)
  next
    case False
    then show ?thesis using OpWriteOffset w WriteOffset_room(1,2) [OF assms(1) w] assms(1)
      by (cases "ff_closed f") (simp_all del: length_free_bytes)
  qed
next
  case (OpConsumeWrite n)
  have n: "n \<le> length (free_bytes f)" using assms(2) OpConsumeWrite by (simp del: length_free_bytes)
  let ?f' = "f\<lparr>ff_data_length := ff_data_length f + n\<rparr>"
  have "fifo_ok ?f'" using n assms(1) by (auto simp: fifo_ok_def)
  moreover have "fifo_pipe ?f' = \<lparr>pp_data = held_bytes f @ take n (free_bytes f), pp_room = drop n (free_bytes f), pp_closed = ff_closed f\<rparr>"
    by (rule pipe_eqI) (use n assms(1) in \<open>simp_all add: ring_def flip: ring_parts\<close>)
  ultimately show ?thesis using OpConsumeWrite assms(1) by (simp add: ff_ConsumeWriteBuffer_def held_bytes_Nil fifo_pipe_def)
next
  case (OpSetCapacity junk)
  have sum: "length (held_bytes f) + length (free_bytes f) = ff_length f"
    using ring_parts [of f] length_ring [of f] by (metis length_append)
  consider "ff_data_length f > length junk" | "ff_data_length f \<le> length junk" "length junk = ff_length f"
    | "ff_data_length f \<le> length junk" "length junk \<noteq> ff_length f" by linarith
  then show ?thesis
  proof cases
    case 3
    then show ?thesis using OpSetCapacity SetCapacity_pipe [OF assms(1) 3] assms(1) sum by (auto simp del: length_free_bytes)
  qed (use OpSetCapacity assms(1) sum in \<open>simp_all add: ff_SetCapacity_def del: length_free_bytes\<close>)
next
  case OpClose
  have "held_bytes (ff_Close f) = held_bytes f" "free_bytes (ff_Close f) = free_bytes f"
    by (simp_all add: ff_Close_def held_bytes_def free_bytes_def ring_def)
  then show ?thesis using OpClose assms(1) by (simp add: fifo_pipe_def) (simp add: ff_Close_def fifo_ok_def)
qed

interpretation fifo_sim: simulation fifo_pipe fifo_ok ff_do pipe_do pipe_allows
  by unfold_locales (rule ff_do_simulates)

definition pipe_new :: "char list \<Rightarrow> pipe" where
  "pipe_new room = \<lparr>pp_data = [], pp_room = room, pp_closed = False\<rparr>"

lemma FifoBuffer_pipe: "fifo_ok (FifoBuffer junk)" "fifo_pipe (FifoBuffer junk) = pipe_new junk"
  by (simp_all add: FifoBuffer_def fifo_ok_def fifo_pipe_def held_bytes_def free_bytes_def ring_def pipe_new_def)

text \<open>
  C39: The ring buffer is a bounded pipe: under every sequence of operations that keeps their contract, the
  results, the bytes read, the numbers written and the events are those of a queue of bytes with a room
  behind it, across the wrap-around of the ring, changes of its capacity, and writes ahead of their
  turn; what the buffer holds at the end is the content of that queue.
\<close>

theorem fifo_is_a_pipe:
  assumes "all_allowed pipe_allows pipe_do ops (pipe_new junk)"
  shows "fst (steps ff_do ops (FifoBuffer junk)) = fst (steps pipe_do ops (pipe_new junk))
    \<and> fifo_pipe (snd (steps ff_do ops (FifoBuffer junk))) = snd (steps pipe_do ops (pipe_new junk))"
  using fifo_sim.steps_simulated [OF FifoBuffer_pipe(1), of ops junk] assms by (simp add: FifoBuffer_pipe(2))

text \<open>A write that wraps, and one into the room ahead of its turn.\<close>

definition sample_ops :: "fifo_op list" where
  "sample_ops = [OpWrite ''abcd'', OpRead 3, OpWrite ''ef'', OpWriteOffset ''g'' 0, OpConsumeWrite 1, OpRead 9, OpClose, OpRead 1]"

lemma fifo_is_a_pipe_witness:
  "fst (steps ff_do sample_ops (FifoBuffer ''-----'')) =
     [Out SR_SUCCESS [] 4 [SE_READ], Out SR_SUCCESS ''abc'' 3 [], Out SR_SUCCESS [] 2 [], Out SR_SUCCESS [] 1 [],
      Out SR_SUCCESS [] 1 [], Out SR_SUCCESS ''defg'' 4 [], Out SR_SUCCESS [] 0 [], Out SR_EOS [] 0 []]"
proof -
  have "all_allowed pipe_allows pipe_do sample_ops (pipe_new ''-----'')" by code_simp
  from fifo_is_a_pipe [OF this] have "fst (steps ff_do sample_ops (FifoBuffer ''-----'')) = fst (steps pipe_do sample_ops (pipe_new ''-----''))"
    by blast
  also have "\<dots> = [Out SR_SUCCESS [] 4 [SE_READ], Out SR_SUCCESS ''abc'' 3 [], Out SR_SUCCESS [] 2 [], Out SR_SUCCESS [] 1 [],
      Out SR_SUCCESS [] 1 [], Out SR_SUCCESS ''defg'' 4 [], Out SR_SUCCESS [] 0 [], Out SR_EOS [] 0 []]"
    by code_simp
  finally show ?thesis .
qed

subsection \<open>The loops return\<close>

text \<open>What the buffer still holds.\<close>

lemma fifo_read_cases:
  assumes "fifo_ok f"
  shows "held_bytes f = [] \<Longrightarrow> fifo_read n f = (if ff_closed f then SR_EOS else SR_BLOCK, [], f)"
    "held_bytes f \<noteq> [] \<Longrightarrow> \<exists>f'. fifo_read n f = (SR_SUCCESS, take n (held_bytes f), f') \<and> fifo_ok f'
       \<and> held_bytes f' = drop n (held_bytes f) \<and> ff_closed f' = ff_closed f"
proof -
  show "held_bytes f = [] \<Longrightarrow> fifo_read n f = (if ff_closed f then SR_EOS else SR_BLOCK, [], f)"
    using ReadOffset_held [OF assms, of n 0] assms by (simp add: fifo_read_def ff_Read_def held_bytes_Nil)
  assume "held_bytes f \<noteq> []"
  from Read_held [OF assms this, of n] obtain f' where "fifo_ok f'"
    and r: "ff_Read n f = (SR_SUCCESS, take n (held_bytes f), if free_bytes f = [] \<and> n > 0 then [SE_WRITE] else [], f')"
    and p: "fifo_pipe f' = (fifo_pipe f)\<lparr>pp_data := drop n (held_bytes f), pp_room := free_bytes f @ take n (held_bytes f)\<rparr>"
    by blast
  moreover have "held_bytes f' = drop n (held_bytes f)" "ff_closed f' = ff_closed f"
    using arg_cong [OF p, of pp_data] arg_cong [OF p, of pp_closed] by simp_all
  ultimately show "\<exists>f'. fifo_read n f = (SR_SUCCESS, take n (held_bytes f), f') \<and> fifo_ok f'
       \<and> held_bytes f' = drop n (held_bytes f) \<and> ff_closed f' = ff_closed f"
    by (simp add: fifo_read_def)
qed

lemma read_line_loop_fifo:
  assumes "fifo_ok f"
  shows "\<exists>f'. read_line_loop fifo_read line f =
      Some (if CHR 0x0A \<in> set (held_bytes f) then SR_SUCCESS else if ff_closed f then SR_EOS else SR_BLOCK,
            line @ takeWhile (\<lambda>c. c \<noteq> CHR 0x0A) (held_bytes f), f')
    \<and> fifo_ok f' \<and> held_bytes f' = tl (dropWhile (\<lambda>c. c \<noteq> CHR 0x0A) (held_bytes f))"
  using assms
proof (induction "held_bytes f" arbitrary: f line)
  case Nil
  have e: "held_bytes f = []" using Nil.hyps by simp
  have "read_line_loop fifo_read line f = Some (if ff_closed f then SR_EOS else SR_BLOCK, line, f)"
    using fifo_read_cases(1) [OF Nil.prems e, of 1] by (subst read_line_loop.simps) simp
  then show ?case using Nil.prems e by simp
next
  case (Cons c cs)
  have e: "held_bytes f = c # cs" using Cons.hyps(2) by simp
  obtain f1 where f1: "fifo_read 1 f = (SR_SUCCESS, [c], f1)" "fifo_ok f1" "held_bytes f1 = cs" "ff_closed f1 = ff_closed f"
    using fifo_read_cases(2) [OF Cons.prems, of 1] e by auto
  have loop: "read_line_loop fifo_read line f =
      (if c = CHR 0x0A then Some (SR_SUCCESS, line, f1) else read_line_loop fifo_read (line @ [c]) f1)"
    using f1(1) by (subst read_line_loop.simps) simp
  show ?case
  proof (cases "c = CHR 0x0A")
    case True
    then show ?thesis using f1 loop e by simp
  next
    case False
    then show ?thesis using f1 loop e Cons.hyps(1) [OF f1(3) [symmetric] f1(2), of "line @ [c]"] by auto
  qed
qed

lemma fifo_write_cases:
  assumes "fifo_ok f"
  shows "ff_closed f \<Longrightarrow> fifo_write data f = (SR_EOS, 0, f)"
    "\<not> ff_closed f \<Longrightarrow> free_bytes f = [] \<Longrightarrow> fifo_write data f = (SR_BLOCK, 0, f)"
    "\<not> ff_closed f \<Longrightarrow> free_bytes f \<noteq> [] \<Longrightarrow>
      \<exists>f'. fifo_write data f = (SR_SUCCESS, min (length data) (length (free_bytes f)), f') \<and> fifo_ok f' \<and> \<not> ff_closed f'
        \<and> held_bytes f' = held_bytes f @ take (length (free_bytes f)) data \<and> free_bytes f' = drop (length data) (free_bytes f)"
proof -
  obtain r n evs f' where w: "ff_Write data f = (r, n, evs, f')" by (cases "ff_Write data f") auto
  note W = Write_room [OF assms w]
  show "ff_closed f \<Longrightarrow> fifo_write data f = (SR_EOS, 0, f)" using W(1) w by (simp add: fifo_write_def)
  show "\<not> ff_closed f \<Longrightarrow> free_bytes f = [] \<Longrightarrow> fifo_write data f = (SR_BLOCK, 0, f)"
    using W(2) w by (simp add: fifo_write_def)
  assume "\<not> ff_closed f" "free_bytes f \<noteq> []"
  note w3 = W(3) [OF this]
  then have p: "fifo_pipe f' = \<lparr>pp_data = held_bytes f @ take n data, pp_room = drop n (free_bytes f), pp_closed = False\<rparr>"
    and n: "n = min (length data) (length (free_bytes f))" by blast+
  have "held_bytes f' = held_bytes f @ take n data" "free_bytes f' = drop n (free_bytes f)" "\<not> ff_closed f'"
    using arg_cong [OF p, of pp_data] arg_cong [OF p, of pp_room] arg_cong [OF p, of pp_closed] by simp_all
  moreover have "take n data = take (length (free_bytes f)) data" "drop n (free_bytes f) = drop (length data) (free_bytes f)"
    using n by (simp_all add: min_def del: length_free_bytes)
  ultimately show "\<exists>f'. fifo_write data f = (SR_SUCCESS, min (length data) (length (free_bytes f)), f') \<and> fifo_ok f' \<and> \<not> ff_closed f'
        \<and> held_bytes f' = held_bytes f @ take (length (free_bytes f)) data \<and> free_bytes f' = drop (length data) (free_bytes f)"
    using w3 w n by (auto simp: fifo_write_def simp del: length_free_bytes)
qed

lemma WriteAll_fifo:
  assumes "fifo_ok f" "\<not> ff_closed f"
  shows "\<exists>f'. WriteAll fifo_write data f =
      Some (if length data \<le> length (free_bytes f) then SR_SUCCESS else SR_BLOCK, min (length data) (length (free_bytes f)), f')
    \<and> held_bytes f' = held_bytes f @ take (length (free_bytes f)) data"
proof (cases "data = []")
  case True
  then show ?thesis by (simp add: WriteAll_def write_all_loop.simps)
next
  case data: False
  show ?thesis
  proof (cases "free_bytes f = []")
    case True
    have "write_all_loop fifo_write data 0 SR_SUCCESS f = Some (SR_BLOCK, 0, f)"
      using fifo_write_cases(2) [OF assms True] data by (subst write_all_loop.simps) simp
    then show ?thesis using data unfolding WriteAll_def True by simp
  next
    case False
    let ?n = "min (length data) (length (free_bytes f))"
    from fifo_write_cases(3) [OF assms False, of data] obtain f1 where f1: "fifo_write data f = (SR_SUCCESS, ?n, f1)"
        "fifo_ok f1" "\<not> ff_closed f1" "held_bytes f1 = held_bytes f @ take (length (free_bytes f)) data"
        "free_bytes f1 = drop (length data) (free_bytes f)" by blast
    have 1: "write_all_loop fifo_write data 0 SR_SUCCESS f = write_all_loop fifo_write data ?n SR_SUCCESS f1"
      using data f1(1) by (subst write_all_loop.simps) simp
    show ?thesis
    proof (cases "length data \<le> length (free_bytes f)")
      case True
      then have "write_all_loop fifo_write data ?n SR_SUCCESS f1 = Some (SR_SUCCESS, ?n, f1)"
        by (subst write_all_loop.simps) (simp del: length_free_bytes)
      then show ?thesis using 1 f1(4) True by (simp add: WriteAll_def del: length_free_bytes)
    next
      case more: False
      then have e: "free_bytes f1 = []" "?n < length data" unfolding f1(5) by (simp_all del: length_free_bytes)
      have "write_all_loop fifo_write data ?n SR_SUCCESS f1 = Some (SR_BLOCK, ?n, f1)"
        using fifo_write_cases(2) [OF f1(2,3) e(1)] e(2) by (subst write_all_loop.simps) (simp del: length_free_bytes)
      then show ?thesis using 1 f1(4) more by (simp add: WriteAll_def del: length_free_bytes)
    qed
  qed
qed

lemma ReadAll_fifo:
  assumes "fifo_ok f"
  shows "\<exists>f'. ReadAll fifo_read n f =
      Some (if n \<le> length (held_bytes f) then SR_SUCCESS else if ff_closed f then SR_EOS else SR_BLOCK, take n (held_bytes f), f')
    \<and> held_bytes f' = drop n (held_bytes f)"
proof (cases "n = 0")
  case True
  then show ?thesis by (simp add: ReadAll_def read_all_loop.simps)
next
  case n: False
  show ?thesis
  proof (cases "held_bytes f = []")
    case True
    have "read_all_loop fifo_read n [] SR_SUCCESS f = Some (if ff_closed f then SR_EOS else SR_BLOCK, [], f)"
      using fifo_read_cases(1) [OF assms True] n by (subst read_all_loop.simps) simp
    then show ?thesis using n True by (simp add: ReadAll_def)
  next
    case False
    from fifo_read_cases(2) [OF assms False, of n] obtain f1 where f1: "fifo_read n f = (SR_SUCCESS, take n (held_bytes f), f1)"
        "fifo_ok f1" "held_bytes f1 = drop n (held_bytes f)" "ff_closed f1 = ff_closed f" by blast
    have 1: "read_all_loop fifo_read n [] SR_SUCCESS f = read_all_loop fifo_read n (take n (held_bytes f)) SR_SUCCESS f1"
      using n f1(1) by (subst read_all_loop.simps) simp
    show ?thesis
    proof (cases "n \<le> length (held_bytes f)")
      case True
      then have "read_all_loop fifo_read n (take n (held_bytes f)) SR_SUCCESS f1 = Some (SR_SUCCESS, take n (held_bytes f), f1)"
        using assms by (subst read_all_loop.simps) simp
      then show ?thesis using 1 f1(3) True by (simp add: ReadAll_def)
    next
      case more: False
      then have e: "held_bytes f1 = []" "length (take n (held_bytes f)) < n" using f1(3) assms by simp_all
      have "read_all_loop fifo_read n (take n (held_bytes f)) SR_SUCCESS f1
          = Some (if ff_closed f then SR_EOS else SR_BLOCK, take n (held_bytes f), f1)"
        using fifo_read_cases(1) [OF f1(2) e(1)] e(2) f1(4) by (subst read_all_loop.simps) (simp del: length_take)
      then show ?thesis using 1 f1(3) more by (simp add: ReadAll_def)
    qed
  qed
qed

text \<open>
  C40: On a ring buffer the loops of the stream interface return, on every input: \<open>WriteAll\<close> has then written what there
  was room for, \<open>ReadAll\<close> has read what was asked for or all there was, and \<open>ReadLine\<close> gives the bytes
  up to the first newline, which it takes away, or all the bytes when there is none.
\<close>

theorem stream_loops_return:
  assumes "all_allowed pipe_allows pipe_do ops (pipe_new junk)" and "f = snd (steps ff_do ops (FifoBuffer junk))"
    and "\<not> ff_closed f"
  shows "(\<exists>f'. WriteAll fifo_write data f =
        Some (if length data \<le> length (free_bytes f) then SR_SUCCESS else SR_BLOCK, min (length data) (length (free_bytes f)), f')
        \<and> held_bytes f' = held_bytes f @ take (length (free_bytes f)) data)
    \<and> (\<exists>f'. ReadAll fifo_read n f =
        Some (if n \<le> length (held_bytes f) then SR_SUCCESS else SR_BLOCK, take n (held_bytes f), f')
        \<and> held_bytes f' = drop n (held_bytes f))
    \<and> (\<exists>f'. ReadLine fifo_read f =
        Some (if held_bytes f = [] then SR_BLOCK else SR_SUCCESS, takeWhile (\<lambda>c. c \<noteq> CHR 0x0A) (held_bytes f), f')
        \<and> held_bytes f' = tl (dropWhile (\<lambda>c. c \<noteq> CHR 0x0A) (held_bytes f)))"
proof (intro conjI)
  have ok: "fifo_ok f"
    using fifo_sim.steps_simulated [OF FifoBuffer_pipe(1), of ops junk] assms(1) unfolding assms(2) by (simp add: FifoBuffer_pipe(2))
  show "\<exists>f'. WriteAll fifo_write data f =
        Some (if length data \<le> length (free_bytes f) then SR_SUCCESS else SR_BLOCK, min (length data) (length (free_bytes f)), f')
        \<and> held_bytes f' = held_bytes f @ take (length (free_bytes f)) data"
    by (rule WriteAll_fifo [OF ok assms(3)])
  show "\<exists>f'. ReadAll fifo_read n f = Some (if n \<le> length (held_bytes f) then SR_SUCCESS else SR_BLOCK, take n (held_bytes f), f')
        \<and> held_bytes f' = drop n (held_bytes f)"
    using ReadAll_fifo [OF ok, of n] assms(3) by auto
  show "\<exists>f'. ReadLine fifo_read f =
        Some (if held_bytes f = [] then SR_BLOCK else SR_SUCCESS, takeWhile (\<lambda>c. c \<noteq> CHR 0x0A) (held_bytes f), f')
        \<and> held_bytes f' = tl (dropWhile (\<lambda>c. c \<noteq> CHR 0x0A) (held_bytes f))"
    using read_line_loop_fifo [OF ok, of "[]"] assms(3)
    by (cases "held_bytes f") (auto simp: ReadLine_def)
qed

lemma stream_loops_return_witness:
  "map_option (\<lambda>(r, line, f). (r, line)) (ReadLine fifo_read (snd (steps ff_do [OpWrite (''ab'' @ [CHR 0x0A] @ ''c'')] (FifoBuffer ''------''))))
     = Some (SR_SUCCESS, ''ab'')"
proof -
  let ?f = "snd (steps ff_do [OpWrite (''ab'' @ [CHR 0x0A] @ ''c'')] (FifoBuffer ''------''))"
  have a: "all_allowed pipe_allows pipe_do [OpWrite (''ab'' @ [CHR 0x0A] @ ''c'')] (pipe_new ''------'')" by code_simp
  have f: "\<not> ff_closed ?f" "held_bytes ?f = ''ab'' @ [CHR 0x0A] @ ''c''" by code_simp+
  from stream_loops_return [OF a refl f(1)]
  obtain f' where "ReadLine fifo_read ?f = Some (if held_bytes ?f = [] then SR_BLOCK else SR_SUCCESS, takeWhile (\<lambda>c. c \<noteq> CHR 0x0A) (held_bytes ?f), f')"
    by blast
  then show ?thesis unfolding f(2) by simp
qed

end
