(* ===== verification/Spec2Isabelle.thy ===== *)
theory Spec2Isabelle
  imports XmlRound Stanzas Connection Replies StringLaws ByteBuffers RosterPush ChatRoom TaskTimeouts ClientSafety
    MessageQueueLaws RoomTasks Hangouts XmlChain FifoLaws
begin

text \<open>
  A model of gxmpp, an XMPP client built on libjingle: the C++ of \<open>src/talk\<close>. Every definition is
  translated from the source, one per function, under the name of the function where it is free; a
  name that several classes share has the class or its component as a prefix.

  \<^bold>\<open>The program and its theories.\<close> From below:

  \<^item> Shared: \<open>Prelude\<close> (the operations of \<open>std::string\<close>, options, lists), \<open>StdMaps\<close> (\<open>std::map\<close> as the
    sorted list of its pairs).
  \<^item> \<open>talk/base\<close>: \<open>Base64s\<close> (\<open>base64.cc\<close>); \<open>StringCodes\<close> and \<open>StringLaws\<close> (\<open>stringencode.cc\<close>,
    \<open>stringutils.cc\<close>); \<open>StringNumbers\<close> (\<open>stringencode.h\<close>); \<open>ByteOrders\<close> and \<open>ByteBuffers\<close> (\<open>byteorder.h\<close>,
    \<open>bytebuffer.cc\<close>); \<open>TimeUtils\<close> (\<open>timeutils.cc\<close>); \<open>MessageQueues\<close> and \<open>MessageQueueLaws\<close>
    (\<open>messagequeue.cc\<close>); \<open>FifoBuffers\<close> and \<open>FifoLaws\<close> (the ring buffer of \<open>stream.cc\<close>); \<open>Tasks\<close>,
    \<open>TaskTree\<close>, \<open>TaskInvariants\<close>, \<open>TaskLaws\<close> and \<open>TaskTimeouts\<close> (\<open>task.cc\<close>, \<open>taskparent.cc\<close>,
    \<open>taskrunner.cc\<close>).
  \<^item> \<open>talk/xmllite\<close>: \<open>QNames\<close>, \<open>XmlElements\<close>, \<open>XmlNs\<close>, \<open>XmlPrint\<close>, \<open>XmlParse\<close> and \<open>XmlBuild\<close>, one for each
    source file; \<open>XmlChain\<close> has the links of the child list, \<open>XmlRound\<close> relates printing and parsing.
  \<^item> The engine of \<open>talk/xmpp\<close>: \<open>XmppConstants\<close> and \<open>XmppNames\<close> (\<open>constants.cc\<close>), \<open>Jids\<close> (\<open>jid.cc\<close>),
    \<open>Sasl\<close> (the SASL mechanisms), \<open>Stanzas\<close> (\<open>xmppstanzaparser.cc\<close>), \<open>EngineCore\<close> and \<open>EngineInput\<close>
    (\<open>xmppengineimpl.cc\<close>, \<open>xmppengineimpl_iq.cc\<close>), \<open>Login\<close> (\<open>xmpplogintask.cc\<close>).
  \<^item> Its guarantees: \<open>Session\<close> is the abstract specification of a connection, \<open>Connection\<close> and \<open>Replies\<close>
    are proved by refinement to it.
  \<^item> The modules on the engine: \<open>Presence\<close>, \<open>Contacts\<close>, \<open>Roster\<close> and \<open>RosterPush\<close>
    (\<open>rostermoduleimpl.cc\<close>, \<open>moduleimpl.cc\<close>), \<open>ChatRoom\<close> (\<open>chatroommoduleimpl.cc\<close>).
  \<^item> The client: \<open>PresenceStatus\<close>, \<open>XmppAuths\<close>, \<open>XmppTasks\<close> (the task classes) and \<open>Client\<close> (\<open>xmppclient.cc\<close>,
    \<open>xmpppump.cc\<close> and what the tasks do), with \<open>ClientEngine\<close>, \<open>ClientLaws\<close> and \<open>ClientSafety\<close>.
  \<^item> What is built on tasks: \<open>RoomTasks\<close>, \<open>PubSubs\<close> and \<open>Hangouts\<close>.

  \<^bold>\<open>How the parts interact.\<close> Bytes from the socket go to \<open>HandleInput\<close>, which gives them to the stanza
  parser; expat calls back into the parser and the builder, and each whole stanza comes to
  \<open>IncomingStanza\<close>. Until the engine is open the login task takes it (\<open>Advance\<close>); later the iq
  entries, the handlers by level and the error reply see it in this order. Everything the engine says
  to the outside is a call in its trace (\<open>engine_call\<close>); \<open>Client\<close> carries the calls out after each
  entry (\<open>drain\<close>): bytes to the socket, states to the listeners, stanzas to the queues of tasks. The
  tasks run in the framework of \<open>Tasks\<close>, whose world has a heap of tasks, the list of the runner and the
  members of the subclasses (\<open>user\<close>); a virtual function is a program of calls to the framework, looked
  up in a table. The message queue is what wakes the pump; it has its own model.

  \<^bold>\<open>What the lemmas show.\<close> Per component: invariants that each operation keeps, the behaviour of each
  branch, errors included, round trips of the codecs and the printers, and refinements to lists, maps,
  byte queues and the abstract session. Over the whole: a connection moves along the session under
  every sequence of inputs and calls (\<open>connection_refines_session\<close>), no credentials before TLS
  (\<open>tls_before_auth\<close>), an iq is answered once (\<open>iq_answered_once\<close>); under every sequence of operations, inputs and
  runs a client touches no deleted task and leaves no stanza behind (\<open>ClientSafety\<close>). Locales hold the
  interfaces: three-way orders, attribute lists and \<open>std::map\<close>, the scopes of namespaces, the client of the
  parser, the provider of SASL, the relations that runs of the engine and of the login keep, the byte
  queue, the simulation of a pipe by the ring buffer, and the invariants of the message queue and of
  programs on tasks; each is interpreted on the model.

  \<^bold>\<open>Parameters.\<close> Expat (\<open>third_party\<close>) is the function \<open>feed\<close>: for a chunk it gives the callbacks, the new
  state, the status and the position. The application is \<open>app\<close> for the engine (what the handlers and
  listeners call) and \<open>env_react\<close> for the client. Results of the socket, waits of the socket server, time
  stamps, the byte order of the host (\<open>big\<close>) and the contents of fresh memory (\<open>junk\<close>) are arguments. A
  listener of a state change that calls the client again does it as a later operation.

  \<^bold>\<open>Conventions.\<close> A null pointer that is followed is \<open>None\<close> (or \<open>cl_crashed\<close>, or a flag of the world); ASSERTs are
  those of a release build, which has none. Integers that can wrap are words; the counters of ids and
  of addresses are unbounded, and a deleted address is not used again. Loops that always end are total
  functions; those that may not end are \<open>partial_function (option)\<close> (the handlers of a stanza, the
  runner of tasks, the items of \<open>PubsubTask\<close>, the loops over streams), so that not returning is a value,
  or have fuel: the tree of tasks is aborted to the depth \<open>length heap + 1\<close>, which is enough because the
  children of a task are younger than it. Pointers to parents and children are addresses in the heap;
  elements are values, and where two owners share one the model copies as the code does.

  \<^bold>\<open>Not modelled.\<close> Sockets, threads and their glue: \<open>physicalsocketserver\<close>, \<open>asyncsocket\<close>, \<open>asyncfile\<close>,
  \<open>nethelpers\<close>, \<open>socketaddress\<close>, \<open>ipaddress\<close>, \<open>proxyinfo\<close>, \<open>thread\<close>, \<open>signalthread\<close>, \<open>criticalsection\<close>,
  \<open>logging\<close> and the other streams of \<open>stream\<close> in \<open>talk/base\<close>, \<open>xmppsocket\<close> and \<open>xmppthread\<close> of
  \<open>talk/xmpp\<close>: their substance is calls to the system. \<open>sigslot.h\<close> and the smart pointers are generic templates: a signal is modelled
  where it is used, by the calls of its slots in the order in which they were connected. Outside are also
  the command line programs \<open>gxmpp\<close> and \<open>examples\<close>, and \<open>third_party\<close>. In the modelled files: the names behind
  \<open>FEATURE_ENABLE_VOICEMAIL\<close> and \<open>FEATURE_ENABLE_PSTN\<close>, the \<open>_DEBUG\<close> counters of tasks, \<open>SignalDisconnected\<close>, which nothing
  emits, and the wide-character helpers of Windows. The destructor of \<open>PresenceReceiveTask\<close>, which follows a
  pointer to a deleted parent, is kept apart from the deletion of tasks and has its own theorem.
\<close>

end
